(* ===== verification/Rust_Prelude.thy ===== *)
theory Rust_Prelude
  imports Main "HOL-Library.List_Lexorder" "HOL-Library.Char_ord" "HOL-Library.Sublist"
begin

text \<open>
  Prelude of the development: the parts of the Rust standard library, of
  \<open>serde_json\<close> values and of chrono instants that the components of the server use.

  A Rust \<open>String\<close> is a \<^typ>\<open>string\<close> whose elements are Unicode scalar values below
  U+0100 (the Latin-1 block). Characters and UTF-8 bytes are kept apart
  (\<open>utf8_len\<close>), because the code mixes \<open>str::len\<close> with indices into a
  \<open>Vec<char>\<close>; scalar values above U+00FF are outside the model.

  A \<open>Result<A, E>\<close> is \<^typ>\<open>'e + 'a\<close> with \<open>Inl\<close> for \<open>Err\<close>; an
  \<open>Option\<close> is \<^typ>\<open>'a option\<close>. A \<open>BTreeMap<String, V>\<close> is its iteration
  sequence, an association list with strictly increasing keys (\<open>bt_wf\<close>).
  An instant is an \<^typ>\<open>int\<close>, in nanoseconds since the Unix epoch.
\<close>

named_theorems rust_str \<open>rewrite rules for the string operations\<close>
named_theorems rust_res \<open>rewrite rules for results and early returns\<close>

section \<open>Characters\<close>

definition ccode :: "char \<Rightarrow> nat" where
  "ccode c = of_char c"

text \<open>\<open>char::is_whitespace\<close>: the White\_Space property below U+0100.\<close>

definition is_ws :: "char \<Rightarrow> bool" where
  "is_ws c = (let n = ccode c in (9 \<le> n \<and> n \<le> 13) \<or> n = 32 \<or> n = 133 \<or> n = 160)"

definition is_ascii_upper :: "char \<Rightarrow> bool" where
  "is_ascii_upper c = (65 \<le> ccode c \<and> ccode c \<le> 90)"

definition is_ascii_lower :: "char \<Rightarrow> bool" where
  "is_ascii_lower c = (97 \<le> ccode c \<and> ccode c \<le> 122)"

definition is_ascii_alpha :: "char \<Rightarrow> bool" where
  "is_ascii_alpha c = (is_ascii_upper c \<or> is_ascii_lower c)"

definition is_ascii_digit :: "char \<Rightarrow> bool" where
  "is_ascii_digit c = (48 \<le> ccode c \<and> ccode c \<le> 57)"

definition is_ascii_alnum :: "char \<Rightarrow> bool" where
  "is_ascii_alnum c = (is_ascii_alpha c \<or> is_ascii_digit c)"

text \<open>
  \<open>char::is_alphanumeric\<close>: alphabetic or numeric in Unicode's sense; above ASCII and
  below U+0100 these are the ordinal indicators, the micro sign, the letters from U+00C0 on
  but for the two signs U+00D7 and U+00F7, and the superscripts and fractions.
\<close>

definition is_alphanumeric :: "char \<Rightarrow> bool" where
  "is_alphanumeric c =
     (is_ascii_alnum c \<or>
      (let n = ccode c in
        n \<in> {170, 181, 186} \<or> n \<in> {178, 179, 185, 188, 189, 190} \<or>
        (192 \<le> n \<and> n \<noteq> 215 \<and> n \<noteq> 247)))"

definition to_ascii_upper :: "char \<Rightarrow> char" where
  "to_ascii_upper c = (if is_ascii_lower c then char_of (ccode c - 32) else c)"

definition to_ascii_lower :: "char \<Rightarrow> char" where
  "to_ascii_lower c = (if is_ascii_upper c then char_of (ccode c + 32) else c)"

text \<open>\<open>char::to_lowercase\<close> below U+0100 (a single scalar value there).\<close>

definition to_lower :: "char \<Rightarrow> char" where
  "to_lower c =
     (if is_ascii_upper c \<or> (192 \<le> ccode c \<and> ccode c \<le> 222 \<and> ccode c \<noteq> 215)
      then char_of (ccode c + 32) else c)"

definition newline :: char where
  "newline = CHR 0x0A"

lemma is_ws_newline [simp]: "is_ws newline"
  by (simp add: is_ws_def newline_def ccode_def)

lemma is_ws_space [simp]: "is_ws (CHR 0x20)"
  by (simp add: is_ws_def ccode_def)

section \<open>Strings\<close>

text \<open>\<open>str::len\<close>: bytes of the UTF-8 encoding (two from U+0080 on).\<close>

definition utf8_len :: "string \<Rightarrow> nat" where
  "utf8_len s = sum_list (map (\<lambda>c. if ccode c < 128 then 1 else 2) s)"

lemma utf8_len_ge_length: "length s \<le> utf8_len s"
  by (induction s) (auto simp: utf8_len_def)

definition trim_start :: "string \<Rightarrow> string" where
  "trim_start s = dropWhile is_ws s"

definition trim_end :: "string \<Rightarrow> string" where
  "trim_end s = rev (dropWhile is_ws (rev s))"

definition trim :: "string \<Rightarrow> string" where
  "trim s = trim_end (trim_start s)"

definition starts_with :: "string \<Rightarrow> string \<Rightarrow> bool" where
  "starts_with p s = (take (length p) s = p)"

text \<open>\<open>str::find\<close> of a substring, as an index into the characters.\<close>

fun find_sub :: "string \<Rightarrow> string \<Rightarrow> nat option" where
  "find_sub p [] = (if p = [] then Some 0 else None)"
| "find_sub p (c # cs) =
     (if starts_with p (c # cs) then Some 0 else map_option Suc (find_sub p cs))"

definition contains_sub :: "string \<Rightarrow> string \<Rightarrow> bool" where
  "contains_sub p s = (find_sub p s \<noteq> None)"

text \<open>\<open>str::split_once\<close> at the first occurrence of a character.\<close>

fun split_once :: "char \<Rightarrow> string \<Rightarrow> (string \<times> string) option" where
  "split_once d [] = None"
| "split_once d (c # cs) =
     (if c = d then Some ([], cs)
      else map_option (\<lambda>(a, b). (c # a, b)) (split_once d cs))"

text \<open>\<open>str::split\<close> at every occurrence of a character.\<close>

fun split_on :: "char \<Rightarrow> string \<Rightarrow> string list" where
  "split_on d [] = [[]]"
| "split_on d (c # cs) =
     (if c = d then [] # split_on d cs
      else (case split_on d cs of [] \<Rightarrow> [[c]] | w # ws \<Rightarrow> (c # w) # ws))"

text \<open>
  \<open>str::lines\<close>: pieces between line feeds, without the empty piece after a final line feed;
  a carriage return before a line feed belongs to the line end.
\<close>

definition strip_cr :: "string \<Rightarrow> string" where
  "strip_cr s = (if s \<noteq> [] \<and> last s = CHR 0x0D then butlast s else s)"

fun lines_of :: "string list \<Rightarrow> string list" where
  "lines_of [] = []"
| "lines_of [w] = (if w = [] then [] else [w])"
| "lines_of (w # ws) = strip_cr w # lines_of ws"

definition str_lines :: "string \<Rightarrow> string list" where
  "str_lines s = lines_of (split_on newline s)"

text \<open>\<open>str::replace\<close> for a non-empty pattern.\<close>

function replace_all :: "string \<Rightarrow> string \<Rightarrow> string \<Rightarrow> string" where
  "replace_all p r s =
     (if p = [] \<or> s = [] then s
      else if starts_with p s then r @ replace_all p r (drop (length p) s)
      else hd s # replace_all p r (tl s))"
  by pat_completeness auto
termination
  by (relation "measure (\<lambda>(p, r, s). length s)") auto

declare replace_all.simps [simp del]

text \<open>\<open>str::replace\<close> of one character by a string.\<close>

definition replace_char :: "char \<Rightarrow> string \<Rightarrow> string \<Rightarrow> string" where
  "replace_char c r s = concat (map (\<lambda>x. if x = c then r else [x]) s)"

fun join :: "string \<Rightarrow> string list \<Rightarrow> string" where
  "join sep [] = []"
| "join sep [w] = w"
| "join sep (w # ws) = w @ sep @ join sep ws"

subsection \<open>Decimal numbers\<close>

definition digit_char :: "nat \<Rightarrow> char" where
  "digit_char d = char_of (48 + d)"

fun show_nat :: "nat \<Rightarrow> string" where
  "show_nat n = (if n < 10 then [digit_char n] else show_nat (n div 10) @ [digit_char (n mod 10)])"

declare show_nat.simps [simp del]

definition digits_val :: "string \<Rightarrow> nat" where
  "digits_val s = foldl (\<lambda>n c. 10 * n + (ccode c - 48)) 0 s"

text \<open>
  \<open>str::parse\<close> at an unsigned type with largest value \<open>mx\<close>: an optional plus sign,
  at least one digit, nothing else, no overflow.
\<close>

definition parse_unsigned :: "nat \<Rightarrow> string \<Rightarrow> nat option" where
  "parse_unsigned mx s =
     (let ds = (case s of c # cs \<Rightarrow> if c = CHR ''+'' then cs else s | [] \<Rightarrow> s)
      in if ds = [] \<or> \<not> list_all is_ascii_digit ds \<or> mx < digits_val ds then None
         else Some (digits_val ds))"

lemma parse_unsigned_bound: "parse_unsigned mx s = Some n \<Longrightarrow> n \<le> mx"
  by (auto simp: parse_unsigned_def Let_def split: if_splits)

section \<open>Lemmas on strings\<close>

lemma starts_with_append [simp, rust_str]: "starts_with p (p @ s)"
  by (simp add: starts_with_def)

lemma starts_with_iff_prefix: "starts_with p s \<longleftrightarrow> prefix p s"
  by (metis append_eq_conv_conj append_take_drop_id prefixE prefixI starts_with_def)

lemma contains_sub_iff_sublist: "contains_sub p s \<longleftrightarrow> sublist p s"
proof (induction s)
  case Nil
  show ?case by (simp add: contains_sub_def)
next
  case (Cons c cs)
  then show ?case
    by (auto simp: contains_sub_def starts_with_iff_prefix sublist_Cons_right)
qed

lemma find_sub_at: "find_sub p s = Some i \<Longrightarrow> \<exists>r. s = take i s @ p @ r \<and> i + length p \<le> length s"
proof (induction s arbitrary: i)
  case Nil
  then show ?case by (auto split: if_splits)
next
  case (Cons c cs)
  show ?case
  proof (cases "starts_with p (c # cs)")
    case True
    then have "prefix p (c # cs)" by (simp add: starts_with_iff_prefix)
    with True Cons.prems show ?thesis
      by (metis append.left_neutral append_take_drop_id find_sub.simps(2) option.inject
          prefix_length_le starts_with_def take_0 add_0)
  next
    case False
    with Cons.prems obtain j where "i = Suc j" "find_sub p cs = Some j" by auto
    with Cons.IH [of j] show ?thesis by auto
  qed
qed

lemma find_sub_first: "find_sub p s = Some i \<Longrightarrow> j < i \<Longrightarrow> \<not> starts_with p (drop j s)"
proof (induction s arbitrary: i j)
  case Nil
  then show ?case by (auto split: if_splits)
next
  case (Cons c cs)
  show ?case
  proof (cases "starts_with p (c # cs)")
    case True
    with Cons.prems show ?thesis by simp
  next
    case False
    with Cons.prems obtain k where k: "i = Suc k" "find_sub p cs = Some k" by auto
    show ?thesis
    proof (cases j)
      case 0
      with False show ?thesis by simp
    next
      case (Suc j')
      with Cons.IH [OF k(2), of j'] k Cons.prems(2) show ?thesis by simp
    qed
  qed
qed

lemma trim_end_Nil [simp]: "trim_end [] = []"
  by (simp add: trim_end_def)

lemma trim_Nil [simp]: "trim [] = []"
  by (simp add: trim_def trim_start_def)

lemma trim_eq_Nil_iff: "trim s = [] \<longleftrightarrow> list_all is_ws s"
proof -
  have "trim s = [] \<longleftrightarrow> (\<forall>c \<in> set (dropWhile is_ws s). is_ws c)"
    by (auto simp: trim_def trim_end_def trim_start_def)
  also have "\<dots> \<longleftrightarrow> list_all is_ws s"
    by (induction s) (auto simp: list_all_iff)
  finally show ?thesis .
qed

lemma last_trim_end: "trim_end s \<noteq> [] \<Longrightarrow> \<not> is_ws (last (trim_end s))"
  by (simp add: trim_end_def last_rev hd_dropWhile)

lemma trim_end_prefix: "prefix (trim_end s) s"
  using suffix_dropWhile [of is_ws "rev s"] unfolding trim_end_def
  by (metis rev_rev_ident suffix_to_prefix)

lemma hd_trim: "trim s \<noteq> [] \<Longrightarrow> \<not> is_ws (hd (trim s))"
proof -
  assume ne: "trim s \<noteq> []"
  then have "prefix (trim s) (trim_start s)" "trim_start s \<noteq> []"
    by (auto simp: trim_def trim_end_prefix)
  then have "hd (trim s) = hd (trim_start s)"
    using ne by (auto elim!: prefixE)
  with \<open>trim_start s \<noteq> []\<close> show ?thesis
    by (simp add: trim_start_def hd_dropWhile)
qed

lemma trim_id:
  assumes "s \<noteq> []" "\<not> is_ws (hd s)" "\<not> is_ws (last s)"
  shows "trim s = s"
proof -
  have "dropWhile is_ws s = s" using assms by (cases s) auto
  moreover have "dropWhile is_ws (rev s) = rev s"
    using assms by (cases "rev s") (auto simp: last_rev hd_rev [symmetric])
  ultimately show ?thesis by (simp add: trim_def trim_start_def trim_end_def)
qed

lemma trim_idem [simp, rust_str]: "trim (trim s) = trim s"
proof (cases "trim s = []")
  case False
  moreover from False have "\<not> is_ws (last (trim s))"
    by (metis last_trim_end trim_def)
  ultimately show ?thesis by (intro trim_id) (auto simp: hd_trim)
qed simp

lemma filter_trim [rust_str]:
  assumes "\<And>c. P c \<Longrightarrow> \<not> is_ws c"
  shows "filter P (trim s) = filter P s"
proof -
  have dw: "filter P (dropWhile is_ws t) = filter P t" for t
    by (induction t) (auto dest: assms)
  have "filter P (trim s) = rev (filter P (dropWhile is_ws (rev (dropWhile is_ws s))))"
    by (simp add: trim_def trim_end_def trim_start_def rev_filter)
  also have "\<dots> = filter P s"
    by (simp add: dw rev_filter)
  finally show ?thesis .
qed

lemma set_trim: "set (trim s) \<subseteq> set s"
  by (auto simp: trim_def trim_end_def trim_start_def dest!: set_dropWhileD)

lemma split_once_Some:
  "split_once d s = Some (a, b) \<longleftrightarrow> s = a @ d # b \<and> d \<notin> set a"
proof (induction s arbitrary: a b)
  case Nil
  show ?case by simp
next
  case (Cons c cs)
  show ?case
    by (cases a) (auto simp: Cons.IH split: if_splits)
qed

lemma split_on_ne [simp]: "split_on d s \<noteq> []"
  by (induction s) (auto split: list.splits)

lemma split_on_no_sep: "w \<in> set (split_on d s) \<Longrightarrow> d \<notin> set w"
proof (induction s arbitrary: w)
  case (Cons c cs)
  then show ?case by (auto split: if_splits list.splits)
qed simp

lemma set_split_on: "w \<in> set (split_on d s) \<Longrightarrow> set w \<subseteq> set s"
proof (induction s arbitrary: w)
  case (Cons c cs)
  then show ?case by (fastforce split: if_splits list.splits)
qed simp

lemma set_strip_cr: "set (strip_cr w) \<subseteq> set w"
  by (auto simp: strip_cr_def dest: in_set_butlastD)

lemma set_lines_of: "l \<in> set (lines_of ws) \<Longrightarrow> \<exists>w \<in> set ws. set l \<subseteq> set w"
proof (induction ws rule: lines_of.induct)
  case (3 w v vs)
  then show ?case using set_strip_cr [of w] by (auto; blast)
qed (auto split: if_splits)

lemma str_lines_no_newline: "l \<in> set (str_lines s) \<Longrightarrow> newline \<notin> set l"
  unfolding str_lines_def by (meson set_lines_of split_on_no_sep subsetD)

lemma length_filter_mono: "(\<And>x. P x \<Longrightarrow> Q x) \<Longrightarrow> length (filter P xs) \<le> length (filter Q xs)"
  by (induction xs) (auto intro: le_SucI)

subsection \<open>Decimal numbers and joined lists\<close>

lemma is_ascii_digit_digit_char: "d < 10 \<Longrightarrow> is_ascii_digit (digit_char d)"
  by (simp add: is_ascii_digit_def digit_char_def ccode_def of_char_of)

lemma ccode_digit_char: "d < 10 \<Longrightarrow> ccode (digit_char d) = 48 + d"
  by (simp add: digit_char_def ccode_def of_char_of)

lemma show_nat_digits: "list_all is_ascii_digit (show_nat n)"
  by (induction n rule: show_nat.induct)
    (subst show_nat.simps, simp add: is_ascii_digit_digit_char)

lemma show_nat_ne [simp]: "show_nat n \<noteq> []"
  by (subst show_nat.simps) simp

lemma digits_val_snoc: "digits_val (s @ [c]) = 10 * digits_val s + (ccode c - 48)"
  by (simp add: digits_val_def)

lemma digits_val_show_nat [rust_str]: "digits_val (show_nat n) = n"
proof (induction n rule: show_nat.induct)
  case (1 n)
  show ?case
  proof (cases "n < 10")
    case True
    then show ?thesis by (subst show_nat.simps) (simp add: digits_val_def ccode_digit_char)
  next
    case False
    with 1 show ?thesis
      by (subst show_nat.simps) (simp add: digits_val_snoc ccode_digit_char)
  qed
qed

lemma not_digit_notin_show_nat: "\<not> is_ascii_digit c \<Longrightarrow> c \<notin> set (show_nat n)"
  using show_nat_digits [of n] by (auto simp: list_all_iff)

lemma parse_unsigned_show_nat [rust_str]: "n \<le> mx \<Longrightarrow> parse_unsigned mx (show_nat n) = Some n"
proof -
  have "(case show_nat n of c # cs \<Rightarrow> if c = CHR ''+'' then cs else show_nat n | [] \<Rightarrow> show_nat n) =
      show_nat n"
    using not_digit_notin_show_nat [of "CHR ''+''" n]
    by (auto simp: is_ascii_digit_def ccode_def split: list.splits)
  moreover assume "n \<le> mx"
  ultimately show ?thesis
    by (simp add: parse_unsigned_def show_nat_digits digits_val_show_nat)
qed

lemma split_on_append: "d \<notin> set w \<Longrightarrow> split_on d (w @ d # s) = w # split_on d s"
  by (induction w) auto

lemma split_on_single: "d \<notin> set w \<Longrightarrow> split_on d w = [w]"
  by (induction w) auto

lemma split_on_join [rust_str]:
  "ws \<noteq> [] \<Longrightarrow> (\<And>w. w \<in> set ws \<Longrightarrow> d \<notin> set w) \<Longrightarrow> split_on d (join [d] ws) = ws"
proof (induction ws)
  case (Cons w ws)
  then show ?case by (cases ws) (simp_all add: split_on_append split_on_single)
qed simp

section \<open>Ordered maps\<close>

type_synonym 'v btree = "(string \<times> 'v) list"

definition bt_wf :: "'v btree \<Rightarrow> bool" where
  "bt_wf m = sorted_wrt (<) (map fst m)"

definition bt_get :: "'v btree \<Rightarrow> string \<Rightarrow> 'v option" where
  "bt_get m k = map_of m k"

definition bt_contains :: "'v btree \<Rightarrow> string \<Rightarrow> bool" where
  "bt_contains m k = (bt_get m k \<noteq> None)"

text \<open>\<open>BTreeMap::insert\<close>: overwrite at an existing key, else insert in key order.\<close>

fun bt_insert :: "string \<Rightarrow> 'v \<Rightarrow> 'v btree \<Rightarrow> 'v btree" where
  "bt_insert k v [] = [(k, v)]"
| "bt_insert k v ((k', v') # m) =
     (if k < k' then (k, v) # (k', v') # m
      else if k = k' then (k, v) # m
      else (k', v') # bt_insert k v m)"

lemma bt_wf_Nil [simp]: "bt_wf []"
  by (simp add: bt_wf_def)

lemma set_bt_insert_keys: "fst ` set (bt_insert k v m) = insert k (fst ` set m)"
  by (induction k v m rule: bt_insert.induct) auto

lemma bt_wf_insert [simp, intro]: "bt_wf m \<Longrightarrow> bt_wf (bt_insert k v m)"
proof (induction k v m rule: bt_insert.induct)
  case (2 k v k' v' m)
  show ?case
  proof (cases "k' < k")
    case True
    have "bt_wf (bt_insert k v m)" using True 2 by (auto simp: bt_wf_def)
    moreover have "\<forall>x \<in> fst ` set (bt_insert k v m). k' < x"
      using True "2.prems" by (auto simp: set_bt_insert_keys bt_wf_def)
    ultimately show ?thesis using True by (auto simp: bt_wf_def)
  next
    case False
    with "2.prems" show ?thesis by (auto simp: bt_wf_def)
  qed
qed (simp add: bt_wf_def)

lemma bt_get_insert: "bt_wf m \<Longrightarrow> bt_get (bt_insert k v m) = (bt_get m)(k \<mapsto> v)"
  by (induction k v m rule: bt_insert.induct) (auto simp: bt_get_def bt_wf_def fun_eq_iff)

lemma bt_wf_distinct: "bt_wf m \<Longrightarrow> distinct (map fst m)"
  by (simp add: bt_wf_def strict_sorted_iff)

lemma bt_get_Some_iff: "bt_wf m \<Longrightarrow> bt_get m k = Some v \<longleftrightarrow> (k, v) \<in> set m"
  by (simp add: bt_get_def bt_wf_distinct)

lemma bt_contains_iff: "bt_contains m k \<longleftrightarrow> k \<in> fst ` set m"
  by (simp add: bt_contains_def bt_get_def map_of_eq_None_iff)

text \<open>A well-formed map is determined by its lookups: equality of maps is extensional.\<close>

lemma bt_ext:
  assumes "bt_wf m" "bt_wf m'" "bt_get m = bt_get m'"
  shows "m = m'"
proof -
  have get: "map_of m = map_of m'"
    using assms(3) by (simp add: bt_get_def fun_eq_iff)
  have d: "distinct (map fst m)" "distinct (map fst m')"
    using assms by (auto intro: bt_wf_distinct)
  have set: "set m = set m'"
    using d get by (metis map_of_eq_Some_iff set_eqI surj_pair)
  have "inj_on fst (set m)"
    using d(1) by (simp add: distinct_map)
  moreover have "sorted (map fst m)" "sorted (map fst m')"
    using assms by (simp_all add: bt_wf_def strict_sorted_iff)
  ultimately show ?thesis
    using set d by (intro map_sorted_distinct_set_unique [of fst]) simp_all
qed

section \<open>JSON values\<close>

text \<open>
  \<open>serde_json::Value\<close>. The workspace builds \<open>serde_json\<close> with \<open>preserve_order\<close>,
  so an object is the sequence of its entries in insertion order. Floating-point numbers do
  not occur in the modelled code.
\<close>

datatype json =
    JNull
  | JBool bool
  | JNum int
  | JStr string
  | JArr "json list"
  | JObj "(string \<times> json) list"

fun json_get :: "string \<Rightarrow> json \<Rightarrow> json option" where
  "json_get k (JObj kvs) = map_of kvs k"
| "json_get k _ = None"

fun json_as_str :: "json \<Rightarrow> string option" where
  "json_as_str (JStr s) = Some s"
| "json_as_str _ = None"

fun json_as_array :: "json \<Rightarrow> json list option" where
  "json_as_array (JArr xs) = Some xs"
| "json_as_array _ = None"

fun json_opt :: "('a \<Rightarrow> json) \<Rightarrow> 'a option \<Rightarrow> json" where
  "json_opt f None = JNull"
| "json_opt f (Some x) = f x"

lemma json_opt_inj: "(\<And>x y. f x = f y \<Longrightarrow> x = y) \<Longrightarrow> (\<And>x. f x \<noteq> JNull) \<Longrightarrow>
    json_opt f a = json_opt f b \<longleftrightarrow> a = b"
  by (cases a; cases b) (auto, metis+)

section \<open>Results\<close>

fun ok_or :: "'e \<Rightarrow> 'a option \<Rightarrow> 'e + 'a" where
  "ok_or e None = Inl e"
| "ok_or e (Some x) = Inr x"

definition or_else :: "'a option \<Rightarrow> 'a option \<Rightarrow> 'a option" where
  "or_else a b = (case a of None \<Rightarrow> b | Some x \<Rightarrow> Some x)"

text \<open>The question mark operator.\<close>

fun and_then :: "'e + 'a \<Rightarrow> ('a \<Rightarrow> 'e + 'b) \<Rightarrow> 'e + 'b" where
  "and_then (Inl e) f = Inl e"
| "and_then (Inr x) f = f x"

lemma and_then_Inr [rust_res]: "and_then r f = Inr y \<longleftrightarrow> (\<exists>x. r = Inr x \<and> f x = Inr y)"
  by (cases r) auto

lemma ok_or_Inr [rust_res]: "ok_or e r = Inr y \<longleftrightarrow> r = Some y"
  by (cases r) auto

end
