(* ===== verification/Sql_Split.thy ===== *)
theory Sql_Split
  imports Rust_Prelude
begin

text \<open>
  The script splitter of \<open>crates/automation/src/sql_split.rs\<close>.

  \<open>split_state\<close> holds the local variables of \<open>split_sql_script\<close>; each
  \<open>step_*\<close> definition is one branch of its main loop, \<open>split_step\<close> the loop body in
  the order of the source, \<open>split_loop\<close> the loop. The loop is given fuel; the script's
  length is always enough (\<open>split_loop_total\<close>), since each branch moves \<open>sp_i\<close> forward.
\<close>

named_theorems split_branch \<open>definitions of the branches of the main loop\<close>

section \<open>Model\<close>

record split_state =
  sp_i :: nat
  sp_buf :: string
  sp_statements :: "string list"
  sp_delimiter :: string
  sp_in_quote :: "char option"
  sp_begin_depth :: nat

definition quote_char :: char where
  "quote_char = CHR 0x27"

definition dquote_char :: char where
  "dquote_char = CHR 0x22"

definition backtick_char :: char where
  "backtick_char = CHR 0x60"

definition backslash_char :: char where
  "backslash_char = CHR 0x5C"

definition is_line_comment_start :: "string \<Rightarrow> nat \<Rightarrow> bool" where
  "is_line_comment_start chars i =
     (if chars ! i = CHR ''#'' then True
      else if chars ! i = CHR ''-'' \<and> i + 1 < length chars \<and> chars ! (i + 1) = CHR ''-'' then
        (if length chars \<le> i + 2 then True else is_ws (chars ! (i + 2)))
      else False)"

definition match_keyword :: "string \<Rightarrow> nat \<Rightarrow> string \<Rightarrow> nat option" where
  "match_keyword chars i kw =
     (if length chars < i + length kw then None
      else if \<not> list_all (\<lambda>k. to_ascii_upper (chars ! (i + k)) = kw ! k) [0..<length kw] then None
      else
        let after = i + length kw in
        if length chars \<le> after then Some after
        else if is_alphanumeric (chars ! after) \<or> chars ! after = CHR ''_'' then None
        else Some after)"

definition matches_str :: "string \<Rightarrow> nat \<Rightarrow> string \<Rightarrow> bool" where
  "matches_str chars i s =
     (if length chars < i + length s then False
      else list_all (\<lambda>k. chars ! (i + k) = s ! k) [0..<length s])"

definition matches_delimiter_directive :: "string \<Rightarrow> nat \<Rightarrow> bool" where
  "matches_delimiter_directive chars i = (match_keyword chars i ''DELIMITER'' \<noteq> None)"

text \<open>The text from \<open>i\<close> on while a test holds: the inner \<open>while\<close> loops of the source.\<close>

definition run_of :: "(char \<Rightarrow> bool) \<Rightarrow> string \<Rightarrow> nat \<Rightarrow> string" where
  "run_of P chars i = takeWhile P (drop i chars)"

text \<open>The text a block comment takes after its opening mark, the closing mark included.\<close>

fun comment_body :: "string \<Rightarrow> string" where
  "comment_body [] = []"
| "comment_body [c] = [c]"
| "comment_body (c # d # cs) =
     (if c = CHR ''*'' \<and> d = CHR ''/'' then [c, d] else c # comment_body (d # cs))"

definition step_in_quote :: "string \<Rightarrow> char \<Rightarrow> split_state \<Rightarrow> split_state" where
  "step_in_quote chars q st =
     (let i = sp_i st; c = chars ! i in
      if c = backslash_char \<and> i + 1 < length chars then
        st\<lparr>sp_buf := sp_buf st @ [c, chars ! (i + 1)], sp_i := i + 2\<rparr>
      else
        st\<lparr>sp_buf := sp_buf st @ [c], sp_i := i + 1,
           sp_in_quote := (if c = q then None else sp_in_quote st)\<rparr>)"

definition step_line_comment :: "string \<Rightarrow> split_state \<Rightarrow> split_state" where
  "step_line_comment chars st =
     (let t = run_of (\<lambda>c. c \<noteq> newline) chars (sp_i st) in
      st\<lparr>sp_buf := sp_buf st @ t, sp_i := sp_i st + length t\<rparr>)"

definition is_block_comment_start :: "string \<Rightarrow> nat \<Rightarrow> bool" where
  "is_block_comment_start chars i =
     (chars ! i = CHR ''/'' \<and> i + 1 < length chars \<and> chars ! (i + 1) = CHR ''*'')"

definition step_block_comment :: "string \<Rightarrow> split_state \<Rightarrow> split_state" where
  "step_block_comment chars st =
     (let i = sp_i st; t = comment_body (drop (i + 2) chars) in
      st\<lparr>sp_buf := sp_buf st @ [chars ! i, chars ! (i + 1)] @ t, sp_i := i + 2 + length t\<rparr>)"

definition step_quote_start :: "string \<Rightarrow> split_state \<Rightarrow> split_state" where
  "step_quote_start chars st =
     (let c = chars ! sp_i st in
      st\<lparr>sp_in_quote := Some c, sp_buf := sp_buf st @ [c], sp_i := sp_i st + 1\<rparr>)"

definition step_delimiter :: "string \<Rightarrow> split_state \<Rightarrow> split_state" where
  "step_delimiter chars st =
     (let j = sp_i st + length ''DELIMITER'';
          j = j + length (run_of (\<lambda>c. is_ws c \<and> c \<noteq> newline) chars j);
          raw = run_of (\<lambda>c. c \<noteq> newline) chars j;
          j = j + length raw;
          new_delim = trim raw in
      st\<lparr>sp_delimiter := (if new_delim \<noteq> [] then new_delim else sp_delimiter st),
         sp_buf := [], sp_i := j\<rparr>)"

definition step_begin :: "string \<Rightarrow> split_state \<Rightarrow> split_state" where
  "step_begin chars st =
     st\<lparr>sp_begin_depth := sp_begin_depth st + 1,
        sp_buf := sp_buf st @ take 5 (drop (sp_i st) chars), sp_i := sp_i st + 5\<rparr>"

text \<open>The final lines of the loop's terminator branch, and of the function.\<close>

definition flush_buf :: "split_state \<Rightarrow> split_state" where
  "flush_buf st =
     (let stmt = trim (sp_buf st) in
      st\<lparr>sp_statements := (if stmt \<noteq> [] then sp_statements st @ [stmt] else sp_statements st),
         sp_buf := []\<rparr>)"

text \<open>
  The position moves by the terminator's length in bytes, as in the source, although
  positions count characters.
\<close>

definition step_terminator :: "split_state \<Rightarrow> split_state" where
  "step_terminator st =
     (if 0 < sp_begin_depth st then
        st\<lparr>sp_buf := sp_buf st @ sp_delimiter st, sp_i := sp_i st + utf8_len (sp_delimiter st)\<rparr>
      else flush_buf (st\<lparr>sp_i := sp_i st + utf8_len (sp_delimiter st)\<rparr>))"

definition closes_block :: "string \<Rightarrow> split_state \<Rightarrow> bool" where
  "closes_block chars st =
     (0 < sp_begin_depth st \<and> match_keyword chars (sp_i st) ''END'' \<noteq> None \<and>
      (let k = sp_i st + 3;
           k = k + length (run_of (\<lambda>c. is_ws c \<and> c \<noteq> newline) chars k) in
       matches_str chars k (sp_delimiter st) \<or> length chars \<le> k))"

definition step_end :: "string \<Rightarrow> split_state \<Rightarrow> split_state" where
  "step_end chars st =
     st\<lparr>sp_buf := sp_buf st @ take 3 (drop (sp_i st) chars),
        sp_begin_depth := sp_begin_depth st - 1, sp_i := sp_i st + 3\<rparr>"

definition step_plain :: "string \<Rightarrow> split_state \<Rightarrow> split_state" where
  "step_plain chars st = st\<lparr>sp_buf := sp_buf st @ [chars ! sp_i st], sp_i := sp_i st + 1\<rparr>"

definition split_step :: "string \<Rightarrow> split_state \<Rightarrow> split_state" where
  "split_step chars st =
     (let i = sp_i st; c = chars ! i in
      case sp_in_quote st of
        Some q \<Rightarrow> step_in_quote chars q st
      | None \<Rightarrow>
          if is_line_comment_start chars i then step_line_comment chars st
          else if is_block_comment_start chars i then step_block_comment chars st
          else if c = quote_char \<or> c = dquote_char \<or> c = backtick_char then step_quote_start chars st
          else if trim (sp_buf st) = [] \<and> matches_delimiter_directive chars i
            then step_delimiter chars st
          else if match_keyword chars i ''BEGIN'' \<noteq> None then step_begin chars st
          else if matches_str chars i (sp_delimiter st) then step_terminator st
          else if closes_block chars st then step_end chars st
          else step_plain chars st)"

fun split_loop :: "nat \<Rightarrow> string \<Rightarrow> split_state \<Rightarrow> split_state option" where
  "split_loop 0 chars st = (if sp_i st < length chars then None else Some st)"
| "split_loop (Suc fuel) chars st =
     (if sp_i st < length chars then split_loop fuel chars (split_step chars st) else Some st)"

definition split_init :: split_state where
  "split_init = \<lparr>sp_i = 0, sp_buf = [], sp_statements = [], sp_delimiter = '';'',
                 sp_in_quote = None, sp_begin_depth = 0\<rparr>"

definition split_sql_script :: "string \<Rightarrow> string list option" where
  "split_sql_script script =
     map_option (\<lambda>st. sp_statements (flush_buf st)) (split_loop (length script) script split_init)"

declare step_in_quote_def [split_branch] step_line_comment_def [split_branch]
  step_block_comment_def [split_branch] step_quote_start_def [split_branch]
  step_delimiter_def [split_branch] step_begin_def [split_branch]
  step_terminator_def [split_branch] step_end_def [split_branch] step_plain_def [split_branch]
  flush_buf_def [split_branch]

text \<open>The splitter one would write first: \<open>split(';')\<close>, trim, drop empty pieces.\<close>

definition naive_split :: "string \<Rightarrow> string list" where
  "naive_split s = filter (\<lambda>w. w \<noteq> []) (map trim (split_on (CHR '';'') s))"

section \<open>The loop ends\<close>

lemma run_of_step:
  assumes "i < length chars"
  shows "run_of P chars i = (if P (chars ! i) then chars ! i # run_of P chars (i + 1) else [])"
proof -
  have "run_of P chars i = takeWhile P (chars ! i # drop (i + 1) chars)"
    using assms by (simp add: run_of_def Cons_nth_drop_Suc)
  then show ?thesis unfolding run_of_def by (simp only: takeWhile.simps)
qed

lemma line_comment_nonempty:
  assumes "i < length chars" "is_line_comment_start chars i"
  shows "run_of (\<lambda>c. c \<noteq> newline) chars i \<noteq> []"
proof -
  have "chars ! i \<noteq> newline"
    using assms(2) by (auto simp: is_line_comment_start_def newline_def split: if_splits)
  with assms(1) show ?thesis by (simp add: run_of_step)
qed

text \<open>A property of the loop body is one of each branch, under the branch's guard.\<close>

lemma split_step_cases [case_names in_quote line_comment block_comment quote_start directive begin_kw terminator end_kw plain]:
  assumes "\<And>q. sp_in_quote st = Some q \<Longrightarrow> P (step_in_quote chars q st)"
    and "sp_in_quote st = None \<Longrightarrow> is_line_comment_start chars (sp_i st) \<Longrightarrow>
           P (step_line_comment chars st)"
    and "sp_in_quote st = None \<Longrightarrow> is_block_comment_start chars (sp_i st) \<Longrightarrow>
           P (step_block_comment chars st)"
    and "sp_in_quote st = None \<Longrightarrow>
           chars ! sp_i st \<in> {quote_char, dquote_char, backtick_char} \<Longrightarrow>
           P (step_quote_start chars st)"
    and "sp_in_quote st = None \<Longrightarrow> trim (sp_buf st) = [] \<Longrightarrow>
           matches_delimiter_directive chars (sp_i st) \<Longrightarrow> P (step_delimiter chars st)"
    and "sp_in_quote st = None \<Longrightarrow> match_keyword chars (sp_i st) ''BEGIN'' \<noteq> None \<Longrightarrow>
           P (step_begin chars st)"
    and "sp_in_quote st = None \<Longrightarrow> matches_str chars (sp_i st) (sp_delimiter st) \<Longrightarrow>
           P (step_terminator st)"
    and "sp_in_quote st = None \<Longrightarrow> closes_block chars st \<Longrightarrow> P (step_end chars st)"
    and "sp_in_quote st = None \<Longrightarrow> \<not> matches_str chars (sp_i st) (sp_delimiter st) \<Longrightarrow>
           P (step_plain chars st)"
  shows "P (split_step chars st)"
proof (cases "sp_in_quote st")
  case None
  then show ?thesis
    unfolding split_step_def Let_def by (simp add: assms(2-9))
next
  case (Some q)
  then show ?thesis unfolding split_step_def Let_def by (simp add: assms(1))
qed

text \<open>What every branch keeps: the delimiter is not empty, and the position moves forward.\<close>

lemma split_step_delimiter: "sp_delimiter st \<noteq> [] \<Longrightarrow> sp_delimiter (split_step chars st) \<noteq> []"
  by (rule split_step_cases) (simp_all add: split_branch Let_def)

lemma split_step_advances:
  assumes ne: "sp_delimiter st \<noteq> []" and i: "sp_i st < length chars"
  shows "sp_i st < sp_i (split_step chars st)"
proof -
  have pos: "0 < utf8_len (sp_delimiter st)"
    using ne utf8_len_ge_length [of "sp_delimiter st"] by (cases "sp_delimiter st") auto
  show ?thesis
    by (rule split_step_cases)
      (simp_all add: split_branch Let_def pos line_comment_nonempty [OF i])
qed

lemma split_loop_total:
  "sp_delimiter st \<noteq> [] \<Longrightarrow> length chars \<le> sp_i st + fuel \<Longrightarrow>
     \<exists>st'. split_loop fuel chars st = Some st' \<and> length chars \<le> sp_i st'"
proof (induction fuel arbitrary: st)
  case 0
  then show ?case by simp
next
  case (Suc fuel)
  show ?case
  proof (cases "sp_i st < length chars")
    case True
    with Suc.prems split_step_advances [of st chars]
    have "length chars \<le> sp_i (split_step chars st) + fuel" by simp
    with Suc True show ?thesis by (simp add: split_step_delimiter)
  qed simp
qed

text \<open>More fuel does not change the result.\<close>

lemma split_loop_mono:
  "split_loop fuel chars st = Some st' \<Longrightarrow> fuel \<le> fuel' \<Longrightarrow> split_loop fuel' chars st = Some st'"
proof (induction fuel arbitrary: st fuel')
  case 0
  then show ?case by (cases fuel') (auto split: if_splits)
next
  case (Suc fuel)
  then show ?case by (cases fuel') (auto split: if_splits)
qed

text \<open>An invariant of the loop body holds at the end: the rule every proof below uses.\<close>

lemma split_loop_invariant:
  assumes "split_loop fuel chars st = Some st'" "I st"
    and "\<And>s. I s \<Longrightarrow> sp_i s < length chars \<Longrightarrow> I (split_step chars s)"
  shows "I st' \<and> length chars \<le> sp_i st'"
  using assms(1,2)
proof (induction fuel arbitrary: st)
  case (Suc fuel)
  then show ?case by (cases "sp_i st < length chars") (auto intro: assms(3))
qed (auto split: if_splits)

lemma split_sql_script_total: "\<exists>stmts. split_sql_script script = Some stmts"
proof -
  have "\<exists>st'. split_loop (length script) script split_init = Some st' \<and> length script \<le> sp_i st'"
    by (rule split_loop_total) (simp_all add: split_init_def)
  then show ?thesis by (auto simp: split_sql_script_def)
qed

text \<open>The splitter returns for every script.\<close>

theorem split_sql_script_returns: "\<exists>stmts. split_sql_script script = Some stmts"
  by (rule split_sql_script_total)

section \<open>Statements are trimmed and not empty\<close>

definition clean :: "string list \<Rightarrow> bool" where
  "clean ws = list_all (\<lambda>w. w \<noteq> [] \<and> trim w = w) ws"

lemma split_step_clean: "clean (sp_statements s) \<Longrightarrow> clean (sp_statements (split_step chars s))"
  by (rule split_step_cases) (simp_all add: split_branch Let_def clean_def)

text \<open>Every statement the splitter returns is non-empty and has no white space at its ends.\<close>

lemma split_sql_script_clean:
  "split_sql_script script = Some stmts \<Longrightarrow> s \<in> set stmts \<Longrightarrow> s \<noteq> [] \<and> trim s = s"
proof -
  assume "split_sql_script script = Some stmts" and s: "s \<in> set stmts"
  then obtain st where st: "split_loop (length script) script split_init = Some st"
    and out: "stmts = sp_statements (flush_buf st)"
    by (auto simp: split_sql_script_def)
  have "clean (sp_statements st)"
    using split_loop_invariant [OF st, of "\<lambda>s. clean (sp_statements s)"] split_step_clean
    by (simp add: split_init_def clean_def)
  then have "clean stmts" by (auto simp: out flush_buf_def Let_def clean_def)
  with s show ?thesis by (auto simp: clean_def list_all_iff)
qed

section \<open>No text is lost\<close>

definition keep :: "char \<Rightarrow> bool" where
  "keep c = (\<not> is_ws c \<and> c \<noteq> CHR '';'')"

lemma filter_keep_trim [rust_str]: "filter keep (trim s) = filter keep s"
  by (rule filter_trim) (simp add: keep_def)

lemma keep_if_blank: "trim s = [] \<Longrightarrow> filter keep s = []"
  using filter_keep_trim [of s] by simp

lemma comment_body_take: "take (length (comment_body s)) s = comment_body s"
  by (induction s rule: comment_body.induct) auto

lemma run_of_take: "take (length (run_of P chars i)) (drop i chars) = run_of P chars i"
  by (simp add: run_of_def takeWhile_eq_take [symmetric])

lemma take_one: "i < length chars \<Longrightarrow> take (i + 1) chars = take i chars @ [chars ! i]"
  by (simp add: take_Suc_conv_app_nth)

lemma take_two:
  "i + 1 < length chars \<Longrightarrow> take (i + 2) chars = take i chars @ [chars ! i, chars ! (i + 1)]"
  using take_one [of i chars] take_one [of "i + 1" chars] by simp

text \<open>A keyword match is an occurrence of the keyword in the upper-cased script.\<close>

lemma match_keyword_contains:
  assumes "match_keyword chars i kw \<noteq> None"
  shows "contains_sub kw (map to_ascii_upper chars)"
proof -
  let ?u = "map to_ascii_upper chars"
  from assms have len: "i + length kw \<le> length chars"
    and eq: "\<forall>k < length kw. to_ascii_upper (chars ! (i + k)) = kw ! k"
    by (auto simp: match_keyword_def list_all_iff split: if_splits)
  then have "take (length kw) (drop i ?u) = kw"
    by (intro nth_equalityI) auto
  then have "?u = take i ?u @ kw @ drop (length kw) (drop i ?u)"
    by (metis append_take_drop_id)
  then show ?thesis by (metis contains_sub_iff_sublist sublist_appendI)
qed

definition kept :: "split_state \<Rightarrow> string" where
  "kept st = filter keep (concat (sp_statements st) @ sp_buf st)"

definition kept_inv :: "string \<Rightarrow> split_state \<Rightarrow> bool" where
  "kept_inv chars st \<longleftrightarrow> sp_delimiter st = '';'' \<and> sp_i st \<le> length chars \<and>
     kept st = filter keep (take (sp_i st) chars)"

lemma matches_semicolon: "matches_str chars i '';'' \<longleftrightarrow> i < length chars \<and> chars ! i = CHR '';''"
  by (auto simp: matches_str_def)

lemma utf8_len_semicolon: "utf8_len '';'' = 1"
  by (simp add: utf8_len_def ccode_def)

lemma kept_flush: "kept (flush_buf st) = kept st"
  by (simp add: kept_def flush_buf_def Let_def filter_keep_trim keep_if_blank)

text \<open>A branch that copies the next characters of the script into the buffer keeps the invariant.\<close>

lemma kept_inv_copy:
  assumes inv: "kept_inv chars st"
    and st': "sp_delimiter st' = '';''" "sp_statements st' = sp_statements st"
      "sp_buf st' = sp_buf st @ t" "sp_i st' = sp_i st + length t"
    and t: "take (length t) (drop (sp_i st) chars) = t"
  shows "kept_inv chars st'"
proof -
  have "sp_i st' \<le> length chars"
  proof -
    have "length t \<le> length (drop (sp_i st) chars)" using t by (metis length_take min.cobounded1)
    moreover have "sp_i st \<le> length chars" using inv by (simp add: kept_inv_def)
    ultimately show ?thesis using st'(4) by simp
  qed
  moreover have "take (sp_i st') chars = take (sp_i st) chars @ t"
    using st'(4) t by (simp add: take_add)
  ultimately show ?thesis
    using inv st' by (simp add: kept_inv_def kept_def)
qed

lemma take_nth_one: "i < length chars \<Longrightarrow> take (length [chars ! i]) (drop i chars) = [chars ! i]"
  by (simp add: take_Suc_conv_app_nth hd_drop_conv_nth take_Suc)

lemma take_nth_two: "i + 1 < length chars \<Longrightarrow>
    take (length [chars ! i, chars ! (i + 1)]) (drop i chars) = [chars ! i, chars ! (i + 1)]"
  by (simp add: take_Suc hd_drop_conv_nth tl_drop drop_Suc [symmetric] numeral_2_eq_2)

lemma match_keyword_bound: "match_keyword chars i kw \<noteq> None \<Longrightarrow> i + length kw \<le> length chars"
  by (auto simp: match_keyword_def split: if_splits)

lemma take_block_comment:
  assumes "i + 1 < length chars"
  shows "take (length ([chars ! i, chars ! (i + 1)] @ comment_body (drop (i + 2) chars))) (drop i chars) =
           [chars ! i, chars ! (i + 1)] @ comment_body (drop (i + 2) chars)"
proof -
  have "drop i chars = [chars ! i, chars ! (i + 1)] @ drop (i + 2) chars"
    using assms by (simp add: Cons_nth_drop_Suc)
  then show ?thesis by (simp add: comment_body_take)
qed

lemma kept_inv_step:
  assumes inv: "kept_inv chars st" and i: "sp_i st < length chars"
    and nd: "\<not> matches_delimiter_directive chars (sp_i st)"
  shows "kept_inv chars (split_step chars st)"
proof (rule split_step_cases)
  fix q
  show "kept_inv chars (step_in_quote chars q st)"
    using inv take_nth_one [OF i] take_nth_two [of "sp_i st" chars]
    by (cases "chars ! sp_i st = backslash_char \<and> sp_i st + 1 < length chars";
        intro kept_inv_copy [OF inv]) (auto simp: step_in_quote_def Let_def kept_inv_def)
next
  show "kept_inv chars (step_line_comment chars st)"
    using inv by (intro kept_inv_copy [OF inv _ _ _ _ run_of_take])
      (auto simp: step_line_comment_def Let_def kept_inv_def)
next
  assume "is_block_comment_start chars (sp_i st)"
  then have "sp_i st + 1 < length chars" by (simp add: is_block_comment_start_def)
  then show "kept_inv chars (step_block_comment chars st)"
    using inv by (intro kept_inv_copy [OF inv _ _ _ _ take_block_comment])
      (auto simp: step_block_comment_def Let_def kept_inv_def)
next
  show "kept_inv chars (step_quote_start chars st)"
    using inv by (intro kept_inv_copy [OF inv _ _ _ _ take_nth_one [OF i]])
      (auto simp: step_quote_start_def Let_def kept_inv_def)
next
  assume "matches_delimiter_directive chars (sp_i st)"
  with nd show "kept_inv chars (step_delimiter chars st)" by simp
next
  assume "match_keyword chars (sp_i st) ''BEGIN'' \<noteq> None"
  from match_keyword_bound [OF this] inv show "kept_inv chars (step_begin chars st)"
    by (intro kept_inv_copy [OF inv, where t = "take 5 (drop (sp_i st) chars)"])
      (auto simp: step_begin_def kept_inv_def)
next
  assume m: "matches_str chars (sp_i st) (sp_delimiter st)"
  have d: "sp_delimiter st = '';''" using inv by (simp add: kept_inv_def)
  show "kept_inv chars (step_terminator st)"
    using inv m i take_one [OF i]
    by (auto simp: kept_inv_def step_terminator_def d matches_semicolon utf8_len_semicolon
        kept_flush) (auto simp: kept_def keep_def flush_buf_def Let_def d)
next
  assume "closes_block chars st"
  then have "match_keyword chars (sp_i st) ''END'' \<noteq> None" by (simp add: closes_block_def)
  from match_keyword_bound [OF this] inv show "kept_inv chars (step_end chars st)"
    by (intro kept_inv_copy [OF inv, where t = "take 3 (drop (sp_i st) chars)"])
      (auto simp: step_end_def kept_inv_def)
next
  show "kept_inv chars (step_plain chars st)"
    using inv by (intro kept_inv_copy [OF inv _ _ _ _ take_nth_one [OF i]])
      (auto simp: step_plain_def kept_inv_def)
qed



section \<open>Agreement with the naive split on plain scripts\<close>

definition plain_char :: "char \<Rightarrow> bool" where
  "plain_char c = (c \<notin> {quote_char, dquote_char, backtick_char, CHR ''#'', CHR ''-'', CHR ''/''})"

lemma split_on_no_occ: "d \<notin> set s \<Longrightarrow> split_on d s = [s]"
  by (induction s) auto

lemma split_on_first: "d \<notin> set a \<Longrightarrow> split_on d (a @ d # b) = a # split_on d b"
  by (induction a) auto

definition naive_inv :: "string \<Rightarrow> split_state \<Rightarrow> bool" where
  "naive_inv chars st \<longleftrightarrow> sp_delimiter st = '';'' \<and> sp_in_quote st = None \<and> sp_begin_depth st = 0 \<and>
     CHR '';'' \<notin> set (sp_buf st) \<and>
     naive_split chars = sp_statements st @ naive_split (sp_buf st @ drop (sp_i st) chars)"

lemma naive_inv_step:
  assumes inv: "naive_inv chars st" and i: "sp_i st < length chars"
    and plain: "list_all plain_char chars"
    and nd: "\<not> matches_delimiter_directive chars (sp_i st)"
    and nb: "match_keyword chars (sp_i st) ''BEGIN'' = None"
  shows "naive_inv chars (split_step chars st)"
proof (rule split_step_cases)
  fix q assume "sp_in_quote st = Some q"
  with inv show "naive_inv chars (step_in_quote chars q st)" by (simp add: naive_inv_def)
next
  have "plain_char (chars ! sp_i st)" using plain i by (simp add: list_all_length)
  note p = this [unfolded plain_char_def]
  show "is_line_comment_start chars (sp_i st) \<Longrightarrow> naive_inv chars (step_line_comment chars st)"
    using p by (simp add: is_line_comment_start_def)
  show "is_block_comment_start chars (sp_i st) \<Longrightarrow> naive_inv chars (step_block_comment chars st)"
    using p by (simp add: is_block_comment_start_def)
  show "chars ! sp_i st \<in> {quote_char, dquote_char, backtick_char} \<Longrightarrow>
      naive_inv chars (step_quote_start chars st)"
    using p by simp
next
  assume "matches_delimiter_directive chars (sp_i st)"
  with nd show "naive_inv chars (step_delimiter chars st)" by simp
next
  assume "match_keyword chars (sp_i st) ''BEGIN'' \<noteq> None"
  with nb show "naive_inv chars (step_begin chars st)" by simp
next
  assume "closes_block chars st"
  with inv show "naive_inv chars (step_end chars st)" by (simp add: closes_block_def naive_inv_def)
next
  assume m: "matches_str chars (sp_i st) (sp_delimiter st)"
  have d: "sp_delimiter st = '';''" using inv by (simp add: naive_inv_def)
  with m have c: "chars ! sp_i st = CHR '';''" by (simp add: matches_semicolon)
  then have "drop (sp_i st) chars = CHR '';'' # drop (sp_i st + 1) chars"
    using i by (metis Cons_nth_drop_Suc Suc_eq_plus1)
  with inv show "naive_inv chars (step_terminator st)"
    by (simp add: naive_inv_def step_terminator_def flush_buf_def Let_def d utf8_len_semicolon
        naive_split_def split_on_first)
next
  assume "\<not> matches_str chars (sp_i st) (sp_delimiter st)"
  with inv i have c: "chars ! sp_i st \<noteq> CHR '';''"
    by (simp add: naive_inv_def matches_semicolon)
  have "drop (sp_i st) chars = chars ! sp_i st # drop (sp_i st + 1) chars"
    using i by (metis Cons_nth_drop_Suc Suc_eq_plus1)
  with inv c show "naive_inv chars (step_plain chars st)"
    by (simp add: naive_inv_def step_plain_def)
qed

text \<open>
  On a script without quotes, comment marks and the two keywords, the splitter is the naive
  one: cut at semicolons, trim, drop empty pieces.
\<close>

theorem split_sql_script_plain:
  assumes plain: "list_all plain_char script"
    and nb: "\<not> contains_sub ''BEGIN'' (map to_ascii_upper script)"
    and nd: "\<not> contains_sub ''DELIMITER'' (map to_ascii_upper script)"
  shows "split_sql_script script = Some (naive_split script)"
proof -
  obtain st where st: "split_loop (length script) script split_init = Some st"
    using split_sql_script_returns [of script] by (auto simp: split_sql_script_def)
  have key: "match_keyword script i ''BEGIN'' = None" "\<not> matches_delimiter_directive script i" for i
    unfolding matches_delimiter_directive_def using nb nd match_keyword_contains by blast+
  have "naive_inv script split_init"
    by (simp add: naive_inv_def split_init_def)
  then have inv: "naive_inv script st" and e: "length script \<le> sp_i st"
    using split_loop_invariant [OF st, of "naive_inv script"] naive_inv_step [OF _ _ plain]
    by (auto simp: key)
  then have "naive_split script = sp_statements st @ naive_split (sp_buf st)"
    by (simp add: naive_inv_def)
  moreover have "naive_split (sp_buf st) = filter (\<lambda>w. w \<noteq> []) [trim (sp_buf st)]"
    using inv by (simp add: naive_inv_def naive_split_def split_on_no_occ)
  ultimately show ?thesis
    using st by (simp add: split_sql_script_def flush_buf_def Let_def)
qed

theorem split_sql_script_plain_witness:
  "split_sql_script ''SELECT 1; ;UPDATE t'' = Some [''SELECT 1'', ''UPDATE t'']"
proof -
  have "split_sql_script ''SELECT 1; ;UPDATE t'' = Some (naive_split ''SELECT 1; ;UPDATE t'')"
    by (rule split_sql_script_plain) code_simp+
  also have "naive_split ''SELECT 1; ;UPDATE t'' = [''SELECT 1'', ''UPDATE t'']"
    by code_simp
  finally show ?thesis .
qed

lemma split_sql_script_clean_example: "trim ''SELECT 1'' = ''SELECT 1''"
proof -
  have out: "split_sql_script ''SELECT 1; ;UPDATE t'' = Some [''SELECT 1'', ''UPDATE t'']"
    by code_simp
  show ?thesis using split_sql_script_clean [OF out, of "''SELECT 1''"] by simp
qed

section \<open>What the splitter does on its documented cases, and where it goes wrong\<close>

text \<open>The delimiter directive and a routine body, as in the source's unit tests.\<close>

lemma split_sql_script_routine:
  "split_sql_script (''CREATE PROCEDURE p() BEGIN A; B; END; SELECT 1;'') =
     Some [''CREATE PROCEDURE p() BEGIN A; B; END'', ''SELECT 1'']"
  by code_simp

lemma split_sql_script_directive:
  "split_sql_script (''DELIMITER $$'' @ [newline] @ ''BEGIN A; END$$ DELIMITER ;'' @ [newline] @ ''B;'') =
     Some [''BEGIN A; END'', ''B'']"
  by code_simp

text \<open>
  The keyword test looks at the character after the word only, so an identifier that ends in
  \<open>begin\<close> opens a block that nothing closes, and the rest of the script is one statement.
\<close>

lemma split_sql_script_begin_suffix:
  "split_sql_script ''SELECT t_begin; DELETE FROM a; SELECT 2;'' =
     Some [''SELECT t_begin; DELETE FROM a; SELECT 2;'']"
  by code_simp

text \<open>A transaction script is not split either: its BEGIN has no END.\<close>

lemma split_sql_script_begin_transaction:
  "split_sql_script ''BEGIN; INSERT INTO t VALUES (1); COMMIT; SELECT 1;'' =
     Some [''BEGIN; INSERT INTO t VALUES (1); COMMIT; SELECT 1;'']"
  by code_simp

text \<open>A delimiter of one character and two bytes moves the position past the next character.\<close>

lemma split_sql_script_wide_delimiter:
  "split_sql_script (''DELIMITER '' @ [CHR 0xA7, newline] @ ''A'' @ [CHR 0xA7] @ ''BC'' @ [CHR 0xA7]) =
     Some [''A'', ''C'']"
  by code_simp

end
