(* ===== verification/Sql_Risk.thy ===== *)
theory Sql_Risk
  imports Rust_Prelude
begin

text \<open>
  The SQL risk classifier of \<open>crates/mcp/src/risk.rs\<close>.

  The parser is a library (\<open>sqlparser\<close>): the three dialect parsers are the parameter
  \<open>parse\<close>, from a dialect and a text to a list of statements. The datatypes below are the
  part of its syntax tree that the classifier reads, one constructor per form it matches; forms
  that fall into a catch-all arm are an \<open>Other\<close> constructor. \<open>sel_from\<close> (derived tables
  of the FROM clause) is a field of the tree that the classifier does not read.
\<close>

section \<open>Syntax trees\<close>

datatype show_kind = ShowVariable | ShowTables | ShowColumns | ShowFunctions | ShowCreate
  | ShowDatabases | ExplainTable

datatype txn_kind = StartTransaction | Commit | Rollback | Savepoint | ReleaseSavepoint

datatype dml_kind = Insert | Update | Delete | Merge | Load

datatype ddl_kind = CreateTable | CreateIndex | CreateView | CreateSchema | CreateDatabase
  | CreateFunction | CreateRole | AlterTable | Drop | Truncate | Grant | Revoke

datatype name_part = Identifier string | FunctionPart

text \<open>The forms inside an expression or a query, over the types of their parts.\<close>

datatype 'q cte = Cte (cte_query: 'q)

datatype 'e select_item = UnnamedExpr 'e | ExprWithAlias 'e string | ItemOther

datatype ('e, 'q) select = Select (sel_into: bool) (sel_projection: "'e select_item list")
    (sel_from: "'q list") (sel_selection: "'e option") (sel_having: "'e option")

datatype 'e case_when = CaseWhen (cw_condition: 'e) (cw_result: 'e)

datatype 'e func_arg = ArgUnnamed 'e | ArgUnnamedOther | ArgNamed string 'e

datatype ('e, 'q) func_args = ArgsNone | ArgsSubquery 'q | ArgsList "'e func_arg list"

datatype stmt =
    StQuery query
  | StExplain bool stmt
  | StShow show_kind
  | StTxn txn_kind
  | StDml dml_kind
  | StUse | StSet | StCall | StExecute | StPrepare
  | StDdl ddl_kind
  | StOther
and query = Query (q_with: "query cte list") (q_locks: nat) (q_body: set_expr)
and set_expr =
    SeSelect "(expr, query) select"
  | SeQuery query
  | SeSetOperation set_expr set_expr
  | SeInsert stmt | SeUpdate stmt | SeDelete stmt | SeMerge stmt
  | SeOther
and expr =
    ExFunction "name_part list" "(expr, query) func_args"
  | ExNested expr
  | ExUnaryOp expr
  | ExBinaryOp expr expr
  | ExCast expr
  | ExIsNull expr
  | ExIsNotNull expr
  | ExInList expr "expr list"
  | ExInSubquery expr query
  | ExExists query
  | ExSubquery query
  | ExCase "expr option" "expr case_when list" "expr option"
  | ExBetween expr
  | ExLike expr
  | ExILike expr
  | ExSimilarTo expr
  | ExInUnnest expr expr
  | ExOther

section \<open>Risk classes and verdicts\<close>

datatype risk_class = ReadOnly | Write | Ddl | Transaction

text \<open>The derived \<open>Ord\<close> of the source: severity in the order of the declaration.\<close>

fun severity :: "risk_class \<Rightarrow> nat" where
  "severity ReadOnly = 0"
| "severity Write = 1"
| "severity Ddl = 2"
| "severity Transaction = 3"

lemma severity_inj: "severity a = severity b \<Longrightarrow> a = b"
  by (cases a; cases b) auto

instantiation risk_class :: linorder
begin

definition less_eq_risk_class :: "risk_class \<Rightarrow> risk_class \<Rightarrow> bool" where
  "less_eq_risk_class a b = (severity a \<le> severity b)"

definition less_risk_class :: "risk_class \<Rightarrow> risk_class \<Rightarrow> bool" where
  "less_risk_class a b = (severity a < severity b)"

instance
  by standard (auto simp: less_eq_risk_class_def less_risk_class_def severity_inj)

end

fun risk_as_str :: "risk_class \<Rightarrow> string" where
  "risk_as_str ReadOnly = ''read_only''"
| "risk_as_str Write = ''write''"
| "risk_as_str Ddl = ''ddl''"
| "risk_as_str Transaction = ''transaction''"

record risk_verdict =
  rv_class :: risk_class
  rv_reasons :: "string list"

definition verdict_empty :: risk_verdict where
  "verdict_empty = \<lparr>rv_class = ReadOnly, rv_reasons = []\<rparr>"

definition is_read_only :: "risk_verdict \<Rightarrow> bool" where
  "is_read_only v = (rv_class v = ReadOnly)"

definition bump :: "risk_class \<Rightarrow> string \<Rightarrow> risk_verdict \<Rightarrow> risk_verdict" where
  "bump class reason v =
     \<lparr>rv_class = (if rv_class v < class then class else rv_class v),
      rv_reasons = (if reason \<in> set (rv_reasons v) then rv_reasons v else rv_reasons v @ [reason])\<rparr>"

section \<open>The classifier\<close>

definition side_effect_functions :: "string list" where
  "side_effect_functions =
     [''nextval'', ''setval'', ''pg_advisory_lock'', ''pg_advisory_unlock'',
      ''pg_advisory_xact_lock'', ''pg_advisory_unlock_all'', ''pg_terminate_backend'',
      ''pg_cancel_backend'', ''pg_reload_conf'']"

definition is_side_effect_function :: "name_part list \<Rightarrow> bool" where
  "is_side_effect_function name =
     (let last_name =
        (case rev name of Identifier v # _ \<Rightarrow> map to_lower v | _ \<Rightarrow> [])
      in last_name \<in> set side_effect_functions)"

text \<open>
  What classifying a part does to the verdict. The functions for the forms that hold
  expressions and queries take the form with each part replaced by its action.
\<close>

type_synonym act = "risk_verdict \<Rightarrow> risk_verdict"

fun classify_cte :: "act cte \<Rightarrow> act" where
  "classify_cte (Cte q) = q"

fun classify_opt :: "act option \<Rightarrow> act" where
  "classify_opt None = (\<lambda>v. v)"
| "classify_opt (Some e) = e"

fun classify_item :: "act select_item \<Rightarrow> act" where
  "classify_item (UnnamedExpr e) = e"
| "classify_item (ExprWithAlias e a) = e"
| "classify_item ItemOther = (\<lambda>v. v)"

fun classify_select :: "(act, act) select \<Rightarrow> act" where
  "classify_select (Select into projection from selection having) =
     (\<lambda>v. let v = (if into then bump Write ''SELECT INTO'' v else v);
          v = fold classify_item projection v;
          v = classify_opt selection v
      in classify_opt having v)"

fun classify_when :: "act case_when \<Rightarrow> act" where
  "classify_when (CaseWhen c r) = (\<lambda>v. r (c v))"

fun walk_arg :: "act func_arg \<Rightarrow> act" where
  "walk_arg (ArgUnnamed e) = e"
| "walk_arg ArgUnnamedOther = (\<lambda>v. v)"
| "walk_arg (ArgNamed n e) = (\<lambda>v. v)"

fun walk_function_args :: "(act, act) func_args \<Rightarrow> act" where
  "walk_function_args (ArgsList args) = fold walk_arg args"
| "walk_function_args ArgsNone = (\<lambda>v. v)"
| "walk_function_args (ArgsSubquery q) = (\<lambda>v. v)"

primrec classify_statement :: "stmt \<Rightarrow> act"
  and classify_query :: "query \<Rightarrow> act"
  and classify_set_expr :: "set_expr \<Rightarrow> act"
  and classify_expr :: "expr \<Rightarrow> act"
where
  "classify_statement (StQuery q) = classify_query q"
| "classify_statement (StExplain analyze s) = (\<lambda>v. if analyze then classify_statement s v else v)"
| "classify_statement (StShow k) = (\<lambda>v. v)"
| "classify_statement (StTxn k) = bump Transaction ''transaction control statement''"
| "classify_statement (StDml k) = bump Write ''data-modifying statement''"
| "classify_statement StUse = bump Write ''USE statement forbidden (database switch)''"
| "classify_statement StSet = bump Write ''SET statement forbidden (session state change)''"
| "classify_statement StCall = bump Write ''CALL forbidden (procedure body not analyzable)''"
| "classify_statement StExecute = bump Write ''prepared-statement execution forbidden''"
| "classify_statement StPrepare = bump Write ''prepared-statement execution forbidden''"
| "classify_statement (StDdl k) = bump Ddl ''schema/privilege change (DDL)''"
| "classify_statement StOther = bump Write ''unrecognized statement form (fail-closed)''"
| "classify_query (Query ctes locks body) =
     (\<lambda>v. let v = fold classify_cte (map (map_cte classify_query) ctes) v;
              v = (if locks \<noteq> 0 then bump Write ''locking read (FOR UPDATE/FOR SHARE)'' v else v)
          in classify_set_expr body v)"
| "classify_set_expr (SeSelect s) = classify_select (map_select classify_expr classify_query s)"
| "classify_set_expr (SeQuery q) = classify_query q"
| "classify_set_expr (SeSetOperation l r) = (\<lambda>v. classify_set_expr r (classify_set_expr l v))"
| "classify_set_expr (SeInsert s) = classify_statement s"
| "classify_set_expr (SeUpdate s) = classify_statement s"
| "classify_set_expr (SeDelete s) = classify_statement s"
| "classify_set_expr (SeMerge s) = classify_statement s"
| "classify_set_expr SeOther = (\<lambda>v. v)"
| "classify_expr (ExFunction name args) =
     (\<lambda>v. let v = (if is_side_effect_function name
                    then bump Write ''side-effect function in expression'' v else v)
          in walk_function_args (map_func_args classify_expr classify_query args) v)"
| "classify_expr (ExNested e) = classify_expr e"
| "classify_expr (ExUnaryOp e) = classify_expr e"
| "classify_expr (ExBinaryOp l r) = (\<lambda>v. classify_expr r (classify_expr l v))"
| "classify_expr (ExCast e) = classify_expr e"
| "classify_expr (ExIsNull e) = classify_expr e"
| "classify_expr (ExIsNotNull e) = classify_expr e"
| "classify_expr (ExInList e es) =
     (\<lambda>v. fold (\<lambda>f. f) (map classify_expr es) (classify_expr e v))"
| "classify_expr (ExInSubquery e q) = (\<lambda>v. classify_query q (classify_expr e v))"
| "classify_expr (ExExists q) = classify_query q"
| "classify_expr (ExSubquery q) = classify_query q"
| "classify_expr (ExCase operand conditions else_result) =
     (\<lambda>v. let v = classify_opt (map_option classify_expr operand) v;
              v = fold classify_when (map (map_case_when classify_expr) conditions) v
          in classify_opt (map_option classify_expr else_result) v)"
| "classify_expr (ExBetween e) = classify_expr e"
| "classify_expr (ExLike e) = classify_expr e"
| "classify_expr (ExILike e) = classify_expr e"
| "classify_expr (ExSimilarTo e) = classify_expr e"
| "classify_expr (ExInUnnest e a) = (\<lambda>v. classify_expr a (classify_expr e v))"
| "classify_expr ExOther = (\<lambda>v. v)"

datatype dialect = MySqlDialect | PostgreSqlDialect | GenericDialect

type_synonym sql_parser = "dialect \<Rightarrow> string \<Rightarrow> stmt list option"

definition parse_any :: "sql_parser \<Rightarrow> string \<Rightarrow> stmt list option" where
  "parse_any parse sql =
     (case parse MySqlDialect sql of
        Some ss \<Rightarrow> Some ss
      | None \<Rightarrow>
          (case parse PostgreSqlDialect sql of
             Some ss \<Rightarrow> Some ss
           | None \<Rightarrow> parse GenericDialect sql))"

definition statement_count :: "sql_parser \<Rightarrow> string \<Rightarrow> nat" where
  "statement_count parse sql = (case parse_any parse sql of None \<Rightarrow> 0 | Some ss \<Rightarrow> length ss)"

definition contains_executable_comment :: "string \<Rightarrow> bool" where
  "contains_executable_comment sql = contains_sub ''/*!'' sql"

definition classify :: "sql_parser \<Rightarrow> string \<Rightarrow> risk_verdict" where
  "classify parse sql =
     (let v = (if contains_executable_comment sql
               then bump Write ''executable comment (/*! */) not allowed'' verdict_empty
               else verdict_empty)
      in case parse_any parse sql of
           None \<Rightarrow> \<lparr>rv_class = Write,
                    rv_reasons = [''parse failure (fail-closed: treated as write)'']\<rparr>
         | Some ss \<Rightarrow>
             if ss = [] then \<lparr>rv_class = Write, rv_reasons = [''no parseable statement'']\<rparr>
             else fold classify_statement ss v)"

section \<open>Classifying is bumping\<close>

text \<open>Every class and reason the classifier of statements can record.\<close>

definition bump_table :: "(risk_class \<times> string) list" where
  "bump_table =
     [(Transaction, ''transaction control statement''),
      (Write, ''data-modifying statement''),
      (Write, ''USE statement forbidden (database switch)''),
      (Write, ''SET statement forbidden (session state change)''),
      (Write, ''CALL forbidden (procedure body not analyzable)''),
      (Write, ''prepared-statement execution forbidden''),
      (Ddl, ''schema/privilege change (DDL)''),
      (Write, ''unrecognized statement form (fail-closed)''),
      (Write, ''locking read (FOR UPDATE/FOR SHARE)''),
      (Write, ''SELECT INTO''),
      (Write, ''side-effect function in expression'')]"

definition bumps :: "(risk_class \<times> string) list \<Rightarrow> act" where
  "bumps bs = fold (\<lambda>(c, r). bump c r) bs"

definition act_bumps :: "act \<Rightarrow> bool" where
  "act_bumps f = (\<exists>bs. set bs \<subseteq> set bump_table \<and> f = bumps bs)"

named_theorems act_intro \<open>actions that only bump\<close>

lemma act_bumps_id [act_intro]: "act_bumps (\<lambda>v. v)"
  by (auto simp: act_bumps_def bumps_def intro!: exI [of _ "[]"])

lemma act_bumps_bump [act_intro]: "(c, r) \<in> set bump_table \<Longrightarrow> act_bumps (bump c r)"
  unfolding act_bumps_def bumps_def by (rule exI [of _ "[(c, r)]"]) auto

lemma act_bumps_comp:
  assumes "act_bumps f" "act_bumps g"
  shows "act_bumps (\<lambda>v. g (f v))"
proof -
  obtain bs cs where "set bs \<subseteq> set bump_table" "set cs \<subseteq> set bump_table" "f = bumps bs" "g = bumps cs"
    using assms by (auto simp: act_bumps_def)
  then show ?thesis
    unfolding act_bumps_def by (intro exI [of _ "bs @ cs"]) (auto simp: bumps_def)
qed

lemma act_bumps_if [act_intro]: "act_bumps f \<Longrightarrow> act_bumps g \<Longrightarrow> act_bumps (\<lambda>v. if b then f v else g v)"
  by (cases b) simp_all

lemma act_bumps_fold [act_intro]:
  "(\<And>x. x \<in> set xs \<Longrightarrow> act_bumps (g x)) \<Longrightarrow> act_bumps (fold g xs)"
proof (induction xs)
  case Nil
  then show ?case using act_bumps_id by (simp add: id_def)
next
  case (Cons x xs)
  then show ?case using act_bumps_comp [of "g x" "fold g xs"] by (simp add: comp_def)
qed

lemma act_bumps_opt [act_intro]: "(\<And>f. f \<in> set_option x \<Longrightarrow> act_bumps f) \<Longrightarrow> act_bumps (classify_opt x)"
  by (cases x) (simp_all add: act_intro)

lemma act_bumps_cte [act_intro]: "(\<And>f. f \<in> set_cte c \<Longrightarrow> act_bumps f) \<Longrightarrow> act_bumps (classify_cte c)"
  by (cases c) simp

lemma act_bumps_item [act_intro]:
  "(\<And>f. f \<in> set_select_item i \<Longrightarrow> act_bumps f) \<Longrightarrow> act_bumps (classify_item i)"
  by (cases i) (simp_all add: act_intro)

lemma act_bumps_when [act_intro]:
  "(\<And>f. f \<in> set_case_when w \<Longrightarrow> act_bumps f) \<Longrightarrow> act_bumps (classify_when w)"
  by (cases w) (simp add: act_bumps_comp)

lemma act_bumps_arg [act_intro]:
  "(\<And>f. f \<in> set_func_arg a \<Longrightarrow> act_bumps f) \<Longrightarrow> act_bumps (walk_arg a)"
  by (cases a) (simp_all add: act_intro)

lemma act_bumps_args [act_intro]:
  assumes "\<And>f. f \<in> set1_func_args args \<Longrightarrow> act_bumps f"
  shows "act_bumps (walk_function_args args)"
proof (cases args)
  case (ArgsList xs)
  have "act_bumps (fold walk_arg xs)"
    by (rule act_bumps_fold, rule act_bumps_arg) (use ArgsList assms in auto)
  then show ?thesis using ArgsList by simp
qed (simp_all add: act_intro)

lemma act_bumps_select [act_intro]:
  assumes "\<And>f. f \<in> set1_select s \<Longrightarrow> act_bumps f"
  shows "act_bumps (classify_select s)"
proof (cases s)
  case (Select into projection frm selection having)
  have into: "act_bumps (\<lambda>v. if into then bump Write ''SELECT INTO'' v else v)"
    by (rule act_bumps_if) (auto intro: act_intro simp: bump_table_def)
  have items: "act_bumps (fold classify_item projection)"
    by (rule act_bumps_fold, rule act_bumps_item) (use Select assms in auto)
  have opts: "act_bumps (classify_opt selection)" "act_bumps (classify_opt having)"
    by (rule act_bumps_opt; use Select assms in simp)+
  show ?thesis
    using act_bumps_comp [OF act_bumps_comp [OF act_bumps_comp [OF into items] opts(1)] opts(2)]
    by (simp add: Select Let_def)
qed

lemma act_bumps_query:
  assumes "\<And>c. c \<in> set ctes \<Longrightarrow> act_bumps (classify_query (cte_query c))"
    and "act_bumps (classify_set_expr body)"
  shows "act_bumps (classify_query (Query ctes locks body))"
proof -
  have ctes: "act_bumps (fold classify_cte (map (map_cte classify_query) ctes))"
  proof (rule act_bumps_fold)
    fix x assume "x \<in> set (map (map_cte classify_query) ctes)"
    then obtain c where "c \<in> set ctes" "x = map_cte classify_query c" by auto
    with assms(1) [of c] show "act_bumps (classify_cte x)" by (cases c) simp
  qed
  have locks: "act_bumps (\<lambda>v. if locks \<noteq> 0
      then bump Write ''locking read (FOR UPDATE/FOR SHARE)'' v else v)"
    by (rule act_bumps_if) (auto intro: act_intro simp: bump_table_def)
  show ?thesis
    using act_bumps_comp [OF act_bumps_comp [OF ctes locks] assms(2)] by (simp add: Let_def)
qed

lemma act_bumps_case:
  assumes "\<And>e. e \<in> set_option operand \<Longrightarrow> act_bumps (classify_expr e)"
    and "\<And>w e. w \<in> set whens \<Longrightarrow> e \<in> set_case_when w \<Longrightarrow> act_bumps (classify_expr e)"
    and "\<And>e. e \<in> set_option els \<Longrightarrow> act_bumps (classify_expr e)"
  shows "act_bumps (classify_expr (ExCase operand whens els))"
proof -
  have o: "act_bumps (classify_opt (map_option classify_expr operand))"
    by (rule act_bumps_opt) (use assms(1) in auto)
  have w: "act_bumps (fold classify_when (map (map_case_when classify_expr) whens))"
    by (rule act_bumps_fold, rule act_bumps_when)
      (use assms(2) in \<open>auto simp: case_when.set_map\<close>)
  have e: "act_bumps (classify_opt (map_option classify_expr els))"
    by (rule act_bumps_opt) (use assms(3) in auto)
  show ?thesis using act_bumps_comp [OF act_bumps_comp [OF o w] e] by (simp add: Let_def)
qed

lemma act_bumps_function:
  assumes "\<And>e. e \<in> set1_func_args args \<Longrightarrow> act_bumps (classify_expr e)"
  shows "act_bumps (classify_expr (ExFunction name args))"
proof -
  have f: "act_bumps (\<lambda>v. if is_side_effect_function name
      then bump Write ''side-effect function in expression'' v else v)"
    by (rule act_bumps_if) (auto intro: act_intro simp: bump_table_def)
  have a: "act_bumps (walk_function_args (map_func_args classify_expr classify_query args))"
    by (rule act_bumps_args) (use assms in \<open>auto simp: func_args.set_map\<close>)
  show ?thesis using act_bumps_comp [OF f a] by (simp add: Let_def)
qed

lemma act_bumps_all:
  "act_bumps (classify_statement s)" "act_bumps (classify_query q)"
  "act_bumps (classify_set_expr b)" "act_bumps (classify_expr e)"
proof (induction s and q and b and e)
  case (Query ctes locks body)
  show ?case by (rule act_bumps_query) (use Query in \<open>auto intro: cte.set_sel\<close>)
next
  case (SeSelect x)
  show ?case
    unfolding classify_set_expr.simps
    by (rule act_bumps_select) (use SeSelect in \<open>auto simp: select.set_map\<close>)
next
  case (ExFunction name args)
  show ?case by (rule act_bumps_function) (use ExFunction in auto)
next
  case (ExCase operand whens els)
  show ?case by (rule act_bumps_case) (use ExCase in auto)
next
  case (ExInList e es)
  have "act_bumps (fold (\<lambda>f. f) (map classify_expr es))"
    by (rule act_bumps_fold) (use ExInList in auto)
  from act_bumps_comp [OF ExInList(1) this] show ?case by simp
qed (simp_all add: act_bumps_if act_bumps_comp act_bumps_id act_bumps_bump bump_table_def)

section \<open>What an action does to class and reasons\<close>

lemma ReadOnly_least [simp]: "ReadOnly \<le> c" "max ReadOnly c = c" "max c ReadOnly = c"
  by (cases c; simp add: less_eq_risk_class_def max_def)+

lemma class_bump [simp]: "rv_class (bump c r v) = max (rv_class v) c"
  by (auto simp: bump_def max_def)

lemma reasons_bump [simp]: "set (rv_reasons (bump c r v)) = insert r (set (rv_reasons v))"
  by (auto simp: bump_def)

lemma verdict_empty_simps [simp]: "rv_class verdict_empty = ReadOnly" "rv_reasons verdict_empty = []"
  by (simp_all add: verdict_empty_def)

lemma class_bumps: "rv_class (bumps bs v) = max (rv_class v) (rv_class (bumps bs verdict_empty))"
proof (induction bs arbitrary: v)
  case (Cons b bs)
  obtain c r where b: "b = (c, r)" by (cases b)
  show ?case
    using Cons.IH [of "bump c r v"] Cons.IH [of "bump c r verdict_empty"]
    by (simp add: bumps_def b max.assoc)
qed (simp add: bumps_def)

lemma reasons_bumps: "set (rv_reasons (bumps bs v)) = set (rv_reasons v) \<union> snd ` set bs"
proof (induction bs arbitrary: v)
  case (Cons b bs)
  obtain c r where b: "b = (c, r)" by (cases b)
  show ?case using Cons.IH [of "bump c r v"] by (simp add: bumps_def b)
qed (simp add: bumps_def)

text \<open>A verdict is well-formed: a class above \<open>ReadOnly\<close> has a reason and only then.\<close>

definition known_reasons :: "string list" where
  "known_reasons =
     [''executable comment (/*! */) not allowed'',
      ''parse failure (fail-closed: treated as write)'', ''no parseable statement'']
     @ map snd bump_table"

definition verdict_wf :: "risk_verdict \<Rightarrow> bool" where
  "verdict_wf v \<longleftrightarrow> distinct (rv_reasons v) \<and> set (rv_reasons v) \<subseteq> set known_reasons \<and>
     (rv_class v = ReadOnly \<longleftrightarrow> rv_reasons v = [])"

lemma max_eq_ReadOnly [simp]: "max a c = ReadOnly \<longleftrightarrow> a = ReadOnly \<and> c = (ReadOnly :: risk_class)"
  by (cases a; cases c) (auto simp: max_def less_eq_risk_class_def)

lemma verdict_wf_bump: "verdict_wf v \<Longrightarrow> c \<noteq> ReadOnly \<Longrightarrow> r \<in> set known_reasons \<Longrightarrow> verdict_wf (bump c r v)"
  unfolding verdict_wf_def
  by (cases c; cases "rv_class v") (auto simp: bump_def less_risk_class_def)

lemma bump_table_writes: "(c, r) \<in> set bump_table \<Longrightarrow> c \<noteq> ReadOnly \<and> r \<in> set known_reasons"
  by (auto simp: bump_table_def known_reasons_def)

lemma verdict_wf_bumps: "set bs \<subseteq> set bump_table \<Longrightarrow> verdict_wf v \<Longrightarrow> verdict_wf (bumps bs v)"
proof (induction bs arbitrary: v)
  case (Cons b bs)
  obtain c r where b: "b = (c, r)" by (cases b)
  with Cons.prems have "verdict_wf (bump c r v)"
    using bump_table_writes by (auto intro!: verdict_wf_bump)
  with Cons show ?case by (simp add: bumps_def b)
qed (simp add: bumps_def)

lemma class_act: "act_bumps f \<Longrightarrow> rv_class (f v) = max (rv_class v) (rv_class (f verdict_empty))"
  unfolding act_bumps_def using class_bumps by blast

lemma reasons_act:
  "act_bumps f \<Longrightarrow> set (rv_reasons (f v)) = set (rv_reasons v) \<union> set (rv_reasons (f verdict_empty))"
  unfolding act_bumps_def using reasons_bumps by fastforce

lemma verdict_wf_act: "act_bumps f \<Longrightarrow> verdict_wf v \<Longrightarrow> verdict_wf (f v)"
  unfolding act_bumps_def using verdict_wf_bumps by blast

lemma act_bumps_statements: "act_bumps (fold classify_statement ss)"
  by (rule act_bumps_fold) (rule act_bumps_all)

lemma class_statements:
  "rv_class (fold classify_statement ss v) =
     fold max (map (\<lambda>s. rv_class (classify_statement s verdict_empty)) ss) (rv_class v)"
proof (induction ss arbitrary: v)
  case (Cons s ss)
  then show ?case
    using class_act [OF act_bumps_all(1), of s v] by (simp add: max.commute)
qed simp

lemma fold_max_eq_Max: "fold max cs c = Max (insert c (set (cs :: risk_class list)))"
  using Max.set_eq_fold [of c cs] by simp

section \<open>Properties of the verdict\<close>

text \<open>
  The verdict of every text is well-formed: it is read-only exactly when no reason was
  recorded, reasons are not repeated, and each is one of fixed strings, so that no part of the
  text can reach the audit trail through them.
\<close>

theorem classify_verdict_wf: "verdict_wf (classify parse sql)"
proof -
  have "verdict_wf verdict_empty" by (simp add: verdict_wf_def)
  moreover from this
  have "verdict_wf (bump Write ''executable comment (/*! */) not allowed'' verdict_empty)"
    by (rule verdict_wf_bump) (simp_all add: known_reasons_def)
  ultimately show ?thesis
    by (auto simp: classify_def Let_def verdict_wf_act [OF act_bumps_statements] split: option.split)
      (auto simp: verdict_wf_def known_reasons_def)
qed

text \<open>
  C19. Fail closed: when no dialect parses the text, or nothing is left to run, or the text has
  an executable comment, the verdict is not read-only.
\<close>

theorem classify_fails_closed:
  "parse_any parse sql = None \<or> parse_any parse sql = Some [] \<or> contains_executable_comment sql \<Longrightarrow>
     Write \<le> rv_class (classify parse sql)"
proof -
  have w: "Write \<le> rv_class (fold classify_statement ss (bump Write r v))" for ss r v
    using class_act [OF act_bumps_statements, of ss "bump Write r v"] by (simp add: le_max_iff_disj)
  assume "parse_any parse sql = None \<or> parse_any parse sql = Some [] \<or> contains_executable_comment sql"
  then show ?thesis by (auto simp: classify_def Let_def w split: option.split)
qed

text \<open>
  The class of a text is the heaviest of its statements taken alone, so it does not depend
  on their order (no executable comment).
\<close>

theorem classify_takes_max:
  assumes "parse_any parse sql = Some ss" "ss \<noteq> []" "\<not> contains_executable_comment sql"
  shows "rv_class (classify parse sql) =
           Max ((\<lambda>s. rv_class (classify_statement s verdict_empty)) ` set ss)"
proof -
  have "rv_class (classify parse sql) =
      Max (insert ReadOnly ((\<lambda>s. rv_class (classify_statement s verdict_empty)) ` set ss))"
    using assms by (simp add: classify_def class_statements fold_max_eq_Max)
  also have "\<dots> = max ReadOnly (Max ((\<lambda>s. rv_class (classify_statement s verdict_empty)) ` set ss))"
    using assms(2) by (intro Max_insert) simp_all
  finally show ?thesis by simp
qed

section \<open>A declarative reading of risk\<close>

text \<open>
  What makes a statement more than a read, stated on the tree: one rule per construct. Derived
  tables (\<open>sel_from\<close>), named function arguments and the forms under \<open>ExOther\<close> have no rule,
  because the classifier does not look at them.
\<close>

inductive risky_stmt :: "stmt \<Rightarrow> bool"
  and risky_query :: "query \<Rightarrow> bool"
  and risky_set :: "set_expr \<Rightarrow> bool"
  and risky_expr :: "expr \<Rightarrow> bool"
where
  "risky_query q \<Longrightarrow> risky_stmt (StQuery q)"
| "risky_stmt s \<Longrightarrow> risky_stmt (StExplain True s)"
| "risky_stmt (StTxn t)"
| "risky_stmt (StDml d)"
| "risky_stmt StUse"
| "risky_stmt StSet"
| "risky_stmt StCall"
| "risky_stmt StExecute"
| "risky_stmt StPrepare"
| "risky_stmt (StDdl k)"
| "risky_stmt StOther"
| "c \<in> set ctes \<Longrightarrow> risky_query (cte_query c) \<Longrightarrow> risky_query (Query ctes locks b)"
| "locks \<noteq> 0 \<Longrightarrow> risky_query (Query ctes locks b)"
| "risky_set b \<Longrightarrow> risky_query (Query ctes locks b)"
| "sel_into x \<Longrightarrow> risky_set (SeSelect x)"
| "i \<in> set (sel_projection x) \<Longrightarrow> e \<in> set_select_item i \<Longrightarrow> risky_expr e \<Longrightarrow> risky_set (SeSelect x)"
| "sel_selection x = Some e \<Longrightarrow> risky_expr e \<Longrightarrow> risky_set (SeSelect x)"
| "sel_having x = Some e \<Longrightarrow> risky_expr e \<Longrightarrow> risky_set (SeSelect x)"
| "risky_query q \<Longrightarrow> risky_set (SeQuery q)"
| "risky_set l \<Longrightarrow> risky_set (SeSetOperation l r)"
| "risky_set r \<Longrightarrow> risky_set (SeSetOperation l r)"
| "risky_stmt s \<Longrightarrow> risky_set (SeInsert s)"
| "risky_stmt s \<Longrightarrow> risky_set (SeUpdate s)"
| "risky_stmt s \<Longrightarrow> risky_set (SeDelete s)"
| "risky_stmt s \<Longrightarrow> risky_set (SeMerge s)"
| "is_side_effect_function name \<Longrightarrow> risky_expr (ExFunction name args)"
| "ArgUnnamed e \<in> set as \<Longrightarrow> risky_expr e \<Longrightarrow> risky_expr (ExFunction name (ArgsList as))"
| "risky_expr e \<Longrightarrow> risky_expr (ExNested e)"
| "risky_expr e \<Longrightarrow> risky_expr (ExUnaryOp e)"
| "risky_expr l \<Longrightarrow> risky_expr (ExBinaryOp l r)"
| "risky_expr r \<Longrightarrow> risky_expr (ExBinaryOp l r)"
| "risky_expr e \<Longrightarrow> risky_expr (ExCast e)"
| "risky_expr e \<Longrightarrow> risky_expr (ExIsNull e)"
| "risky_expr e \<Longrightarrow> risky_expr (ExIsNotNull e)"
| "risky_expr e \<Longrightarrow> risky_expr (ExInList e es)"
| "x \<in> set es \<Longrightarrow> risky_expr x \<Longrightarrow> risky_expr (ExInList e es)"
| "risky_expr e \<Longrightarrow> risky_expr (ExInSubquery e q)"
| "risky_query q \<Longrightarrow> risky_expr (ExInSubquery e q)"
| "risky_query q \<Longrightarrow> risky_expr (ExExists q)"
| "risky_query q \<Longrightarrow> risky_expr (ExSubquery q)"
| "risky_expr e \<Longrightarrow> risky_expr (ExCase (Some e) ws els)"
| "w \<in> set ws \<Longrightarrow> e \<in> set_case_when w \<Longrightarrow> risky_expr e \<Longrightarrow> risky_expr (ExCase op ws els)"
| "risky_expr e \<Longrightarrow> risky_expr (ExCase op ws (Some e))"
| "risky_expr e \<Longrightarrow> risky_expr (ExBetween e)"
| "risky_expr e \<Longrightarrow> risky_expr (ExLike e)"
| "risky_expr e \<Longrightarrow> risky_expr (ExILike e)"
| "risky_expr e \<Longrightarrow> risky_expr (ExSimilarTo e)"
| "risky_expr e \<Longrightarrow> risky_expr (ExInUnnest e a)"
| "risky_expr a \<Longrightarrow> risky_expr (ExInUnnest e a)"

inductive_simps risky_simps [simp]:
  "risky_stmt (StQuery q)" "risky_stmt (StExplain an s)" "risky_stmt (StShow k)"
  "risky_stmt (StTxn t)" "risky_stmt (StDml d)" "risky_stmt StUse" "risky_stmt StSet"
  "risky_stmt StCall" "risky_stmt StExecute" "risky_stmt StPrepare" "risky_stmt (StDdl dd)"
  "risky_stmt StOther"
  "risky_query (Query ctes locks b)"
  "risky_set (SeSelect x)" "risky_set (SeQuery q)" "risky_set (SeSetOperation l r)"
  "risky_set (SeInsert s)" "risky_set (SeUpdate s)" "risky_set (SeDelete s)"
  "risky_set (SeMerge s)" "risky_set SeOther"
  "risky_expr (ExFunction name args)" "risky_expr (ExNested e)" "risky_expr (ExUnaryOp e)"
  "risky_expr (ExBinaryOp le ri)" "risky_expr (ExCast e)" "risky_expr (ExIsNull e)"
  "risky_expr (ExIsNotNull e)" "risky_expr (ExInList e es)" "risky_expr (ExInSubquery e q)"
  "risky_expr (ExExists q)" "risky_expr (ExSubquery q)" "risky_expr (ExCase op ws els)"
  "risky_expr (ExBetween e)" "risky_expr (ExLike e)" "risky_expr (ExILike e)"
  "risky_expr (ExSimilarTo e)" "risky_expr (ExInUnnest e a)" "risky_expr ExOther"

text \<open>An action is quiet if it leaves the empty verdict read-only.\<close>

definition quiet :: "act \<Rightarrow> bool" where
  "quiet f = (rv_class (f verdict_empty) = ReadOnly)"

lemma quiet_id [simp]: "quiet (\<lambda>v. v)"
  by (simp add: quiet_def)

lemma quiet_bump [simp]: "quiet (bump c r) \<longleftrightarrow> c = ReadOnly"
  by (simp add: quiet_def)

lemma quiet_if [simp]: "quiet (\<lambda>v. if b then f v else g v) \<longleftrightarrow> (if b then quiet f else quiet g)"
  by (simp add: quiet_def)

lemma quiet_comp: "act_bumps g \<Longrightarrow> quiet (\<lambda>v. g (f v)) \<longleftrightarrow> quiet f \<and> quiet g"
  using class_act [of g "f verdict_empty"] by (simp add: quiet_def)

lemma quiet_fold:
  "(\<And>x. x \<in> set xs \<Longrightarrow> act_bumps (h x)) \<Longrightarrow> quiet (fold h xs) \<longleftrightarrow> (\<forall>x \<in> set xs. quiet (h x))"
proof (induction xs)
  case (Cons x xs)
  have "act_bumps (fold h xs)" using Cons.prems by (intro act_bumps_fold) simp
  from quiet_comp [OF this, of "h x"] Cons show ?case by (simp add: comp_def)
qed (simp add: quiet_def)

lemma quiet_opt: "quiet (classify_opt x) \<longleftrightarrow> (\<forall>f \<in> set_option x. quiet f)"
  by (cases x) simp_all

lemma quiet_query:
  "quiet (classify_query (Query ctes locks body)) \<longleftrightarrow>
     (\<forall>c \<in> set ctes. quiet (classify_query (cte_query c))) \<and> locks = 0 \<and>
     quiet (classify_set_expr body)"
proof -
  let ?cs = "fold classify_cte (map (map_cte classify_query) ctes)"
  let ?lk = "\<lambda>v. if locks \<noteq> 0 then bump Write ''locking read (FOR UPDATE/FOR SHARE)'' v else v"
  have cte: "classify_cte (map_cte classify_query c) = classify_query (cte_query c)" for c
    by (cases c) simp
  have "quiet ?cs \<longleftrightarrow> (\<forall>f \<in> set (map (map_cte classify_query) ctes). quiet (classify_cte f))"
    by (rule quiet_fold) (auto simp: cte act_bumps_all)
  moreover have "act_bumps ?lk"
    by (rule act_bumps_if) (auto intro: act_intro simp: bump_table_def)
  ultimately show ?thesis
    using quiet_comp [OF act_bumps_all(3), of body "\<lambda>v. ?lk (?cs v)"] quiet_comp [of ?lk ?cs]
    by (auto simp: Let_def cte)
qed

lemma quiet_select:
  "quiet (classify_set_expr (SeSelect x)) \<longleftrightarrow>
     \<not> sel_into x \<and>
     (\<forall>i \<in> set (sel_projection x). \<forall>e \<in> set_select_item i. quiet (classify_expr e)) \<and>
     (\<forall>e \<in> set_option (sel_selection x). quiet (classify_expr e)) \<and>
     (\<forall>e \<in> set_option (sel_having x). quiet (classify_expr e))"
proof (cases x)
  case (Select into projection frm selection having)
  let ?in = "\<lambda>v. if into then bump Write ''SELECT INTO'' v else v"
  let ?it = "fold classify_item (map (map_select_item classify_expr) projection)"
  let ?op = "\<lambda>eo. classify_opt (map_option classify_expr eo)"
  have item: "act_bumps (classify_item (map_select_item classify_expr i))" for i
    by (rule act_bumps_item) (auto simp: select_item.set_map act_bumps_all)
  have op: "act_bumps (?op eo)" for eo :: "expr option"
    by (rule act_bumps_opt) (auto simp: act_bumps_all)
  have it: "act_bumps ?it" by (rule act_bumps_fold) (use item in auto)
  have qi: "quiet (classify_item (map_select_item classify_expr i)) \<longleftrightarrow>
      (\<forall>e \<in> set_select_item i. quiet (classify_expr e))" for i
    by (cases i) auto
  have "quiet ?it \<longleftrightarrow> (\<forall>i \<in> set projection. \<forall>e \<in> set_select_item i. quiet (classify_expr e))"
    by (subst quiet_fold) (auto simp: item qi)
  then show ?thesis
    using quiet_comp [OF it, of ?in] quiet_comp [OF op, of selection "\<lambda>v. ?it (?in v)"]
      quiet_comp [OF op, of having "\<lambda>v. ?op selection (?it (?in v))"]
    by (auto simp: Select Let_def quiet_opt)
qed

lemma quiet_function:
  "quiet (classify_expr (ExFunction name args)) \<longleftrightarrow>
     \<not> is_side_effect_function name \<and>
     (\<forall>as e. args = ArgsList as \<longrightarrow> ArgUnnamed e \<in> set as \<longrightarrow> quiet (classify_expr e))"
proof -
  let ?fn = "\<lambda>v. if is_side_effect_function name
    then bump Write ''side-effect function in expression'' v else v"
  let ?ar = "walk_function_args (map_func_args classify_expr classify_query args)"
  have arg: "act_bumps (walk_arg (map_func_arg classify_expr a))" for a
    by (rule act_bumps_arg) (auto simp: func_arg.set_map act_bumps_all)
  have qa: "quiet (walk_arg (map_func_arg classify_expr a)) \<longleftrightarrow>
      (\<forall>e. a = ArgUnnamed e \<longrightarrow> quiet (classify_expr e))" for a
    by (cases a) auto
  have "act_bumps ?ar"
    by (rule act_bumps_args) (auto simp: func_args.set_map act_bumps_all)
  moreover have "quiet ?ar \<longleftrightarrow>
      (\<forall>as e. args = ArgsList as \<longrightarrow> ArgUnnamed e \<in> set as \<longrightarrow> quiet (classify_expr e))"
  proof (cases args)
    case (ArgsList as)
    have "quiet (fold walk_arg (map (map_func_arg classify_expr) as)) \<longleftrightarrow>
        (\<forall>e. ArgUnnamed e \<in> set as \<longrightarrow> quiet (classify_expr e))"
      by (subst quiet_fold) (auto simp: arg qa)
    with ArgsList show ?thesis by auto
  qed auto
  ultimately show ?thesis using quiet_comp [of ?ar ?fn] by (auto simp: Let_def)
qed

lemma quiet_case:
  "quiet (classify_expr (ExCase op ws els)) \<longleftrightarrow>
     (\<forall>e \<in> set_option op. quiet (classify_expr e)) \<and>
     (\<forall>w \<in> set ws. \<forall>e \<in> set_case_when w. quiet (classify_expr e)) \<and>
     (\<forall>e \<in> set_option els. quiet (classify_expr e))"
proof -
  let ?op = "\<lambda>eo. classify_opt (map_option classify_expr eo)"
  let ?ws = "fold classify_when (map (map_case_when classify_expr) ws)"
  have whn: "act_bumps (classify_when (map_case_when classify_expr w))" for w
    by (rule act_bumps_when) (auto simp: case_when.set_map act_bumps_all)
  have qw: "quiet (classify_when (map_case_when classify_expr w)) \<longleftrightarrow>
      (\<forall>e \<in> set_case_when w. quiet (classify_expr e))" for w
    by (cases w) (auto simp: quiet_comp act_bumps_all)
  have ab: "act_bumps (?op eo)" for eo :: "expr option"
    by (rule act_bumps_opt) (auto simp: act_bumps_all)
  have abw: "act_bumps ?ws" by (rule act_bumps_fold) (use whn in auto)
  have "quiet ?ws \<longleftrightarrow> (\<forall>w \<in> set ws. \<forall>e \<in> set_case_when w. quiet (classify_expr e))"
    by (subst quiet_fold) (auto simp: whn qw)
  then show ?thesis
    using quiet_comp [OF abw, of "?op op"] quiet_comp [OF ab, of els "\<lambda>v. ?ws (?op op v)"]
    by (auto simp: Let_def quiet_opt)
qed

lemma quiet_in_list:
  "quiet (classify_expr (ExInList e es)) \<longleftrightarrow>
     quiet (classify_expr e) \<and> (\<forall>x \<in> set es. quiet (classify_expr x))"
proof -
  let ?es = "fold (\<lambda>f. f) (map classify_expr es)"
  have "act_bumps ?es" by (rule act_bumps_fold) (auto simp: act_bumps_all)
  moreover have "quiet ?es \<longleftrightarrow> (\<forall>x \<in> set es. quiet (classify_expr x))"
    by (subst quiet_fold) (auto simp: act_bumps_all)
  ultimately show ?thesis using quiet_comp [of ?es "classify_expr e"] by simp
qed

declare classify_query.simps [simp del]

lemma quiet_iff_not_risky:
  "quiet (classify_statement s) \<longleftrightarrow> \<not> risky_stmt s"
  "quiet (classify_query q) \<longleftrightarrow> \<not> risky_query q"
  "quiet (classify_set_expr b) \<longleftrightarrow> \<not> risky_set b"
  "quiet (classify_expr e) \<longleftrightarrow> \<not> risky_expr e"
proof (induction s and q and b and e)
  case (Query ctes locks body)
  then show ?case by (auto simp: quiet_query intro: cte.set_sel)
next
  case (SeSelect x)
  have "\<And>e. e \<in> set1_select x \<Longrightarrow> quiet (classify_expr e) = (\<not> risky_expr e)"
    by (rule SeSelect(1))
  then show ?case unfolding quiet_select by (cases x) (auto; blast)
next
  case (ExFunction name args)
  then show ?case unfolding quiet_function by (cases args) fastforce+
next
  case (ExCase op ws els)
  then show ?case unfolding quiet_case by (cases op; cases els; fastforce)
next
  case (ExInList e es)
  then show ?case unfolding quiet_in_list by auto
qed (simp_all add: quiet_comp act_bumps_all)

text \<open>
  C1. A statement alone is classified read-only exactly when no construct of the declarative
  reading occurs in it.
\<close>

theorem classify_statement_read_only_iff:
  "is_read_only (classify_statement s verdict_empty) \<longleftrightarrow> \<not> risky_stmt s"
  using quiet_iff_not_risky(1) [of s] by (simp add: quiet_def is_read_only_def)

section \<open>Witnesses and what the classifier does not see\<close>

definition plain_select :: set_expr where
  "plain_select = SeSelect (Select False [ItemOther] [] None None)"

definition sample_parser :: sql_parser where
  "sample_parser d sql =
     (if d = MySqlDialect \<and> sql = ''SELECT * FROM t; DROP TABLE t''
      then Some [StQuery (Query [] 0 plain_select), StDdl Drop] else None)"

theorem classify_fails_closed_witness: "Write \<le> rv_class (classify sample_parser ''not sql'')"
  by (rule classify_fails_closed) (simp add: parse_any_def sample_parser_def)

theorem classify_takes_max_witness:
  "rv_class (classify sample_parser ''SELECT * FROM t; DROP TABLE t'') = Ddl"
proof -
  let ?ss = "[StQuery (Query [] 0 plain_select), StDdl Drop]"
  have "rv_class (classify sample_parser ''SELECT * FROM t; DROP TABLE t'') =
      Max ((\<lambda>s. rv_class (classify_statement s verdict_empty)) ` set ?ss)"
    by (rule classify_takes_max) (simp add: parse_any_def sample_parser_def, simp, code_simp)
  then show ?thesis by (simp add: classify_query.simps plain_select_def Let_def)
qed

text \<open>The FROM clause does not influence the verdict.\<close>

lemma classify_ignores_from:
  "classify_set_expr (SeSelect (Select into projection frm selection having)) =
   classify_set_expr (SeSelect (Select into projection frm' selection having))"
  by (simp add: Let_def)

text \<open>
  So a locking read, a \<open>SELECT INTO\<close> or a call of \<open>nextval\<close> inside a derived table passes as
  a read, although the same query as an \<open>IN\<close> subquery does not.
\<close>

lemma classify_misses_derived_table:
  assumes "risky_query q"
  shows "is_read_only (classify_statement
           (StQuery (Query [] 0 (SeSelect (Select False [ItemOther] [q] None None)))) verdict_empty)"
    and "\<not> is_read_only (classify_statement
           (StQuery (Query [] 0 (SeSelect (Select False [ItemOther] []
             (Some (ExInSubquery ExOther q)) None)))) verdict_empty)"
  using assms quiet_iff_not_risky(2) by (auto simp: quiet_def is_read_only_def)

end
