(* ===== verification/Rate_Limiter.thy ===== *)
theory Rate_Limiter
  imports Rust_Prelude
begin

text \<open>
  The sliding-window limiter of \<open>crates/core/src/auth/rate_limiter.rs\<close> and the per-IP layer
  built on it.

  An \<open>Instant\<close> is a \<^typ>\<open>nat\<close> of nanoseconds; \<open>Instant::duration_since\<close> saturates at
  zero, as subtraction on \<^typ>\<open>nat\<close> does. The interface \<open>sliding_window\<close> is what the
  callers of the limiter rely on; the bound on accepted requests is proved once inside it.
\<close>

section \<open>Model\<close>

type_synonym counters = "string \<rightharpoonup> nat list"

definition nanos_per_sec :: nat where
  "nanos_per_sec = 1000000000"

definition elapsed_secs :: "nat \<Rightarrow> nat \<Rightarrow> nat" where
  "elapsed_secs now t = (now - t) div nanos_per_sec"

definition entries_of :: "counters \<Rightarrow> string \<Rightarrow> nat list" where
  "entries_of cs key = (case cs key of None \<Rightarrow> [] | Some es \<Rightarrow> es)"

definition check_and_record :: "counters \<Rightarrow> string \<Rightarrow> nat \<Rightarrow> nat \<Rightarrow> nat \<Rightarrow> bool \<times> counters" where
  "check_and_record cs key mx window_secs now =
     (let entries = filter (\<lambda>t. elapsed_secs now t < window_secs) (entries_of cs key)
      in if mx \<le> length entries then (False, cs(key \<mapsto> entries))
         else (True, cs(key \<mapsto> entries @ [now])))"

definition max_requests :: nat where
  "max_requests = 5"

definition window_secs_default :: nat where
  "window_secs_default = 60"

text \<open>
  The client key of the layer: the first address of \<open>X-Forwarded-For\<close>, if the header is
  there (\<open>fwd\<close>) and that address is not blank.
\<close>

definition extract_client_ip :: "string option \<Rightarrow> string" where
  "extract_client_ip fwd =
     (case fwd of
        Some h \<Rightarrow>
          (let first = trim (hd (split_on (CHR '','') h))
           in if first \<noteq> [] then first else ''unknown'')
      | None \<Rightarrow> ''unknown'')"

datatype 'resp layer_result = LayerRejected | Inner 'resp

text \<open>\<open>RateLimiter::call\<close>: the inner service runs only if the request is allowed.\<close>

definition rate_limiter_call ::
  "counters \<Rightarrow> string option \<Rightarrow> nat \<Rightarrow> 'resp \<Rightarrow> 'resp layer_result \<times> counters" where
  "rate_limiter_call cs fwd now inner =
     (let (allowed, cs') =
        check_and_record cs (extract_client_ip fwd) max_requests window_secs_default now
      in (if \<not> allowed then LayerRejected else Inner inner, cs'))"

text \<open>The layer over a list of requests (header and arrival time): the keys and times let through.\<close>

primrec layer_log :: "counters \<Rightarrow> (string option \<times> nat) list \<Rightarrow> (string \<times> nat) list" where
  "layer_log cs [] = []"
| "layer_log cs (r # rs) =
     (let (res, cs') = rate_limiter_call cs (fst r) (snd r) ()
      in (if res = Inner () then [(extract_client_ip (fst r), snd r)] else []) @ layer_log cs' rs)"

section \<open>The interface and its consequence\<close>

text \<open>The accepted requests of a run, and how many of them a window of a key holds.\<close>

primrec accepted ::
  "('s \<Rightarrow> string \<Rightarrow> nat \<Rightarrow> bool \<times> 's) \<Rightarrow> 's \<Rightarrow> (string \<times> nat) list \<Rightarrow> (string \<times> nat) list" where
  "accepted check s [] = []"
| "accepted check s (r # rs) =
     (let (ok, s') = check s (fst r) (snd r)
      in (if ok then [r] else []) @ accepted check s' rs)"

definition times :: "(string \<times> nat) list \<Rightarrow> string \<Rightarrow> nat list" where
  "times log k = map snd (filter (\<lambda>r. fst r = k) log)"

definition window_count :: "nat \<Rightarrow> (string \<times> nat) list \<Rightarrow> string \<Rightarrow> nat \<Rightarrow> nat" where
  "window_count span log k t = length (filter (\<lambda>u. u \<le> t \<and> t - u < span) (times log k))"

lemma times_append [simp]: "times (log @ log') k = times log k @ times log' k"
  by (simp add: times_def)

lemma times_simps [simp]: "times [] k' = []" "times [(k, n)] k' = (if k' = k then [n] else [])"
  by (simp_all add: times_def)

text \<open>
  \<open>stamps\<close> are the recorded times of a key; a time is live at \<open>now\<close> while it is less than
  \<open>span\<close> old.
\<close>

locale sliding_window =
  fixes check :: "'s \<Rightarrow> string \<Rightarrow> nat \<Rightarrow> bool \<times> 's"
    and stamps :: "'s \<Rightarrow> string \<Rightarrow> nat list"
    and limit :: nat
    and span :: nat
  assumes check_accepts:
      "fst (check s k now) \<longleftrightarrow> length (filter (\<lambda>t. now - t < span) (stamps s k)) < limit"
    and check_stamps:
      "stamps (snd (check s k now)) k =
         filter (\<lambda>t. now - t < span) (stamps s k) @ (if fst (check s k now) then [now] else [])"
    and check_frame: "k' \<noteq> k \<Longrightarrow> stamps (snd (check s k now)) k' = stamps s k'"
begin

text \<open>
  From \<open>from\<close> on, the recorded times say the same as the log; the log is bounded in every
  window.
\<close>

definition log_inv :: "'s \<Rightarrow> (string \<times> nat) list \<Rightarrow> nat \<Rightarrow> bool" where
  "log_inv s log from \<longleftrightarrow>
     (\<forall>k now. from \<le> now \<longrightarrow>
        filter (\<lambda>t. now - t < span) (stamps s k) = filter (\<lambda>t. now - t < span) (times log k)) \<and>
     (\<forall>k t. window_count span log k t \<le> limit)"

lemma filter_live_later:
  "n \<le> now \<Longrightarrow> filter (\<lambda>t. now - t < span) (filter (\<lambda>t. n - t < span) xs) =
     filter (\<lambda>t. now - t < span) xs"
  by (auto intro!: filter_cong simp: filter_filter)

lemma log_inv_check:
  assumes inv: "log_inv s log from" and n: "from \<le> n"
  shows "log_inv (snd (check s k n)) (log @ (if fst (check s k n) then [(k, n)] else [])) n"
proof -
  let ?ok = "fst (check s k n)" and ?s = "snd (check s k n)"
  let ?log = "log @ (if ?ok then [(k, n)] else [])"
  from inv n have live: "\<And>k' now. n \<le> now \<Longrightarrow> filter (\<lambda>t. now - t < span) (stamps s k') =
      filter (\<lambda>t. now - t < span) (times log k')"
    and bound: "\<And>k' t. window_count span log k' t \<le> limit"
    by (auto simp: log_inv_def)
  have tm: "times ?log k' = times log k' @ (if ?ok \<and> k' = k then [n] else [])" for k'
    by simp
  have "filter (\<lambda>t. now - t < span) (stamps ?s k') = filter (\<lambda>t. now - t < span) (times ?log k')"
    if "n \<le> now" for k' now
  proof (cases "k' = k")
    case True
    have "filter (\<lambda>t. now - t < span) (filter (\<lambda>t. n - t < span) (stamps s k)) =
        filter (\<lambda>t. now - t < span) (times log k)"
      using that live [OF that, of k] by (simp only: filter_live_later)
    then show ?thesis unfolding True by (simp add: check_stamps)
  next
    case False
    then show ?thesis using live [OF that, of k'] by (simp add: check_frame)
  qed
  moreover have "window_count span ?log k' t \<le> limit" for k' t
  proof (cases "?ok \<and> k' = k \<and> n \<le> t \<and> t - n < span")
    case True
    have "length (filter (\<lambda>u. u \<le> t \<and> t - u < span) (times log k)) \<le>
        length (filter (\<lambda>u. n - u < span) (times log k))"
      using True by (intro length_filter_mono) linarith
    also have "\<dots> = length (filter (\<lambda>u. n - u < span) (stamps s k))"
      using live [of n k] by simp
    also have "\<dots> < limit" using True check_accepts by blast
    finally show ?thesis using True by (simp add: window_count_def tm)
  next
    case False
    then have "window_count span ?log k' t = window_count span log k' t"
      by (auto simp: window_count_def tm)
    then show ?thesis using bound by simp
  qed
  ultimately show ?thesis by (simp add: log_inv_def)
qed

lemma accepted_log_inv:
  "log_inv s log from \<Longrightarrow> sorted (map snd rs) \<Longrightarrow> (\<forall>r \<in> set rs. from \<le> snd r) \<Longrightarrow>
     \<exists>s' to. log_inv s' (log @ accepted check s rs) to"
proof (induction rs arbitrary: s log "from")
  case (Cons r rs)
  obtain k n where r: "r = (k, n)" by (cases r)
  obtain ok s' where c: "check s k n = (ok, s')" by (cases "check s k n")
  have "log_inv s' (log @ (if ok then [r] else [])) n"
    using log_inv_check [OF Cons.prems(1), of n k] Cons.prems(3) unfolding r c by simp
  from Cons.IH [OF this] Cons.prems(2) show ?case by (cases ok) (simp_all add: r c)
qed auto

text \<open>
  Starting empty and with a clock that does not go back, no window of the given span ever holds
  more than \<open>limit\<close> accepted requests of one key.
\<close>

lemma accepted_bounded:
  assumes "\<And>k. stamps s k = []" "sorted (map snd rs)"
  shows "window_count span (accepted check s rs) k t \<le> limit"
proof -
  have "log_inv s [] 0" using assms(1) by (simp add: log_inv_def window_count_def)
  from accepted_log_inv [OF this assms(2)] show ?thesis by (auto simp: log_inv_def)
qed

text \<open>A key with fewer than \<open>limit\<close> live requests is let through, whatever other keys did.\<close>

lemma accepts_below_limit: "length (stamps s k) < limit \<Longrightarrow> fst (check s k now)"
  unfolding check_accepts by (rule le_less_trans [OF length_filter_le])

end

section \<open>The limiter implements the interface\<close>

lemma elapsed_secs_less: "elapsed_secs now t < w \<longleftrightarrow> now - t < w * nanos_per_sec"
  by (simp add: elapsed_secs_def nanos_per_sec_def div_less_iff_less_mult)

interpretation limiter: sliding_window
  "\<lambda>cs k now. check_and_record cs k mx w now" entries_of mx "w * nanos_per_sec" for mx w :: nat
  by unfold_locales
    (auto simp: check_and_record_def Let_def elapsed_secs_less entries_of_def)

text \<open>
  C22. Under a clock that does not go back, the limiter accepts at most \<open>mx\<close> requests of one key
  in any window of the given length, for every sequence of requests of any keys.
\<close>

theorem check_and_record_bounded:
  "sorted (map snd rs) \<Longrightarrow>
     window_count (w * nanos_per_sec) (accepted (\<lambda>cs k now. check_and_record cs k mx w now) Map.empty rs) k t
       \<le> mx"
  by (rule limiter.accepted_bounded) (simp_all add: entries_of_def)

theorem check_and_record_bounded_witness:
  "window_count (60 * nanos_per_sec)
     (accepted (\<lambda>cs k now. check_and_record cs k 2 60 now) Map.empty
        [(''a'', 1), (''b'', 1), (''a'', 2), (''a'', 3)]) ''a'' 3 \<le> 2"
  by (rule check_and_record_bounded) simp

lemma layer_log_accepted:
  "layer_log cs rs =
     accepted (\<lambda>cs k now. check_and_record cs k max_requests window_secs_default now) cs
       (map (\<lambda>r. (extract_client_ip (fst r), snd r)) rs)"
  by (induction rs arbitrary: cs) (simp_all add: rate_limiter_call_def Let_def split: prod.splits)

text \<open>
  The auth endpoints let at most five requests of one client key through in any 60 seconds.
\<close>

theorem auth_layer_bounded:
  assumes "sorted (map snd rs)"
  shows "window_count (60 * nanos_per_sec) (layer_log Map.empty rs) ip t \<le> 5"
proof -
  have "sorted (map snd (map (\<lambda>r. (extract_client_ip (fst r), snd r)) rs))"
    using assms by (simp add: comp_def)
  from limiter.accepted_bounded [OF _ this, of Map.empty window_secs_default max_requests ip t]
  show ?thesis
    by (simp add: layer_log_accepted entries_of_def max_requests_def window_secs_default_def)
qed

theorem auth_layer_bounded_witness:
  "window_count (60 * nanos_per_sec) (layer_log Map.empty [(None, 1), (Some ''10.0.0.1, x'', 2)]) ''unknown'' 9 \<le> 5"
  by (rule auth_layer_bounded) simp

text \<open>
  Requests without the forwarding header share one key, whatever their peer address: the
  documented fallback to the socket address does not exist.
\<close>

lemma extract_client_ip_no_header: "extract_client_ip None = ''unknown''"
  by (simp add: extract_client_ip_def)

end
