(* ===== verification/Redaction.thy ===== *)
theory Redaction
  imports Rust_Prelude
begin

text \<open>
  The functions that cut or replace a text before it reaches an audit table, a webhook, a
  response or a log: the truncations of the audit writers, the error redactors of the
  runners, collectors and database legs, the masked connection ids, and the client-address
  redaction of \<open>crates/core/src/telemetry.rs\<close>.

  An error is its displayed text (\<open>e.to_string()\<close>). The code appends one character
  outside the model's alphabet, the ellipsis U+2026; it is the constant \<open>ellipsis\<close> here.
\<close>

section \<open>Model\<close>

definition ellipsis :: char where
  "ellipsis = CHR 0x99"

definition truncated_mark :: string where
  "truncated_mark = ellipsis # ''[truncated]''"

subsection \<open>Truncations\<close>

definition mcp_truncate_redacted :: "string \<Rightarrow> string" where
  "mcp_truncate_redacted s = (if length s \<le> 500 then s else take 500 s @ truncated_mark)"

definition gw_truncate_bounded :: "string \<Rightarrow> string" where
  "gw_truncate_bounded s = (if length s \<le> 500 then s else take 500 s @ truncated_mark)"

definition drift_truncate_redacted :: "string \<Rightarrow> string" where
  "drift_truncate_redacted s = (if length s \<le> 500 then s else take 500 s @ truncated_mark)"

definition truncate_audit_error :: "string \<Rightarrow> string" where
  "truncate_audit_error s = (if length s \<le> 500 then s else take 500 s @ truncated_mark)"

definition truncate_chars :: "nat \<Rightarrow> string \<Rightarrow> string" where
  "truncate_chars mx s = (if length s \<le> mx then s else take mx s @ [ellipsis])"

definition drift_redact_error :: "string \<Rightarrow> string" where
  "drift_redact_error s = take 500 s"

definition canary_redact :: "string \<Rightarrow> string" where
  "canary_redact s = take 200 s"

subsection \<open>First lines\<close>

definition first_line :: "string \<Rightarrow> string \<Rightarrow> string" where
  "first_line dflt s = (case str_lines s of [] \<Rightarrow> dflt | l # _ \<Rightarrow> l)"

definition collector_redact_error :: "string \<Rightarrow> string" where
  "collector_redact_error s = take 200 (first_line ''collection error'' s)"

definition health_redact_error :: "string \<Rightarrow> string" where
  "health_redact_error s = take 300 (first_line ''health_check run error'' s)"

definition redact_sqlx_err :: "string \<Rightarrow> string" where
  "redact_sqlx_err s = take 200 (first_line ''driver error'' s)"

definition redact_ssh :: "string \<Rightarrow> string" where
  "redact_ssh msg = take 120 (first_line ''ssh error'' msg)"

subsection \<open>Categories\<close>

definition sync_redact_error :: "string \<Rightarrow> string" where
  "sync_redact_error s =
     (if contains_sub ''connect'' s then ''source/target database connection failed''
      else if contains_sub ''config'' s \<or> contains_sub ''identifier'' s \<or> contains_sub ''ON clause'' s
        then take 300 s
      else if contains_sub ''not found'' s then take 200 s
      else ''data_sync ETL run failed'')"

definition db_redact :: "string \<Rightarrow> string" where
  "db_redact s =
     (if contains_sub ''connect'' s \<or> contains_sub ''Connection'' s then ''database connection failed''
      else if contains_sub ''file_path'' s \<or> contains_sub ''config'' s then take 200 s
      else ''query execution failed'')"

definition redact_id :: "string \<Rightarrow> string" where
  "redact_id cid =
     (if length cid \<le> 4 then ''***''
      else take 4 cid @ ''***('' @ show_nat (length cid) @ '')'')"

subsection \<open>Client addresses\<close>

definition redact_ipv4 :: "string \<Rightarrow> string" where
  "redact_ipv4 s =
     (let parts = split_on (CHR ''.'') s in
      if length parts = 4 \<and> list_all (\<lambda>p. parse_unsigned 255 p \<noteq> None) parts
      then parts ! 0 @ ''.'' @ parts ! 1 @ ''.'' @ parts ! 2 @ ''.0''
      else ''unknown'')"

definition redact_ip_str :: "string \<Rightarrow> string" where
  "redact_ip_str raw =
     (if starts_with ''::ffff:'' raw then redact_ipv4 (drop 7 raw)
      else if CHR '':'' \<in> set raw then
        (let groups = split_on (CHR '':'') raw in
         if 4 \<le> length groups \<and> list_all (\<lambda>g. g \<noteq> []) (take 3 groups)
         then join '':'' (take 3 groups) @ '':0''
         else ''unknown'')
      else redact_ipv4 raw)"

definition redact_client_ip :: "string option \<Rightarrow> string" where
  "redact_client_ip fwd =
     (let raw = (case fwd of None \<Rightarrow> [] | Some h \<Rightarrow> trim (hd (split_on (CHR '','') h)))
      in if raw = [] then ''unknown'' else redact_ip_str raw)"

section \<open>Interfaces\<close>

text \<open>
  A cut keeps a text up to \<open>mx\<close> characters, and of a longer one only the first \<open>mx\<close>, with a
  mark of at most \<open>extra\<close> characters.
\<close>

locale bounded_cut =
  fixes cut :: "string \<Rightarrow> string"
    and mx :: nat
    and extra :: nat
  assumes short: "length s \<le> mx \<Longrightarrow> cut s = s"
    and bound: "length (cut s) \<le> mx + extra"
    and keeps: "take mx (cut s) = take mx s"
    and hides: "mx < length s \<Longrightarrow> mx < length t \<Longrightarrow> take mx s = take mx t \<Longrightarrow> cut s = cut t"
begin

text \<open>Writers that cut a text already cut by their caller change nothing.\<close>

lemma cut_idem: "cut (cut s) = cut s"
proof (cases "length s \<le> mx \<or> length (cut s) \<le> mx")
  case True
  then show ?thesis by (auto simp: short)
next
  case False
  then show ?thesis by (intro hides) (simp_all add: keeps)
qed

text \<open>Nothing behind the first \<open>mx + 1\<close> characters influences the result.\<close>

lemma cut_noninterference: "take (Suc mx) s = take (Suc mx) t \<Longrightarrow> cut s = cut t"
proof (cases "length s \<le> mx \<or> length t \<le> mx")
  case True
  assume eq: "take (Suc mx) s = take (Suc mx) t"
  then have "length (take (Suc mx) s) = length (take (Suc mx) t)" by simp
  with True have "length s \<le> mx" "length t \<le> mx" by auto
  with eq show ?thesis by simp
next
  case False
  assume eq: "take (Suc mx) s = take (Suc mx) t"
  then have "take mx (take (Suc mx) s) = take mx (take (Suc mx) t)" by simp
  then show ?thesis using False by (intro hides) (simp_all add: min_def)
qed

end

text \<open>A summary is one line of bounded length.\<close>

locale line_summary =
  fixes summ :: "string \<Rightarrow> string"
    and mx :: nat
  assumes summ_bound: "length (summ s) \<le> mx"
    and summ_line: "newline \<notin> set (summ s)"
    and summ_line_only: "newline \<notin> set l \<Longrightarrow> summ (l @ newline # s) = summ (l @ newline # t)"
begin

text \<open>What follows the first line feed, such as the statement a driver quotes, does not pass.\<close>

lemma summ_hides_rest:
  assumes "split_once newline s = Some (l, r)" "split_once newline t = Some (l, r')"
  shows "summ s = summ t"
  using assms summ_line_only by (simp add: split_once_Some)

end

text \<open>Both kinds of bound on one value: a summary goes through a cut without a change.\<close>

locale summarised_cut = bounded_cut cut mx extra + line_summary summ mx'
  for cut mx extra summ mx' +
  assumes fits: "mx' \<le> mx"
begin

lemma cut_summ: "cut (summ s) = summ s"
  using summ_bound [of s] fits by (intro short) simp

end

section \<open>The code implements the interfaces\<close>

lemmas truncation_defs = mcp_truncate_redacted_def gw_truncate_bounded_def
  drift_truncate_redacted_def truncate_audit_error_def truncate_chars_def truncated_mark_def

interpretation mcp_cut: bounded_cut mcp_truncate_redacted 500 12
  by unfold_locales (auto simp: truncation_defs)

interpretation gw_cut: bounded_cut gw_truncate_bounded 500 12
  by unfold_locales (auto simp: truncation_defs)

interpretation drift_cut: bounded_cut drift_truncate_redacted 500 12
  by unfold_locales (auto simp: truncation_defs)

interpretation stats_cut: bounded_cut "truncate_chars mx" mx 1 for mx
  by unfold_locales (auto simp: truncation_defs)

interpretation drift_error: bounded_cut drift_redact_error 500 0
  by unfold_locales (auto simp: drift_redact_error_def)

interpretation drift_canary_error: bounded_cut canary_redact 200 0
  by unfold_locales (auto simp: canary_redact_def)

lemma split_on_first_line:
  "newline \<notin> set l \<Longrightarrow> split_on newline (l @ newline # s) = l # split_on newline s"
  by (induction l) auto

lemma str_lines_first: "newline \<notin> set l \<Longrightarrow> str_lines (l @ newline # s) =
    strip_cr l # lines_of (split_on newline s)"
  using split_on_first_line [of l s]
  by (cases "split_on newline s") (simp_all add: str_lines_def)

lemma first_line_append:
  "newline \<notin> set l \<Longrightarrow> first_line d (l @ newline # s) = strip_cr l"
  by (simp add: first_line_def str_lines_first)

lemma first_line_no_newline: "newline \<notin> set d \<Longrightarrow> newline \<notin> set (first_line d s)"
  using str_lines_no_newline [of _ s] by (auto simp: first_line_def split: list.splits)

lemma summary_of_first_line:
  assumes "newline \<notin> set d"
  shows "line_summary (\<lambda>s. take mx (first_line d s)) mx"
proof
  show "newline \<notin> set (take mx (first_line d s))" for s
    using first_line_no_newline [OF assms, of s] by (meson in_set_takeD)
qed (simp_all add: first_line_append)

interpretation collector_error: line_summary collector_redact_error 200
  using summary_of_first_line [of "''collection error''" 200]
  by (simp add: collector_redact_error_def [abs_def] newline_def)

interpretation sqlx_error: line_summary redact_sqlx_err 200
  using summary_of_first_line [of "''driver error''" 200]
  by (simp add: redact_sqlx_err_def [abs_def] newline_def)

interpretation ssh_error: line_summary redact_ssh 120
  using summary_of_first_line [of "''ssh error''" 120]
  by (simp add: redact_ssh_def [abs_def] newline_def)

lemma health_error_summary: "line_summary health_redact_error 300"
  using summary_of_first_line [of "''health_check run error''" 300]
  by (simp add: health_redact_error_def [abs_def] newline_def)

interpretation health_audit: summarised_cut truncate_audit_error 500 12 health_redact_error 300
  using health_error_summary
  by (intro summarised_cut.intro summarised_cut_axioms.intro bounded_cut.intro)
    (auto simp: truncation_defs)

section \<open>Properties\<close>

definition ipv4 :: "nat list \<Rightarrow> string" where
  "ipv4 octets = join ''.'' (map show_nat octets)"

lemma show_nat_0: "show_nat 0 = ''0''"
  by code_simp

lemma split_ipv4: "octets \<noteq> [] \<Longrightarrow> split_on (CHR ''.'') (ipv4 octets) = map show_nat octets"
  unfolding ipv4_def
  by (rule split_on_join)
    (auto simp: is_ascii_digit_def ccode_def dest!: not_digit_notin_show_nat [THEN notE, rotated])

lemma char_notin_ipv4:
  assumes "\<not> is_ascii_digit c" "c \<noteq> CHR ''.''"
  shows "c \<notin> set (ipv4 octets)"
  unfolding ipv4_def
proof (induction octets)
  case (Cons x xs)
  then show ?case
    using not_digit_notin_show_nat [OF assms(1)] assms(2) by (cases xs) auto
qed simp

lemma redact_ipv4_octets:
  "list_all (\<lambda>n. n \<le> 255) [a, b, c, d] \<Longrightarrow> redact_ipv4 (ipv4 [a, b, c, d]) = ipv4 [a, b, c, 0]"
  by (simp add: redact_ipv4_def split_ipv4 parse_unsigned_show_nat)
    (simp add: ipv4_def show_nat_0)

lemma hd_split_on: "d \<notin> set w \<Longrightarrow> rest = [] \<or> hd rest = d \<Longrightarrow> hd (split_on d (w @ rest)) = w"
  by (cases rest) (auto simp: split_on_append split_on_single)

lemma ipv4_chars: "c \<in> set (ipv4 octets) \<Longrightarrow> \<not> is_ws c \<and> c \<noteq> CHR '','' \<and> c \<noteq> CHR '':''"
  using char_notin_ipv4 [of c octets]
  by (cases "c = CHR ''.''") (auto simp: is_ascii_digit_def is_ws_def ccode_def Let_def)

lemma ipv4_ne [simp]: "ipv4 (x # xs) \<noteq> []"
  by (cases xs) (simp_all add: ipv4_def)

text \<open>
  Of an IPv4 client address, plain or mapped into IPv6, only the first three octets are
  kept, whatever proxies the header names after it.
\<close>

theorem redact_client_ip_hides_host:
  assumes octets: "list_all (\<lambda>n. n \<le> 255) [a, b, c, d]"
    and pre: "pre = '''' \<or> pre = ''::ffff:''"
    and rest: "rest = [] \<or> hd rest = CHR '',''"
  shows "redact_client_ip (Some (pre @ ipv4 [a, b, c, d] @ rest)) = ipv4 [a, b, c, 0]"
proof -
  let ?ip = "ipv4 [a, b, c, d]"
  have comma: "CHR '','' \<notin> set (pre @ ?ip)"
    using pre ipv4_chars [of "CHR '',''"] by auto
  have ne: "pre @ ?ip \<noteq> []" by simp
  have nws: "\<not> is_ws x" if "x \<in> set (pre @ ?ip)" for x
    using that pre ipv4_chars [of x] by (auto simp: is_ws_def ccode_def)
  have "trim (pre @ ?ip) = pre @ ?ip"
    using ne by (intro trim_id nws hd_in_set last_in_set)
  then have "redact_client_ip (Some (pre @ ?ip @ rest)) = redact_ip_str (pre @ ?ip)"
    using hd_split_on [OF comma rest] by (simp add: redact_client_ip_def)
  also have "\<dots> = redact_ipv4 ?ip"
  proof (cases "pre = ''::ffff:''")
    case True
    then show ?thesis by (simp add: redact_ip_str_def starts_with_def)
  next
    case False
    then have "pre = ''''" using pre by simp
    moreover have "CHR '':'' \<notin> set ?ip" using ipv4_chars [of "CHR '':''"] by blast
    moreover from this have "\<not> starts_with ''::ffff:'' ?ip"
      by (metis list.set_intros(1) prefix_def append_Cons starts_with_iff_prefix)
    ultimately show ?thesis by (simp add: redact_ip_str_def)
  qed
  also have "\<dots> = ipv4 [a, b, c, 0]" using octets by (rule redact_ipv4_octets)
  finally show ?thesis .
qed

theorem redact_client_ip_hides_host_witness:
  "redact_client_ip (Some (''::ffff:'' @ ipv4 [203, 0, 113, 42] @ '', 10.0.0.1'')) = ipv4 [203, 0, 113, 0]"
  by (rule redact_client_ip_hides_host) simp_all

text \<open>
  The three groups kept of anything with a colon are not checked to be hexadecimal, so text that
  is no address passes.
\<close>

lemma redact_client_ip_passes_text:
  "redact_client_ip (Some ''alice:smith:born:1980'') = ''alice:smith:born:0''"
  by code_simp

text \<open>A compressed address such as \<open>2001:db8::1\<close> has an empty third group and becomes unknown.\<close>

lemma redact_client_ip_compressed: "redact_client_ip (Some ''2001:db8::1'') = ''unknown''"
  by code_simp

end
