(* ===== verification/Audit_Trail.thy ===== *)
theory Audit_Trail
  imports Redaction
begin

text \<open>
  The append-only audit writers: \<open>crates/mcp/src/audit.rs\<close>, \<open>crates/gateway/src/audit.rs\<close>,
  \<open>crates/drift/src/audit.rs\<close> and \<open>record_credential_access\<close> of
  \<open>crates/health_check/src/runner.rs\<close>.

  A table is the list of its rows, oldest first. What the writer takes from outside, the fresh
  row id, the time and whether SQLite accepts the insert, is the record \<open>audit_io\<close>. The
  interface \<open>audit_writer\<close> is what every caller relies on.
\<close>

section \<open>Model\<close>

record audit_io =
  au_id :: string
  au_now :: string
  au_accepts :: bool

record audit_row =
  ar_id :: string
  ar_subject :: "string option"
  ar_action :: string
  ar_status :: string
  ar_error :: "string option"
  ar_at :: string
  ar_detail :: "string option"

text \<open>
  \<open>ar_subject\<close> is the column \<open>user_id\<close> of \<open>mcp_audit\<close> and \<open>gw_audit\<close> and
  \<open>connection_id\<close> of \<open>credential_access_audit\<close>; \<open>ar_detail\<close> is the column
  \<open>tool\<close> or \<open>triggered_by\<close>, and is not there for \<open>gw_audit\<close>.
\<close>

definition insert_row :: "audit_io \<Rightarrow> audit_row \<Rightarrow> audit_row list \<Rightarrow> audit_row list" where
  "insert_row io r rows = (if au_accepts io then rows @ [r] else rows)"

subsection \<open>MCP\<close>

datatype mcp_audit_action = AuthRejected | RateLimited | SessionClose | TokenCreated
  | TokenRevoked | ToolCall

datatype audit_status = AuditOk | AuditError

fun mcp_as_db_str :: "mcp_audit_action \<Rightarrow> string" where
  "mcp_as_db_str AuthRejected = ''auth_rejected''"
| "mcp_as_db_str RateLimited = ''rate_limited''"
| "mcp_as_db_str SessionClose = ''session_close''"
| "mcp_as_db_str TokenCreated = ''token_created''"
| "mcp_as_db_str TokenRevoked = ''token_revoked''"
| "mcp_as_db_str ToolCall = ''tool_call''"

fun mcp_default_status :: "mcp_audit_action \<Rightarrow> audit_status" where
  "mcp_default_status AuthRejected = AuditError"
| "mcp_default_status RateLimited = AuditError"
| "mcp_default_status SessionClose = AuditOk"
| "mcp_default_status TokenCreated = AuditOk"
| "mcp_default_status TokenRevoked = AuditOk"
| "mcp_default_status ToolCall = AuditOk"

definition log_mcp_event ::
  "audit_io \<Rightarrow> string option \<Rightarrow> mcp_audit_action \<Rightarrow> string option \<Rightarrow> string option \<Rightarrow>
   audit_row list \<Rightarrow> audit_row list" where
  "log_mcp_event io user_id action tool err rows =
     (let err = map_option mcp_truncate_redacted err;
          status = (if mcp_default_status action = AuditOk \<and> err = None then ''ok'' else ''error'')
      in insert_row io
           \<lparr>ar_id = au_id io, ar_subject = user_id, ar_action = mcp_as_db_str action,
            ar_status = status, ar_error = err, ar_at = au_now io, ar_detail = tool\<rparr> rows)"

subsection \<open>Gateway\<close>

datatype gw_audit_action = GwAuthRejected | GwRateLimited | GwQueryExec | GwConnectionRegistered
  | GwConnectionRemoved

fun gw_as_db_str :: "gw_audit_action \<Rightarrow> string" where
  "gw_as_db_str GwAuthRejected = ''auth_rejected''"
| "gw_as_db_str GwRateLimited = ''rate_limited''"
| "gw_as_db_str GwQueryExec = ''query_exec''"
| "gw_as_db_str GwConnectionRegistered = ''connection_registered''"
| "gw_as_db_str GwConnectionRemoved = ''connection_removed''"

fun gw_default_status :: "gw_audit_action \<Rightarrow> string" where
  "gw_default_status GwAuthRejected = ''error''"
| "gw_default_status GwRateLimited = ''error''"
| "gw_default_status _ = ''ok''"

definition log_gw_event ::
  "audit_io \<Rightarrow> string option \<Rightarrow> gw_audit_action \<Rightarrow> string option \<Rightarrow>
   audit_row list \<Rightarrow> audit_row list" where
  "log_gw_event io user_id action err rows =
     (let err = map_option gw_truncate_bounded err;
          status = (if err = None then gw_default_status action else ''error'')
      in insert_row io
           \<lparr>ar_id = au_id io, ar_subject = user_id, ar_action = gw_as_db_str action,
            ar_status = status, ar_error = err, ar_at = au_now io, ar_detail = None\<rparr> rows)"

subsection \<open>Credential accesses\<close>

datatype drift_audit_action = SchemaSnapshot | DriftCompare | CanaryCheck | WebhookDeliver

fun drift_as_db_str :: "drift_audit_action \<Rightarrow> string" where
  "drift_as_db_str SchemaSnapshot = ''schema_snapshot''"
| "drift_as_db_str DriftCompare = ''drift_compare''"
| "drift_as_db_str CanaryCheck = ''canary_check''"
| "drift_as_db_str WebhookDeliver = ''webhook_deliver''"

fun status_as_db_str :: "audit_status \<Rightarrow> string" where
  "status_as_db_str AuditOk = ''ok''"
| "status_as_db_str AuditError = ''error''"

text \<open>This writer alone reports a refused insert to its caller.\<close>

definition drift_log_access ::
  "audit_io \<Rightarrow> string \<Rightarrow> drift_audit_action \<Rightarrow> audit_status \<Rightarrow> string option \<Rightarrow> string \<Rightarrow>
   audit_row list \<Rightarrow> (string + unit) \<times> audit_row list" where
  "drift_log_access io connection_id action status err triggered_by rows =
     (let err = map_option drift_truncate_redacted err;
          rows' = insert_row io
            \<lparr>ar_id = au_id io, ar_subject = Some connection_id, ar_action = drift_as_db_str action,
             ar_status = status_as_db_str status, ar_error = err, ar_at = au_now io,
             ar_detail = Some triggered_by\<rparr> rows
      in (if au_accepts io then Inr () else Inl ''insert credential_access_audit row'', rows'))"

definition record_credential_access ::
  "audit_io \<Rightarrow> string \<Rightarrow> string \<Rightarrow> string option \<Rightarrow> string \<Rightarrow> audit_row list \<Rightarrow> audit_row list" where
  "record_credential_access io connection_id status err triggered_by rows =
     (let err = map_option truncate_audit_error err
      in insert_row io
           \<lparr>ar_id = au_id io, ar_subject = Some connection_id, ar_action = ''health_check'',
            ar_status = status, ar_error = err, ar_at = au_now io,
            ar_detail = Some triggered_by\<rparr> rows)"

section \<open>The interface\<close>

definition row_bounded :: "nat \<Rightarrow> audit_row \<Rightarrow> bool" where
  "row_bounded n r \<longleftrightarrow> (case ar_error r of None \<Rightarrow> True | Some e \<Rightarrow> length e \<le> n)"

text \<open>A sequence of events, each with what the writer takes from outside.\<close>

primrec emit_all ::
  "(audit_io \<Rightarrow> 'ev \<Rightarrow> string option \<Rightarrow> audit_row list \<Rightarrow> audit_row list) \<Rightarrow>
   (audit_io \<times> 'ev \<times> string option) list \<Rightarrow> audit_row list \<Rightarrow> audit_row list" where
  "emit_all emit [] rows = rows"
| "emit_all emit (e # es) rows =
     emit_all emit es (emit (fst e) (fst (snd e)) (snd (snd e)) rows)"

text \<open>
  An event \<open>'ev\<close> is everything the caller passes but the error text. Rows are only appended,
  at most one per event, with an error that is the cut of the caller's.
\<close>

locale audit_writer = bounded_cut cut mx extra
  for cut :: "string \<Rightarrow> string" and mx extra :: nat +
  fixes emit :: "audit_io \<Rightarrow> 'ev \<Rightarrow> string option \<Rightarrow> audit_row list \<Rightarrow> audit_row list"
    and adverse :: "'ev \<Rightarrow> bool"
  assumes refused: "\<not> au_accepts io \<Longrightarrow> emit io ev err rows = rows"
    and appended: "au_accepts io \<Longrightarrow>
      \<exists>r. emit io ev err rows = rows @ [r] \<and> ar_error r = map_option cut err \<and>
          ar_status r = (if adverse ev \<or> err \<noteq> None then ''error'' else ''ok'')"
begin

lemma emit_extends: "\<exists>new. emit io ev err rows = rows @ new \<and> length new \<le> 1 \<and>
    (\<forall>r \<in> set new. row_bounded (mx + extra) r \<and> ar_status r \<in> {''ok'', ''error''})"
proof (cases "au_accepts io")
  case True
  then obtain r where "emit io ev err rows = rows @ [r]" "ar_error r = map_option cut err"
    "ar_status r \<in> {''ok'', ''error''}"
    using appended [of io ev err rows] by (auto split: if_splits)
  then show ?thesis
    using bound by (intro exI [of _ "[r]"]) (auto simp: row_bounded_def split: option.splits)
qed (simp add: refused)

lemma emit_all_extends: "\<exists>new. emit_all emit es rows = rows @ new \<and> length new \<le> length es \<and>
    (\<forall>r \<in> set new. row_bounded (mx + extra) r \<and> ar_status r \<in> {''ok'', ''error''})"
proof (induction es arbitrary: rows)
  case (Cons e es)
  obtain new where new: "emit (fst e) (fst (snd e)) (snd (snd e)) rows = rows @ new"
    "length new \<le> 1" "\<forall>r \<in> set new. row_bounded (mx + extra) r \<and> ar_status r \<in> {''ok'', ''error''}"
    using emit_extends by blast
  obtain new' where "emit_all emit es (rows @ new) = (rows @ new) @ new'" "length new' \<le> length es"
    "\<forall>r \<in> set new'. row_bounded (mx + extra) r \<and> ar_status r \<in> {''ok'', ''error''}"
    using Cons.IH by blast
  with new show ?case by (intro exI [of _ "new @ new'"]) auto
qed simp

text \<open>An error text longer than the cut influences the table by its first \<open>mx + 1\<close> characters.\<close>

lemma emit_noninterference:
  assumes "take (Suc mx) e = take (Suc mx) e'"
    and "\<And>io ev e rows. emit io ev (Some e) rows = emit io ev (Some (cut e)) rows"
  shows "emit io ev (Some e) rows = emit io ev (Some e') rows"
  using assms cut_noninterference [OF assms(1)] by metis

end

section \<open>The writers implement it\<close>

definition mcp_write ::
  "audit_io \<Rightarrow> string option \<times> mcp_audit_action \<times> string option \<Rightarrow> string option \<Rightarrow>
   audit_row list \<Rightarrow> audit_row list" where
  "mcp_write io ev err rows = log_mcp_event io (fst ev) (fst (snd ev)) (snd (snd ev)) err rows"

definition gw_write ::
  "audit_io \<Rightarrow> string option \<times> gw_audit_action \<Rightarrow> string option \<Rightarrow> audit_row list \<Rightarrow>
   audit_row list" where
  "gw_write io ev err rows = log_gw_event io (fst ev) (snd ev) err rows"

interpretation mcp_audit: audit_writer mcp_truncate_redacted 500 12 mcp_write
    "\<lambda>ev. mcp_default_status (fst (snd ev)) = AuditError"
proof unfold_locales
  fix io ev err rows
  show "\<not> au_accepts io \<Longrightarrow> mcp_write io ev err rows = rows"
    by (simp add: mcp_write_def log_mcp_event_def insert_row_def Let_def)
  assume "au_accepts io"
  then show "\<exists>r. mcp_write io ev err rows = rows @ [r] \<and>
      ar_error r = map_option mcp_truncate_redacted err \<and>
      ar_status r = (if mcp_default_status (fst (snd ev)) = AuditError \<or> err \<noteq> None
        then ''error'' else ''ok'')"
    by (cases "mcp_default_status (fst (snd ev))")
      (simp_all add: mcp_write_def log_mcp_event_def insert_row_def Let_def)
qed

interpretation gw_audit: audit_writer gw_truncate_bounded 500 12 gw_write
    "\<lambda>ev. snd ev = GwAuthRejected \<or> snd ev = GwRateLimited"
proof unfold_locales
  fix io ev err rows
  show "\<not> au_accepts io \<Longrightarrow> gw_write io ev err rows = rows"
    by (simp add: gw_write_def log_gw_event_def insert_row_def Let_def)
  assume "au_accepts io"
  then show "\<exists>r. gw_write io ev err rows = rows @ [r] \<and>
      ar_error r = map_option gw_truncate_bounded err \<and>
      ar_status r = (if (snd ev = GwAuthRejected \<or> snd ev = GwRateLimited) \<or> err \<noteq> None
        then ''error'' else ''ok'')"
    by (cases "snd ev") (simp_all add: gw_write_def log_gw_event_def insert_row_def Let_def)
qed

lemma mcp_write_cut: "mcp_write io ev (Some e) rows = mcp_write io ev (Some (mcp_truncate_redacted e)) rows"
  by (simp add: mcp_write_def log_mcp_event_def mcp_cut.cut_idem)

lemmas mcp_write_noninterference = mcp_audit.emit_noninterference [OF _ mcp_write_cut]

text \<open>
  The MCP audit table only grows: for every sequence of events and database failures the old
  rows stay, at most one row per event is added, and each new row has a status of the two and an
  error of at most 512 characters.
\<close>

theorem mcp_audit_append_only:
  "\<exists>new. emit_all mcp_write es rows = rows @ new \<and> length new \<le> length es \<and>
     list_all (\<lambda>r. row_bounded 512 r \<and> (ar_status r = ''ok'' \<or> ar_status r = ''error'')) new"
  using mcp_audit.emit_all_extends [of es rows] by (auto simp: list_all_iff)

end
