(* ===== verification/App_Error.thy ===== *)
theory App_Error
  imports Rust_Prelude
begin

text \<open>
  The error type of the server's own handlers, \<open>crates/core/src/error.rs\<close>: the status and code of every
  error and the message a client sees.

  The payload of \<open>Internal\<close> is a chain of causes for the log; where a library error is its only content it
  is empty here (\<open>internal_error\<close>).
\<close>

datatype app_error =
  Validation string | AppUnauthorized string | TokenExpired | InvalidCredentials | Forbidden string |
  RegistrationDisabled | NotFound string | Conflict string | BusinessRuleViolation string | RateLimitedError |
  Internal string

definition status_and_code :: "app_error \<Rightarrow> nat \<times> string" where
  "status_and_code e =
     (case e of
        Validation _ \<Rightarrow> (400, ''VALIDATION_ERROR'')
      | AppUnauthorized _ \<Rightarrow> (401, ''UNAUTHORIZED'')
      | TokenExpired \<Rightarrow> (401, ''TOKEN_EXPIRED'')
      | InvalidCredentials \<Rightarrow> (401, ''INVALID_CREDENTIALS'')
      | Forbidden _ \<Rightarrow> (403, ''FORBIDDEN'')
      | RegistrationDisabled \<Rightarrow> (403, ''REGISTRATION_DISABLED'')
      | NotFound _ \<Rightarrow> (404, ''NOT_FOUND'')
      | Conflict _ \<Rightarrow> (409, ''CONFLICT'')
      | BusinessRuleViolation _ \<Rightarrow> (422, ''BUSINESS_RULE_VIOLATION'')
      | RateLimitedError \<Rightarrow> (429, ''RATE_LIMITED'')
      | Internal _ \<Rightarrow> (500, ''INTERNAL_ERROR''))"

definition client_message :: "app_error \<Rightarrow> string" where
  "client_message e =
     (case e of
        Validation m \<Rightarrow> m
      | AppUnauthorized m \<Rightarrow> m
      | TokenExpired \<Rightarrow> ''Access token has expired. Please refresh.''
      | InvalidCredentials \<Rightarrow> ''Invalid email or password.''
      | Forbidden m \<Rightarrow> m
      | RegistrationDisabled \<Rightarrow> ''Registration is disabled on this server.''
      | NotFound m \<Rightarrow> m
      | Conflict m \<Rightarrow> m
      | BusinessRuleViolation m \<Rightarrow> m
      | RateLimitedError \<Rightarrow> ''Too many requests. Please wait and try again.''
      | Internal _ \<Rightarrow> ''An unexpected error occurred.'')"

abbreviation internal_error :: app_error where
  "internal_error \<equiv> Internal []"

text \<open>An internal error tells a client nothing of its cause.\<close>

lemma internal_error_opaque: "client_message (Internal a) = client_message (Internal b)"
  by (simp add: client_message_def)

end
