(* ===== verification/Mcp_Tokens.thy ===== *)
theory Mcp_Tokens
  imports Audit_Trail App_Error
begin

text \<open>
  The long-lived MCP tokens of \<open>crates/mcp/src/tokens.rs\<close> over the table \<open>mcp_tokens\<close>
  of migration 012 (\<open>id\<close> is the primary key, \<open>token_hash\<close> is unique, \<open>user_id\<close>
  references \<open>users\<close>).

  The digest (SHA-256 in hexadecimal) is the parameter \<open>hash\<close>; nothing is assumed of it.
  Fresh UUIDs, the time and the failures of the database are the record \<open>token_io\<close>.
\<close>

section \<open>Model\<close>

record mcp_token =
  tk_id :: string
  tk_user_id :: string
  tk_name :: string
  tk_hash :: string
  tk_prefix :: string
  tk_created_at :: string
  tk_last_used_at :: "string option"
  tk_revoked_at :: "string option"

record token_store =
  ts_users :: "string list"
  ts_tokens :: "mcp_token list"
  ts_audit :: "audit_row list"

record token_io =
  ti_uuid :: string
  ti_uuid_simple :: string
  ti_now :: string
  ti_query_ok :: bool
  ti_stamp_ok :: bool
  ti_audit :: audit_io

definition token_prefix :: string where
  "token_prefix = ''dbm_mcp_''"

definition prefix_display_len :: nat where
  "prefix_display_len = 12"

definition name_max_chars :: nat where
  "name_max_chars = 100"

definition mint_token :: "(string \<Rightarrow> string) \<Rightarrow> string \<Rightarrow> string \<times> string" where
  "mint_token hash uuid_simple =
     (let plaintext = token_prefix @ uuid_simple in (plaintext, hash plaintext))"

definition token_live :: "mcp_token \<Rightarrow> bool" where
  "token_live r = (tk_revoked_at r = None)"

definition authenticate ::
  "(string \<Rightarrow> string) \<Rightarrow> token_io \<Rightarrow> string \<Rightarrow> token_store \<Rightarrow> string option \<times> token_store" where
  "authenticate hash io plaintext st =
     (let h = hash plaintext;
          user_id =
            (if ti_query_ok io
             then map_option tk_user_id (find (\<lambda>r. tk_hash r = h \<and> token_live r) (ts_tokens st))
             else None)
      in case user_id of
           None \<Rightarrow> (None, st)
         | Some u \<Rightarrow>
             (Some u,
              if ti_stamp_ok io
              then st\<lparr>ts_tokens :=
                     map (\<lambda>r. if tk_hash r = h then r\<lparr>tk_last_used_at := Some (ti_now io)\<rparr> else r)
                       (ts_tokens st)\<rparr>
              else st))"

definition token_name :: "string option \<Rightarrow> string" where
  "token_name body =
     (case map_option (\<lambda>n. take name_max_chars (trim n)) body of
        Some n \<Rightarrow> if n \<noteq> [] then n else ''MCP token''
      | None \<Rightarrow> ''MCP token'')"

record token_created =
  tc_id :: string
  tc_name :: string
  tc_token :: string
  tc_created_at :: string

text \<open>What SQLite checks on the insert, besides failing for reasons of its own.\<close>

definition insert_allowed :: "token_io \<Rightarrow> mcp_token \<Rightarrow> token_store \<Rightarrow> bool" where
  "insert_allowed io r st =
     (ti_query_ok io \<and> tk_user_id r \<in> set (ts_users st) \<and>
      list_all (\<lambda>r'. tk_id r' \<noteq> tk_id r \<and> tk_hash r' \<noteq> tk_hash r) (ts_tokens st))"

definition create_token ::
  "(string \<Rightarrow> string) \<Rightarrow> token_io \<Rightarrow> string \<Rightarrow> string option \<Rightarrow> token_store \<Rightarrow>
   (app_error + token_created) \<times> token_store" where
  "create_token hash io sub body st =
     (let name = token_name body;
          (plaintext, h) = mint_token hash (ti_uuid_simple io);
          r = \<lparr>tk_id = ti_uuid io, tk_user_id = sub, tk_name = name, tk_hash = h,
               tk_prefix = take prefix_display_len plaintext, tk_created_at = ti_now io,
               tk_last_used_at = None, tk_revoked_at = None\<rparr>
      in if \<not> insert_allowed io r st then (Inl (Internal ''insert mcp_token''), st)
         else
           (Inr \<lparr>tc_id = ti_uuid io, tc_name = name, tc_token = plaintext, tc_created_at = ti_now io\<rparr>,
            st\<lparr>ts_tokens := ts_tokens st @ [r],
               ts_audit := log_mcp_event (ti_audit io) (Some sub) TokenCreated None None (ts_audit st)\<rparr>))"

record token_summary =
  sm_id :: string
  sm_name :: string
  sm_prefix :: string
  sm_created_at :: string
  sm_last_used_at :: "string option"

definition summary_of :: "mcp_token \<Rightarrow> token_summary" where
  "summary_of r =
     \<lparr>sm_id = tk_id r, sm_name = tk_name r, sm_prefix = tk_prefix r,
      sm_created_at = tk_created_at r, sm_last_used_at = tk_last_used_at r\<rparr>"

text \<open>
  \<open>ORDER BY created_at DESC\<close> on the text of the time stamps; SQL leaves the order of equal
  stamps open, the model takes the later row first.
\<close>

definition list_tokens ::
  "token_io \<Rightarrow> string \<Rightarrow> token_store \<Rightarrow> app_error + token_summary list" where
  "list_tokens io sub st =
     (if ti_query_ok io
      then Inr (map summary_of
             (rev (sort_key tk_created_at
               (filter (\<lambda>r. tk_user_id r = sub \<and> token_live r) (ts_tokens st)))))
      else Inl (Internal ''list mcp_tokens''))"

definition addressed :: "string \<Rightarrow> string \<Rightarrow> mcp_token \<Rightarrow> bool" where
  "addressed tid sub r = (tk_id r = tid \<and> tk_user_id r = sub \<and> token_live r)"

definition revoke_token ::
  "token_io \<Rightarrow> string \<Rightarrow> string \<Rightarrow> token_store \<Rightarrow> (app_error + unit) \<times> token_store" where
  "revoke_token io sub tid st =
     (if \<not> ti_query_ok io then (Inl (Internal ''revoke mcp_token''), st)
      else
        let rows_affected = length (filter (addressed tid sub) (ts_tokens st));
            st' = st\<lparr>ts_tokens :=
                    map (\<lambda>r. if addressed tid sub r then r\<lparr>tk_revoked_at := Some (ti_now io)\<rparr> else r)
                      (ts_tokens st)\<rparr>
        in if rows_affected = 0 then (Inl (NotFound ''MCP token not found''), st')
           else (Inr (),
                 st'\<lparr>ts_audit :=
                   log_mcp_event (ti_audit io) (Some sub) TokenRevoked None None (ts_audit st')\<rparr>))"

section \<open>Runs\<close>

datatype token_op = OpCreate token_io string "string option" | OpRevoke token_io string string
  | OpAuthenticate token_io string | OpList token_io string

fun token_step :: "(string \<Rightarrow> string) \<Rightarrow> token_op \<Rightarrow> token_store \<Rightarrow> token_store" where
  "token_step hash (OpCreate io sub body) st = snd (create_token hash io sub body st)"
| "token_step hash (OpRevoke io sub tid) st = snd (revoke_token io sub tid st)"
| "token_step hash (OpAuthenticate io plaintext) st = snd (authenticate hash io plaintext st)"
| "token_step hash (OpList io sub) st = st"

definition token_run :: "(string \<Rightarrow> string) \<Rightarrow> token_op list \<Rightarrow> token_store \<Rightarrow> token_store" where
  "token_run hash ops st = fold (token_step hash) ops st"

text \<open>The table's keys.\<close>

definition tokens_wf :: "token_store \<Rightarrow> bool" where
  "tokens_wf st \<longleftrightarrow> distinct (map tk_id (ts_tokens st)) \<and> distinct (map tk_hash (ts_tokens st))"

definition token_revoked :: "string \<Rightarrow> token_store \<Rightarrow> bool" where
  "token_revoked h st \<longleftrightarrow> (\<exists>r \<in> set (ts_tokens st). tk_hash r = h \<and> \<not> token_live r)"

lemmas token_op_defs = create_token_def revoke_token_def authenticate_def mint_token_def
  insert_allowed_def addressed_def

text \<open>Rows are only updated in columns other than the keys, and never back to live.\<close>

definition row_update :: "(mcp_token \<Rightarrow> mcp_token) \<Rightarrow> bool" where
  "row_update f \<longleftrightarrow> (\<forall>r. tk_id (f r) = tk_id r \<and> tk_hash (f r) = tk_hash r \<and>
     (\<not> token_live r \<longrightarrow> \<not> token_live (f r)))"

lemma tokens_wf_map:
  assumes "row_update f" "tokens_wf st"
  shows "tokens_wf (st\<lparr>ts_tokens := map f (ts_tokens st)\<rparr>)"
proof -
  have "tk_id \<circ> f = tk_id" "tk_hash \<circ> f = tk_hash"
    using assms(1) by (auto simp: row_update_def)
  then show ?thesis using assms(2) by (simp add: tokens_wf_def)
qed

lemma token_revoked_map:
  "row_update f \<Longrightarrow> token_revoked h st \<Longrightarrow> token_revoked h (st\<lparr>ts_tokens := map f (ts_tokens st)\<rparr>)"
  by (auto simp: row_update_def token_revoked_def)

lemma row_update_stamp:
  "row_update (\<lambda>r. if tk_hash r = h then r\<lparr>tk_last_used_at := t\<rparr> else r)"
  by (simp add: row_update_def token_live_def)

lemma row_update_revoke:
  "row_update (\<lambda>r. if addressed tid sub r then r\<lparr>tk_revoked_at := Some t\<rparr> else r)"
  by (simp add: row_update_def token_live_def)

text \<open>What each operation does to the table.\<close>

lemma authenticate_cases:
  "snd (authenticate hash io p st) = st \<or>
   snd (authenticate hash io p st) =
     st\<lparr>ts_tokens := map (\<lambda>r. if tk_hash r = hash p
        then r\<lparr>tk_last_used_at := Some (ti_now io)\<rparr> else r) (ts_tokens st)\<rparr>"
  unfolding authenticate_def Let_def by (simp split: option.split)

lemma authenticate_tokens:
  "\<exists>f. row_update f \<and> snd (authenticate hash io p st) = st\<lparr>ts_tokens := map f (ts_tokens st)\<rparr>"
  using authenticate_cases [of hash io p st]
proof
  assume "snd (authenticate hash io p st) = st"
  then show ?thesis by (intro exI [of _ "\<lambda>r. r"]) (simp add: row_update_def)
next
  assume "snd (authenticate hash io p st) =
     st\<lparr>ts_tokens := map (\<lambda>r. if tk_hash r = hash p
        then r\<lparr>tk_last_used_at := Some (ti_now io)\<rparr> else r) (ts_tokens st)\<rparr>"
  then show ?thesis using row_update_stamp by blast
qed

lemma revoke_tokens:
  "\<exists>f. row_update f \<and>
     ts_tokens (snd (revoke_token io sub tid st)) = map f (ts_tokens st)"
proof (cases "ti_query_ok io")
  case True
  then show ?thesis
    by (intro exI [of _ "\<lambda>r. if addressed tid sub r then r\<lparr>tk_revoked_at := Some (ti_now io)\<rparr> else r"])
      (simp add: row_update_revoke revoke_token_def Let_def)
next
  case False
  then show ?thesis
    by (intro exI [of _ "\<lambda>r. r"]) (simp add: row_update_def revoke_token_def)
qed

lemma create_tokens:
  "(ts_tokens (snd (create_token hash io sub body st)) = ts_tokens st) \<or>
   (\<exists>r. ts_tokens (snd (create_token hash io sub body st)) = ts_tokens st @ [r] \<and>
        insert_allowed io r st)"
  by (simp add: create_token_def mint_token_def Let_def)

lemma tokens_wf_insert: "tokens_wf st \<Longrightarrow> insert_allowed io r st \<Longrightarrow> ts_tokens st' = ts_tokens st @ [r] \<Longrightarrow>
    tokens_wf st'"
  by (auto simp: tokens_wf_def insert_allowed_def list_all_iff)

lemma tokens_wf_step: "tokens_wf st \<Longrightarrow> tokens_wf (token_step hash op st)"
proof (cases op)
  case (OpCreate io sub body)
  assume wf: "tokens_wf st"
  from create_tokens [of hash io sub body st] show ?thesis
  proof
    assume "ts_tokens (snd (create_token hash io sub body st)) = ts_tokens st"
    then show ?thesis using wf OpCreate by (simp add: tokens_wf_def)
  next
    assume "\<exists>r. ts_tokens (snd (create_token hash io sub body st)) = ts_tokens st @ [r] \<and>
        insert_allowed io r st"
    then show ?thesis using tokens_wf_insert [OF wf] OpCreate by auto
  qed
next
  case (OpRevoke io sub tid)
  assume wf: "tokens_wf st"
  obtain f where f: "row_update f" "ts_tokens (snd (revoke_token io sub tid st)) = map f (ts_tokens st)"
    using revoke_tokens by blast
  have "tokens_wf (st\<lparr>ts_tokens := map f (ts_tokens st)\<rparr>)" by (rule tokens_wf_map [OF f(1) wf])
  then show ?thesis using f(2) OpRevoke by (simp add: tokens_wf_def)
next
  case (OpAuthenticate io p)
  assume wf: "tokens_wf st"
  show ?thesis using authenticate_tokens [of hash io p st] tokens_wf_map [OF _ wf] OpAuthenticate by auto
qed simp

lemma token_revoked_step: "token_revoked h st \<Longrightarrow> token_revoked h (token_step hash op st)"
proof (cases op)
  case (OpCreate io sub body)
  assume "token_revoked h st"
  then show ?thesis
    using create_tokens [of hash io sub body st] OpCreate by (auto simp: token_revoked_def)
next
  case (OpRevoke io sub tid)
  assume rv: "token_revoked h st"
  obtain f where f: "row_update f" "ts_tokens (snd (revoke_token io sub tid st)) = map f (ts_tokens st)"
    using revoke_tokens by blast
  have "token_revoked h (st\<lparr>ts_tokens := map f (ts_tokens st)\<rparr>)" by (rule token_revoked_map [OF f(1) rv])
  then show ?thesis using f(2) OpRevoke by (simp add: token_revoked_def)
next
  case (OpAuthenticate io p)
  assume rv: "token_revoked h st"
  show ?thesis
    using authenticate_tokens [of hash io p st] token_revoked_map [OF _ rv] OpAuthenticate by auto
qed simp

lemma token_run_invariant:
  "tokens_wf st \<Longrightarrow> token_revoked h st \<Longrightarrow>
     tokens_wf (token_run hash ops st) \<and> token_revoked h (token_run hash ops st)"
  unfolding token_run_def
  by (induction ops arbitrary: st) (simp_all add: tokens_wf_step token_revoked_step)

lemma authenticate_revoked:
  assumes "tokens_wf st" "token_revoked (hash p) st"
  shows "authenticate hash io p st = (None, st)"
proof -
  have "find (\<lambda>r. tk_hash r = hash p \<and> token_live r) (ts_tokens st) = None"
    using assms by (auto simp: find_None_iff tokens_wf_def token_revoked_def distinct_map inj_on_def)
  then show ?thesis by (simp add: authenticate_def Let_def del: find_None_iff)
qed

section \<open>Properties\<close>

lemma revoke_marks:
  assumes "revoke_token io sub tid st = (Inr (), st')" "r \<in> set (ts_tokens st)" "addressed tid sub r"
  shows "token_revoked (tk_hash r) st'"
proof -
  let ?f = "\<lambda>r. if addressed tid sub r then r\<lparr>tk_revoked_at := Some (ti_now io)\<rparr> else r"
  have "ts_tokens st' = map ?f (ts_tokens st)"
    using assms(1) by (auto simp: revoke_token_def Let_def split: if_splits)
  with assms(2) have "?f r \<in> set (ts_tokens st')" by (auto simp only: set_map)
  moreover have "tk_hash (?f r) = tk_hash r" "\<not> token_live (?f r)"
    using assms(3) by (simp_all add: token_live_def)
  ultimately show ?thesis by (auto simp only: token_revoked_def)
qed

text \<open>
  C9. A revoked token never authenticates again: after a successful revocation, and after any
  further creations, revocations, listings and authentications, by any user and under any
  failures of the database, a plaintext with that row's digest is refused.
\<close>

theorem revoked_token_never_authenticates:
  assumes "tokens_wf st"
    and rv: "revoke_token io sub tid st = (Inr (), st')"
    and "r \<in> set (ts_tokens st)" "addressed tid sub r" "hash p = tk_hash r"
  shows "fst (authenticate hash io' p (token_run hash ops st')) = None"
proof -
  have "tokens_wf st'"
    using tokens_wf_step [OF assms(1), of hash "OpRevoke io sub tid"] rv by simp
  moreover have "token_revoked (hash p) st'"
    using revoke_marks [OF rv] assms by simp
  ultimately show ?thesis
    using token_run_invariant authenticate_revoked by (metis fst_conv)
qed

text \<open>
  A created token authenticates its owner at once, and the answers for all plaintexts with
  another digest stay the same.
\<close>

theorem created_token_authenticates:
  assumes "create_token hash io sub body st = (Inr c, st')" "ti_query_ok io'"
  shows "fst (authenticate hash io' (tc_token c) st') = Some sub \<and>
    (hash p \<noteq> hash (tc_token c) \<longrightarrow>
       fst (authenticate hash io' p st') = fst (authenticate hash io' p st))"
proof -
  define r where "r = \<lparr>tk_id = ti_uuid io, tk_user_id = sub, tk_name = token_name body,
      tk_hash = hash (tc_token c), tk_prefix = take prefix_display_len (tc_token c),
      tk_created_at = ti_now io, tk_last_used_at = None, tk_revoked_at = None\<rparr>"
  have toks: "ts_tokens st' = ts_tokens st @ [r]" and ok: "insert_allowed io r st"
    using assms(1) by (auto simp: create_token_def mint_token_def Let_def r_def split: if_splits)
  have find_app: "find P (xs @ [r]) = (case find P xs of None \<Rightarrow> if P r then Some r else None | Some x \<Rightarrow> Some x)"
    for P and xs :: "mcp_token list"
    by (induction xs) auto
  have fresh: "find (\<lambda>x. tk_hash x = hash (tc_token c) \<and> token_live x) (ts_tokens st) = None"
    using ok by (auto simp: find_None_iff insert_allowed_def list_all_iff r_def)
  have auth: "fst (authenticate hash io' q s) =
      map_option tk_user_id (find (\<lambda>x. tk_hash x = hash q \<and> token_live x) (ts_tokens s))" for q s
    using assms(2) by (simp add: authenticate_def Let_def split: option.split)
  show ?thesis
    unfolding auth toks find_app fresh by (auto simp: r_def token_live_def split: option.split)
qed

text \<open>
  A user who names a token that is not a live token of theirs gets the same answer whether
  it does not exist, is revoked, or belongs to another user, and nothing changes.
\<close>

theorem revoke_foreign_token:
  assumes "\<not> list_ex (addressed tid sub) (ts_tokens st)" "ti_query_ok io"
  shows "revoke_token io sub tid st = (Inl (NotFound ''MCP token not found''), st)"
proof -
  have none: "filter (addressed tid sub) (ts_tokens st) = []"
    using assms(1) by (auto simp: filter_empty_conv list_ex_iff)
  have "map (\<lambda>r. if addressed tid sub r then r\<lparr>tk_revoked_at := Some (ti_now io)\<rparr> else r) (ts_tokens st) =
      ts_tokens st"
    using assms(1) by (intro map_idI) (auto simp: list_ex_iff)
  then show ?thesis using assms(2) by (simp add: revoke_token_def none)
qed

subsection \<open>A concrete run\<close>

definition sample_io :: token_io where
  "sample_io = \<lparr>ti_uuid = ''id-1'', ti_uuid_simple = ''9f2a'', ti_now = ''t0'', ti_query_ok = True,
     ti_stamp_ok = True, ti_audit = \<lparr>au_id = ''a'', au_now = ''t0'', au_accepts = True\<rparr>\<rparr>"

definition sample_store :: token_store where
  "sample_store = \<lparr>ts_users = [''alice''], ts_tokens = [], ts_audit = []\<rparr>"

definition sample_created :: token_store where
  "sample_created = snd (create_token rev sample_io ''alice'' None sample_store)"

theorem revoked_token_never_authenticates_witness:
  "fst (authenticate rev sample_io ''dbm_mcp_9f2a''
     (token_run rev [OpCreate sample_io ''alice'' None]
        (snd (revoke_token sample_io ''alice'' ''id-1'' sample_created)))) = None"
proof -
  have r: "revoke_token sample_io ''alice'' ''id-1'' sample_created =
      (Inr (), snd (revoke_token sample_io ''alice'' ''id-1'' sample_created))"
    by code_simp
  show ?thesis
    by (rule revoked_token_never_authenticates [OF _ r, where r = "hd (ts_tokens sample_created)"])
      code_simp+
qed

theorem created_token_authenticates_witness:
  "fst (authenticate rev sample_io ''dbm_mcp_9f2a'' sample_created) = Some ''alice''"
proof -
  let ?c = "\<lparr>tc_id = ''id-1'', tc_name = ''MCP token'', tc_token = ''dbm_mcp_9f2a'', tc_created_at = ''t0''\<rparr>"
  have "create_token rev sample_io ''alice'' None sample_store = (Inr ?c, sample_created)"
    by code_simp
  from created_token_authenticates [OF this, of sample_io] show ?thesis
    by (simp add: sample_io_def)
qed

theorem revoke_foreign_token_witness:
  "revoke_token sample_io ''mallory'' ''id-1'' sample_created =
     (Inl (NotFound ''MCP token not found''), sample_created)"
  by (rule revoke_foreign_token) code_simp+

end
