(* ===== verification/Request_Guards.thy ===== *)
theory Request_Guards
  imports Mcp_Tokens Rate_Limiter
begin

text \<open>
  The middleware in front of the two machine-facing surfaces: \<open>guard\<close> of
  \<open>crates/mcp/src/auth.rs\<close> and of \<open>crates/gateway/src/auth.rs\<close>.

  The verifier of access tokens (\<open>verify_access_token\<close>, a call of the \<open>jsonwebtoken\<close>
  library with the configured secret) is the parameter \<open>verify\<close>; \<open>Inl\<close> is the debug text
  of its error. A request is its Authorization header, if there is one in visible ASCII, and
  whether its method is DELETE. The inner service runs exactly when the guard answers
  \<open>Forward\<close>.
\<close>

section \<open>Model\<close>

record claims =
  cl_sub :: string
  cl_iat :: nat
  cl_exp :: nat
  cl_jti :: string

record guard_request =
  gq_authorization :: "string option"
  gq_is_delete :: bool

datatype guard_response = Unauthorized string | TooManyRequests nat | Forward claims

record guard_io =
  gi_token :: token_io
  gi_audit :: audit_io
  gi_instant :: nat

record guard_state =
  gs_store :: token_store
  gs_gw_audit :: "audit_row list"
  gs_counters :: counters

definition guard_window_secs :: nat where
  "guard_window_secs = 60"

definition bearer_token :: "string option \<Rightarrow> string option" where
  "bearer_token h =
     (case h of
        Some v \<Rightarrow> if starts_with ''Bearer '' v then Some (drop 7 v) else None
      | None \<Rightarrow> None)"

definition mcp_token_claims :: "string \<Rightarrow> claims" where
  "mcp_token_claims user_id =
     \<lparr>cl_sub = user_id, cl_iat = 0, cl_exp = 18446744073709551615, cl_jti = ''mcp_token''\<rparr>"

text \<open>
  The first half of the guard: the claims, or the audit reason and the message of the 401.
\<close>

definition mcp_claims ::
  "(string \<Rightarrow> string) \<Rightarrow> (string \<Rightarrow> string + claims) \<Rightarrow> guard_io \<Rightarrow> string option \<Rightarrow> token_store \<Rightarrow>
   ((string \<times> string) + claims) \<times> token_store" where
  "mcp_claims hash verify io token st =
     (case token of
        None \<Rightarrow>
          (Inl (''missing or malformed Authorization header'',
                ''Missing Authorization header. Expected: Bearer <token>''), st)
      | Some t \<Rightarrow>
          if starts_with token_prefix t then
            (case authenticate hash (gi_token io) t st of
               (Some user_id, st') \<Rightarrow> (Inr (mcp_token_claims user_id), st')
             | (None, st') \<Rightarrow>
                 (Inl (''unknown or revoked MCP token'', ''Invalid or expired token''), st'))
          else
            (case verify t of
               Inr c \<Rightarrow> (Inr c, st)
             | Inl e \<Rightarrow> (Inl (''invalid token: '' @ e, ''Invalid or expired token''), st)))"

definition rate_message :: "nat \<Rightarrow> string" where
  "rate_message mx = ''exceeded '' @ show_nat mx @ '' req/min sliding window''"

definition mcp_log ::
  "guard_io \<Rightarrow> string option \<Rightarrow> mcp_audit_action \<Rightarrow> string option \<Rightarrow> guard_state \<Rightarrow> guard_state" where
  "mcp_log io user_id action err st =
     st\<lparr>gs_store := (gs_store st)\<lparr>ts_audit :=
          log_mcp_event (gi_audit io) user_id action None err (ts_audit (gs_store st))\<rparr>\<rparr>"

definition mcp_guard ::
  "(string \<Rightarrow> string) \<Rightarrow> (string \<Rightarrow> string + claims) \<Rightarrow> nat \<Rightarrow> guard_io \<Rightarrow> guard_request \<Rightarrow>
   guard_state \<Rightarrow> guard_response \<times> guard_state" where
  "mcp_guard hash verify mx io req st =
     (let (who, store) = mcp_claims hash verify io (bearer_token (gq_authorization req)) (gs_store st);
          st = st\<lparr>gs_store := store\<rparr>
      in case who of
           Inl (reason, msg) \<Rightarrow> (Unauthorized msg, mcp_log io None AuthRejected (Some reason) st)
         | Inr claims \<Rightarrow>
             let (allowed, cs) =
                   check_and_record (gs_counters st) (cl_sub claims) mx guard_window_secs (gi_instant io);
                 st = st\<lparr>gs_counters := cs\<rparr>
             in if \<not> allowed then
                  (TooManyRequests mx,
                   mcp_log io (Some (cl_sub claims)) RateLimited (Some (rate_message mx)) st)
                else
                  (Forward claims,
                   if gq_is_delete req then mcp_log io (Some (cl_sub claims)) SessionClose None st
                   else st))"

definition gw_claims ::
  "(string \<Rightarrow> string + claims) \<Rightarrow> string option \<Rightarrow> (string \<times> string) + claims" where
  "gw_claims verify token =
     (case token of
        None \<Rightarrow>
          Inl (''missing or malformed Authorization header'',
               ''Missing Authorization header. Expected: Bearer <token>'')
      | Some t \<Rightarrow>
          (case verify t of
             Inr c \<Rightarrow> Inr c
           | Inl e \<Rightarrow> Inl (''invalid token: '' @ e, ''Invalid or expired token'')))"

definition gw_log ::
  "guard_io \<Rightarrow> string option \<Rightarrow> gw_audit_action \<Rightarrow> string option \<Rightarrow> guard_state \<Rightarrow> guard_state" where
  "gw_log io user_id action err st =
     st\<lparr>gs_gw_audit := log_gw_event (gi_audit io) user_id action err (gs_gw_audit st)\<rparr>"

definition gw_guard ::
  "(string \<Rightarrow> string + claims) \<Rightarrow> nat \<Rightarrow> guard_io \<Rightarrow> guard_request \<Rightarrow> guard_state \<Rightarrow>
   guard_response \<times> guard_state" where
  "gw_guard verify mx io req st =
     (case gw_claims verify (bearer_token (gq_authorization req)) of
        Inl (reason, msg) \<Rightarrow> (Unauthorized msg, gw_log io None GwAuthRejected (Some reason) st)
      | Inr claims \<Rightarrow>
          let (allowed, cs) =
                check_and_record (gs_counters st) (cl_sub claims) mx guard_window_secs (gi_instant io);
              st = st\<lparr>gs_counters := cs\<rparr>
          in if \<not> allowed then
               (TooManyRequests mx,
                gw_log io (Some (cl_sub claims)) GwRateLimited (Some (rate_message mx)) st)
             else (Forward claims, st))"

section \<open>The interface of a guard\<close>

text \<open>
  \<open>identify\<close> is what the guard takes the caller to be. A caller it cannot name is turned away
  before the limiter; another goes through the limiter, and forward exactly if it allows.
\<close>

definition counters_after :: "counters \<Rightarrow> nat \<Rightarrow> nat \<Rightarrow> claims \<Rightarrow> bool \<times> counters" where
  "counters_after cs mx now c = check_and_record cs (cl_sub c) mx guard_window_secs now"

fun forwarded :: "guard_response \<Rightarrow> claims option" where
  "forwarded (Forward c) = Some c"
| "forwarded _ = None"

text \<open>The requests that go forward, and those that reach the limiter.\<close>

type_synonym guard_fun = "guard_io \<Rightarrow> guard_request \<Rightarrow> guard_state \<Rightarrow> guard_response \<times> guard_state"

primrec admitted :: "guard_fun \<Rightarrow> guard_state \<Rightarrow> (guard_io \<times> guard_request) list \<Rightarrow> (string \<times> nat) list" where
  "admitted guard st [] = []"
| "admitted guard st (r # rs) =
     (let (resp, st') = guard (fst r) (snd r) st
      in (case forwarded resp of None \<Rightarrow> [] | Some c \<Rightarrow> [(cl_sub c, gi_instant (fst r))]) @
         admitted guard st' rs)"

primrec attempts ::
  "guard_fun \<Rightarrow> (guard_io \<Rightarrow> guard_request \<Rightarrow> guard_state \<Rightarrow> claims option) \<Rightarrow> guard_state \<Rightarrow>
   (guard_io \<times> guard_request) list \<Rightarrow> (string \<times> nat) list" where
  "attempts guard identify st [] = []"
| "attempts guard identify st (r # rs) =
     (case identify (fst r) (snd r) st of None \<Rightarrow> [] | Some c \<Rightarrow> [(cl_sub c, gi_instant (fst r))]) @
     attempts guard identify (snd (guard (fst r) (snd r) st)) rs"

locale request_guard =
  fixes guard :: "guard_io \<Rightarrow> guard_request \<Rightarrow> guard_state \<Rightarrow> guard_response \<times> guard_state"
    and identify :: "guard_io \<Rightarrow> guard_request \<Rightarrow> guard_state \<Rightarrow> claims option"
    and mx :: nat
  assumes unknown: "identify io req st = None \<Longrightarrow>
      forwarded (fst (guard io req st)) = None \<and> gs_counters (snd (guard io req st)) = gs_counters st"
    and known: "identify io req st = Some c \<Longrightarrow>
      forwarded (fst (guard io req st)) =
        (if fst (counters_after (gs_counters st) mx (gi_instant io) c) then Some c else None) \<and>
      gs_counters (snd (guard io req st)) = snd (counters_after (gs_counters st) mx (gi_instant io) c)"
begin

lemma forward_identified:
  "forwarded (fst (guard io req st)) = Some c \<Longrightarrow>
     identify io req st = Some c \<and> fst (counters_after (gs_counters st) mx (gi_instant io) c)"
  using unknown [of io req st] known [of io req st]
  by (cases "identify io req st") (auto split: if_splits)

lemma admitted_accepted:
  "admitted guard st rs =
     accepted (\<lambda>cs k now. check_and_record cs k mx guard_window_secs now) (gs_counters st) (attempts guard identify st rs)"
proof (induction rs arbitrary: st)
  case (Cons r rs)
  let ?st = "snd (guard (fst r) (snd r) st)"
  show ?case
  proof (cases "identify (fst r) (snd r) st")
    case None
    then show ?thesis
      using unknown [OF None] Cons.IH [of ?st] by (simp add: case_prod_beta)
  next
    case (Some c)
    then show ?thesis
      using known [OF Some] Cons.IH [of ?st]
      by (simp add: counters_after_def case_prod_beta)
  qed
qed simp

lemma sorted_attempts:
  "sorted (map (\<lambda>r. gi_instant (fst r)) rs) \<Longrightarrow>
     sorted (map snd (attempts guard identify st rs)) \<and>
     set (map snd (attempts guard identify st rs)) \<subseteq> set (map (\<lambda>r. gi_instant (fst r)) rs)"
proof (induction rs arbitrary: st)
  case (Cons r rs)
  let ?st = "snd (guard (fst r) (snd r) st)"
  have "sorted (map snd (attempts guard identify ?st rs))"
    "set (map snd (attempts guard identify ?st rs)) \<subseteq> set (map (\<lambda>r. gi_instant (fst r)) rs)"
    using Cons.IH [of ?st] Cons.prems by simp_all
  with Cons.prems show ?case by (fastforce split: option.split)
qed simp

lemma admitted_bounded:
  assumes "gs_counters st = Map.empty" "sorted (map (\<lambda>r. gi_instant (fst r)) rs)"
  shows "window_count (guard_window_secs * nanos_per_sec) (admitted guard st rs) sub t \<le> mx"
  unfolding admitted_accepted assms(1)
  using sorted_attempts [OF assms(2)]
  by (intro limiter.accepted_bounded) (simp_all add: entries_of_def)

end

section \<open>Both guards implement it\<close>

definition mcp_identify ::
  "(string \<Rightarrow> string) \<Rightarrow> (string \<Rightarrow> string + claims) \<Rightarrow> guard_io \<Rightarrow> guard_request \<Rightarrow> guard_state \<Rightarrow>
   claims option" where
  "mcp_identify hash verify io req st =
     (case fst (mcp_claims hash verify io (bearer_token (gq_authorization req)) (gs_store st)) of
        Inl e \<Rightarrow> None | Inr c \<Rightarrow> Some c)"

definition gw_identify ::
  "(string \<Rightarrow> string + claims) \<Rightarrow> guard_io \<Rightarrow> guard_request \<Rightarrow> guard_state \<Rightarrow> claims option" where
  "gw_identify verify io req st =
     (case gw_claims verify (bearer_token (gq_authorization req)) of Inl e \<Rightarrow> None | Inr c \<Rightarrow> Some c)"

lemma mcp_log_counters [simp]: "gs_counters (mcp_log io u a e st) = gs_counters st"
  by (simp add: mcp_log_def)

lemma gw_log_counters [simp]: "gs_counters (gw_log io u a e st) = gs_counters st"
  by (simp add: gw_log_def)

interpretation mcp: request_guard "mcp_guard hash verify mx" "mcp_identify hash verify" mx
  for hash verify mx
  by unfold_locales
    (auto simp: mcp_guard_def mcp_identify_def counters_after_def Let_def split: prod.splits sum.splits)

interpretation gw: request_guard "gw_guard verify mx" "gw_identify verify" mx
  for verify mx
  by unfold_locales
    (auto simp: gw_guard_def gw_identify_def counters_after_def Let_def split: prod.splits sum.splits)

section \<open>Properties\<close>

text \<open>
  C10. The MCP guard lets a request through, with claims \<open>c\<close>, exactly when the header carries a
  bearer token, the token is a live MCP token of the claims' user or else a valid access token
  with these claims, and the user's window has room.
\<close>

theorem mcp_guard_forward_iff:
  "fst (mcp_guard hash verify mx io req st) = Forward c \<longleftrightarrow>
     (\<exists>t. bearer_token (gq_authorization req) = Some t \<and>
        (if starts_with token_prefix t
         then \<exists>u. fst (authenticate hash (gi_token io) t (gs_store st)) = Some u \<and> c = mcp_token_claims u
         else verify t = Inr c)) \<and>
     fst (check_and_record (gs_counters st) (cl_sub c) mx 60 (gi_instant io))"
proof (cases "bearer_token (gq_authorization req)")
  case None
  then show ?thesis by (simp add: mcp_guard_def mcp_claims_def Let_def)
next
  case (Some t)
  show ?thesis
  proof (cases "starts_with token_prefix t")
    case True
    with Some show ?thesis
      by (auto simp: mcp_guard_def mcp_claims_def guard_window_secs_def Let_def mcp_token_claims_def
          split: prod.splits option.splits)
  next
    case False
    with Some show ?thesis
      by (auto simp: mcp_guard_def mcp_claims_def guard_window_secs_def Let_def
          split: prod.splits sum.splits)
  qed
qed

text \<open>
  For each user, each of the two guards lets at most the configured number of requests
  through in any 60 seconds, whatever mixture of callers, credentials and failures arrives.
\<close>

theorem guards_bounded:
  assumes "gs_counters st = Map.empty" "sorted (map (\<lambda>r. gi_instant (fst r)) rs)"
  shows "window_count (60 * nanos_per_sec) (admitted (mcp_guard hash verify mx) st rs) sub t \<le> mx \<and>
    window_count (60 * nanos_per_sec) (admitted (gw_guard verify mx) st rs) sub t \<le> mx"
  using mcp.admitted_bounded [OF assms] gw.admitted_bounded [OF assms]
  by (simp add: guard_window_secs_def)

definition sample_guard_io :: guard_io where
  "sample_guard_io = \<lparr>gi_token = sample_io, gi_audit = ti_audit sample_io, gi_instant = 7\<rparr>"

definition sample_guard_state :: guard_state where
  "sample_guard_state = \<lparr>gs_store = sample_created, gs_gw_audit = [], gs_counters = Map.empty\<rparr>"

definition sample_guard_request :: guard_request where
  "sample_guard_request = \<lparr>gq_authorization = Some ''Bearer dbm_mcp_9f2a'', gq_is_delete = False\<rparr>"

theorem guards_bounded_witness:
  "window_count (60 * nanos_per_sec)
     (admitted (mcp_guard rev (\<lambda>t. Inl ''InvalidToken'') 2) sample_guard_state
       (replicate 5 (sample_guard_io, sample_guard_request))) ''alice'' 8 \<le> 2"
  using guards_bounded [of sample_guard_state "replicate 5 (sample_guard_io, sample_guard_request)"]
  by (simp add: sample_guard_state_def)

lemma log_mcp_event_accepted: "au_accepts io \<Longrightarrow> log_mcp_event io u a t e rows =
    rows @ [\<lparr>ar_id = au_id io, ar_subject = u, ar_action = mcp_as_db_str a,
      ar_status = (if mcp_default_status a = AuditOk \<and> e = None then ''ok'' else ''error''),
      ar_error = map_option mcp_truncate_redacted e, ar_at = au_now io, ar_detail = t\<rparr>]"
  by (simp add: log_mcp_event_def insert_row_def Let_def)

lemma mcp_claims_audit: "ts_audit (snd (mcp_claims hash verify io tok st)) = ts_audit st"
  by (auto simp: mcp_claims_def authenticate_def Let_def split: option.splits sum.splits)

text \<open>
  Every request the MCP guard turns away leaves exactly one new audit row, with status error:
  of action \<open>auth_rejected\<close> and without a user for a 401, where the limiter is not touched, of
  action \<open>rate_limited\<close> for a 429.
\<close>

theorem mcp_guard_rejections_audited:
  assumes out: "mcp_guard hash verify mx io req st = (resp, st')"
    and rej: "forwarded resp = None" and "au_accepts (gi_audit io)"
  shows "\<exists>row. ts_audit (gs_store st') = ts_audit (gs_store st) @ [row] \<and> ar_status row = ''error'' \<and>
    (case resp of
       Unauthorized msg \<Rightarrow>
         ar_action row = ''auth_rejected'' \<and> ar_subject row = None \<and> gs_counters st' = gs_counters st
     | _ \<Rightarrow> ar_action row = ''rate_limited'' \<and> ar_subject row \<noteq> None)"
proof -
  obtain who store where who:
    "mcp_claims hash verify io (bearer_token (gq_authorization req)) (gs_store st) = (who, store)"
    by (cases "mcp_claims hash verify io (bearer_token (gq_authorization req)) (gs_store st)")
  then have aud: "ts_audit store = ts_audit (gs_store st)"
    using mcp_claims_audit by (metis snd_conv)
  show ?thesis
  proof (cases who)
    case (Inl e)
    then show ?thesis using out rej assms(3) who aud
      by (cases e) (auto simp: mcp_guard_def mcp_log_def log_mcp_event_accepted)
  next
    case (Inr c)
    then show ?thesis using out rej assms(3) who aud
      by (auto simp: mcp_guard_def mcp_log_def log_mcp_event_accepted Let_def
          split: prod.splits if_splits)
  qed
qed

theorem mcp_guard_rejections_audited_witness:
  "\<exists>row. ts_audit (gs_store (snd (mcp_guard rev (\<lambda>t. Inl ''InvalidToken'') 2 sample_guard_io
      (sample_guard_request\<lparr>gq_authorization := None\<rparr>) sample_guard_state))) =
    ts_audit (gs_store sample_guard_state) @ [row] \<and> ar_status row = ''error''"
proof -
  let ?r = "mcp_guard rev (\<lambda>t. Inl ''InvalidToken'') 2 sample_guard_io
      (sample_guard_request\<lparr>gq_authorization := None\<rparr>) sample_guard_state"
  have "forwarded (fst ?r) = None" "au_accepts (gi_audit sample_guard_io)" by code_simp+
  from mcp_guard_rejections_audited [OF surjective_pairing this] show ?thesis by blast
qed

end
