(* ===== verification/Drift_Snapshot.thy ===== *)
theory Drift_Snapshot
  imports Rust_Prelude
begin

text \<open>
  Canonical schema snapshots: \<open>crates/drift/src/snapshot.rs\<close>.

  Every \<open>BTreeMap\<close> is its iteration sequence (\<open>bt_wf\<close>), so the derived serialisation
  is a function of the entries in key order. \<open>snapshot_json\<close> is the value the derived
  \<open>Serialize\<close> implementations describe; writing it as bytes (\<open>serde_json::to_vec\<close>) and
  the SHA-256 digest are library code, the parameters \<open>to_vec\<close> and \<open>digest\<close>.
  Integer fields are only compared and printed; they are \<^typ>\<open>int\<close>.
\<close>

section \<open>Model\<close>

datatype db_type = MySql | Postgres

definition from_db_type_str :: "string \<Rightarrow> db_type option" where
  "from_db_type_str s =
     (let l = map to_ascii_lower s in
      if l = ''mysql'' then Some MySql
      else if l = ''postgres'' \<or> l = ''postgresql'' \<or> l = ''pg'' then Some Postgres
      else None)"

fun as_wire_str :: "db_type \<Rightarrow> string" where
  "as_wire_str MySql = ''mysql''"
| "as_wire_str Postgres = ''postgres''"

record column_schema =
  co_name :: string
  co_ordinal :: int
  co_data_type :: string
  co_is_nullable :: bool
  co_default :: "string option"
  co_char_max_length :: "int option"
  co_numeric_precision :: "int option"
  co_numeric_scale :: "int option"

record primary_key =
  pk_name :: "string option"
  pk_columns :: "string list"

record index_schema =
  ix_name :: string
  ix_columns :: "string list"
  ix_is_unique :: bool

record foreign_key =
  fk_name :: string
  fk_columns :: "string list"
  fk_ref_schema :: "string option"
  fk_ref_table :: string
  fk_ref_columns :: "string list"

record table_schema =
  ta_schema :: string
  ta_name :: string
  ta_columns :: "column_schema btree"
  ta_primary_key :: "primary_key option"
  ta_indexes :: "index_schema btree"
  ta_foreign_keys :: "foreign_key btree"

definition qualified_name :: "table_schema \<Rightarrow> string" where
  "qualified_name t = ta_schema t @ ''.'' @ ta_name t"

record schema_snapshot =
  sn_database :: string
  sn_db_type :: db_type
  sn_tables :: "table_schema btree"

definition json_map :: "('v \<Rightarrow> json) \<Rightarrow> 'v btree \<Rightarrow> json" where
  "json_map f m = JObj (map (\<lambda>kv. (fst kv, f (snd kv))) m)"

definition column_json :: "column_schema \<Rightarrow> json" where
  "column_json c =
     JObj [(''name'', JStr (co_name c)), (''ordinal'', JNum (co_ordinal c)),
           (''data_type'', JStr (co_data_type c)), (''is_nullable'', JBool (co_is_nullable c)),
           (''column_default'', json_opt JStr (co_default c)),
           (''char_max_length'', json_opt JNum (co_char_max_length c)),
           (''numeric_precision'', json_opt JNum (co_numeric_precision c)),
           (''numeric_scale'', json_opt JNum (co_numeric_scale c))]"

definition primary_key_json :: "primary_key \<Rightarrow> json" where
  "primary_key_json pk =
     JObj [(''name'', json_opt JStr (pk_name pk)), (''columns'', JArr (map JStr (pk_columns pk)))]"

definition index_json :: "index_schema \<Rightarrow> json" where
  "index_json ix =
     JObj [(''name'', JStr (ix_name ix)), (''columns'', JArr (map JStr (ix_columns ix))),
           (''is_unique'', JBool (ix_is_unique ix))]"

definition foreign_key_json :: "foreign_key \<Rightarrow> json" where
  "foreign_key_json fk =
     JObj [(''name'', JStr (fk_name fk)), (''columns'', JArr (map JStr (fk_columns fk))),
           (''ref_schema'', json_opt JStr (fk_ref_schema fk)), (''ref_table'', JStr (fk_ref_table fk)),
           (''ref_columns'', JArr (map JStr (fk_ref_columns fk)))]"

definition table_json :: "table_schema \<Rightarrow> json" where
  "table_json t =
     JObj [(''schema'', JStr (ta_schema t)), (''name'', JStr (ta_name t)),
           (''columns'', json_map column_json (ta_columns t)),
           (''primary_key'', json_opt primary_key_json (ta_primary_key t)),
           (''indexes'', json_map index_json (ta_indexes t)),
           (''foreign_keys'', json_map foreign_key_json (ta_foreign_keys t))]"

definition snapshot_json :: "schema_snapshot \<Rightarrow> json" where
  "snapshot_json s =
     JObj [(''database'', JStr (sn_database s)), (''db_type'', JStr (as_wire_str (sn_db_type s))),
           (''tables'', json_map table_json (sn_tables s))]"

definition canonical_json :: "(json \<Rightarrow> string) \<Rightarrow> schema_snapshot \<Rightarrow> string" where
  "canonical_json to_vec s = to_vec (snapshot_json s)"

definition canonical_hash :: "(json \<Rightarrow> string) \<Rightarrow> (string \<Rightarrow> string) \<Rightarrow> schema_snapshot \<Rightarrow> string" where
  "canonical_hash to_vec digest s = digest (canonical_json to_vec s)"

definition table_wf :: "table_schema \<Rightarrow> bool" where
  "table_wf t \<longleftrightarrow> bt_wf (ta_columns t) \<and> bt_wf (ta_indexes t) \<and> bt_wf (ta_foreign_keys t)"

definition snapshot_wf :: "schema_snapshot \<Rightarrow> bool" where
  "snapshot_wf s \<longleftrightarrow> bt_wf (sn_tables s) \<and> list_all (\<lambda>kt. table_wf (snd kt)) (sn_tables s)"

text \<open>Building a map from entries in any order, as the collectors do.\<close>

definition bt_of :: "(string \<times> 'v) list \<Rightarrow> 'v btree" where
  "bt_of kvs = fold (\<lambda>kv. bt_insert (fst kv) (snd kv)) kvs []"

section \<open>The serialisation loses nothing\<close>

named_theorems json_inj \<open>injectivity of the serialisations\<close>

lemma map_inj_eq: "(\<And>x y. f x = f y \<longleftrightarrow> x = y) \<Longrightarrow> map f xs = map f ys \<longleftrightarrow> xs = ys"
  by (metis inj_map_eq_map injI)

lemma map_JStr_eq [json_inj]: "map JStr xs = map JStr ys \<longleftrightarrow> xs = ys"
  by (rule map_inj_eq) simp

lemma json_opt_eq: "(\<And>x y. f x = f y \<longleftrightarrow> x = y) \<Longrightarrow> (\<And>x. f x \<noteq> JNull) \<Longrightarrow>
    json_opt f a = json_opt f b \<longleftrightarrow> a = b"
  by (rule json_opt_inj) auto

lemma json_opt_atoms [json_inj]:
  "json_opt JStr a = json_opt JStr b \<longleftrightarrow> a = b"
  "json_opt JNum i = json_opt JNum j \<longleftrightarrow> i = j"
  by (rule json_opt_eq; simp)+

lemma json_map_eq:
  assumes "\<And>x y. f x = f y \<longleftrightarrow> x = y"
  shows "json_map f m = json_map f m' \<longleftrightarrow> m = m'"
  unfolding json_map_def json.inject by (rule map_inj_eq) (auto simp: assms prod_eq_iff)

lemma column_json_eq [json_inj]: "column_json a = column_json b \<longleftrightarrow> a = b"
  by (auto simp: column_json_def json_inj intro: column_schema.equality)

lemma primary_key_json_eq [json_inj]: "primary_key_json a = primary_key_json b \<longleftrightarrow> a = b"
  by (auto simp: primary_key_json_def json_inj intro: primary_key.equality)

lemma index_json_eq [json_inj]: "index_json a = index_json b \<longleftrightarrow> a = b"
  by (auto simp: index_json_def json_inj intro: index_schema.equality)

lemma foreign_key_json_eq [json_inj]: "foreign_key_json a = foreign_key_json b \<longleftrightarrow> a = b"
  by (auto simp: foreign_key_json_def json_inj intro: foreign_key.equality)

lemma primary_key_json_not_null: "primary_key_json p \<noteq> JNull"
  by (simp add: primary_key_json_def)

lemma json_maps_eq [json_inj]:
  "json_map column_json c = json_map column_json c' \<longleftrightarrow> c = c'"
  "json_map index_json i = json_map index_json i' \<longleftrightarrow> i = i'"
  "json_map foreign_key_json f = json_map foreign_key_json f' \<longleftrightarrow> f = f'"
  "json_opt primary_key_json p = json_opt primary_key_json p' \<longleftrightarrow> p = p'"
  by (simp_all add: json_map_eq json_opt_eq json_inj primary_key_json_not_null)

lemma table_json_eq [json_inj]: "table_json a = table_json b \<longleftrightarrow> a = b"
  by (auto simp: table_json_def json_inj intro: table_schema.equality)

lemma as_wire_str_eq [json_inj]: "as_wire_str a = as_wire_str b \<longleftrightarrow> a = b"
  by (cases a; cases b) auto

lemma snapshot_json_eq [json_inj]: "snapshot_json a = snapshot_json b \<longleftrightarrow> a = b"
  by (auto simp: snapshot_json_def json_inj json_map_eq [OF table_json_eq]
      intro: schema_snapshot.equality)

text \<open>The wire string of a database type parses back, in any letter case.\<close>

lemma from_db_type_wire: "map to_ascii_lower s = as_wire_str d \<Longrightarrow> from_db_type_str s = Some d"
  by (cases d) (simp_all add: from_db_type_str_def Let_def)

section \<open>Properties\<close>

lemma bt_of_wf: "bt_wf (bt_of kvs)"
proof -
  have "bt_wf m \<Longrightarrow> bt_wf (fold (\<lambda>kv. bt_insert (fst kv) (snd kv)) kvs m)" for m
    by (induction kvs arbitrary: m) (simp_all add: bt_wf_insert)
  then show ?thesis by (simp add: bt_of_def bt_wf_def)
qed

lemma bt_of_get:
  assumes "distinct (map fst kvs)"
  shows "bt_get (bt_of kvs) = map_of kvs"
proof -
  have "bt_wf m \<Longrightarrow> distinct (map fst kvs) \<Longrightarrow>
      bt_get (fold (\<lambda>kv. bt_insert (fst kv) (snd kv)) kvs m) = bt_get m ++ map_of kvs" for m
  proof (induction kvs arbitrary: m)
    case (Cons kv kvs)
    have step: "bt_get (bt_insert (fst kv) (snd kv) m) x = (if x = fst kv then Some (snd kv) else bt_get m x)" for x
      using Cons.prems(1) by (simp add: bt_get_insert)
    have rest: "bt_get (fold (\<lambda>kv. bt_insert (fst kv) (snd kv)) kvs (bt_insert (fst kv) (snd kv) m)) =
        bt_get (bt_insert (fst kv) (snd kv) m) ++ map_of kvs"
      using Cons.prems by (intro Cons.IH) (simp_all add: bt_wf_insert)
    have "map_of kvs (fst kv) = None"
      using Cons.prems(2) by (simp add: map_of_eq_None_iff)
    then show ?case
      by (simp add: rest fun_eq_iff map_add_def step split: option.split)
  qed simp
  from this [of "[]"] assms show ?thesis
    by (simp add: bt_of_def bt_wf_def bt_get_def [abs_def] fun_eq_iff map_add_def)
qed

text \<open>Entries with distinct keys give the same map in every order.\<close>

lemma bt_of_order:
  assumes "distinct (map fst kvs)" "distinct (map fst kvs')" "set kvs = set kvs'"
  shows "bt_of kvs = bt_of kvs'"
  using assms by (intro bt_ext bt_of_wf) (simp add: bt_of_get map_of_inject_set)

text \<open>
  The canonical hash does not depend on the order in which a collector delivers the tables,
  or the columns, indexes and foreign keys of a table.
\<close>

theorem canonical_hash_order:
  assumes "distinct (map fst tabs)" "distinct (map fst tabs')" "set tabs = set tabs'"
    and "distinct (map fst cols)" "distinct (map fst cols')" "set cols = set cols'"
  shows "canonical_hash to_vec digest
      (s\<lparr>sn_tables := bt_insert k (t\<lparr>ta_columns := bt_of cols\<rparr>) (bt_of tabs)\<rparr>) =
    canonical_hash to_vec digest
      (s\<lparr>sn_tables := bt_insert k (t\<lparr>ta_columns := bt_of cols'\<rparr>) (bt_of tabs')\<rparr>)"
  using bt_of_order [OF assms(1-3)] bt_of_order [OF assms(4-6)] by simp

definition sample_column :: "string \<Rightarrow> string \<Rightarrow> column_schema" where
  "sample_column n ty = \<lparr>co_name = n, co_ordinal = 1, co_data_type = ty, co_is_nullable = False,
     co_default = None, co_char_max_length = None, co_numeric_precision = None,
     co_numeric_scale = None\<rparr>"

definition sample_table :: table_schema where
  "sample_table = \<lparr>ta_schema = ''public'', ta_name = ''users'',
     ta_columns = [(''id'', sample_column ''id'' ''bigint'')], ta_primary_key = None,
     ta_indexes = [], ta_foreign_keys = []\<rparr>"

definition sample_snapshot :: schema_snapshot where
  "sample_snapshot = \<lparr>sn_database = ''shop'', sn_db_type = Postgres,
     sn_tables = [(''public.users'', sample_table)]\<rparr>"

text \<open>
  Where the byte writer is injective and the digest does not collide on the two snapshots,
  equal hashes mean equal snapshots: comparing hashes misses no change of any recorded field.
\<close>

theorem canonical_hash_faithful:
  assumes "inj to_vec"
    and "digest (canonical_json to_vec a) = digest (canonical_json to_vec b) \<Longrightarrow>
      canonical_json to_vec a = canonical_json to_vec b"
  shows "canonical_hash to_vec digest a = canonical_hash to_vec digest b \<longleftrightarrow> a = b"
  using assms snapshot_json_eq [of a b]
  by (metis canonical_hash_def canonical_json_def injD)

subsection \<open>An injective writer\<close>

text \<open>A tag per constructor, numbers in unary, lengths in front of strings, arrays and objects.\<close>

fun count_mark :: "nat \<Rightarrow> string" where
  "count_mark 0 = ''.''"
| "count_mark (Suc n) = CHR ''1'' # count_mark n"

definition write_str :: "string \<Rightarrow> string" where
  "write_str s = count_mark (length s) @ s"

primrec sample_writer :: "json \<Rightarrow> string" where
  "sample_writer JNull = ''n''"
| "sample_writer (JBool b) = (if b then ''t'' else ''f'')"
| "sample_writer (JNum i) = (if i < 0 then ''m'' else ''p'') @ count_mark (nat \<bar>i\<bar>)"
| "sample_writer (JStr s) = ''s'' @ write_str s"
| "sample_writer (JArr xs) = ''a'' @ count_mark (length xs) @ concat (map sample_writer xs)"
| "sample_writer (JObj kvs) =
     ''o'' @ count_mark (length kvs) @
     concat (map (\<lambda>kv. write_str (fst kv) @ snd kv) (map (map_prod id sample_writer) kvs))"

lemma count_mark_prefix: "count_mark n @ r = count_mark m @ r' \<longleftrightarrow> n = m \<and> r = r'"
  by (induction n arbitrary: m) (case_tac m; auto)+

lemma write_str_prefix: "write_str s @ r = write_str t @ r' \<longleftrightarrow> s = t \<and> r = r'"
  by (auto simp: write_str_def count_mark_prefix)

definition prefix_code_at :: "('a \<Rightarrow> string) \<Rightarrow> 'a \<Rightarrow> bool" where
  "prefix_code_at w x \<longleftrightarrow> (\<forall>y r r'. w x @ r = w y @ r' \<longrightarrow> x = y \<and> r = r')"

lemma prefix_code_concat:
  assumes "\<And>x. x \<in> set xs \<Longrightarrow> prefix_code_at w x"
  shows "length xs = length ys \<Longrightarrow> concat (map w xs) @ r = concat (map w ys) @ r' \<Longrightarrow> xs = ys \<and> r = r'"
  using assms
proof (induction xs arbitrary: ys)
  case (Cons x xs)
  then obtain y ys' where ys: "ys = y # ys'" by (cases ys) auto
  have "w x @ (concat (map w xs) @ r) = w y @ (concat (map w ys') @ r')"
    using Cons.prems(2) by (simp add: ys)
  then have "x = y" "concat (map w xs) @ r = concat (map w ys') @ r'"
    using Cons.prems(3) [of x] unfolding prefix_code_at_def by auto
  with Cons.IH [of ys'] Cons.prems ys show ?case by simp
qed simp

lemma prefix_code_pair:
  "prefix_code_at w v \<Longrightarrow> prefix_code_at (\<lambda>kv. write_str (fst kv) @ w (snd kv)) (k, v)"
  by (auto simp: prefix_code_at_def write_str_prefix)

lemma prefix_code_writer: "prefix_code_at sample_writer x"
proof (induction x)
  case (JArr xs)
  show ?case unfolding prefix_code_at_def
  proof (intro allI impI)
    fix y r r' assume eq: "sample_writer (JArr xs) @ r = sample_writer y @ r'"
    then obtain ys where y: "y = JArr ys" by (cases y) (auto split: if_splits)
    with eq show "JArr xs = y \<and> r = r'"
      using prefix_code_concat [of xs sample_writer ys r r'] JArr by (simp add: count_mark_prefix)
  qed
next
  case (JObj kvs)
  have code: "prefix_code_at (\<lambda>kv. write_str (fst kv) @ sample_writer (snd kv)) kv" if "kv \<in> set kvs" for kv
    using prefix_code_pair [of sample_writer "snd kv" "fst kv"] JObj [OF that] by (cases kv) simp
  show ?case unfolding prefix_code_at_def
  proof (intro allI impI)
    fix y r r' assume eq: "sample_writer (JObj kvs) @ r = sample_writer y @ r'"
    then obtain kvs' where y: "y = JObj kvs'" by (cases y) (auto split: if_splits)
    with eq show "JObj kvs = y \<and> r = r'"
      using prefix_code_concat [OF code, of kvs kvs' r r'] by (simp add: count_mark_prefix comp_def)
  qed
next
  case (JNum i)
  show ?case unfolding prefix_code_at_def
  proof (intro allI impI)
    fix y r r' assume eq: "sample_writer (JNum i) @ r = sample_writer y @ r'"
    then obtain j where y: "y = JNum j" by (cases y) (auto split: if_splits)
    with eq show "JNum i = y \<and> r = r'" by (auto simp: count_mark_prefix split: if_splits)
  qed
next
  case (JStr s)
  show ?case unfolding prefix_code_at_def
  proof (intro allI impI)
    fix y r r' assume eq: "sample_writer (JStr s) @ r = sample_writer y @ r'"
    then obtain t where y: "y = JStr t" by (cases y) (auto split: if_splits)
    with eq show "JStr s = y \<and> r = r'" by (simp add: write_str_prefix)
  qed
next
  case JNull
  show ?case unfolding prefix_code_at_def by (intro allI impI, case_tac y) (auto split: if_splits)
next
  case (JBool b)
  show ?case unfolding prefix_code_at_def by (intro allI impI, case_tac y) (auto split: if_splits)
qed

lemma inj_sample_writer: "inj sample_writer"
  using prefix_code_writer unfolding inj_def prefix_code_at_def by (metis append_Nil2)

theorem canonical_hash_faithful_witness:
  "canonical_hash sample_writer rev sample_snapshot \<noteq>
   canonical_hash sample_writer rev (sample_snapshot\<lparr>sn_tables := []\<rparr>)"
proof -
  have "sample_snapshot \<noteq> sample_snapshot\<lparr>sn_tables := []\<rparr>" by (simp add: sample_snapshot_def)
  then show ?thesis
    using canonical_hash_faithful [OF inj_sample_writer, of rev] by (metis rev_is_rev_conv)
qed

theorem canonical_hash_order_witness:
  "canonical_hash sample_writer rev (sample_snapshot\<lparr>sn_tables := bt_insert ''public.t''
      (sample_table\<lparr>ta_columns := bt_of [(''a'', sample_column ''a'' ''int''), (''b'', sample_column ''b'' ''int'')]\<rparr>)
      (bt_of [])\<rparr>) =
   canonical_hash sample_writer rev (sample_snapshot\<lparr>sn_tables := bt_insert ''public.t''
      (sample_table\<lparr>ta_columns := bt_of [(''b'', sample_column ''b'' ''int''), (''a'', sample_column ''a'' ''int'')]\<rparr>)
      (bt_of [])\<rparr>)"
  by (rule canonical_hash_order) auto

end
