(* ===== verification/Drift_Diff.thy ===== *)
theory Drift_Diff
  imports Drift_Snapshot "HOL-Library.Word"
begin

text \<open>
  Structural drift between two snapshots: \<open>crates/drift/src/diff.rs\<close>.

  The loops over a map that push one drift for each key the other map lacks are
  \<open>map mk (entries_not_in ...)\<close>; the interface \<open>keyed_diff\<close> holds what such a pair of
  loops, one for the added and one for the dropped keys, promises, and is interpreted on tables,
  columns, indexes and foreign keys. Counts are 32-bit words, as in the source.
\<close>

section \<open>Model\<close>

datatype drift_kind = TableAdded | TableDropped | ColumnAdded | ColumnDropped | ColumnTypeChanged
  | ColumnNullabilityChanged | IndexAdded | IndexDropped | PkChanged | FkAdded | FkDropped

fun kind_wire_str :: "drift_kind \<Rightarrow> string" where
  "kind_wire_str TableAdded = ''table_added''"
| "kind_wire_str TableDropped = ''table_dropped''"
| "kind_wire_str ColumnAdded = ''column_added''"
| "kind_wire_str ColumnDropped = ''column_dropped''"
| "kind_wire_str ColumnTypeChanged = ''column_type_changed''"
| "kind_wire_str ColumnNullabilityChanged = ''column_nullability_changed''"
| "kind_wire_str IndexAdded = ''index_added''"
| "kind_wire_str IndexDropped = ''index_dropped''"
| "kind_wire_str PkChanged = ''pk_changed''"
| "kind_wire_str FkAdded = ''fk_added''"
| "kind_wire_str FkDropped = ''fk_dropped''"

record drift_object =
  ob_schema :: "string option"
  ob_table :: "string option"
  ob_column :: "string option"
  ob_index :: "string option"

record drift =
  dr_kind :: drift_kind
  dr_object :: drift_object
  dr_before :: json
  dr_after :: json

record drift_kind_counts =
  kc_table_added :: "32 word"
  kc_table_dropped :: "32 word"
  kc_column_added :: "32 word"
  kc_column_dropped :: "32 word"
  kc_column_type_changed :: "32 word"
  kc_column_nullability_changed :: "32 word"
  kc_index_added :: "32 word"
  kc_index_dropped :: "32 word"
  kc_pk_changed :: "32 word"
  kc_fk_added :: "32 word"
  kc_fk_dropped :: "32 word"

definition counts_default :: drift_kind_counts where
  "counts_default = \<lparr>kc_table_added = 0, kc_table_dropped = 0, kc_column_added = 0,
     kc_column_dropped = 0, kc_column_type_changed = 0, kc_column_nullability_changed = 0,
     kc_index_added = 0, kc_index_dropped = 0, kc_pk_changed = 0, kc_fk_added = 0, kc_fk_dropped = 0\<rparr>"

definition counts_total :: "drift_kind_counts \<Rightarrow> 32 word" where
  "counts_total c =
     kc_table_added c + kc_table_dropped c + kc_column_added c + kc_column_dropped c +
     kc_column_type_changed c + kc_column_nullability_changed c + kc_index_added c +
     kc_index_dropped c + kc_pk_changed c + kc_fk_added c + kc_fk_dropped c"

fun count_kind :: "drift_kind \<Rightarrow> drift_kind_counts \<Rightarrow> drift_kind_counts" where
  "count_kind TableAdded c = c\<lparr>kc_table_added := kc_table_added c + 1\<rparr>"
| "count_kind TableDropped c = c\<lparr>kc_table_dropped := kc_table_dropped c + 1\<rparr>"
| "count_kind ColumnAdded c = c\<lparr>kc_column_added := kc_column_added c + 1\<rparr>"
| "count_kind ColumnDropped c = c\<lparr>kc_column_dropped := kc_column_dropped c + 1\<rparr>"
| "count_kind ColumnTypeChanged c = c\<lparr>kc_column_type_changed := kc_column_type_changed c + 1\<rparr>"
| "count_kind ColumnNullabilityChanged c =
     c\<lparr>kc_column_nullability_changed := kc_column_nullability_changed c + 1\<rparr>"
| "count_kind IndexAdded c = c\<lparr>kc_index_added := kc_index_added c + 1\<rparr>"
| "count_kind IndexDropped c = c\<lparr>kc_index_dropped := kc_index_dropped c + 1\<rparr>"
| "count_kind PkChanged c = c\<lparr>kc_pk_changed := kc_pk_changed c + 1\<rparr>"
| "count_kind FkAdded c = c\<lparr>kc_fk_added := kc_fk_added c + 1\<rparr>"
| "count_kind FkDropped c = c\<lparr>kc_fk_dropped := kc_fk_dropped c + 1\<rparr>"

definition summarize :: "drift list \<Rightarrow> drift_kind_counts" where
  "summarize drifts = fold (\<lambda>d. count_kind (dr_kind d)) drifts counts_default"

subsection \<open>Summaries\<close>

definition column_type_summary :: "column_schema \<Rightarrow> json" where
  "column_type_summary c =
     JObj [(''data_type'', JStr (co_data_type c)), (''char_max_length'', json_opt JNum (co_char_max_length c)),
           (''numeric_precision'', json_opt JNum (co_numeric_precision c)),
           (''numeric_scale'', json_opt JNum (co_numeric_scale c))]"

definition column_full :: "column_schema \<Rightarrow> json" where
  "column_full c =
     JObj [(''data_type'', JStr (co_data_type c)), (''is_nullable'', JBool (co_is_nullable c)),
           (''column_default'', json_opt JStr (co_default c)),
           (''char_max_length'', json_opt JNum (co_char_max_length c)),
           (''numeric_precision'', json_opt JNum (co_numeric_precision c)),
           (''numeric_scale'', json_opt JNum (co_numeric_scale c))]"

definition pk_summary :: "primary_key \<Rightarrow> json" where
  "pk_summary pk =
     JObj [(''name'', json_opt JStr (pk_name pk)), (''columns'', JArr (map JStr (pk_columns pk)))]"

definition index_summary :: "index_schema \<Rightarrow> json" where
  "index_summary ix =
     JObj [(''columns'', JArr (map JStr (ix_columns ix))), (''is_unique'', JBool (ix_is_unique ix))]"

definition fk_summary :: "foreign_key \<Rightarrow> json" where
  "fk_summary fk =
     JObj [(''columns'', JArr (map JStr (fk_columns fk))), (''ref_schema'', json_opt JStr (fk_ref_schema fk)),
           (''ref_table'', JStr (fk_ref_table fk)), (''ref_columns'', JArr (map JStr (fk_ref_columns fk)))]"

definition table_summary :: "table_schema \<Rightarrow> json" where
  "table_summary t =
     JObj [(''columns'', JNum (int (length (ta_columns t)))),
           (''indexes'', JNum (int (length (ta_indexes t)))),
           (''foreign_keys'', JNum (int (length (ta_foreign_keys t))))]"

definition column_type_differs :: "column_schema \<Rightarrow> column_schema \<Rightarrow> bool" where
  "column_type_differs a b =
     (co_data_type a \<noteq> co_data_type b \<or> co_char_max_length a \<noteq> co_char_max_length b \<or>
      co_numeric_precision a \<noteq> co_numeric_precision b \<or> co_numeric_scale a \<noteq> co_numeric_scale b)"

subsection \<open>The diff\<close>

definition object_for_table :: "table_schema \<Rightarrow> drift_object" where
  "object_for_table t = \<lparr>ob_schema = Some (ta_schema t), ob_table = Some (ta_name t), ob_column = None,
     ob_index = None\<rparr>"

definition object_for_column :: "table_schema \<Rightarrow> string \<Rightarrow> drift_object" where
  "object_for_column t col = \<lparr>ob_schema = Some (ta_schema t), ob_table = Some (ta_name t),
     ob_column = Some col, ob_index = None\<rparr>"

definition object_for_index :: "table_schema \<Rightarrow> string \<Rightarrow> drift_object" where
  "object_for_index t idx = \<lparr>ob_schema = Some (ta_schema t), ob_table = Some (ta_name t),
     ob_column = None, ob_index = Some idx\<rparr>"

definition object_for_fk :: "table_schema \<Rightarrow> string \<Rightarrow> drift_object" where
  "object_for_fk t fk = \<lparr>ob_schema = Some (ta_schema t), ob_table = Some (ta_name t),
     ob_column = None, ob_index = Some fk\<rparr>"

definition entries_not_in :: "'v btree \<Rightarrow> 'v btree \<Rightarrow> (string \<times> 'v) list" where
  "entries_not_in m m' = filter (\<lambda>kv. \<not> bt_contains m' (fst kv)) m"

definition columns_added :: "table_schema \<Rightarrow> table_schema \<Rightarrow> drift list" where
  "columns_added prior current =
     map (\<lambda>(name, col). \<lparr>dr_kind = ColumnAdded, dr_object = object_for_column current name,
            dr_before = JNull, dr_after = column_full col\<rparr>)
       (entries_not_in (ta_columns current) (ta_columns prior))"

definition columns_dropped :: "table_schema \<Rightarrow> table_schema \<Rightarrow> drift list" where
  "columns_dropped prior current =
     map (\<lambda>(name, col). \<lparr>dr_kind = ColumnDropped, dr_object = object_for_column prior name,
            dr_before = column_full col, dr_after = JNull\<rparr>)
       (entries_not_in (ta_columns prior) (ta_columns current))"

definition column_changes :: "table_schema \<Rightarrow> string \<times> column_schema \<Rightarrow> drift list" where
  "column_changes current np =
     (let (name, pri) = np in
      case bt_get (ta_columns current) name of
        None \<Rightarrow> []
      | Some cur \<Rightarrow>
          (if column_type_differs pri cur
           then [\<lparr>dr_kind = ColumnTypeChanged, dr_object = object_for_column current name,
                  dr_before = column_type_summary pri, dr_after = column_type_summary cur\<rparr>] else []) @
          (if co_is_nullable pri \<noteq> co_is_nullable cur
           then [\<lparr>dr_kind = ColumnNullabilityChanged, dr_object = object_for_column current name,
                  dr_before = JBool (co_is_nullable pri), dr_after = JBool (co_is_nullable cur)\<rparr>] else []))"

definition diff_table_columns :: "table_schema \<Rightarrow> table_schema \<Rightarrow> drift list" where
  "diff_table_columns prior current =
     columns_added prior current @ columns_dropped prior current @
     concat (map (column_changes current) (ta_columns prior))"

definition diff_table_pk :: "table_schema \<Rightarrow> table_schema \<Rightarrow> drift list" where
  "diff_table_pk prior current =
     (if ta_primary_key prior \<noteq> ta_primary_key current
      then [\<lparr>dr_kind = PkChanged, dr_object = object_for_table current,
             dr_before = json_opt pk_summary (ta_primary_key prior),
             dr_after = json_opt pk_summary (ta_primary_key current)\<rparr>]
      else [])"

definition indexes_added :: "table_schema \<Rightarrow> table_schema \<Rightarrow> drift list" where
  "indexes_added prior current =
     map (\<lambda>(name, ix). \<lparr>dr_kind = IndexAdded, dr_object = object_for_index current name,
            dr_before = JNull, dr_after = index_summary ix\<rparr>)
       (entries_not_in (ta_indexes current) (ta_indexes prior))"

definition indexes_dropped :: "table_schema \<Rightarrow> table_schema \<Rightarrow> drift list" where
  "indexes_dropped prior current =
     map (\<lambda>(name, ix). \<lparr>dr_kind = IndexDropped, dr_object = object_for_index prior name,
            dr_before = index_summary ix, dr_after = JNull\<rparr>)
       (entries_not_in (ta_indexes prior) (ta_indexes current))"

definition diff_table_indexes :: "table_schema \<Rightarrow> table_schema \<Rightarrow> drift list" where
  "diff_table_indexes prior current = indexes_added prior current @ indexes_dropped prior current"

definition fks_added :: "table_schema \<Rightarrow> table_schema \<Rightarrow> drift list" where
  "fks_added prior current =
     map (\<lambda>(name, fk). \<lparr>dr_kind = FkAdded, dr_object = object_for_fk current name,
            dr_before = JNull, dr_after = fk_summary fk\<rparr>)
       (entries_not_in (ta_foreign_keys current) (ta_foreign_keys prior))"

definition fks_dropped :: "table_schema \<Rightarrow> table_schema \<Rightarrow> drift list" where
  "fks_dropped prior current =
     map (\<lambda>(name, fk). \<lparr>dr_kind = FkDropped, dr_object = object_for_fk prior name,
            dr_before = fk_summary fk, dr_after = JNull\<rparr>)
       (entries_not_in (ta_foreign_keys prior) (ta_foreign_keys current))"

definition diff_table_fks :: "table_schema \<Rightarrow> table_schema \<Rightarrow> drift list" where
  "diff_table_fks prior current = fks_added prior current @ fks_dropped prior current"

definition tables_added :: "schema_snapshot \<Rightarrow> schema_snapshot \<Rightarrow> drift list" where
  "tables_added prior current =
     map (\<lambda>(key, t). \<lparr>dr_kind = TableAdded, dr_object = object_for_table t,
            dr_before = JNull, dr_after = table_summary t\<rparr>)
       (entries_not_in (sn_tables current) (sn_tables prior))"

definition tables_dropped :: "schema_snapshot \<Rightarrow> schema_snapshot \<Rightarrow> drift list" where
  "tables_dropped prior current =
     map (\<lambda>(key, t). \<lparr>dr_kind = TableDropped, dr_object = object_for_table t,
            dr_before = table_summary t, dr_after = JNull\<rparr>)
       (entries_not_in (sn_tables prior) (sn_tables current))"

definition diff_table :: "table_schema \<Rightarrow> table_schema \<Rightarrow> drift list" where
  "diff_table prior current =
     diff_table_columns prior current @ diff_table_pk prior current @
     diff_table_indexes prior current @ diff_table_fks prior current"

definition compute_drifts :: "schema_snapshot \<Rightarrow> schema_snapshot \<Rightarrow> drift list" where
  "compute_drifts prior current =
     tables_added prior current @ tables_dropped prior current @
     concat (map (\<lambda>(key, pri_table).
       case bt_get (sn_tables current) key of
         None \<Rightarrow> []
       | Some cur_table \<Rightarrow> diff_table pri_table cur_table) (sn_tables prior))"

section \<open>Keyed differences\<close>

definition keys :: "'v btree \<Rightarrow> string set" where
  "keys m = fst ` set m"

lemma finite_keys [simp]: "finite (keys m)"
  by (simp add: keys_def)

lemma bt_contains_keys: "bt_contains m k \<longleftrightarrow> k \<in> keys m"
  by (simp add: keys_def bt_contains_iff)

lemma keys_get: "k \<in> keys m \<longleftrightarrow> bt_get m k \<noteq> None"
  by (simp add: bt_contains_keys [symmetric] bt_contains_def)

lemma length_entries_not_in:
  assumes "bt_wf m"
  shows "length (entries_not_in m m') = card (keys m - keys m')"
proof -
  have d: "distinct (map fst (entries_not_in m m'))"
    unfolding entries_not_in_def using bt_wf_distinct [OF assms] by (rule distinct_map_filter)
  have "set (map fst (entries_not_in m m')) = keys m - keys m'"
    by (auto simp: entries_not_in_def bt_contains_keys keys_def)
  with distinct_card [OF d] show ?thesis by simp
qed

definition kind_count :: "drift_kind \<Rightarrow> drift list \<Rightarrow> nat" where
  "kind_count k ds = length (filter (\<lambda>d. dr_kind d = k) ds)"

lemma kind_count_append [simp]: "kind_count k (ds @ ds') = kind_count k ds + kind_count k ds'"
  by (simp add: kind_count_def)

lemma kind_count_Nil [simp]: "kind_count k [] = 0"
  by (simp add: kind_count_def)

lemma kind_count_concat: "kind_count k (concat (map f xs)) = (\<Sum>x\<leftarrow>xs. kind_count k (f x))"
  by (induction xs) simp_all

text \<open>The kind a drift has when the snapshots are compared in the other direction.\<close>

fun swap_kind :: "drift_kind \<Rightarrow> drift_kind" where
  "swap_kind TableAdded = TableDropped"
| "swap_kind TableDropped = TableAdded"
| "swap_kind ColumnAdded = ColumnDropped"
| "swap_kind ColumnDropped = ColumnAdded"
| "swap_kind IndexAdded = IndexDropped"
| "swap_kind IndexDropped = IndexAdded"
| "swap_kind FkAdded = FkDropped"
| "swap_kind FkDropped = FkAdded"
| "swap_kind k = k"

lemma swap_kind_swap [simp]: "swap_kind (swap_kind k) = k"
  by (cases k) simp_all

text \<open>
  \<open>adds\<close> and \<open>drops\<close> are the two loops; \<open>kadd\<close> and \<open>kdrop\<close> the kinds they report. Each
  reports as many drifts as there are keys on one side only.
\<close>

locale keyed_diff =
  fixes adds drops :: "'m \<Rightarrow> 'm \<Rightarrow> drift list"
    and ks :: "'m \<Rightarrow> string set"
    and wf :: "'m \<Rightarrow> bool"
    and kadd kdrop :: drift_kind
  assumes fin: "finite (ks m)"
    and adds_count: "wf p \<Longrightarrow> wf c \<Longrightarrow> length (adds p c) = card (ks c - ks p)"
    and drops_count: "wf p \<Longrightarrow> wf c \<Longrightarrow> length (drops p c) = card (ks p - ks c)"
    and adds_kind: "d \<in> set (adds p c) \<Longrightarrow> dr_kind d = kadd"
    and drops_kind: "d \<in> set (drops p c) \<Longrightarrow> dr_kind d = kdrop"
    and kinds: "kadd \<noteq> kdrop" "swap_kind kadd = kdrop"
begin

text \<open>Silence means the same keys.\<close>

lemma nil_iff: "wf p \<Longrightarrow> wf c \<Longrightarrow> adds p c = [] \<and> drops p c = [] \<longleftrightarrow> ks p = ks c"
  using adds_count [of p c] drops_count [of p c] fin
  by (metis Diff_eq_empty_iff card_eq_0_iff finite_Diff length_0_conv subset_antisym subset_refl)

text \<open>Comparing in the other direction reports as many drops as there were additions.\<close>

lemma swap_counts:
  "wf p \<Longrightarrow> wf c \<Longrightarrow> length (adds c p) = length (drops p c)"
  by (simp add: adds_count drops_count)

lemma filter_kinds:
  "filter (\<lambda>d. dr_kind d = k) (adds p c @ drops p c) =
     (if k = kadd then adds p c else if k = kdrop then drops p c else [])"
proof -
  have "filter (\<lambda>d. dr_kind d = k) (adds p c) = (if k = kadd then adds p c else [])"
    using adds_kind [of _ p c] by (auto simp: filter_id_conv filter_empty_conv)
  moreover have "filter (\<lambda>d. dr_kind d = k) (drops p c) = (if k = kdrop then drops p c else [])"
    using drops_kind [of _ p c] by (auto simp: filter_id_conv filter_empty_conv)
  ultimately show ?thesis using kinds by simp
qed

lemma kind_count_swap:
  assumes "wf p" "wf c"
  shows "kind_count k (adds p c @ drops p c) = kind_count (swap_kind k) (adds c p @ drops c p)"
proof -
  have "k = kadd \<longleftrightarrow> swap_kind k = kdrop" "k = kdrop \<longleftrightarrow> swap_kind k = kadd"
    using kinds(2) swap_kind_swap by metis+
  then show ?thesis
    unfolding kind_count_def filter_kinds
    using kinds(1) swap_counts [OF assms] swap_counts [OF assms(2,1)] by auto
qed

end

interpretation tables: keyed_diff tables_added tables_dropped "\<lambda>s. keys (sn_tables s)" snapshot_wf
    TableAdded TableDropped
  by unfold_locales
    (auto simp: tables_added_def tables_dropped_def snapshot_wf_def length_entries_not_in)

interpretation columns: keyed_diff columns_added columns_dropped "\<lambda>t. keys (ta_columns t)" table_wf
    ColumnAdded ColumnDropped
  by unfold_locales
    (auto simp: columns_added_def columns_dropped_def table_wf_def length_entries_not_in)

interpretation indexes: keyed_diff indexes_added indexes_dropped "\<lambda>t. keys (ta_indexes t)" table_wf
    IndexAdded IndexDropped
  by unfold_locales
    (auto simp: indexes_added_def indexes_dropped_def table_wf_def length_entries_not_in)

interpretation fks: keyed_diff fks_added fks_dropped "\<lambda>t. keys (ta_foreign_keys t)" table_wf
    FkAdded FkDropped
  by unfold_locales
    (auto simp: fks_added_def fks_dropped_def table_wf_def length_entries_not_in)

section \<open>When there is no drift\<close>

text \<open>The declarative reading: the same keys everywhere, and equal shapes at equal keys.\<close>

definition column_drift_free :: "column_schema \<Rightarrow> column_schema \<Rightarrow> bool" where
  "column_drift_free c c' \<longleftrightarrow>
     co_data_type c = co_data_type c' \<and> co_char_max_length c = co_char_max_length c' \<and>
     co_numeric_precision c = co_numeric_precision c' \<and> co_numeric_scale c = co_numeric_scale c' \<and>
     co_is_nullable c = co_is_nullable c'"

definition table_drift_free :: "table_schema \<Rightarrow> table_schema \<Rightarrow> bool" where
  "table_drift_free t t' \<longleftrightarrow>
     rel_fun (=) (rel_option column_drift_free) (bt_get (ta_columns t)) (bt_get (ta_columns t')) \<and>
     ta_primary_key t = ta_primary_key t' \<and>
     keys (ta_indexes t) = keys (ta_indexes t') \<and> keys (ta_foreign_keys t) = keys (ta_foreign_keys t')"

definition drift_free :: "schema_snapshot \<Rightarrow> schema_snapshot \<Rightarrow> bool" where
  "drift_free s s' \<longleftrightarrow>
     rel_fun (=) (rel_option table_drift_free) (bt_get (sn_tables s)) (bt_get (sn_tables s'))"

lemma rel_fun_btree:
  assumes "bt_wf m"
  shows "rel_fun (=) (rel_option R) (bt_get m) (bt_get m') \<longleftrightarrow>
    keys m = keys m' \<and> (\<forall>k v. (k, v) \<in> set m \<longrightarrow> (case bt_get m' k of None \<Rightarrow> True | Some v' \<Rightarrow> R v v'))"
    (is "?L \<longleftrightarrow> ?K \<and> ?P")
proof
  assume L: ?L
  have "bt_get m k = None \<longleftrightarrow> bt_get m' k = None" for k
    using rel_funD [OF L, of k k] by (auto simp: option_rel_Some1 option_rel_Some2)
  then have ?K by (auto simp: keys_get)
  moreover have ?P
  proof (intro allI impI)
    fix k v assume "(k, v) \<in> set m"
    then have "bt_get m k = Some v" using assms by (simp add: bt_get_Some_iff)
    with rel_funD [OF L refl, of k] show "case bt_get m' k of None \<Rightarrow> True | Some v' \<Rightarrow> R v v'"
      by (auto simp: option_rel_Some1)
  qed
  ultimately show "?K \<and> ?P" by blast
next
  assume KP: "?K \<and> ?P"
  have "rel_option R (bt_get m k) (bt_get m' k)" for k
  proof (cases "bt_get m k")
    case None
    moreover from None KP have "bt_get m' k = None" by (metis keys_get)
    ultimately show ?thesis by simp
  next
    case (Some v)
    with KP obtain v' where v': "bt_get m' k = Some v'" by (metis keys_get option.exhaust option.distinct(1))
    have "(k, v) \<in> set m" using Some assms by (simp add: bt_get_Some_iff)
    with KP v' have "R v v'" by (metis option.simps(5))
    with Some v' show ?thesis by simp
  qed
  then show ?L by (simp add: rel_fun_def)
qed

lemma column_changes_nil:
  "column_changes current (n, pri) = [] \<longleftrightarrow>
     (case bt_get (ta_columns current) n of None \<Rightarrow> True | Some cur \<Rightarrow> column_drift_free pri cur)"
  by (auto simp: column_changes_def column_type_differs_def column_drift_free_def split: option.split)

lemma diff_table_columns_nil:
  assumes "table_wf t" "table_wf t'"
  shows "diff_table_columns t t' = [] \<longleftrightarrow>
    rel_fun (=) (rel_option column_drift_free) (bt_get (ta_columns t)) (bt_get (ta_columns t'))"
proof -
  have "bt_wf (ta_columns t)" using assms(1) by (simp add: table_wf_def)
  then show ?thesis
    by (simp add: rel_fun_btree columns.nil_iff [OF assms, symmetric] diff_table_columns_def
        column_changes_nil split_paired_All [symmetric] flip: conj_assoc)
      (auto simp: column_changes_nil)
qed

lemma diff_table_nil:
  assumes "table_wf t" "table_wf t'"
  shows "diff_table t t' = [] \<longleftrightarrow> table_drift_free t t'"
  using diff_table_columns_nil [OF assms] indexes.nil_iff [OF assms] fks.nil_iff [OF assms]
  by (auto simp: diff_table_def table_drift_free_def diff_table_pk_def diff_table_indexes_def
      diff_table_fks_def)

lemma snapshot_wf_get: "snapshot_wf s \<Longrightarrow> bt_get (sn_tables s) k = Some t \<Longrightarrow> table_wf t"
  by (auto simp: snapshot_wf_def bt_get_Some_iff list_all_iff)

lemma compute_drifts_nil:
  assumes "snapshot_wf a" "snapshot_wf b"
  shows "compute_drifts a b = [] \<longleftrightarrow> drift_free a b"
proof -
  have wf: "bt_wf (sn_tables a)" using assms(1) by (simp add: snapshot_wf_def)
  have "(case bt_get (sn_tables b) k of None \<Rightarrow> [] | Some t' \<Rightarrow> diff_table t t') = [] \<longleftrightarrow>
      (case bt_get (sn_tables b) k of None \<Rightarrow> True | Some t' \<Rightarrow> table_drift_free t t')"
    if "(k, t) \<in> set (sn_tables a)" for k t
  proof (cases "bt_get (sn_tables b) k")
    case (Some t')
    have "table_wf t" using that assms(1) by (auto simp: snapshot_wf_def list_all_iff)
    moreover have "table_wf t'" using Some assms(2) by (rule snapshot_wf_get [rotated])
    ultimately show ?thesis using Some by (simp add: diff_table_nil)
  qed simp
  then have "compute_drifts a b = [] \<longleftrightarrow> keys (sn_tables a) = keys (sn_tables b) \<and>
      (\<forall>k t. (k, t) \<in> set (sn_tables a) \<longrightarrow> (case bt_get (sn_tables b) k of
         None \<Rightarrow> True | Some t' \<Rightarrow> table_drift_free t t'))"
    using tables.nil_iff [OF assms] by (force simp: compute_drifts_def)
  then show ?thesis unfolding drift_free_def rel_fun_btree [OF wf] .
qed

section \<open>Counts\<close>

fun count_of :: "drift_kind \<Rightarrow> drift_kind_counts \<Rightarrow> 32 word" where
  "count_of TableAdded c = kc_table_added c"
| "count_of TableDropped c = kc_table_dropped c"
| "count_of ColumnAdded c = kc_column_added c"
| "count_of ColumnDropped c = kc_column_dropped c"
| "count_of ColumnTypeChanged c = kc_column_type_changed c"
| "count_of ColumnNullabilityChanged c = kc_column_nullability_changed c"
| "count_of IndexAdded c = kc_index_added c"
| "count_of IndexDropped c = kc_index_dropped c"
| "count_of PkChanged c = kc_pk_changed c"
| "count_of FkAdded c = kc_fk_added c"
| "count_of FkDropped c = kc_fk_dropped c"

lemma count_of_count_kind: "count_of k (count_kind k' c) = count_of k c + (if k = k' then 1 else 0)"
  by (cases k; cases k') simp_all

lemma count_of_summarize: "count_of k (summarize ds) = of_nat (kind_count k ds)"
proof -
  have "count_of k (fold (\<lambda>d. count_kind (dr_kind d)) ds c) = count_of k c + of_nat (kind_count k ds)" for c
    by (induction ds arbitrary: c) (auto simp: count_of_count_kind kind_count_def)
  moreover have "count_of k counts_default = 0"
    by (cases k) (simp_all add: counts_default_def)
  ultimately show ?thesis by (simp add: summarize_def)
qed

lemma total_count_kind: "counts_total (count_kind k c) = counts_total c + 1"
  by (cases k) (simp_all add: counts_total_def)

lemma total_summarize: "counts_total (summarize ds) = of_nat (length ds)"
proof -
  have "counts_total (fold (\<lambda>d. count_kind (dr_kind d)) ds c) = counts_total c + of_nat (length ds)" for c
    by (induction ds arbitrary: c) (simp_all add: total_count_kind)
  then show ?thesis by (simp add: summarize_def) (simp add: counts_default_def counts_total_def)
qed

subsection \<open>Comparing in the other direction\<close>

text \<open>A sum over one map's entries that looks its keys up in another is a sum over common keys.\<close>

lemma sum_common_keys:
  assumes "bt_wf m"
  shows "(\<Sum>(k, v)\<leftarrow>m. case bt_get m' k of None \<Rightarrow> 0 | Some v' \<Rightarrow> f v v') =
    (\<Sum>k \<in> keys m \<inter> keys m'. (f (the (bt_get m k)) (the (bt_get m' k)) :: nat))"
proof -
  let ?g = "\<lambda>k. case bt_get m' k of None \<Rightarrow> 0 | Some v' \<Rightarrow> f (the (bt_get m k)) v'"
  have "(\<Sum>(k, v)\<leftarrow>m. case bt_get m' k of None \<Rightarrow> 0 | Some v' \<Rightarrow> f v v') = (\<Sum>kv\<leftarrow>m. ?g (fst kv))"
    using assms
    by (intro arg_cong [of _ _ sum_list] map_cong) (auto simp: bt_get_Some_iff [symmetric] split: option.split)
  also have "\<dots> = sum_list (map ?g (map fst m))" by (simp add: comp_def)
  also have "\<dots> = sum ?g (keys m)"
    using bt_wf_distinct [OF assms] by (simp only: sum_list_distinct_conv_sum_set) (simp add: keys_def)
  also have "\<dots> = sum ?g (keys m \<inter> keys m')"
    by (rule sum.mono_neutral_right) (auto simp: keys_get split: option.split)
  also have "\<dots> = (\<Sum>k \<in> keys m \<inter> keys m'. f (the (bt_get m k)) (the (bt_get m' k)))"
    by (rule sum.cong) (auto simp: keys_get)
  finally show ?thesis .
qed

lemma column_type_differs_sym: "column_type_differs a b = column_type_differs b a"
  by (auto simp: column_type_differs_def)

definition column_change_count :: "drift_kind \<Rightarrow> column_schema \<Rightarrow> column_schema \<Rightarrow> nat" where
  "column_change_count k a b =
     (if k = ColumnTypeChanged \<and> column_type_differs a b then 1 else 0) +
     (if k = ColumnNullabilityChanged \<and> co_is_nullable a \<noteq> co_is_nullable b then 1 else 0)"

lemma kind_count_column_changes:
  "kind_count k (column_changes t (n, a)) =
     (case bt_get (ta_columns t) n of None \<Rightarrow> 0 | Some b \<Rightarrow> column_change_count k a b)"
  by (simp add: column_changes_def column_change_count_def kind_count_def split: option.split)

lemma column_change_count_swap: "column_change_count k a b = column_change_count (swap_kind k) b a"
  by (cases k) (auto simp: column_change_count_def column_type_differs_sym)

lemma sum_column_changes:
  assumes "table_wf t"
  shows "(\<Sum>x\<leftarrow>ta_columns t. kind_count k (column_changes t' x)) =
    (\<Sum>n \<in> keys (ta_columns t) \<inter> keys (ta_columns t').
       column_change_count k (the (bt_get (ta_columns t) n)) (the (bt_get (ta_columns t') n)))"
proof -
  have "(\<Sum>x\<leftarrow>ta_columns t. kind_count k (column_changes t' x)) =
      (\<Sum>(n, a)\<leftarrow>ta_columns t. case bt_get (ta_columns t') n of None \<Rightarrow> 0 | Some b \<Rightarrow> column_change_count k a b)"
    by (intro arg_cong [of _ _ sum_list] map_cong) (auto simp: kind_count_column_changes)
  then show ?thesis
    using sum_common_keys [of "ta_columns t" "column_change_count k" "ta_columns t'"] assms
    by (simp only: table_wf_def)
qed

lemma diff_table_swap:
  assumes wf: "table_wf t" "table_wf t'"
  shows "kind_count k (diff_table t t') = kind_count (swap_kind k) (diff_table t' t)"
proof -
  have "kind_count k (columns_added t t' @ columns_dropped t t') =
      kind_count (swap_kind k) (columns_added t' t @ columns_dropped t' t)"
    using wf by (rule columns.kind_count_swap)
  moreover have "kind_count k (indexes_added t t' @ indexes_dropped t t') =
      kind_count (swap_kind k) (indexes_added t' t @ indexes_dropped t' t)"
    using wf by (rule indexes.kind_count_swap)
  moreover have "kind_count k (fks_added t t' @ fks_dropped t t') =
      kind_count (swap_kind k) (fks_added t' t @ fks_dropped t' t)"
    using wf by (rule fks.kind_count_swap)
  moreover have "kind_count k (concat (map (column_changes t') (ta_columns t))) =
      kind_count (swap_kind k) (concat (map (column_changes t) (ta_columns t')))"
    unfolding kind_count_concat sum_column_changes [OF wf(1)] sum_column_changes [OF wf(2)]
    by (rule sum.cong) (auto simp: column_change_count_swap [of k])
  moreover have "kind_count k (diff_table_pk t t') = kind_count (swap_kind k) (diff_table_pk t' t)"
    by (cases k) (simp_all add: diff_table_pk_def kind_count_def)
  ultimately show ?thesis
    by (simp add: diff_table_def diff_table_columns_def diff_table_indexes_def diff_table_fks_def)
qed

lemma compute_drifts_swap:
  assumes wf: "snapshot_wf a" "snapshot_wf b"
  shows "kind_count k (compute_drifts a b) = kind_count (swap_kind k) (compute_drifts b a)"
proof -
  have common: "kind_count j (concat (map (\<lambda>(key, t). case bt_get (sn_tables s') key of
        None \<Rightarrow> [] | Some t' \<Rightarrow> diff_table t t') (sn_tables s))) =
      (\<Sum>key \<in> keys (sn_tables s) \<inter> keys (sn_tables s').
         kind_count j (diff_table (the (bt_get (sn_tables s) key)) (the (bt_get (sn_tables s') key))))"
    if "snapshot_wf s" for s s' j
  proof -
    have "kind_count j (concat (map (\<lambda>(key, t). case bt_get (sn_tables s') key of
          None \<Rightarrow> [] | Some t' \<Rightarrow> diff_table t t') (sn_tables s))) =
        (\<Sum>(key, t)\<leftarrow>sn_tables s. case bt_get (sn_tables s') key of
          None \<Rightarrow> 0 | Some t' \<Rightarrow> kind_count j (diff_table t t'))"
      unfolding kind_count_concat
      by (intro arg_cong [of _ _ sum_list] map_cong) (auto split: option.split)
    then show ?thesis
      using sum_common_keys [of "sn_tables s" "\<lambda>t t'. kind_count j (diff_table t t')" "sn_tables s'"] that
      by (simp only: snapshot_wf_def)
  qed
  have "kind_count k (diff_table (the (bt_get (sn_tables a) key)) (the (bt_get (sn_tables b) key))) =
      kind_count (swap_kind k) (diff_table (the (bt_get (sn_tables b) key)) (the (bt_get (sn_tables a) key)))"
    if "key \<in> keys (sn_tables b) \<inter> keys (sn_tables a)" for key
    using that wf by (intro diff_table_swap) (auto simp: keys_get snapshot_wf_get)
  then have "(\<Sum>key \<in> keys (sn_tables a) \<inter> keys (sn_tables b).
        kind_count k (diff_table (the (bt_get (sn_tables a) key)) (the (bt_get (sn_tables b) key)))) =
      (\<Sum>key \<in> keys (sn_tables b) \<inter> keys (sn_tables a).
        kind_count (swap_kind k) (diff_table (the (bt_get (sn_tables b) key)) (the (bt_get (sn_tables a) key))))"
    by (intro sum.cong) auto
  with common [OF wf(1), of k b] common [OF wf(2), of "swap_kind k" a] tables.kind_count_swap [OF wf, of k]
  show ?thesis by (simp add: compute_drifts_def)
qed

section \<open>Properties\<close>


lemma sample_snapshot_wf: "snapshot_wf sample_snapshot" "snapshot_wf (sample_snapshot\<lparr>sn_tables := []\<rparr>)"
  by (simp_all add: snapshot_wf_def sample_snapshot_def sample_table_def table_wf_def bt_wf_def)


text \<open>
  Comparing two snapshots in the other direction reports, kind by kind, the same counts with
  additions and removals exchanged.
\<close>

theorem summarize_swap:
  assumes "snapshot_wf a" "snapshot_wf b"
  shows "count_of k (summarize (compute_drifts b a)) = count_of (swap_kind k) (summarize (compute_drifts a b))"
  unfolding count_of_summarize compute_drifts_swap [OF assms(2,1)] ..

theorem summarize_swap_witness:
  "kc_table_added (summarize (compute_drifts (sample_snapshot\<lparr>sn_tables := []\<rparr>) sample_snapshot)) = 1"
proof -
  have "kc_table_dropped (summarize (compute_drifts sample_snapshot (sample_snapshot\<lparr>sn_tables := []\<rparr>))) = 1"
    by code_simp
  then show ?thesis using summarize_swap [OF sample_snapshot_wf, of TableAdded] by simp
qed

text \<open>
  The total of the payload is the number of drifts, up to the wrap-around of its 32 bits.
\<close>

lemma summarize_total: "counts_total (summarize ds) = of_nat (length ds)"
  by (rule total_summarize)

text \<open>
  Any drift moves the hash: where the byte writer is injective and the digest does not
  collide on the two snapshots, snapshots with a non-empty diff have different hashes, so skipping
  the diff at equal hashes loses nothing.
\<close>

theorem drift_moves_hash:
  assumes "inj to_vec"
    and "digest (canonical_json to_vec a) = digest (canonical_json to_vec b) \<Longrightarrow>
      canonical_json to_vec a = canonical_json to_vec b"
    and "snapshot_wf a" "compute_drifts a b \<noteq> []"
  shows "canonical_hash to_vec digest a \<noteq> canonical_hash to_vec digest b"
proof
  assume "canonical_hash to_vec digest a = canonical_hash to_vec digest b"
  then have "canonical_json to_vec a = canonical_json to_vec b"
    using assms(2) by (simp add: canonical_hash_def)
  then have "a = b"
    using assms(1) by (simp add: canonical_json_def inj_eq snapshot_json_eq)
  moreover have "drift_free a a"
    by (auto simp: drift_free_def table_drift_free_def column_drift_free_def rel_fun_def
        intro!: option.rel_refl)
  ultimately show False using assms(3,4) compute_drifts_nil by blast
qed

theorem drift_moves_hash_witness:
  "canonical_hash sample_writer rev sample_snapshot \<noteq>
   canonical_hash sample_writer rev (sample_snapshot\<lparr>sn_tables := []\<rparr>)"
  by (rule drift_moves_hash [OF inj_sample_writer _ sample_snapshot_wf(1)]) (simp, code_simp)

text \<open>
  The map key of a table joins schema and name with a dot, and both may hold dots: two different
  tables of one database can have the same key, and the snapshot keeps one of them.
\<close>

lemma qualified_name_collision:
  "qualified_name (sample_table\<lparr>ta_schema := ''a'', ta_name := ''b.c''\<rparr>) =
   qualified_name (sample_table\<lparr>ta_schema := ''a.b'', ta_name := ''c''\<rparr>)"
  by (simp add: qualified_name_def)

end
