(* ===== verification/Health_Alert.thy ===== *)
theory Health_Alert
  imports Rust_Prelude "HOL-Library.Word"
begin

text \<open>
  Configuration and alerting of health checks: \<open>crates/health_check/src/config.rs\<close> and
  \<open>crates/health_check/src/alert.rs\<close>.

  Counters and thresholds of type \<open>u32\<close> are 32-bit words, so \<open>count + 1\<close> wraps as in a
  release build; \<open>u64\<close> values are only compared and are natural numbers. The iteration order
  of a \<open>HashSet\<close> is unspecified; the model takes the order of the list it was made from.
  The table \<open>health_alert_state\<close> is a map from task and metric to a row; its \<open>detail\<close>
  column is the JSON value its text parses to, \<open>None\<close> for an empty or unparseable text.
\<close>

section \<open>Configuration\<close>

record metric_flags =
  mf_connectivity :: bool
  mf_row_count :: bool
  mf_missing_pk :: bool
  mf_connection_count :: bool

record health_config =
  hc_metrics :: metric_flags
  hc_fail_threshold :: "32 word"
  hc_large_table_threshold :: nat
  hc_connection_count_threshold :: nat
  hc_retention_days :: "32 word"

datatype health_config_error = OutOfRange string nat nat nat

definition default_metrics :: metric_flags where
  "default_metrics = \<lparr>mf_connectivity = True, mf_row_count = True, mf_missing_pk = True,
     mf_connection_count = True\<rparr>"

definition default_health_config :: health_config where
  "default_health_config = \<lparr>hc_metrics = default_metrics, hc_fail_threshold = 3,
     hc_large_table_threshold = 10000000, hc_connection_count_threshold = 100,
     hc_retention_days = 30\<rparr>"

definition health_validate :: "health_config \<Rightarrow> health_config_error + unit" where
  "health_validate c =
     (if \<not> (1 \<le> hc_fail_threshold c \<and> hc_fail_threshold c \<le> 10) then
        Inl (OutOfRange ''fail_threshold'' 1 10 (unat (hc_fail_threshold c)))
      else if \<not> (1 \<le> hc_retention_days c \<and> hc_retention_days c \<le> 365) then
        Inl (OutOfRange ''retention_days'' 1 365 (unat (hc_retention_days c)))
      else Inr ())"

text \<open>\<open>parse\<close> is \<open>serde_json::from_str\<close> at the configuration's type.\<close>

definition from_json_or_default :: "(string \<Rightarrow> health_config option) \<Rightarrow> string \<Rightarrow> health_config" where
  "from_json_or_default parse raw =
     (case parse raw of Some c \<Rightarrow> c | None \<Rightarrow> default_health_config)"

section \<open>Threshold metrics\<close>

datatype alert_state = AsOk | AsFailing "32 word" | AsAlerting

fun alert_state_db_str :: "alert_state \<Rightarrow> string" where
  "alert_state_db_str AsOk = ''ok''"
| "alert_state_db_str (AsFailing c) = ''failing''"
| "alert_state_db_str AsAlerting = ''alerting''"

fun alert_fail_count :: "alert_state \<Rightarrow> 32 word" where
  "alert_fail_count (AsFailing count) = count"
| "alert_fail_count _ = 0"

datatype alert_severity = Critical | Warning | Info

datatype trigger = Alert | Resolved

record alert_change =
  ch_metric :: string
  ch_severity :: alert_severity
  ch_trigger :: trigger
  ch_detail :: json

definition word_json :: "32 word \<Rightarrow> json" where
  "word_json w = JNum (uint w)"

definition evaluate_threshold_metric ::
  "alert_state option \<Rightarrow> bool \<Rightarrow> 32 word \<Rightarrow> string \<Rightarrow> alert_severity \<Rightarrow> alert_state \<times> alert_change option" where
  "evaluate_threshold_metric current failing threshold metric severity =
     (let current = (case current of None \<Rightarrow> AsOk | Some s \<Rightarrow> s) in
      if \<not> failing then
        (case current of
           AsAlerting \<Rightarrow>
             (AsOk, Some \<lparr>ch_metric = metric, ch_severity = severity, ch_trigger = Resolved,
                          ch_detail = JObj []\<rparr>)
         | AsFailing count \<Rightarrow> (AsOk, None)
         | AsOk \<Rightarrow> (AsOk, None))
      else
        (case current of
           AsOk \<Rightarrow> (AsFailing 1, None)
         | AsFailing count \<Rightarrow>
             (let next = count + 1 in
              if threshold \<le> next then
                (AsAlerting, Some \<lparr>ch_metric = metric, ch_severity = severity, ch_trigger = Alert,
                   ch_detail = JObj [(''consecutive_failures'', word_json next)]\<rparr>)
              else (AsFailing next, None))
         | AsAlerting \<Rightarrow> (AsAlerting, None)))"

definition with_detail :: "json \<Rightarrow> alert_state \<times> alert_change option \<Rightarrow> alert_state \<times> alert_change option" where
  "with_detail d r = (fst r, map_option (\<lambda>c. c\<lparr>ch_detail := d\<rparr>) (snd r))"

record connectivity_result =
  cr_ok :: bool
  cr_latency_ms :: nat
  cr_error :: "string option"

definition evaluate_connectivity ::
  "alert_state option \<Rightarrow> connectivity_result \<Rightarrow> 32 word \<Rightarrow> alert_state \<times> alert_change option" where
  "evaluate_connectivity current probe threshold =
     with_detail
       (JObj [(''latency_ms'', JNum (int (cr_latency_ms probe))), (''error'', json_opt JStr (cr_error probe))])
       (evaluate_threshold_metric current (\<not> cr_ok probe) threshold ''connectivity'' Critical)"

definition over_threshold :: "nat \<Rightarrow> (string \<times> nat) list \<Rightarrow> (string \<times> nat) list" where
  "over_threshold large top_tables = filter (\<lambda>(_, rows). large \<le> rows) top_tables"

definition evaluate_row_count ::
  "alert_state option \<Rightarrow> (string \<times> nat) list \<Rightarrow> nat \<Rightarrow> 32 word \<Rightarrow> alert_state \<times> alert_change option" where
  "evaluate_row_count current top_tables large_table_threshold fail_threshold =
     (let over = over_threshold large_table_threshold top_tables in
      with_detail
        (JObj [(''large_tables'', JArr (map (\<lambda>(n, r).
           JObj [(''table'', JStr n), (''estimated_rows'', JNum (int r))]) over))])
        (evaluate_threshold_metric current (over \<noteq> []) fail_threshold ''row_count'' Warning))"

definition evaluate_connection_count ::
  "alert_state option \<Rightarrow> nat option \<Rightarrow> nat \<Rightarrow> 32 word \<Rightarrow> alert_state \<times> alert_change option" where
  "evaluate_connection_count current count connection_count_threshold fail_threshold =
     (let failing = (case count of None \<Rightarrow> False | Some c \<Rightarrow> connection_count_threshold \<le> c) in
      with_detail
        (JObj [(''current'', json_opt (\<lambda>n. JNum (int n)) count),
               (''threshold'', JNum (int connection_count_threshold))])
        (evaluate_threshold_metric current failing fail_threshold ''connection_count'' Warning))"

section \<open>Missing primary keys\<close>

definition missing_pk_change :: "alert_severity \<Rightarrow> trigger \<Rightarrow> string \<Rightarrow> alert_change" where
  "missing_pk_change sev trig t =
     \<lparr>ch_metric = ''missing_pk'', ch_severity = sev, ch_trigger = trig,
      ch_detail = JObj [(''table'', JStr t)]\<rparr>"

definition evaluate_missing_pk ::
  "string list option \<Rightarrow> string list \<Rightarrow> string list \<times> alert_change list" where
  "evaluate_missing_pk prior_tables current =
     (case prior_tables of
        None \<Rightarrow> (current, [])
      | Some prior \<Rightarrow>
          (let newly_missing = filter (\<lambda>t. t \<notin> set prior) (remdups current);
               restored = filter (\<lambda>t. t \<notin> set current) (remdups prior)
           in (current,
               map (missing_pk_change Warning Alert) newly_missing @
               map (missing_pk_change Info Resolved) restored)))"

section \<open>Persistence\<close>

record alert_row =
  al_state :: string
  al_fail_count :: int
  al_detail :: "json option"

type_synonym alert_table = "string \<times> string \<Rightarrow> alert_row option"

record metric_state_row =
  ms_state :: alert_state
  ms_detail :: "json option"

text \<open>\<open>read_ok\<close> and \<open>write_ok\<close>: the statement succeeds.\<close>

definition load_metric_state ::
  "bool \<Rightarrow> alert_table \<Rightarrow> string \<Rightarrow> string \<Rightarrow> string + metric_state_row option" where
  "load_metric_state read_ok tab task_id metric =
     (if \<not> read_ok then Inl ''query failed''
      else case tab (task_id, metric) of
        None \<Rightarrow> Inr None
      | Some row \<Rightarrow>
          let state =
            (if al_state row = ''ok'' then Some AsOk
             else if al_state row = ''alerting'' then Some AsAlerting
             else if al_state row = ''failing'' then Some (AsFailing (word_of_int (max 0 (al_fail_count row))))
             else None)
          in case state of
               None \<Rightarrow> Inl (''invalid health_alert_state.state '' @ al_state row)
             | Some s \<Rightarrow> Inr (Some \<lparr>ms_state = s, ms_detail = al_detail row\<rparr>))"

definition persist_metric_state ::
  "bool \<Rightarrow> string \<Rightarrow> string \<Rightarrow> alert_state \<Rightarrow> json option \<Rightarrow> alert_table \<Rightarrow> (string + unit) \<times> alert_table" where
  "persist_metric_state write_ok task_id metric state detail tab =
     (if write_ok
      then (Inr (), tab((task_id, metric) \<mapsto>
        \<lparr>al_state = alert_state_db_str state, al_fail_count = uint (alert_fail_count state),
         al_detail = detail\<rparr>))
      else (Inl ''query failed'', tab))"

definition detail_last_missing :: "json option \<Rightarrow> string list option" where
  "detail_last_missing detail =
     (case detail of
        None \<Rightarrow> None
      | Some v \<Rightarrow>
          (case json_get ''last_missing'' v of
             None \<Rightarrow> None
           | Some x \<Rightarrow> map_option (\<lambda>arr. List.map_filter json_as_str arr) (json_as_array x)))"

definition detail_for_missing_pk :: "string list \<Rightarrow> json" where
  "detail_for_missing_pk tables = JObj [(''last_missing'', JArr (map JStr tables))]"

lemma detail_round_trip: "detail_last_missing (Some (detail_for_missing_pk ts)) = Some ts"
  by (induction ts) (simp_all add: detail_last_missing_def detail_for_missing_pk_def List.map_filter_simps)

lemma alert_state_round_trip:
  "tab' = snd (persist_metric_state True task metric s d tab) \<Longrightarrow>
     load_metric_state True tab' task metric = Inr (Some \<lparr>ms_state = s, ms_detail = d\<rparr>)"
  by (cases s) (simp_all add: persist_metric_state_def load_metric_state_def)

section \<open>The state machine counts consecutive failures\<close>

text \<open>The number of failing samples at the end of a history (latest sample first).\<close>

definition streak :: "bool list \<Rightarrow> nat" where
  "streak rev_history = length (takeWhile (\<lambda>f. f) rev_history)"

definition alert_after :: "32 word \<Rightarrow> nat" where
  "alert_after threshold = max 2 (unat threshold)"

definition state_of_streak :: "32 word \<Rightarrow> nat \<Rightarrow> alert_state" where
  "state_of_streak threshold n =
     (if n = 0 then AsOk
      else if n < alert_after threshold then AsFailing (of_nat n)
      else AsAlerting)"

text \<open>The events of a history by its streaks: \<open>n\<close> failing samples precede it.\<close>

primrec streak_events :: "nat \<Rightarrow> nat \<Rightarrow> bool list \<Rightarrow> trigger option list" where
  "streak_events lim n [] = []"
| "streak_events lim n (f # fs) =
     (if f then (if Suc n = lim then Some Alert else None) # streak_events lim (Suc n) fs
      else (if lim \<le> n then Some Resolved else None) # streak_events lim 0 fs)"

text \<open>An evaluator run over samples, storing its state after each.\<close>

primrec alert_run ::
  "(alert_state option \<Rightarrow> 'sample \<Rightarrow> alert_state \<times> alert_change option) \<Rightarrow> alert_state option \<Rightarrow>
   'sample list \<Rightarrow> trigger option list" where
  "alert_run eval cur [] = []"
| "alert_run eval cur (s # ss) =
     (let (st, ch) = eval cur s in map_option ch_trigger ch # alert_run eval (Some st) ss)"

text \<open>
  An evaluator of a metric maps the stored state and a sample to the new state and a change.
  \<open>failing\<close> says which samples breach the metric's limit.
\<close>

locale metric_evaluator =
  fixes eval :: "alert_state option \<Rightarrow> 'sample \<Rightarrow> alert_state \<times> alert_change option"
    and failing :: "'sample \<Rightarrow> bool"
    and threshold :: "32 word"
    and metric :: string
  assumes state_eq: "fst (eval cur s) = fst (evaluate_threshold_metric cur (failing s) threshold metric Info)"
    and change_eq: "map_option ch_trigger (snd (eval cur s)) =
      map_option ch_trigger (snd (evaluate_threshold_metric cur (failing s) threshold metric Info))"
    and metric_eq: "snd (eval cur s) = Some c \<Longrightarrow> ch_metric c = metric"
begin

text \<open>One sample: the streak's state is followed, and the streak decides the event.\<close>

lemma eval_streak:
  assumes len: "n < 2 ^ 32 - 1"
    and cur: "cur = Some (state_of_streak threshold n) \<or> (cur = None \<and> n = 0)"
    and m_def: "m = (if failing s then Suc n else 0)"
  shows "fst (eval cur s) = state_of_streak threshold m"
    and "map_option ch_trigger (snd (eval cur s)) =
      (if m = alert_after threshold then Some Alert
       else if \<not> failing s \<and> alert_after threshold \<le> n then Some Resolved else None)"
proof -
  have le: "threshold \<le> of_nat n + 1 \<longleftrightarrow> unat threshold \<le> Suc n"
  proof -
    have "unat (of_nat (Suc n) :: 32 word) = Suc n"
      using len by (simp only: unat_of_nat take_bit_nat_eq_self_iff) simp
    then show ?thesis by (simp add: word_le_nat_alt add.commute)
  qed
  have c: "(case cur of None \<Rightarrow> AsOk | Some s \<Rightarrow> s) = state_of_streak threshold n"
    using cur by (auto simp: state_of_streak_def)
  show "fst (eval cur s) = state_of_streak threshold m"
    unfolding state_eq evaluate_threshold_metric_def c Let_def
    using le by (auto simp: state_of_streak_def m_def alert_after_def)
  show "map_option ch_trigger (snd (eval cur s)) =
      (if m = alert_after threshold then Some Alert
       else if \<not> failing s \<and> alert_after threshold \<le> n then Some Resolved else None)"
    unfolding change_eq evaluate_threshold_metric_def c Let_def
    using le by (auto simp: state_of_streak_def m_def alert_after_def)
qed

lemma alert_run_streaks:
  assumes "n + length ss < 2 ^ 32 - 1"
    and "cur = Some (state_of_streak threshold n) \<or> (cur = None \<and> n = 0)"
  shows "alert_run eval cur ss = streak_events (alert_after threshold) n (map failing ss)"
  using assms
proof (induction ss arbitrary: n cur)
  case (Cons s ss)
  let ?m = "if failing s then Suc n else 0"
  have n: "n < 2 ^ 32 - 1" using Cons.prems(1) by simp
  have "alert_run eval (Some (fst (eval cur s))) ss =
      streak_events (alert_after threshold) ?m (map failing ss)"
    using Cons.prems eval_streak(1) [OF n Cons.prems(2) refl, of s] by (intro Cons.IH) auto
  moreover have "0 < alert_after threshold" by (simp add: alert_after_def)
  ultimately show ?case
    using eval_streak(2) [OF n Cons.prems(2) refl, of s] by (simp add: case_prod_beta)
qed simp

end

section \<open>The evaluators\<close>

lemmas evaluator_defs = evaluate_connectivity_def evaluate_row_count_def evaluate_connection_count_def
  with_detail_def Let_def

lemma threshold_metric_irrelevant:
  "fst (evaluate_threshold_metric cur f thr m sev) = fst (evaluate_threshold_metric cur f thr m' sev')"
  "map_option ch_trigger (snd (evaluate_threshold_metric cur f thr m sev)) =
   map_option ch_trigger (snd (evaluate_threshold_metric cur f thr m' sev'))"
  by (auto simp: evaluate_threshold_metric_def Let_def split: option.split alert_state.split)

lemma threshold_metric_name:
  "snd (evaluate_threshold_metric cur f thr m sev) = Some c \<Longrightarrow> ch_metric c = m"
  by (auto simp: evaluate_threshold_metric_def Let_def split: alert_state.splits if_splits option.splits)

lemma map_option_trigger_detail:
  "map_option ch_trigger (map_option (\<lambda>c. c\<lparr>ch_detail := d\<rparr>) r) = map_option ch_trigger r"
  by (cases r) simp_all

lemma metric_evaluator_with_detail:
  assumes "\<And>cur s. eval cur s =
    with_detail (d s) (evaluate_threshold_metric cur (failing s) threshold metric sev)"
  shows "metric_evaluator eval failing threshold metric"
proof
  fix cur s c
  show "fst (eval cur s) = fst (evaluate_threshold_metric cur (failing s) threshold metric Info)"
    unfolding assms with_detail_def by (simp add: threshold_metric_irrelevant(1) [of _ _ _ _ sev])
  show "map_option ch_trigger (snd (eval cur s)) =
      map_option ch_trigger (snd (evaluate_threshold_metric cur (failing s) threshold metric Info))"
    unfolding assms with_detail_def snd_conv map_option_trigger_detail
    by (rule threshold_metric_irrelevant(2))
  assume "snd (eval cur s) = Some c"
  then show "ch_metric c = metric"
    unfolding assms with_detail_def using threshold_metric_name by auto
qed

interpretation connectivity: metric_evaluator "\<lambda>cur probe. evaluate_connectivity cur probe thr"
    "\<lambda>probe. \<not> cr_ok probe" thr "''connectivity''" for thr
  by (rule metric_evaluator_with_detail) (simp add: evaluate_connectivity_def)

interpretation row_count: metric_evaluator "\<lambda>cur tops. evaluate_row_count cur tops large thr"
    "\<lambda>tops. over_threshold large tops \<noteq> []" thr "''row_count''" for large thr
  by (rule metric_evaluator_with_detail) (simp add: evaluate_row_count_def Let_def)

interpretation connection_count: metric_evaluator "\<lambda>cur n. evaluate_connection_count cur (Some n) lim thr"
    "\<lambda>n. lim \<le> n" thr "''connection_count''" for lim thr
  by (rule metric_evaluator_with_detail) (simp add: evaluate_connection_count_def Let_def)

section \<open>Properties\<close>



text \<open>
  A threshold of one, documented as no flap suppression, alerts at the second failing sample, as
  a threshold of two does.
\<close>

lemma threshold_one_suppresses:
  "alert_run (\<lambda>cur p. evaluate_connectivity cur p 1) None probes =
   alert_run (\<lambda>cur p. evaluate_connectivity cur p 2) None probes"
  if "length probes < 2 ^ 32 - 1"
  using that connectivity.alert_run_streaks [of 0 probes None 1]
    connectivity.alert_run_streaks [of 0 probes None 2]
  by (simp add: alert_after_def numeral_2_eq_2)

definition change_tables :: "trigger \<Rightarrow> alert_change list \<Rightarrow> json list" where
  "change_tables trig cs = map ch_detail (filter (\<lambda>c. ch_trigger c = trig) cs)"

text \<open>
  After the baseline run, the changes of the missing-key metric turn the previous table set
  into the current one: the tables alerted are those newly without a key, the tables resolved those
  that left, each once, and the current list is stored.
\<close>

theorem missing_pk_set_difference:
  "fst (evaluate_missing_pk prior current) = current \<and>
   snd (evaluate_missing_pk None current) = [] \<and>
   (\<lambda>t. JObj [(''table'', JStr t)]) ` (set current - set before) =
     set (change_tables Alert (snd (evaluate_missing_pk (Some before) current))) \<and>
   (\<lambda>t. JObj [(''table'', JStr t)]) ` (set before - set current) =
     set (change_tables Resolved (snd (evaluate_missing_pk (Some before) current))) \<and>
   distinct (map ch_detail (snd (evaluate_missing_pk (Some before) current)))"
proof -
  have filters: "filter (\<lambda>c. ch_trigger c = trig') (map (missing_pk_change sev trig) ts) =
      (if trig' = trig then map (missing_pk_change sev trig) ts else [])" for trig trig' sev ts
    by (auto simp: missing_pk_change_def filter_id_conv filter_empty_conv)
  have "distinct (map ch_detail (snd (evaluate_missing_pk (Some before) current)))"
    by (auto simp: evaluate_missing_pk_def Let_def missing_pk_change_def distinct_map comp_def inj_on_def)
  then show ?thesis
    by (auto simp: evaluate_missing_pk_def Let_def change_tables_def filters missing_pk_change_def
        split: option.split)
qed

text \<open>
  What is stored for a metric is what the next run loads, for every state of the machine and
  for the table list of the missing-key metric, and the rows of other tasks and metrics stay.
\<close>

theorem alert_state_persists:
  "load_metric_state True (snd (persist_metric_state True task metric s d tab)) task metric =
     Inr (Some \<lparr>ms_state = s, ms_detail = d\<rparr>) \<and>
   detail_last_missing (Some (detail_for_missing_pk ts)) = Some ts \<and>
   load_metric_state True (snd (persist_metric_state True task metric s d tab)) task' metric' =
     (if task' = task \<and> metric' = metric then Inr (Some \<lparr>ms_state = s, ms_detail = d\<rparr>)
      else load_metric_state True tab task' metric')"
proof -
  have other: "load_metric_state True (tab(k \<mapsto> r)) t m = load_metric_state True tab t m"
    if "(t, m) \<noteq> k" for k r t m
    using that by (auto simp: load_metric_state_def)
  show ?thesis
    using alert_state_round_trip [OF refl, of task metric s d tab] detail_round_trip [of ts]
    by (auto simp: persist_metric_state_def other)
qed

end
