(* ===== verification/Text_Case.thy ===== *)
theory Text_Case
  imports Rust_Prelude
begin

text \<open>
  \<open>str::to_lowercase\<close>, \<open>str::to_uppercase\<close> and the comparison without case of ASCII letters,
  for characters below U+0100. The upper case of the sharp s is two letters; the two characters
  whose upper case lies above U+00FF are kept.
\<close>

definition to_upper_char :: "char \<Rightarrow> string" where
  "to_upper_char c =
     (if ccode c = 223 then ''SS''
      else if is_ascii_lower c \<or> (224 \<le> ccode c \<and> ccode c \<le> 254 \<and> ccode c \<noteq> 247) then [char_of (ccode c - 32)]
      else [c])"

definition to_uppercase :: "string \<Rightarrow> string" where
  "to_uppercase s = concat (map to_upper_char s)"

definition to_lowercase :: "string \<Rightarrow> string" where
  "to_lowercase s = map to_lower s"

text \<open>\<open>str::eq_ignore_ascii_case\<close>.\<close>

definition eq_ignore_ascii_case :: "string \<Rightarrow> string \<Rightarrow> bool" where
  "eq_ignore_ascii_case a b \<longleftrightarrow> map to_ascii_lower a = map to_ascii_lower b"

lemma to_uppercase_append: "to_uppercase (a @ b) = to_uppercase a @ to_uppercase b"
  by (simp add: to_uppercase_def)

lemma length_to_lowercase [simp]: "length (to_lowercase s) = length s"
  by (simp add: to_lowercase_def)

lemma to_lower_idem [simp]: "to_lower (to_lower c) = to_lower c"
proof -
  have b: "ccode c < 256" by (simp add: ccode_def)
  have "ccode (char_of (ccode c + 32)) = ccode c + 32" if "ccode c \<le> 222"
    using that by (simp add: ccode_def take_bit_eq_mod)
  then show ?thesis by (auto simp: to_lower_def is_ascii_upper_def)
qed

lemma to_lowercase_idem [simp]: "to_lowercase (to_lowercase s) = to_lowercase s"
  by (simp add: to_lowercase_def)

end
