(* ===== verification/Webhook_Delivery.thy ===== *)
theory Webhook_Delivery
  imports Text_Case
begin

text \<open>
  Webhook delivery: \<open>crates/drift/src/notify.rs\<close>, \<open>crates/health_check/src/notify.rs\<close> and
  \<open>crates/data_sync/src/notify.rs\<close>, three copies of one scheme.

  \<open>reqwest\<close> is a parameter: \<open>client\<close> is the result of building a client, \<open>parse_url\<close>
  the host of a parsed URL or the error, \<open>send\<close> what the n-th request gives, a status code or a
  transport error. A run returns its result together with the bodies it sent and the waits between
  them, in seconds. The retry loop has the same text in the three crates and is one definition.
\<close>

section \<open>Model\<close>

datatype notify_error =
    InsecureUrl
  | MalformedUrl string
  | ClientBuild string
  | AllAttemptsFailed nat "nat option" string

record delivery_receipt =
  rc_attempts :: nat
  rc_last_status_code :: "nat option"

datatype body_kind = SlackText | FullPayload

record delivery_trace =
  dt_bodies :: "body_kind list"
  dt_waits :: "nat list"

definition empty_trace :: delivery_trace where
  "empty_trace = \<lparr>dt_bodies = [], dt_waits = []\<rparr>"

definition default_backoffs :: "nat list" where
  "default_backoffs = [1, 4, 16]"

definition is_success_status :: "nat \<Rightarrow> bool" where
  "is_success_status code = (200 \<le> code \<and> code < 300)"

text \<open>\<open>str::split_once\<close> at a text, and the piece of \<open>str::split\<close> before the first separator.\<close>

definition split_once_str :: "string \<Rightarrow> string \<Rightarrow> (string \<times> string) option" where
  "split_once_str p s = map_option (\<lambda>i. (take i s, drop (i + length p) s)) (find_sub p s)"

definition first_piece :: "char \<Rightarrow> string \<Rightarrow> string" where
  "first_piece d s = hd (split_on d s)"

definition is_slack_host :: "string option \<Rightarrow> bool" where
  "is_slack_host host =
     (case host of
        Some h \<Rightarrow> h = ''hooks.slack.com'' \<or> starts_with (rev ''.hooks.slack.com'') (rev h)
      | None \<Rightarrow> False)"

text \<open>
  The attempts from \<open>attempt\<close> on, \<open>left\<close> of them; the wait before an attempt is the entry
  of the schedule for it, or none.
\<close>

fun deliver_attempts ::
  "(nat \<Rightarrow> string + nat) \<Rightarrow> nat list \<Rightarrow> body_kind \<Rightarrow> nat \<Rightarrow> nat \<Rightarrow> nat option \<Rightarrow> string \<Rightarrow>
   delivery_trace \<Rightarrow> (notify_error + delivery_receipt) \<times> delivery_trace" where
  "deliver_attempts send backoffs body attempt 0 last_status last_error tr =
     (Inl (AllAttemptsFailed (length backoffs + 1) last_status last_error), tr)"
| "deliver_attempts send backoffs body attempt (Suc left) last_status last_error tr =
     (let tr = (if 1 < attempt
                then tr\<lparr>dt_waits := dt_waits tr @
                       [if attempt - 2 < length backoffs then backoffs ! (attempt - 2) else 0]\<rparr>
                else tr);
          tr = tr\<lparr>dt_bodies := dt_bodies tr @ [body]\<rparr>
      in case send attempt of
           Inr code \<Rightarrow>
             if is_success_status code
             then (Inr \<lparr>rc_attempts = attempt, rc_last_status_code = Some code\<rparr>, tr)
             else deliver_attempts send backoffs body (attempt + 1) left (Some code)
                    (''HTTP '' @ show_nat code) tr
         | Inl e \<Rightarrow> deliver_attempts send backoffs body (attempt + 1) left None e tr)"

subsection \<open>Drift\<close>

definition drift_extract_host :: "string \<Rightarrow> string" where
  "drift_extract_host authority =
     (if starts_with ''['' authority then first_piece (CHR '']'') (drop 1 authority)
      else first_piece (CHR '':'') authority)"

definition drift_is_loopback_host :: "string \<Rightarrow> bool" where
  "drift_is_loopback_host host =
     (map to_ascii_lower host \<in> {''localhost'', ''127.0.0.1'', ''::1''})"

definition drift_validate_webhook_url :: "string \<Rightarrow> bool \<Rightarrow> notify_error + unit" where
  "drift_validate_webhook_url url dev_mode =
     (case split_once_str ''://'' url of
        None \<Rightarrow> Inl (MalformedUrl url)
      | Some (scheme, rest) \<Rightarrow>
          (let scheme = trim scheme in
           if eq_ignore_ascii_case scheme ''https'' then Inr ()
           else if eq_ignore_ascii_case scheme ''http'' \<and> dev_mode then
             (if drift_is_loopback_host (drift_extract_host (first_piece (CHR ''/'') rest))
              then Inr () else Inl InsecureUrl)
           else Inl InsecureUrl))"

definition drift_deliver ::
  "string + unit \<Rightarrow> (string \<Rightarrow> string + string option) \<Rightarrow> (nat \<Rightarrow> string + nat) \<Rightarrow> string \<Rightarrow> bool \<Rightarrow>
   nat list \<Rightarrow> (notify_error + delivery_receipt) \<times> delivery_trace" where
  "drift_deliver client parse_url send url dev_mode backoffs =
     (case drift_validate_webhook_url url dev_mode of
        Inl e \<Rightarrow> (Inl e, empty_trace)
      | Inr _ \<Rightarrow>
          (case client of
             Inl e \<Rightarrow> (Inl (ClientBuild e), empty_trace)
           | Inr _ \<Rightarrow>
               (case parse_url url of
                  Inl e \<Rightarrow> (Inl (MalformedUrl e), empty_trace)
                | Inr host \<Rightarrow>
                    deliver_attempts send backoffs (if is_slack_host host then SlackText else FullPayload)
                      1 (length backoffs + 1) None [] empty_trace)))"

subsection \<open>Health checks\<close>

definition health_extract_host :: "string \<Rightarrow> string" where
  "health_extract_host authority =
     (if starts_with ''['' authority then first_piece (CHR '']'') (drop 1 authority)
      else first_piece (CHR '':'') authority)"

definition health_is_loopback_host :: "string \<Rightarrow> bool" where
  "health_is_loopback_host host =
     (map to_ascii_lower host \<in> {''localhost'', ''127.0.0.1'', ''::1''})"

definition health_validate_webhook_url :: "string \<Rightarrow> bool \<Rightarrow> notify_error + unit" where
  "health_validate_webhook_url url dev_mode =
     (case split_once_str ''://'' url of
        None \<Rightarrow> Inl (MalformedUrl url)
      | Some (scheme, rest) \<Rightarrow>
          (let scheme = trim scheme in
           if eq_ignore_ascii_case scheme ''https'' then Inr ()
           else if eq_ignore_ascii_case scheme ''http'' \<and> dev_mode then
             (if health_is_loopback_host (health_extract_host (first_piece (CHR ''/'') rest))
              then Inr () else Inl InsecureUrl)
           else Inl InsecureUrl))"

definition health_deliver ::
  "string + unit \<Rightarrow> (string \<Rightarrow> string + string option) \<Rightarrow> (nat \<Rightarrow> string + nat) \<Rightarrow> string \<Rightarrow> bool \<Rightarrow>
   nat list \<Rightarrow> (notify_error + delivery_receipt) \<times> delivery_trace" where
  "health_deliver client parse_url send url dev_mode backoffs =
     (case health_validate_webhook_url url dev_mode of
        Inl e \<Rightarrow> (Inl e, empty_trace)
      | Inr _ \<Rightarrow>
          (case client of
             Inl e \<Rightarrow> (Inl (ClientBuild e), empty_trace)
           | Inr _ \<Rightarrow>
               (case parse_url url of
                  Inl e \<Rightarrow> (Inl (MalformedUrl e), empty_trace)
                | Inr host \<Rightarrow>
                    deliver_attempts send backoffs (if is_slack_host host then SlackText else FullPayload)
                      1 (length backoffs + 1) None [] empty_trace)))"

text \<open>\<open>parse_array\<close> is \<open>serde_json::from_str\<close> at a vector of values.\<close>

definition first_webhook_url :: "(string \<Rightarrow> json list option) \<Rightarrow> string \<Rightarrow> string option" where
  "first_webhook_url parse_array channels =
     (case parse_array channels of
        None \<Rightarrow> None
      | Some [] \<Rightarrow> None
      | Some (first # _) \<Rightarrow>
          (case json_get ''url'' first of None \<Rightarrow> None | Some v \<Rightarrow> json_as_str v))"

subsection \<open>Data sync\<close>

definition sync_extract_host :: "string \<Rightarrow> string" where
  "sync_extract_host authority =
     (if starts_with ''['' authority then first_piece (CHR '']'') (drop 1 authority)
      else first_piece (CHR '':'') authority)"

definition sync_is_loopback_host :: "string \<Rightarrow> bool" where
  "sync_is_loopback_host host =
     (map to_ascii_lower host \<in> {''localhost'', ''127.0.0.1'', ''::1''})"

definition sync_validate_webhook_url :: "string \<Rightarrow> bool \<Rightarrow> notify_error + unit" where
  "sync_validate_webhook_url url dev_mode =
     (case split_once_str ''://'' url of
        None \<Rightarrow> Inl (MalformedUrl url)
      | Some (scheme, rest) \<Rightarrow>
          (let scheme = trim scheme in
           if eq_ignore_ascii_case scheme ''https'' then Inr ()
           else if eq_ignore_ascii_case scheme ''http'' \<and> dev_mode then
             (if sync_is_loopback_host (sync_extract_host (first_piece (CHR ''/'') rest))
              then Inr () else Inl InsecureUrl)
           else Inl InsecureUrl))"

definition sync_deliver ::
  "string + unit \<Rightarrow> (string \<Rightarrow> string + string option) \<Rightarrow> (nat \<Rightarrow> string + nat) \<Rightarrow> string \<Rightarrow> bool \<Rightarrow>
   nat list \<Rightarrow> (notify_error + delivery_receipt) \<times> delivery_trace" where
  "sync_deliver client parse_url send url dev_mode backoffs =
     (case sync_validate_webhook_url url dev_mode of
        Inl e \<Rightarrow> (Inl e, empty_trace)
      | Inr _ \<Rightarrow>
          (case client of
             Inl e \<Rightarrow> (Inl (ClientBuild e), empty_trace)
           | Inr _ \<Rightarrow>
               (case parse_url url of
                  Inl e \<Rightarrow> (Inl (MalformedUrl e), empty_trace)
                | Inr host \<Rightarrow>
                    deliver_attempts send backoffs (if is_slack_host host then SlackText else FullPayload)
                      1 (length backoffs + 1) None [] empty_trace)))"

section \<open>The attempts\<close>

definition attempt_ok :: "(nat \<Rightarrow> string + nat) \<Rightarrow> nat \<Rightarrow> bool" where
  "attempt_ok send n = (case send n of Inl _ \<Rightarrow> False | Inr code \<Rightarrow> is_success_status code)"

definition waits_before :: "nat list \<Rightarrow> nat \<Rightarrow> nat list" where
  "waits_before backoffs n = (if 1 < n then [if n - 2 < length backoffs then backoffs ! (n - 2) else 0] else [])"

text \<open>The trace of the attempts \<open>[a..<b]\<close>.\<close>

definition trace_of :: "nat list \<Rightarrow> body_kind \<Rightarrow> nat \<Rightarrow> nat \<Rightarrow> delivery_trace \<Rightarrow> delivery_trace" where
  "trace_of backoffs body a b tr =
     \<lparr>dt_bodies = dt_bodies tr @ replicate (b - a) body,
      dt_waits = dt_waits tr @ concat (map (waits_before backoffs) [a..<b])\<rparr>"

lemma deliver_attempts_step:
  "deliver_attempts send backoffs body attempt (Suc left) ls le tr =
    (let tr' = trace_of backoffs body attempt (Suc attempt) tr in
     if attempt_ok send attempt
     then (Inr \<lparr>rc_attempts = attempt, rc_last_status_code = Some (projr (send attempt))\<rparr>, tr')
     else deliver_attempts send backoffs body (Suc attempt) left
       (case send attempt of Inl e \<Rightarrow> None | Inr c \<Rightarrow> Some c)
       (case send attempt of Inl e \<Rightarrow> e | Inr c \<Rightarrow> ''HTTP '' @ show_nat c) tr')"
  by (cases tr) (auto simp: trace_of_def waits_before_def attempt_ok_def Let_def split: sum.split)

lemma trace_of_trans:
  "a \<le> b \<Longrightarrow> b \<le> c \<Longrightarrow> trace_of bs body b c (trace_of bs body a b tr) = trace_of bs body a c tr"
proof -
  assume le: "a \<le> b" "b \<le> c"
  then have r: "replicate (c - a) body = replicate (b - a) body @ replicate (c - b) body"
    by (simp add: replicate_add [symmetric])
  have u: "[a..<c] = [a..<b] @ [b..<c]"
    using upt_add_eq_append [of a b "c - b"] le by simp
  show ?thesis
    by (simp only: trace_of_def r u delivery_trace.simps map_append concat_append append_assoc)
qed

text \<open>The first success ends the loop; without one it runs through all its attempts.\<close>

lemma deliver_attempts_first_ok:
  assumes "attempt_ok send k" "\<And>i. a \<le> i \<Longrightarrow> i < k \<Longrightarrow> \<not> attempt_ok send i" "a \<le> k" "k < a + left"
  shows "deliver_attempts send bs body a left ls le tr =
    (Inr \<lparr>rc_attempts = k, rc_last_status_code = Some (projr (send k))\<rparr>, trace_of bs body a (Suc k) tr)"
  using assms
proof (induction left arbitrary: a ls le tr)
  case (Suc left)
  show ?case
  proof (cases "a = k")
    case True
    then show ?thesis using Suc.prems(1) by (simp only: deliver_attempts_step Let_def if_True)
  next
    case False
    with Suc.prems have "\<not> attempt_ok send a" "Suc a \<le> k" by auto
    then show ?thesis
      using Suc.IH [of "Suc a"] Suc.prems
      by (simp only: deliver_attempts_step Let_def if_False) (simp add: trace_of_trans)
  qed
qed simp

lemma deliver_attempts_none_ok:
  assumes "\<And>i. a \<le> i \<Longrightarrow> i < a + left \<Longrightarrow> \<not> attempt_ok send i"
  shows "\<exists>ls' le'. deliver_attempts send bs body a left ls le tr =
    (Inl (AllAttemptsFailed (length bs + 1) ls' le'), trace_of bs body a (a + left) tr)"
  using assms
proof (induction left arbitrary: a ls le tr)
  case 0
  show ?case by (simp add: trace_of_def)
next
  case (Suc left)
  from Suc.prems [of a] have no: "\<not> attempt_ok send a" by simp
  have "\<exists>ls' le'. deliver_attempts send bs body (Suc a) left l e (trace_of bs body a (Suc a) tr) =
      (Inl (AllAttemptsFailed (length bs + 1) ls' le'),
       trace_of bs body (Suc a) (Suc a + left) (trace_of bs body a (Suc a) tr))" for l e
    using Suc.prems by (intro Suc.IH) simp
  then show ?case
    using no by (simp only: deliver_attempts_step Let_def if_False) (simp add: trace_of_trans)
qed

section \<open>The interface\<close>

text \<open>
  A sender validates first, and sends only to a URL that passed; then it makes the attempts of its
  schedule.
\<close>

locale webhook_sender =
  fixes validate :: "string \<Rightarrow> bool \<Rightarrow> notify_error + unit"
    and deliver :: "string + unit \<Rightarrow> (string \<Rightarrow> string + string option) \<Rightarrow> (nat \<Rightarrow> string + nat) \<Rightarrow>
      string \<Rightarrow> bool \<Rightarrow> nat list \<Rightarrow> (notify_error + delivery_receipt) \<times> delivery_trace"
  assumes invalid: "validate url dev = Inl e \<Longrightarrow>
      deliver client parse_url send url dev bs = (Inl e, empty_trace)"
    and unsendable: "validate url dev = Inr () \<Longrightarrow> (\<exists>e. client = Inl e) \<or> (\<exists>e. parse_url url = Inl e) \<Longrightarrow>
      \<exists>e. deliver client parse_url send url dev bs = (Inl e, empty_trace)"
    and attempts: "validate url dev = Inr () \<Longrightarrow> client = Inr () \<Longrightarrow> parse_url url = Inr host \<Longrightarrow>
      deliver client parse_url send url dev bs =
        deliver_attempts send bs (if is_slack_host host then SlackText else FullPayload) 1
          (length bs + 1) None [] empty_trace"
begin

text \<open>At most one request more than the schedule has waits.\<close>

lemma bodies_bounded: "length (dt_bodies (snd (deliver client parse_url send url dev bs))) \<le> length bs + 1"
proof (cases "validate url dev")
  case (Inl e)
  then show ?thesis by (simp add: invalid empty_trace_def)
next
  case (Inr u)
  then have ok: "validate url dev = Inr ()" by simp
  show ?thesis
  proof (cases client)
    case (Inl e)
    then obtain e' where "deliver client parse_url send url dev bs = (Inl e', empty_trace)"
      using unsendable [OF ok] by blast
    then show ?thesis by (simp add: empty_trace_def)
  next
    case (Inr u)
    then have cl: "client = Inr ()" by simp
    show ?thesis
    proof (cases "parse_url url")
      case (Inl e)
      then obtain e' where "deliver client parse_url send url dev bs = (Inl e', empty_trace)"
        using unsendable [OF ok] by blast
      then show ?thesis by (simp add: empty_trace_def)
    next
      case (Inr host)
      note run = attempts [where parse_url = parse_url and send = send and bs = bs, OF ok cl Inr]
      show ?thesis
      proof (cases "\<exists>i. 1 \<le> i \<and> i < 1 + (length bs + 1) \<and> attempt_ok send i")
        case True
        define k where "k = (LEAST i. 1 \<le> i \<and> i < 1 + (length bs + 1) \<and> attempt_ok send i)"
        have "1 \<le> k \<and> k < 1 + (length bs + 1) \<and> attempt_ok send k"
          unfolding k_def using True by (rule LeastI_ex)
        moreover have "\<not> attempt_ok send i" if "1 \<le> i" "i < k" for i
          using not_less_Least [of i] that \<open>1 \<le> k \<and> _\<close> unfolding k_def by fastforce
        ultimately show ?thesis
          unfolding run by (subst deliver_attempts_first_ok [of send k]) (auto simp: trace_of_def empty_trace_def)
      next
        case False
        then obtain ls le where "deliver client parse_url send url dev bs =
            (Inl (AllAttemptsFailed (length bs + 1) ls le),
             trace_of bs (if is_slack_host host then SlackText else FullPayload) 1 (1 + (length bs + 1)) empty_trace)"
          unfolding run using deliver_attempts_none_ok [of 1 "length bs + 1" send] by blast
        then show ?thesis by (simp add: trace_of_def empty_trace_def)
      qed
    qed
  qed
qed

text \<open>A delivery that succeeds does so at the first successful attempt, after the waits before it.\<close>

lemma delivered_first_ok:
  assumes "validate url dev = Inr ()" "client = Inr ()" "parse_url url = Inr host"
    and "attempt_ok send k" "\<And>i. 1 \<le> i \<Longrightarrow> i < k \<Longrightarrow> \<not> attempt_ok send i" "1 \<le> k" "k \<le> length bs + 1"
  shows "\<exists>tr. deliver client parse_url send url dev bs =
      (Inr \<lparr>rc_attempts = k, rc_last_status_code = Some (projr (send k))\<rparr>, tr) \<and>
    length (dt_bodies tr) = k \<and> dt_waits tr = take (k - 1) bs"
proof -
  have waits: "concat (map (waits_before bs) [1..<Suc k]) = take (k - 1) bs" if "k \<le> length bs + 1" for k
    using that
  proof (induction k)
    case (Suc k)
    then show ?case by (cases k) (simp_all add: waits_before_def take_Suc_conv_app_nth)
  qed simp
  show ?thesis
    unfolding attempts [where parse_url = parse_url, OF assms(1-3)]
    by (subst deliver_attempts_first_ok [of send k])
      (use assms waits [OF assms(7)] in \<open>auto simp: trace_of_def empty_trace_def simp del: upt_Suc\<close>)
qed

end

interpretation drift: webhook_sender drift_validate_webhook_url drift_deliver
  by unfold_locales (auto simp: drift_deliver_def split: sum.splits)

interpretation health: webhook_sender health_validate_webhook_url health_deliver
  by unfold_locales (auto simp: health_deliver_def split: sum.splits)

interpretation sync: webhook_sender sync_validate_webhook_url sync_deliver
  by unfold_locales (auto simp: sync_deliver_def split: sum.splits)

section \<open>Properties\<close>

definition has_scheme :: "string \<Rightarrow> string \<Rightarrow> bool" where
  "has_scheme scheme url =
     (case split_once_str ''://'' url of
       None \<Rightarrow> False
     | Some (s, rest) \<Rightarrow> eq_ignore_ascii_case (trim s) scheme)"

lemma validate_production:
  "drift_validate_webhook_url url False = Inr () \<longleftrightarrow> has_scheme ''https'' url"
  "health_validate_webhook_url url False = Inr () \<longleftrightarrow> has_scheme ''https'' url"
  "sync_validate_webhook_url url False = Inr () \<longleftrightarrow> has_scheme ''https'' url"
  by (auto simp: drift_validate_webhook_url_def health_validate_webhook_url_def
      sync_validate_webhook_url_def has_scheme_def Let_def split: option.splits)

text \<open>
  Outside development mode none of the three senders makes a request to a URL that is not
  https: such a URL ends with an error, no body sent and no wait made.
\<close>

theorem production_sends_https_only:
  assumes "\<not> has_scheme ''https'' url"
  shows "(\<exists>e. drift_deliver client parse_url send url False bs = (Inl e, empty_trace)) \<and>
    (\<exists>e. health_deliver client parse_url send url False bs = (Inl e, empty_trace)) \<and>
    (\<exists>e. sync_deliver client parse_url send url False bs = (Inl e, empty_trace))"
proof -
  have err: "\<exists>e. v = Inl e" if "v \<noteq> Inr ()" for v :: "notify_error + unit"
    using that by (cases v) auto
  show ?thesis
    using err validate_production [of url] assms drift.invalid [of url False]
      health.invalid [of url False] sync.invalid [of url False]
    by metis
qed

theorem production_sends_https_only_witness:
  "\<exists>e. sync_deliver (Inr ()) (\<lambda>_. Inr None) (\<lambda>_. Inr 200) ''http://example.org/hook'' False default_backoffs
     = (Inl e, empty_trace)"
proof -
  have "\<not> has_scheme ''https'' ''http://example.org/hook''" by code_simp
  then show ?thesis using production_sends_https_only by blast
qed

text \<open>
  A delivery reports success at the first attempt the receiver answers with a 2xx status, after
  exactly the scheduled waits before it, and sends nothing more (the default schedule, for the
  three senders).
\<close>

theorem deliver_stops_at_first_success:
  assumes "has_scheme ''https'' url" "parse_url url = Inr host"
    and "attempt_ok send k" "\<And>i. 1 \<le> i \<Longrightarrow> i < k \<Longrightarrow> \<not> attempt_ok send i" "1 \<le> k" "k \<le> 4"
  shows "\<forall>deliver \<in> {drift_deliver, health_deliver, sync_deliver}.
    \<exists>tr. deliver (Inr ()) parse_url send url False default_backoffs =
      (Inr \<lparr>rc_attempts = k, rc_last_status_code = Some (projr (send k))\<rparr>, tr) \<and>
    length (dt_bodies tr) = k \<and> dt_waits tr = take (k - 1) [1, 4, 16]"
proof -
  have k: "k \<le> length default_backoffs + 1" using assms(6) by (simp add: default_backoffs_def)
  have v: "drift_validate_webhook_url url False = Inr ()" "health_validate_webhook_url url False = Inr ()"
    "sync_validate_webhook_url url False = Inr ()"
    using assms(1) validate_production by auto
  show ?thesis
    using drift.delivered_first_ok [where parse_url = parse_url and client = "Inr ()", OF v(1) refl assms(2-5) k]
      health.delivered_first_ok [where parse_url = parse_url and client = "Inr ()", OF v(2) refl assms(2-5) k]
      sync.delivered_first_ok [where parse_url = parse_url and client = "Inr ()", OF v(3) refl assms(2-5) k]
    by (simp add: default_backoffs_def)
qed

theorem deliver_stops_at_first_success_witness:
  "\<exists>tr. health_deliver (Inr ()) (\<lambda>_. Inr (Some ''example.org''))
      (\<lambda>n. if n = 1 then Inl ''timed out'' else Inr 204) ''https://example.org/hook'' False default_backoffs =
    (Inr \<lparr>rc_attempts = 2, rc_last_status_code = Some 204\<rparr>, tr) \<and> dt_waits tr = [1]"
proof -
  have s: "has_scheme ''https'' ''https://example.org/hook''"
    by code_simp
  let ?send = "\<lambda>n :: nat. if n = 1 then Inl ''timed out'' else Inr (204 :: nat)"
  have ok: "attempt_ok ?send 2" "\<And>i. 1 \<le> i \<Longrightarrow> i < 2 \<Longrightarrow> \<not> attempt_ok ?send i"
    by (auto simp: attempt_ok_def is_success_status_def)
  show ?thesis
    using deliver_stops_at_first_success
      [where parse_url = "\<lambda>_. Inr (Some ''example.org'')", OF s refl ok] by auto
qed

text \<open>
  No delivery makes more than four requests, whatever the receiver answers.
\<close>

theorem deliver_bounded:
  "length (dt_bodies (snd (drift_deliver client parse_url send url dev default_backoffs))) \<le> 4 \<and>
   length (dt_bodies (snd (health_deliver client parse_url send url dev default_backoffs))) \<le> 4 \<and>
   length (dt_bodies (snd (sync_deliver client parse_url send url dev default_backoffs))) \<le> 4"
  using drift.bodies_bounded [of client parse_url send url dev default_backoffs]
    health.bodies_bounded [of client parse_url send url dev default_backoffs]
    sync.bodies_bounded [of client parse_url send url dev default_backoffs]
  by (simp add: default_backoffs_def)

text \<open>
  In development mode the loopback test reads the authority up to its first colon, so user
  information that looks like the local host lets a URL of another host pass.
\<close>

lemma validate_accepts_userinfo:
  "health_validate_webhook_url ''http://localhost:x@evil.example/hook'' True = Inr ()"
  by code_simp

end
