(* ===== verification/Health_Runner.thy ===== *)
theory Health_Runner
  imports Health_Alert Audit_Trail Webhook_Delivery
begin

text \<open>
  Collection and the run of a health check: \<open>crates/health_check/src/collector.rs\<close> and
  \<open>crates/health_check/src/runner.rs\<close>.

  What the checked database answers to each statement is the record \<open>source_db\<close>; which
  statements on the server's own database fail, what decrypting gives, the times and the webhook
  receiver are the record \<open>run_io\<close>. \<open>health_db\<close> is the part of the server's database that a
  run reads and changes. The rendering of snapshots and changes as JSON texts in
  \<open>health_check_results\<close> is left out: a result row keeps the values.
\<close>

section \<open>Collection\<close>

record source_db =
  sd_connect :: "string + unit"
  sd_canary :: "string + unit"
  sd_ping :: "string + nat"
  sd_top_tables :: "string + (string \<times> int option) list"
  sd_missing_pk :: "string + string list"
  sd_mysql_status :: "string + string"
  sd_pg_activity :: "string + int"

record metrics_snapshot =
  mt_connectivity :: connectivity_result
  mt_row_count :: "(string \<times> nat) list option"
  mt_missing_pk :: "string list option"
  mt_connection_count :: "nat option"
  mt_db_type :: string
  mt_unsupported :: "(string \<times> string) list"

definition measure_connectivity :: "source_db \<Rightarrow> connectivity_result" where
  "measure_connectivity src =
     (case sd_ping src of
        Inr ms \<Rightarrow> \<lparr>cr_ok = True, cr_latency_ms = ms, cr_error = None\<rparr>
      | Inl e \<Rightarrow> \<lparr>cr_ok = False, cr_latency_ms = 0, cr_error = Some (collector_redact_error e)\<rparr>)"

definition row_estimates :: "(string \<times> int option) list \<Rightarrow> (string \<times> nat) list" where
  "row_estimates rows = map (\<lambda>(n, r). (n, nat (case r of None \<Rightarrow> 0 | Some i \<Rightarrow> max i 0))) rows"

definition collect_top_tables :: "source_db \<Rightarrow> string + (string \<times> nat) list" where
  "collect_top_tables src = map_sum id row_estimates (sd_top_tables src)"

text \<open>The display of \<open>ParseIntError\<close>.\<close>

definition u64_max :: nat where
  "u64_max = 18446744073709551615"

definition parse_int_error :: "string \<Rightarrow> string" where
  "parse_int_error s =
     (let ds = (case s of c # cs \<Rightarrow> if c = CHR ''+'' then cs else s | [] \<Rightarrow> s)
      in if s = [] then ''cannot parse integer from empty string''
         else if ds \<noteq> [] \<and> list_all is_ascii_digit ds then ''number too large to fit in target type''
         else ''invalid digit found in string'')"

definition collect_mysql_connection_count :: "source_db \<Rightarrow> string + nat" where
  "collect_mysql_connection_count src =
     (case sd_mysql_status src of
        Inl e \<Rightarrow> Inl e
      | Inr v \<Rightarrow> ok_or (parse_int_error v) (parse_unsigned u64_max v))"

definition collect_pg_connection_count :: "source_db \<Rightarrow> string + nat" where
  "collect_pg_connection_count src = map_sum id (\<lambda>c. nat (max c 0)) (sd_pg_activity src)"

text \<open>One metric of a snapshot: switched off, collected, or recorded as unsupported.\<close>

definition collect_metric :: "bool \<Rightarrow> string \<Rightarrow> string + 'a \<Rightarrow> 'a option \<times> (string \<times> string) list" where
  "collect_metric enabled metric r =
     (if enabled then
        (case r of Inr x \<Rightarrow> (Some x, []) | Inl e \<Rightarrow> (None, [(metric, collector_redact_error e)]))
      else (None, []))"

definition collect_mysql :: "source_db \<Rightarrow> metric_flags \<Rightarrow> metrics_snapshot" where
  "collect_mysql src flags =
     (let (rows, u1) = collect_metric (mf_row_count flags) ''row_count'' (collect_top_tables src);
          (pks, u2) = collect_metric (mf_missing_pk flags) ''missing_pk'' (sd_missing_pk src);
          (conns, u3) = collect_metric (mf_connection_count flags) ''connection_count''
            (collect_mysql_connection_count src)
      in \<lparr>mt_connectivity = measure_connectivity src, mt_row_count = rows, mt_missing_pk = pks,
          mt_connection_count = conns, mt_db_type = ''mysql'', mt_unsupported = u1 @ u2 @ u3\<rparr>)"

definition collect_postgres :: "source_db \<Rightarrow> metric_flags \<Rightarrow> metrics_snapshot" where
  "collect_postgres src flags =
     (let (rows, u1) = collect_metric (mf_row_count flags) ''row_count'' (collect_top_tables src);
          (pks, u2) = collect_metric (mf_missing_pk flags) ''missing_pk'' (sd_missing_pk src);
          (conns, u3) = collect_metric (mf_connection_count flags) ''connection_count''
            (collect_pg_connection_count src)
      in \<lparr>mt_connectivity = measure_connectivity src, mt_row_count = rows, mt_missing_pk = pks,
          mt_connection_count = conns, mt_db_type = ''postgres'', mt_unsupported = u1 @ u2 @ u3\<rparr>)"

definition connectivity_only_snapshot ::
  "string \<Rightarrow> connectivity_result \<Rightarrow> metric_flags \<Rightarrow> metrics_snapshot" where
  "connectivity_only_snapshot db_type connectivity flags =
     \<lparr>mt_connectivity = connectivity, mt_row_count = None, mt_missing_pk = None,
      mt_connection_count = None, mt_db_type = db_type,
      mt_unsupported =
        (if mf_row_count flags then [(''row_count'', ''unsupported_db_type'')] else []) @
        (if mf_missing_pk flags then [(''missing_pk'', ''unsupported_db_type'')] else []) @
        (if mf_connection_count flags then [(''connection_count'', ''unsupported_db_type'')] else [])\<rparr>"

definition count_collected :: "metrics_snapshot \<Rightarrow> nat" where
  "count_collected s =
     1 + (if mt_row_count s \<noteq> None then 1 else 0) + (if mt_missing_pk s \<noteq> None then 1 else 0) +
     (if mt_connection_count s \<noteq> None then 1 else 0)"

section \<open>Evaluation\<close>

text \<open>\<open>.ok().flatten()\<close>.\<close>

definition loaded :: "string + metric_state_row option \<Rightarrow> metric_state_row option" where
  "loaded r = (case r of Inl _ \<Rightarrow> None | Inr x \<Rightarrow> x)"

text \<open>Load a metric's state, evaluate, store the new state without a detail.\<close>

definition threshold_step ::
  "(string \<Rightarrow> bool) \<Rightarrow> (string \<Rightarrow> bool) \<Rightarrow> string \<Rightarrow> string \<Rightarrow>
   (alert_state option \<Rightarrow> alert_state \<times> alert_change option) \<Rightarrow> alert_table \<Rightarrow>
   alert_change list \<times> alert_table" where
  "threshold_step read_ok write_ok task_id metric eval tab =
     (let prior = loaded (load_metric_state (read_ok metric) tab task_id metric);
          (new_state, change) = eval (map_option ms_state prior);
          tab' = snd (persist_metric_state (write_ok metric) task_id metric new_state None tab)
      in (case change of None \<Rightarrow> [] | Some c \<Rightarrow> [c], tab'))"

definition missing_pk_step ::
  "(string \<Rightarrow> bool) \<Rightarrow> (string \<Rightarrow> bool) \<Rightarrow> string \<Rightarrow> string list \<Rightarrow> alert_table \<Rightarrow>
   alert_change list \<times> alert_table" where
  "missing_pk_step read_ok write_ok task_id tables tab =
     (let prior = loaded (load_metric_state (read_ok ''missing_pk'') tab task_id ''missing_pk'');
          prior_tables = (case prior of None \<Rightarrow> None | Some r \<Rightarrow> detail_last_missing (ms_detail r));
          (persisted_set, pk_changes) = evaluate_missing_pk prior_tables tables;
          tab' = snd (persist_metric_state (write_ok ''missing_pk'') task_id ''missing_pk'' AsOk
                   (Some (detail_for_missing_pk persisted_set)) tab)
      in (pk_changes, tab'))"

text \<open>A metric that was not collected is not evaluated.\<close>

definition if_collected ::
  "'a option \<Rightarrow> ('a \<Rightarrow> alert_table \<Rightarrow> alert_change list \<times> alert_table) \<Rightarrow> alert_table \<Rightarrow>
   alert_change list \<times> alert_table" where
  "if_collected x step tab = (case x of None \<Rightarrow> ([], tab) | Some v \<Rightarrow> step v tab)"

definition evaluate_all ::
  "(string \<Rightarrow> bool) \<Rightarrow> (string \<Rightarrow> bool) \<Rightarrow> string \<Rightarrow> metrics_snapshot \<Rightarrow> health_config \<Rightarrow> alert_table \<Rightarrow>
   alert_change list \<times> alert_table" where
  "evaluate_all read_ok write_ok task_id snapshot config tab =
     (let (c1, tab) = threshold_step read_ok write_ok task_id ''connectivity''
            (\<lambda>prior. evaluate_connectivity prior (mt_connectivity snapshot) (hc_fail_threshold config)) tab;
          (c2, tab) = if_collected (mt_row_count snapshot) (\<lambda>stats.
            threshold_step read_ok write_ok task_id ''row_count''
              (\<lambda>prior. evaluate_row_count prior stats (hc_large_table_threshold config)
                 (hc_fail_threshold config))) tab;
          (c3, tab) = if_collected (mt_connection_count snapshot) (\<lambda>count.
            threshold_step read_ok write_ok task_id ''connection_count''
              (\<lambda>prior. evaluate_connection_count prior (Some count)
                 (hc_connection_count_threshold config) (hc_fail_threshold config))) tab;
          (c4, tab) = if_collected (mt_missing_pk snapshot) (missing_pk_step read_ok write_ok task_id) tab
      in (c1 @ c2 @ c3 @ c4, tab))"

section \<open>The run\<close>

record health_task =
  ht_name :: string
  ht_config :: string
  ht_source_db_id :: string
  ht_notify_channels :: string

record health_connection =
  cn_id :: string
  cn_db_type :: string
  cn_kind :: string

record result_row =
  rr_task_id :: string
  rr_started_at :: string
  rr_status :: string
  rr_snapshot :: "metrics_snapshot option"
  rr_changes :: "alert_change list"
  rr_triggered_by :: string
  rr_error :: "string option"

record history_row =
  hr_id :: string
  hr_task_id :: string
  hr_status :: string
  hr_error :: "string option"

record health_db =
  hd_tasks :: "string \<rightharpoonup> health_task"
  hd_connections :: "string \<rightharpoonup> health_connection"
  hd_alerts :: alert_table
  hd_audit :: "audit_row list"
  hd_results :: "result_row list"
  hd_history :: "history_row list"
  hd_last_status :: "string \<rightharpoonup> string"

record run_io =
  ri_run_id :: string
  ri_now :: string
  ri_rotate_before :: string
  ri_history_ok :: bool
  ri_close_ok :: bool
  ri_task_ok :: bool
  ri_connection_ok :: bool
  ri_read_ok :: "string \<Rightarrow> bool"
  ri_write_ok :: "string \<Rightarrow> bool"
  ri_result_ok :: bool
  ri_rotate_ok :: bool
  ri_status_ok :: bool
  ri_audit :: audit_io
  ri_decrypt :: "string + string"
  ri_parse_config :: "string \<Rightarrow> health_config option"
  ri_parse_channels :: "string \<Rightarrow> json list option"
  ri_deliver :: "string \<Rightarrow> alert_change \<Rightarrow> notify_error + delivery_receipt"

record run_outcome =
  ro_status :: string
  ro_metrics_collected :: nat
  ro_alert_changes :: nat
  ro_webhook_status :: string

definition run_canary_mysql :: "source_db \<Rightarrow> string + unit" where
  "run_canary_mysql src =
     (case sd_canary src of
        Inr _ \<Rightarrow> Inl ''source account is writable; refusing to run health_check''
      | Inl e \<Rightarrow>
          (let s = map to_lower e in
           if contains_sub ''access denied'' s \<or> contains_sub ''permission'' s \<or>
              contains_sub ''create'' s \<or> contains_sub ''privilege'' s
           then Inr () else Inl (''canary probe failed: '' @ redact_sqlx_err s)))"

definition run_canary_pg :: "source_db \<Rightarrow> string + unit" where
  "run_canary_pg src =
     (case sd_canary src of
        Inr _ \<Rightarrow> Inl ''source account is writable; refusing to run health_check''
      | Inl e \<Rightarrow>
          (let s = map to_lower e in
           if contains_sub ''permission'' s \<or> contains_sub ''privilege'' s
           then Inr () else Inl (''canary probe failed: '' @ redact_sqlx_err s)))"

text \<open>Steps 4 to 6: open the source, probe its account, collect, evaluate.\<close>

definition probe_source ::
  "string \<Rightarrow> (source_db \<Rightarrow> string + unit) \<Rightarrow> health_connection \<Rightarrow> source_db \<Rightarrow> string + unit" where
  "probe_source flavor canary conn src =
     (case sd_connect src of
        Inl e \<Rightarrow> Inl (flavor @ '' connect failed: '' @ e)
      | Inr _ \<Rightarrow> if cn_kind conn = ''source_drift'' then canary src else Inr ())"

definition collect_and_evaluate ::
  "run_io \<Rightarrow> string \<Rightarrow> health_connection \<Rightarrow> source_db \<Rightarrow> health_config \<Rightarrow> alert_table \<Rightarrow>
   (string + metrics_snapshot \<times> alert_change list) \<times> alert_table" where
  "collect_and_evaluate io task_id conn src config tab =
     (if cn_db_type conn = ''mysql'' then
        (case probe_source ''mysql'' run_canary_mysql conn src of
           Inl e \<Rightarrow> (Inl e, tab)
         | Inr _ \<Rightarrow>
             (let snap = collect_mysql src (hc_metrics config);
                  (changes, tab') = evaluate_all (ri_read_ok io) (ri_write_ok io) task_id snap config tab
              in (Inr (snap, changes), tab')))
      else if cn_db_type conn = ''postgres'' then
        (case probe_source ''postgres'' run_canary_pg conn src of
           Inl e \<Rightarrow> (Inl e, tab)
         | Inr _ \<Rightarrow>
             (let snap = collect_postgres src (hc_metrics config);
                  (changes, tab') = evaluate_all (ri_read_ok io) (ri_write_ok io) task_id snap config tab
              in (Inr (snap, changes), tab')))
      else
        (Inr (connectivity_only_snapshot (cn_db_type conn)
               \<lparr>cr_ok = False, cr_latency_ms = 0,
                cr_error = Some (''unsupported db_type: '' @ cn_db_type conn)\<rparr> (hc_metrics config), []),
         tab))"

definition webhook_outcome :: "run_io \<Rightarrow> health_task \<Rightarrow> alert_change list \<Rightarrow> string" where
  "webhook_outcome io task changes =
     (if changes = [] then ''skipped''
      else case first_webhook_url (ri_parse_channels io) (ht_notify_channels task) of
        None \<Rightarrow> ''skipped''
      | Some url \<Rightarrow>
          if list_ex (\<lambda>c. case ri_deliver io url c of Inl _ \<Rightarrow> True | Inr _ \<Rightarrow> False) changes
          then ''failed'' else ''ok'')"

definition rotate_results :: "run_io \<Rightarrow> string \<Rightarrow> result_row list \<Rightarrow> result_row list" where
  "rotate_results io task_id rows =
     (if ri_rotate_ok io
      then filter (\<lambda>r. \<not> (rr_task_id r = task_id \<and> rr_started_at r < ri_rotate_before io)) rows
      else rows)"

definition audit_decrypt :: "run_io \<Rightarrow> string \<Rightarrow> string \<Rightarrow> health_db \<Rightarrow> health_db" where
  "audit_decrypt io conn_id triggered_by db =
     (case ri_decrypt io of
        Inr _ \<Rightarrow>
          db\<lparr>hd_audit := record_credential_access (ri_audit io) conn_id ''ok'' None triggered_by (hd_audit db)\<rparr>
      | Inl _ \<Rightarrow>
          db\<lparr>hd_audit := record_credential_access (ri_audit io) conn_id ''error''
               (Some ''credential decrypt failed'') triggered_by (hd_audit db)\<rparr>)"

definition run_task_inner ::
  "run_io \<Rightarrow> (string \<Rightarrow> source_db) \<Rightarrow> string \<Rightarrow> string \<Rightarrow> health_db \<Rightarrow> (string + run_outcome) \<times> health_db" where
  "run_task_inner io sources task_id triggered_by db =
     (if \<not> ri_task_ok io then (Inl ''fetch scheduled_task'', db)
      else case hd_tasks db task_id of
        None \<Rightarrow> (Inl (''task '' @ task_id @ '' not found''), db)
      | Some task \<Rightarrow>
          if \<not> ri_connection_ok io then (Inl ''fetch source connection'', db)
          else case hd_connections db (ht_source_db_id task) of
            None \<Rightarrow> (Inl (''source connection '' @ ht_source_db_id task @ '' not found''), db)
          | Some conn \<Rightarrow>
              (let config = from_json_or_default (ri_parse_config io) (ht_config task);
                   db = audit_decrypt io (cn_id conn) triggered_by db
               in case ri_decrypt io of
                    Inl e \<Rightarrow> (Inl (''credential decrypt failed: '' @ e), db)
                  | Inr _ \<Rightarrow>
                      (let (r, alerts) = collect_and_evaluate io task_id conn (sources (cn_id conn)) config
                             (hd_alerts db);
                           db = db\<lparr>hd_alerts := alerts\<rparr>
                       in case r of
                            Inl e \<Rightarrow> (Inl e, db)
                          | Inr (snap, changes) \<Rightarrow>
                              (let webhook_status = webhook_outcome io task changes;
                                   run_status = (if mt_unsupported snap = [] then ''success'' else ''partial'');
                                   row = \<lparr>rr_task_id = task_id, rr_started_at = ri_now io,
                                     rr_status = run_status, rr_snapshot = Some snap,
                                     rr_changes = changes, rr_triggered_by = triggered_by, rr_error = None\<rparr>
                               in if \<not> ri_result_ok io then (Inl ''insert health_check_results row'', db)
                                  else
                                    (Inr \<lparr>ro_status = run_status, ro_metrics_collected = count_collected snap,
                                       ro_alert_changes = length changes, ro_webhook_status = webhook_status\<rparr>,
                                     db\<lparr>hd_results := rotate_results io task_id (hd_results db @ [row])\<rparr>)))))"

definition close_history :: "run_io \<Rightarrow> string \<Rightarrow> string option \<Rightarrow> health_db \<Rightarrow> health_db" where
  "close_history io status err db =
     (if ri_close_ok io
      then db\<lparr>hd_history := map (\<lambda>h. if hr_id h = ri_run_id io
             then h\<lparr>hr_status := status, hr_error := err\<rparr> else h) (hd_history db)\<rparr>
      else db)"

definition insert_failed_result :: "run_io \<Rightarrow> string \<Rightarrow> string \<Rightarrow> string \<Rightarrow> health_db \<Rightarrow> health_db" where
  "insert_failed_result io task_id redacted triggered_by db =
     (if ri_result_ok io \<and> hd_tasks db task_id \<noteq> None
      then db\<lparr>hd_results := hd_results db @
             [\<lparr>rr_task_id = task_id, rr_started_at = ri_now io, rr_status = ''failed'', rr_snapshot = None,
               rr_changes = [], rr_triggered_by = triggered_by, rr_error = Some redacted\<rparr>]\<rparr>
      else db)"

definition update_task_status :: "run_io \<Rightarrow> string \<Rightarrow> string \<Rightarrow> health_db \<Rightarrow> health_db" where
  "update_task_status io task_id status db =
     (if ri_status_ok io \<and> hd_tasks db task_id \<noteq> None
      then db\<lparr>hd_last_status := (hd_last_status db)(task_id \<mapsto> status)\<rparr> else db)"

definition run_task ::
  "run_io \<Rightarrow> (string \<Rightarrow> source_db) \<Rightarrow> string \<Rightarrow> string \<Rightarrow> health_db \<Rightarrow> (string + run_outcome) \<times> health_db" where
  "run_task io sources task_id triggered_by db =
     (if \<not> ri_history_ok io then (Inl ''insert task_run_history running row'', db)
      else
        (let db = db\<lparr>hd_history := hd_history db @
               [\<lparr>hr_id = ri_run_id io, hr_task_id = task_id, hr_status = ''running'', hr_error = None\<rparr>]\<rparr>;
             (outcome, db) = run_task_inner io sources task_id triggered_by db
         in case outcome of
              Inr o' \<Rightarrow>
                (outcome, update_task_status io task_id ''succeeded'' (close_history io ''succeeded'' None db))
            | Inl e \<Rightarrow>
                (let redacted = health_redact_error e
                 in (outcome,
                     update_task_status io task_id ''failed''
                       (insert_failed_result io task_id redacted triggered_by
                         (close_history io ''failed'' (Some redacted) db))))))"

section \<open>Failed runs\<close>

lemma audit_decrypt_frame [simp]:
  "hd_results (audit_decrypt io c t db) = hd_results db" "hd_tasks (audit_decrypt io c t db) = hd_tasks db"
  "hd_alerts (audit_decrypt io c t db) = hd_alerts db" "hd_history (audit_decrypt io c t db) = hd_history db"
  by (simp_all add: audit_decrypt_def split: sum.split)

lemma run_task_inner_failed:
  assumes "run_task_inner io sources task_id trig db = (Inl e, db')"
  shows "hd_results db' = hd_results db" "hd_tasks db' = hd_tasks db" "hd_history db' = hd_history db"
proof -
  have "hd_results db' = hd_results db \<and> hd_tasks db' = hd_tasks db \<and> hd_history db' = hd_history db"
    using assms by (auto simp: run_task_inner_def Let_def split: if_splits option.splits sum.splits prod.splits)
  then show "hd_results db' = hd_results db" "hd_tasks db' = hd_tasks db" "hd_history db' = hd_history db"
    by auto
qed

lemma inner_tasks_kept: "hd_tasks (snd (run_task_inner io sources task_id trig db)) = hd_tasks db"
  by (simp add: run_task_inner_def Let_def split: option.split sum.split prod.split)

lemma close_history_frame [simp]:
  "hd_results (close_history io s e db) = hd_results db" "hd_tasks (close_history io s e db) = hd_tasks db"
  "hd_alerts (close_history io s e db) = hd_alerts db"
  by (simp_all add: close_history_def)

lemma update_task_status_frame [simp]:
  "hd_results (update_task_status io t s db) = hd_results db"
  "hd_alerts (update_task_status io t s db) = hd_alerts db"
  by (simp_all add: update_task_status_def)

lemma insert_failed_result_alerts [simp]: "hd_alerts (insert_failed_result io t r trig db) = hd_alerts db"
  by (simp add: insert_failed_result_def)

lemma health_redact_error_short: "length (health_redact_error e) \<le> 300 \<and> newline \<notin> set (health_redact_error e)"
  using health_audit.summ_bound health_audit.summ_line by blast

text \<open>
  C26. A run that fails after its history row was opened is visible: exactly one result row is added
  for the task, with status failed, no metrics and no changes, and an error of one line and at most
  300 characters (the task exists and the insert succeeds).
\<close>

theorem failed_run_visible:
  assumes "run_task io sources task_id trig db = (Inl e, db')"
    and "ri_history_ok io" "ri_result_ok io" "hd_tasks db task_id \<noteq> None"
  shows "\<exists>err. hd_results db' = hd_results db @
      [\<lparr>rr_task_id = task_id, rr_started_at = ri_now io, rr_status = ''failed'', rr_snapshot = None,
        rr_changes = [], rr_triggered_by = trig, rr_error = Some err\<rparr>] \<and>
    length err \<le> 300 \<and> newline \<notin> set err"
proof -
  let ?db1 = "db\<lparr>hd_history := hd_history db @
      [\<lparr>hr_id = ri_run_id io, hr_task_id = task_id, hr_status = ''running'', hr_error = None\<rparr>]\<rparr>"
  obtain r db2 where inner: "run_task_inner io sources task_id trig ?db1 = (r, db2)"
    by (cases "run_task_inner io sources task_id trig ?db1")
  with assms(1,2) have r: "r = Inl e" and db': "db' = update_task_status io task_id ''failed''
      (insert_failed_result io task_id (health_redact_error e) trig
        (close_history io ''failed'' (Some (health_redact_error e)) db2))"
    by (auto simp: run_task_def Let_def split: sum.splits)
  have "hd_results db2 = hd_results db" "hd_tasks db2 = hd_tasks db"
    using run_task_inner_failed [OF inner [unfolded r]] by simp_all
  then have "hd_results db' = hd_results db @
      [\<lparr>rr_task_id = task_id, rr_started_at = ri_now io, rr_status = ''failed'', rr_snapshot = None,
        rr_changes = [], rr_triggered_by = trig, rr_error = Some (health_redact_error e)\<rparr>]"
    using assms(3,4) by (simp add: db' insert_failed_result_def)
  then show ?thesis using health_redact_error_short [of e] by blast
qed

text \<open>
  When the checked database does not accept the connection, the run fails before any metric is
  evaluated: no state of the alert machine changes, so however often this happens the connectivity
  metric never counts a failure.
\<close>

theorem unreachable_source_not_counted:
  assumes task: "hd_tasks db task_id = Some task" "hd_connections db (ht_source_db_id task) = Some conn"
    and type: "cn_db_type conn = ''mysql'' \<or> cn_db_type conn = ''postgres''"
    and down: "sd_connect (sources (cn_id conn)) = Inl why"
  shows "\<exists>e db'. run_task io sources task_id trig db = (Inl e, db') \<and> hd_alerts db' = hd_alerts db"
proof -
  have stop: "\<exists>e. collect_and_evaluate io task_id conn (sources (cn_id conn)) config tab = (Inl e, tab)" for config tab
    using type down by (auto simp: collect_and_evaluate_def probe_source_def)
  then have inner: "\<exists>e db'. run_task_inner io sources task_id trig d = (Inl e, db') \<and> hd_alerts db' = hd_alerts d"
    if "hd_tasks d = hd_tasks db" "hd_connections d = hd_connections db" for d
  proof -
    obtain e where "collect_and_evaluate io task_id conn (sources (cn_id conn))
        (from_json_or_default (ri_parse_config io) (ht_config task)) (hd_alerts d) = (Inl e, hd_alerts d)"
      using stop by blast
    then show ?thesis
      using task that by (auto simp: run_task_inner_def Let_def split: sum.split)
  qed
  show ?thesis
  proof (cases "ri_history_ok io")
    case True
    let ?d = "db\<lparr>hd_history := hd_history db @
      [\<lparr>hr_id = ri_run_id io, hr_task_id = task_id, hr_status = ''running'', hr_error = None\<rparr>]\<rparr>"
    obtain e db' where "run_task_inner io sources task_id trig ?d = (Inl e, db')" "hd_alerts db' = hd_alerts ?d"
      using inner [of ?d] by auto
    then show ?thesis using True by (simp add: run_task_def Let_def)
  qed (simp add: run_task_def)
qed

section \<open>Alerts over successive runs\<close>

text \<open>The changes of successive evaluations of one task, with the stored states in between.\<close>

primrec evaluate_runs ::
  "string \<Rightarrow> health_config \<Rightarrow> metrics_snapshot list \<Rightarrow> alert_table \<Rightarrow> alert_change list list" where
  "evaluate_runs task_id config [] tab = []"
| "evaluate_runs task_id config (s # ss) tab =
     (let (changes, tab') = evaluate_all (\<lambda>_. True) (\<lambda>_. True) task_id s config tab
      in changes # evaluate_runs task_id config ss tab')"

definition metric_triggers :: "string \<Rightarrow> alert_change list \<Rightarrow> trigger list" where
  "metric_triggers metric cs = map ch_trigger (filter (\<lambda>c. ch_metric c = metric) cs)"

lemma metric_triggers_append [simp]:
  "metric_triggers m (cs @ cs') = metric_triggers m cs @ metric_triggers m cs'"
  by (simp add: metric_triggers_def)

text \<open>A step on one metric leaves the rows of the others, and reports under its own name.\<close>

definition own_metric :: "string \<Rightarrow> string \<Rightarrow> (alert_table \<Rightarrow> alert_change list \<times> alert_table) \<Rightarrow> bool" where
  "own_metric task_id metric step \<longleftrightarrow>
     (\<forall>tab k. k \<noteq> (task_id, metric) \<longrightarrow> snd (step tab) k = tab k) \<and>
     (\<forall>tab. \<forall>c \<in> set (fst (step tab)). ch_metric c = metric)"

lemma own_metric_threshold:
  assumes "\<And>cur c. snd (eval cur) = Some c \<Longrightarrow> ch_metric c = metric"
  shows "own_metric task_id metric (threshold_step r w task_id metric eval)"
  using assms
  by (auto simp: own_metric_def threshold_step_def persist_metric_state_def case_prod_beta Let_def
      split: option.splits)

lemma own_metric_missing_pk: "own_metric task_id ''missing_pk'' (missing_pk_step r w task_id tables)"
  by (auto simp: own_metric_def missing_pk_step_def persist_metric_state_def evaluate_missing_pk_def
      missing_pk_change_def case_prod_beta Let_def split: option.splits)

lemma own_metric_if_collected:
  "(\<And>v. x = Some v \<Longrightarrow> own_metric task_id metric (step v)) \<Longrightarrow> own_metric task_id metric (if_collected x step)"
  by (cases x) (simp_all add: own_metric_def if_collected_def)

lemma own_metric_triggers:
  "own_metric task_id metric step \<Longrightarrow> metric \<noteq> m \<Longrightarrow> metric_triggers m (fst (step tab)) = []"
  by (auto simp: own_metric_def metric_triggers_def filter_empty_conv)

lemma own_metric_frame:
  "own_metric task_id metric step \<Longrightarrow> k \<noteq> (task_id, metric) \<Longrightarrow> snd (step tab) k = tab k"
  unfolding own_metric_def by blast

lemmas metric_names = connectivity.metric_eq row_count.metric_eq connection_count.metric_eq

text \<open>What one evaluation does about connectivity.\<close>

lemma evaluate_all_connectivity:
  shows "metric_triggers ''connectivity'' (fst (evaluate_all r w task_id s config tab)) =
      metric_triggers ''connectivity'' (fst (threshold_step r w task_id ''connectivity''
        (\<lambda>prior. evaluate_connectivity prior (mt_connectivity s) (hc_fail_threshold config)) tab))"
    and "snd (evaluate_all r w task_id s config tab) (task_id, ''connectivity'') =
      snd (threshold_step r w task_id ''connectivity''
        (\<lambda>prior. evaluate_connectivity prior (mt_connectivity s) (hc_fail_threshold config)) tab) (task_id, ''connectivity'')"
proof -
  note own = own_metric_if_collected [where metric = "''row_count''"]
    own_metric_if_collected [where metric = "''connection_count''"]
    own_metric_if_collected [where metric = "''missing_pk''"]
  have rows: "own_metric task_id ''row_count'' (if_collected (mt_row_count s) (\<lambda>stats.
      threshold_step r w task_id ''row_count''
        (\<lambda>prior. evaluate_row_count prior stats (hc_large_table_threshold config) (hc_fail_threshold config))))"
    by (rule own(1), rule own_metric_threshold, rule row_count.metric_eq)
  have conns: "own_metric task_id ''connection_count'' (if_collected (mt_connection_count s) (\<lambda>count.
      threshold_step r w task_id ''connection_count''
        (\<lambda>prior. evaluate_connection_count prior (Some count) (hc_connection_count_threshold config)
          (hc_fail_threshold config))))"
    by (rule own(2), rule own_metric_threshold, rule connection_count.metric_eq)
  have pks: "own_metric task_id ''missing_pk'' (if_collected (mt_missing_pk s) (missing_pk_step r w task_id))"
    by (rule own(3), rule own_metric_missing_pk)
  note triggers = own_metric_triggers [OF rows] own_metric_triggers [OF conns] own_metric_triggers [OF pks]
  note frames = own_metric_frame [OF rows] own_metric_frame [OF conns] own_metric_frame [OF pks]
  show "metric_triggers ''connectivity'' (fst (evaluate_all r w task_id s config tab)) =
      metric_triggers ''connectivity'' (fst (threshold_step r w task_id ''connectivity''
        (\<lambda>prior. evaluate_connectivity prior (mt_connectivity s) (hc_fail_threshold config)) tab))"
    by (simp add: evaluate_all_def case_prod_beta triggers)
  show "snd (evaluate_all r w task_id s config tab) (task_id, ''connectivity'') =
      snd (threshold_step r w task_id ''connectivity''
        (\<lambda>prior. evaluate_connectivity prior (mt_connectivity s) (hc_fail_threshold config)) tab) (task_id, ''connectivity'')"
    by (simp add: evaluate_all_def case_prod_beta frames)
qed

text \<open>The stored row of a state, as the next run loads it.\<close>

definition stored :: "alert_table \<Rightarrow> string \<times> string \<Rightarrow> alert_state option" where
  "stored tab k = map_option ms_state (loaded (load_metric_state True tab (fst k) (snd k)))"

lemma threshold_step_stored:
  "stored (snd (threshold_step (\<lambda>_. True) (\<lambda>_. True) task metric eval tab)) (task, metric) =
     Some (fst (eval (stored tab (task, metric))))"
proof -
  let ?st = "fst (eval (stored tab (task, metric)))"
  have "snd (threshold_step (\<lambda>_. True) (\<lambda>_. True) task metric eval tab) =
      snd (persist_metric_state True task metric ?st None tab)"
    by (simp add: threshold_step_def case_prod_beta Let_def stored_def)
  then show ?thesis
    using alert_state_round_trip [OF refl, of task metric ?st None tab]
    by (simp add: stored_def loaded_def)
qed

lemma stored_cong: "tab k = tab' k \<Longrightarrow> stored tab k = stored tab' k"
  by (cases k) (simp add: stored_def load_metric_state_def)

lemma threshold_step_triggers:
  assumes "\<And>c. snd (eval (stored tab (task, metric))) = Some c \<Longrightarrow> ch_metric c = metric"
  shows "metric_triggers metric (fst (threshold_step (\<lambda>_. True) (\<lambda>_. True) task metric eval tab)) =
    (case map_option ch_trigger (snd (eval (stored tab (task, metric)))) of None \<Rightarrow> [] | Some t \<Rightarrow> [t])"
  using assms
  by (auto simp: stored_def threshold_step_def case_prod_beta Let_def metric_triggers_def split: option.split)

lemma evaluate_runs_connectivity:
  "map (metric_triggers ''connectivity'') (evaluate_runs task_id config ss tab) =
   map (\<lambda>e. case e of None \<Rightarrow> [] | Some t \<Rightarrow> [t])
     (alert_run (\<lambda>cur p. evaluate_connectivity cur p (hc_fail_threshold config))
       (stored tab (task_id, ''connectivity'')) (map mt_connectivity ss))"
proof (induction ss arbitrary: tab)
  case (Cons s ss)
  let ?eval = "\<lambda>prior. evaluate_connectivity prior (mt_connectivity s) (hc_fail_threshold config)"
  let ?tab' = "snd (evaluate_all (\<lambda>_. True) (\<lambda>_. True) task_id s config tab)"
  let ?tab1 = "snd (threshold_step (\<lambda>_. True) (\<lambda>_. True) task_id ''connectivity'' ?eval tab)"
  have "stored ?tab' (task_id, ''connectivity'') = stored ?tab1 (task_id, ''connectivity'')"
    by (rule stored_cong) (rule evaluate_all_connectivity(2))
  then have "stored ?tab' (task_id, ''connectivity'') =
      Some (fst (?eval (stored tab (task_id, ''connectivity''))))"
    by (simp add: threshold_step_stored)
  with Cons.IH [of ?tab'] show ?case
    using threshold_step_triggers [of ?eval tab task_id "''connectivity''", OF connectivity.metric_eq]
    by (simp add: case_prod_beta evaluate_all_connectivity(1))
qed simp

text \<open>
  Over successive completed runs of a task, with the state stored in between, the connectivity
  changes are those of the failure streaks of its snapshots: an alert when the streak reaches the
  larger of two and the threshold, a resolution at the first success after that, and nothing else,
  whatever the other metrics and other tasks do.
\<close>

theorem connectivity_alerts_over_runs:
  assumes "tab (task_id, ''connectivity'') = None" "length ss < 2 ^ 32 - 1"
  shows "map (metric_triggers ''connectivity'') (evaluate_runs task_id config ss tab) =
    map (\<lambda>e. case e of None \<Rightarrow> [] | Some t \<Rightarrow> [t])
      (streak_events (max 2 (unat (hc_fail_threshold config))) 0
        (map (\<lambda>s. \<not> cr_ok (mt_connectivity s)) ss))"
proof -
  have "stored tab (task_id, ''connectivity'') = None"
    using assms(1) by (simp add: stored_def load_metric_state_def loaded_def)
  then show ?thesis
    using connectivity.alert_run_streaks [of 0 "map mt_connectivity ss" None "hc_fail_threshold config"] assms(2)
    by (simp add: evaluate_runs_connectivity alert_after_def comp_def)
qed

subsection \<open>A concrete run\<close>

definition sample_run_io :: run_io where
  "sample_run_io = \<lparr>ri_run_id = ''run-1'', ri_now = ''2026-08-06T12:00:00Z'',
     ri_rotate_before = ''2026-07-07 12:00:00'', ri_history_ok = True, ri_close_ok = True,
     ri_task_ok = True, ri_connection_ok = True, ri_read_ok = (\<lambda>_. True), ri_write_ok = (\<lambda>_. True),
     ri_result_ok = True, ri_rotate_ok = True, ri_status_ok = True,
     ri_audit = \<lparr>au_id = ''a'', au_now = ''t'', au_accepts = True\<rparr>, ri_decrypt = Inr ''secret'',
     ri_parse_config = (\<lambda>_. None), ri_parse_channels = (\<lambda>_. None),
     ri_deliver = (\<lambda>_ _. Inl InsecureUrl)\<rparr>"

definition sample_source :: source_db where
  "sample_source = \<lparr>sd_connect = Inl ''connection refused'', sd_canary = Inl ''permission denied'',
     sd_ping = Inr 3, sd_top_tables = Inr [], sd_missing_pk = Inr [], sd_mysql_status = Inr ''7'',
     sd_pg_activity = Inr 7\<rparr>"

definition sample_health_db :: health_db where
  "sample_health_db = \<lparr>
     hd_tasks = [''task-1'' \<mapsto> \<lparr>ht_name = ''n'', ht_config = ''{}'', ht_source_db_id = ''c'', ht_notify_channels = ''[]''\<rparr>],
     hd_connections = [''c'' \<mapsto> \<lparr>cn_id = ''c'', cn_db_type = ''mysql'', cn_kind = ''client''\<rparr>],
     hd_alerts = Map.empty, hd_audit = [], hd_results = [], hd_history = [], hd_last_status = Map.empty\<rparr>"

theorem unreachable_source_not_counted_witness:
  "\<exists>e db'. run_task sample_run_io (\<lambda>_. sample_source) ''task-1'' ''scheduler'' sample_health_db = (Inl e, db') \<and>
     hd_alerts db' = Map.empty"
  using unreachable_source_not_counted
    [of sample_health_db "''task-1''" "\<lparr>ht_name = ''n'', ht_config = ''{}'', ht_source_db_id = ''c'', ht_notify_channels = ''[]''\<rparr>"
      "\<lparr>cn_id = ''c'', cn_db_type = ''mysql'', cn_kind = ''client''\<rparr>" "\<lambda>_. sample_source" "''connection refused''"
      sample_run_io "''scheduler''"]
  by (simp add: sample_health_db_def sample_source_def)

lemma sample_run_fails:
  "fst (run_task sample_run_io (\<lambda>_. sample_source) ''task-1'' ''scheduler'' sample_health_db) =
     Inl ''mysql connect failed: connection refused''"
  by (simp add: run_task_def run_task_inner_def sample_run_io_def sample_health_db_def sample_source_def
      collect_and_evaluate_def probe_source_def Let_def)

theorem failed_run_visible_witness:
  "\<exists>err. map rr_error (hd_results (snd (run_task sample_run_io (\<lambda>_. sample_source) ''task-1'' ''scheduler''
      sample_health_db))) = [Some err] \<and> length err \<le> 300"
proof -
  have "run_task sample_run_io (\<lambda>_. sample_source) ''task-1'' ''scheduler'' sample_health_db =
      (Inl ''mysql connect failed: connection refused'',
       snd (run_task sample_run_io (\<lambda>_. sample_source) ''task-1'' ''scheduler'' sample_health_db))"
    by (metis sample_run_fails prod.collapse)
  from failed_run_visible [OF this] show ?thesis
    by (auto simp: sample_run_io_def sample_health_db_def)
qed

theorem connectivity_alerts_over_runs_witness:
  "map (metric_triggers ''connectivity'')
     (evaluate_runs ''task-1'' default_health_config
       (map (\<lambda>ok. connectivity_only_snapshot ''mysql''
          \<lparr>cr_ok = ok, cr_latency_ms = 0, cr_error = None\<rparr> default_metrics) [False, False, False, True]) Map.empty) =
   [[], [], [Alert], [Resolved]]"
proof -
  let ?ss = "map (\<lambda>ok. connectivity_only_snapshot ''mysql''
      \<lparr>cr_ok = ok, cr_latency_ms = 0, cr_error = None\<rparr> default_metrics) [False, False, False, True]"
  have "map (metric_triggers ''connectivity'') (evaluate_runs ''task-1'' default_health_config ?ss Map.empty) =
    map (\<lambda>e. case e of None \<Rightarrow> [] | Some t \<Rightarrow> [t])
      (streak_events (max 2 (unat (hc_fail_threshold default_health_config))) 0
        (map (\<lambda>s. \<not> cr_ok (mt_connectivity s)) ?ss))"
    by (rule connectivity_alerts_over_runs) simp_all
  then show ?thesis
    by (simp add: default_health_config_def connectivity_only_snapshot_def)
qed

end
