(* ===== verification/Sync_Config.thy ===== *)
theory Sync_Config
  imports Rust_Prelude
begin

text \<open>
  The configuration of a data-sync task: \<open>crates/data_sync/src/config.rs\<close>.

  \<open>chrono\<close>'s RFC 3339 parser is the parameter \<open>rfc3339\<close>; serde, which reads the configuration
  from JSON, is left out: the records are what it returns.
\<close>

section \<open>Model\<close>

record source_config =
  sc_connection_id :: string
  sc_database :: "string option"
  sc_table :: string

record target_config =
  tg_connection_id :: string
  tg_database :: "string option"
  tg_table :: string

datatype join_type = LeftJoin

record join_table =
  jt_table :: string
  jt_alias :: "string option"
  jt_join_type :: join_type
  jt_on :: string
  jt_database :: "string option"

record column_select =
  cs_source :: string
  cs_target :: string

record constant_column =
  cc_target :: string
  cc_value :: json

record column_mapping =
  cm_columns :: "column_select list"
  cm_constants :: "constant_column list"

record batching_config =
  bc_time_field :: string
  bc_batch_size :: "nat option"
  bc_start :: "string option"
  bc_batch_retries :: "nat option"

datatype target_strategy = Append | Truncate | Upsert string

record schedule_config =
  sh_cron :: string
  sh_timezone :: "string option"

record data_sync_config =
  dc_source :: source_config
  dc_target :: target_config
  dc_join_tables :: "join_table list"
  dc_column_mapping :: column_mapping
  dc_batching :: batching_config
  dc_target_strategy :: target_strategy
  dc_schedule :: "schedule_config option"

datatype config_error =
    UnsafeIdentifier string
  | InvalidOnClause string
  | NoColumns
  | InvalidBatchSize
  | InvalidStartDate
  | EmptyCron

text \<open>The last test of the code is on the byte length; behind the other two it counts characters.\<close>

fun is_safe_identifier :: "string \<Rightarrow> bool" where
  "is_safe_identifier [] = False"
| "is_safe_identifier (c # cs) =
     (if \<not> (is_ascii_alpha c \<or> c = CHR ''_'') then False
      else if \<not> list_all (\<lambda>c. is_ascii_alnum c \<or> c = CHR ''_'') cs then False
      else 1 \<le> utf8_len (c # cs) \<and> utf8_len (c # cs) \<le> 64)"

definition is_safe_qualified :: "string \<Rightarrow> bool" where
  "is_safe_qualified s =
     (case split_once (CHR ''.'') s of
       None \<Rightarrow> False
     | Some (alias, col) \<Rightarrow> is_safe_identifier alias \<and> is_safe_identifier col)"

definition validate_identifier_opt :: "string option \<Rightarrow> string \<Rightarrow> config_error + unit" where
  "validate_identifier_opt v field =
     (case v of
       None \<Rightarrow> Inr ()
     | Some s \<Rightarrow> if is_safe_identifier s then Inr () else Inl (UnsafeIdentifier field))"

definition validate_identifier :: "string \<Rightarrow> string \<Rightarrow> config_error + unit" where
  "validate_identifier v field =
     (if is_safe_identifier v then Inr () else Inl (UnsafeIdentifier field))"

definition validate_qualified :: "string \<Rightarrow> string \<Rightarrow> config_error + unit" where
  "validate_qualified v field =
     (if is_safe_qualified v then Inr () else Inl (UnsafeIdentifier field))"

definition validate_on :: "string \<Rightarrow> string \<Rightarrow> config_error + unit" where
  "validate_on v field =
     (case split_once (CHR ''='') (trim v) of
       None \<Rightarrow> Inl (InvalidOnClause field)
     | Some (lhs, rhs) \<Rightarrow>
         if \<not> is_safe_qualified (trim lhs) \<or> \<not> is_safe_qualified (trim rhs)
         then Inl (InvalidOnClause field) else Inr ())"

definition effective_alias :: "join_table \<Rightarrow> string" where
  "effective_alias jt = (case jt_alias jt of None \<Rightarrow> jt_table jt | Some a \<Rightarrow> a)"

definition field_at :: "string \<Rightarrow> nat \<Rightarrow> string \<Rightarrow> string" where
  "field_at base i field = base @ ''['' @ show_nat i @ '']'' @ field"

text \<open>The body of a \<open>for (i, x) in xs.iter().enumerate()\<close> loop that ends at the first error.\<close>

fun check_each :: "(nat \<Rightarrow> 'a \<Rightarrow> 'e + unit) \<Rightarrow> nat \<Rightarrow> 'a list \<Rightarrow> 'e + unit" where
  "check_each f i [] = Inr ()"
| "check_each f i (x # xs) = and_then (f i x) (\<lambda>_. check_each f (Suc i) xs)"

definition validate_join :: "nat \<Rightarrow> join_table \<Rightarrow> config_error + unit" where
  "validate_join i jt =
     and_then (validate_identifier (jt_table jt) (field_at ''join_tables'' i ''.table'')) (\<lambda>_.
     and_then (validate_identifier_opt (jt_database jt) (field_at ''join_tables'' i ''.database'')) (\<lambda>_.
     and_then (case jt_alias jt of
         Some alias \<Rightarrow> validate_identifier alias (field_at ''join_tables'' i ''.alias'')
       | None \<Rightarrow> Inr ()) (\<lambda>_.
     validate_on (jt_on jt) (field_at ''join_tables'' i ''.on''))))"

definition validate_column :: "nat \<Rightarrow> column_select \<Rightarrow> config_error + unit" where
  "validate_column i c =
     and_then (validate_qualified (cs_source c) (field_at ''column_mapping.columns'' i ''.source'')) (\<lambda>_.
     validate_identifier (cs_target c) (field_at ''column_mapping.columns'' i ''.target''))"

definition validate_constant :: "nat \<Rightarrow> constant_column \<Rightarrow> config_error + unit" where
  "validate_constant i c =
     validate_identifier (cc_target c) (field_at ''column_mapping.constants'' i ''.target'')"

definition validate_batching :: "(string \<Rightarrow> int option) \<Rightarrow> batching_config \<Rightarrow> config_error + unit" where
  "validate_batching rfc3339 b =
     and_then (validate_identifier (bc_time_field b) ''batching.time_field'') (\<lambda>_.
     if bc_batch_size b = Some 0 then Inl InvalidBatchSize
     else (case bc_start b of
         Some start \<Rightarrow> if rfc3339 start = None then Inl InvalidStartDate else Inr ()
       | None \<Rightarrow> Inr ()))"

definition config_validate :: "(string \<Rightarrow> int option) \<Rightarrow> data_sync_config \<Rightarrow> config_error + unit" where
  "config_validate rfc3339 cfg =
     and_then (validate_identifier_opt (sc_database (dc_source cfg)) ''source.database'') (\<lambda>_.
     and_then (validate_identifier (sc_table (dc_source cfg)) ''source.table'') (\<lambda>_.
     and_then (validate_identifier_opt (tg_database (dc_target cfg)) ''target.database'') (\<lambda>_.
     and_then (validate_identifier (tg_table (dc_target cfg)) ''target.table'') (\<lambda>_.
     and_then (check_each validate_join 0 (dc_join_tables cfg)) (\<lambda>_.
     if cm_columns (dc_column_mapping cfg) = [] \<and> cm_constants (dc_column_mapping cfg) = []
     then Inl NoColumns
     else
     and_then (check_each validate_column 0 (cm_columns (dc_column_mapping cfg))) (\<lambda>_.
     and_then (check_each validate_constant 0 (cm_constants (dc_column_mapping cfg))) (\<lambda>_.
     and_then (validate_batching rfc3339 (dc_batching cfg)) (\<lambda>_.
     and_then (case dc_schedule cfg of
         Some sched \<Rightarrow> if trim (sh_cron sched) = [] then Inl EmptyCron else Inr ()
       | None \<Rightarrow> Inr ()) (\<lambda>_.
     (case dc_target_strategy cfg of
       Upsert key \<Rightarrow> validate_identifier key ''target_strategy.upsert_key''
     | _ \<Rightarrow> Inr ()))))))))))"

section \<open>What a validated configuration promises\<close>

definition ident_char :: "char \<Rightarrow> bool" where
  "ident_char c = (is_ascii_alnum c \<or> c = CHR ''_'')"

lemma check_each_Inr [rust_res]: "check_each f i xs = Inr () \<longleftrightarrow> (\<forall>k < length xs. f (i + k) (xs ! k) = Inr ())"
  by (induction xs arbitrary: i) (auto simp: rust_res less_Suc_eq_0_disj)

lemma check_each_set: "check_each f i xs = Inr () \<Longrightarrow> x \<in> set xs \<Longrightarrow> \<exists>k. f k x = Inr ()"
  by (auto simp: rust_res in_set_conv_nth)

lemma utf8_len_ne: "s \<noteq> [] \<Longrightarrow> 1 \<le> utf8_len s"
  using utf8_len_ge_length [of s] by (cases s) simp_all

lemma ident_first: "is_ascii_alpha c \<or> c = CHR ''_'' \<longleftrightarrow> ident_char c \<and> \<not> is_ascii_digit c"
  by (auto simp: ident_char_def is_ascii_alnum_def is_ascii_alpha_def is_ascii_digit_def
      is_ascii_upper_def is_ascii_lower_def ccode_def)

lemma is_safe_identifier_iff:
  "is_safe_identifier s \<longleftrightarrow> s \<noteq> [] \<and> list_all ident_char s \<and> \<not> is_ascii_digit (hd s) \<and> utf8_len s \<le> 64"
proof (cases s)
  case (Cons c cs)
  have all: "list_all (\<lambda>c. is_ascii_alnum c \<or> c = CHR ''_'') cs = list_all ident_char cs"
    by (simp add: list_all_iff ident_char_def)
  show ?thesis
    using utf8_len_ne [of s] unfolding Cons is_safe_identifier.simps all ident_first by auto
qed simp

lemma validate_identifier_Inr [rust_res]: "validate_identifier v f = Inr () \<longleftrightarrow> is_safe_identifier v"
  by (simp add: validate_identifier_def)

lemma validate_identifier_opt_Inr [rust_res]:
  "validate_identifier_opt v f = Inr () \<longleftrightarrow> (\<forall>s. v = Some s \<longrightarrow> is_safe_identifier s)"
  by (simp add: validate_identifier_opt_def split: option.split)

lemma validate_qualified_Inr [rust_res]: "validate_qualified v f = Inr () \<longleftrightarrow> is_safe_qualified v"
  by (simp add: validate_qualified_def)

lemma is_safe_qualified_iff:
  "is_safe_qualified s \<longleftrightarrow> (\<exists>a b. s = a @ CHR ''.'' # b \<and> is_safe_identifier a \<and> is_safe_identifier b)"
proof
  assume "is_safe_qualified s"
  then show "\<exists>a b. s = a @ CHR ''.'' # b \<and> is_safe_identifier a \<and> is_safe_identifier b"
    unfolding is_safe_qualified_def by (auto simp: split_once_Some split: option.splits) blast
next
  assume "\<exists>a b. s = a @ CHR ''.'' # b \<and> is_safe_identifier a \<and> is_safe_identifier b"
  then obtain a b where s: "s = a @ CHR ''.'' # b" "is_safe_identifier a" "is_safe_identifier b" by blast
  have "CHR ''.'' \<notin> set a"
    using s(2) by (auto simp: is_safe_identifier_iff list_all_iff ident_char_def is_ascii_alnum_def
        is_ascii_alpha_def is_ascii_digit_def is_ascii_upper_def is_ascii_lower_def ccode_def)
  then have "split_once (CHR ''.'') s = Some (a, b)" using s(1) by (simp add: split_once_Some)
  then show "is_safe_qualified s" using s(2,3) by (simp add: is_safe_qualified_def)
qed

text \<open>The characters a join condition may hold.\<close>

definition on_char :: "char \<Rightarrow> bool" where
  "on_char c = (ident_char c \<or> c = CHR ''.'' \<or> c = CHR ''='' \<or> is_ws c)"

lemma trim_split: "list_all P (trim s) \<Longrightarrow> (\<And>c. is_ws c \<Longrightarrow> P c) \<Longrightarrow> list_all P s"
proof -
  assume t: "list_all P (trim s)" and w: "\<And>c. is_ws c \<Longrightarrow> P c"
  have "filter (\<lambda>c. \<not> is_ws c) (trim s) = filter (\<lambda>c. \<not> is_ws c) s"
    by (simp add: filter_trim)
  then have "set (filter (\<lambda>c. \<not> is_ws c) s) \<subseteq> set (trim s)"
    by (metis filter_is_subset)
  then have "set s \<subseteq> set (trim s) \<union> {c. is_ws c}" by auto
  then show "list_all P s" using t w by (auto simp: list_all_iff)
qed

lemma is_safe_qualified_chars: "is_safe_qualified s \<Longrightarrow> list_all (\<lambda>c. ident_char c \<or> c = CHR ''.'') s"
  by (auto simp: is_safe_qualified_iff is_safe_identifier_iff list_all_iff)

lemma validate_on_chars:
  assumes "validate_on v f = Inr ()"
  shows "list_all on_char v"
proof (rule trim_split)
  obtain l r where s: "split_once (CHR ''='') (trim v) = Some (l, r)"
    and q: "is_safe_qualified (trim l)" "is_safe_qualified (trim r)"
    using assms by (auto simp: validate_on_def split: option.splits if_splits)
  have side: "list_all on_char x" if "is_safe_qualified (trim x)" for x
  proof (rule trim_split)
    show "list_all on_char (trim x)"
      using is_safe_qualified_chars [OF that] by (auto simp: on_char_def list_all_iff)
  qed (simp add: on_char_def)
  show "list_all on_char (trim v)"
    using s [unfolded split_once_Some] side [OF q(1)] side [OF q(2)] by (auto simp: on_char_def)
qed (simp add: on_char_def)

definition join_safe :: "join_table \<Rightarrow> bool" where
  "join_safe jt = (is_safe_identifier (jt_table jt) \<and> is_safe_identifier (effective_alias jt) \<and>
     list_all on_char (jt_on jt))"

lemma validate_join_safe: "validate_join i jt = Inr () \<Longrightarrow> join_safe jt"
  by (auto simp: validate_join_def join_safe_def rust_res effective_alias_def validate_on_chars
      split: option.splits)

definition column_safe :: "column_select \<Rightarrow> bool" where
  "column_safe c = (is_safe_qualified (cs_source c) \<and> is_safe_identifier (cs_target c))"

lemma validate_column_safe: "validate_column i c = Inr () \<Longrightarrow> column_safe c"
  by (simp add: validate_column_def column_safe_def rust_res)

lemma validate_constant_safe: "validate_constant i c = Inr () \<Longrightarrow> is_safe_identifier (cc_target c)"
  by (simp add: validate_constant_def rust_res)

text \<open>Everything the SQL builders rely on.\<close>

definition config_safe :: "data_sync_config \<Rightarrow> bool" where
  "config_safe cfg = (is_safe_identifier (sc_table (dc_source cfg)) \<and>
     is_safe_identifier (tg_table (dc_target cfg)) \<and>
     list_all join_safe (dc_join_tables cfg) \<and>
     list_all column_safe (cm_columns (dc_column_mapping cfg)) \<and>
     list_all (\<lambda>c. is_safe_identifier (cc_target c)) (cm_constants (dc_column_mapping cfg)) \<and>
     (cm_columns (dc_column_mapping cfg) \<noteq> [] \<or> cm_constants (dc_column_mapping cfg) \<noteq> []) \<and>
     is_safe_identifier (bc_time_field (dc_batching cfg)) \<and> bc_batch_size (dc_batching cfg) \<noteq> Some 0 \<and>
     (case dc_target_strategy cfg of Upsert k \<Rightarrow> is_safe_identifier k | _ \<Rightarrow> True))"

lemma config_validate_safe:
  assumes "config_validate rfc3339 cfg = Inr ()"
  shows "config_safe cfg"
proof -
  have j: "check_each validate_join 0 (dc_join_tables cfg) = Inr ()"
    and c: "check_each validate_column 0 (cm_columns (dc_column_mapping cfg)) = Inr ()"
    and k: "check_each validate_constant 0 (cm_constants (dc_column_mapping cfg)) = Inr ()"
    using assms by (auto simp: config_validate_def and_then_Inr simp del: check_each_Inr split: if_splits)
  have l: "list_all join_safe (dc_join_tables cfg)"
    "list_all column_safe (cm_columns (dc_column_mapping cfg))"
    "list_all (\<lambda>c. is_safe_identifier (cc_target c)) (cm_constants (dc_column_mapping cfg))"
    unfolding list_all_iff
    using check_each_set [OF j] check_each_set [OF c] check_each_set [OF k] validate_join_safe
      validate_column_safe validate_constant_safe
    by blast+
  show ?thesis
    using assms l
    by (auto simp: config_validate_def config_safe_def and_then_Inr validate_identifier_Inr
        validate_batching_def simp del: check_each_Inr split: if_splits target_strategy.splits)
qed

end
