(* ===== verification/Sync_Sql.thy ===== *)
theory Sync_Sql
  imports Sync_Config "HOL-Library.AList"
begin

text \<open>
  The SQL a data-sync run assembles: \<open>crates/data_sync/src/sql.rs\<close> and the builders of
  \<open>crates/data_sync/src/runner.rs\<close>.

  A source row is a lookup from column names to text, without a value where the column is null or
  missing. \<open>sqlx::QueryBuilder\<close> is its text and its arguments; the placeholder its driver writes
  for the n-th argument is the parameter \<open>ph\<close>. The serde writer of JSON values is the parameter
  \<open>json_text\<close>.

  The properties read the text back with a lexer that knows the quoting rules of the dialects: what
  stands between quotes is exactly what was put there, and nothing outside quotes is a character
  that could open a string, a comment or a second statement.
\<close>

section \<open>Model\<close>

record connection_row =
  cr_id :: string
  cr_name :: string
  cr_db_type :: string
  cr_host :: string
  cr_port :: int
  cr_username :: string
  cr_password_encrypted :: string
  cr_default_database :: "string option"

datatype dialect = DMySql | DPostgres | DClickHouse | DDoris

definition backtick :: char where "backtick = CHR 0x60"
definition dquote :: char where "dquote = CHR 0x22"
definition squote :: char where "squote = CHR 0x27"

fun quote :: "string \<Rightarrow> dialect \<Rightarrow> string" where
  "quote name DPostgres = [dquote] @ replace_char dquote [dquote, dquote] name @ [dquote]"
| "quote name _ = [backtick] @ replace_char backtick [backtick, backtick] name @ [backtick]"

definition qualified_main_table :: "source_config \<Rightarrow> connection_row \<Rightarrow> dialect \<Rightarrow> string" where
  "qualified_main_table src conn d =
     (let table = quote (sc_table src) d in
      case or_else (sc_database src) (cr_default_database conn) of
        Some db \<Rightarrow> if db \<noteq> [] then quote db d @ ''.'' @ table else table
      | None \<Rightarrow> table)"

definition qualified_join_table :: "join_table \<Rightarrow> connection_row \<Rightarrow> dialect \<Rightarrow> string" where
  "qualified_join_table jt conn d =
     (let table = quote (jt_table jt) d in
      case or_else (jt_database jt) (cr_default_database conn) of
        Some db \<Rightarrow> if db \<noteq> [] then quote db d @ ''.'' @ table else table
      | None \<Rightarrow> table)"

definition join_clause :: "connection_row \<Rightarrow> dialect \<Rightarrow> join_table \<Rightarrow> string" where
  "join_clause conn d jt =
     '' LEFT JOIN '' @ qualified_join_table jt conn d @ '' AS '' @ effective_alias jt @ '' ON '' @ jt_on jt"

fun select_item :: "dialect \<Rightarrow> column_select \<Rightarrow> string" where
  "select_item DPostgres c = cs_source c @ ''::text AS '' @ quote (cs_target c) DPostgres"
| "select_item d c = ''CAST('' @ cs_source c @ '' AS CHAR) AS '' @ quote (cs_target c) d"

definition select_limit :: "data_sync_config \<Rightarrow> nat" where
  "select_limit cfg = max 1 (case bc_batch_size (dc_batching cfg) of None \<Rightarrow> 10000 | Some n \<Rightarrow> n)"

definition build_select_sql :: "data_sync_config \<Rightarrow> connection_row \<Rightarrow> dialect \<Rightarrow> string" where
  "build_select_sql cfg conn d =
     (let joins = concat (map (join_clause conn d) (dc_join_tables cfg));
          clause = ''FROM '' @ qualified_main_table (dc_source cfg) conn d @ '' AS main'' @ joins;
          columns = cm_columns (dc_column_mapping cfg);
          select_list = (if columns = [] then ''*'' else join '', '' (map (select_item d) columns));
          time_col = ''main.'' @ bc_time_field (dc_batching cfg)
      in ''SELECT '' @ select_list @ '' '' @ clause @ '' WHERE '' @ time_col @ '' >= __P0__ AND '' @
         time_col @ '' < __P1__ ORDER BY '' @ time_col @ '' LIMIT '' @ show_nat (select_limit cfg))"

definition mysql_select :: "string \<Rightarrow> string" where
  "mysql_select sql = replace_all ''__P1__'' ''?'' (replace_all ''__P0__'' ''?'' sql)"

definition pg_select :: "string \<Rightarrow> string" where
  "pg_select sql = replace_all ''__P1__'' ''$2'' (replace_all ''__P0__'' ''$1'' sql)"

subsection \<open>Inserts\<close>

definition target_columns :: "data_sync_config \<Rightarrow> column_select list \<Rightarrow> dialect \<Rightarrow> string list" where
  "target_columns cfg cols d =
     map (\<lambda>c. quote (cs_target c) d) cols @
     map (\<lambda>c. quote (cc_target c) d) (cm_constants (dc_column_mapping cfg))"

definition upsert_tail :: "data_sync_config \<Rightarrow> string list \<Rightarrow> dialect \<Rightarrow> string option" where
  "upsert_tail cfg col_names d =
     (case dc_target_strategy cfg of
       Upsert key \<Rightarrow>
         let qk = quote key d;
             updates = map (\<lambda>c. c @ ''=VALUES('' @ c @ '')'') (filter (\<lambda>c. c \<noteq> qk) col_names)
         in if updates = [] then Some (''ON DUPLICATE KEY UPDATE '' @ qk @ ''='' @ qk)
            else Some (''ON DUPLICATE KEY UPDATE '' @ join '', '' updates)
     | _ \<Rightarrow> None)"

definition upsert_tail_pg :: "data_sync_config \<Rightarrow> string list \<Rightarrow> dialect \<Rightarrow> string option" where
  "upsert_tail_pg cfg col_names d =
     (case dc_target_strategy cfg of
       Upsert key \<Rightarrow>
         let qk = quote key d;
             updates = map (\<lambda>c. c @ ''=EXCLUDED.'' @ c) (filter (\<lambda>c. c \<noteq> qk) col_names)
         in if updates = [] then Some (''ON CONFLICT ('' @ qk @ '') DO NOTHING'')
            else Some (''ON CONFLICT ('' @ qk @ '') DO UPDATE SET '' @ join '', '' updates)
     | _ \<Rightarrow> None)"

type_synonym sync_row = "string \<Rightarrow> string option"
type_synonym json_map = "(string \<times> json) list"

record query_builder =
  qb_text :: string
  qb_args :: "string option list"

definition qb_new :: "string \<Rightarrow> query_builder" where
  "qb_new s = \<lparr>qb_text = s, qb_args = []\<rparr>"

definition qb_push :: "string \<Rightarrow> query_builder \<Rightarrow> query_builder" where
  "qb_push s qb = qb\<lparr>qb_text := qb_text qb @ s\<rparr>"

definition qb_push_bind :: "(nat \<Rightarrow> string) \<Rightarrow> string option \<Rightarrow> query_builder \<Rightarrow> query_builder" where
  "qb_push_bind ph v qb =
     \<lparr>qb_text = qb_text qb @ ph (Suc (length (qb_args qb))), qb_args = qb_args qb @ [v]\<rparr>"

text \<open>A loop that writes a comma before every element but, unless \<open>sep\<close> is set, the first.\<close>

fun push_each :: "('a \<Rightarrow> query_builder \<Rightarrow> query_builder) \<Rightarrow> bool \<Rightarrow> 'a list \<Rightarrow> query_builder \<Rightarrow> query_builder" where
  "push_each f sep [] qb = qb"
| "push_each f sep (x # xs) qb = push_each f True xs (f x (if sep then qb_push '', '' qb else qb))"

fun json_value_to_string :: "(json \<Rightarrow> string) \<Rightarrow> json \<Rightarrow> string" where
  "json_value_to_string json_text (JStr s) = s"
| "json_value_to_string json_text JNull = ''''"
| "json_value_to_string json_text v = json_text v"

definition push_pg_literal :: "string option \<Rightarrow> query_builder \<Rightarrow> query_builder" where
  "push_pg_literal v qb =
     (case v of
       Some s \<Rightarrow> qb_push ([squote] @ ''::unknown'') (qb_push (replace_char squote [squote, squote] s) (qb_push [squote] qb))
     | None \<Rightarrow> qb_push ''NULL'' qb)"

text \<open>
  The four inserters share their text but for the dialect, the upsert tail, and how a value of a
  row and a constant are written.
\<close>

definition insert_rows :: "dialect \<Rightarrow> (data_sync_config \<Rightarrow> string list \<Rightarrow> dialect \<Rightarrow> string option) \<Rightarrow>
    ('r \<Rightarrow> column_select \<Rightarrow> query_builder \<Rightarrow> query_builder) \<Rightarrow> (constant_column \<Rightarrow> query_builder \<Rightarrow> query_builder) \<Rightarrow>
    data_sync_config \<Rightarrow> 'r list \<Rightarrow> column_select list \<Rightarrow> query_builder option" where
  "insert_rows d tail push_value push_const cfg rows cols =
     (if rows = [] then None
      else let col_names = target_columns cfg cols d;
               qb = qb_push '') VALUES '' (qb_push (join '', '' col_names)
                 (qb_new (''INSERT INTO '' @ quote (tg_table (dc_target cfg)) d @ '' ('')));
               push_row = (\<lambda>r qb. qb_push '')''
                 (push_each push_const (cols \<noteq> []) (cm_constants (dc_column_mapping cfg))
                   (push_each (push_value r) False cols (qb_push ''('' qb))));
               qb = push_each push_row False rows qb
           in Some (case tail cfg col_names d of
                Some t \<Rightarrow> qb_push t (qb_push '' '' qb)
              | None \<Rightarrow> qb))"

definition insert_batch_mysql :: "(nat \<Rightarrow> string) \<Rightarrow> (json \<Rightarrow> string) \<Rightarrow> data_sync_config \<Rightarrow> sync_row list \<Rightarrow> column_select list \<Rightarrow> query_builder option" where
  "insert_batch_mysql ph json_text =
     insert_rows DMySql upsert_tail (\<lambda>r c. qb_push_bind ph (r (cs_target c)))
       (\<lambda>c. qb_push_bind ph (Some (json_value_to_string json_text (cc_value c))))"

definition insert_batch_pg :: "(nat \<Rightarrow> string) \<Rightarrow> (json \<Rightarrow> string) \<Rightarrow> data_sync_config \<Rightarrow> sync_row list \<Rightarrow> column_select list \<Rightarrow> query_builder option" where
  "insert_batch_pg ph json_text =
     insert_rows DPostgres upsert_tail_pg (\<lambda>r c. qb_push_bind ph (r (cs_target c)))
       (\<lambda>c. qb_push_bind ph (Some (json_value_to_string json_text (cc_value c))))"

definition json_cell :: "json_map \<Rightarrow> string \<Rightarrow> string option" where
  "json_cell r k = Option.bind (map_of r k) json_as_str"

definition insert_json_batch_mysql :: "(nat \<Rightarrow> string) \<Rightarrow> (json \<Rightarrow> string) \<Rightarrow> data_sync_config \<Rightarrow> json_map list \<Rightarrow> column_select list \<Rightarrow> query_builder option" where
  "insert_json_batch_mysql ph json_text =
     insert_rows DMySql upsert_tail (\<lambda>r c. qb_push_bind ph (json_cell r (cs_target c)))
       (\<lambda>c. qb_push_bind ph (Some (json_value_to_string json_text (cc_value c))))"

definition insert_json_batch_pg :: "(json \<Rightarrow> string) \<Rightarrow> data_sync_config \<Rightarrow> json_map list \<Rightarrow> column_select list \<Rightarrow> query_builder option" where
  "insert_json_batch_pg json_text =
     insert_rows DPostgres upsert_tail_pg (\<lambda>r c. push_pg_literal (json_cell r (cs_target c)))
       (\<lambda>c. push_pg_literal (Some (json_value_to_string json_text (cc_value c))))"

text \<open>\<open>Map::insert\<close> keeps the place of a key it replaces.\<close>

definition row_to_json :: "column_select list \<Rightarrow> sync_row \<Rightarrow> json_map" where
  "row_to_json cols r =
     fold (\<lambda>c m. AList.update (cs_target c) (JStr (case r (cs_target c) of None \<Rightarrow> '''' | Some v \<Rightarrow> v)) m) cols []"

definition rows_to_json_mysql :: "sync_row list \<Rightarrow> column_select list \<Rightarrow> json_map list" where
  "rows_to_json_mysql rows cols = map (row_to_json cols) rows"

definition rows_to_json_pg :: "sync_row list \<Rightarrow> column_select list \<Rightarrow> json_map list" where
  "rows_to_json_pg rows cols = map (row_to_json cols) rows"

section \<open>Reading the text back\<close>

datatype sql_token = Plain char | Quoted char string

fun sql_lex :: "char set \<Rightarrow> (char \<times> string) option \<Rightarrow> string \<Rightarrow> sql_token list option" where
  "sql_lex qs None [] = Some []"
| "sql_lex qs (Some st) [] = None"
| "sql_lex qs None (c # cs) =
     (if c \<in> qs then sql_lex qs (Some (c, [])) cs else map_option ((#) (Plain c)) (sql_lex qs None cs))"
| "sql_lex qs (Some (q, a)) [c] = (if c = q then Some [Quoted q a] else None)"
| "sql_lex qs (Some (q, a)) (c # d # cs) =
     (if c \<noteq> q then sql_lex qs (Some (q, a @ [c])) (d # cs)
      else if d = q then sql_lex qs (Some (q, a @ [q])) cs
      else map_option ((#) (Quoted q a)) (sql_lex qs None (d # cs)))"

fun quoted_tokens :: "sql_token list \<Rightarrow> (char \<times> string) list" where
  "quoted_tokens [] = []"
| "quoted_tokens (Plain c # ts) = quoted_tokens ts"
| "quoted_tokens (Quoted q s # ts) = (q, s) # quoted_tokens ts"

fun plain_chars :: "sql_token list \<Rightarrow> string" where
  "plain_chars [] = []"
| "plain_chars (Plain c # ts) = c # plain_chars ts"
| "plain_chars (Quoted q s # ts) = plain_chars ts"

text \<open>PostgreSQL quotes with two characters, the other three dialects with three.\<close>

fun quote_chars :: "dialect \<Rightarrow> char set" where
  "quote_chars DPostgres = {dquote, squote}"
| "quote_chars _ = {backtick, dquote, squote}"

fun quote_char_of :: "dialect \<Rightarrow> char" where
  "quote_char_of DPostgres = dquote"
| "quote_char_of _ = backtick"

text \<open>
  The characters allowed outside quotes. No quote of any dialect is among them, no semicolon, no
  backslash, and none of the characters that start a comment.
\<close>

definition sql_plain :: "char \<Rightarrow> bool" where
  "sql_plain c = (on_char c \<or> c \<in> set '',()*:<>?$'')"

text \<open>
  \<open>well_lexed d s ids\<close>: in front of any text that does not begin with a quote, \<open>s\<close> reads as
  complete tokens, whose quoted ones are \<open>ids\<close> and whose other characters are allowed.
\<close>

definition starts_plain :: "string \<Rightarrow> bool" where
  "starts_plain s = (case s of [] \<Rightarrow> True | c # cs \<Rightarrow> sql_plain c)"

definition well_lexed :: "dialect \<Rightarrow> string \<Rightarrow> (char \<times> string) list \<Rightarrow> bool" where
  "well_lexed d s ids \<longleftrightarrow> (\<forall>rest toks. starts_plain rest \<longrightarrow> sql_lex (quote_chars d) None rest = Some toks \<longrightarrow>
     (\<exists>ts. sql_lex (quote_chars d) None (s @ rest) = Some (ts @ toks) \<and> quoted_tokens ts = ids \<and>
        list_all sql_plain (plain_chars ts)))"

lemma not_sql_plain_quote: "\<not> sql_plain backtick" "\<not> sql_plain dquote" "\<not> sql_plain squote"
  by code_simp+

lemma quote_chars_not_plain: "c \<in> quote_chars d \<Longrightarrow> \<not> sql_plain c"
  using not_sql_plain_quote by (cases d) auto

lemma quote_char_of_in: "quote_char_of d \<in> quote_chars d"
  by (cases d) auto

lemma quote_eq: "quote n d = quote_char_of d # replace_char (quote_char_of d) [quote_char_of d, quote_char_of d] n @ [quote_char_of d]"
  by (cases d) simp_all

lemma quoted_tokens_append [simp]: "quoted_tokens (a @ b) = quoted_tokens a @ quoted_tokens b"
  by (induction a rule: quoted_tokens.induct) auto

lemma plain_chars_append [simp]: "plain_chars (a @ b) = plain_chars a @ plain_chars b"
  by (induction a rule: plain_chars.induct) auto

lemma starts_plain_append: "starts_plain (a @ b) \<longleftrightarrow> (if a = [] then starts_plain b else starts_plain a)"
  by (cases a) (simp_all add: starts_plain_def)

lemma starts_plain_plain: "list_all sql_plain s \<Longrightarrow> starts_plain s"
  by (cases s) (simp_all add: starts_plain_def)

lemma starts_plain_qs: "starts_plain (c # cs) \<Longrightarrow> c \<notin> quote_chars d"
  using quote_chars_not_plain by (auto simp: starts_plain_def)

lemma sql_lex_body:
  assumes "q \<in> qs" "case rest of [] \<Rightarrow> True | c # cs \<Rightarrow> c \<noteq> q"
  shows "sql_lex qs (Some (q, a)) (replace_char q [q, q] n @ q # rest) =
    map_option ((#) (Quoted q (a @ n))) (sql_lex qs None rest)"
proof (induction n arbitrary: a)
  case Nil
  then show ?case using assms by (cases rest) (auto simp: replace_char_def)
next
  case (Cons c n)
  have ne: "\<exists>d ds. replace_char q [q, q] n @ q # rest = d # ds"
    by (cases "replace_char q [q, q] n @ q # rest") auto
  show ?case
  proof (cases "c = q")
    case True
    then show ?thesis using Cons.IH [of "a @ [c]"] by (simp add: replace_char_def)
  next
    case False
    then show ?thesis using Cons.IH [of "a @ [c]"] ne by (auto simp: replace_char_def)
  qed
qed

lemma well_lexed_Nil: "well_lexed d [] []"
  by (simp add: well_lexed_def)

lemma well_lexed_plain:
  assumes "list_all sql_plain p" "well_lexed d s ids"
  shows "well_lexed d (p @ s) ids"
  using assms(1)
proof (induction p)
  case Nil
  then show ?case using assms(2) by simp
next
  case (Cons c p)
  then have w: "well_lexed d (p @ s) ids" and c: "sql_plain c" "c \<notin> quote_chars d"
    using quote_chars_not_plain by auto
  show ?case
    unfolding well_lexed_def
  proof (intro allI impI)
    fix rest toks
    assume "starts_plain rest" "sql_lex (quote_chars d) None rest = Some toks"
    then obtain ts where "sql_lex (quote_chars d) None ((p @ s) @ rest) = Some (ts @ toks)"
        "quoted_tokens ts = ids" "list_all sql_plain (plain_chars ts)"
      using w unfolding well_lexed_def by blast
    then show "\<exists>ts. sql_lex (quote_chars d) None (((c # p) @ s) @ rest) = Some (ts @ toks) \<and>
        quoted_tokens ts = ids \<and> list_all sql_plain (plain_chars ts)"
      using c by (intro exI [of _ "Plain c # ts"]) auto
  qed
qed

lemma well_lexed_quoted:
  assumes "well_lexed d s ids" "starts_plain s" "q \<in> quote_chars d"
  shows "well_lexed d ((q # replace_char q [q, q] n @ [q]) @ s) ((q, n) # ids)"
  unfolding well_lexed_def
proof (intro allI impI)
  fix rest toks
  assume r: "starts_plain rest" "sql_lex (quote_chars d) None rest = Some toks"
  then obtain ts where "sql_lex (quote_chars d) None (s @ rest) = Some (ts @ toks)"
      "quoted_tokens ts = ids" "list_all sql_plain (plain_chars ts)"
    using assms(1) unfolding well_lexed_def by blast
  moreover have "starts_plain (s @ rest)"
    using assms(2) r by (simp add: starts_plain_append)
  then have "case s @ rest of [] \<Rightarrow> True | c # cs \<Rightarrow> c \<noteq> q"
    using starts_plain_qs assms(3) by (cases "s @ rest") auto
  ultimately show "\<exists>ts. sql_lex (quote_chars d) None (((q # replace_char q [q, q] n @ [q]) @ s) @ rest) = Some (ts @ toks) \<and>
      quoted_tokens ts = (q, n) # ids \<and> list_all sql_plain (plain_chars ts)"
    using sql_lex_body [of q "quote_chars d" "s @ rest" "[]" n] assms(3)
    by (intro exI [of _ "Quoted q n # ts"]) auto
qed

lemma well_lexed_ident:
  "well_lexed d s ids \<Longrightarrow> starts_plain s \<Longrightarrow> well_lexed d (quote n d @ s) ((quote_char_of d, n) # ids)"
  unfolding quote_eq using well_lexed_quoted [OF _ _ quote_char_of_in] .

lemma well_lexed_append:
  assumes "well_lexed d s ids" "well_lexed d s' ids'" "starts_plain s'"
  shows "well_lexed d (s @ s') (ids @ ids')"
  unfolding well_lexed_def
proof (intro allI impI)
  fix rest toks
  assume r: "starts_plain rest" "sql_lex (quote_chars d) None rest = Some toks"
  then obtain ts' where t': "sql_lex (quote_chars d) None (s' @ rest) = Some (ts' @ toks)"
      "quoted_tokens ts' = ids'" "list_all sql_plain (plain_chars ts')"
    using assms(2) unfolding well_lexed_def by blast
  moreover have "starts_plain (s' @ rest)"
    using assms(3) r by (simp add: starts_plain_append)
  ultimately obtain ts where "sql_lex (quote_chars d) None (s @ s' @ rest) = Some (ts @ ts' @ toks)"
      "quoted_tokens ts = ids" "list_all sql_plain (plain_chars ts)"
    using assms(1) unfolding well_lexed_def by blast
  then show "\<exists>ts. sql_lex (quote_chars d) None ((s @ s') @ rest) = Some (ts @ toks) \<and>
      quoted_tokens ts = ids @ ids' \<and> list_all sql_plain (plain_chars ts)"
    using t' by (intro exI [of _ "ts @ ts'"]) auto
qed

lemma well_lexed_result:
  assumes "well_lexed d s ids"
  shows "\<exists>toks. sql_lex (quote_chars d) None s = Some toks \<and> quoted_tokens toks = ids \<and>
    list_all sql_plain (plain_chars toks)"
  using assms unfolding well_lexed_def starts_plain_def
  by (drule_tac spec [of _ "[]"], drule_tac spec [of _ "[]"]) simp

section \<open>The batch query\<close>

definition table_path :: "string option \<Rightarrow> connection_row \<Rightarrow> string \<Rightarrow> string list" where
  "table_path db conn table =
     (case or_else db (cr_default_database conn) of
       Some x \<Rightarrow> if x \<noteq> [] then [x, table] else [table]
     | None \<Rightarrow> [table])"

definition select_idents :: "data_sync_config \<Rightarrow> connection_row \<Rightarrow> string list" where
  "select_idents cfg conn =
     map cs_target (cm_columns (dc_column_mapping cfg)) @
     table_path (sc_database (dc_source cfg)) conn (sc_table (dc_source cfg)) @
     concat (map (\<lambda>jt. table_path (jt_database jt) conn (jt_table jt)) (dc_join_tables cfg))"

abbreviation idents :: "dialect \<Rightarrow> string list \<Rightarrow> (char \<times> string) list" where
  "idents d \<equiv> map (Pair (quote_char_of d))"

lemma list_all_sql_plain:
  "list_all ident_char s \<Longrightarrow> list_all sql_plain s"
  "list_all on_char s \<Longrightarrow> list_all sql_plain s"
  by (auto simp: list_all_iff sql_plain_def on_char_def)

lemma safe_plain:
  "is_safe_identifier s \<Longrightarrow> list_all sql_plain s"
  "is_safe_qualified s \<Longrightarrow> list_all sql_plain s"
  "list_all sql_plain (show_nat n)"
proof -
  show "is_safe_identifier s \<Longrightarrow> list_all sql_plain s"
    by (simp add: is_safe_identifier_iff list_all_sql_plain)
  show "is_safe_qualified s \<Longrightarrow> list_all sql_plain s"
    by (drule is_safe_qualified_chars) (auto simp: list_all_iff sql_plain_def on_char_def)
  show "list_all sql_plain (show_nat n)"
    using show_nat_digits [of n]
    by (auto simp: list_all_iff sql_plain_def on_char_def ident_char_def is_ascii_alnum_def)
qed

lemma well_lexed_main:
  assumes "well_lexed d s ids" "starts_plain s"
  shows "well_lexed d (qualified_main_table src conn d @ s) (idents d (table_path (sc_database src) conn (sc_table src)) @ ids)"
proof -
  have t: "well_lexed d (quote n d @ s) ((quote_char_of d, n) # ids)" for n
    using assms by (rule well_lexed_ident)
  have "well_lexed d (''.'' @ quote n d @ s) ((quote_char_of d, n) # ids)" for n
    by (rule well_lexed_plain [OF _ t]) code_simp
  then have "well_lexed d (quote db d @ ''.'' @ quote n d @ s) ((quote_char_of d, db) # (quote_char_of d, n) # ids)" for db n
    by (rule well_lexed_ident) (simp add: starts_plain_def, code_simp)
  then show ?thesis using t
    by (auto simp: qualified_main_table_def table_path_def Let_def split: option.split)
qed

lemma qualified_join_main:
  "qualified_join_table jt conn d =
   qualified_main_table \<lparr>sc_connection_id = [], sc_database = jt_database jt, sc_table = jt_table jt\<rparr> conn d"
  by (simp add: qualified_join_table_def qualified_main_table_def)

lemma sql_literals:
  "list_all sql_plain '' AS ''" "list_all sql_plain '' ON ''" "list_all sql_plain '' LEFT JOIN ''"
  "list_all sql_plain ''::text AS ''" "list_all sql_plain ''CAST(''" "list_all sql_plain '' AS CHAR) AS ''"
  "list_all sql_plain '', ''" "list_all sql_plain ''*''" "list_all sql_plain '' AS main''"
  "list_all sql_plain '' WHERE ''" "list_all sql_plain '' >= __P0__ AND ''"
  "list_all sql_plain '' < __P1__ ORDER BY ''" "list_all sql_plain '' LIMIT ''" "list_all sql_plain ''main.''"
  "list_all sql_plain ''SELECT ''" "list_all sql_plain '' ''" "list_all sql_plain ''FROM ''"
  by code_simp+

lemma starts_plain_app: "list_all sql_plain p \<Longrightarrow> p \<noteq> [] \<Longrightarrow> starts_plain (p @ s)"
  by (simp add: starts_plain_append starts_plain_plain)

lemma well_lexed_joins:
  assumes "list_all join_safe jts" "well_lexed d s ids" "starts_plain s"
  shows "well_lexed d (concat (map (join_clause conn d) jts) @ s)
      (idents d (concat (map (\<lambda>jt. table_path (jt_database jt) conn (jt_table jt)) jts)) @ ids) \<and>
    starts_plain (concat (map (join_clause conn d) jts) @ s)"
  using assms(1)
proof (induction jts)
  case Nil
  then show ?case using assms by simp
next
  case (Cons jt jts)
  let ?rest = "concat (map (join_clause conn d) jts) @ s"
  let ?ids = "idents d (concat (map (\<lambda>jt. table_path (jt_database jt) conn (jt_table jt)) jts)) @ ids"
  let ?tail = "'' AS '' @ effective_alias jt @ '' ON '' @ jt_on jt @ ?rest"
  have safe: "list_all sql_plain (effective_alias jt)" "list_all sql_plain (jt_on jt)"
    using Cons.prems by (simp_all add: join_safe_def safe_plain list_all_sql_plain)
  have "well_lexed d ?rest ?ids" using Cons by simp
  then have tail: "well_lexed d ?tail ?ids"
    by (intro well_lexed_plain [OF sql_literals(1)] well_lexed_plain [OF safe(1)]
        well_lexed_plain [OF sql_literals(2)] well_lexed_plain [OF safe(2)])
  have "well_lexed d ('' LEFT JOIN '' @ qualified_join_table jt conn d @ ?tail)
      (idents d (table_path (jt_database jt) conn (jt_table jt)) @ ?ids)"
    using well_lexed_main [OF tail starts_plain_app [OF sql_literals(1)], of
        "\<lparr>sc_connection_id = [], sc_database = jt_database jt, sc_table = jt_table jt\<rparr>" conn]
    unfolding qualified_join_main by (intro well_lexed_plain [OF sql_literals(3)]) simp
  moreover have "starts_plain ('' LEFT JOIN '' @ qualified_join_table jt conn d @ ?tail)"
    by (rule starts_plain_app [OF sql_literals(3)]) simp
  ultimately show ?case by (simp add: join_clause_def [of conn d jt])
qed

lemma well_lexed_select_item:
  assumes "column_safe c" "well_lexed d s ids" "starts_plain s"
  shows "well_lexed d (select_item d c @ s) ((quote_char_of d, cs_target c) # ids)"
proof -
  have src: "list_all sql_plain (cs_source c)" using assms(1) by (simp add: column_safe_def safe_plain)
  have q: "well_lexed d (quote (cs_target c) d @ s) ((quote_char_of d, cs_target c) # ids)"
    using assms(2,3) by (rule well_lexed_ident)
  have "well_lexed d (cs_source c @ ''::text AS '' @ quote (cs_target c) d @ s) ((quote_char_of d, cs_target c) # ids)"
    using q by (intro well_lexed_plain [OF src] well_lexed_plain [OF sql_literals(4)])
  moreover have "well_lexed d (''CAST('' @ cs_source c @ '' AS CHAR) AS '' @ quote (cs_target c) d @ s)
      ((quote_char_of d, cs_target c) # ids)"
    using q by (intro well_lexed_plain [OF sql_literals(5)] well_lexed_plain [OF src] well_lexed_plain [OF sql_literals(6)])
  ultimately show ?thesis by (cases d) simp_all
qed

lemma well_lexed_join:
  assumes item: "\<And>x s ids. x \<in> set xs \<Longrightarrow> well_lexed d s ids \<Longrightarrow> starts_plain s \<Longrightarrow> well_lexed d (w x @ s) (f x @ ids)"
    and "well_lexed d s ids" "starts_plain s"
  shows "well_lexed d (join '', '' (map w xs) @ s) (concat (map f xs) @ ids)"
  using item
proof (induction "'', ''" "map w xs" arbitrary: xs rule: join.induct)
  case 1
  then show ?case using assms(2) by simp
next
  case (2 v)
  then show ?case using assms(2,3) by auto
next
  case (3 u v ws)
  then obtain x xs' where xs: "xs = x # xs'" "map w xs' = v # ws" by auto
  then have "well_lexed d (join '', '' (v # ws) @ s) (concat (map f xs') @ ids)"
    using "3.hyps"(1) [of xs'] "3.prems" by simp
  then have "well_lexed d ('', '' @ join '', '' (v # ws) @ s) (concat (map f xs') @ ids)"
    by (rule well_lexed_plain [OF sql_literals(7)])
  from "3.prems" [OF _ this starts_plain_app [OF sql_literals(7)]] show ?case
    using "3.hyps"(2) xs by auto
qed

lemma well_lexed_select_list:
  assumes "list_all column_safe cs" "well_lexed d s ids" "starts_plain s"
  shows "well_lexed d (join '', '' (map (select_item d) cs) @ s) (idents d (map cs_target cs) @ ids)"
  using well_lexed_join [of cs d "select_item d" "\<lambda>c. [(quote_char_of d, cs_target c)]", OF _ assms(2,3)]
    well_lexed_select_item assms(1)
  by (simp add: list_all_iff comp_def)

lemma well_lexed_select:
  assumes "config_safe cfg"
  shows "well_lexed d (build_select_sql cfg conn d) (idents d (select_idents cfg conn))"
proof -
  define tf where "tf = bc_time_field (dc_batching cfg)"
  define limit where "limit = select_limit cfg"
  define cols where "cols = cm_columns (dc_column_mapping cfg)"
  define tail where "tail = '' WHERE '' @ ''main.'' @ tf @ '' >= __P0__ AND '' @ ''main.'' @ tf @
      '' < __P1__ ORDER BY '' @ ''main.'' @ tf @ '' LIMIT '' @ show_nat limit"
  have tf: "list_all sql_plain tf" using assms by (simp add: config_safe_def tf_def safe_plain)
  have "list_all sql_plain tail"
    unfolding tail_def list_all_append using tf sql_literals safe_plain(3) by blast
  then have t: "well_lexed d tail []" "starts_plain tail"
    using well_lexed_plain [OF _ well_lexed_Nil, of tail] by (simp_all add: starts_plain_plain)
  let ?joins = "concat (map (join_clause conn d) (dc_join_tables cfg)) @ tail"
  let ?jids = "concat (map (\<lambda>jt. table_path (jt_database jt) conn (jt_table jt)) (dc_join_tables cfg))"
  let ?src = "dc_source cfg"
  have j: "well_lexed d ?joins (idents d ?jids)"
    using well_lexed_joins [OF _ t] assms by (simp add: config_safe_def)
  let ?main = "qualified_main_table ?src conn d @ '' AS main'' @ ?joins"
  have "well_lexed d ?main (idents d (table_path (sc_database ?src) conn (sc_table ?src)) @ idents d ?jids)"
    by (intro well_lexed_main well_lexed_plain [OF sql_literals(9) j] starts_plain_app [OF sql_literals(9)]) simp
  then have m: "well_lexed d ('' '' @ ''FROM '' @ ?main) (idents d (table_path (sc_database ?src) conn (sc_table ?src)) @ idents d ?jids)"
    by (intro well_lexed_plain [OF sql_literals(16)] well_lexed_plain [OF sql_literals(17)])
  have sp: "starts_plain ('' '' @ ''FROM '' @ ?main)"
    by (rule starts_plain_app [OF sql_literals(16)]) simp
  have "well_lexed d ((if cols = [] then ''*'' else join '', '' (map (select_item d) cols)) @ '' '' @ ''FROM '' @ ?main)
      (idents d (select_idents cfg conn))"
  proof (cases "cols = []")
    case True
    then show ?thesis using well_lexed_plain [OF sql_literals(8) m] by (simp add: select_idents_def cols_def)
  next
    case False
    have "list_all column_safe cols" using assms by (simp add: config_safe_def cols_def)
    from well_lexed_select_list [OF this m sp] False show ?thesis by (simp add: select_idents_def cols_def)
  qed
  from well_lexed_plain [OF sql_literals(15) this] show ?thesis
    by (simp only: build_select_sql_def Let_def tail_def tf_def limit_def cols_def append_assoc)
qed

text \<open>
  C2. The batch query of a validated configuration, on every dialect and whatever the
  connection's default database is called, reads as the configured column and table names, each
  whole inside its own quotes, and outside quotes only as letters, digits, white space and the
  punctuation of the template.
\<close>

theorem select_sql_injection_safe:
  assumes "config_validate rfc3339 cfg = Inr ()"
  shows "\<exists>toks. sql_lex (quote_chars d) None (build_select_sql cfg conn d) = Some toks \<and>
    quoted_tokens toks = map (Pair (quote_char_of d)) (select_idents cfg conn) \<and>
    list_all sql_plain (plain_chars toks)"
  by (intro well_lexed_result well_lexed_select config_validate_safe [OF assms])

section \<open>The literal insert\<close>

definition pg_literal :: "string option \<Rightarrow> string" where
  "pg_literal v = (case v of
      Some s \<Rightarrow> squote # replace_char squote [squote, squote] s @ [squote] @ ''::unknown''
    | None \<Rightarrow> ''NULL'')"

lemma qb_push_push [simp]: "qb_push b (qb_push a qb) = qb_push (a @ b) qb"
  by (simp add: qb_push_def)

lemma push_pg_literal_text: "push_pg_literal v = qb_push (pg_literal v)"
  by (auto simp: push_pg_literal_def pg_literal_def split: option.split)

lemma push_each_text:
  "push_each (\<lambda>x. qb_push (w x)) sep xs qb =
   (if xs = [] then qb else qb_push ((if sep then '', '' else '''') @ join '', '' (map w xs)) qb)"
proof (induction xs arbitrary: sep qb)
  case (Cons x xs)
  show ?case unfolding push_each.simps Cons.IH by (cases xs) (simp_all add: qb_push_def)
qed simp

lemma join_append: "join sep (a @ b) = join sep a @ (if a \<noteq> [] \<and> b \<noteq> [] then sep else []) @ join sep b"
proof (induction sep a rule: join.induct)
  case (2 sep w)
  then show ?case by (cases b) simp_all
qed simp_all

text \<open>One row of values as text.\<close>

definition pg_row_cells :: "(json \<Rightarrow> string) \<Rightarrow> data_sync_config \<Rightarrow> column_select list \<Rightarrow> json_map \<Rightarrow> string option list" where
  "pg_row_cells json_text cfg cols r = map (\<lambda>c. json_cell r (cs_target c)) cols @
     map (\<lambda>c. Some (json_value_to_string json_text (cc_value c))) (cm_constants (dc_column_mapping cfg))"

definition pg_row_text :: "string option list \<Rightarrow> string" where
  "pg_row_text cells = ''('' @ join '', '' (map pg_literal cells) @ '')''"

lemma qb_push_row:
  "qb_push '')'' (push_each (\<lambda>c. push_pg_literal (Some (json_value_to_string json_text (cc_value c)))) (cols \<noteq> [])
      (cm_constants (dc_column_mapping cfg))
      (push_each (\<lambda>c. push_pg_literal (json_cell r (cs_target c))) False cols (qb_push ''('' qb))) =
    qb_push (pg_row_text (pg_row_cells json_text cfg cols r)) qb"
  unfolding push_pg_literal_text push_each_text pg_row_text_def pg_row_cells_def map_append join_append
  by (auto simp: comp_def)

lemma insert_json_batch_pg_text:
  assumes "rows \<noteq> []"
  shows "insert_json_batch_pg json_text cfg rows cols =
    Some (qb_new (''INSERT INTO '' @ quote (tg_table (dc_target cfg)) DPostgres @ '' ('' @
      join '', '' (target_columns cfg cols DPostgres) @ '') VALUES '' @
      join '', '' (map (\<lambda>r. pg_row_text (pg_row_cells json_text cfg cols r)) rows) @
      (case upsert_tail_pg cfg (target_columns cfg cols DPostgres) DPostgres of Some t \<Rightarrow> '' '' @ t | None \<Rightarrow> '''')))"
  using assms
  unfolding insert_json_batch_pg_def insert_rows_def Let_def qb_push_row push_each_text
  by (simp add: qb_new_def qb_push_def split: option.split)

lemma insert_literals:
  "list_all sql_plain ''INSERT INTO ''" "list_all sql_plain '' (''" "list_all sql_plain '') VALUES ''"
  "list_all sql_plain ''(''" "list_all sql_plain '')''" "list_all sql_plain ''NULL''"
  "list_all sql_plain ''::unknown''" "list_all sql_plain ''ON CONFLICT (''" "list_all sql_plain '') DO NOTHING''"
  "list_all sql_plain '') DO UPDATE SET ''" "list_all sql_plain ''=EXCLUDED.''"
  by code_simp+

definition cell_tokens :: "string option \<Rightarrow> (char \<times> string) list" where
  "cell_tokens v = (case v of Some s \<Rightarrow> [(squote, s)] | None \<Rightarrow> [])"

lemma well_lexed_pg_literal:
  assumes "well_lexed DPostgres s ids"
  shows "well_lexed DPostgres (pg_literal v @ s) (cell_tokens v @ ids)"
proof (cases v)
  case None
  then show ?thesis
    using well_lexed_plain [OF insert_literals(6) assms] by (simp add: pg_literal_def cell_tokens_def)
next
  case (Some x)
  have "well_lexed DPostgres ((squote # replace_char squote [squote, squote] x @ [squote]) @ ''::unknown'' @ s) ((squote, x) # ids)"
    by (intro well_lexed_quoted well_lexed_plain [OF insert_literals(7) assms]
        starts_plain_app [OF insert_literals(7)]) simp_all
  then show ?thesis using Some by (simp add: pg_literal_def cell_tokens_def)
qed

lemma well_lexed_pg_row:
  assumes "well_lexed DPostgres s ids"
  shows "well_lexed DPostgres (pg_row_text cells @ s) (concat (map cell_tokens cells) @ ids)"
proof -
  have "well_lexed DPostgres (join '', '' (map pg_literal cells) @ '')'' @ s) (concat (map cell_tokens cells) @ ids)"
    by (rule well_lexed_join [OF well_lexed_pg_literal well_lexed_plain [OF insert_literals(5) assms]
        starts_plain_app [OF insert_literals(5)]]) simp_all
  then show ?thesis
    unfolding pg_row_text_def append_assoc by (rule well_lexed_plain [OF insert_literals(4)])
qed

lemma quote_inj: "quote a d = quote b d \<longleftrightarrow> a = b"
proof
  assume eq: "quote a d = quote b d"
  have "sql_lex (quote_chars d) None (quote n d) = Some [Quoted (quote_char_of d) n]" for n
    using sql_lex_body [of "quote_char_of d" "quote_chars d" "[]" "[]" n] quote_char_of_in [of d]
    unfolding quote_eq by simp
  with eq show "a = b" by (metis list.inject option.inject sql_token.inject(2))
qed simp

definition target_names :: "data_sync_config \<Rightarrow> column_select list \<Rightarrow> string list" where
  "target_names cfg cols = map cs_target cols @ map cc_target (cm_constants (dc_column_mapping cfg))"

lemma target_columns_names: "target_columns cfg cols d = map (\<lambda>n. quote n d) (target_names cfg cols)"
  by (simp add: target_columns_def target_names_def comp_def)

definition upsert_names :: "data_sync_config \<Rightarrow> string list \<Rightarrow> string list" where
  "upsert_names cfg names = (case dc_target_strategy cfg of
      Upsert key \<Rightarrow> key # concat (map (\<lambda>n. [n, n]) (filter (\<lambda>n. n \<noteq> key) names))
    | _ \<Rightarrow> [])"

lemma well_lexed_upsert_tail_pg:
  assumes "upsert_tail_pg cfg (map (\<lambda>n. quote n DPostgres) names) DPostgres = Some t"
  shows "well_lexed DPostgres t (idents DPostgres (upsert_names cfg names))"
proof -
  obtain key where key: "dc_target_strategy cfg = Upsert key"
    using assms by (auto simp: upsert_tail_pg_def split: target_strategy.splits)
  define ns where "ns = filter (\<lambda>n. n \<noteq> key) names"
  let ?q = "\<lambda>n. quote n DPostgres"
  let ?upd = "map (\<lambda>n. ?q n @ ''=EXCLUDED.'' @ ?q n) ns"
  have filt: "map (\<lambda>c. c @ ''=EXCLUDED.'' @ c) (filter (\<lambda>c. c \<noteq> ?q key) (map ?q names)) = ?upd"
    unfolding filter_map comp_def quote_inj map_map ns_def ..
  have key_frag: "well_lexed DPostgres (''ON CONFLICT ('' @ ?q key @ lit @ s) (idents DPostgres (key # rest))"
    if "list_all sql_plain lit" "lit \<noteq> []" "well_lexed DPostgres s (idents DPostgres rest)" for lit s rest
    using well_lexed_ident [OF well_lexed_plain [OF that(1,3)] starts_plain_app [OF that(1,2)], of key]
    by (intro well_lexed_plain [OF insert_literals(8)]) simp
  have item: "well_lexed DPostgres ((?q n @ ''=EXCLUDED.'' @ ?q n) @ s) (idents DPostgres [n, n] @ ids)"
    if "well_lexed DPostgres s ids" "starts_plain s" for n s ids
    using well_lexed_ident [OF well_lexed_plain [OF insert_literals(11) well_lexed_ident [OF that, of n]]
        starts_plain_app [OF insert_literals(11)], of n] by simp
  have upd: "well_lexed DPostgres (join '', '' ?upd) (idents DPostgres (concat (map (\<lambda>n. [n, n]) ns)))"
    using well_lexed_join [of ns DPostgres "\<lambda>n. ?q n @ ''=EXCLUDED.'' @ ?q n" "\<lambda>n. idents DPostgres [n, n]", OF item well_lexed_Nil]
    by (simp add: starts_plain_def map_concat comp_def)
  have t: "t = ''ON CONFLICT ('' @ ?q key @ (if ns = [] then '') DO NOTHING'' else '') DO UPDATE SET '' @ join '', '' ?upd)"
  proof -
    have "upsert_tail_pg cfg (map ?q names) DPostgres =
        (if ?upd = [] then Some (''ON CONFLICT ('' @ ?q key @ '') DO NOTHING'')
         else Some (''ON CONFLICT ('' @ ?q key @ '') DO UPDATE SET '' @ join '', '' ?upd))"
      unfolding upsert_tail_pg_def Let_def key target_strategy.case filt ..
    with assms show ?thesis by (cases ns) auto
  qed
  show ?thesis
    using key_frag [OF insert_literals(9) _ well_lexed_Nil [folded list.map(1) [of "Pair (quote_char_of DPostgres)"]]]
      key_frag [OF insert_literals(10) _ upd]
    unfolding t upsert_names_def key target_strategy.case ns_def [symmetric]
    by (cases "ns = []") simp_all
qed

definition cell_text :: "sync_row \<Rightarrow> string \<Rightarrow> string" where
  "cell_text r k = (case r k of None \<Rightarrow> '''' | Some v \<Rightarrow> v)"

lemma row_to_json_get:
  "map_of (fold (\<lambda>c m. AList.update (cs_target c) (JStr (case r (cs_target c) of None \<Rightarrow> '''' | Some v \<Rightarrow> v)) m) cols m) k =
   (if k \<in> cs_target ` set cols then Some (JStr (cell_text r k)) else map_of m k)"
proof (induction cols arbitrary: m)
  case (Cons c cols)
  then show ?case by (auto simp: update_conv' cell_text_def)
qed simp

lemma json_cell_row: "c \<in> set cols \<Longrightarrow> json_cell (row_to_json cols r) (cs_target c) = Some (cell_text r (cs_target c))"
  by (simp add: json_cell_def row_to_json_def row_to_json_get)

definition row_values :: "(json \<Rightarrow> string) \<Rightarrow> data_sync_config \<Rightarrow> column_select list \<Rightarrow> sync_row \<Rightarrow> string list" where
  "row_values json_text cfg cols r = map (\<lambda>c. cell_text r (cs_target c)) cols @
     map (\<lambda>c. json_value_to_string json_text (cc_value c)) (cm_constants (dc_column_mapping cfg))"

lemma cells_row: "concat (map cell_tokens (pg_row_cells json_text cfg cols (row_to_json cols r))) =
    map (Pair squote) (row_values json_text cfg cols r)"
proof -
  have "map (\<lambda>c. json_cell (row_to_json cols r) (cs_target c)) cols = map (\<lambda>c. Some (cell_text r (cs_target c))) cols"
    by (simp add: json_cell_row)
  then show ?thesis
    by (simp add: pg_row_cells_def row_values_def cell_tokens_def comp_def del: map_eq_conv)
qed

lemma well_lexed_insert_json_batch_pg:
  assumes "rows \<noteq> []" "insert_json_batch_pg json_text cfg (rows_to_json_mysql rows cols) cols = Some qb"
  shows "well_lexed DPostgres (qb_text qb) (idents DPostgres (tg_table (dc_target cfg) # target_names cfg cols) @
    concat (map (\<lambda>r. map (Pair squote) (row_values json_text cfg cols r)) rows) @
    idents DPostgres (upsert_names cfg (target_names cfg cols)))"
proof -
  let ?names = "target_names cfg cols" and ?js = "rows_to_json_mysql rows cols"
  let ?cols = "map (\<lambda>n. quote n DPostgres) ?names"
  define tail where "tail = (case upsert_tail_pg cfg ?cols DPostgres of Some t \<Rightarrow> '' '' @ t | None \<Rightarrow> '''')"
  have tail: "well_lexed DPostgres tail (idents DPostgres (upsert_names cfg ?names))" "starts_plain tail"
  proof -
    have "upsert_names cfg ?names = []" if "upsert_tail_pg cfg ?cols DPostgres = None"
      using that by (auto simp: upsert_tail_pg_def upsert_names_def Let_def split: target_strategy.splits if_splits)
    then show "well_lexed DPostgres tail (idents DPostgres (upsert_names cfg ?names))"
      using well_lexed_upsert_tail_pg [of cfg ?names] well_lexed_plain [OF sql_literals(16)] well_lexed_Nil
      by (auto simp: tail_def simp del: append_Cons split: option.split)
    show "starts_plain tail"
      using starts_plain_app [OF sql_literals(16)]
      by (auto simp: tail_def starts_plain_def [of "[]"] simp del: append_Cons split: option.split)
  qed
  let ?f = "\<lambda>r. concat (map cell_tokens (pg_row_cells json_text cfg cols r))"
  let ?rows = "join '', '' (map (\<lambda>r. pg_row_text (pg_row_cells json_text cfg cols r)) ?js) @ tail"
  have rows: "well_lexed DPostgres ?rows (concat (map ?f ?js) @ idents DPostgres (upsert_names cfg ?names))"
    by (rule well_lexed_join [OF well_lexed_pg_row tail])
  have item: "well_lexed DPostgres (quote n DPostgres @ s) ([(quote_char_of DPostgres, n)] @ ids)"
    if "well_lexed DPostgres s ids" "starts_plain s" for n s ids
    unfolding append_Cons append_Nil using that by (rule well_lexed_ident)
  have "well_lexed DPostgres (join '', '' ?cols @ '') VALUES '' @ ?rows)
      (concat (map (\<lambda>n. [(quote_char_of DPostgres, n)]) ?names) @ concat (map ?f ?js) @ idents DPostgres (upsert_names cfg ?names))"
    by (rule well_lexed_join [OF item well_lexed_plain [OF insert_literals(3) rows]
        starts_plain_app [OF insert_literals(3)]]) simp_all
  then have "well_lexed DPostgres (''INSERT INTO '' @ quote (tg_table (dc_target cfg)) DPostgres @ '' ('' @
      join '', '' ?cols @ '') VALUES '' @ ?rows)
      ((quote_char_of DPostgres, tg_table (dc_target cfg)) # idents DPostgres ?names @ concat (map ?f ?js) @
       idents DPostgres (upsert_names cfg ?names))"
    by (intro well_lexed_plain [OF insert_literals(1)] well_lexed_ident well_lexed_plain [OF insert_literals(2)]
        starts_plain_app [OF insert_literals(2)]) (simp_all add: comp_def)
  moreover have "qb_text qb = ''INSERT INTO '' @ quote (tg_table (dc_target cfg)) DPostgres @ '' ('' @
      join '', '' ?cols @ '') VALUES '' @ ?rows"
    using assms insert_json_batch_pg_text [of ?js json_text cfg cols]
    by (auto simp: rows_to_json_mysql_def qb_new_def target_columns_names tail_def)
  moreover have "concat (map ?f ?js) = concat (map (\<lambda>r. map (Pair squote) (row_values json_text cfg cols r)) rows)"
    by (simp add: rows_to_json_mysql_def comp_def cells_row)
  ultimately show ?thesis by simp
qed

text \<open>
  C13. The multi-row insert of the MySQL to PostgreSQL path, which writes values as text, reads back
  as the target table, the target columns, the values of every row in order and the names of the
  upsert clause: no value, whatever it holds, leaves its literal. A null is written as the empty
  string.
\<close>

theorem pg_literals_round_trip:
  assumes "rows \<noteq> []"
  shows "\<exists>qb toks. insert_json_batch_pg json_text cfg (rows_to_json_mysql rows cols) cols = Some qb \<and>
    qb_args qb = [] \<and> sql_lex (quote_chars DPostgres) None (qb_text qb) = Some toks \<and>
    quoted_tokens toks = map (Pair dquote) (tg_table (dc_target cfg) # target_names cfg cols) @
      concat (map (\<lambda>r. map (Pair squote) (row_values json_text cfg cols r)) rows) @
      map (Pair dquote) (upsert_names cfg (target_names cfg cols)) \<and>
    list_all sql_plain (plain_chars toks)"
proof -
  obtain qb where "insert_json_batch_pg json_text cfg (rows_to_json_mysql rows cols) cols = Some qb" "qb_args qb = []"
    using insert_json_batch_pg_text [of "rows_to_json_mysql rows cols"] assms
    by (auto simp: rows_to_json_mysql_def qb_new_def)
  with well_lexed_result [OF well_lexed_insert_json_batch_pg [OF assms]] show ?thesis by auto
qed

subsection \<open>A concrete task\<close>

definition sample_sync_config :: data_sync_config where
  "sample_sync_config = \<lparr>
     dc_source = \<lparr>sc_connection_id = ''c1'', sc_database = None, sc_table = ''users''\<rparr>,
     dc_target = \<lparr>tg_connection_id = ''c2'', tg_database = None, tg_table = ''users''\<rparr>,
     dc_join_tables = [\<lparr>jt_table = ''profiles'', jt_alias = Some ''p'', jt_join_type = LeftJoin,
       jt_on = ''main.id = p.user_id'', jt_database = None\<rparr>],
     dc_column_mapping = \<lparr>cm_columns = [\<lparr>cs_source = ''main.id'', cs_target = ''id''\<rparr>],
       cm_constants = [\<lparr>cc_target = ''origin'', cc_value = JStr ''crm''\<rparr>]\<rparr>,
     dc_batching = \<lparr>bc_time_field = ''created_at'', bc_batch_size = Some 2, bc_start = None,
       bc_batch_retries = None\<rparr>,
     dc_target_strategy = Upsert ''id'', dc_schedule = None\<rparr>"

definition sample_connection :: connection_row where
  "sample_connection = \<lparr>cr_id = ''c1'', cr_name = ''crm'', cr_db_type = ''mysql'', cr_host = ''db'', cr_port = 3306,
     cr_username = ''u'', cr_password_encrypted = '''', cr_default_database = Some ''a`b''\<rparr>"

theorem select_sql_injection_safe_witness:
  "\<exists>toks. sql_lex (quote_chars DMySql) None (build_select_sql sample_sync_config sample_connection DMySql) = Some toks \<and>
    quoted_tokens toks = map (Pair backtick) [''id'', ''a`b'', ''users'', ''a`b'', ''profiles''] \<and>
    list_all sql_plain (plain_chars toks)"
proof -
  have "config_validate (\<lambda>_. None) sample_sync_config = Inr ()" by code_simp
  from select_sql_injection_safe [OF this, of DMySql sample_connection] show ?thesis
    by (simp add: select_idents_def table_path_def or_else_def sample_sync_config_def sample_connection_def)
qed

theorem pg_literals_round_trip_witness:
  "\<exists>qb toks. insert_json_batch_pg (\<lambda>_. '''') sample_sync_config
      (rows_to_json_mysql [\<lambda>_. Some [squote]] [\<lparr>cs_source = ''main.id'', cs_target = ''id''\<rparr>])
      [\<lparr>cs_source = ''main.id'', cs_target = ''id''\<rparr>] = Some qb \<and>
    sql_lex (quote_chars DPostgres) None (qb_text qb) = Some toks \<and>
    quoted_tokens toks = [(dquote, ''users''), (dquote, ''id''), (dquote, ''origin''), (squote, [squote]),
      (squote, ''crm''), (dquote, ''id''), (dquote, ''origin''), (dquote, ''origin'')]"
proof -
  have "[\<lambda>_. Some [squote]] \<noteq> ([] :: sync_row list)" by simp
  from pg_literals_round_trip [OF this, of "\<lambda>_. ''''" sample_sync_config "[\<lparr>cs_source = ''main.id'', cs_target = ''id''\<rparr>]"]
  show ?thesis
    by (auto simp: sample_sync_config_def target_names_def row_values_def cell_text_def upsert_names_def)
qed

text \<open>
  The sentinels for the two window bounds are valid identifiers: a table of that name is rewritten
  into a placeholder with the bounds.
\<close>

lemma mysql_select_rewrites_name:
  "mysql_select (quote ''__P0__'' DMySql) = quote ''?'' DMySql \<and> is_safe_identifier ''__P0__''"
  by code_simp

end
