(* ===== verification/Sync_Targets.thy ===== *)
theory Sync_Targets
  imports Sync_Sql "HOL-Library.Word"
begin

text \<open>
  The two targets a data-sync run writes over HTTP: \<open>crates/data_sync/src/clickhouse.rs\<close> and
  \<open>crates/data_sync/src/doris_stream_load.rs\<close>.

  The HTTP client is a parameter \<open>send\<close>: the answer to a request is a status code with the text
  of the body, or an error; the text itself may fail to arrive. The base64 encoder is the parameter
  \<open>b64\<close>, serde's writer and reader are \<open>json_text\<close> and \<open>from_str\<close>. The label of a stream load is
  made from the clock \<open>millis\<close> and the counter of the client.
\<close>

section \<open>Model\<close>

record http_request =
  rq_method :: string
  rq_url :: string
  rq_headers :: "(string \<times> string) list"
  rq_body :: string

type_synonym http_answer = "string + nat \<times> (string + string)"

definition http_ok :: "nat \<Rightarrow> bool" where
  "http_ok status = (200 \<le> status \<and> status \<le> 299)"

record clickhouse_client =
  ck_base_url :: string
  ck_auth_header :: string
  ck_database :: string

definition clickhouse_new :: "(string \<Rightarrow> string) \<Rightarrow> string \<Rightarrow> nat \<Rightarrow> string \<Rightarrow> string \<Rightarrow> string \<Rightarrow> clickhouse_client" where
  "clickhouse_new b64 host port username password database =
     \<lparr>ck_base_url = ''http://'' @ host @ '':'' @ show_nat port,
      ck_auth_header = ''Basic '' @ b64 (username @ '':'' @ password), ck_database = database\<rparr>"

text \<open>The bytes of the UTF-8 encoding, for characters below U+0100.\<close>

definition utf8_bytes :: "string \<Rightarrow> nat list" where
  "utf8_bytes s = concat (map (\<lambda>c. if ccode c < 128 then [ccode c] else [192 + ccode c div 64, 128 + ccode c mod 64]) s)"

definition hex_digit :: "nat \<Rightarrow> char" where
  "hex_digit d = (if d < 10 then char_of (48 + d) else char_of (55 + d))"

definition unreserved :: "char \<Rightarrow> bool" where
  "unreserved c = (is_ascii_alnum c \<or> c \<in> set ''-_.~'')"

definition encode_byte :: "nat \<Rightarrow> string" where
  "encode_byte b =
     (if unreserved (char_of b) then [char_of b]
      else if b = 32 then ''+''
      else [CHR ''%'', hex_digit (b div 16), hex_digit (b mod 16)])"

definition url_encode :: "string \<Rightarrow> string" where
  "url_encode s = concat (map encode_byte (utf8_bytes s))"

definition json_lines :: "(json \<Rightarrow> string) \<Rightarrow> json_map list \<Rightarrow> string" where
  "json_lines json_text rows = concat (map (\<lambda>r. json_text (JObj r) @ [newline]) rows)"

definition clickhouse_insert_request :: "(json \<Rightarrow> string) \<Rightarrow> clickhouse_client \<Rightarrow> string \<Rightarrow> json_map list \<Rightarrow> http_request" where
  "clickhouse_insert_request json_text ck table rows =
     (let query = ''INSERT INTO '' @ quote (ck_database ck) DClickHouse @ ''.'' @ table @ '' FORMAT JSONEachRow''
      in \<lparr>rq_method = ''POST'', rq_url = ck_base_url ck @ ''/?query='' @ url_encode query,
          rq_headers = [(''Authorization'', ck_auth_header ck), (''Content-Type'', ''application/octet-stream'')],
          rq_body = json_lines json_text rows\<rparr>)"

definition clickhouse_insert_batch :: "(json \<Rightarrow> string) \<Rightarrow> (http_request \<Rightarrow> http_answer) \<Rightarrow> clickhouse_client \<Rightarrow> string \<Rightarrow> json_map list \<Rightarrow> string + nat" where
  "clickhouse_insert_batch json_text send ck table rows =
     (if rows = [] then Inr 0
      else case send (clickhouse_insert_request json_text ck table rows) of
        Inl e \<Rightarrow> Inl (''clickhouse insert connect failed: '' @ e)
      | Inr (status, body) \<Rightarrow>
          if \<not> http_ok status then Inl ''clickhouse insert connect failed'' else Inr (length rows))"

definition clickhouse_truncate_request :: "clickhouse_client \<Rightarrow> string \<Rightarrow> http_request" where
  "clickhouse_truncate_request ck table =
     (let query = ''TRUNCATE TABLE '' @ quote (ck_database ck) DClickHouse @ ''.'' @ table
      in \<lparr>rq_method = ''POST'', rq_url = ck_base_url ck @ ''/?query='' @ url_encode query,
          rq_headers = [(''Authorization'', ck_auth_header ck)], rq_body = '' ''\<rparr>)"

text \<open>A status outside 2xx is logged and counts as success.\<close>

definition clickhouse_truncate :: "(http_request \<Rightarrow> http_answer) \<Rightarrow> clickhouse_client \<Rightarrow> string \<Rightarrow> string + unit" where
  "clickhouse_truncate send ck table =
     (case send (clickhouse_truncate_request ck table) of
       Inl e \<Rightarrow> Inl (''clickhouse truncate connect failed: '' @ e)
     | Inr _ \<Rightarrow> Inr ())"

record doris_client =
  ds_base_url :: string
  ds_auth_header :: string
  ds_database :: string
  ds_label_seq :: "64 word"

definition doris_new :: "(string \<Rightarrow> string) \<Rightarrow> string \<Rightarrow> nat \<Rightarrow> string \<Rightarrow> string \<Rightarrow> string \<Rightarrow> doris_client" where
  "doris_new b64 host port username password database =
     \<lparr>ds_base_url = ''http://'' @ host @ '':'' @ show_nat port,
      ds_auth_header = ''Basic '' @ b64 (username @ '':'' @ password), ds_database = database,
      ds_label_seq = 0\<rparr>"

definition doris_request :: "(json \<Rightarrow> string) \<Rightarrow> doris_client \<Rightarrow> nat \<Rightarrow> string \<Rightarrow> json_map list \<Rightarrow> http_request" where
  "doris_request json_text ds millis table rows =
     (let label = ''dbmaster_sync_'' @ show_nat millis @ ''_'' @ show_nat (unat (ds_label_seq ds))
      in \<lparr>rq_method = ''PUT'', rq_url = ds_base_url ds @ ''/api/'' @ ds_database ds @ ''/'' @ table @ ''/_load'',
          rq_headers = [(''Authorization'', ds_auth_header ds), (''Expect'', ''100-continue''), (''label'', label),
            (''format'', ''json''), (''read_json_by_line'', ''true''), (''Content-Type'', ''application/json'')],
          rq_body = json_lines json_text rows\<rparr>)"

fun json_as_u64 :: "json \<Rightarrow> nat option" where
  "json_as_u64 (JNum i) = (if 0 \<le> i \<and> i < 2 ^ 64 then Some (nat i) else None)"
| "json_as_u64 _ = None"

definition doris_answer :: "(string \<Rightarrow> json option) \<Rightarrow> nat \<Rightarrow> http_answer \<Rightarrow> string + nat" where
  "doris_answer from_str n answer =
     (case answer of
       Inl e \<Rightarrow> Inl (''doris stream load connect failed: '' @ e)
     | Inr (status, body) \<Rightarrow>
         if \<not> http_ok status then Inl ''doris stream load connect failed''
         else (case body of
             Inl e \<Rightarrow> Inl (''doris read response failed: '' @ e)
           | Inr txt \<Rightarrow>
               (case from_str txt of
                 None \<Rightarrow> Inl ''doris stream load connect failed: non-JSON response''
               | Some j \<Rightarrow>
                   if Option.bind (json_get ''Status'' j) json_as_str \<noteq> Some ''Success''
                   then Inl ''doris stream load connect failed''
                   else (case Option.bind (json_get ''NumberLoadedRows'' j) json_as_u64 of
                       Some loaded \<Rightarrow> Inr loaded
                     | None \<Rightarrow> Inr n))))"

definition doris_insert_batch :: "(json \<Rightarrow> string) \<Rightarrow> (string \<Rightarrow> json option) \<Rightarrow> nat \<Rightarrow> (http_request \<Rightarrow> http_answer) \<Rightarrow>
    string \<Rightarrow> json_map list \<Rightarrow> doris_client \<Rightarrow> (string + nat) \<times> doris_client" where
  "doris_insert_batch json_text from_str millis send table rows ds =
     (if rows = [] then (Inr 0, ds)
      else (doris_answer from_str (length rows) (send (doris_request json_text ds millis table rows)),
            ds\<lparr>ds_label_seq := ds_label_seq ds + 1\<rparr>))"

section \<open>Lemmas\<close>

text \<open>The query parameter decodes to the bytes it was made from, so a name cannot end it.\<close>

definition hex_val :: "char \<Rightarrow> nat" where
  "hex_val c = (if ccode c < 65 then ccode c - 48 else ccode c - 55)"

fun url_decode :: "string \<Rightarrow> nat list" where
  "url_decode [] = []"
| "url_decode [c] = (if c = CHR ''+'' then [32] else [ccode c])"
| "url_decode [c, d] = (if c = CHR ''+'' then [32] else [ccode c]) @ url_decode [d]"
| "url_decode (c # h # l # cs) =
     (if c = CHR ''%'' then (16 * hex_val h + hex_val l) # url_decode cs
      else (if c = CHR ''+'' then [32] else [ccode c]) @ url_decode (h # l # cs))"

lemma url_decode_plain: "c \<noteq> CHR ''%'' \<Longrightarrow> url_decode (c # cs) = (if c = CHR ''+'' then 32 else ccode c) # url_decode cs"
  by (cases cs rule: url_decode.cases) auto

lemma hex_val_digit: "d < 16 \<Longrightarrow> hex_val (hex_digit d) = d"
  by (auto simp: hex_val_def hex_digit_def ccode_def)

lemma unreserved_plain: "unreserved c \<Longrightarrow> c \<noteq> CHR ''%'' \<and> c \<noteq> CHR ''+''"
  by (auto simp: unreserved_def is_ascii_alnum_def is_ascii_alpha_def is_ascii_digit_def
      is_ascii_upper_def is_ascii_lower_def ccode_def)

lemma url_decode_byte: "b < 256 \<Longrightarrow> url_decode (encode_byte b @ cs) = b # url_decode cs"
  using unreserved_plain [of "char_of b"]
  by (auto simp: encode_byte_def url_decode_plain hex_val_digit ccode_def)

lemma utf8_bytes_bound:
  assumes "b \<in> set (utf8_bytes s)"
  shows "b < 256"
proof -
  obtain c where "c \<in> set s" and b: "b \<in> set (if ccode c < 128 then [ccode c] else [192 + ccode c div 64, 128 + ccode c mod 64])"
    using assms by (auto simp: utf8_bytes_def)
  have "ccode c < 256" by (simp add: ccode_def)
  then have "ccode c div 64 < 4" "ccode c mod 64 < 64" by auto
  with b show ?thesis by (auto split: if_splits)
qed

lemma url_encode_round_trip: "url_decode (url_encode s) = utf8_bytes s"
proof -
  have "url_decode (concat (map encode_byte bs)) = bs" if "\<forall>b \<in> set bs. b < 256" for bs
    using that by (induction bs) (simp_all add: url_decode_byte)
  then show ?thesis using utf8_bytes_bound by (simp add: url_encode_def)
qed

text \<open>Two attempts of one batch carry different labels, so the target does not recognise the second.\<close>

definition label_of :: "http_request \<Rightarrow> string option" where
  "label_of rq = map_of (rq_headers rq) ''label''"

lemma stamp_inj:
  assumes "show_nat m @ CHR ''_'' # show_nat a = show_nat n @ CHR ''_'' # show_nat b"
  shows "a = b"
proof -
  have digit: "\<not> is_ascii_digit (CHR ''_'')" by code_simp
  have "split_on (CHR ''_'') (show_nat x @ CHR ''_'' # show_nat y) = [show_nat x, show_nat y]" for x y
    using not_digit_notin_show_nat [OF digit] by (simp add: split_on_append split_on_single)
  with assms have "show_nat a = show_nat b" by (metis list.inject)
  then show ?thesis by (metis digits_val_show_nat)
qed

lemma doris_labels_differ:
  assumes "rows \<noteq> []"
  shows "label_of (doris_request json_text (snd (doris_insert_batch json_text from_str millis send table rows ds)) millis' table rows) \<noteq>
    label_of (doris_request json_text ds millis table rows)"
proof -
  have "ds_label_seq ds + 1 \<noteq> ds_label_seq ds" by simp
  then have "unat (ds_label_seq ds + 1) \<noteq> unat (ds_label_seq ds)" by (metis word_unat_eq_iff)
  then show ?thesis
    using assms stamp_inj [of millis' "unat (ds_label_seq ds + 1)" millis "unat (ds_label_seq ds)"]
    by (auto simp: label_of_def doris_insert_batch_def doris_request_def Let_def)
qed

end
