(* ===== verification/Sync_Runner.thy ===== *)
theory Sync_Runner
  imports Sync_Targets Redaction Webhook_Delivery "HOL-Library.Multiset"
begin

text \<open>
  One run of a data-sync task: \<open>crates/data_sync/src/runner.rs\<close>.

  Time is chrono's: an instant is a number of nanoseconds, and the three parsers, the RFC 3339
  writer and the addition of seconds, which panics out of range, are the fields of \<open>chrono_lib\<close>. The
  databases are the fields of \<open>etl_env\<close>: what the \<open>k\<close>-th turn of the batch loop finds when it polls
  for cancellation, asks the source, writes to the target (for the \<open>j\<close>-th attempt) and stores its
  progress. The control table \<open>data_sync_runs\<close> is a list of rows in the order of insertion. What
  reaches the source and the target is a log of events.

  The batch loop stands six times in the code, word for word but for the statement it writes and
  the number it adds to the processed rows; it is one definition with these two as arguments. A
  loop may not end, so it has fuel, and the value without a result is its not ending.
\<close>

section \<open>Model\<close>

record sync_outcome =
  oc_processed_rows :: nat
  oc_failed_rows :: nat
  oc_canceled :: bool

record sync_run =
  sr_id :: string
  sr_task_id :: string
  sr_started_at :: string
  sr_status :: string
  sr_triggered_by :: string
  sr_cursor :: "string option"
  sr_progress :: int
  sr_processed_rows :: nat
  sr_failed_rows :: nat
  sr_cancel_requested :: bool
  sr_finished_at :: "string option"
  sr_summary :: "json option"
  sr_error :: "string option"

subsection \<open>Cursors\<close>

record chrono_lib =
  rfc3339 :: "string \<Rightarrow> int option"
  naive_secs :: "string \<Rightarrow> int option"
  naive_frac :: "string \<Rightarrow> int option"
  to_rfc3339 :: "int \<Rightarrow> string"
  add_seconds :: "int \<Rightarrow> int \<Rightarrow> int option"

definition parse_cursor :: "chrono_lib \<Rightarrow> string \<Rightarrow> int option" where
  "parse_cursor ch s =
     (case rfc3339 ch s of
       Some t \<Rightarrow> Some t
     | None \<Rightarrow> (case naive_secs ch s of
           Some t \<Rightarrow> Some t
         | None \<Rightarrow> (case naive_frac ch s of Some t \<Rightarrow> Some t | None \<Rightarrow> None)))"

text \<open>Strings are compared by code points, as Rust's are.\<close>

definition cursor_gt :: "chrono_lib \<Rightarrow> string \<Rightarrow> string \<Rightarrow> bool" where
  "cursor_gt ch a b =
     (case (parse_cursor ch a, parse_cursor ch b) of
       (Some x, Some y) \<Rightarrow> x > y
     | _ \<Rightarrow> a > b)"

text \<open>Two's complement: \<open>batch_size.max(1) as i64\<close>.\<close>

definition as_i64 :: "nat \<Rightarrow> int" where
  "as_i64 n = sint (of_nat n :: 64 word)"

definition advance_cursor :: "chrono_lib \<Rightarrow> string \<Rightarrow> nat \<Rightarrow> string option" where
  "advance_cursor ch cursor batch_size =
     (case parse_cursor ch cursor of
       None \<Rightarrow> Some cursor
     | Some t \<Rightarrow> map_option (to_rfc3339 ch) (add_seconds ch t (as_i64 (max 1 batch_size))))"

definition timestamp_millis :: "int \<Rightarrow> int" where
  "timestamp_millis t = t div 1000000"

text \<open>The quotient is taken in floating point; the model takes the exact one.\<close>

definition compute_pct :: "chrono_lib \<Rightarrow> string \<Rightarrow> string \<Rightarrow> int" where
  "compute_pct ch cursor mx =
     (case (parse_cursor ch cursor, parse_cursor ch mx) of
       (Some c, Some m) \<Rightarrow>
         if m \<le> c then 100
         else max 0 (min 100 (timestamp_millis c * 100 div max 1 (timestamp_millis m)))
     | _ \<Rightarrow> 0)"

subsection \<open>The control table\<close>

text \<open>\<open>ORDER BY started_at DESC LIMIT 1\<close>; of equal stamps the first row.\<close>

fun latest :: "sync_run list \<Rightarrow> sync_run option" where
  "latest [] = None"
| "latest (r # rs) =
     (case latest rs of
       None \<Rightarrow> Some r
     | Some r' \<Rightarrow> if sr_started_at r' > sr_started_at r then Some r' else Some r)"

definition find_resumable_cursor :: "bool \<Rightarrow> string \<Rightarrow> sync_run list \<Rightarrow> string + string option" where
  "find_resumable_cursor ok task_id runs =
     (if \<not> ok then Inl ''fetch latest data_sync_runs row for resume''
      else Inr (case latest (filter (\<lambda>r. sr_task_id r = task_id) runs) of
          Some r \<Rightarrow> (case sr_cursor r of
              Some cursor \<Rightarrow> if sr_status r \<noteq> ''succeeded'' then Some cursor else None
            | None \<Rightarrow> None)
        | None \<Rightarrow> None))"

definition running_of :: "string \<Rightarrow> sync_run \<Rightarrow> bool" where
  "running_of task_id r = (sr_task_id r = task_id \<and> sr_status r = ''running'')"

definition check_cancel :: "bool \<Rightarrow> string \<Rightarrow> sync_run list \<Rightarrow> string + bool" where
  "check_cancel ok task_id runs =
     (if \<not> ok then Inl ''poll cancel_requested''
      else Inr (case latest (filter (running_of task_id) runs) of
          Some r \<Rightarrow> sr_cancel_requested r
        | None \<Rightarrow> False))"

definition update_progress :: "chrono_lib \<Rightarrow> bool \<Rightarrow> string \<Rightarrow> string \<Rightarrow> string \<Rightarrow> nat \<Rightarrow> nat \<Rightarrow> sync_run list \<Rightarrow> string + sync_run list" where
  "update_progress ch ok task_id cursor mx processed failed runs =
     (if \<not> ok then Inl ''update data_sync_runs progress''
      else Inr (map (\<lambda>r. if running_of task_id r
          then r\<lparr>sr_cursor := Some cursor, sr_progress := compute_pct ch cursor mx,
                 sr_processed_rows := processed, sr_failed_rows := failed\<rparr>
          else r) runs))"

text \<open>The request of another user that reaches the table while the run goes on.\<close>

definition request_cancel :: "string \<Rightarrow> sync_run list \<Rightarrow> sync_run list" where
  "request_cancel task_id runs =
     map (\<lambda>r. if running_of task_id r then r\<lparr>sr_cancel_requested := True\<rparr> else r) runs"

subsection \<open>The batch loop\<close>

definition retry_backoff_ms :: "nat list" where
  "retry_backoff_ms = [1000, 4000, 16000]"

text \<open>The attempts \<open>1..=attempts\<close>; the result comes with the waits in between, in milliseconds.\<close>

fun retry_from :: "nat \<Rightarrow> (nat \<Rightarrow> string + 'v) \<Rightarrow> nat list \<Rightarrow> (unit + 'v) \<times> nat list" where
  "retry_from attempts f [] = (Inl (), [])"
| "retry_from attempts f (attempt # rest) =
     (case f attempt of
       Inr v \<Rightarrow> (Inr v, [])
     | Inl e \<Rightarrow>
         if attempt = attempts then (Inl (), [])
         else let backoff = (if attempt - 1 < length retry_backoff_ms then retry_backoff_ms ! (attempt - 1) else 16000);
                  (r, waits) = retry_from attempts f rest
              in (r, backoff # waits))"

definition retry_batch_insert :: "nat \<Rightarrow> (nat \<Rightarrow> string + 'v) \<Rightarrow> (unit + 'v) \<times> nat list" where
  "retry_batch_insert max_retries f =
     (let attempts = max 1 max_retries in retry_from attempts f [1..<attempts + 1])"

datatype target_write =
    SqlWrite "query_builder option"
  | HttpWrite string "json_map list"

datatype etl_event =
    TruncateSql string
  | TruncateHttp http_request
  | Queried string string string "sync_row list"
  | Wrote target_write "nat list"

record etl_env =
  en_probe :: "string \<Rightarrow> string + string option \<times> string option"
  en_now :: string
  en_cancel :: "nat \<Rightarrow> bool"
  en_poll_ok :: "nat \<Rightarrow> bool"
  en_fetch :: "nat \<Rightarrow> string \<Rightarrow> string \<Rightarrow> string \<Rightarrow> string + sync_row list"
  en_sql :: "nat \<Rightarrow> nat \<Rightarrow> query_builder \<Rightarrow> string + unit"
  en_http :: "nat \<Rightarrow> nat \<Rightarrow> http_request \<Rightarrow> http_answer"
  en_millis :: "nat \<Rightarrow> nat \<Rightarrow> nat"
  en_progress_ok :: "nat \<Rightarrow> bool"

record etl_state =
  es_turn :: nat
  es_cursor :: string
  es_processed :: nat
  es_failed :: nat
  es_attempts :: nat
  es_runs :: "sync_run list"
  es_log :: "etl_event list"

datatype etl_end = Finished sync_outcome | EtlError string | Panicked

definition outcome_of :: "bool \<Rightarrow> etl_state \<Rightarrow> sync_outcome" where
  "outcome_of canceled st =
     \<lparr>oc_processed_rows = es_processed st, oc_failed_rows = es_failed st, oc_canceled = canceled\<rparr>"

record loop_ctx =
  lc_task_id :: string
  lc_config :: data_sync_config
  lc_src_conn :: connection_row
  lc_batch_size :: nat
  lc_resume_cursor :: "string option"
  lc_batch_retries :: nat

text \<open>
  What distinguishes the six loops: the query, what an error of the query says, the statement for
  a batch, the answer to it (on turn \<open>k\<close> and attempt \<open>j\<close>, with the number of attempts made for
  earlier batches), and the rows counted for a successful write of \<open>n\<close> rows.
\<close>

record etl_path =
  ep_fetch_sql :: string
  ep_fetch_error :: "string \<Rightarrow> string"
  ep_write :: "sync_row list \<Rightarrow> target_write"
  ep_insert :: "nat \<Rightarrow> nat \<Rightarrow> nat \<Rightarrow> sync_row list \<Rightarrow> string + nat"
  ep_count :: "nat \<Rightarrow> nat \<Rightarrow> nat"

text \<open>The part of a turn behind the query of a batch that is not empty.\<close>

definition etl_write :: "chrono_lib \<Rightarrow> etl_env \<Rightarrow> loop_ctx \<Rightarrow> etl_path \<Rightarrow> string \<Rightarrow> string \<Rightarrow> sync_row list \<Rightarrow> etl_state \<Rightarrow>
    etl_state + etl_end \<times> etl_state" where
  "etl_write ch env ctx path mx nxt rows st =
     (let k = es_turn st;
          w = ep_write path rows;
          (r, waits) = retry_batch_insert (lc_batch_retries ctx) (\<lambda>j. ep_insert path k j (es_attempts st) rows);
          st = (case r of
              Inr written \<Rightarrow> st\<lparr>es_processed := es_processed st + ep_count path (length rows) written\<rparr>
            | Inl _ \<Rightarrow> st\<lparr>es_failed := es_failed st + length rows\<rparr>);
          st = st\<lparr>es_attempts := es_attempts st + length waits + 1, es_log := es_log st @ [Wrote w waits]\<rparr>
      in case update_progress ch (en_progress_ok env k) (lc_task_id ctx) (es_cursor st) mx
                (es_processed st) (es_failed st) (es_runs st) of
           Inl e \<Rightarrow> Inr (EtlError e, st)
         | Inr runs \<Rightarrow>
             let st = st\<lparr>es_runs := runs, es_cursor := nxt, es_turn := Suc k\<rparr>
             in if cursor_gt ch nxt mx then Inr (Finished (outcome_of False st), st) else Inl st)"

text \<open>One turn: to the next state, or out of the loop.\<close>

definition etl_turn :: "chrono_lib \<Rightarrow> etl_env \<Rightarrow> loop_ctx \<Rightarrow> etl_path \<Rightarrow> string \<Rightarrow> etl_state \<Rightarrow> etl_state + etl_end \<times> etl_state" where
  "etl_turn ch env ctx path mx st0 =
     (let k = es_turn st0;
          st = (if en_cancel env k then st0\<lparr>es_runs := request_cancel (lc_task_id ctx) (es_runs st0)\<rparr> else st0)
      in case check_cancel (en_poll_ok env k) (lc_task_id ctx) (es_runs st) of
           Inl e \<Rightarrow> Inr (EtlError e, st)
         | Inr True \<Rightarrow> Inr (Finished (outcome_of True st), st)
         | Inr False \<Rightarrow>
             (case advance_cursor ch (es_cursor st) (lc_batch_size ctx) of
               None \<Rightarrow> Inr (Panicked, st)
             | Some nxt \<Rightarrow>
                 (case en_fetch env k (ep_fetch_sql path) (es_cursor st) nxt of
                   Inl e \<Rightarrow> Inr (EtlError (ep_fetch_error path e), st)
                 | Inr rows \<Rightarrow>
                     let st = st\<lparr>es_log := es_log st @ [Queried (ep_fetch_sql path) (es_cursor st) nxt rows]\<rparr>
                     in if rows = []
                        then (if cursor_gt ch nxt mx then Inr (Finished (outcome_of False st), st)
                              else Inl (st\<lparr>es_cursor := nxt, es_turn := Suc k\<rparr>))
                        else etl_write ch env ctx path mx nxt rows st)))"

fun etl_loop :: "nat \<Rightarrow> chrono_lib \<Rightarrow> etl_env \<Rightarrow> loop_ctx \<Rightarrow> etl_path \<Rightarrow> string \<Rightarrow> etl_state \<Rightarrow> (etl_end \<times> etl_state) option" where
  "etl_loop 0 ch env ctx path mx st = None"
| "etl_loop (Suc n) ch env ctx path mx st =
     (case etl_turn ch env ctx path mx st of
       Inl st' \<Rightarrow> etl_loop n ch env ctx path mx st'
     | Inr r \<Rightarrow> Some r)"

subsection \<open>The six paths\<close>

definition probe_sql_mysql :: "data_sync_config \<Rightarrow> string" where
  "probe_sql_mysql cfg =
     (let f = quote (bc_time_field (dc_batching cfg)) DMySql
      in ''SELECT CAST(MIN('' @ f @ '') AS CHAR), CAST(MAX('' @ f @ '') AS CHAR) FROM '' @
         quote (sc_table (dc_source cfg)) DMySql)"

definition probe_sql_pg :: "data_sync_config \<Rightarrow> string" where
  "probe_sql_pg cfg =
     (let f = quote (bc_time_field (dc_batching cfg)) DPostgres
      in ''SELECT MIN('' @ f @ '')::text, MAX('' @ f @ '')::text FROM '' @
         quote (sc_table (dc_source cfg)) DPostgres)"

definition resolve_window :: "etl_env \<Rightarrow> string \<Rightarrow> string \<Rightarrow> data_sync_config \<Rightarrow> string option \<Rightarrow> string + string \<times> string" where
  "resolve_window env q ctx_msg cfg resume_cursor =
     (case en_probe env q of
       Inl e \<Rightarrow> Inl ctx_msg
     | Inr (lo, hi) \<Rightarrow>
         let mn = (case lo of Some x \<Rightarrow> x | None \<Rightarrow> en_now env);
             mx = (case hi of Some x \<Rightarrow> x | None \<Rightarrow> en_now env);
             start = (case or_else resume_cursor (bc_start (dc_batching cfg)) of Some x \<Rightarrow> x | None \<Rightarrow> mn)
         in Inr (start, mx))"

definition resolve_window_mysql :: "etl_env \<Rightarrow> data_sync_config \<Rightarrow> string option \<Rightarrow> string + string \<times> string" where
  "resolve_window_mysql env cfg resume_cursor =
     resolve_window env (probe_sql_mysql cfg) ''probe MIN/MAX (mysql)'' cfg resume_cursor"

definition resolve_window_pg :: "etl_env \<Rightarrow> data_sync_config \<Rightarrow> string option \<Rightarrow> string + string \<times> string" where
  "resolve_window_pg env cfg resume_cursor =
     resolve_window env (probe_sql_pg cfg) ''probe MIN/MAX (pg)'' cfg resume_cursor"

text \<open>The truncate guards; an error of the statement is ignored.\<close>

definition maybe_truncate_mysql :: "data_sync_config \<Rightarrow> bool \<Rightarrow> etl_event list" where
  "maybe_truncate_mysql cfg is_resume =
     (if is_resume then []
      else if dc_target_strategy cfg = Truncate
      then [TruncateSql (''TRUNCATE TABLE '' @ quote (tg_table (dc_target cfg)) DMySql)] else [])"

definition maybe_truncate_pg :: "data_sync_config \<Rightarrow> bool \<Rightarrow> etl_event list" where
  "maybe_truncate_pg cfg is_resume =
     (if is_resume then []
      else if dc_target_strategy cfg = Truncate
      then [TruncateSql (''TRUNCATE TABLE '' @ quote (tg_table (dc_target cfg)) DPostgres)] else [])"

definition maybe_truncate_ch :: "clickhouse_client \<Rightarrow> data_sync_config \<Rightarrow> bool \<Rightarrow> etl_event list" where
  "maybe_truncate_ch ck cfg is_resume =
     (if is_resume then []
      else if dc_target_strategy cfg = Truncate
      then [TruncateHttp (clickhouse_truncate_request ck (tg_table (dc_target cfg)))] else [])"

text \<open>The libraries the statements go through.\<close>

record sync_libs =
  sl_chrono :: chrono_lib
  sl_ph_mysql :: "nat \<Rightarrow> string"
  sl_ph_pg :: "nat \<Rightarrow> string"
  sl_json_text :: "json \<Rightarrow> string"
  sl_from_str :: "string \<Rightarrow> json option"
  sl_b64 :: "string \<Rightarrow> string"

definition sql_path :: "string \<Rightarrow> (string \<Rightarrow> string) \<Rightarrow> etl_env \<Rightarrow> (sync_row list \<Rightarrow> query_builder option) \<Rightarrow> etl_path" where
  "sql_path fetch_sql fetch_error env stmt =
     \<lparr>ep_fetch_sql = fetch_sql, ep_fetch_error = fetch_error, ep_write = (\<lambda>rows. SqlWrite (stmt rows)),
      ep_insert = (\<lambda>k j before rows. case stmt rows of
          None \<Rightarrow> Inr 0
        | Some qb \<Rightarrow> (case en_sql env k j qb of Inl e \<Rightarrow> Inl e | Inr _ \<Rightarrow> Inr 0)),
      ep_count = (\<lambda>n written. n)\<rparr>"

text \<open>Window, truncate guard, loop: what every path does once its statements are built.\<close>

definition run_path :: "nat \<Rightarrow> chrono_lib \<Rightarrow> etl_env \<Rightarrow> loop_ctx \<Rightarrow> string + string \<times> string \<Rightarrow> etl_event list \<Rightarrow> etl_path \<Rightarrow>
    sync_run list \<Rightarrow> (etl_end \<times> etl_state) option" where
  "run_path fuel ch env ctx window cleared path runs =
     (let st = \<lparr>es_turn = 0, es_cursor = '''', es_processed = 0, es_failed = 0, es_attempts = 0, es_runs = runs, es_log = []\<rparr>
      in case window of
           Inl e \<Rightarrow> Some (EtlError e, st)
         | Inr (cursor, mx) \<Rightarrow> etl_loop fuel ch env ctx path mx (st\<lparr>es_cursor := cursor, es_log := cleared\<rparr>))"

definition etl_mysql_to_mysql :: "nat \<Rightarrow> sync_libs \<Rightarrow> etl_env \<Rightarrow> loop_ctx \<Rightarrow> sync_run list \<Rightarrow> (etl_end \<times> etl_state) option" where
  "etl_mysql_to_mysql fuel lib env ctx runs =
     (let cfg = lc_config ctx;
          cols = cm_columns (dc_column_mapping cfg);
          fetch_sql = mysql_select (build_select_sql cfg (lc_src_conn ctx) DMySql)
      in run_path fuel (sl_chrono lib) env ctx (resolve_window_mysql env cfg (lc_resume_cursor ctx))
           (maybe_truncate_mysql cfg (lc_resume_cursor ctx \<noteq> None))
           (sql_path fetch_sql (\<lambda>_. ''fetch batch (mysql)'') env
             (\<lambda>rows. insert_batch_mysql (sl_ph_mysql lib) (sl_json_text lib) cfg rows cols)) runs)"

definition etl_pg_to_pg :: "nat \<Rightarrow> sync_libs \<Rightarrow> etl_env \<Rightarrow> loop_ctx \<Rightarrow> sync_run list \<Rightarrow> (etl_end \<times> etl_state) option" where
  "etl_pg_to_pg fuel lib env ctx runs =
     (let cfg = lc_config ctx;
          cols = cm_columns (dc_column_mapping cfg);
          fetch_sql = pg_select (build_select_sql cfg (lc_src_conn ctx) DPostgres)
      in run_path fuel (sl_chrono lib) env ctx (resolve_window_pg env cfg (lc_resume_cursor ctx))
           (maybe_truncate_pg cfg (lc_resume_cursor ctx = None))
           (sql_path fetch_sql (\<lambda>_. ''fetch batch (pg)'') env
             (\<lambda>rows. insert_batch_pg (sl_ph_pg lib) (sl_json_text lib) cfg rows cols)) runs)"

datatype source_kind = SrcMySql | SrcPostgres
datatype target_kind = TgtMySql | TgtPostgres

fun etl_cross :: "source_kind \<Rightarrow> target_kind \<Rightarrow> nat \<Rightarrow> sync_libs \<Rightarrow> etl_env \<Rightarrow> loop_ctx \<Rightarrow> sync_run list \<Rightarrow> (etl_end \<times> etl_state) option" where
  "etl_cross SrcMySql TgtPostgres fuel lib env ctx runs =
     (let cfg = lc_config ctx;
          cols = cm_columns (dc_column_mapping cfg);
          fetch_sql = mysql_select (build_select_sql cfg (lc_src_conn ctx) DMySql)
      in run_path fuel (sl_chrono lib) env ctx (resolve_window_mysql env cfg (lc_resume_cursor ctx))
           (maybe_truncate_pg cfg (lc_resume_cursor ctx = None))
           (sql_path fetch_sql (\<lambda>e. e) env
             (\<lambda>rows. insert_json_batch_pg (sl_json_text lib) cfg (rows_to_json_mysql rows cols) cols)) runs)"
| "etl_cross SrcPostgres TgtMySql fuel lib env ctx runs =
     (let cfg = lc_config ctx;
          cols = cm_columns (dc_column_mapping cfg);
          fetch_sql = pg_select (build_select_sql cfg (lc_src_conn ctx) DPostgres)
      in run_path fuel (sl_chrono lib) env ctx (resolve_window_pg env cfg (lc_resume_cursor ctx))
           (maybe_truncate_mysql cfg (lc_resume_cursor ctx = None))
           (sql_path fetch_sql (\<lambda>e. e) env
             (\<lambda>rows. insert_json_batch_mysql (sl_ph_mysql lib) (sl_json_text lib) cfg (rows_to_json_pg rows cols) cols)) runs)"
| "etl_cross _ _ fuel lib env ctx runs =
     Some (EtlError ''unsupported source/target combination for cross-driver ETL'',
       \<lparr>es_turn = 0, es_cursor = '''', es_processed = 0, es_failed = 0, es_attempts = 0, es_runs = runs, es_log = []\<rparr>)"

definition http_window :: "source_kind \<Rightarrow> etl_env \<Rightarrow> loop_ctx \<Rightarrow> string + string \<times> string" where
  "http_window src env ctx =
     (case src of
       SrcMySql \<Rightarrow> resolve_window_mysql env (lc_config ctx) (lc_resume_cursor ctx)
     | SrcPostgres \<Rightarrow> resolve_window_pg env (lc_config ctx) (lc_resume_cursor ctx))"

definition http_fetch_sql :: "source_kind \<Rightarrow> loop_ctx \<Rightarrow> string" where
  "http_fetch_sql src ctx =
     (case src of
       SrcMySql \<Rightarrow> mysql_select (build_select_sql (lc_config ctx) (lc_src_conn ctx) DMySql)
     | SrcPostgres \<Rightarrow> pg_select (build_select_sql (lc_config ctx) (lc_src_conn ctx) DPostgres))"

definition http_rows :: "source_kind \<Rightarrow> sync_row list \<Rightarrow> column_select list \<Rightarrow> json_map list" where
  "http_rows src rows cols =
     (case src of SrcMySql \<Rightarrow> rows_to_json_mysql rows cols | SrcPostgres \<Rightarrow> rows_to_json_pg rows cols)"

definition clickhouse_path :: "(json \<Rightarrow> string) \<Rightarrow> etl_env \<Rightarrow> clickhouse_client \<Rightarrow> string \<Rightarrow> string \<Rightarrow> (sync_row list \<Rightarrow> json_map list) \<Rightarrow> etl_path" where
  "clickhouse_path json_text env ck fetch_sql table to_json =
     \<lparr>ep_fetch_sql = fetch_sql, ep_fetch_error = (\<lambda>e. e), ep_write = (\<lambda>rows. HttpWrite table (to_json rows)),
      ep_insert = (\<lambda>k j before rows. clickhouse_insert_batch json_text (en_http env k j) ck table (to_json rows)),
      ep_count = (\<lambda>n written. written)\<rparr>"

definition etl_to_clickhouse :: "source_kind \<Rightarrow> clickhouse_client \<Rightarrow> nat \<Rightarrow> sync_libs \<Rightarrow> etl_env \<Rightarrow> loop_ctx \<Rightarrow> sync_run list \<Rightarrow> (etl_end \<times> etl_state) option" where
  "etl_to_clickhouse src ck fuel lib env ctx runs =
     (let cfg = lc_config ctx;
          cols = cm_columns (dc_column_mapping cfg);
          table = tg_table (dc_target cfg)
      in run_path fuel (sl_chrono lib) env ctx (http_window src env ctx)
           (maybe_truncate_ch ck cfg (lc_resume_cursor ctx \<noteq> None))
           (clickhouse_path (sl_json_text lib) env ck (http_fetch_sql src ctx) table (\<lambda>rows. http_rows src rows cols)) runs)"

definition etl_to_doris_stream_load :: "source_kind \<Rightarrow> doris_client \<Rightarrow> nat \<Rightarrow> sync_libs \<Rightarrow> etl_env \<Rightarrow> loop_ctx \<Rightarrow> sync_run list \<Rightarrow> (etl_end \<times> etl_state) option" where
  "etl_to_doris_stream_load src ds fuel lib env ctx runs =
     (let cfg = lc_config ctx;
          cols = cm_columns (dc_column_mapping cfg);
          table = tg_table (dc_target cfg)
      in run_path fuel (sl_chrono lib) env ctx (http_window src env ctx) []
           \<lparr>ep_fetch_sql = http_fetch_sql src ctx, ep_fetch_error = (\<lambda>e. e),
            ep_write = (\<lambda>rows. HttpWrite table (http_rows src rows cols)),
            ep_insert = (\<lambda>k j before rows.
              fst (doris_insert_batch (sl_json_text lib) (sl_from_str lib) (en_millis env k j) (en_http env k j) table
                (http_rows src rows cols) (ds\<lparr>ds_label_seq := ds_label_seq ds + of_nat (before + j - 1)\<rparr>))),
            ep_count = (\<lambda>n written. written)\<rparr> runs)"

subsection \<open>A run\<close>

record sync_task =
  tr_name :: string
  tr_config :: string
  tr_source_db_id :: string
  tr_target_db_id :: "string option"
  tr_notify_channels :: string
  tr_last_run_at :: "string option"
  tr_last_status :: "string option"

record sync_db =
  sd_tasks :: "string \<Rightarrow> sync_task option"
  sd_connections :: "string \<Rightarrow> connection_row option"
  sd_runs :: "sync_run list"

record sync_io =
  io_run_id :: string
  io_now :: string
  io_end :: string
  io_elapsed_ms :: nat
  io_resume_ok :: bool
  io_insert_ok :: bool
  io_task_ok :: bool
  io_connection_ok :: "string \<Rightarrow> bool"
  io_finish_ok :: bool
  io_status_ok :: bool
  io_parse_config :: "string \<Rightarrow> string + data_sync_config"
  io_decrypt :: "string \<Rightarrow> string + string"
  io_connect :: "connection_row \<Rightarrow> string \<Rightarrow> string + unit"
  io_default_batch_size :: nat
  io_env :: etl_env
  io_parse_channels :: "string \<Rightarrow> json list option"
  io_client :: "string + unit"
  io_parse_url :: "string \<Rightarrow> string + string option"
  io_send :: "nat \<Rightarrow> string + nat"
  io_dev_mode :: bool

datatype sync_db_type = SyncMySql | SyncPostgres | SyncClickHouse | SyncDoris

definition sync_from_db_type_str :: "string \<Rightarrow> sync_db_type option" where
  "sync_from_db_type_str s =
     (let l = map to_ascii_lower s in
      if l = ''mysql'' then Some SyncMySql
      else if l = ''postgres'' \<or> l = ''postgresql'' \<or> l = ''pg'' then Some SyncPostgres
      else if l = ''clickhouse'' then Some SyncClickHouse
      else if l = ''doris'' then Some SyncDoris
      else None)"

fun config_error_text :: "config_error \<Rightarrow> string" where
  "config_error_text (UnsafeIdentifier f) =
     ''unsafe identifier in field `'' @ f @ ''` (must match [A-Za-z_][A-Za-z0-9_]{1,64})''"
| "config_error_text (InvalidOnClause f) =
     ''invalid ON clause in field `'' @ f @ ''` (expected `alias.col = alias.col`)''"
| "config_error_text NoColumns = ''column_mapping must select at least one column or define a constant''"
| "config_error_text InvalidBatchSize = ''batch_size must be > 0''"
| "config_error_text InvalidStartDate = ''batching.start must be ISO8601 / RFC3339''"
| "config_error_text EmptyCron = ''schedule.cron must not be empty''"

definition load_connection :: "sync_io \<Rightarrow> sync_db \<Rightarrow> string \<Rightarrow> string + connection_row" where
  "load_connection io db cid =
     (if \<not> io_connection_ok io cid then Inl ''fetch connection''
      else ok_or (''connection '' @ cid @ '' not found'') (sd_connections db cid))"

definition load_task :: "sync_io \<Rightarrow> sync_db \<Rightarrow> string \<Rightarrow> string \<Rightarrow> string \<Rightarrow> string + sync_task" where
  "load_task io db task_id ctx_msg missing =
     (if \<not> io_task_ok io then Inl ctx_msg else ok_or missing (sd_tasks db task_id))"

text \<open>\<open>conn.port as u16\<close>.\<close>

definition port_u16 :: "connection_row \<Rightarrow> nat" where
  "port_u16 conn = nat (cr_port conn mod 65536)"

definition default_db :: "connection_row \<Rightarrow> string" where
  "default_db conn = (case cr_default_database conn of None \<Rightarrow> ''default'' | Some d \<Rightarrow> d)"

definition open_mysql_pool :: "sync_io \<Rightarrow> connection_row \<Rightarrow> string \<Rightarrow> string + unit" where
  "open_mysql_pool io conn password =
     (case io_connect io conn password of Inl e \<Rightarrow> Inl (''mysql connect failed: '' @ e) | Inr u \<Rightarrow> Inr u)"

definition open_pg_pool :: "sync_io \<Rightarrow> connection_row \<Rightarrow> string \<Rightarrow> string + unit" where
  "open_pg_pool io conn password =
     (case io_connect io conn password of Inl e \<Rightarrow> Inl (''postgres connect failed: '' @ e) | Inr u \<Rightarrow> Inr u)"

definition open_clickhouse :: "sync_libs \<Rightarrow> connection_row \<Rightarrow> string \<Rightarrow> clickhouse_client" where
  "open_clickhouse lib conn password =
     clickhouse_new (sl_b64 lib) (cr_host conn) (port_u16 conn) (cr_username conn) password (default_db conn)"

definition open_doris_stream_load :: "sync_libs \<Rightarrow> connection_row \<Rightarrow> string \<Rightarrow> doris_client" where
  "open_doris_stream_load lib conn password =
     doris_new (sl_b64 lib) (cr_host conn) (port_u16 conn) (cr_username conn) password (default_db conn)"

text \<open>Everything a run needs before it can dispatch.\<close>

record sync_plan =
  sp_ctx :: loop_ctx
  sp_src :: connection_row
  sp_tgt :: connection_row
  sp_src_password :: string
  sp_tgt_password :: string
  sp_src_db :: sync_db_type
  sp_tgt_db :: sync_db_type

definition prepare_run :: "sync_libs \<Rightarrow> sync_io \<Rightarrow> sync_db \<Rightarrow> string \<Rightarrow> string option \<Rightarrow> string + sync_plan" where
  "prepare_run lib io db task_id resume_cursor =
     and_then (load_task io db task_id ''fetch scheduled_task'' (''task '' @ task_id @ '' not found'')) (\<lambda>task.
     and_then (case io_parse_config io (tr_config task) of Inl e \<Rightarrow> Inl (''parse data_sync config: '' @ e) | Inr c \<Rightarrow> Inr c) (\<lambda>cfg.
     and_then (case config_validate (rfc3339 (sl_chrono lib)) cfg of
         Inl e \<Rightarrow> Inl (''invalid config: '' @ config_error_text e) | Inr u \<Rightarrow> Inr u) (\<lambda>_.
     and_then (ok_or (''data_sync task '' @ task_id @ '' has no target_db_id'') (tr_target_db_id task)) (\<lambda>tgt_id.
     and_then (load_connection io db (tr_source_db_id task)) (\<lambda>src.
     and_then (load_connection io db tgt_id) (\<lambda>tgt.
     and_then (case io_decrypt io (cr_password_encrypted src) of
         Inl e \<Rightarrow> Inl (''source credential decrypt failed: '' @ e) | Inr p \<Rightarrow> Inr p) (\<lambda>src_password.
     and_then (case io_decrypt io (cr_password_encrypted tgt) of
         Inl e \<Rightarrow> Inl (''target credential decrypt failed: '' @ e) | Inr p \<Rightarrow> Inr p) (\<lambda>tgt_password.
     and_then (ok_or (''unsupported source db_type: '' @ cr_db_type src) (sync_from_db_type_str (cr_db_type src))) (\<lambda>src_db.
     and_then (ok_or (''unsupported target db_type: '' @ cr_db_type tgt) (sync_from_db_type_str (cr_db_type tgt))) (\<lambda>tgt_db.
     let default_batch = max 1 (io_default_batch_size io);
         batch_size = max 1 (case bc_batch_size (dc_batching cfg) of Some n \<Rightarrow> n | None \<Rightarrow> default_batch)
     in Inr \<lparr>sp_ctx = \<lparr>lc_task_id = task_id, lc_config = cfg, lc_src_conn = src, lc_batch_size = batch_size,
              lc_resume_cursor = resume_cursor,
              lc_batch_retries = (case bc_batch_retries (dc_batching cfg) of Some n \<Rightarrow> n | None \<Rightarrow> 3)\<rparr>,
            sp_src = src, sp_tgt = tgt, sp_src_password = src_password, sp_tgt_password = tgt_password,
            sp_src_db = src_db, sp_tgt_db = tgt_db\<rparr>))))))))))"

text \<open>Open the source, then the target where it is a database, then run the path.\<close>

definition with_pools :: "string + unit \<Rightarrow> string + unit \<Rightarrow> sync_run list \<Rightarrow> (etl_end \<times> etl_state) option \<Rightarrow> (etl_end \<times> sync_run list) option" where
  "with_pools src tgt runs etl =
     (case and_then src (\<lambda>_. tgt) of
       Inl e \<Rightarrow> Some (EtlError e, runs)
     | Inr _ \<Rightarrow> map_option (\<lambda>(r, st). (r, es_runs st)) etl)"

definition dispatch :: "nat \<Rightarrow> sync_libs \<Rightarrow> sync_io \<Rightarrow> sync_plan \<Rightarrow> sync_run list \<Rightarrow> (etl_end \<times> sync_run list) option" where
  "dispatch fuel lib io p runs =
     (let ctx = sp_ctx p; env = io_env io;
          src_my = open_mysql_pool io (sp_src p) (sp_src_password p);
          src_pg = open_pg_pool io (sp_src p) (sp_src_password p);
          tgt_my = open_mysql_pool io (sp_tgt p) (sp_tgt_password p);
          tgt_pg = open_pg_pool io (sp_tgt p) (sp_tgt_password p);
          ck = open_clickhouse lib (sp_tgt p) (sp_tgt_password p);
          ds = open_doris_stream_load lib (sp_tgt p) (sp_tgt_password p)
      in case (sp_src_db p, sp_tgt_db p) of
        (SyncMySql, SyncMySql) \<Rightarrow> with_pools src_my tgt_my runs (etl_mysql_to_mysql fuel lib env ctx runs)
      | (SyncPostgres, SyncPostgres) \<Rightarrow> with_pools src_pg tgt_pg runs (etl_pg_to_pg fuel lib env ctx runs)
      | (SyncMySql, SyncPostgres) \<Rightarrow> with_pools src_my tgt_pg runs (etl_cross SrcMySql TgtPostgres fuel lib env ctx runs)
      | (SyncPostgres, SyncMySql) \<Rightarrow> with_pools src_pg tgt_my runs (etl_cross SrcPostgres TgtMySql fuel lib env ctx runs)
      | (SyncMySql, SyncClickHouse) \<Rightarrow> with_pools src_my (Inr ()) runs (etl_to_clickhouse SrcMySql ck fuel lib env ctx runs)
      | (SyncPostgres, SyncClickHouse) \<Rightarrow> with_pools src_pg (Inr ()) runs (etl_to_clickhouse SrcPostgres ck fuel lib env ctx runs)
      | (SyncClickHouse, _) \<Rightarrow> Some (EtlError ''clickhouse can only be used as data_sync target, not source'', runs)
      | (SyncMySql, SyncDoris) \<Rightarrow> with_pools src_my (Inr ()) runs (etl_to_doris_stream_load SrcMySql ds fuel lib env ctx runs)
      | (SyncPostgres, SyncDoris) \<Rightarrow> with_pools src_pg (Inr ()) runs (etl_to_doris_stream_load SrcPostgres ds fuel lib env ctx runs)
      | (SyncDoris, _) \<Rightarrow> Some (EtlError ''doris can only be used as data_sync target, not source'', runs))"

definition sync_run_task_inner :: "nat \<Rightarrow> sync_libs \<Rightarrow> sync_io \<Rightarrow> string \<Rightarrow> string option \<Rightarrow> sync_db \<Rightarrow> (etl_end \<times> sync_db) option" where
  "sync_run_task_inner fuel lib io task_id resume_cursor db =
     (case prepare_run lib io db task_id resume_cursor of
       Inl e \<Rightarrow> Some (EtlError e, db)
     | Inr p \<Rightarrow> map_option (\<lambda>(r, runs). (r, db\<lparr>sd_runs := runs\<rparr>)) (dispatch fuel lib io p (sd_runs db)))"

definition sync_update_task_status :: "sync_io \<Rightarrow> string \<Rightarrow> string \<Rightarrow> sync_db \<Rightarrow> sync_db" where
  "sync_update_task_status io task_id status db =
     (if \<not> io_status_ok io then db
      else db\<lparr>sd_tasks := (sd_tasks db)(task_id := map_option
          (\<lambda>t. t\<lparr>tr_last_run_at := Some (io_end io), tr_last_status := Some status\<rparr>) (sd_tasks db task_id))\<rparr>)"

definition finish_run :: "sync_io \<Rightarrow> (sync_run \<Rightarrow> sync_run) \<Rightarrow> sync_db \<Rightarrow> sync_db" where
  "finish_run io f db =
     (if \<not> io_finish_ok io then db
      else db\<lparr>sd_runs := map (\<lambda>r. if sr_id r = io_run_id io then f r else r) (sd_runs db)\<rparr>)"

definition run_summary :: "sync_io \<Rightarrow> sync_outcome \<Rightarrow> json" where
  "run_summary io o' = JObj [(''duration_ms'', JNum (int (io_elapsed_ms io))),
     (''processed_rows'', JNum (int (oc_processed_rows o'))), (''failed_rows'', JNum (int (oc_failed_rows o'))),
     (''canceled'', JBool (oc_canceled o'))]"

text \<open>
  The notification of a failed or partly failed run. Its result is logged only; the value here is
  what was sent.
\<close>

definition maybe_notify :: "sync_io \<Rightarrow> string \<Rightarrow> sync_db \<Rightarrow> delivery_trace" where
  "maybe_notify io task_id db =
     (case load_task io db task_id ''fetch task for notify'' (''task '' @ task_id @ '' not found for notify'') of
       Inl e \<Rightarrow> empty_trace
     | Inr task \<Rightarrow>
         (case first_webhook_url (io_parse_channels io) (tr_notify_channels task) of
           None \<Rightarrow> empty_trace
         | Some url \<Rightarrow> snd (sync_deliver (io_client io) (io_parse_url io) (io_send io) url (io_dev_mode io) default_backoffs)))"

text \<open>
  The entry. Without a result the run did not end; a panic ends it before anything is written back.
\<close>

definition sync_run_task :: "nat \<Rightarrow> sync_libs \<Rightarrow> sync_io \<Rightarrow> string \<Rightarrow> string \<Rightarrow> sync_db \<Rightarrow> (etl_end \<times> sync_db \<times> delivery_trace) option" where
  "sync_run_task fuel lib io task_id triggered_by db =
     (let resume_cursor = (case find_resumable_cursor (io_resume_ok io) task_id (sd_runs db) of Inr c \<Rightarrow> c | Inl e \<Rightarrow> None)
      in if \<not> io_insert_ok io then Some (EtlError ''insert data_sync_runs running row'', db, empty_trace)
         else
         let row = \<lparr>sr_id = io_run_id io, sr_task_id = task_id, sr_started_at = io_now io, sr_status = ''running'',
               sr_triggered_by = triggered_by, sr_cursor = None, sr_progress = 0, sr_processed_rows = 0, sr_failed_rows = 0,
               sr_cancel_requested = False, sr_finished_at = None, sr_summary = None, sr_error = None\<rparr>
         in case sync_run_task_inner fuel lib io task_id resume_cursor (db\<lparr>sd_runs := sd_runs db @ [row]\<rparr>) of
              None \<Rightarrow> None
            | Some (Panicked, db) \<Rightarrow> Some (Panicked, db, empty_trace)
            | Some (Finished o', db) \<Rightarrow>
                let status = (if oc_canceled o' then ''canceled'' else ''succeeded'');
                    db = finish_run io (\<lambda>r. r\<lparr>sr_finished_at := Some (io_end io), sr_status := status,
                      sr_summary := Some (run_summary io o'), sr_processed_rows := oc_processed_rows o',
                      sr_failed_rows := oc_failed_rows o'\<rparr>) db;
                    db = sync_update_task_status io task_id status db
                in Some (Finished o', db, if oc_failed_rows o' > 0 then maybe_notify io task_id db else empty_trace)
            | Some (EtlError e, db) \<Rightarrow>
                let db = finish_run io (\<lambda>r. r\<lparr>sr_finished_at := Some (io_end io), sr_status := ''failed'',
                      sr_error := Some (sync_redact_error e)\<rparr>) db;
                    db = sync_update_task_status io task_id ''failed'' db
                in Some (EtlError e, db, maybe_notify io task_id db))"

section \<open>Retries\<close>

definition backoff_ms :: "nat \<Rightarrow> nat" where
  "backoff_ms attempt = (if attempt = 1 then 1000 else if attempt = 2 then 4000 else 16000)"

lemma backoff_schedule:
  "1 \<le> a \<Longrightarrow> (if a - 1 < length retry_backoff_ms then retry_backoff_ms ! (a - 1) else 16000) = backoff_ms a"
  by (auto simp: retry_backoff_ms_def backoff_ms_def nth_Cons split: nat.split)

lemma retry_from_eq:
  assumes "1 \<le> a" "a \<le> n"
  shows "retry_from n f [a..<n + 1] =
    (case find (\<lambda>j. \<not> isl (f j)) [a..<n + 1] of
       Some j \<Rightarrow> (Inr (projr (f j)), map backoff_ms [a..<j])
     | None \<Rightarrow> (Inl (), map backoff_ms [a..<n]))"
  using assms
proof (induction "n - a" arbitrary: a)
  case 0
  then have "a = n" by simp
  then show ?case by (cases "f n") simp_all
next
  case (Suc m)
  then have a: "a < n" "[a..<n + 1] = a # [Suc a..<n + 1]" "1 \<le> Suc a" "Suc a \<le> n" "m = n - Suc a"
    by (simp_all add: upt_rec)
  show ?case
  proof (cases "f a")
    case (Inl e)
    define ws where "ws = [Suc a..<n + 1]"
    have step: "retry_from n f (a # ws) = (fst (retry_from n f ws), backoff_ms a # snd (retry_from n f ws))"
      using Inl a(1) backoff_schedule [OF Suc.prems(1)] by (simp add: case_prod_beta Let_def)
    have IH: "retry_from n f ws = (case find (\<lambda>j. \<not> isl (f j)) ws of
        Some j \<Rightarrow> (Inr (projr (f j)), map backoff_ms [Suc a..<j]) | None \<Rightarrow> (Inl (), map backoff_ms [Suc a..<n]))"
      unfolding ws_def by (rule Suc.hyps(1) [OF a(5,3,4)])
    have cons: "[a..<n] = a # [Suc a..<n]" using a(1) by (simp add: upt_conv_Cons)
    show ?thesis
    proof (cases "find (\<lambda>j. \<not> isl (f j)) ws")
      case None
      then show ?thesis unfolding a(2) ws_def [symmetric] step IH cons using Inl by simp
    next
      case (Some j)
      then have "j \<in> set ws" by (metis find_Some_iff nth_mem)
      then have "[a..<j] = a # [Suc a..<j]" by (auto simp: ws_def upt_conv_Cons)
      with Some show ?thesis unfolding a(2) ws_def [symmetric] step IH using Inl by simp
    qed
  next
    case (Inr v)
    then show ?thesis using a by simp
  qed
qed

text \<open>
  A batch is tried until the first success, at most as often as configured and at least once,
  with waits of 1, 4 and then 16 seconds after the failures in between; only when every attempt
  failed is it reported as failed.
\<close>

theorem retry_batch_insert_first_success:
  "retry_batch_insert n f =
    (case find (\<lambda>j. \<not> isl (f j)) [1..<max 1 n + 1] of
       Some j \<Rightarrow> (Inr (projr (f j)), map backoff_ms [1..<j])
     | None \<Rightarrow> (Inl (), map backoff_ms [1..<max 1 n]))"
  unfolding retry_batch_insert_def Let_def by (rule retry_from_eq) simp_all

section \<open>The batch loop\<close>

text \<open>
  What the loop relies on of chrono: between two instants the writer's text parses to the instant
  it was made from, and adding seconds is exact.
\<close>

definition chrono_law :: "chrono_lib \<Rightarrow> int \<Rightarrow> int \<Rightarrow> bool" where
  "chrono_law ch lo hi \<longleftrightarrow>
     (\<forall>t. lo \<le> t \<longrightarrow> t \<le> hi \<longrightarrow> rfc3339 ch (to_rfc3339 ch t) = Some t) \<and>
     (\<forall>t s. lo \<le> t \<longrightarrow> 0 \<le> s \<longrightarrow> t + s * 10 ^ 9 \<le> hi \<longrightarrow> add_seconds ch t s = Some (t + s * 10 ^ 9))"

definition span :: "nat \<Rightarrow> int" where
  "span batch_size = int (max 1 batch_size) * 10 ^ 9"

lemma span_pos: "0 < span n"
  by (simp add: span_def)

lemma as_i64_small: "n < 2 ^ 63 \<Longrightarrow> as_i64 n = int n"
  by (simp add: as_i64_def signed_of_nat signed_take_bit_int_eq_self)

lemma parse_to_rfc3339: "chrono_law ch lo hi \<Longrightarrow> lo \<le> t \<Longrightarrow> t \<le> hi \<Longrightarrow> parse_cursor ch (to_rfc3339 ch t) = Some t"
  by (simp add: chrono_law_def parse_cursor_def)

lemma advance_cursor_parsed:
  assumes "chrono_law ch lo hi" "parse_cursor ch c = Some t" "lo \<le> t" "t + span n \<le> hi" "n < 2 ^ 63"
  shows "\<exists>nxt. advance_cursor ch c n = Some nxt \<and> parse_cursor ch nxt = Some (t + span n)"
proof -
  have "as_i64 (max 1 n) = int (max 1 n)" using assms(5) by (intro as_i64_small) auto
  moreover have "add_seconds ch t (int (max 1 n)) = Some (t + span n)"
    using assms by (simp add: chrono_law_def span_def)
  ultimately show ?thesis
    using assms parse_to_rfc3339 [OF assms(1), of "t + span n"] span_pos [of n]
    by (auto simp: advance_cursor_def)
qed

lemma etl_write_continue:
  "etl_write ch env ctx path mx nxt rows st = Inl st' \<Longrightarrow> es_cursor st' = nxt \<and> \<not> cursor_gt ch nxt mx"
  by (auto simp: etl_write_def Let_def case_prod_beta split: sum.splits if_splits)

lemma etl_write_not_panicked: "etl_write ch env ctx path mx nxt rows st \<noteq> Inr (Panicked, st')"
  by (auto simp: etl_write_def Let_def case_prod_beta split: sum.splits if_splits)

lemma etl_turn_continue:
  "etl_turn ch env ctx path mx st = Inl st' \<Longrightarrow>
   advance_cursor ch (es_cursor st) (lc_batch_size ctx) = Some (es_cursor st') \<and> \<not> cursor_gt ch (es_cursor st') mx"
  unfolding etl_turn_def Let_def
  by (auto split: sum.splits bool.splits option.splits if_splits dest: etl_write_continue)

lemma etl_turn_not_panicked:
  "advance_cursor ch (es_cursor st) (lc_batch_size ctx) = Some nxt \<Longrightarrow> etl_turn ch env ctx path mx st \<noteq> Inr (Panicked, st')"
  unfolding etl_turn_def Let_def
  by (auto simp: etl_write_not_panicked split: sum.splits bool.splits option.splits if_splits)

text \<open>The bounds within which chrono has to be exact for a run from \<open>t\<close> to \<open>m\<close>.\<close>

definition in_range :: "chrono_lib \<Rightarrow> nat \<Rightarrow> int \<Rightarrow> int \<Rightarrow> bool" where
  "in_range ch batch_size t m \<longleftrightarrow> batch_size < 2 ^ 63 \<and>
     (\<exists>lo hi. chrono_law ch lo hi \<and> lo \<le> t \<and> t + span batch_size \<le> hi \<and> m + span batch_size \<le> hi)"

lemma in_range_advance:
  assumes "in_range ch n t m" "parse_cursor ch c = Some t"
  obtains nxt where "advance_cursor ch c n = Some nxt" "parse_cursor ch nxt = Some (t + span n)"
    "t + span n \<le> m \<Longrightarrow> in_range ch n (t + span n) m"
proof -
  obtain lo hi where l: "chrono_law ch lo hi" "lo \<le> t" "t + span n \<le> hi" "m + span n \<le> hi" "n < 2 ^ 63"
    using assms(1) unfolding in_range_def by blast
  obtain nxt where "advance_cursor ch c n = Some nxt" "parse_cursor ch nxt = Some (t + span n)"
    using advance_cursor_parsed [OF l(1) assms(2) l(2,3,5)] by blast
  moreover have "in_range ch n (t + span n) m" if "t + span n \<le> m"
    unfolding in_range_def using l that span_pos [of n] by (intro conjI exI [of _ lo] exI [of _ hi]) auto
  ultimately show thesis using that by blast
qed

lemma etl_loop_returns:
  assumes "parse_cursor ch mx = Some m"
  shows "in_range ch (lc_batch_size ctx) t m \<Longrightarrow> parse_cursor ch (es_cursor st) = Some t \<Longrightarrow>
    m < t + int n * span (lc_batch_size ctx) \<Longrightarrow> 0 < n \<Longrightarrow>
    \<exists>r st'. etl_loop n ch env ctx path mx st = Some (r, st') \<and> r \<noteq> Panicked"
proof (induction n arbitrary: st t)
  case (Suc n)
  let ?d = "span (lc_batch_size ctx)"
  obtain nxt where nxt: "advance_cursor ch (es_cursor st) (lc_batch_size ctx) = Some nxt"
      "parse_cursor ch nxt = Some (t + ?d)" "t + ?d \<le> m \<Longrightarrow> in_range ch (lc_batch_size ctx) (t + ?d) m"
    using in_range_advance [OF Suc.prems(1,2)] by blast
  show ?case
  proof (cases "etl_turn ch env ctx path mx st")
    case (Inl st')
    then have c: "es_cursor st' = nxt" "\<not> cursor_gt ch nxt mx"
      using etl_turn_continue [OF Inl] nxt(1) by auto
    then have le: "t + ?d \<le> m" using nxt(2) assms by (simp add: cursor_gt_def)
    moreover have "m < t + ?d + int n * ?d" using Suc.prems(3) by (simp add: algebra_simps)
    moreover from this le have "0 < n" by (cases n) auto
    ultimately show ?thesis using Suc.IH [of "t + ?d" st'] nxt c Inl by auto
  next
    case (Inr r)
    then show ?thesis using etl_turn_not_panicked [OF nxt(1), of env path mx] by (cases r) auto
  qed
qed simp

text \<open>
  C20. The batch loop ends, on every path and whatever the databases answer, within the number of
  windows between the start and the maximum, where both are texts the cursor parser reads and
  chrono is exact between them; and it does not panic.
\<close>

theorem etl_terminates:
  assumes "parse_cursor ch start = Some t" "parse_cursor ch mx = Some m" "in_range ch (lc_batch_size ctx) t m"
    and "m < t + int fuel * span (lc_batch_size ctx)" "0 < fuel"
  shows "\<exists>r st. run_path fuel ch env ctx (Inr (start, mx)) cleared path runs = Some (r, st) \<and> r \<noteq> Panicked"
proof -
  let ?st = "\<lparr>es_turn = 0, es_cursor = start, es_processed = 0, es_failed = 0, es_attempts = 0, es_runs = runs, es_log = cleared\<rparr>"
  have "parse_cursor ch (es_cursor ?st) = Some t" using assms(1) by simp
  from etl_loop_returns [OF assms(2,3) this assms(4,5)] show ?thesis by (simp add: run_path_def)
qed

lemma latest_in: "latest rs = Some r \<Longrightarrow> r \<in> set rs"
  by (induction rs arbitrary: r) (auto split: option.splits if_splits)

definition uncanceled :: "sync_run list \<Rightarrow> bool" where
  "uncanceled runs = list_all (\<lambda>r. \<not> sr_cancel_requested r) runs"

lemma check_cancel_uncanceled: "uncanceled runs \<Longrightarrow> check_cancel True task runs = Inr False"
proof (cases "latest (filter (running_of task) runs)")
  case (Some r)
  then have "r \<in> set runs" using latest_in [OF Some] by simp
  moreover assume "uncanceled runs"
  ultimately show ?thesis using Some by (simp add: check_cancel_def uncanceled_def list_all_iff)
qed (simp add: check_cancel_def)

text \<open>
  A cursor the parser does not read does not move. Where the source finds nothing in the empty
  window and the text of the cursor is not greater than that of the maximum, the loop goes on
  forever. The text of a PostgreSQL \<open>timestamptz\<close> or \<open>date\<close> is such a cursor.
\<close>

lemma etl_turn_stuck:
  assumes "parse_cursor ch (es_cursor st) = None" "\<not> mx < es_cursor st"
    and "uncanceled (es_runs st)" "\<And>k. en_poll_ok env k" "\<And>k. \<not> en_cancel env k"
    and "\<And>k sql c. en_fetch env k sql c c = Inr []"
  shows "etl_turn ch env ctx path mx st = Inl (st\<lparr>es_turn := Suc (es_turn st),
    es_log := es_log st @ [Queried (ep_fetch_sql path) (es_cursor st) (es_cursor st) []]\<rparr>)"
proof -
  have "check_cancel True task (es_runs st) = Inr False" for task
    using assms(3) by (rule check_cancel_uncanceled)
  moreover have "advance_cursor ch (es_cursor st) n = Some (es_cursor st)" for n
    using assms(1) by (simp add: advance_cursor_def)
  moreover have "\<not> cursor_gt ch (es_cursor st) mx" using assms(1,2) by (simp add: cursor_gt_def)
  ultimately show ?thesis using assms(4-6) by (simp add: etl_turn_def)
qed

text \<open>
  A run whose start is no text the cursor parser reads, and is not greater than the maximum
  text, never ends: for no amount of fuel is there a result, while nobody cancels it and the empty
  window of the unmoved cursor holds no row.
\<close>

theorem unparseable_cursor_never_ends:
  assumes "parse_cursor ch start = None" "\<not> mx < start" "uncanceled runs"
    and "\<And>k. en_poll_ok env k" "\<And>k. \<not> en_cancel env k" "\<And>k sql c. en_fetch env k sql c c = Inr []"
  shows "run_path fuel ch env ctx (Inr (start, mx)) cleared path runs = None"
proof -
  have "etl_loop fuel ch env ctx path mx st = None" if "es_cursor st = start" "es_runs st = runs" for st
    using that
  proof (induction fuel arbitrary: st)
    case (Suc n)
    let ?st = "st\<lparr>es_turn := Suc (es_turn st),
      es_log := es_log st @ [Queried (ep_fetch_sql path) (es_cursor st) (es_cursor st) []]\<rparr>"
    have "etl_turn ch env ctx path mx st = Inl ?st"
      using etl_turn_stuck [of ch st mx env ctx path] assms Suc.prems by simp
    moreover have "etl_loop n ch env ctx path mx ?st = None" by (rule Suc.IH) (simp_all add: Suc.prems)
    ultimately show ?case by simp
  qed simp
  then show ?thesis by (simp add: run_path_def)
qed

section \<open>What a run fetches and counts\<close>

definition event_rows :: "etl_event \<Rightarrow> sync_row list" where
  "event_rows e = (case e of Queried sql a b rows \<Rightarrow> rows | _ \<Rightarrow> [])"

definition log_rows :: "etl_event list \<Rightarrow> sync_row list" where
  "log_rows es = concat (map event_rows es)"

lemma log_rows_append [simp]: "log_rows (a @ b) = log_rows a @ log_rows b"
  by (simp add: log_rows_def)

lemma log_rows_events [simp]:
  "log_rows [Queried sql a b rows] = rows" "log_rows [Wrote w ws] = []" "log_rows [] = []"
  by (simp_all add: log_rows_def event_rows_def)

definition accounted :: "etl_state \<Rightarrow> bool" where
  "accounted st \<longleftrightarrow> es_processed st + es_failed st = length (log_rows (es_log st))"

text \<open>
  A quiet run: polls and progress updates succeed and nobody cancels. The source answers a window
  with the first rows of the table, up to the limit of the query, whose time lies in it.
\<close>

definition quiet :: "etl_env \<Rightarrow> bool" where
  "quiet env \<longleftrightarrow> (\<forall>k. en_poll_ok env k \<and> \<not> en_cancel env k \<and> en_progress_ok env k)"

definition window :: "int \<Rightarrow> int \<Rightarrow> (int \<times> sync_row) list \<Rightarrow> sync_row list" where
  "window a b table = map snd (filter (\<lambda>x. a \<le> fst x \<and> fst x < b) table)"

definition source_answers :: "chrono_lib \<Rightarrow> etl_env \<Rightarrow> nat \<Rightarrow> (int \<times> sync_row) list \<Rightarrow> bool" where
  "source_answers ch env limit table \<longleftrightarrow> (\<forall>k sql a b ta tb. parse_cursor ch a = Some ta \<longrightarrow> parse_cursor ch b = Some tb \<longrightarrow>
     en_fetch env k sql a b = Inr (take limit (window ta tb table)))"

definition windows_fit :: "nat \<Rightarrow> nat \<Rightarrow> (int \<times> sync_row) list \<Rightarrow> bool" where
  "windows_fit limit batch_size table \<longleftrightarrow> (\<forall>a. length (window a (a + span batch_size) table) \<le> limit)"

lemma window_union: "a \<le> b \<Longrightarrow> b \<le> c \<Longrightarrow> mset (window a b table) + mset (window b c table) = mset (window a c table)"
proof -
  assume le: "a \<le> b" "b \<le> c"
  have "filter_mset (\<lambda>x. a \<le> fst x \<and> fst x < b) M + filter_mset (\<lambda>x. b \<le> fst x \<and> fst x < c) M =
      filter_mset (\<lambda>x. a \<le> fst x \<and> fst x < c) M" for M :: "(int \<times> sync_row) multiset"
    using le by (induction M) auto
  then show ?thesis by (simp add: window_def flip: image_mset_union)
qed

text \<open>
  A path is exact when a write that succeeds counts the rows of its batch: that is so for the four
  paths through sqlx and for ClickHouse, and not for Doris, where the server says the number.
\<close>

locale exact_path =
  fixes path :: etl_path
  assumes counts: "rows \<noteq> [] \<Longrightarrow> ep_insert path k j before rows = Inr written \<Longrightarrow>
    ep_count path (length rows) written = length rows"
begin

lemma retry_counts:
  assumes "rows \<noteq> []" "retry_batch_insert n (\<lambda>j. ep_insert path k j before rows) = (Inr written, waits)"
  shows "ep_count path (length rows) written = length rows"
proof -
  have "\<exists>j. ep_insert path k j before rows = Inr written"
    if "retry_from a (\<lambda>j. ep_insert path k j before rows) js = (Inr written, waits)" for a js
    using that by (induction js arbitrary: waits) (auto split: sum.splits if_splits prod.splits)
  then show ?thesis using assms counts unfolding retry_batch_insert_def Let_def by blast
qed

lemma etl_write_accounts:
  assumes "rows \<noteq> []"
  shows "\<exists>s. es_processed s + es_failed s = es_processed st + es_failed st + length rows \<and>
      log_rows (es_log s) = log_rows (es_log st) \<and> (uncanceled (es_runs st) \<longrightarrow> uncanceled (es_runs s)) \<and>
      etl_write ch env ctx path mx nxt rows st =
        (if \<not> en_progress_ok env (es_turn st) then Inr (EtlError ''update data_sync_runs progress'', s)
         else if cursor_gt ch nxt mx then Inr (Finished (outcome_of False s), s) else Inl s) \<and>
      (en_progress_ok env (es_turn st) \<longrightarrow> es_cursor s = nxt)"
proof -
  obtain r waits where rw: "retry_batch_insert (lc_batch_retries ctx) (\<lambda>j. ep_insert path (es_turn st) j (es_attempts st) rows) = (r, waits)"
    by (cases "retry_batch_insert (lc_batch_retries ctx) (\<lambda>j. ep_insert path (es_turn st) j (es_attempts st) rows)")
  define s1 where "s1 = (case r of
      Inr written \<Rightarrow> st\<lparr>es_processed := es_processed st + ep_count path (length rows) written\<rparr>
    | Inl _ \<Rightarrow> st\<lparr>es_failed := es_failed st + length rows\<rparr>)"
  define s2 where "s2 = s1\<lparr>es_attempts := es_attempts s1 + length waits + 1, es_log := es_log s1 @ [Wrote (ep_write path rows) waits]\<rparr>"
  have unfold: "etl_write ch env ctx path mx nxt rows st =
      (case update_progress ch (en_progress_ok env (es_turn st)) (lc_task_id ctx) (es_cursor s2) mx
          (es_processed s2) (es_failed s2) (es_runs s2) of
        Inl e \<Rightarrow> Inr (EtlError e, s2)
      | Inr runs \<Rightarrow>
          if cursor_gt ch nxt mx
          then Inr (Finished (outcome_of False (s2\<lparr>es_runs := runs, es_cursor := nxt, es_turn := Suc (es_turn st)\<rparr>)),
            s2\<lparr>es_runs := runs, es_cursor := nxt, es_turn := Suc (es_turn st)\<rparr>)
          else Inl (s2\<lparr>es_runs := runs, es_cursor := nxt, es_turn := Suc (es_turn st)\<rparr>))"
    unfolding etl_write_def Let_def rw prod.case s1_def s2_def ..
  have s1: "es_processed s1 + es_failed s1 = es_processed st + es_failed st + length rows"
      "es_log s1 = es_log st" "es_runs s1 = es_runs st"
    using retry_counts [OF assms] rw by (auto simp: s1_def split: sum.split)
  have s2: "es_processed s2 + es_failed s2 = es_processed st + es_failed st + length rows"
      "log_rows (es_log s2) = log_rows (es_log st)" "es_runs s2 = es_runs st"
    using s1 by (simp_all add: s2_def)
  show ?thesis
  proof (cases "update_progress ch (en_progress_ok env (es_turn st)) (lc_task_id ctx) (es_cursor s2) mx
      (es_processed s2) (es_failed s2) (es_runs s2)")
    case (Inl e)
    then have "etl_write ch env ctx path mx nxt rows st = Inr (EtlError e, s2)"
      by (simp add: unfold)
    with s2 Inl show ?thesis by (intro exI [of _ s2]) (auto simp: update_progress_def split: if_splits)
  next
    case (Inr runs)
    define s3 where "s3 = s2\<lparr>es_runs := runs, es_cursor := nxt, es_turn := Suc (es_turn st)\<rparr>"
    have "uncanceled (es_runs st) \<longrightarrow> uncanceled runs"
      using Inr s2(3) by (auto simp: update_progress_def uncanceled_def list_all_iff split: if_splits)
    moreover have "etl_write ch env ctx path mx nxt rows st =
        (if cursor_gt ch nxt mx then Inr (Finished (outcome_of False s3), s3) else Inl s3)"
      using Inr by (simp add: unfold s3_def)
    ultimately show ?thesis
      using s2 Inr by (intro exI [of _ s3]) (auto simp: s3_def update_progress_def split: if_splits)
  qed
qed

text \<open>One turn of a quiet run, from a cursor at \<open>t\<close>.\<close>

lemma etl_turn_quiet:
  assumes "quiet env" "uncanceled (es_runs st)" "parse_cursor ch mx = Some m" "parse_cursor ch (es_cursor st) = Some t"
    and "in_range ch (lc_batch_size ctx) t m"
    and fetch: "\<And>nxt. parse_cursor ch nxt = Some (t + span (lc_batch_size ctx)) \<Longrightarrow>
      en_fetch env (es_turn st) (ep_fetch_sql path) (es_cursor st) nxt = Inr rows"
  shows "\<exists>s. etl_turn ch env ctx path mx st =
      (if m < t + span (lc_batch_size ctx) then Inr (Finished (outcome_of False s), s) else Inl s) \<and>
    uncanceled (es_runs s) \<and> log_rows (es_log s) = log_rows (es_log st) @ rows \<and>
    (t + span (lc_batch_size ctx) \<le> m \<longrightarrow> parse_cursor ch (es_cursor s) = Some (t + span (lc_batch_size ctx)) \<and>
       in_range ch (lc_batch_size ctx) (t + span (lc_batch_size ctx)) m)"
proof -
  let ?d = "span (lc_batch_size ctx)"
  obtain nxt where nxt: "advance_cursor ch (es_cursor st) (lc_batch_size ctx) = Some nxt"
      "parse_cursor ch nxt = Some (t + ?d)" "t + ?d \<le> m \<Longrightarrow> in_range ch (lc_batch_size ctx) (t + ?d) m"
    using in_range_advance [OF assms(5,4)] by blast
  have gt: "cursor_gt ch nxt mx \<longleftrightarrow> m < t + ?d" using nxt(2) assms(3) by (simp add: cursor_gt_def)
  define s2 where "s2 = st\<lparr>es_log := es_log st @ [Queried (ep_fetch_sql path) (es_cursor st) nxt rows]\<rparr>"
  have turn: "etl_turn ch env ctx path mx st =
      (if rows = [] then (if cursor_gt ch nxt mx then Inr (Finished (outcome_of False s2), s2)
         else Inl (s2\<lparr>es_cursor := nxt, es_turn := Suc (es_turn st)\<rparr>))
       else etl_write ch env ctx path mx nxt rows s2)"
    using assms(1) check_cancel_uncanceled [OF assms(2)] nxt(1) fetch [OF nxt(2)]
    by (simp add: etl_turn_def Let_def quiet_def s2_def)
  show ?thesis
  proof (cases "rows = []")
    case True
    let ?s = "if cursor_gt ch nxt mx then s2 else s2\<lparr>es_cursor := nxt, es_turn := Suc (es_turn st)\<rparr>"
    show ?thesis using True turn gt nxt assms(2) by (intro exI [of _ ?s]) (auto simp: s2_def)
  next
    case False
    obtain s where "log_rows (es_log s) = log_rows (es_log s2)" "uncanceled (es_runs s2) \<longrightarrow> uncanceled (es_runs s)"
        "etl_write ch env ctx path mx nxt rows s2 =
          (if \<not> en_progress_ok env (es_turn s2) then Inr (EtlError ''update data_sync_runs progress'', s)
           else if cursor_gt ch nxt mx then Inr (Finished (outcome_of False s), s) else Inl s)"
        "en_progress_ok env (es_turn s2) \<longrightarrow> es_cursor s = nxt"
      using etl_write_accounts [OF False] by blast
    then show ?thesis using False turn gt nxt assms(1,2) by (intro exI [of _ s]) (auto simp: s2_def quiet_def)
  qed
qed

lemma etl_loop_covers:
  assumes "quiet env" "source_answers ch env limit table" "windows_fit limit (lc_batch_size ctx) table"
    and "parse_cursor ch mx = Some m"
  shows "uncanceled (es_runs st) \<Longrightarrow> parse_cursor ch (es_cursor st) = Some t \<Longrightarrow> in_range ch (lc_batch_size ctx) t m \<Longrightarrow>
    m < t + int n * span (lc_batch_size ctx) \<Longrightarrow> 0 < n \<Longrightarrow>
    \<exists>s e. etl_loop n ch env ctx path mx st = Some (Finished (outcome_of False s), s) \<and> m < e \<and> t \<le> e \<and>
      mset (log_rows (es_log s)) = mset (log_rows (es_log st)) + mset (window t e table)"
proof (induction n arbitrary: st t)
  case (Suc n)
  let ?d = "span (lc_batch_size ctx)"
  have d: "0 < ?d" by (rule span_pos)
  have "en_fetch env (es_turn st) (ep_fetch_sql path) (es_cursor st) nxt = Inr (window t (t + ?d) table)"
    if "parse_cursor ch nxt = Some (t + ?d)" for nxt
    using assms(2,3) Suc.prems(2) that by (simp add: source_answers_def windows_fit_def)
  from etl_turn_quiet [OF assms(1) Suc.prems(1) assms(4) Suc.prems(2,3) this]
  obtain s where s: "etl_turn ch env ctx path mx st =
        (if m < t + ?d then Inr (Finished (outcome_of False s), s) else Inl s)"
      "uncanceled (es_runs s)" "log_rows (es_log s) = log_rows (es_log st) @ window t (t + ?d) table"
      "t + ?d \<le> m \<longrightarrow> parse_cursor ch (es_cursor s) = Some (t + ?d) \<and> in_range ch (lc_batch_size ctx) (t + ?d) m"
    by blast
  show ?case
  proof (cases "m < t + ?d")
    case True
    then show ?thesis using s d by (intro exI [of _ s] exI [of _ "t + ?d"]) simp
  next
    case False
    then have "t + ?d \<le> m" by simp
    moreover have m: "m < t + ?d + int n * ?d" using Suc.prems(4) by (simp add: algebra_simps)
    moreover from m False have "0 < n" by (cases n) auto
    ultimately obtain s' e where s': "etl_loop n ch env ctx path mx s = Some (Finished (outcome_of False s'), s')"
        "m < e" "t + ?d \<le> e" "mset (log_rows (es_log s')) = mset (log_rows (es_log s)) + mset (window (t + ?d) e table)"
      using Suc.IH [of s "t + ?d"] s(2,4) by blast
    moreover have "mset (log_rows (es_log s')) = mset (log_rows (es_log st)) + mset (window t e table)"
      using s'(3,4) s(3) window_union [of t "t + ?d" e table] d by (simp add: add.assoc)
    ultimately show ?thesis using s(1) False d by (intro exI [of _ s'] exI [of _ e]) auto
  qed
qed simp

text \<open>Every row of the log is counted once, as processed or as failed.\<close>

lemma etl_turn_accounts:
  assumes "accounted st"
  shows "\<exists>s. accounted s \<and> (etl_turn ch env ctx path mx st = Inl s \<or>
    (\<exists>r. etl_turn ch env ctx path mx st = Inr (r, s) \<and> (\<forall>o'. r = Finished o' \<longrightarrow> (\<exists>c. o' = outcome_of c s))))"
proof -
  define s1 where "s1 = (if en_cancel env (es_turn st) then st\<lparr>es_runs := request_cancel (lc_task_id ctx) (es_runs st)\<rparr> else st)"
  have acc1: "accounted s1" and turn: "es_turn s1 = es_turn st"
    using assms by (simp_all add: accounted_def s1_def)
  note unfold = etl_turn_def [of ch env ctx path mx st, unfolded Let_def, folded s1_def]
  show ?thesis
  proof (cases "check_cancel (en_poll_ok env (es_turn st)) (lc_task_id ctx) (es_runs s1)")
    case (Inl e)
    then show ?thesis using acc1 by (intro exI [of _ s1]) (simp add: unfold)
  next
    case poll: (Inr c)
    show ?thesis
    proof (cases "advance_cursor ch (es_cursor s1) (lc_batch_size ctx)")
      case None
      then show ?thesis using acc1 poll by (intro exI [of _ s1]) (cases c; auto simp: unfold)
    next
      case (Some nxt)
      note nxt = this
      show ?thesis
      proof (cases "en_fetch env (es_turn st) (ep_fetch_sql path) (es_cursor s1) nxt")
        case (Inl e)
        then show ?thesis using acc1 poll nxt by (intro exI [of _ s1]) (cases c; auto simp: unfold)
      next
        case (Inr rows)
        define s2 where "s2 = s1\<lparr>es_log := es_log s1 @ [Queried (ep_fetch_sql path) (es_cursor s1) nxt rows]\<rparr>"
        have q: "etl_turn ch env ctx path mx st =
            (if c then Inr (Finished (outcome_of True s1), s1)
             else if rows = [] then (if cursor_gt ch nxt mx then Inr (Finished (outcome_of False s2), s2)
               else Inl (s2\<lparr>es_cursor := nxt, es_turn := Suc (es_turn st)\<rparr>))
             else etl_write ch env ctx path mx nxt rows s2)"
          using poll nxt Inr by (cases c) (simp_all add: unfold s2_def)
        have log2: "log_rows (es_log s2) = log_rows (es_log s1) @ rows" by (simp add: s2_def)
        have sum2: "es_processed s2 + es_failed s2 = length (log_rows (es_log s1))"
          using acc1 by (simp add: s2_def accounted_def)
        consider "c" | "\<not> c" "rows = []" | "\<not> c" "rows \<noteq> []" by blast
        then show ?thesis
        proof cases
          case 1
          then show ?thesis using acc1 by (intro exI [of _ s1]) (auto simp: q)
        next
          case 2
          let ?s = "if cursor_gt ch nxt mx then s2 else s2\<lparr>es_cursor := nxt, es_turn := Suc (es_turn st)\<rparr>"
          have "accounted ?s" using sum2 log2 2 by (simp add: accounted_def)
          then show ?thesis using 2 by (intro exI [of _ ?s]) (auto simp: q)
        next
          case 3
          obtain s where s: "es_processed s + es_failed s = es_processed s2 + es_failed s2 + length rows"
              "log_rows (es_log s) = log_rows (es_log s2)"
              "etl_write ch env ctx path mx nxt rows s2 =
                (if \<not> en_progress_ok env (es_turn s2) then Inr (EtlError ''update data_sync_runs progress'', s)
                 else if cursor_gt ch nxt mx then Inr (Finished (outcome_of False s), s) else Inl s)"
            using etl_write_accounts [OF 3(2)] by blast
          have "accounted s" using s(1,2) sum2 log2 by (simp add: accounted_def)
          then show ?thesis using 3 s(3) by (intro exI [of _ s]) (auto simp: q)
        qed
      qed
    qed
  qed
qed

lemma etl_loop_accounts:
  "accounted st \<Longrightarrow> etl_loop n ch env ctx path mx st = Some (r, s) \<Longrightarrow>
   accounted s \<and> (\<forall>o'. r = Finished o' \<longrightarrow> (\<exists>c. o' = outcome_of c s))"
proof (induction n arbitrary: st)
  case (Suc n)
  obtain s' where s': "accounted s'" "etl_turn ch env ctx path mx st = Inl s' \<or>
      (\<exists>r. etl_turn ch env ctx path mx st = Inr (r, s') \<and> (\<forall>o'. r = Finished o' \<longrightarrow> (\<exists>c. o' = outcome_of c s')))"
    using etl_turn_accounts [OF Suc.prems(1)] by blast
  then show ?case using Suc.IH [OF s'(1)] Suc.prems(2) by auto
qed simp

end

interpretation sqlx: exact_path "sql_path fetch_sql fetch_error env stmt" for fetch_sql fetch_error env stmt
  by unfold_locales (simp add: sql_path_def)

lemma length_http_rows [simp]: "length (http_rows src rows cols) = length rows"
  by (cases src) (simp_all add: http_rows_def rows_to_json_mysql_def rows_to_json_pg_def)

lemma http_rows_Nil [simp]: "http_rows src rows cols = [] \<longleftrightarrow> rows = []"
  by (simp flip: length_0_conv)

interpretation clickhouse: exact_path "clickhouse_path json_text env ck fetch_sql table (\<lambda>rows. http_rows src rows cols)"
  for json_text env ck fetch_sql table src cols
  by unfold_locales (auto simp: clickhouse_path_def clickhouse_insert_batch_def split: sum.splits if_splits prod.splits)

lemma log_rows_truncate [simp]:
  "log_rows (maybe_truncate_mysql cfg b) = []" "log_rows (maybe_truncate_pg cfg b) = []" "log_rows (maybe_truncate_ch ck cfg b) = []"
  by (simp_all add: maybe_truncate_mysql_def maybe_truncate_pg_def maybe_truncate_ch_def log_rows_def event_rows_def)

lemma sqlx_run_complete:
  assumes "quiet env" "source_answers ch env limit table" "windows_fit limit (lc_batch_size ctx) table" "uncanceled runs"
    and "parse_cursor ch start = Some t" "parse_cursor ch mx = Some m" "in_range ch (lc_batch_size ctx) t m"
    and "m < t + int fuel * span (lc_batch_size ctx)" "0 < fuel"
    and "\<forall>x \<in> set table. fst x \<le> m" "log_rows cleared = []"
  shows "\<exists>o' st. run_path fuel ch env ctx (Inr (start, mx)) cleared (sql_path fetch_sql fetch_error env stmt) runs =
      Some (Finished o', st) \<and> \<not> oc_canceled o' \<and>
    mset (log_rows (es_log st)) = mset (map snd (filter (\<lambda>x. t \<le> fst x) table)) \<and>
    oc_processed_rows o' + oc_failed_rows o' = length (filter (\<lambda>x. t \<le> fst x) table)"
proof -
  let ?st = "\<lparr>es_turn = 0, es_cursor = start, es_processed = 0, es_failed = 0, es_attempts = 0, es_runs = runs, es_log = cleared\<rparr>"
  let ?path = "sql_path fetch_sql fetch_error env stmt"
  have st: "uncanceled (es_runs ?st)" "parse_cursor ch (es_cursor ?st) = Some t" "accounted ?st"
    using assms(4,5,11) by (simp_all add: accounted_def)
  have "\<exists>s e. etl_loop fuel ch env ctx ?path mx ?st = Some (Finished (outcome_of False s), s) \<and> m < e \<and> t \<le> e \<and>
      mset (log_rows (es_log s)) = mset (log_rows (es_log ?st)) + mset (window t e table)"
    by (rule sqlx.etl_loop_covers [OF assms(1-3,6) st(1,2) assms(7-9)])
  then obtain s e where s: "etl_loop fuel ch env ctx ?path mx ?st = Some (Finished (outcome_of False s), s)"
      "m < e" "mset (log_rows (es_log s)) = mset (window t e table)"
    using assms(11) by auto
  have "window t e table = map snd (filter (\<lambda>x. t \<le> fst x) table)"
    using assms(10) s(2) by (auto simp: window_def intro!: arg_cong [of _ _ "map snd"] filter_cong)
  then have rows: "mset (log_rows (es_log s)) = mset (map snd (filter (\<lambda>x. t \<le> fst x) table))" using s(3) by simp
  then have "length (log_rows (es_log s)) = length (filter (\<lambda>x. t \<le> fst x) table)"
    by (metis length_map size_mset)
  moreover have "accounted s" using sqlx.etl_loop_accounts [OF st(3) s(1)] by simp
  ultimately have "es_processed s + es_failed s = length (filter (\<lambda>x. t \<le> fst x) table)" by (simp add: accounted_def)
  then show ?thesis using s(1) rows by (auto simp: run_path_def outcome_of_def)
qed

text \<open>
  C3. A full MySQL to MySQL run that nobody disturbs ends, is not canceled, and asks for every row
  of the source from its start on exactly once, each counted as processed or as failed, provided no
  window holds more rows than the limit of the query.
\<close>

theorem mysql_sync_complete:
  assumes "quiet env" "source_answers (sl_chrono lib) env (select_limit (lc_config ctx)) table"
    and "windows_fit (select_limit (lc_config ctx)) (lc_batch_size ctx) table" "uncanceled runs"
    and "resolve_window_mysql env (lc_config ctx) (lc_resume_cursor ctx) = Inr (start, mx)"
    and "parse_cursor (sl_chrono lib) start = Some t" "parse_cursor (sl_chrono lib) mx = Some m"
    and "in_range (sl_chrono lib) (lc_batch_size ctx) t m"
    and "m < t + int fuel * span (lc_batch_size ctx)" "0 < fuel" "\<forall>x \<in> set table. fst x \<le> m"
  shows "\<exists>o' st. etl_mysql_to_mysql fuel lib env ctx runs = Some (Finished o', st) \<and> \<not> oc_canceled o' \<and>
    mset (log_rows (es_log st)) = mset (map snd (filter (\<lambda>x. t \<le> fst x) table)) \<and>
    oc_processed_rows o' + oc_failed_rows o' = length (filter (\<lambda>x. t \<le> fst x) table)"
  unfolding etl_mysql_to_mysql_def Let_def assms(5)
  by (rule sqlx_run_complete [OF assms(1-4,6-11)]) simp

section \<open>When the target is emptied\<close>

definition is_truncate :: "etl_event \<Rightarrow> bool" where
  "is_truncate e = (case e of TruncateSql _ \<Rightarrow> True | TruncateHttp _ \<Rightarrow> True | _ \<Rightarrow> False)"

definition truncates :: "etl_state \<Rightarrow> bool" where
  "truncates st = list_ex is_truncate (es_log st)"

lemma etl_write_truncates:
  "etl_write ch env ctx path mx nxt rows st \<in> {Inl s, Inr (r, s)} \<Longrightarrow> truncates s = truncates st"
  by (auto simp: etl_write_def Let_def case_prod_beta truncates_def is_truncate_def split: sum.splits if_splits)

lemma etl_turn_truncates:
  "etl_turn ch env ctx path mx st \<in> {Inl s, Inr (r, s)} \<Longrightarrow> truncates s = truncates st"
  unfolding etl_turn_def Let_def
  using etl_write_truncates [of ch env ctx path mx _ _ _ s r]
  by (fastforce simp: truncates_def is_truncate_def split: sum.splits bool.splits option.splits if_splits)

lemma etl_loop_truncates: "etl_loop n ch env ctx path mx st = Some (r, s) \<Longrightarrow> truncates s = truncates st"
proof (induction n arbitrary: st)
  case (Suc n)
  then show ?case
    using etl_turn_truncates [of ch env ctx path mx st] by (cases "etl_turn ch env ctx path mx st") fastforce+
qed simp

lemma run_path_truncates:
  "run_path fuel ch env ctx (Inr w) cleared path runs = Some (r, s) \<Longrightarrow> truncates s = list_ex is_truncate cleared"
  by (cases w) (auto simp: run_path_def truncates_def dest: etl_loop_truncates)

text \<open>
  With the truncate strategy a MySQL to MySQL run and a ClickHouse run empty the target exactly
  when they start afresh; the PostgreSQL and the two cross-database runs empty it exactly when they
  resume, so a fresh run adds to the old rows and a resumed one loses what the first part wrote.
\<close>

theorem truncate_guards:
  assumes "dc_target_strategy (lc_config ctx) = Truncate"
    and "resolve_window_mysql env (lc_config ctx) (lc_resume_cursor ctx) = Inr w"
    and "resolve_window_pg env (lc_config ctx) (lc_resume_cursor ctx) = Inr w'"
    and "etl_mysql_to_mysql fuel lib env ctx runs = Some (r1, s1)"
    and "etl_to_clickhouse src ck fuel lib env ctx runs = Some (r2, s2)"
    and "etl_pg_to_pg fuel lib env ctx runs = Some (r3, s3)"
    and "etl_cross SrcMySql TgtPostgres fuel lib env ctx runs = Some (r4, s4)"
    and "etl_cross SrcPostgres TgtMySql fuel lib env ctx runs = Some (r5, s5)"
  shows "(truncates s1 \<longleftrightarrow> lc_resume_cursor ctx = None) \<and> (truncates s2 \<longleftrightarrow> lc_resume_cursor ctx = None) \<and>
    (truncates s3 \<longleftrightarrow> lc_resume_cursor ctx \<noteq> None) \<and> (truncates s4 \<longleftrightarrow> lc_resume_cursor ctx \<noteq> None) \<and>
    (truncates s5 \<longleftrightarrow> lc_resume_cursor ctx \<noteq> None)"
proof -
  have guards: "list_ex is_truncate (maybe_truncate_mysql (lc_config ctx) b) = (\<not> b)"
    "list_ex is_truncate (maybe_truncate_pg (lc_config ctx) b) = (\<not> b)"
    "list_ex is_truncate (maybe_truncate_ch ck (lc_config ctx) b) = (\<not> b)" for b
    using assms(1)
    by (auto simp: maybe_truncate_mysql_def maybe_truncate_pg_def maybe_truncate_ch_def is_truncate_def)
  have win: "\<exists>v. http_window src env ctx = Inr v"
    using assms(2,3) by (cases src) (simp_all add: http_window_def)
  show ?thesis
    using assms(4-8) win
    by (auto simp: etl_mysql_to_mysql_def etl_to_clickhouse_def etl_pg_to_pg_def Let_def assms(2,3) guards
        dest!: run_path_truncates)
qed

section \<open>What a run leaves in the control table\<close>

text \<open>The batch loop changes rows of the table but adds, removes and reorders none.\<close>

definition run_key :: "sync_run \<Rightarrow> string \<times> string \<times> string" where
  "run_key r = (sr_id r, sr_task_id r, sr_started_at r)"

abbreviation same_rows :: "sync_run list \<Rightarrow> sync_run list \<Rightarrow> bool" where
  "same_rows a b \<equiv> map run_key a = map run_key b"

lemma same_rows_request_cancel [simp]: "same_rows (request_cancel task_id runs) runs"
  by (simp add: request_cancel_def run_key_def)

lemma same_rows_update_progress: "update_progress ch ok task_id c mx p f runs = Inr runs' \<Longrightarrow> same_rows runs' runs"
  by (auto simp: update_progress_def run_key_def split: if_splits)

lemma etl_write_rows:
  "etl_write ch env ctx path mx nxt rows st \<in> {Inl s, Inr (r, s)} \<Longrightarrow> same_rows (es_runs s) (es_runs st)"
  by (auto simp: etl_write_def Let_def case_prod_beta split: sum.splits if_splits dest: same_rows_update_progress)

lemma etl_turn_rows:
  assumes "etl_turn ch env ctx path mx st \<in> {Inl s, Inr (r, s)}"
  shows "same_rows (es_runs s) (es_runs st)"
proof -
  define s1 where "s1 = (if en_cancel env (es_turn st) then st\<lparr>es_runs := request_cancel (lc_task_id ctx) (es_runs st)\<rparr> else st)"
  have s1: "same_rows (es_runs s1) (es_runs st)" by (simp add: s1_def)
  have "same_rows (es_runs s) (es_runs s1)"
    using assms etl_write_rows [of ch env ctx path mx _ _ _ s r]
    unfolding etl_turn_def Let_def s1_def [symmetric]
    by (fastforce split: sum.splits bool.splits option.splits if_splits)
  with s1 show ?thesis by simp
qed

lemma etl_loop_rows: "etl_loop n ch env ctx path mx st = Some (r, s) \<Longrightarrow> same_rows (es_runs s) (es_runs st)"
proof (induction n arbitrary: st)
  case (Suc n)
  show ?case
  proof (cases "etl_turn ch env ctx path mx st")
    case (Inl s')
    then have "same_rows (es_runs s') (es_runs st)" using etl_turn_rows by blast
    then show ?thesis using Suc Inl by auto
  next
    case (Inr x)
    then show ?thesis using Suc.prems etl_turn_rows [of ch env ctx path mx st s r] by simp
  qed
qed simp

lemma run_path_rows: "run_path fuel ch env ctx w cleared path runs = Some (r, s) \<Longrightarrow> same_rows (es_runs s) runs"
  by (auto simp: run_path_def Let_def split: sum.splits dest!: etl_loop_rows)

lemmas etl_paths = etl_mysql_to_mysql_def etl_pg_to_pg_def etl_to_clickhouse_def etl_to_doris_stream_load_def

lemma etl_rows:
  "etl_mysql_to_mysql fuel lib env ctx runs = Some (r, s) \<Longrightarrow> same_rows (es_runs s) runs"
  "etl_pg_to_pg fuel lib env ctx runs = Some (r, s) \<Longrightarrow> same_rows (es_runs s) runs"
  "etl_to_clickhouse src ck fuel lib env ctx runs = Some (r, s) \<Longrightarrow> same_rows (es_runs s) runs"
  "etl_to_doris_stream_load src ds fuel lib env ctx runs = Some (r, s) \<Longrightarrow> same_rows (es_runs s) runs"
  "etl_cross SrcMySql TgtPostgres fuel lib env ctx runs = Some (r, s) \<Longrightarrow> same_rows (es_runs s) runs"
  "etl_cross SrcPostgres TgtMySql fuel lib env ctx runs = Some (r, s) \<Longrightarrow> same_rows (es_runs s) runs"
  unfolding etl_paths etl_cross.simps Let_def by (erule run_path_rows)+

lemma with_pools_rows:
  assumes "with_pools src tgt runs etl = Some (r, runs')" "\<And>r s. etl = Some (r, s) \<Longrightarrow> same_rows (es_runs s) runs"
  shows "same_rows runs' runs"
  using assms by (auto simp: with_pools_def split: sum.splits)

lemma dispatch_rows: "dispatch fuel lib io p runs = Some (r, runs') \<Longrightarrow> same_rows runs' runs"
  unfolding dispatch_def Let_def
  by (cases "sp_src_db p"; cases "sp_tgt_db p") (auto simp del: etl_cross.simps elim!: with_pools_rows dest: etl_rows)

lemma run_inner_rows:
  "sync_run_task_inner fuel lib io task_id rc db = Some (r, db') \<Longrightarrow>
   same_rows (sd_runs db') (sd_runs db) \<and> sd_tasks db' = sd_tasks db"
  by (auto simp: sync_run_task_inner_def split: sum.splits dest: dispatch_rows)

definition final_status :: "etl_end \<Rightarrow> string" where
  "final_status r = (case r of
      Finished o' \<Rightarrow> (if oc_canceled o' then ''canceled'' else ''succeeded'')
    | _ \<Rightarrow> ''failed'')"

lemma latest_snoc: "\<forall>x \<in> set xs. sr_started_at x < sr_started_at row \<Longrightarrow> latest (xs @ [row]) = Some row"
  by (induction xs) auto

lemma latest_task:
  assumes "\<forall>x \<in> set xs. sr_task_id x = task_id \<longrightarrow> sr_started_at x < sr_started_at row" "sr_task_id row = task_id"
  shows "latest (filter (\<lambda>r. sr_task_id r = task_id) (xs @ [row])) = Some row"
  using assms latest_snoc [of "filter (\<lambda>r. sr_task_id r = task_id) xs" row] by auto

lemma run_task_rows:
  assumes "sync_run_task fuel lib io task_id trig db = Some (r, db', tr)" "r \<noteq> Panicked"
    and "io_insert_ok io" "io_finish_ok io" "\<forall>x \<in> set (sd_runs db). sr_id x \<noteq> io_run_id io"
  shows "\<exists>xs row. sd_runs db' = xs @ [row] \<and> same_rows xs (sd_runs db) \<and>
    run_key row = (io_run_id io, task_id, io_now io) \<and> sr_status row = final_status r \<and>
    sr_finished_at row = Some (io_end io) \<and> (\<forall>e. r = EtlError e \<longrightarrow> sr_error row = Some (sync_redact_error e))"
proof -
  define rc where "rc = (case find_resumable_cursor (io_resume_ok io) task_id (sd_runs db) of Inr c \<Rightarrow> c | Inl e \<Rightarrow> None)"
  define row where "row = \<lparr>sr_id = io_run_id io, sr_task_id = task_id, sr_started_at = io_now io, sr_status = ''running'',
    sr_triggered_by = trig, sr_cursor = None, sr_progress = 0, sr_processed_rows = 0, sr_failed_rows = 0,
    sr_cancel_requested = False, sr_finished_at = None, sr_summary = None, sr_error = None\<rparr>"
  obtain db1 where inner: "sync_run_task_inner fuel lib io task_id rc (db\<lparr>sd_runs := sd_runs db @ [row]\<rparr>) = Some (r, db1)"
    using assms(1,3)
    by (auto simp: sync_run_task_def Let_def rc_def [symmetric] row_def [symmetric] split: option.splits etl_end.splits)
  then have "map run_key (sd_runs db1) = map run_key (sd_runs db) @ [run_key row]"
    using run_inner_rows by fastforce
  then obtain xs row1 where r1: "sd_runs db1 = xs @ [row1]" "same_rows xs (sd_runs db)" "run_key row1 = run_key row"
    by (auto simp: map_eq_append_conv)
  have xs: "\<forall>x \<in> set xs. sr_id x \<noteq> io_run_id io"
  proof
    fix x assume "x \<in> set xs"
    then have "run_key x \<in> run_key ` set (sd_runs db)" using r1(2) by (metis image_eqI list.set_map)
    then show "sr_id x \<noteq> io_run_id io" using assms(5) by (auto simp: run_key_def)
  qed
  obtain f where f: "sd_runs db' = sd_runs (finish_run io f db1)" "run_key (f row1) = run_key row1"
      "sr_status (f row1) = final_status r" "sr_finished_at (f row1) = Some (io_end io)"
      "\<forall>e. r = EtlError e \<longrightarrow> sr_error (f row1) = Some (sync_redact_error e)"
  proof (cases r)
    case (Finished o')
    then show thesis using assms(1,3) inner
      by (intro that [of "\<lambda>r. r\<lparr>sr_finished_at := Some (io_end io), sr_status := (if oc_canceled o' then ''canceled'' else ''succeeded''),
          sr_summary := Some (run_summary io o'), sr_processed_rows := oc_processed_rows o', sr_failed_rows := oc_failed_rows o'\<rparr>"])
        (auto simp: sync_run_task_def Let_def rc_def [symmetric] row_def [symmetric] sync_update_task_status_def
          final_status_def run_key_def)
  next
    case (EtlError e)
    then show thesis using assms(1,3) inner
      by (intro that [of "\<lambda>r. r\<lparr>sr_finished_at := Some (io_end io), sr_status := ''failed'', sr_error := Some (sync_redact_error e)\<rparr>"])
        (auto simp: sync_run_task_def Let_def rc_def [symmetric] row_def [symmetric] sync_update_task_status_def
          final_status_def run_key_def)
  qed (use assms(2) in simp)
  have "sr_id row1 = io_run_id io" using r1(3) by (simp add: run_key_def row_def)
  then have "sd_runs db' = xs @ [f row1]"
    using f(1) r1(1) xs assms(4) by (auto simp: finish_run_def map_idI)
  moreover have "run_key (f row1) = (io_run_id io, task_id, io_now io)"
    using f(2) r1(3) by (simp add: run_key_def row_def)
  ultimately show ?thesis using r1(2) f(3-5) by blast
qed

text \<open>
  A run that ends is recorded: its row, the last of the table, has the status of its outcome
  and, for a failed run, the redacted error; and the next run of the task starts from the cursor in
  that row unless the run succeeded.
\<close>

theorem sync_run_recorded:
  assumes "sync_run_task fuel lib io task_id trig db = Some (r, db', tr)" "r \<noteq> Panicked"
    and "io_insert_ok io" "io_finish_ok io" "\<forall>x \<in> set (sd_runs db). sr_id x \<noteq> io_run_id io"
    and "\<forall>x \<in> set (sd_runs db). sr_task_id x = task_id \<longrightarrow> sr_started_at x < io_now io"
  shows "\<exists>row. last (sd_runs db') = row \<and> sr_id row = io_run_id io \<and> sr_status row = final_status r \<and>
    length (sd_runs db') = Suc (length (sd_runs db)) \<and>
    (\<forall>e. r = EtlError e \<longrightarrow> sr_error row = Some (sync_redact_error e)) \<and>
    find_resumable_cursor True task_id (sd_runs db') =
      Inr (if final_status r = ''succeeded'' then None else sr_cursor row)"
proof -
  obtain xs row where row: "sd_runs db' = xs @ [row]" "same_rows xs (sd_runs db)"
      "run_key row = (io_run_id io, task_id, io_now io)" "sr_status row = final_status r"
      "\<forall>e. r = EtlError e \<longrightarrow> sr_error row = Some (sync_redact_error e)"
    using run_task_rows [OF assms(1-5)] by blast
  have "\<forall>x \<in> set xs. sr_task_id x = task_id \<longrightarrow> sr_started_at x < sr_started_at row"
  proof (intro ballI impI)
    fix x assume x: "x \<in> set xs" "sr_task_id x = task_id"
    then have "run_key x \<in> run_key ` set (sd_runs db)" using row(2) by (metis image_eqI list.set_map)
    then show "sr_started_at x < sr_started_at row" using x(2) row(3) assms(6) by (auto simp: run_key_def)
  qed
  then have "latest (filter (\<lambda>r. sr_task_id r = task_id) (sd_runs db')) = Some row"
    unfolding row(1) using row(3) by (intro latest_task) (simp_all add: run_key_def)
  moreover have "length xs = length (sd_runs db)" using row(2) by (metis length_map)
  ultimately show ?thesis using row
    by (auto simp: find_resumable_cursor_def run_key_def split: option.split)
qed

section \<open>A concrete run\<close>

text \<open>Instants written as the decimal number of their nanoseconds.\<close>

definition sample_chrono :: chrono_lib where
  "sample_chrono = \<lparr>rfc3339 = (\<lambda>s. map_option int (parse_unsigned (2 ^ 62) s)), naive_secs = (\<lambda>_. None),
     naive_frac = (\<lambda>_. None), to_rfc3339 = (\<lambda>t. show_nat (nat t)), add_seconds = (\<lambda>t s. Some (t + s * 10 ^ 9))\<rparr>"

lemma sample_chrono_law: "chrono_law sample_chrono 0 (2 ^ 62)"
  by (simp add: chrono_law_def sample_chrono_def parse_unsigned_show_nat)

definition sample_sync_table :: "(int \<times> sync_row) list" where
  "sample_sync_table = [(0, \<lambda>_. Some ''a''), (1000000000, \<lambda>_. Some ''b''), (5000000000, \<lambda>_. None)]"

definition sample_sync_env :: etl_env where
  "sample_sync_env = \<lparr>en_probe = (\<lambda>_. Inr (Some ''0'', Some ''5000000000'')), en_now = ''0'', en_cancel = (\<lambda>_. False),
     en_poll_ok = (\<lambda>_. True),
     en_fetch = (\<lambda>k sql a b. case (parse_cursor sample_chrono a, parse_cursor sample_chrono b) of
         (Some ta, Some tb) \<Rightarrow> Inr (take 2 (window ta tb sample_sync_table)) | _ \<Rightarrow> Inr []),
     en_sql = (\<lambda>k j qb. if k = 0 \<and> j = 1 then Inl ''deadlock'' else Inr ()), en_http = (\<lambda>k j rq. Inl ''refused''),
     en_millis = (\<lambda>k j. 0), en_progress_ok = (\<lambda>_. True)\<rparr>"

definition sample_lib :: sync_libs where
  "sample_lib = \<lparr>sl_chrono = sample_chrono, sl_ph_mysql = (\<lambda>_. ''?''), sl_ph_pg = (\<lambda>n. CHR ''$'' # show_nat n),
     sl_json_text = (\<lambda>_. ''''), sl_from_str = (\<lambda>_. None), sl_b64 = (\<lambda>s. s)\<rparr>"

definition sample_ctx :: loop_ctx where
  "sample_ctx = \<lparr>lc_task_id = ''t1'', lc_config = sample_sync_config\<lparr>dc_target_strategy := Truncate\<rparr>,
     lc_src_conn = sample_connection, lc_batch_size = 2, lc_resume_cursor = None, lc_batch_retries = 3\<rparr>"

lemma sample_parse: "parse_cursor sample_chrono ''0'' = Some 0" "parse_cursor sample_chrono ''5000000000'' = Some 5000000000"
  by (simp_all add: parse_cursor_def sample_chrono_def parse_unsigned_def digits_val_def ccode_def is_ascii_digit_def)

lemma sample_in_range: "in_range sample_chrono 2 0 5000000000"
  unfolding in_range_def using sample_chrono_law by (intro conjI exI [of _ 0] exI [of _ "2 ^ 62"]) (simp_all add: span_def)

lemma sample_sync_windows:
  "resolve_window_mysql sample_sync_env (lc_config sample_ctx) (lc_resume_cursor sample_ctx) = Inr (''0'', ''5000000000'')"
  "resolve_window_pg sample_sync_env (lc_config sample_ctx) (lc_resume_cursor sample_ctx) = Inr (''0'', ''5000000000'')"
  by (simp_all add: resolve_window_mysql_def resolve_window_pg_def resolve_window_def sample_sync_env_def sample_ctx_def
      sample_sync_config_def or_else_def)

lemma sample_fits: "windows_fit 2 2 sample_sync_table"
  by (auto simp: windows_fit_def window_def sample_sync_table_def span_def)

lemma sample_source: "source_answers sample_chrono sample_sync_env 2 sample_sync_table"
  by (simp add: source_answers_def sample_sync_env_def)

theorem etl_terminates_witness:
  "\<exists>r st. run_path 4 sample_chrono sample_sync_env sample_ctx (Inr (''0'', ''5000000000'')) []
     (sql_path ''SELECT 1'' (\<lambda>e. e) sample_sync_env (\<lambda>_. None)) [] = Some (r, st) \<and> r \<noteq> Panicked"
  by (rule etl_terminates [OF sample_parse]) (simp_all add: sample_in_range sample_ctx_def span_def)

theorem mysql_sync_complete_witness:
  "\<exists>o' st. etl_mysql_to_mysql 4 sample_lib sample_sync_env sample_ctx [] = Some (Finished o', st) \<and>
     oc_processed_rows o' + oc_failed_rows o' = 3"
proof -
  have lim: "select_limit (lc_config sample_ctx) = 2" "lc_batch_size sample_ctx = 2" "sl_chrono sample_lib = sample_chrono"
    by (simp_all add: select_limit_def sample_ctx_def sample_sync_config_def sample_lib_def)
  have "\<exists>o' st. etl_mysql_to_mysql 4 sample_lib sample_sync_env sample_ctx [] = Some (Finished o', st) \<and> \<not> oc_canceled o' \<and>
      mset (log_rows (es_log st)) = mset (map snd (filter (\<lambda>x. 0 \<le> fst x) sample_sync_table)) \<and>
      oc_processed_rows o' + oc_failed_rows o' = length (filter (\<lambda>x. 0 \<le> fst x) sample_sync_table)"
  proof (rule mysql_sync_complete [OF _ _ _ _ sample_sync_windows(1)], unfold lim)
    show "quiet sample_sync_env" by (simp add: quiet_def sample_sync_env_def)
    show "uncanceled []" by (simp add: uncanceled_def)
    show "\<forall>x \<in> set sample_sync_table. fst x \<le> 5000000000" by (simp add: sample_sync_table_def)
    show "(5000000000 :: int) < 0 + int 4 * span 2" by (simp add: span_def)
  qed (rule sample_source sample_fits sample_parse sample_in_range | simp)+
  then show ?thesis by (auto simp: sample_sync_table_def)
qed

theorem unparseable_cursor_never_ends_witness:
  "run_path 100 sample_chrono (sample_sync_env\<lparr>en_fetch := (\<lambda>k sql a b. Inr [])\<rparr>) sample_ctx
     (Inr (''2026-08-01 10:00:00+00'', ''2026-08-02 10:00:00+00'')) []
     (sql_path ''SELECT 1'' (\<lambda>e. e) sample_sync_env (\<lambda>_. None)) [] = None"
proof (rule unparseable_cursor_never_ends)
  show "parse_cursor sample_chrono ''2026-08-01 10:00:00+00'' = None"
    by (simp add: parse_cursor_def sample_chrono_def parse_unsigned_def ccode_def is_ascii_digit_def)
  show "\<not> ''2026-08-02 10:00:00+00'' < ''2026-08-01 10:00:00+00''" by code_simp
qed (simp_all add: uncanceled_def sample_sync_env_def)

theorem truncate_guards_witness:
  "\<exists>r3 s3. etl_pg_to_pg 4 sample_lib sample_sync_env sample_ctx [] = Some (r3, s3) \<and> \<not> truncates s3"
proof -
  have ends: "\<exists>r s. run_path 4 (sl_chrono sample_lib) sample_sync_env sample_ctx (Inr (''0'', ''5000000000'')) cleared path [] = Some (r, s)"
    for cleared path
  proof -
    let ?st = "\<lparr>es_turn = 0, es_cursor = ''0'', es_processed = 0, es_failed = 0, es_attempts = 0, es_runs = [], es_log = cleared\<rparr>"
    have "in_range sample_chrono (lc_batch_size sample_ctx) 0 5000000000" using sample_in_range by (simp add: sample_ctx_def)
    moreover have "parse_cursor sample_chrono (es_cursor ?st) = Some 0" by (simp add: sample_parse)
    moreover have "(5000000000 :: int) < 0 + int 4 * span (lc_batch_size sample_ctx)" by (simp add: sample_ctx_def span_def)
    ultimately obtain r s where "etl_loop 4 sample_chrono sample_sync_env sample_ctx path ''5000000000'' ?st = Some (r, s)"
      using etl_loop_returns [OF sample_parse(2), of sample_ctx 0 ?st 4 sample_sync_env path] by auto
    then show ?thesis by (simp add: run_path_def sample_lib_def)
  qed
  have win: "http_window SrcMySql sample_sync_env sample_ctx = Inr (''0'', ''5000000000'')"
    by (simp add: http_window_def sample_sync_windows)
  obtain r1 s1 where 1: "etl_mysql_to_mysql 4 sample_lib sample_sync_env sample_ctx [] = Some (r1, s1)"
    using ends unfolding etl_mysql_to_mysql_def Let_def sample_sync_windows by blast
  obtain r2 s2 where 2: "etl_to_clickhouse SrcMySql (clickhouse_new (\<lambda>s. s) ''h'' 8123 ''u'' ''p'' ''d'') 4 sample_lib sample_sync_env sample_ctx [] = Some (r2, s2)"
    using ends unfolding etl_to_clickhouse_def Let_def win by blast
  obtain r3 s3 where 3: "etl_pg_to_pg 4 sample_lib sample_sync_env sample_ctx [] = Some (r3, s3)"
    using ends unfolding etl_pg_to_pg_def Let_def sample_sync_windows by blast
  obtain r4 s4 where 4: "etl_cross SrcMySql TgtPostgres 4 sample_lib sample_sync_env sample_ctx [] = Some (r4, s4)"
    using ends unfolding etl_cross.simps Let_def sample_sync_windows by blast
  obtain r5 s5 where 5: "etl_cross SrcPostgres TgtMySql 4 sample_lib sample_sync_env sample_ctx [] = Some (r5, s5)"
    using ends unfolding etl_cross.simps Let_def sample_sync_windows by blast
  have "dc_target_strategy (lc_config sample_ctx) = Truncate" "lc_resume_cursor sample_ctx = None"
    by (simp_all add: sample_ctx_def)
  with truncate_guards [OF this(1) sample_sync_windows 1 2 3 4 5] 3 show ?thesis by blast
qed

definition sample_sync_db :: sync_db where
  "sample_sync_db = \<lparr>sd_tasks = (\<lambda>_. None), sd_connections = (\<lambda>_. None), sd_runs = []\<rparr>"

definition sample_sync_io :: sync_io where
  "sample_sync_io = \<lparr>io_run_id = ''r1'', io_now = ''t0'', io_end = ''t1'', io_elapsed_ms = 5, io_resume_ok = True,
     io_insert_ok = True, io_task_ok = True, io_connection_ok = (\<lambda>_. True), io_finish_ok = True, io_status_ok = True,
     io_parse_config = (\<lambda>_. Inr sample_sync_config), io_decrypt = (\<lambda>s. Inr s), io_connect = (\<lambda>_ _. Inr ()),
     io_default_batch_size = 10000, io_env = sample_sync_env, io_parse_channels = (\<lambda>_. None), io_client = Inr (),
     io_parse_url = (\<lambda>_. Inr None), io_send = (\<lambda>_. Inr 200), io_dev_mode = False\<rparr>"

theorem sync_run_recorded_witness:
  "\<exists>db' tr row. sync_run_task 1 sample_lib sample_sync_io ''t1'' ''scheduler'' sample_sync_db =
      Some (EtlError ''task t1 not found'', db', tr) \<and>
    last (sd_runs db') = row \<and> sr_status row = ''failed'' \<and> sr_error row = Some ''task t1 not found''"
proof -
  obtain db' tr where run: "sync_run_task 1 sample_lib sample_sync_io ''t1'' ''scheduler'' sample_sync_db =
      Some (EtlError ''task t1 not found'', db', tr)"
    by (simp add: sync_run_task_def sync_run_task_inner_def prepare_run_def load_task_def sample_sync_io_def
        sample_sync_db_def Let_def)
  have red: "sync_redact_error ''task t1 not found'' = ''task t1 not found''" by code_simp
  from sync_run_recorded [OF run] have "\<exists>row. last (sd_runs db') = row \<and> sr_status row = ''failed'' \<and>
      sr_error row = Some ''task t1 not found''"
    by (auto simp: sample_sync_io_def sample_sync_db_def final_status_def red)
  with run show ?thesis by blast
qed

end
