(* ===== verification/License.thy ===== *)
theory License
  imports Rust_Prelude
begin

text \<open>
  License files and entitlements: \<open>crates/license/src/lib.rs\<close>, \<open>entitlement.rs\<close>, \<open>trial.rs\<close> and
  \<open>instance.rs\<close>.

  The Ed25519 library is the parameter \<open>verify_sig\<close>: what the trusted key says of a message and the
  bytes of a signature, where the signature has the right length; the key itself is part of it.
  chrono is an RFC 3339 parser \<open>rfc3339\<close> and writer \<open>to_rfc\<close>; the clock is an argument. An instant is
  a number of nanoseconds.
\<close>

section \<open>Model\<close>

record parsed_license =
  pl_email :: string
  pl_expires_at :: "string option"
  pl_instance_id :: string
  pl_issued_at :: string
  pl_product :: string
  pl_license_type :: string
  pl_version :: nat
  pl_signature_hex :: string

record license_v2 =
  lv_email :: string
  lv_expires_at :: "string option"
  lv_instance_id :: string
  lv_issued_at :: string
  lv_license_type :: string

definition product_server :: string where
  "product_server = ''server''"

definition license_version :: nat where
  "license_version = 2"

definition canonical_lines :: "license_v2 \<Rightarrow> string list" where
  "canonical_lines l =
     [''email:'' @ lv_email l,
      ''expires_at:'' @ (case lv_expires_at l of None \<Rightarrow> '''' | Some e \<Rightarrow> e),
      ''instance_id:'' @ lv_instance_id l,
      ''issued_at:'' @ lv_issued_at l,
      ''product:'' @ product_server,
      ''type:'' @ lv_license_type l,
      ''v:'' @ show_nat license_version]"

definition canonical_bytes :: "license_v2 \<Rightarrow> string" where
  "canonical_bytes l = join [newline] (canonical_lines l)"

datatype license_parse_error =
    MissingBlock
  | MissingField string
  | EmptyField string
  | InvalidVersion string
  | InvalidExpiresAt string
  | DuplicateField string
  | MissingSignature
  | UnknownField string

datatype verify_error =
    WrongProduct string
  | WrongVersion nat
  | InvalidType string
  | InvalidPublicKey
  | InvalidSignatureEncoding
  | SignatureMismatch

definition begin_marker :: string where
  "begin_marker = ''-----BEGIN DBMASTER SERVER LICENSE-----''"

definition end_marker :: string where
  "end_marker = ''-----END DBMASTER SERVER LICENSE-----''"

text \<open>The eight variables the lines are collected in, by their key.\<close>

definition license_keys :: "string list" where
  "license_keys = [''email'', ''expires_at'', ''instance_id'', ''issued_at'', ''product'', ''type'', ''v'', ''signature'']"

type_synonym license_fields = "(string \<times> string) list"

definition parse_line :: "string \<Rightarrow> license_fields \<Rightarrow> license_parse_error + license_fields" where
  "parse_line raw_line fs =
     (let trimmed = trim raw_line in
      if trimmed = [] then Inr fs
      else case split_once (CHR '':'') trimmed of
          None \<Rightarrow> Inl MissingSignature
        | Some (k, v) \<Rightarrow>
            let key = trim k; v = trim v in
            if key \<notin> set license_keys then Inl (UnknownField key)
            else if map_of fs key \<noteq> None then Inl (DuplicateField key)
            else Inr ((key, v) # fs))"

fun parse_lines :: "string list \<Rightarrow> license_fields \<Rightarrow> license_parse_error + license_fields" where
  "parse_lines [] fs = Inr fs"
| "parse_lines (l # ls) fs = and_then (parse_line l fs) (parse_lines ls)"

definition finish_parse :: "license_fields \<Rightarrow> license_parse_error + parsed_license" where
  "finish_parse fs =
     and_then (ok_or (MissingField ''email'') (map_of fs ''email'')) (\<lambda>email.
     and_then (ok_or (MissingField ''instance_id'') (map_of fs ''instance_id'')) (\<lambda>instance_id.
     and_then (ok_or (MissingField ''issued_at'') (map_of fs ''issued_at'')) (\<lambda>issued_at.
     and_then (ok_or (MissingField ''product'') (map_of fs ''product'')) (\<lambda>product.
     and_then (ok_or (MissingField ''type'') (map_of fs ''type'')) (\<lambda>license_type.
     and_then (ok_or MissingSignature (map_of fs ''signature'')) (\<lambda>signature_hex.
     and_then (ok_or (MissingField ''v'') (map_of fs ''v'')) (\<lambda>version_str.
     if email = [] then Inl (EmptyField ''email'')
     else if instance_id = [] then Inl (EmptyField ''instance_id'')
     else if issued_at = [] then Inl (EmptyField ''issued_at'')
     else
     and_then (ok_or (InvalidVersion version_str) (parse_unsigned 255 version_str)) (\<lambda>version.
     and_then (case map_of fs ''expires_at'' of
         None \<Rightarrow> Inr None
       | Some s \<Rightarrow>
           if s = [] then Inr None
           else if CHR ''T'' \<notin> set s then Inl (InvalidExpiresAt s)
           else Inr (Some s)) (\<lambda>expires_at.
     if license_type = ''lifetime'' \<and> expires_at = None \<or> license_type = ''yearly'' \<and> expires_at \<noteq> None
     then Inr \<lparr>pl_email = email, pl_expires_at = expires_at, pl_instance_id = instance_id, pl_issued_at = issued_at,
            pl_product = product, pl_license_type = license_type, pl_version = version, pl_signature_hex = signature_hex\<rparr>
     else Inl (MissingField ''type_expires_at_mismatch''))))))))))"

text \<open>
  Without a value the slice between the markers panics: the end marker may begin inside the begin
  marker.
\<close>

definition parse_license :: "string \<Rightarrow> (license_parse_error + parsed_license) option" where
  "parse_license s =
     (case find_sub begin_marker s of
       None \<Rightarrow> Some (Inl MissingBlock)
     | Some b \<Rightarrow>
         (case find_sub end_marker s of
           None \<Rightarrow> Some (Inl MissingBlock)
         | Some e \<Rightarrow>
             if e \<le> b then Some (Inl MissingBlock)
             else if e < b + length begin_marker then None
             else Some (and_then (parse_lines (str_lines (drop (b + length begin_marker) (take e s))) []) finish_parse)))"

fun hex_nibble :: "char \<Rightarrow> nat option" where
  "hex_nibble c =
     (if is_ascii_digit c then Some (ccode c - 48)
      else if 97 \<le> ccode c \<and> ccode c \<le> 102 then Some (ccode c - 87)
      else if 65 \<le> ccode c \<and> ccode c \<le> 70 then Some (ccode c - 55)
      else None)"

fun hex_decode :: "string \<Rightarrow> nat list option" where
  "hex_decode [] = Some []"
| "hex_decode [c] = None"
| "hex_decode (c # d # cs) =
     (case (hex_nibble c, hex_nibble d, hex_decode cs) of
       (Some h, Some l, Some bs) \<Rightarrow> Some ((16 * h + l) # bs)
     | _ \<Rightarrow> None)"

definition license_of :: "parsed_license \<Rightarrow> license_v2" where
  "license_of p = \<lparr>lv_email = pl_email p, lv_expires_at = pl_expires_at p, lv_instance_id = pl_instance_id p,
     lv_issued_at = pl_issued_at p, lv_license_type = pl_license_type p\<rparr>"

definition verify_license_with_pk :: "(string \<Rightarrow> nat list \<Rightarrow> bool) \<Rightarrow> parsed_license \<Rightarrow> verify_error + license_v2" where
  "verify_license_with_pk verify_sig p =
     (if pl_product p \<noteq> product_server then Inl (WrongProduct (pl_product p))
      else if pl_version p \<noteq> license_version then Inl (WrongVersion (pl_version p))
      else if pl_license_type p \<notin> {''yearly'', ''lifetime''} then Inl (InvalidType (pl_license_type p))
      else case hex_decode (pl_signature_hex p) of
          None \<Rightarrow> Inl InvalidSignatureEncoding
        | Some sig \<Rightarrow>
            if length sig \<noteq> 64 then Inl InvalidSignatureEncoding
            else if verify_sig (canonical_bytes (license_of p)) sig then Inr (license_of p)
            else Inl SignatureMismatch)"

text \<open>The trusted key: in debug builds an environment variable may replace the built-in one.\<close>

definition server_public_key_hex :: string where
  "server_public_key_hex = ''6ef69c43723d19bdb1e40ed1fc31a6ba82936042994f1117decec6f42b33541f''"

definition trusted_key_bytes :: "bool \<Rightarrow> string option \<Rightarrow> verify_error + nat list" where
  "trusted_key_bytes debug_build override =
     (let hex_str = (case override of
          Some pk \<Rightarrow> if debug_build \<and> trim pk \<noteq> [] then trim pk else server_public_key_hex
        | None \<Rightarrow> server_public_key_hex)
      in and_then (ok_or InvalidPublicKey (hex_decode hex_str)) (\<lambda>bs.
         if length bs = 32 then Inr bs else Inl InvalidPublicKey))"

subsection \<open>Entitlement\<close>

datatype gated_reason = TrialExpired | LicenseInvalid | InstanceMismatch | LicenseExpired

datatype entitlement_state =
    Licensed license_v2 "int option"
  | Trial int
  | Gated gated_reason

definition is_gated :: "entitlement_state \<Rightarrow> bool" where
  "is_gated s = (case s of Gated _ \<Rightarrow> True | _ \<Rightarrow> False)"

definition nanos_per_day :: int where
  "nanos_per_day = 86400 * 10 ^ 9"

text \<open>\<open>num_days\<close> rounds towards zero.\<close>

definition num_days :: "int \<Rightarrow> int" where
  "num_days d = (if 0 \<le> d then d div nanos_per_day else - ((- d) div nanos_per_day))"

definition days_until_expiry :: "int \<Rightarrow> entitlement_state \<Rightarrow> int option" where
  "days_until_expiry now s =
     (case s of
       Licensed l (Some exp) \<Rightarrow> Some (num_days (exp - now))
     | Licensed l None \<Rightarrow> None
     | Trial exp \<Rightarrow> Some (num_days (exp - now))
     | Gated _ \<Rightarrow> None)"

datatype renewal_tier = Soon | Urgent

definition renewal_banner :: "int \<Rightarrow> entitlement_state \<Rightarrow> renewal_tier option" where
  "renewal_banner now s =
     (case s of
       Licensed l (Some exp) \<Rightarrow>
         (case days_until_expiry now s of
           None \<Rightarrow> None
         | Some days \<Rightarrow> if days \<le> 7 then Some Urgent else if days \<le> 30 then Some Soon else None)
     | _ \<Rightarrow> None)"

definition license_state :: "(string \<Rightarrow> int option) \<Rightarrow> int \<Rightarrow> license_v2 \<Rightarrow> string \<Rightarrow> entitlement_state" where
  "license_state rfc3339 now l local_install_uuid =
     (if lv_instance_id l \<noteq> local_install_uuid then Gated InstanceMismatch
      else let expires_at = Option.bind (lv_expires_at l) rfc3339
           in case expires_at of
                Some exp \<Rightarrow> if now > exp then Gated LicenseExpired else Licensed l expires_at
              | None \<Rightarrow> Licensed l expires_at)"

text \<open>Without a value the parser panicked.\<close>

definition resolve_from_license_text :: "(string \<Rightarrow> int option) \<Rightarrow> (nat list \<Rightarrow> (string \<Rightarrow> nat list \<Rightarrow> bool) option) \<Rightarrow>
    verify_error + nat list \<Rightarrow> int \<Rightarrow> string \<Rightarrow> string \<Rightarrow> entitlement_state option" where
  "resolve_from_license_text rfc3339 load_key trusted now s local_install_uuid =
     (case trusted of
       Inl _ \<Rightarrow> Some (Gated LicenseInvalid)
     | Inr bs \<Rightarrow>
         (case load_key bs of
           None \<Rightarrow> Some (Gated LicenseInvalid)
         | Some verify_sig \<Rightarrow>
             (case parse_license s of
               None \<Rightarrow> None
             | Some (Inl _) \<Rightarrow> Some (Gated LicenseInvalid)
             | Some (Inr p) \<Rightarrow>
                 (case verify_license_with_pk verify_sig p of
                   Inr l \<Rightarrow> Some (license_state rfc3339 now l local_install_uuid)
                 | Inl _ \<Rightarrow> Some (Gated LicenseInvalid)))))"

section \<open>Parsing\<close>

definition fields_plain :: "license_fields \<Rightarrow> bool" where
  "fields_plain fs = list_all (\<lambda>(k, v). newline \<notin> set v) fs"

lemma fields_planD: "fields_plain fs \<Longrightarrow> map_of fs k = Some v \<Longrightarrow> newline \<notin> set v"
  by (auto simp: fields_plain_def list_all_iff dest!: map_of_SomeD)

lemma parse_line_plain:
  assumes "parse_line l fs = Inr fs'" "newline \<notin> set l" "fields_plain fs"
  shows "fields_plain fs'"
proof -
  have "newline \<notin> set (trim v)" if "trim l = k @ CHR '':'' # v" for k v
    using that assms(2) set_trim [of l] set_trim [of v] by auto
  with assms(1,3) show ?thesis
    by (auto simp: parse_line_def Let_def fields_plain_def split_once_Some split: if_splits option.splits)
qed

lemma parse_lines_plain:
  "parse_lines ls fs = Inr fs' \<Longrightarrow> \<forall>l \<in> set ls. newline \<notin> set l \<Longrightarrow> fields_plain fs \<Longrightarrow> fields_plain fs'"
  by (induction ls arbitrary: fs) (auto simp: rust_res dest: parse_line_plain)

text \<open>What a parsed license satisfies whatever the text was.\<close>

definition parsed_wf :: "parsed_license \<Rightarrow> bool" where
  "parsed_wf p =
     (pl_email p \<noteq> [] \<and> pl_instance_id p \<noteq> [] \<and> pl_issued_at p \<noteq> [] \<and> pl_version p \<le> 255 \<and>
      newline \<notin> set (pl_email p) \<and> newline \<notin> set (pl_instance_id p) \<and> newline \<notin> set (pl_issued_at p) \<and>
      (case pl_expires_at p of None \<Rightarrow> pl_license_type p = ''lifetime''
         | Some e \<Rightarrow> pl_license_type p = ''yearly'' \<and> CHR ''T'' \<in> set e \<and> newline \<notin> set e))"

lemma finish_parse_wf:
  assumes "finish_parse fs = Inr p" "fields_plain fs"
  shows "parsed_wf p"
  using assms(1)
  by (auto simp: finish_parse_def rust_res parsed_wf_def parse_unsigned_bound
      dest: fields_planD [OF assms(2)] split: option.splits if_splits)

lemma parse_license_wf:
  assumes "parse_license s = Some (Inr p)"
  shows "parsed_wf p"
proof -
  obtain t fs where fs: "parse_lines (str_lines t) [] = Inr fs" and p: "finish_parse fs = Inr p"
    using assms by (auto simp: parse_license_def rust_res split: option.splits if_splits)
  have "fields_plain fs"
    by (rule parse_lines_plain [OF fs]) (auto simp: fields_plain_def dest: str_lines_no_newline)
  with p show ?thesis by (rule finish_parse_wf)
qed

section \<open>Canonical bytes\<close>

lemma canonical_lines_plain:
  assumes "parsed_wf p" "l \<in> set (canonical_lines (license_of p))"
  shows "newline \<notin> set l"
proof -
  have "newline \<notin> set (show_nat license_version)"
    by (rule not_digit_notin_show_nat) (simp add: newline_def is_ascii_digit_def ccode_def)
  then show ?thesis
    using assms
    by (auto simp: canonical_lines_def license_of_def parsed_wf_def newline_def product_server_def split: option.splits)
qed

lemma canonical_bytes_lines:
  assumes "parsed_wf p" "parsed_wf q" "canonical_bytes (license_of p) = canonical_bytes (license_of q)"
  shows "canonical_lines (license_of p) = canonical_lines (license_of q)"
proof -
  have "split_on newline (canonical_bytes (license_of r)) = canonical_lines (license_of r)" if "parsed_wf r" for r
    unfolding canonical_bytes_def
    by (rule split_on_join) (auto simp: canonical_lines_plain [OF that] canonical_lines_def)
  with assms show ?thesis by metis
qed

lemma canonical_lines_inj:
  assumes "parsed_wf p" "parsed_wf q" "canonical_lines (license_of p) = canonical_lines (license_of q)"
  shows "license_of p = license_of q"
proof -
  have "pl_expires_at p = pl_expires_at q"
    using assms
    by (cases "pl_expires_at p"; cases "pl_expires_at q")
      (auto simp: canonical_lines_def license_of_def parsed_wf_def)
  then show ?thesis
    using assms(3) by (simp add: canonical_lines_def license_of_def)
qed

text \<open>
  A signature binds one license: two texts that parse and sign the same canonical bytes give the
  same license, whatever else (order of lines, white space, product, version, signature) they hold.
\<close>

theorem signature_binds_license:
  assumes "parse_license s = Some (Inr p)" "parse_license t = Some (Inr q)"
    and "canonical_bytes (license_of p) = canonical_bytes (license_of q)"
  shows "license_of p = license_of q"
  using assms by (meson parse_license_wf canonical_bytes_lines canonical_lines_inj)

section \<open>Acceptance\<close>

lemma verify_license_with_pk_iff:
  "verify_license_with_pk verify_sig p = Inr l \<longleftrightarrow>
     pl_product p = ''server'' \<and> pl_version p = 2 \<and> pl_license_type p \<in> {''yearly'', ''lifetime''} \<and> l = license_of p \<and>
     (\<exists>sig. hex_decode (pl_signature_hex p) = Some sig \<and> length sig = 64 \<and> verify_sig (canonical_bytes l) sig)"
  by (auto simp: verify_license_with_pk_def product_server_def license_version_def split: option.splits)

lemma license_state_Licensed_iff:
  "license_state rfc3339 now l uuid = Licensed l' e \<longleftrightarrow>
     l' = l \<and> lv_instance_id l = uuid \<and> e = Option.bind (lv_expires_at l) rfc3339 \<and> (\<forall>x. e = Some x \<longrightarrow> now \<le> x)"
  by (auto simp: license_state_def Let_def split: option.splits if_splits)

lemma resolve_Licensed_iff:
  "resolve_from_license_text rfc3339 load_key trusted now s uuid = Some (Licensed l e) \<longleftrightarrow>
     (\<exists>key verify_sig p sig.
        trusted = Inr key \<and> load_key key = Some verify_sig \<and> parse_license s = Some (Inr p) \<and> l = license_of p \<and>
        pl_product p = ''server'' \<and> pl_version p = 2 \<and> lv_instance_id l = uuid \<and>
        hex_decode (pl_signature_hex p) = Some sig \<and> length sig = 64 \<and> verify_sig (canonical_bytes l) sig \<and>
        e = Option.bind (lv_expires_at l) rfc3339 \<and> (\<forall>x. e = Some x \<longrightarrow> now \<le> x))"
    (is "?lhs \<longleftrightarrow> ?rhs")
proof
  show "?lhs \<Longrightarrow> ?rhs"
    by (auto simp: resolve_from_license_text_def verify_license_with_pk_iff license_state_Licensed_iff split: sum.splits option.splits)
  show "?rhs \<Longrightarrow> ?lhs"
  proof (elim exE conjE)
    fix key verify_sig p sig
    assume a: "trusted = Inr key" "load_key key = Some verify_sig" "parse_license s = Some (Inr p)" "l = license_of p"
      "pl_product p = ''server''" "pl_version p = 2" "lv_instance_id l = uuid"
      "hex_decode (pl_signature_hex p) = Some sig" "length sig = 64" "verify_sig (canonical_bytes l) sig"
      "e = Option.bind (lv_expires_at l) rfc3339" "\<forall>x. e = Some x \<longrightarrow> now \<le> x"
    have "pl_license_type p \<in> {''yearly'', ''lifetime''}"
      using parse_license_wf [OF a(3)] by (auto simp: parsed_wf_def split: option.splits)
    with a have "verify_license_with_pk verify_sig p = Inr l"
      by (auto simp: verify_license_with_pk_iff)
    moreover have "license_state rfc3339 now l uuid = Licensed l e"
      using a by (simp add: license_state_Licensed_iff)
    ultimately show ?lhs using a by (simp add: resolve_from_license_text_def)
  qed
qed

text \<open>
  C24. A license text makes the server licensed exactly when the trusted key loads, the text parses, names
  this product, this version and this installation, carries 64 bytes that the trusted key accepts as a
  signature of the canonical bytes, and has not expired.
\<close>

theorem licensed_iff:
  "resolve_from_license_text rfc3339 load_key trusted now s uuid = Some (Licensed l e) \<longleftrightarrow>
     (\<exists>key verify_sig p sig.
        trusted = Inr key \<and> load_key key = Some verify_sig \<and> parse_license s = Some (Inr p) \<and> l = license_of p \<and>
        pl_product p = ''server'' \<and> pl_version p = 2 \<and> lv_instance_id l = uuid \<and>
        hex_decode (pl_signature_hex p) = Some sig \<and> length sig = 64 \<and> verify_sig (canonical_bytes l) sig \<and>
        e = Option.bind (lv_expires_at l) rfc3339 \<and> (\<forall>x. e = Some x \<longrightarrow> now \<le> x))"
  by (rule resolve_Licensed_iff)

section \<open>What the issuer renders\<close>

text \<open>The PEM text as \<open>render_pem\<close> of the tests, and the site that sells the licenses, write it.\<close>

definition pem_line :: "string \<Rightarrow> string \<Rightarrow> string" where
  "pem_line k v = k @ '': '' @ v"

definition pem_fields :: "license_v2 \<Rightarrow> string \<Rightarrow> (string \<times> string) list" where
  "pem_fields l sig =
     [(''email'', lv_email l),
      (''expires_at'', case lv_expires_at l of None \<Rightarrow> '''' | Some e \<Rightarrow> e),
      (''instance_id'', lv_instance_id l),
      (''issued_at'', lv_issued_at l),
      (''product'', ''server''),
      (''type'', lv_license_type l),
      (''v'', ''2''),
      (''signature'', sig)]"

definition pem_lines :: "license_v2 \<Rightarrow> string \<Rightarrow> string list" where
  "pem_lines l sig = map (\<lambda>(k, v). pem_line k v) (pem_fields l sig)"

definition render_pem :: "license_v2 \<Rightarrow> string \<Rightarrow> string" where
  "render_pem l sig = begin_marker @ newline # join [newline] (pem_lines l sig) @ newline # end_marker"

text \<open>Field values that the line format can carry.\<close>

definition field_plain :: "string \<Rightarrow> bool" where
  "field_plain v = (trim v = v \<and> newline \<notin> set v \<and> \<not> contains_sub end_marker v)"

definition license_plain :: "license_v2 \<Rightarrow> bool" where
  "license_plain l =
     (list_all (\<lambda>v. field_plain v \<and> v \<noteq> []) [lv_email l, lv_instance_id l, lv_issued_at l] \<and>
      (case lv_expires_at l of None \<Rightarrow> lv_license_type l = ''lifetime''
         | Some e \<Rightarrow> lv_license_type l = ''yearly'' \<and> field_plain e \<and> CHR ''T'' \<in> set e))"

lemma find_sub_behind:
  assumes "c \<notin> set p" "p \<noteq> []"
  shows "\<not> sublist p a \<Longrightarrow> find_sub p (a @ c # p @ b) = Some (Suc (length a))"
proof (induction a)
  case Nil
  have "\<not> starts_with p (c # p @ b)"
    using assms by (cases p) (auto simp: starts_with_iff_prefix)
  moreover have "find_sub p (p @ b) = Some 0"
    using assms(2) starts_with_append [of p b] by (cases "p @ b") auto
  ultimately show ?case by simp
next
  case (Cons x a)
  have "\<not> prefix p ((x # a) @ c # p @ b)"
  proof
    assume "prefix p ((x # a) @ c # p @ b)"
    then consider "prefix p (x # a)" | r where "p = (x # a) @ r" "prefix r (c # p @ b)"
      by (metis prefix_append)
    then show False
    proof cases
      case 1
      with Cons.prems show False by auto
    next
      case 2
      then have "r = [] \<or> c \<in> set p" by (cases r) auto
      with 2 assms Cons.prems show False by auto
    qed
  qed
  moreover have "\<not> sublist p a"
    using Cons.prems by (simp add: sublist_Cons_right)
  ultimately show ?case
    using Cons.IH by (simp add: starts_with_iff_prefix)
qed

lemma sublist_over_sep:
  assumes "sublist p (a @ c # b)" "c \<notin> set p" "p \<noteq> []"
  shows "sublist p a \<or> sublist p b"
proof -
  consider "sublist p a" | "sublist p (c # b)"
    | p1 p2 where "p = p1 @ p2" "suffix p1 a" "prefix p2 (c # b)"
    using assms(1) unfolding sublist_append by blast
  then show ?thesis
  proof cases
    case 2
    then have "prefix p (c # b) \<or> sublist p b" by (simp add: sublist_Cons_right)
    with assms(2,3) show ?thesis by (cases p) auto
  next
    case 3
    then have "p2 = []" using assms(2) by (cases p2) auto
    with 3 show ?thesis by auto
  qed simp
qed

lemma sublist_join:
  assumes "c \<notin> set p" "p \<noteq> []"
  shows "sublist p (join [c] ws) \<Longrightarrow> \<exists>w \<in> set ws. sublist p w"
proof (induction ws)
  case Nil
  with assms show ?case by simp
next
  case (Cons w ws)
  show ?case
  proof (cases "ws = []")
    case False
    then have "sublist p (w @ c # join [c] ws)" using Cons.prems by (cases ws) auto
    then have "sublist p w \<or> sublist p (join [c] ws)" using assms by (rule sublist_over_sep)
    with Cons.IH show ?thesis by auto
  qed (use Cons.prems in simp)
qed

lemma trim_Cons_ws [simp]: "is_ws c \<Longrightarrow> trim (c # s) = trim s"
  by (simp add: trim_def trim_start_def)

lemma trim_last: "trim v = v \<Longrightarrow> v \<noteq> [] \<Longrightarrow> \<not> is_ws (last v)"
  using last_trim_end [of "trim_start v"] by (simp add: trim_def)

text \<open>A line of the text gives its field back.\<close>

lemma trim_field_line:
  assumes "k \<noteq> []" "\<not> is_ws (hd k)" "trim v = v"
  shows "trim (pem_line k v) = (if v = [] then k @ '':'' else pem_line k v)"
proof (cases "v = []")
  case True
  have "trim_start (k @ '': '') = k @ '': ''" using assms by (cases k) (auto simp: trim_start_def)
  moreover have "trim_end (k @ '': '') = k @ '':''" by (simp add: trim_end_def is_ws_def ccode_def)
  ultimately show ?thesis using True by (simp add: trim_def pem_line_def)
next
  case False
  then have "trim (pem_line k v) = pem_line k v"
    using assms by (intro trim_id) (auto simp: trim_last pem_line_def)
  with False show ?thesis by simp
qed

lemma parse_field_line:
  assumes "k \<in> set license_keys" "map_of fs k = None" "trim v = v"
  shows "parse_line (pem_line k v) fs = Inr ((k, v) # fs)"
proof -
  have k: "k \<noteq> [] \<and> \<not> is_ws (hd k) \<and> \<not> is_ws (last k) \<and> CHR '':'' \<notin> set k"
    using assms(1) by (auto simp: license_keys_def is_ws_def ccode_def)
  have "split_once (CHR '':'') (if v = [] then k @ '':'' else pem_line k v) = Some (k, if v = [] then [] else CHR '' '' # v)"
    using k by (auto simp: split_once_Some pem_line_def)
  moreover have "trim (if v = [] then [] else CHR '' '' # v) = v"
    using assms(3) by (simp add: is_ws_def ccode_def)
  moreover have "trim k = k" using k by (simp add: trim_id)
  moreover have "trim (pem_line k v) \<noteq> []" using k trim_field_line [OF _ _ assms(3), of k] by (auto simp: pem_line_def split: if_splits)
  ultimately show ?thesis
    using k assms by (simp add: parse_line_def Let_def trim_field_line)
qed

lemma strip_cr_field_line: "trim v = v \<Longrightarrow> strip_cr (pem_line k v) = pem_line k v"
  using trim_last [of v] by (auto simp: strip_cr_def is_ws_def ccode_def pem_line_def)

lemma lines_of_final: "lines_of (ws @ [[]]) = map strip_cr ws"
proof (induction ws)
  case (Cons w ws)
  then show ?case by (cases ws) auto
qed simp

lemma join_snoc_Nil: "ws \<noteq> [] \<Longrightarrow> join sep (ws @ [[]]) = join sep ws @ sep"
proof (induction ws)
  case (Cons w ws)
  then show ?case by (cases ws) auto
qed simp

lemma str_lines_block:
  assumes "ws \<noteq> []" "\<And>w. w \<in> set ws \<Longrightarrow> newline \<notin> set w \<and> strip_cr w = w"
  shows "str_lines (newline # join [newline] ws @ [newline]) = [] # ws"
proof -
  have "newline # join [newline] ws @ [newline] = join [newline] (([] # ws) @ [[]])"
    using assms(1) by (subst join_snoc_Nil) (auto simp: neq_Nil_conv)
  moreover have "split_on newline (join [newline] (([] # ws) @ [[]])) = ([] # ws) @ [[]]"
    by (rule split_on_join) (use assms in auto)
  ultimately have "str_lines (newline # join [newline] ws @ [newline]) = map strip_cr ([] # ws)"
    unfolding str_lines_def by (simp only: lines_of_final)
  also have "\<dots> = [] # ws"
    using assms(2) by (simp add: strip_cr_def [of "[]"] map_idI)
  finally show ?thesis .
qed

lemma pem_fields_values:
  assumes "license_plain l" "field_plain sig" "(k, v) \<in> set (pem_fields l sig)"
  shows "k \<in> set license_keys \<and> field_plain v"
proof -
  have p: "field_plain ''server''" "field_plain ''2''" "field_plain ''yearly''" "field_plain ''lifetime''" "field_plain ''''"
    by code_simp+
  have "list_all (\<lambda>(k, v). field_plain v) (pem_fields l sig)"
    using p assms(1,2) unfolding pem_fields_def license_plain_def
    by (auto split: option.splits)
  moreover have "k \<in> set (map fst (pem_fields l sig))" using assms(3) by force
  then have "k \<in> set license_keys" by (simp add: pem_fields_def license_keys_def)
  ultimately show ?thesis using assms(3) by (auto simp: list_all_iff)
qed

lemma parse_lines_fields:
  assumes "\<forall>(k, v) \<in> set kvs. k \<in> set license_keys \<and> trim v = v" "distinct (map fst kvs)"
    "\<forall>(k, v) \<in> set kvs. map_of fs k = None"
  shows "parse_lines (map (\<lambda>(k, v). pem_line k v) kvs) fs = Inr (rev kvs @ fs)"
  using assms
proof (induction kvs arbitrary: fs)
  case (Cons kv kvs)
  obtain k v where kv: "kv = (k, v)" by (cases kv)
  have "parse_line (pem_line k v) fs = Inr ((k, v) # fs)"
    using Cons.prems kv by (intro parse_field_line) auto
  moreover have "parse_lines (map (\<lambda>(k, v). pem_line k v) kvs) ((k, v) # fs) = Inr (rev kvs @ (k, v) # fs)"
    using Cons.prems kv by (intro Cons.IH) (auto simp: rev_image_eqI)
  ultimately show ?case using kv by simp
qed simp

lemma end_marker_props: "newline \<notin> set end_marker" "end_marker \<noteq> []"
  by (simp_all add: end_marker_def newline_def)

lemma end_marker_not_in_line:
  assumes "k \<in> set license_keys" "field_plain v"
  shows "\<not> sublist end_marker (pem_line k v)"
proof
  assume "sublist end_marker (pem_line k v)"
  then have "sublist end_marker (k @ CHR '':'' # CHR '' '' # v)" by (simp add: pem_line_def)
  moreover have m: "CHR '':'' \<notin> set end_marker" "CHR ''-'' \<in> set end_marker" "hd end_marker = CHR ''-''"
    by (simp_all add: end_marker_def)
  ultimately have "sublist end_marker k \<or> sublist end_marker (CHR '' '' # v)"
    using end_marker_props(2) sublist_over_sep [of end_marker k "CHR '':''" "CHR '' '' # v"] by simp
  moreover have "CHR ''-'' \<notin> set k" using assms(1) by (auto simp: license_keys_def)
  then have "\<not> sublist end_marker k" using m(2) by (meson set_mono_sublist subsetD)
  moreover have "\<not> prefix end_marker (CHR '' '' # v)" by (simp add: end_marker_def)
  ultimately have "sublist end_marker v" by (simp add: sublist_Cons_right)
  with assms(2) show False by (simp add: field_plain_def contains_sub_iff_sublist)
qed

lemma find_end_marker:
  assumes "license_plain l" "field_plain sig"
  shows "find_sub end_marker (render_pem l sig) =
    Some (length begin_marker + length (join [newline] (pem_lines l sig)) + 2)"
proof -
  let ?a = "begin_marker @ newline # join [newline] (pem_lines l sig)"
  have "\<not> sublist end_marker begin_marker"
    unfolding contains_sub_iff_sublist [symmetric] by code_simp
  moreover have "\<not> sublist end_marker w" if "w \<in> set (pem_lines l sig)" for w
    using that pem_fields_values [OF assms] end_marker_not_in_line by (auto simp: pem_lines_def)
  ultimately have "\<not> sublist end_marker ?a"
    using sublist_over_sep [OF _ end_marker_props, of begin_marker] sublist_join [OF end_marker_props] by meson
  from find_sub_behind [OF end_marker_props this, of "[]"] show ?thesis
    by (simp add: render_pem_def)
qed

lemma finish_parse_pem:
  assumes "license_plain l" "field_plain sig"
  shows "finish_parse (rev (pem_fields l sig)) =
    Inr \<lparr>pl_email = lv_email l, pl_expires_at = lv_expires_at l, pl_instance_id = lv_instance_id l,
      pl_issued_at = lv_issued_at l, pl_product = ''server'', pl_license_type = lv_license_type l, pl_version = 2,
      pl_signature_hex = sig\<rparr>"
proof -
  have "parse_unsigned 255 ''2'' = Some 2" by code_simp
  with assms(1) show ?thesis
    by (auto simp: finish_parse_def pem_fields_def license_plain_def split: option.splits)
qed

text \<open>
  What the issuer renders is what the server reads: the text of a license whose fields are trimmed,
  free of line feeds and of the end marker parses to that license with its signature.
\<close>

theorem parse_render_pem:
  assumes "license_plain l" "field_plain sig"
  shows "\<exists>p. parse_license (render_pem l sig) = Some (Inr p) \<and> license_of p = l \<and>
    pl_signature_hex p = sig \<and> pl_product p = ''server'' \<and> pl_version p = 2"
proof -
  let ?lines = "pem_lines l sig"
  have line: "newline \<notin> set w \<and> strip_cr w = w" if w: "w \<in> set ?lines" for w
  proof -
    obtain k v where kv: "(k, v) \<in> set (pem_fields l sig)" "w = pem_line k v"
      using w by (auto simp: pem_lines_def)
    then have "newline \<notin> set k" "field_plain v"
      using pem_fields_values [OF assms kv(1)] by (auto simp: license_keys_def newline_def)
    then show ?thesis
      using kv(2) strip_cr_field_line [of v k] by (simp add: field_plain_def pem_line_def newline_def)
  qed
  have "find_sub begin_marker (render_pem l sig) = Some 0"
    unfolding render_pem_def by (simp add: begin_marker_def starts_with_def)
  moreover have "drop (length begin_marker) (take (length begin_marker + length (join [newline] ?lines) + 2) (render_pem l sig))
      = newline # join [newline] ?lines @ [newline]"
    by (simp add: render_pem_def)
  moreover have "str_lines (newline # join [newline] ?lines @ [newline]) = [] # ?lines"
    by (rule str_lines_block) (use line in \<open>auto simp: pem_lines_def pem_fields_def\<close>)
  moreover have "parse_lines ([] # ?lines) [] = Inr (rev (pem_fields l sig))"
  proof -
    have "parse_lines ?lines [] = Inr (rev (pem_fields l sig) @ [])"
      unfolding pem_lines_def
    proof (rule parse_lines_fields)
      show "\<forall>(k, v) \<in> set (pem_fields l sig). k \<in> set license_keys \<and> trim v = v"
        using pem_fields_values [OF assms] by (auto simp: field_plain_def)
      show "distinct (map fst (pem_fields l sig))" by (simp add: pem_fields_def)
    qed simp
    then show ?thesis by (simp add: parse_line_def)
  qed
  ultimately show ?thesis
    using finish_parse_pem [OF assms]
    by (simp add: parse_license_def find_end_marker [OF assms] license_of_def)
qed

section \<open>Concrete licenses\<close>

definition sample_license :: license_v2 where
  "sample_license = \<lparr>lv_email = ''a@b.de'', lv_expires_at = None, lv_instance_id = ''i1'', lv_issued_at = ''2026-08-05T00:00:00Z'',
     lv_license_type = ''lifetime''\<rparr>"

definition sample_signature :: string where
  "sample_signature = concat (replicate 64 ''a1'')"

lemma sample_plain: "license_plain sample_license" "field_plain sample_signature"
  by code_simp+

lemma sample_signature_bytes: "hex_decode sample_signature = Some (replicate 64 161)"
  by code_simp

theorem parse_render_pem_witness:
  "license_plain sample_license \<and> field_plain sample_signature \<and>
   (\<exists>p. parse_license (render_pem sample_license sample_signature) = Some (Inr p) \<and> license_of p = sample_license \<and>
     pl_signature_hex p = sample_signature \<and> pl_product p = ''server'' \<and> pl_version p = 2)"
  using parse_render_pem [OF sample_plain] sample_plain by blast

text \<open>A second text of the same license: other order of lines, other white space.\<close>

definition sample_text :: string where
  "sample_text = join [newline] [begin_marker, ''v:2'', ''product:server'', ''  type :lifetime'', ''signature:00'',
     ''issued_at:2026-08-05T00:00:00Z'', ''instance_id:i1'', ''email:a@b.de'', '''', end_marker]"

definition sample_parsed :: "string \<Rightarrow> parsed_license" where
  "sample_parsed sig = \<lparr>pl_email = ''a@b.de'', pl_expires_at = None, pl_instance_id = ''i1'',
     pl_issued_at = ''2026-08-05T00:00:00Z'', pl_product = ''server'', pl_license_type = ''lifetime'', pl_version = 2,
     pl_signature_hex = sig\<rparr>"

lemma sample_parses:
  "parse_license (render_pem sample_license sample_signature) = Some (Inr (sample_parsed sample_signature))"
  "parse_license sample_text = Some (Inr (sample_parsed ''00''))"
  by code_simp+

lemma license_of_sample: "license_of (sample_parsed sig) = sample_license"
  by (simp add: license_of_def sample_parsed_def sample_license_def)

theorem signature_binds_license_witness:
  "render_pem sample_license sample_signature \<noteq> sample_text \<and>
   parse_license (render_pem sample_license sample_signature) = Some (Inr (sample_parsed sample_signature)) \<and>
   parse_license sample_text = Some (Inr (sample_parsed ''00'')) \<and>
   license_of (sample_parsed sample_signature) = license_of (sample_parsed ''00'')"
proof -
  have "license_of (sample_parsed sample_signature) = license_of (sample_parsed ''00'')"
    by (rule signature_binds_license [OF sample_parses]) (simp add: license_of_sample)
  moreover have "render_pem sample_license sample_signature \<noteq> sample_text" by code_simp
  ultimately show ?thesis using sample_parses by blast
qed

theorem licensed_iff_witness:
  "resolve_from_license_text (\<lambda>_. None) (\<lambda>key. Some (\<lambda>msg sig. msg = canonical_bytes sample_license)) (Inr []) 5
     (render_pem sample_license sample_signature) ''i1'' = Some (Licensed sample_license None)"
  unfolding licensed_iff
proof (rule exI [of _ "[]"], rule exI [of _ "\<lambda>msg sig. msg = canonical_bytes sample_license"],
    rule exI [of _ "sample_parsed sample_signature"], rule exI [of _ "replicate 64 161"], intro conjI)
qed (simp_all add: sample_parses license_of_sample sample_signature_bytes, simp_all add: sample_license_def sample_parsed_def sample_signature_bytes)

text \<open>The end marker may begin inside the begin marker; the slice between them then panics.\<close>

lemma parse_license_panics:
  "parse_license ''-----BEGIN DBMASTER SERVER LICENSE-----END DBMASTER SERVER LICENSE-----'' = None"
  by code_simp

end
