(* ===== verification/Entitlement.thy ===== *)
theory Entitlement
  imports License
begin

text \<open>
  From the license to what the server may do: \<open>crates/license/src/instance.rs\<close>, \<open>trial.rs\<close> and
  \<open>entitlement.rs\<close>, the two endpoints of \<open>crates/core/src/server/router.rs\<close> and the gate of
  \<open>crates/automation/src/handler.rs\<close>.

  The table \<open>instance_meta\<close> is the list of its rows; a query without order sees its first row. Every
  query may fail. Another process may insert its row between the first query and the insert. The
  license file and its temporary neighbour are two optional texts.
\<close>

section \<open>Model\<close>

record instance_meta =
  im_install_uuid :: string
  im_created_at :: string
  im_trial_started_at :: "string option"
  im_trial_expires_at :: "string option"

record license_io =
  li_now :: int
  li_uuid :: string
  li_read_ok :: bool
  li_race :: "instance_meta option"
  li_insert_ok :: bool
  li_reread_ok :: bool
  li_trial_read_ok :: bool
  li_trial_write_ok :: bool

text \<open>The libraries: chrono, the loading of a public key, and the build's key.\<close>

record license_lib =
  ll_rfc3339 :: "string \<Rightarrow> int option"
  ll_to_rfc3339 :: "int \<Rightarrow> string"
  ll_load_key :: "nat list \<Rightarrow> (string \<Rightarrow> nat list \<Rightarrow> bool) option"
  ll_trusted :: "verify_error + nat list"

definition get_or_create_instance :: "license_lib \<Rightarrow> license_io \<Rightarrow> instance_meta list \<Rightarrow> (string + instance_meta) \<times> instance_meta list" where
  "get_or_create_instance lib io rows =
     (if \<not> li_read_ok io then (Inl ''read instance_meta'', rows)
      else case rows of
          r # _ \<Rightarrow> (Inr r, rows)
        | [] \<Rightarrow>
            let rows = (case li_race io of None \<Rightarrow> [] | Some r \<Rightarrow> [r]);
                new = \<lparr>im_install_uuid = li_uuid io, im_created_at = ll_to_rfc3339 lib (li_now io),
                  im_trial_started_at = None, im_trial_expires_at = None\<rparr>
            in if \<not> li_insert_ok io then (Inl ''insert instance_meta'', rows)
               else
               let rows = (if list_ex (\<lambda>r. im_install_uuid r = im_install_uuid new) rows then rows else rows @ [new])
               in if \<not> li_reread_ok io then (Inl ''read instance_meta after insert'', rows)
                  else (ok_or ''instance_meta row missing after insert'' (case rows of [] \<Rightarrow> None | r # _ \<Rightarrow> Some r), rows))"

definition get_install_uuid :: "license_lib \<Rightarrow> license_io \<Rightarrow> instance_meta list \<Rightarrow> (string + string) \<times> instance_meta list" where
  "get_install_uuid lib io rows =
     (let (r, rows) = get_or_create_instance lib io rows
      in (case r of Inl e \<Rightarrow> Inl e | Inr m \<Rightarrow> Inr (im_install_uuid m), rows))"

datatype trial_status = TrialActive int | TrialOver | TrialNotStarted

definition trial_days :: int where
  "trial_days = 14"

definition start_trial :: "license_lib \<Rightarrow> license_io \<Rightarrow> instance_meta list \<Rightarrow> (string + trial_status) \<times> instance_meta list" where
  "start_trial lib io rows =
     (let now = li_now io;
          expires = now + trial_days * nanos_per_day
      in if \<not> li_trial_write_ok io then (Inl ''start trial window'', rows)
         else if rows = [] then (Inl ''no instance_meta row; call get_or_create_instance first'', rows)
         else (Inr (TrialActive expires),
               map (\<lambda>r. r\<lparr>im_trial_started_at := Some (ll_to_rfc3339 lib now),
                           im_trial_expires_at := Some (ll_to_rfc3339 lib expires)\<rparr>) rows))"

definition ensure_trial_status :: "license_lib \<Rightarrow> license_io \<Rightarrow> instance_meta list \<Rightarrow> (string + trial_status) \<times> instance_meta list" where
  "ensure_trial_status lib io rows =
     (if \<not> li_trial_read_ok io then (Inl ''read trial window'', rows)
      else case rows of
          [] \<Rightarrow> (Inr TrialNotStarted, rows)
        | r # _ \<Rightarrow>
            (case (im_trial_started_at r, im_trial_expires_at r) of
              (Some s, Some e) \<Rightarrow>
                (case ll_rfc3339 lib e of
                  None \<Rightarrow> (Inl ''parse trial_expires_at'', rows)
                | Some expires \<Rightarrow>
                    (case ll_rfc3339 lib s of
                      None \<Rightarrow> (Inl ''parse trial_started_at'', rows)
                    | Some started \<Rightarrow>
                        (Inr (if li_now io < expires then TrialActive expires else TrialOver), rows)))
            | _ \<Rightarrow> start_trial lib io rows))"

text \<open>Without a value the parser of the license panicked.\<close>

definition resolve_entitlement_with_text :: "license_lib \<Rightarrow> license_io \<Rightarrow> string option \<Rightarrow> instance_meta list \<Rightarrow>
    ((string + entitlement_state) \<times> instance_meta list) option" where
  "resolve_entitlement_with_text lib io license_text rows =
     (case get_or_create_instance lib io rows of
       (Inl e, rows) \<Rightarrow> Some (Inl ''ensure instance_meta'', rows)
     | (Inr inst, rows) \<Rightarrow>
         (case license_text of
           Some s \<Rightarrow>
             (case resolve_from_license_text (ll_rfc3339 lib) (ll_load_key lib) (ll_trusted lib) (li_now io) s (im_install_uuid inst) of
               None \<Rightarrow> None
             | Some st \<Rightarrow> Some (Inr st, rows))
         | None \<Rightarrow>
             Some (case ensure_trial_status lib io rows of
               (Inl e, rows) \<Rightarrow> (Inl ''ensure trial status'', rows)
             | (Inr (TrialActive exp), rows) \<Rightarrow> (Inr (Trial exp), rows)
             | (Inr _, rows) \<Rightarrow> (Inr (Gated TrialExpired), rows))))"

subsection \<open>The license file\<close>

record license_files =
  lf_file :: "string option"
  lf_tmp :: "string option"

record file_io =
  fi_read_ok :: bool
  fi_written :: "string option"
  fi_write_ok :: bool
  fi_rename_ok :: bool

text \<open>A file that cannot be read counts as no file.\<close>

definition read_license_file :: "file_io \<Rightarrow> license_files \<Rightarrow> string option" where
  "read_license_file io fs = (if fi_read_ok io then lf_file fs else None)"

text \<open>A failing write leaves any text, \<open>fi_written\<close>, in the temporary file.\<close>

definition write_license_file :: "file_io \<Rightarrow> string \<Rightarrow> license_files \<Rightarrow> (string + unit) \<times> license_files" where
  "write_license_file io txt fs =
     (if \<not> fi_write_ok io then (Inl ''write'', fs\<lparr>lf_tmp := fi_written io\<rparr>)
      else if \<not> fi_rename_ok io then (Inl ''rename'', fs\<lparr>lf_tmp := Some txt\<rparr>)
      else (Inr (), fs\<lparr>lf_file := Some txt, lf_tmp := None\<rparr>))"

definition resolve_entitlement :: "license_lib \<Rightarrow> license_io \<Rightarrow> file_io \<Rightarrow> license_files \<Rightarrow> instance_meta list \<Rightarrow>
    ((string + entitlement_state) \<times> instance_meta list) option" where
  "resolve_entitlement lib io fio fs rows = resolve_entitlement_with_text lib io (read_license_file fio fs) rows"

subsection \<open>The endpoints\<close>

record server_state =
  ss_embedded_mode :: bool
  ss_admin_token :: "string option"
  ss_entitlement :: entitlement_state
  ss_rows :: "instance_meta list"
  ss_files :: license_files

datatype license_response =
    LicenseRefused nat string
  | LicenseRejected string
  | LicenseAccepted entitlement_state

fun gated_code :: "gated_reason \<Rightarrow> string" where
  "gated_code TrialExpired = ''TRIAL_EXPIRED''"
| "gated_code LicenseInvalid = ''INVALID_LICENSE''"
| "gated_code InstanceMismatch = ''INSTANCE_MISMATCH''"
| "gated_code LicenseExpired = ''EXPIRED''"

text \<open>
  The answers of the handler: an error status with its code, a rejection with status 200, or the new
  entitlement. A panic of the parser, without a value, leaves the state as it was.
\<close>

definition post_license :: "license_lib \<Rightarrow> license_io \<Rightarrow> file_io \<Rightarrow> string option \<Rightarrow> string \<Rightarrow> server_state \<Rightarrow> license_response option \<times> server_state" where
  "post_license lib io fio token_header body st =
     (if ss_embedded_mode st then (Some (LicenseRejected ''FORBIDDEN''), st)
      else case ss_admin_token st of
          None \<Rightarrow> (Some (LicenseRefused 403 ''FORBIDDEN''), st)
        | Some expected \<Rightarrow>
            let provided = (case token_header of Some t \<Rightarrow> t | None \<Rightarrow> '''') in
            if provided \<noteq> expected then (Some (LicenseRefused 401 ''UNAUTHORIZED''), st)
            else case resolve_entitlement_with_text lib io (Some body) (ss_rows st) of
                None \<Rightarrow> (None, st\<lparr>ss_rows := snd (get_or_create_instance lib io (ss_rows st))\<rparr>)
              | Some (Inl e, rows) \<Rightarrow> (Some (LicenseRefused 422 ''INVALID_LICENSE''), st\<lparr>ss_rows := rows\<rparr>)
              | Some (Inr (Gated reason), rows) \<Rightarrow> (Some (LicenseRejected (gated_code reason)), st\<lparr>ss_rows := rows\<rparr>)
              | Some (Inr new_state, rows) \<Rightarrow>
                  (case write_license_file fio body (ss_files st) of
                    (Inl e, fs) \<Rightarrow> (Some (LicenseRefused 500 ''FILE_WRITE_FAILED''), st\<lparr>ss_rows := rows, ss_files := fs\<rparr>)
                  | (Inr _, fs) \<Rightarrow>
                      (Some (LicenseAccepted new_state),
                       st\<lparr>ss_rows := rows, ss_files := fs, ss_entitlement := new_state\<rparr>)))"

fun reason_str :: "gated_reason \<Rightarrow> string" where
  "reason_str TrialExpired = ''trial_expired''"
| "reason_str LicenseInvalid = ''license_invalid''"
| "reason_str InstanceMismatch = ''instance_mismatch''"
| "reason_str LicenseExpired = ''license_expired''"

definition banner_json :: "renewal_tier option \<Rightarrow> json" where
  "banner_json b = (case b of
      Some Soon \<Rightarrow> JObj [(''show'', JBool True), (''tier'', JStr ''soon'')]
    | Some Urgent \<Rightarrow> JObj [(''show'', JBool True), (''tier'', JStr ''urgent'')]
    | None \<Rightarrow> JObj [(''show'', JBool False), (''tier'', JNull)])"

definition get_entitlement :: "(int \<Rightarrow> string) \<Rightarrow> int \<Rightarrow> entitlement_state \<Rightarrow> json" where
  "get_entitlement to_rfc3339 now ent =
     (case ent of
       Gated reason \<Rightarrow>
         JObj [(''ok'', JBool True), (''data'', JObj [(''state'', JStr ''gated''), (''reason'', JStr (reason_str reason))]), (''error'', JNull)]
     | _ \<Rightarrow>
         let state_str = (case ent of Licensed l e \<Rightarrow> ''licensed'' | _ \<Rightarrow> ''trial'');
             expires = (case ent of Licensed l e \<Rightarrow> e | Trial e \<Rightarrow> Some e | Gated _ \<Rightarrow> None);
             license_info = (case ent of
                 Licensed l e \<Rightarrow> JObj [(''type'', JStr (lv_license_type l)), (''issued_at'', JStr (lv_issued_at l))]
               | _ \<Rightarrow> JNull)
         in JObj [(''ok'', JBool True),
              (''data'', JObj [(''state'', JStr state_str),
                (''days_until_expiry'', json_opt (\<lambda>e. JNum (num_days (e - now))) expires),
                (''expires_at'', json_opt (\<lambda>e. JStr (to_rfc3339 e)) expires),
                (''renewal_banner'', banner_json (renewal_banner now ent)),
                (''license'', license_info)]),
              (''error'', JNull)])"

text \<open>The gate of every mutating automation handler.\<close>

definition gate_blocked :: "entitlement_state \<Rightarrow> (nat \<times> json) option" where
  "gate_blocked ent =
     (if is_gated ent
      then Some (403, JObj [(''ok'', JBool False), (''data'', JNull),
             (''error'', JObj [(''code'', JStr ''ENTITLEMENT_GATED''),
               (''message'', JStr ''License gated. Activate or renew your license to perform this action.'')])])
      else None)"

section \<open>The trial window\<close>

text \<open>One resolution, at start-up or by the license endpoint; what it leaves in the table.\<close>

definition resolve_step :: "license_lib \<Rightarrow> license_io \<times> string option \<Rightarrow> instance_meta list \<Rightarrow> instance_meta list" where
  "resolve_step lib s rows =
     (case resolve_entitlement_with_text lib (fst s) (snd s) rows of
       None \<Rightarrow> snd (get_or_create_instance lib (fst s) rows)
     | Some (_, rows') \<Rightarrow> rows')"

text \<open>The first row has a readable window that ends at \<open>e\<close>.\<close>

definition window_until :: "license_lib \<Rightarrow> int \<Rightarrow> instance_meta list \<Rightarrow> bool" where
  "window_until lib e rows =
     (case rows of [] \<Rightarrow> False
      | r # _ \<Rightarrow> Option.bind (im_trial_started_at r) (ll_rfc3339 lib) \<noteq> None \<and>
          Option.bind (im_trial_expires_at r) (ll_rfc3339 lib) = Some e)"

definition no_window :: "license_io \<Rightarrow> instance_meta list \<Rightarrow> bool" where
  "no_window io rows =
     (case rows of [] \<Rightarrow> li_race io = None
      | r # _ \<Rightarrow> im_trial_started_at r = None \<or> im_trial_expires_at r = None)"

lemma get_or_create_instance_Cons [simp]:
  "get_or_create_instance lib io (r # rs) = (if li_read_ok io then Inr r else Inl ''read instance_meta'', r # rs)"
  by (simp add: get_or_create_instance_def)

lemma get_or_create_instance_fresh:
  assumes "get_or_create_instance lib io rows = (Inr r, rows')" "no_window io rows"
  obtains rs where "rows' = r # rs" "im_trial_started_at r = None \<or> im_trial_expires_at r = None"
proof (cases rows)
  case Nil
  with assms that show ?thesis
    by (auto simp: get_or_create_instance_def no_window_def Let_def split: if_splits)
next
  case (Cons q qs)
  with assms that show ?thesis by (auto simp: no_window_def split: if_splits)
qed

lemma ensure_trial_status_window:
  assumes "window_until lib e rows"
  shows "ensure_trial_status lib io rows =
    (if li_trial_read_ok io then Inr (if li_now io < e then TrialActive e else TrialOver) else Inl ''read trial window'', rows)"
proof -
  obtain r rs s x st where "rows = r # rs" "im_trial_started_at r = Some s" "ll_rfc3339 lib s = Some st"
      "im_trial_expires_at r = Some x" "ll_rfc3339 lib x = Some e"
    using assms by (auto simp: window_until_def Option.bind_eq_Some_conv split: list.splits)
  then show ?thesis by (simp add: ensure_trial_status_def)
qed

lemma window_Cons: "window_until lib e rows \<Longrightarrow> \<exists>r rs. rows = r # rs"
  by (cases rows) (auto simp: window_until_def)

lemma resolve_step_window [simp]:
  assumes "window_until lib e rows"
  shows "resolve_step lib s rows = rows"
  using window_Cons [OF assms] ensure_trial_status_window [OF assms, of "fst s"]
  by (auto simp: resolve_step_def resolve_entitlement_with_text_def split: option.splits sum.splits trial_status.splits)

lemma fold_resolve_step_window:
  "window_until lib e rows \<Longrightarrow> fold (resolve_step lib) steps rows = rows"
  by (induction steps) simp_all

lemma resolve_in_window:
  assumes "window_until lib e rows" "li_read_ok io" "li_trial_read_ok io"
  shows "resolve_entitlement_with_text lib io None rows =
    Some (Inr (if li_now io < e then Trial e else Gated TrialExpired), rows)"
  using window_Cons [OF assms(1)] ensure_trial_status_window [OF assms(1), of io] assms(2,3)
  by (auto simp: resolve_entitlement_with_text_def)

lemma resolve_opens_window:
  assumes chrono: "\<And>t. ll_rfc3339 lib (ll_to_rfc3339 lib t) = Some t"
    and "no_window io rows"
    and first: "resolve_entitlement_with_text lib io None rows = Some (Inr st, rows')"
  shows "st = Trial (li_now io + 14 * nanos_per_day) \<and> window_until lib (li_now io + 14 * nanos_per_day) rows'"
proof -
  obtain r rows1 where r: "get_or_create_instance lib io rows = (Inr r, rows1)"
    using first by (auto simp: resolve_entitlement_with_text_def split: sum.splits prod.splits)
  then obtain rs where rs: "rows1 = r # rs" "im_trial_started_at r = None \<or> im_trial_expires_at r = None"
    using assms(2) by (rule get_or_create_instance_fresh)
  from first r have e: "(case ensure_trial_status lib io rows1 of
      (Inl e, rows) \<Rightarrow> (Inl ''ensure trial status'', rows)
    | (Inr (TrialActive exp), rows) \<Rightarrow> (Inr (Trial exp), rows)
    | (Inr _, rows) \<Rightarrow> (Inr (Gated TrialExpired), rows)) = (Inr st, rows')"
    by (simp add: resolve_entitlement_with_text_def)
  have "ensure_trial_status lib io rows1 =
      (if li_trial_read_ok io then start_trial lib io rows1 else (Inl ''read trial window'', rows1))"
    using rs by (auto simp: ensure_trial_status_def split: option.splits)
  with e rs show ?thesis
    by (auto simp: start_trial_def window_until_def Let_def trial_days_def chrono split: if_splits)
qed

text \<open>
  C33. The trial is one window of 14 days: once the first resolution without a license has opened it,
  no later resolution moves its end, whatever license texts are tried, whatever fails and whatever the
  clock shows; without a license the server is on trial exactly before that end and gated from it on.
\<close>

theorem trial_never_reopens:
  assumes "\<And>t. ll_rfc3339 lib (ll_to_rfc3339 lib t) = Some t"
    and "no_window io rows"
    and "resolve_entitlement_with_text lib io None rows = Some (Inr st, rows')"
    and "li_read_ok io'" "li_trial_read_ok io'"
  shows "st = Trial (li_now io + 14 * nanos_per_day) \<and>
    resolve_entitlement_with_text lib io' None (fold (resolve_step lib) steps rows') =
      Some (Inr (if li_now io' < li_now io + 14 * nanos_per_day then Trial (li_now io + 14 * nanos_per_day)
                 else Gated TrialExpired), rows')"
proof -
  note w = resolve_opens_window [OF assms(1-3)]
  then have "fold (resolve_step lib) steps rows' = rows'"
    by (blast intro: fold_resolve_step_window)
  with w resolve_in_window assms(4,5) show ?thesis by simp
qed

section \<open>Activation\<close>

lemma resolve_from_license_text_no_trial:
  "resolve_from_license_text rfc3339 load_key trusted now s uuid \<noteq> Some (Trial e)"
  by (auto simp: resolve_from_license_text_def license_state_def Let_def split: sum.splits option.splits)

lemma resolve_with_text_cases:
  assumes "resolve_entitlement_with_text lib io (Some s) rows = Some (Inr st, rows')"
  obtains r where "get_or_create_instance lib io rows = (Inr r, rows')"
    "resolve_from_license_text (ll_rfc3339 lib) (ll_load_key lib) (ll_trusted lib) (li_now io) s (im_install_uuid r) = Some st"
  using assms by (auto simp: resolve_entitlement_with_text_def split: sum.splits prod.splits option.splits)

text \<open>The only way through the handler to a new entitlement or a new license file.\<close>

lemma post_license_accepted:
  assumes "post_license lib io fio hdr body st = (Some (LicenseAccepted e), st')"
  shows "resolve_entitlement_with_text lib io (Some body) (ss_rows st) = Some (Inr e, ss_rows st')"
    and "ss_entitlement st' = e" "ss_files st' = \<lparr>lf_file = Some body, lf_tmp = None\<rparr>" "\<not> is_gated e"
    and "\<not> ss_embedded_mode st" "ss_admin_token st = Some (case hdr of Some t \<Rightarrow> t | None \<Rightarrow> '''')"
  using assms
  by (auto simp: post_license_def write_license_file_def is_gated_def Let_def
      split: option.splits if_splits sum.splits entitlement_state.splits prod.splits)

lemma post_license_not_accepted:
  assumes "post_license lib io fio hdr body st = (resp, st')" "\<nexists>e. resp = Some (LicenseAccepted e)"
  shows "ss_entitlement st' = ss_entitlement st \<and> lf_file (ss_files st') = lf_file (ss_files st)"
  using assms
  by (auto simp: post_license_def write_license_file_def Let_def
      split: option.splits if_splits sum.splits entitlement_state.splits prod.splits)

lemma get_or_create_instance_hd:
  "get_or_create_instance lib io rows = (Inr r, rows') \<Longrightarrow> \<exists>rs. rows' = r # rs"
  by (cases rows) (auto simp: get_or_create_instance_def Let_def ok_or_Inr split: if_splits list.splits option.splits)

text \<open>
  The license endpoint changes the entitlement or the license file only for the configured admin
  token, outside embedded mode, and for a text whose signature the trusted key accepts for this
  installation; every other answer, a panic of the parser included, leaves both as they were.
\<close>

theorem activation_guarded:
  assumes "post_license lib io fio hdr body st = (resp, st')"
    and "ss_entitlement st' \<noteq> ss_entitlement st \<or> lf_file (ss_files st') \<noteq> lf_file (ss_files st)"
  shows "\<exists>l e key verify_sig sig.
    resp = Some (LicenseAccepted (Licensed l e)) \<and> ss_entitlement st' = Licensed l e \<and> lf_file (ss_files st') = Some body \<and>
    \<not> ss_embedded_mode st \<and> ss_admin_token st = Some (case hdr of Some t \<Rightarrow> t | None \<Rightarrow> '''') \<and>
    im_install_uuid (hd (ss_rows st')) = lv_instance_id l \<and> (\<forall>x. e = Some x \<longrightarrow> li_now io \<le> x) \<and>
    ll_trusted lib = Inr key \<and> ll_load_key lib key = Some verify_sig \<and> length sig = 64 \<and> verify_sig (canonical_bytes l) sig"
proof -
  obtain ent where ent: "resp = Some (LicenseAccepted ent)"
    using post_license_not_accepted [OF assms(1)] assms(2) by blast
  note acc = post_license_accepted [OF assms(1) [unfolded ent]]
  obtain r where r: "get_or_create_instance lib io (ss_rows st) = (Inr r, ss_rows st')"
    and res: "resolve_from_license_text (ll_rfc3339 lib) (ll_load_key lib) (ll_trusted lib) (li_now io) body (im_install_uuid r) = Some ent"
    using acc(1) by (rule resolve_with_text_cases)
  obtain l e where le: "ent = Licensed l e"
    using res acc(4) resolve_from_license_text_no_trial
    by (cases ent) (auto simp: is_gated_def)
  have "\<exists>key verify_sig p sig. ll_trusted lib = Inr key \<and> ll_load_key lib key = Some verify_sig \<and>
      lv_instance_id l = im_install_uuid r \<and> length sig = 64 \<and> verify_sig (canonical_bytes l) sig \<and> (\<forall>x. e = Some x \<longrightarrow> li_now io \<le> x)"
    using resolve_Licensed_iff [THEN iffD1, OF res [unfolded le]] by blast
  then show ?thesis
    using ent le acc get_or_create_instance_hd [OF r] by auto
qed

lemma resolve_later:
  assumes "resolve_from_license_text rfc3339 load_key trusted now s uuid = Some (Licensed l e)"
  shows "resolve_from_license_text rfc3339 load_key trusted now' s uuid =
    Some (if \<exists>x. e = Some x \<and> x < now' then Gated LicenseExpired else Licensed l e)"
  using assms
  by (auto simp: resolve_from_license_text_def license_state_def Let_def split: sum.splits option.splits if_splits)

text \<open>
  An activation survives a restart: the entitlement the endpoint installed is the one the server
  resolves from its file and its table at any later start, until the license expires.
\<close>

theorem activation_survives_restart:
  assumes "post_license lib io fio hdr body st = (Some (LicenseAccepted e), st')"
    and "li_read_ok io'" "fi_read_ok fio'"
  shows "resolve_entitlement lib io' fio' (ss_files st') (ss_rows st') =
    Some (Inr (case e of Licensed l (Some x) \<Rightarrow> if x < li_now io' then Gated LicenseExpired else ss_entitlement st'
               | _ \<Rightarrow> ss_entitlement st'), ss_rows st')"
proof -
  note acc = post_license_accepted [OF assms(1)]
  obtain r where r: "get_or_create_instance lib io (ss_rows st) = (Inr r, ss_rows st')"
    and res: "resolve_from_license_text (ll_rfc3339 lib) (ll_load_key lib) (ll_trusted lib) (li_now io) body (im_install_uuid r) = Some e"
    using acc(1) by (rule resolve_with_text_cases)
  obtain l x where le: "e = Licensed l x"
    using res acc(4) resolve_from_license_text_no_trial by (cases e) (auto simp: is_gated_def)
  obtain rs where "ss_rows st' = r # rs"
    using get_or_create_instance_hd [OF r] by blast
  then show ?thesis
    using resolve_later [OF res [unfolded le], of "li_now io'"] assms(2,3) acc(2,3) le
    by (cases x) (auto simp: resolve_entitlement_def resolve_entitlement_with_text_def read_license_file_def)
qed

section \<open>A concrete installation\<close>

definition sample_rfc :: "int \<Rightarrow> string" where
  "sample_rfc t = (if 0 \<le> t then CHR ''p'' # show_nat (nat t) else CHR ''n'' # show_nat (nat (- t)))"

definition sample_rfc_parse :: "string \<Rightarrow> int option" where
  "sample_rfc_parse s =
     (case s of c # ds \<Rightarrow> Some (if c = CHR ''p'' then int (digits_val ds) else - int (digits_val ds)) | [] \<Rightarrow> None)"

lemma sample_rfc_round_trip [simp]: "sample_rfc_parse (sample_rfc t) = Some t"
  by (auto simp: sample_rfc_def sample_rfc_parse_def digits_val_show_nat)

definition ent_lib :: license_lib where
  "ent_lib = \<lparr>ll_rfc3339 = sample_rfc_parse, ll_to_rfc3339 = sample_rfc,
     ll_load_key = (\<lambda>key. Some (\<lambda>msg sig. msg = canonical_bytes sample_license)), ll_trusted = Inr []\<rparr>"

definition ent_io :: "int \<Rightarrow> license_io" where
  "ent_io now = \<lparr>li_now = now, li_uuid = ''i1'', li_read_ok = True, li_race = None, li_insert_ok = True, li_reread_ok = True,
     li_trial_read_ok = True, li_trial_write_ok = True\<rparr>"

definition sample_row :: "int \<Rightarrow> instance_meta" where
  "sample_row now = \<lparr>im_install_uuid = ''i1'', im_created_at = sample_rfc now,
     im_trial_started_at = Some (sample_rfc now), im_trial_expires_at = Some (sample_rfc (now + 14 * nanos_per_day))\<rparr>"

lemma sample_first_resolve:
  "resolve_entitlement_with_text ent_lib (ent_io 0) None [] = Some (Inr (Trial (14 * nanos_per_day)), [sample_row 0])"
  by (simp add: resolve_entitlement_with_text_def get_or_create_instance_def ent_io_def ent_lib_def sample_row_def
      Let_def ensure_trial_status_def start_trial_def trial_days_def)

theorem trial_never_reopens_witness:
  "resolve_entitlement_with_text ent_lib (ent_io 0) None [] = Some (Inr (Trial (14 * nanos_per_day)), [sample_row 0]) \<and>
   resolve_entitlement_with_text ent_lib (ent_io (15 * nanos_per_day)) None
     (fold (resolve_step ent_lib) [(ent_io 3, Some ''x''), (ent_io (15 * nanos_per_day), None)] [sample_row 0]) =
   Some (Inr (Gated TrialExpired), [sample_row 0])"
proof -
  have nw: "no_window (ent_io 0) []" by (simp add: no_window_def ent_io_def)
  have chrono: "ll_rfc3339 ent_lib (ll_to_rfc3339 ent_lib t) = Some t" for t
    by (simp add: ent_lib_def)
  have late: "\<not> li_now (ent_io (15 * nanos_per_day)) < li_now (ent_io 0) + 14 * nanos_per_day"
    by (simp add: ent_io_def nanos_per_day_def)
  have ok: "li_read_ok (ent_io (15 * nanos_per_day))" "li_trial_read_ok (ent_io (15 * nanos_per_day))"
    by (simp_all add: ent_io_def)
  note t = trial_never_reopens [OF chrono nw sample_first_resolve ok,
      of "[(ent_io 3, Some ''x''), (ent_io (15 * nanos_per_day), None)]"]
  show ?thesis
    by (rule conjI [OF sample_first_resolve t [THEN conjunct2, unfolded if_not_P [OF late]]])
qed

definition sample_fio :: file_io where
  "sample_fio = \<lparr>fi_read_ok = True, fi_written = None, fi_write_ok = True, fi_rename_ok = True\<rparr>"

definition sample_server :: server_state where
  "sample_server = \<lparr>ss_embedded_mode = False, ss_admin_token = Some ''t'', ss_entitlement = Gated TrialExpired,
     ss_rows = [sample_row 0], ss_files = \<lparr>lf_file = None, lf_tmp = None\<rparr>\<rparr>"

definition activated_server :: server_state where
  "activated_server = sample_server\<lparr>ss_entitlement := Licensed sample_license None,
     ss_files := \<lparr>lf_file = Some (render_pem sample_license sample_signature), lf_tmp = None\<rparr>\<rparr>"

lemma sample_licensed:
  "resolve_from_license_text sample_rfc_parse (\<lambda>key. Some (\<lambda>msg sig. msg = canonical_bytes sample_license)) (Inr []) now
     (render_pem sample_license sample_signature) ''i1'' = Some (Licensed sample_license None)"
proof -
  have "verify_license_with_pk (\<lambda>msg sig. msg = canonical_bytes sample_license) (sample_parsed sample_signature) = Inr sample_license"
    unfolding verify_license_with_pk_iff license_of_sample
    by (simp add: sample_parsed_def sample_signature_bytes)
  moreover have "license_state sample_rfc_parse now sample_license ''i1'' = Licensed sample_license None"
    by (simp add: license_state_Licensed_iff sample_license_def)
  ultimately show ?thesis by (simp add: resolve_from_license_text_def sample_parses)
qed

lemma sample_activation:
  "post_license ent_lib (ent_io 5) sample_fio (Some ''t'') (render_pem sample_license sample_signature) sample_server =
     (Some (LicenseAccepted (Licensed sample_license None)), activated_server)"
  by (simp add: post_license_def sample_server_def activated_server_def resolve_entitlement_with_text_def ent_lib_def
      sample_licensed ent_io_def sample_row_def write_license_file_def sample_fio_def)

theorem activation_guarded_witness:
  "\<exists>l e key verify_sig sig. Licensed sample_license None = Licensed l e \<and> ll_trusted ent_lib = Inr key \<and>
     ll_load_key ent_lib key = Some verify_sig \<and> length sig = 64 \<and> verify_sig (canonical_bytes l) sig \<and>
     im_install_uuid (hd (ss_rows activated_server)) = lv_instance_id l"
proof -
  have "ss_entitlement activated_server \<noteq> ss_entitlement sample_server"
    by (simp add: activated_server_def sample_server_def)
  then show ?thesis
    using activation_guarded [OF sample_activation] by auto
qed

theorem activation_survives_restart_witness:
  "resolve_entitlement ent_lib (ent_io 9) sample_fio (ss_files activated_server) (ss_rows activated_server) =
     Some (Inr (Licensed sample_license None), ss_rows activated_server)"
  using activation_survives_restart [OF sample_activation, of "ent_io 9" sample_fio]
  by (simp add: ent_io_def sample_fio_def activated_server_def)

end
