(* ===== verification/Credentials.thy ===== *)
theory Credentials
  imports Redaction
begin

text \<open>
  Stored connection secrets: \<open>crates/automation/src/credential.rs\<close>.

  The cipher, its nonces and the base64 alphabet come from libraries and are parameters
  (\<open>crypto\<close>); what the code relies on of them is \<open>crypto_ok\<close>. Bytes are natural numbers.
\<close>

section \<open>Model\<close>

record crypto =
  cr_seal :: "nat list \<Rightarrow> nat list \<Rightarrow> string \<Rightarrow> nat list option"
  cr_open :: "nat list \<Rightarrow> nat list \<Rightarrow> nat list \<Rightarrow> string option"
  cr_b64_encode :: "nat list \<Rightarrow> string"
  cr_b64_decode :: "string \<Rightarrow> nat list option"

definition v1_prefix :: string where
  "v1_prefix = ''v1:''"

definition legacy_enc_prefix :: string where
  "legacy_enc_prefix = ''enc:''"

definition nonce_len :: nat where
  "nonce_len = 12"

datatype credential_error = UnknownFormat | Malformed | DecryptFailed

definition strip_prefix :: "string \<Rightarrow> string \<Rightarrow> string option" where
  "strip_prefix p s = (if starts_with p s then Some (drop (length p) s) else None)"

definition encrypt_v1 :: "crypto \<Rightarrow> nat list \<Rightarrow> nat list \<Rightarrow> string \<Rightarrow> string option" where
  "encrypt_v1 cr nonce key plaintext =
     map_option (\<lambda>ct. v1_prefix @ cr_b64_encode cr nonce @ '':'' @ cr_b64_encode cr ct) (cr_seal cr key nonce plaintext)"

definition decrypt_v1 :: "crypto \<Rightarrow> nat list \<Rightarrow> string \<Rightarrow> credential_error + string" where
  "decrypt_v1 cr key stored =
     and_then (ok_or UnknownFormat (strip_prefix v1_prefix stored)) (\<lambda>rest.
     and_then (ok_or Malformed (split_once (CHR '':'') rest)) (\<lambda>(nonce_b64, ct_b64).
     and_then (ok_or Malformed (cr_b64_decode cr nonce_b64)) (\<lambda>nonce_bytes.
     and_then (ok_or Malformed (cr_b64_decode cr ct_b64)) (\<lambda>ct.
     if length nonce_bytes \<noteq> nonce_len then Inl Malformed
     else ok_or DecryptFailed (cr_open cr key nonce_bytes ct)))))"

definition decrypt_password :: "crypto \<Rightarrow> nat list \<Rightarrow> string \<Rightarrow> credential_error + string" where
  "decrypt_password cr key stored =
     (case strip_prefix legacy_enc_prefix stored of
       Some plain \<Rightarrow> Inr plain
     | None \<Rightarrow> decrypt_v1 cr key stored)"

text \<open>
  The migration over the rows read at its start, \<open>(id, stored)\<close>; a nonce and the fate of the update
  are given for every row. The first failure stops it: the rows after it stay as they were.
\<close>

fun set_stored :: "string \<Rightarrow> string \<Rightarrow> (string \<times> string) list \<Rightarrow> (string \<times> string) list" where
  "set_stored i s [] = []"
| "set_stored i s ((j, t) # rows) = (j, if j = i then s else t) # set_stored i s rows"

fun migrate_rows :: "crypto \<Rightarrow> nat list \<Rightarrow> (string \<Rightarrow> nat list \<times> bool) \<Rightarrow> (string \<times> string) list \<Rightarrow>
    (string \<times> string) list \<Rightarrow> nat \<Rightarrow> (string + nat) \<times> (string \<times> string) list" where
  "migrate_rows cr key io [] tbl migrated = (Inr migrated, tbl)"
| "migrate_rows cr key io ((i, stored) # rest) tbl migrated =
     (case strip_prefix legacy_enc_prefix stored of
       None \<Rightarrow> migrate_rows cr key io rest tbl migrated
     | Some plaintext \<Rightarrow>
         (case encrypt_v1 cr (fst (io i)) key plaintext of
           None \<Rightarrow> (Inl ''aes-gcm encrypt'', tbl)
         | Some new_ct \<Rightarrow>
             if \<not> snd (io i) then (Inl (''update row '' @ redact_id i), tbl)
             else migrate_rows cr key io rest (set_stored i new_ct tbl) (migrated + 1)))"

definition migrate_legacy_credentials :: "crypto \<Rightarrow> nat list \<Rightarrow> bool \<Rightarrow> (string \<Rightarrow> nat list \<times> bool) \<Rightarrow>
    (string \<times> string) list \<Rightarrow> (string + nat) \<times> (string \<times> string) list" where
  "migrate_legacy_credentials cr key scan_ok io tbl =
     (if \<not> scan_ok then (Inl ''scan database_connections for migration'', tbl) else migrate_rows cr key io tbl tbl 0)"

section \<open>Round trip\<close>

text \<open>What the libraries promise: decoding undoes encoding, the alphabet has no colon, opening undoes sealing.\<close>

definition crypto_ok :: "crypto \<Rightarrow> bool" where
  "crypto_ok cr \<longleftrightarrow>
     (\<forall>bs. cr_b64_decode cr (cr_b64_encode cr bs) = Some bs \<and> CHR '':'' \<notin> set (cr_b64_encode cr bs)) \<and>
     (\<forall>key nonce m ct. cr_seal cr key nonce m = Some ct \<longrightarrow> cr_open cr key nonce ct = Some m)"

lemma strip_prefix_append [simp]: "strip_prefix p (p @ s) = Some s"
  by (simp add: strip_prefix_def)

lemma strip_prefix_Some: "strip_prefix p s = Some r \<longleftrightarrow> s = p @ r"
  by (auto simp: strip_prefix_def starts_with_iff_prefix prefix_def)

lemma decrypt_encrypt_v1:
  assumes "crypto_ok cr" "length nonce = 12" "encrypt_v1 cr nonce key p = Some c"
  shows "decrypt_password cr key c = Inr p"
proof -
  obtain ct where ct: "cr_seal cr key nonce p = Some ct"
    and c: "c = v1_prefix @ cr_b64_encode cr nonce @ '':'' @ cr_b64_encode cr ct"
    using assms(3) by (auto simp: encrypt_v1_def)
  have "strip_prefix legacy_enc_prefix c = None"
    by (simp add: c v1_prefix_def legacy_enc_prefix_def strip_prefix_def starts_with_def)
  moreover have "split_once (CHR '':'') (cr_b64_encode cr nonce @ '':'' @ cr_b64_encode cr ct) =
      Some (cr_b64_encode cr nonce, cr_b64_encode cr ct)"
    using assms(1) by (simp add: split_once_Some crypto_ok_def)
  moreover have "strip_prefix v1_prefix c = Some (cr_b64_encode cr nonce @ '':'' @ cr_b64_encode cr ct)"
    by (simp only: c strip_prefix_append)
  moreover have "cr_open cr key nonce ct = Some p"
    using assms(1) ct by (simp add: crypto_ok_def)
  ultimately show ?thesis
    using assms(1,2) by (simp add: decrypt_password_def decrypt_v1_def crypto_ok_def nonce_len_def)
qed

section \<open>Migration\<close>

text \<open>What a reader of the table gets for a connection.\<close>

definition password_of :: "crypto \<Rightarrow> nat list \<Rightarrow> (string \<times> string) list \<Rightarrow> string \<Rightarrow> (credential_error + string) option" where
  "password_of cr key tbl i = map_option (decrypt_password cr key) (map_of tbl i)"

lemma map_of_set_stored: "map_of (set_stored i s tbl) j = (if j = i then map_option (\<lambda>_. s) (map_of tbl i) else map_of tbl j)"
  by (induction i s tbl rule: set_stored.induct) auto

lemma fst_set_stored [simp]: "map fst (set_stored i s tbl) = map fst tbl"
  by (induction i s tbl rule: set_stored.induct) auto

lemma decrypt_legacy: "decrypt_password cr key (legacy_enc_prefix @ p) = Inr p"
  by (simp add: decrypt_password_def)

lemma encrypt_v1_not_legacy: "encrypt_v1 cr nonce key p = Some c \<Longrightarrow> strip_prefix legacy_enc_prefix c = None"
  by (auto simp: encrypt_v1_def v1_prefix_def legacy_enc_prefix_def strip_prefix_def starts_with_def)

lemma password_of_reencrypted:
  assumes "crypto_ok cr" "length nonce = 12" "encrypt_v1 cr nonce key p = Some c" "map_of tbl i = Some (legacy_enc_prefix @ p)"
  shows "password_of cr key (set_stored i c tbl) = password_of cr key tbl"
  using assms
  by (auto simp: password_of_def map_of_set_stored decrypt_encrypt_v1 decrypt_legacy fun_eq_iff)

text \<open>Rows still to come agree with the table, so the loop's copy is never stale.\<close>

lemma migrate_rows_passwords:
  assumes "crypto_ok cr" "\<And>i. length (fst (io i)) = 12"
  shows "distinct (map fst rest) \<Longrightarrow> \<forall>(i, s) \<in> set rest. map_of tbl i = Some s \<Longrightarrow>
    migrate_rows cr key io rest tbl n = (r, tbl') \<Longrightarrow> password_of cr key tbl' = password_of cr key tbl \<and> map fst tbl' = map fst tbl"
proof (induction rest arbitrary: tbl n)
  case (Cons row rest)
  obtain i stored where row: "row = (i, stored)" by (cases row)
  show ?case
  proof (cases "strip_prefix legacy_enc_prefix stored")
    case None
    with Cons row show ?thesis by auto
  next
    case (Some p)
    then have st: "map_of tbl i = Some (legacy_enc_prefix @ p)"
      using Cons.prems row by (simp add: strip_prefix_Some)
    show ?thesis
    proof (cases "encrypt_v1 cr (fst (io i)) key p")
      case None
      with Some Cons.prems row show ?thesis by simp
    next
      case (Some c)
      have step: "password_of cr key (set_stored i c tbl) = password_of cr key tbl"
        by (rule password_of_reencrypted [OF assms Some st])
      have later: "\<forall>(j, s) \<in> set rest. map_of (set_stored i c tbl) j = Some s"
        using Cons.prems(1,2) row by (force simp: map_of_set_stored)
      show ?thesis
        using Cons.IH [OF _ later, of "n + 1"] Cons.prems row Some step \<open>strip_prefix legacy_enc_prefix stored = Some p\<close>
        by (auto split: if_splits)
    qed
  qed
qed simp

lemma migrate_rows_clears:
  assumes "migrate_rows cr key io rest tbl n = (Inr m, tbl')"
    and "\<And>i s. map_of tbl i = Some s \<Longrightarrow> strip_prefix legacy_enc_prefix s \<noteq> None \<Longrightarrow> (i, s) \<in> set rest"
    and "map_of tbl' i = Some s"
  shows "strip_prefix legacy_enc_prefix s = None"
  using assms
proof (induction rest arbitrary: tbl n)
  case Nil
  then show ?case by fastforce
next
  case (Cons row rest)
  obtain j stored where row: "row = (j, stored)" by (cases row)
  show ?case
  proof (cases "strip_prefix legacy_enc_prefix stored")
    case None
    have "migrate_rows cr key io rest tbl n = (Inr m, tbl')"
      using Cons.prems(1) row None by simp
    then show ?thesis
    proof (rule Cons.IH)
      fix k t
      assume "map_of tbl k = Some t" "strip_prefix legacy_enc_prefix t \<noteq> None"
      with Cons.prems(2) [of k t] row None show "(k, t) \<in> set rest" by auto
    qed (rule Cons.prems(3))
  next
    case (Some p)
    then obtain c where c: "encrypt_v1 cr (fst (io j)) key p = Some c"
      and run: "migrate_rows cr key io rest (set_stored j c tbl) (n + 1) = (Inr m, tbl')"
      using Cons.prems(1) row by (auto split: option.splits if_splits)
    from run show ?thesis
    proof (rule Cons.IH)
      fix k t
      assume kt: "map_of (set_stored j c tbl) k = Some t" "strip_prefix legacy_enc_prefix t \<noteq> None"
      with encrypt_v1_not_legacy [OF c] have "k \<noteq> j" by (auto simp: map_of_set_stored)
      with kt show "(k, t) \<in> set rest"
        using Cons.prems(2) [of k t] row by (auto simp: map_of_set_stored)
    qed (rule Cons.prems(3))
  qed
qed

text \<open>
  The migration of plaintext secrets never changes what a connection's password reads as, whether
  it ends, stops at a failing row or cannot read the table; and when it reports success no plaintext
  entry is left.
\<close>

theorem migration_keeps_passwords:
  assumes "crypto_ok cr" "\<And>i. length (fst (io i)) = 12" "distinct (map fst tbl)"
    and "migrate_legacy_credentials cr key scan_ok io tbl = (r, tbl')"
  shows "password_of cr key tbl' = password_of cr key tbl \<and>
    (\<forall>n i s. r = Inr n \<longrightarrow> map_of tbl' i = Some s \<longrightarrow> strip_prefix legacy_enc_prefix s = None)"
proof (cases scan_ok)
  case True
  then have run: "migrate_rows cr key io tbl tbl 0 = (r, tbl')"
    using assms(4) by (simp add: migrate_legacy_credentials_def)
  have "\<forall>(i, s) \<in> set tbl. map_of tbl i = Some s"
    using assms(3) by auto
  with migrate_rows_passwords [OF assms(1-3) _ run] have "password_of cr key tbl' = password_of cr key tbl" by blast
  moreover have "strip_prefix legacy_enc_prefix s = None" if "r = Inr n" "map_of tbl' i = Some s" for n i s
    using run [unfolded that(1)] map_of_SomeD that(2) by (rule migrate_rows_clears)
  ultimately show ?thesis by blast
qed (use assms(4) in \<open>auto simp: migrate_legacy_credentials_def\<close>)

text \<open>An identity cipher over an alphabet without colons satisfies the assumptions.\<close>

definition sample_crypto :: crypto where
  "sample_crypto = \<lparr>cr_seal = (\<lambda>key nonce m. Some (map ccode m)), cr_open = (\<lambda>key nonce ct. Some (map char_of ct)),
     cr_b64_encode = (\<lambda>bs. concat (map (\<lambda>b. replicate b CHR ''a'' @ ''b'') bs)),
     cr_b64_decode = (\<lambda>s. Some (map length (butlast (split_on CHR ''b'' s))))\<rparr>"

lemma sample_b64: "split_on CHR ''b'' (concat (map (\<lambda>b. replicate b CHR ''a'' @ ''b'') bs)) = map (\<lambda>b. replicate b CHR ''a'') bs @ [[]]"
  by (induction bs) (simp_all add: split_on_append)

lemma sample_crypto_ok: "crypto_ok sample_crypto"
proof -
  have "map char_of (map ccode m) = m" for m
    by (simp add: ccode_def comp_def)
  then show ?thesis
    by (auto simp: crypto_ok_def sample_crypto_def sample_b64 comp_def)
qed

lemma sample_migration:
  "migrate_legacy_credentials sample_crypto [] True (\<lambda>i. (replicate 12 0, i \<noteq> ''c'')) [(''a'', ''v1:x''), (''b'', ''enc:pw''), (''c'', ''enc:q'')] =
     (Inl (''update row '' @ redact_id ''c''), [(''a'', ''v1:x''), (''b'', the (encrypt_v1 sample_crypto (replicate 12 0) [] ''pw'')), (''c'', ''enc:q'')])"
  by code_simp

theorem migration_keeps_passwords_witness:
  "password_of sample_crypto [] (snd (migrate_legacy_credentials sample_crypto [] True (\<lambda>i. (replicate 12 0, i \<noteq> ''c''))
     [(''a'', ''v1:x''), (''b'', ''enc:pw''), (''c'', ''enc:q'')])) ''b'' = Some (Inr ''pw'')"
proof -
  have "password_of sample_crypto [] [(''a'', ''v1:x''), (''b'', the (encrypt_v1 sample_crypto (replicate 12 0) [] ''pw'')), (''c'', ''enc:q'')]
      = password_of sample_crypto [] [(''a'', ''v1:x''), (''b'', ''enc:pw''), (''c'', ''enc:q'')]"
    using migration_keeps_passwords [OF sample_crypto_ok _ _ sample_migration] by simp
  moreover have "password_of sample_crypto [] [(''a'', ''v1:x''), (''b'', ''enc:pw''), (''c'', ''enc:q'')] ''b'' = Some (Inr ''pw'')"
    by code_simp
  ultimately show ?thesis unfolding sample_migration snd_conv by metis
qed

end
