(* ===== verification/Automation_Store.thy ===== *)
theory Automation_Store
  imports Credentials Entitlement Request_Guards
begin

text \<open>
  The tables behind the automation API and the handlers that change them: connections, scheduled
  tasks and saved queries of \<open>crates/automation/src/handler.rs\<close> and \<open>lib.rs\<close>, with the foreign keys of
  the migrations (a connection takes the tasks it is the source of with it, empties their targets, and
  cannot go while an approval names it).

  A handler's answer is the data with its status or the status with the error code; messages are left
  out. \<open>ok k\<close> says whether the \<open>k\<close>-th statement of a handler reaches the database. Identifiers,
  times and nonces are arguments.
\<close>

section \<open>Model\<close>

datatype 'a api = ApiOk nat 'a | ApiErr nat string

record db_connection =
  dc_id :: string
  dc_name :: string
  dc_db_type :: string
  dc_host :: string
  dc_port :: int
  dc_username :: string
  dc_password_encrypted :: string
  dc_default_database :: "string option"
  dc_ssh_enabled :: bool
  dc_ssh_host :: "string option"
  dc_ssh_port :: "int option"
  dc_created_by :: string
  dc_created_at :: string
  dc_kind :: string
  dc_file_path :: "string option"
  dc_use_ssl :: bool
  dc_timeout_seconds :: int
  dc_auto_reconnect :: bool
  dc_charset :: "string option"
  dc_timezone :: "string option"
  dc_environment :: "string option"
  dc_read_only :: bool
  dc_group_id :: "string option"
  dc_extra :: "string option"
  dc_ssh_username :: "string option"
  dc_ssh_auth_mode :: "string option"
  dc_ssh_password_encrypted :: "string option"
  dc_ssh_private_key_encrypted :: "string option"
  dc_ssh_passphrase_encrypted :: "string option"

record create_connection_request =
  cc_name :: string
  cc_db_type :: string
  cc_host :: string
  cc_port :: int
  cc_username :: string
  cc_password :: string
  cc_default_database :: "string option"
  cc_ssh_enabled :: bool
  cc_ssh_host :: "string option"
  cc_ssh_port :: "int option"
  cc_kind :: "string option"
  cc_file_path :: "string option"
  cc_use_ssl :: bool
  cc_timeout_seconds :: int
  cc_auto_reconnect :: bool
  cc_charset :: "string option"
  cc_timezone :: "string option"
  cc_environment :: "string option"
  cc_read_only :: bool
  cc_group_id :: "string option"
  cc_extra :: "string option"
  cc_ssh_username :: "string option"
  cc_ssh_auth_mode :: "string option"
  cc_ssh_password :: "string option"
  cc_ssh_private_key :: "string option"
  cc_ssh_passphrase :: "string option"

record update_connection_request =
  uc_name :: "string option"
  uc_db_type :: "string option"
  uc_host :: "string option"
  uc_port :: "int option"
  uc_username :: "string option"
  uc_password :: "string option"
  uc_default_database :: "string option"
  uc_file_path :: "string option"
  uc_use_ssl :: "bool option"
  uc_read_only :: "bool option"
  uc_timeout_seconds :: "int option"
  uc_charset :: "string option"
  uc_timezone :: "string option"
  uc_environment :: "string option"

record scheduled_task =
  tsk_id :: string
  tsk_name :: string
  tsk_task_type :: string
  tsk_cron_expr :: string
  tsk_config :: string
  tsk_source_db_id :: string
  tsk_target_db_id :: "string option"
  tsk_notify_channels :: string
  tsk_enabled :: bool
  tsk_last_run_at :: "string option"
  tsk_last_status :: "string option"
  tsk_created_at :: string

record create_task_request =
  ct_name :: string
  ct_task_type :: string
  ct_cron_expr :: string
  ct_config :: json
  ct_source_db_id :: string
  ct_target_db_id :: "string option"
  ct_notify_channels :: "string list option"

record update_task_request =
  ut_enabled :: "bool option"
  ut_name :: "string option"
  ut_cron_expr :: "string option"
  ut_config :: "json option"
  ut_target_db_id :: "string option"
  ut_notify_channels :: "string list option"

record ddl_approval =
  ap_id :: string
  ap_submitter_id :: string
  ap_ddl_sql :: string
  ap_target_db_id :: string
  ap_reviewer_id :: "string option"
  ap_status :: string
  ap_created_at :: string
  ap_resolved_at :: "string option"
  ap_exec_status :: string
  ap_executed_at :: "string option"
  ap_exec_error :: "string option"

record saved_query =
  sq_id :: string
  sq_title :: string
  sq_sql_text :: string
  sq_tags :: string
  sq_workspace_id :: string
  sq_created_by :: string
  sq_created_at :: string

record auto_store =
  as_entitlement :: entitlement_state
  as_embedded_mode :: bool
  as_connections :: "db_connection list"
  as_tasks :: "scheduled_task list"
  as_approvals :: "ddl_approval list"
  as_queries :: "saved_query list"

definition gated_answer :: "'a api" where
  "gated_answer = ApiErr 403 ''ENTITLEMENT_GATED''"

subsection \<open>Connections\<close>

definition find_conn :: "string \<Rightarrow> db_connection list \<Rightarrow> db_connection option" where
  "find_conn i cs = find (\<lambda>c. dc_id c = i) cs"

definition list_connections :: "bool \<Rightarrow> auto_store \<Rightarrow> db_connection list api" where
  "list_connections ok st =
     (if ok then ApiOk 200 (rev (sort_key (\<lambda>c. dc_created_at c) (as_connections st))) else ApiErr 200 ''DB_ERROR'')"

record credential_answer =
  ca_password :: string
  ca_ssh_password :: "string option"
  ca_ssh_private_key :: "string option"
  ca_ssh_passphrase :: "string option"

definition decrypt_opt :: "crypto \<Rightarrow> nat list \<Rightarrow> string option \<Rightarrow> unit + string option" where
  "decrypt_opt cr key stored =
     (case stored of
       Some s \<Rightarrow> if s = [] then Inr None
         else (case decrypt_password cr key s of Inl _ \<Rightarrow> Inl () | Inr p \<Rightarrow> Inr (Some p))
     | None \<Rightarrow> Inr None)"

definition get_connection_credential :: "crypto \<Rightarrow> nat list \<Rightarrow> bool \<Rightarrow> string \<Rightarrow> auto_store \<Rightarrow> credential_answer api" where
  "get_connection_credential cr key ok i st =
     (if \<not> as_embedded_mode st then ApiErr 200 ''NOT_EMBEDDED''
      else if \<not> ok then ApiErr 200 ''DB_ERROR''
      else case find_conn i (as_connections st) of
          None \<Rightarrow> ApiErr 200 ''NOT_FOUND''
        | Some row \<Rightarrow>
            (case decrypt_password cr key (dc_password_encrypted row) of
              Inl _ \<Rightarrow> ApiErr 200 ''DECRYPT_FAILED''
            | Inr password \<Rightarrow>
                (case (decrypt_opt cr key (dc_ssh_password_encrypted row),
                       decrypt_opt cr key (dc_ssh_private_key_encrypted row),
                       decrypt_opt cr key (dc_ssh_passphrase_encrypted row)) of
                  (Inr sp, Inr sk, Inr ss) \<Rightarrow>
                    ApiOk 200 \<lparr>ca_password = password, ca_ssh_password = sp, ca_ssh_private_key = sk, ca_ssh_passphrase = ss\<rparr>
                | _ \<Rightarrow> ApiErr 200 ''DECRYPT_FAILED'')))"

text \<open>What the source database answers to the write probe.\<close>

datatype probe_answer = ProbeNoConnect | ProbeNoTransaction | ProbeCreated bool

definition run_create_canary :: "probe_answer \<Rightarrow> create_connection_request \<Rightarrow> bool" where
  "run_create_canary probe body =
     (let db_type = map to_ascii_lower (cc_db_type body) in
      if db_type = ''mysql'' then probe \<noteq> ProbeNoConnect \<and> probe \<noteq> ProbeCreated True
      else if db_type \<in> {''postgres'', ''postgresql'', ''pg''} then probe = ProbeCreated False
      else False)"

definition conn_kind :: "string option \<Rightarrow> string" where
  "conn_kind kind = (if map_option (map to_ascii_lower) kind = Some ''source_drift'' then ''source_drift'' else ''collab'')"

definition encrypt_secret :: "crypto \<Rightarrow> nat list \<Rightarrow> nat list \<Rightarrow> string option \<Rightarrow> unit + string option" where
  "encrypt_secret cr nonce key secret =
     (case secret of
       Some p \<Rightarrow> if p = [] then Inr None else map_sum id Some (ok_or () (encrypt_v1 cr nonce key p))
     | None \<Rightarrow> Inr None)"

record conn_io =
  ci_ok :: "nat \<Rightarrow> bool"
  ci_id :: string
  ci_now :: string
  ci_nonce :: "nat \<Rightarrow> nat list"
  ci_probe :: probe_answer

text \<open>The row the insert writes.\<close>

definition conn_row :: "conn_io \<Rightarrow> claims \<Rightarrow> create_connection_request \<Rightarrow> string \<Rightarrow> string option \<Rightarrow> string option \<Rightarrow> string option \<Rightarrow> db_connection" where
  "conn_row io cl body encrypted sp sk ss =
     \<lparr>dc_id = ci_id io, dc_name = cc_name body, dc_db_type = cc_db_type body, dc_host = cc_host body,
     dc_port = cc_port body, dc_username = cc_username body, dc_password_encrypted = encrypted,
     dc_default_database = cc_default_database body, dc_ssh_enabled = cc_ssh_enabled body,
     dc_ssh_host = cc_ssh_host body, dc_ssh_port = cc_ssh_port body, dc_created_by = cl_sub cl,
     dc_created_at = ci_now io, dc_kind = conn_kind (cc_kind body), dc_file_path = cc_file_path body,
     dc_use_ssl = cc_use_ssl body, dc_timeout_seconds = cc_timeout_seconds body,
     dc_auto_reconnect = cc_auto_reconnect body, dc_charset = cc_charset body, dc_timezone = cc_timezone body,
     dc_environment = cc_environment body, dc_read_only = cc_read_only body, dc_group_id = cc_group_id body,
     dc_extra = cc_extra body, dc_ssh_username = cc_ssh_username body, dc_ssh_auth_mode = cc_ssh_auth_mode body,
     dc_ssh_password_encrypted = sp, dc_ssh_private_key_encrypted = sk, dc_ssh_passphrase_encrypted = ss\<rparr>"

definition create_connection :: "crypto \<Rightarrow> nat list \<Rightarrow> conn_io \<Rightarrow> claims \<Rightarrow> create_connection_request \<Rightarrow> auto_store \<Rightarrow>
    db_connection api \<times> auto_store" where
  "create_connection cr key io cl body st =
     (if is_gated (as_entitlement st) then (gated_answer, st)
      else let kind = conn_kind (cc_kind body) in
      if kind = ''source_drift'' \<and> \<not> run_create_canary (ci_probe io) body then (ApiErr 200 ''CANARY_REJECTED'', st)
      else case encrypt_v1 cr (ci_nonce io 0) key (cc_password body) of
          None \<Rightarrow> (ApiErr 200 ''CREATE_FAILED'', st)
        | Some encrypted \<Rightarrow>
      (case (encrypt_secret cr (ci_nonce io 1) key (cc_ssh_password body),
             encrypt_secret cr (ci_nonce io 2) key (cc_ssh_private_key body),
             encrypt_secret cr (ci_nonce io 3) key (cc_ssh_passphrase body)) of
        (Inr sp, Inr sk, Inr ss) \<Rightarrow>
          let row = conn_row io cl body encrypted sp sk ss
          in if \<not> ci_ok io 0 \<or> find_conn (ci_id io) (as_connections st) \<noteq> None then (ApiErr 200 ''CREATE_FAILED'', st)
             else (if ci_ok io 1 then ApiOk 200 row else ApiErr 200 ''FETCH_FAILED'',
                   st\<lparr>as_connections := as_connections st @ [row]\<rparr>)
      | _ \<Rightarrow> (ApiErr 200 ''CREATE_FAILED'', st)))"

text \<open>The foreign keys decide what the statement does; the answer does not depend on it.\<close>

definition delete_conn_row :: "string \<Rightarrow> auto_store \<Rightarrow> auto_store" where
  "delete_conn_row i st =
     (if find_conn i (as_connections st) \<noteq> None \<and> list_ex (\<lambda>a. ap_target_db_id a = i) (as_approvals st) then st
      else st\<lparr>as_connections := filter (\<lambda>c. dc_id c \<noteq> i) (as_connections st),
              as_tasks := map (\<lambda>t. if tsk_target_db_id t = Some i then t\<lparr>tsk_target_db_id := None\<rparr> else t)
                (filter (\<lambda>t. tsk_source_db_id t \<noteq> i) (as_tasks st))\<rparr>)"

definition delete_connection :: "(nat \<Rightarrow> bool) \<Rightarrow> string \<Rightarrow> auto_store \<Rightarrow> unit api \<times> auto_store" where
  "delete_connection ok i st =
     (if is_gated (as_entitlement st) then (gated_answer, st)
      else (ApiOk 200 (), if ok 0 then delete_conn_row i st else st))"

definition or_keep :: "'a option \<Rightarrow> 'a \<Rightarrow> 'a" where
  "or_keep new old = (case new of Some x \<Rightarrow> x | None \<Rightarrow> old)"

definition apply_update :: "update_connection_request \<Rightarrow> string \<Rightarrow> db_connection \<Rightarrow> db_connection" where
  "apply_update body password_encrypted row =
     row\<lparr>dc_name := or_keep (uc_name body) (dc_name row), dc_db_type := or_keep (uc_db_type body) (dc_db_type row),
         dc_host := or_keep (uc_host body) (dc_host row), dc_port := or_keep (uc_port body) (dc_port row),
         dc_username := or_keep (uc_username body) (dc_username row), dc_password_encrypted := password_encrypted,
         dc_default_database := or_else (uc_default_database body) (dc_default_database row),
         dc_file_path := or_else (uc_file_path body) (dc_file_path row),
         dc_use_ssl := or_keep (uc_use_ssl body) (dc_use_ssl row), dc_read_only := or_keep (uc_read_only body) (dc_read_only row),
         dc_timeout_seconds := or_keep (uc_timeout_seconds body) (dc_timeout_seconds row),
         dc_charset := or_else (uc_charset body) (dc_charset row), dc_timezone := or_else (uc_timezone body) (dc_timezone row),
         dc_environment := or_else (uc_environment body) (dc_environment row)\<rparr>"

definition new_password :: "crypto \<Rightarrow> nat list \<Rightarrow> nat list \<Rightarrow> string option \<Rightarrow> db_connection \<Rightarrow> string option" where
  "new_password cr nonce key password row =
     (case password of
       Some p \<Rightarrow> if p = [] then Some (dc_password_encrypted row) else encrypt_v1 cr nonce key p
     | None \<Rightarrow> Some (dc_password_encrypted row))"

definition update_connection :: "crypto \<Rightarrow> nat list \<Rightarrow> conn_io \<Rightarrow> string \<Rightarrow> update_connection_request \<Rightarrow> auto_store \<Rightarrow>
    db_connection api \<times> auto_store" where
  "update_connection cr key io i body st =
     (if is_gated (as_entitlement st) then (gated_answer, st)
      else if \<not> ci_ok io 0 then (ApiErr 500 ''DB_ERROR'', st)
      else case find_conn i (as_connections st) of
          None \<Rightarrow> (ApiErr 404 ''NOT_FOUND'', st)
        | Some row \<Rightarrow>
            (case new_password cr (ci_nonce io 0) key (uc_password body) row of
              None \<Rightarrow> (ApiErr 200 ''UPDATE_FAILED'', st)
            | Some password_encrypted \<Rightarrow>
                if \<not> ci_ok io 1 then (ApiErr 200 ''UPDATE_FAILED'', st)
                else (if ci_ok io 2 then ApiOk 200 (apply_update body password_encrypted row) else ApiErr 200 ''FETCH_FAILED'',
                      st\<lparr>as_connections := map (\<lambda>c. if dc_id c = i then apply_update body password_encrypted row else c)
                           (as_connections st)\<rparr>)))"

subsection \<open>Tasks\<close>

definition embedded_unsupported :: "string \<Rightarrow> bool" where
  "embedded_unsupported task_type = (task_type \<in> {''schema_drift'', ''health_check''})"

definition conn_exists :: "string \<Rightarrow> auto_store \<Rightarrow> bool" where
  "conn_exists i st = (find_conn i (as_connections st) \<noteq> None)"

definition validate_task_connections :: "(nat \<Rightarrow> bool) \<Rightarrow> string \<Rightarrow> string option \<Rightarrow> auto_store \<Rightarrow> (nat \<times> string) option" where
  "validate_task_connections ok source_id target_id st =
     (if \<not> ok 0 then Some (500, ''INTERNAL'')
      else if \<not> conn_exists source_id st then Some (404, ''CONNECTION_NOT_FOUND'')
      else case target_id of
          None \<Rightarrow> None
        | Some t \<Rightarrow> if \<not> ok 1 then Some (500, ''INTERNAL'')
            else if \<not> conn_exists t st then Some (404, ''CONNECTION_NOT_FOUND'') else None)"

record json_lib =
  jl_text :: "json \<Rightarrow> string"
  jl_strings :: "string list \<Rightarrow> string"

record task_io =
  tio_ok :: "nat \<Rightarrow> bool"
  tio_id :: string
  tio_now :: string

definition task_row :: "json_lib \<Rightarrow> task_io \<Rightarrow> create_task_request \<Rightarrow> scheduled_task" where
  "task_row jl io body =
     \<lparr>tsk_id = tio_id io, tsk_name = ct_name body, tsk_task_type = ct_task_type body,
     tsk_cron_expr = ct_cron_expr body, tsk_config = jl_text jl (ct_config body),
     tsk_source_db_id = ct_source_db_id body, tsk_target_db_id = ct_target_db_id body,
     tsk_notify_channels = jl_strings jl (case ct_notify_channels body of Some cs \<Rightarrow> cs | None \<Rightarrow> []),
     tsk_enabled = True, tsk_last_run_at = None, tsk_last_status = None, tsk_created_at = tio_now io\<rparr>"

definition create_task :: "json_lib \<Rightarrow> task_io \<Rightarrow> create_task_request \<Rightarrow> auto_store \<Rightarrow> scheduled_task api \<times> auto_store" where
  "create_task jl io body st =
     (if is_gated (as_entitlement st) then (gated_answer, st)
      else if as_embedded_mode st \<and> embedded_unsupported (ct_task_type body) then (ApiErr 400 ''UNSUPPORTED_IN_EMBEDDED'', st)
      else case validate_task_connections (tio_ok io) (ct_source_db_id body) (ct_target_db_id body) st of
          Some (status, code) \<Rightarrow> (ApiErr status code, st)
        | None \<Rightarrow>
            let row = task_row jl io body
            in if \<not> tio_ok io 2 \<or> list_ex (\<lambda>t. tsk_id t = tio_id io) (as_tasks st) then (ApiErr 200 ''CREATE_FAILED'', st)
               else (if tio_ok io 3 then ApiOk 200 row else ApiErr 200 ''FETCH_FAILED'',
                     st\<lparr>as_tasks := as_tasks st @ [row]\<rparr>))"

definition apply_patch :: "json_lib \<Rightarrow> update_task_request \<Rightarrow> scheduled_task \<Rightarrow> scheduled_task" where
  "apply_patch jl body t =
     t\<lparr>tsk_enabled := or_keep (ut_enabled body) (tsk_enabled t), tsk_name := or_keep (ut_name body) (tsk_name t),
       tsk_cron_expr := or_keep (ut_cron_expr body) (tsk_cron_expr t),
       tsk_config := (case ut_config body of Some c \<Rightarrow> jl_text jl c | None \<Rightarrow> tsk_config t),
       tsk_target_db_id := or_else (ut_target_db_id body) (tsk_target_db_id t),
       tsk_notify_channels := (case ut_notify_channels body of Some cs \<Rightarrow> jl_strings jl cs | None \<Rightarrow> tsk_notify_channels t)\<rparr>"

definition update_task :: "json_lib \<Rightarrow> (nat \<Rightarrow> bool) \<Rightarrow> string \<Rightarrow> update_task_request \<Rightarrow> auto_store \<Rightarrow> scheduled_task api \<times> auto_store" where
  "update_task jl ok i body st =
     (if is_gated (as_entitlement st) then (gated_answer, st)
      else if ut_enabled body = None \<and> ut_name body = None \<and> ut_cron_expr body = None \<and> ut_config body = None \<and>
         ut_target_db_id body = None \<and> ut_notify_channels body = None then (ApiErr 400 ''EMPTY_PATCH'', st)
      else if \<not> ok 0 then (ApiErr 500 ''DB_ERROR'', st)
      else case find (\<lambda>t. tsk_id t = i) (as_tasks st) of
          None \<Rightarrow> (ApiErr 404 ''NOT_FOUND'', st)
        | Some t \<Rightarrow>
            if (case ut_target_db_id body of Some d \<Rightarrow> \<not> conn_exists d st | None \<Rightarrow> False) then (ApiErr 500 ''DB_ERROR'', st)
            else (if ok 1 then ApiOk 200 (apply_patch jl body t) else ApiErr 200 ''FETCH_FAILED'',
                  st\<lparr>as_tasks := map (\<lambda>t. if tsk_id t = i then apply_patch jl body t else t) (as_tasks st)\<rparr>))"

definition delete_task :: "(nat \<Rightarrow> bool) \<Rightarrow> string \<Rightarrow> auto_store \<Rightarrow> unit api \<times> auto_store" where
  "delete_task ok i st =
     (if is_gated (as_entitlement st) then (gated_answer, st)
      else if \<not> ok 0 then (ApiErr 200 ''DB_ERROR'', st)
      else (ApiOk 200 (), st\<lparr>as_tasks := filter (\<lambda>t. tsk_id t \<noteq> i) (as_tasks st)\<rparr>))"

datatype task_runner = DriftRun | SyncRun | HealthRun

text \<open>Which runner is started in the background, for whom.\<close>

definition run_task_now :: "(nat \<Rightarrow> bool) \<Rightarrow> claims \<Rightarrow> string \<Rightarrow> auto_store \<Rightarrow> (task_runner \<times> string) api" where
  "run_task_now ok cl i st =
     (if is_gated (as_entitlement st) then gated_answer
      else if \<not> ok 0 then ApiErr 500 ''INTERNAL''
      else case find (\<lambda>t. tsk_id t = i) (as_tasks st) of
          None \<Rightarrow> ApiErr 404 ''TASK_NOT_FOUND''
        | Some t \<Rightarrow>
            if as_embedded_mode st \<and> embedded_unsupported (tsk_task_type t) then ApiErr 400 ''UNSUPPORTED_IN_EMBEDDED''
            else let by = ''manual:'' @ cl_sub cl in
            if tsk_task_type t = ''schema_drift'' then ApiOk 202 (DriftRun, by)
            else if tsk_task_type t = ''data_sync'' then ApiOk 202 (SyncRun, by)
            else if tsk_task_type t = ''health_check'' then ApiOk 202 (HealthRun, by)
            else ApiErr 400 ''UNSUPPORTED_TASK_TYPE'')"

subsection \<open>Saved queries\<close>

definition query_row :: "json_lib \<Rightarrow> task_io \<Rightarrow> claims \<Rightarrow> string \<Rightarrow> string \<Rightarrow> string list \<Rightarrow> saved_query" where
  "query_row jl io cl title sql_text tags =
     \<lparr>sq_id = tio_id io, sq_title = title, sq_sql_text = sql_text, sq_tags = jl_strings jl tags,
      sq_workspace_id = ''default'', sq_created_by = cl_sub cl, sq_created_at = tio_now io\<rparr>"

definition save_query :: "json_lib \<Rightarrow> task_io \<Rightarrow> claims \<Rightarrow> string \<Rightarrow> string \<Rightarrow> string list \<Rightarrow> auto_store \<Rightarrow> string api \<times> auto_store" where
  "save_query jl io cl title sql_text tags st =
     (if is_gated (as_entitlement st) then (gated_answer, st)
      else if \<not> tio_ok io 0 \<or> list_ex (\<lambda>q. sq_id q = tio_id io) (as_queries st) then (ApiErr 200 ''SAVE_FAILED'', st)
      else (ApiOk 200 (tio_id io),
            st\<lparr>as_queries := as_queries st @ [query_row jl io cl title sql_text tags]\<rparr>))"

definition get_saved_query :: "bool \<Rightarrow> string \<Rightarrow> auto_store \<Rightarrow> saved_query api" where
  "get_saved_query ok i st =
     (if \<not> ok then ApiErr 200 ''DB_ERROR''
      else case find (\<lambda>q. sq_id q = i) (as_queries st) of
          Some q \<Rightarrow> ApiOk 200 q
        | None \<Rightarrow> ApiErr 200 ''NOT_FOUND'')"

definition delete_saved_query :: "(nat \<Rightarrow> bool) \<Rightarrow> claims \<Rightarrow> string \<Rightarrow> auto_store \<Rightarrow> unit api \<times> auto_store" where
  "delete_saved_query ok cl i st =
     (if is_gated (as_entitlement st) then (gated_answer, st)
      else if \<not> ok 0 then (ApiErr 200 ''DB_ERROR'', st)
      else case find (\<lambda>q. sq_id q = i) (as_queries st) of
          None \<Rightarrow> (ApiErr 200 ''NOT_FOUND'', st)
        | Some q \<Rightarrow>
            if sq_created_by q \<noteq> cl_sub cl then (ApiErr 403 ''FORBIDDEN'', st)
            else if \<not> ok 1 then (ApiErr 200 ''DB_ERROR'', st)
            else (ApiOk 200 (), st\<lparr>as_queries := filter (\<lambda>q. sq_id q \<noteq> i) (as_queries st)\<rparr>))"

text \<open>SQLite's \<open>LIKE\<close>: \<open>%\<close> for any text, \<open>_\<close> for any character, ASCII letters in either case.\<close>

fun sql_like :: "string \<Rightarrow> string \<Rightarrow> bool" where
  "sql_like [] s = (s = [])"
| "sql_like (p # ps) [] = (p = CHR ''%'' \<and> sql_like ps [])"
| "sql_like (p # ps) (c # cs) =
     (if p = CHR ''%'' then sql_like ps (c # cs) \<or> sql_like (p # ps) cs
      else (p = CHR ''_'' \<or> to_ascii_lower p = to_ascii_lower c) \<and> sql_like ps cs)"

definition clamp_limit :: "int option \<Rightarrow> int \<Rightarrow> int \<Rightarrow> int" where
  "clamp_limit raw dflt mx = (case raw of Some n \<Rightarrow> if 0 < n then min n mx else dflt | None \<Rightarrow> dflt)"

definition list_saved_queries :: "bool \<Rightarrow> string option \<Rightarrow> string option \<Rightarrow> int option \<Rightarrow> auto_store \<Rightarrow> saved_query list api" where
  "list_saved_queries ok tag needle limit st =
     (if \<not> ok then ApiErr 200 ''DB_ERROR''
      else ApiOk 200 (take (nat (clamp_limit limit 100 500)) (rev (sort_key (\<lambda>q. sq_created_at q)
        (filter (\<lambda>q. (case tag of Some t \<Rightarrow> sql_like (''%'' @ [CHR 0x22] @ t @ [CHR 0x22] @ ''%'') (sq_tags q) | None \<Rightarrow> True) \<and>
                      (case needle of Some n \<Rightarrow> sql_like (''%'' @ n @ ''%'') (sq_title q) \<or> sql_like (''%'' @ n @ ''%'') (sq_sql_text q)
                       | None \<Rightarrow> True))
          (as_queries st))))))"

section \<open>Integrity of the tables\<close>

definition task_refs :: "string set \<Rightarrow> scheduled_task \<Rightarrow> bool" where
  "task_refs ids t = (tsk_source_db_id t \<in> ids \<and> set_option (tsk_target_db_id t) \<subseteq> ids)"

definition conn_ids :: "auto_store \<Rightarrow> string set" where
  "conn_ids st = dc_id ` set (as_connections st)"

definition store_wf :: "auto_store \<Rightarrow> bool" where
  "store_wf st =
     (distinct (map dc_id (as_connections st)) \<and> distinct (map tsk_id (as_tasks st)) \<and>
      distinct (map ap_id (as_approvals st)) \<and> distinct (map sq_id (as_queries st)) \<and>
      (\<forall>t \<in> set (as_tasks st). task_refs (conn_ids st) t) \<and>
      (\<forall>a \<in> set (as_approvals st). ap_target_db_id a \<in> conn_ids st))"

lemma task_refs_mono: "task_refs ids t \<Longrightarrow> ids \<subseteq> ids' \<Longrightarrow> task_refs ids' t"
  by (auto simp: task_refs_def)

lemma find_conn_None: "find_conn i cs = None \<longleftrightarrow> i \<notin> dc_id ` set cs"
  by (auto simp: find_conn_def find_None_iff)

lemma find_conn_SomeD: "find_conn i cs = Some c \<Longrightarrow> c \<in> set cs \<and> dc_id c = i"
  by (auto simp: find_conn_def find_Some_iff)

lemma apply_update_id [simp]: "dc_id (apply_update body pw row) = dc_id row"
  by (simp add: apply_update_def)

lemma apply_patch_ids [simp]:
  "tsk_id (apply_patch jl body t) = tsk_id t" "tsk_source_db_id (apply_patch jl body t) = tsk_source_db_id t"
  "tsk_target_db_id (apply_patch jl body t) = or_else (ut_target_db_id body) (tsk_target_db_id t)"
  by (simp_all add: apply_patch_def)

lemma store_wf_more_connections:
  assumes "store_wf st" "dc_id c \<notin> conn_ids st"
  shows "store_wf (st\<lparr>as_connections := as_connections st @ [c]\<rparr>)"
proof -
  have "conn_ids (st\<lparr>as_connections := as_connections st @ [c]\<rparr>) = insert (dc_id c) (conn_ids st)"
    by (auto simp: conn_ids_def)
  with assms show ?thesis
    by (auto simp: store_wf_def conn_ids_def [of st] intro: task_refs_mono)
qed

lemma store_wf_same_ids:
  assumes "store_wf st" "map dc_id cs = map dc_id (as_connections st)"
  shows "store_wf (st\<lparr>as_connections := cs\<rparr>)"
proof -
  have "conn_ids (st\<lparr>as_connections := cs\<rparr>) = conn_ids st"
    using arg_cong [OF assms(2), of set] by (simp add: conn_ids_def)
  with assms show ?thesis by (simp add: store_wf_def)
qed

lemma conn_ids_simps [simp]:
  "conn_ids (st\<lparr>as_tasks := ts\<rparr>) = conn_ids st" "conn_ids (st\<lparr>as_queries := qs\<rparr>) = conn_ids st"
  "conn_ids (st\<lparr>as_approvals := aps\<rparr>) = conn_ids st"
  by (simp_all add: conn_ids_def)

lemma store_wf_tasks:
  assumes "store_wf st" "distinct (map tsk_id ts)" "\<And>t. t \<in> set ts \<Longrightarrow> task_refs (conn_ids st) t"
  shows "store_wf (st\<lparr>as_tasks := ts\<rparr>)"
  using assms by (simp add: store_wf_def)

lemma store_wf_queries:
  assumes "store_wf st" "distinct (map sq_id qs)"
  shows "store_wf (st\<lparr>as_queries := qs\<rparr>)"
  using assms by (simp add: store_wf_def)

lemma conn_row_simps [simp]:
  "dc_id (conn_row io cl body e sp sk ss) = ci_id io"
  "dc_kind (conn_row io cl body e sp sk ss) = conn_kind (cc_kind body)"
  "dc_password_encrypted (conn_row io cl body e sp sk ss) = e"
  "dc_ssh_password_encrypted (conn_row io cl body e sp sk ss) = sp"
  "dc_ssh_private_key_encrypted (conn_row io cl body e sp sk ss) = sk"
  "dc_ssh_passphrase_encrypted (conn_row io cl body e sp sk ss) = ss"
  by (simp_all add: conn_row_def)

text \<open>Either nothing changes or one new row with sealed secrets is appended.\<close>

lemma create_connection_cases:
  assumes "create_connection cr key io cl body st = (r, st')"
  obtains "st' = st" "\<nexists>row. r = ApiOk 200 row"
  | e sp sk ss where "st' = st\<lparr>as_connections := as_connections st @ [conn_row io cl body e sp sk ss]\<rparr>"
      "\<not> is_gated (as_entitlement st)" "ci_id io \<notin> dc_id ` set (as_connections st)"
      "conn_kind (cc_kind body) = ''source_drift'' \<longrightarrow> run_create_canary (ci_probe io) body"
      "encrypt_v1 cr (ci_nonce io 0) key (cc_password body) = Some e"
      "encrypt_secret cr (ci_nonce io 1) key (cc_ssh_password body) = Inr sp"
      "encrypt_secret cr (ci_nonce io 2) key (cc_ssh_private_key body) = Inr sk"
      "encrypt_secret cr (ci_nonce io 3) key (cc_ssh_passphrase body) = Inr ss"
      "r = (if ci_ok io 1 then ApiOk 200 (conn_row io cl body e sp sk ss) else ApiErr 200 ''FETCH_FAILED'')"
  using assms unfolding create_connection_def gated_answer_def Let_def
  by (auto simp: find_conn_None split: if_splits option.splits sum.splits)

lemma create_connection_wf:
  assumes "create_connection cr key io cl body st = (r, st')" "store_wf st"
  shows "store_wf st'"
  using assms by (elim create_connection_cases) (auto intro: store_wf_more_connections simp: conn_ids_def)

lemma update_connection_cases:
  assumes "update_connection cr key io i body st = (r, st')"
  obtains "st' = st"
  | row pw where "find_conn i (as_connections st) = Some row" "\<not> is_gated (as_entitlement st)"
      "new_password cr (ci_nonce io 0) key (uc_password body) row = Some pw"
      "st' = st\<lparr>as_connections := map (\<lambda>c. if dc_id c = i then apply_update body pw row else c) (as_connections st)\<rparr>"
proof (cases "find_conn i (as_connections st)")
  case None
  with assms that(1) show ?thesis by (simp add: update_connection_def split: if_splits)
next
  case (Some row)
  show ?thesis
  proof (cases "new_password cr (ci_nonce io 0) key (uc_password body) row")
    case None
    with Some assms that(1) show ?thesis by (simp add: update_connection_def split: if_splits)
  next
    case (Some pw)
    with \<open>find_conn i (as_connections st) = Some row\<close> assms that show ?thesis
      unfolding update_connection_def by (simp split: if_splits)
  qed
qed

lemma update_connection_wf:
  assumes "update_connection cr key io i body st = (r, st')" "store_wf st"
  shows "store_wf st'"
  using assms(1)
proof (cases rule: update_connection_cases)
  case (2 row pw)
  have "map dc_id (map (\<lambda>c. if dc_id c = i then apply_update body pw row else c) (as_connections st)) = map dc_id (as_connections st)"
    using find_conn_SomeD [OF 2(1)] by (auto simp: comp_def)
  with 2 assms(2) show ?thesis by (simp only: store_wf_same_ids)
qed (use assms(2) in simp)

lemma delete_conn_row_wf:
  assumes "store_wf st"
  shows "store_wf (delete_conn_row i st)"
proof (cases "find_conn i (as_connections st) \<noteq> None \<and> list_ex (\<lambda>a. ap_target_db_id a = i) (as_approvals st)")
  case False
  let ?f = "\<lambda>t. if tsk_target_db_id t = Some i then t\<lparr>tsk_target_db_id := None\<rparr> else t"
  let ?ts = "map ?f (filter (\<lambda>t. tsk_source_db_id t \<noteq> i) (as_tasks st))"
  let ?st = "st\<lparr>as_connections := filter (\<lambda>c. dc_id c \<noteq> i) (as_connections st), as_tasks := ?ts\<rparr>"
  have f: "tsk_id (?f t) = tsk_id t" for t by simp
  have "distinct (map tsk_id ?ts)"
    using assms by (simp only: map_map comp_def f) (simp add: store_wf_def distinct_map_filter)
  moreover have ids: "conn_ids ?st = conn_ids st - {i}"
    by (auto simp: conn_ids_def)
  moreover have "task_refs (conn_ids st - {i}) t" if "t \<in> set ?ts" for t
    using that assms by (auto simp: store_wf_def task_refs_def split: if_splits)
  moreover have "ap_target_db_id a \<in> conn_ids st - {i}" if "a \<in> set (as_approvals st)" for a
    using False that assms by (auto simp: list_ex_iff find_conn_None store_wf_def conn_ids_def)
  moreover have "distinct (map dc_id (as_connections ?st))"
    using assms by (simp add: store_wf_def distinct_map_filter)
  ultimately have "store_wf ?st"
    using assms unfolding store_wf_def ids by simp
  then show ?thesis unfolding delete_conn_row_def if_not_P [OF False] .
qed (use assms in \<open>simp add: delete_conn_row_def\<close>)

lemma delete_connection_wf:
  "delete_connection ok i st = (r, st') \<Longrightarrow> store_wf st \<Longrightarrow> store_wf st'"
  by (auto simp: delete_connection_def delete_conn_row_wf split: if_splits)

lemma task_row_simps [simp]:
  "tsk_id (task_row jl io body) = tio_id io" "tsk_source_db_id (task_row jl io body) = ct_source_db_id body"
  "tsk_target_db_id (task_row jl io body) = ct_target_db_id body"
  by (simp_all add: task_row_def)

lemma query_row_simps [simp]:
  "sq_id (query_row jl io cl title sql tags) = tio_id io" "sq_created_by (query_row jl io cl title sql tags) = cl_sub cl"
  by (simp_all add: query_row_def)

lemma create_task_wf:
  assumes "create_task jl io body st = (r, st')" "store_wf st"
  shows "store_wf st'"
proof -
  have "task_refs (conn_ids st) (task_row jl io body)"
    if "validate_task_connections (tio_ok io) (ct_source_db_id body) (ct_target_db_id body) st = None"
    using that
    by (auto simp: task_refs_def validate_task_connections_def conn_exists_def find_conn_None conn_ids_def split: if_splits option.splits)
  moreover have "distinct (map tsk_id (as_tasks st @ [task_row jl io body]))" if "\<not> list_ex (\<lambda>t. tsk_id t = tio_id io) (as_tasks st)"
    using that assms(2) by (auto simp: list_ex_iff store_wf_def)
  ultimately show ?thesis
    using assms by (auto simp: create_task_def Let_def store_wf_def split: if_splits option.splits)
qed

lemma update_task_wf:
  assumes "update_task jl ok i body st = (r, st')" "store_wf st"
  shows "store_wf st'"
proof -
  let ?f = "\<lambda>t. if tsk_id t = i then apply_patch jl body t else t"
  have "tsk_id (?f t) = tsk_id t" for t by simp
  then have "distinct (map tsk_id (map ?f (as_tasks st)))"
    using assms(2) by (simp only: map_map comp_def) (simp add: store_wf_def)
  moreover have "task_refs (conn_ids st) (?f t)"
    if "t \<in> set (as_tasks st)" "case ut_target_db_id body of Some d \<Rightarrow> conn_exists d st | None \<Rightarrow> True" for t
    using that assms(2)
    by (auto simp: task_refs_def or_else_def conn_exists_def find_conn_None store_wf_def conn_ids_def split: option.splits)
  ultimately have "store_wf (st\<lparr>as_tasks := map ?f (as_tasks st)\<rparr>)"
    if "case ut_target_db_id body of Some d \<Rightarrow> conn_exists d st | None \<Rightarrow> True"
    using that assms(2) unfolding store_wf_def conn_ids_simps by force
  with assms show ?thesis
    by (auto simp: update_task_def split: if_splits option.splits)
qed

lemma delete_task_wf: "delete_task ok i st = (r, st') \<Longrightarrow> store_wf st \<Longrightarrow> store_wf st'"
  by (auto simp: delete_task_def store_wf_def distinct_map_filter split: if_splits)

lemma save_query_wf:
  assumes "save_query jl io cl title sql tags st = (r, st')" "store_wf st"
  shows "store_wf st'"
proof -
  have "distinct (map sq_id (as_queries st @ [query_row jl io cl title sql tags]))" if "\<not> list_ex (\<lambda>q. sq_id q = tio_id io) (as_queries st)"
    using that assms(2) by (auto simp: list_ex_iff store_wf_def)
  then show ?thesis
    using assms by (auto simp: save_query_def store_wf_def split: if_splits)
qed

lemma delete_saved_query_wf: "delete_saved_query ok cl i st = (r, st') \<Longrightarrow> store_wf st \<Longrightarrow> store_wf st'"
  by (auto simp: delete_saved_query_def store_wf_def distinct_map_filter split: if_splits option.splits)

end
