(* ===== verification/Ddl_Approvals.thy ===== *)
theory Ddl_Approvals
  imports Automation_Store Sql_Split Text_Case
begin

text \<open>
  Approval and execution of DDL: the approval handlers of \<open>crates/automation/src/handler.rs\<close>, the
  executor of \<open>crates/automation/src/db_handler.rs\<close>, and the statements by which
  \<open>crates/mcp/src/write.rs\<close> works on the same table.

  Every handler is cut at its database statements, because other requests come in between: a load, a
  conditional update that claims the approval, the execution, and the final update. The step relation
  at the end interleaves any number of requests at these points.
\<close>

section \<open>The executor\<close>

definition ddl_keywords :: "string list" where
  "ddl_keywords = [''CREATE'', ''ALTER'', ''DROP'', ''TRUNCATE'', ''RENAME'']"

definition is_ddl_statement :: "string \<Rightarrow> bool" where
  "is_ddl_statement sql = list_ex (\<lambda>k. starts_with k (to_uppercase (trim_start sql))) ddl_keywords"

definition mysql_family_members :: "string list" where
  "mysql_family_members = [''mysql'', ''doris'', ''oceanbase'', ''tidb'', ''starrocks'', ''mariadb'']"

datatype db_backend = MysqlFamily string | PostgresBackend | SqliteBackend | ClickhouseBackend | SqlServerBackend

definition backend_for :: "string \<Rightarrow> string + db_backend" where
  "backend_for db_type =
     (let t = map to_ascii_lower db_type in
      if t \<in> set mysql_family_members then Inr (MysqlFamily t)
      else if t \<in> {''postgres'', ''postgresql'', ''pg''} then Inr PostgresBackend
      else if t = ''sqlite'' then Inr SqliteBackend
      else if t = ''clickhouse'' then Inr ClickhouseBackend
      else if t \<in> {''sqlserver'', ''mssql''} then Inr SqlServerBackend
      else Inl (''unsupported db_type: '' @ t))"

definition cred_error_str :: "credential_error \<Rightarrow> string" where
  "cred_error_str e = (case e of UnknownFormat \<Rightarrow> ''unknown credential format''
     | Malformed \<Rightarrow> ''malformed v1 credential'' | DecryptFailed \<Rightarrow> ''credential decryption failed'')"

text \<open>
  The server's own queries: what the load of the row says when it fails, and whether the guard query
  answers. The target: the error of a statement after those already executed, whose message may be absent.
\<close>

record ddl_env =
  de_load_error :: "string option"
  de_guard_ok :: bool
  de_answer :: "string list \<Rightarrow> string \<Rightarrow> (string option) option"

definition load_and_decrypt_key :: "crypto \<Rightarrow> nat list \<Rightarrow> string option \<Rightarrow> db_connection list \<Rightarrow> string \<Rightarrow>
    string + (db_connection \<times> string)" where
  "load_and_decrypt_key cr key load_error conns i =
     (case load_error of
       Some e \<Rightarrow> Inl e
     | None \<Rightarrow>
         (case find_conn i conns of
           None \<Rightarrow> Inl (''connection '' @ i @ '' not found'')
         | Some c \<Rightarrow>
             (case decrypt_password cr key (dc_password_encrypted c) of
               Inl e \<Rightarrow> Inl (cred_error_str e)
             | Inr pw \<Rightarrow> Inr (c, pw))))"

fun ddl_check :: "string list \<Rightarrow> string + unit" where
  "ddl_check [] = Inr ()"
| "ddl_check (stmt # stmts) =
     (let s = trim stmt in
      if s = [] then ddl_check stmts
      else if \<not> is_ddl_statement s
      then Inl (''rejected non-DDL statement (only CREATE/ALTER/DROP/TRUNCATE/RENAME allowed): '' @ db_redact s)
      else ddl_check stmts)"

fun ddl_run :: "(string list \<Rightarrow> string \<Rightarrow> (string option) option) \<Rightarrow> string list \<Rightarrow> string list \<Rightarrow> (string + unit) \<times> string list" where
  "ddl_run answer [] sent = (Inr (), sent)"
| "ddl_run answer (stmt # stmts) sent =
     (let s = trim stmt in
      if s = [] then ddl_run answer stmts sent
      else case answer sent s of
          None \<Rightarrow> ddl_run answer stmts (sent @ [s])
        | Some msg \<Rightarrow> (Inl (db_redact (case msg of Some m \<Rightarrow> m | None \<Rightarrow> ''execution failed'')), sent @ [s]))"

text \<open>The second look at the row; a query that fails lets the execution go on.\<close>

definition ddl_guard :: "ddl_env \<Rightarrow> db_connection list \<Rightarrow> string \<Rightarrow> string option" where
  "ddl_guard env conns target_db_id =
     (case (if de_guard_ok env then find_conn target_db_id conns else None) of
       Some g \<Rightarrow>
         if dc_read_only g then Some ''target connection is read-only''
         else if dc_kind g = ''source_drift'' then Some ''cannot execute DDL on a source_drift connection''
         else None
     | None \<Rightarrow> None)"

text \<open>The result, with the statements the target was sent. The splitter returns on every script.\<close>

definition execute_ddl_on_target_with_key :: "crypto \<Rightarrow> nat list \<Rightarrow> ddl_env \<Rightarrow> db_connection list \<Rightarrow> string \<Rightarrow> string \<Rightarrow>
    (string + unit) \<times> string list" where
  "execute_ddl_on_target_with_key cr key env conns target_db_id ddl_sql =
     (case load_and_decrypt_key cr key (de_load_error env) conns target_db_id of
       Inl e \<Rightarrow> (Inl e, [])
     | Inr (conn, password) \<Rightarrow>
         if map to_ascii_lower (dc_db_type conn) = ''clickhouse''
         then (Inl ''ClickHouse does not support transactional DDL execution'', [])
         else
         (case ddl_guard env conns target_db_id of
           Some e \<Rightarrow> (Inl e, [])
         | None \<Rightarrow>
             (case backend_for (dc_db_type conn) of
               Inl e \<Rightarrow> (Inl e, [])
             | Inr backend \<Rightarrow>
                 let statements = (case split_sql_script ddl_sql of Some ss \<Rightarrow> ss | None \<Rightarrow> []) in
                 (case ddl_check statements of
                   Inl e \<Rightarrow> (Inl e, [])
                 | Inr _ \<Rightarrow> ddl_run (de_answer env) statements []))))"

section \<open>The approval table\<close>

definition find_approval :: "string \<Rightarrow> ddl_approval list \<Rightarrow> ddl_approval option" where
  "find_approval i aps = find (\<lambda>a. ap_id a = i) aps"

definition new_approval :: "string \<Rightarrow> string \<Rightarrow> string \<Rightarrow> string \<Rightarrow> string \<Rightarrow> ddl_approval" where
  "new_approval i submitter sql target now =
     \<lparr>ap_id = i, ap_submitter_id = submitter, ap_ddl_sql = sql, ap_target_db_id = target, ap_reviewer_id = None,
      ap_status = ''pending'', ap_created_at = now, ap_resolved_at = None, ap_exec_status = ''pending'',
      ap_executed_at = None, ap_exec_error = None\<rparr>"

text \<open>The insert of both entrances: it fails on a known identifier or an unknown connection.\<close>

definition insert_approval :: "bool \<Rightarrow> ddl_approval \<Rightarrow> auto_store \<Rightarrow> auto_store option" where
  "insert_approval ok a st =
     (if \<not> ok \<or> find_approval (ap_id a) (as_approvals st) \<noteq> None \<or> \<not> conn_exists (ap_target_db_id a) st then None
      else Some (st\<lparr>as_approvals := as_approvals st @ [a]\<rparr>))"

definition submit_approval :: "task_io \<Rightarrow> claims \<Rightarrow> string \<Rightarrow> string \<Rightarrow> auto_store \<Rightarrow> string api \<times> auto_store" where
  "submit_approval io cl ddl_sql target_db_id st =
     (if is_gated (as_entitlement st) then (gated_answer, st)
      else case insert_approval (tio_ok io 0) (new_approval (tio_id io) (cl_sub cl) ddl_sql target_db_id (tio_now io)) st of
          None \<Rightarrow> (ApiErr 200 ''SUBMIT_FAILED'', st)
        | Some st' \<Rightarrow> (ApiOk 200 (tio_id io), st'))"

definition list_approvals :: "bool \<Rightarrow> auto_store \<Rightarrow> ddl_approval list api" where
  "list_approvals ok st = (if ok then ApiOk 200 (rev (sort_key (\<lambda>a. ap_created_at a) (as_approvals st))) else ApiErr 200 ''DB_ERROR'')"

definition upd_approval :: "(ddl_approval \<Rightarrow> bool) \<Rightarrow> (ddl_approval \<Rightarrow> ddl_approval) \<Rightarrow> ddl_approval list \<Rightarrow> ddl_approval list" where
  "upd_approval p f aps = map (\<lambda>a. if p a then f a else a) aps"

text \<open>Approving: the load with its guard, the claim, and what the spawned task writes at its end.\<close>

definition approve_load :: "bool \<Rightarrow> string \<Rightarrow> auto_store \<Rightarrow> (string \<times> string) api" where
  "approve_load ok i st =
     (if is_gated (as_entitlement st) then gated_answer
      else if \<not> ok then ApiErr 500 ''DB_ERROR''
      else case find_approval i (as_approvals st) of
          None \<Rightarrow> ApiErr 404 ''APPROVAL_NOT_FOUND''
        | Some a \<Rightarrow> if ap_status a \<noteq> ''pending'' then ApiErr 409 ''ALREADY_RESOLVED'' else ApiOk 200 (ap_ddl_sql a, ap_target_db_id a))"

definition approve_claim :: "bool \<Rightarrow> string \<Rightarrow> string \<Rightarrow> string \<Rightarrow> ddl_approval list \<Rightarrow> unit api \<times> ddl_approval list" where
  "approve_claim ok now reviewer i aps =
     (if \<not> ok then (ApiErr 500 ''DB_ERROR'', aps)
      else let hit = (\<lambda>a. ap_id a = i \<and> ap_status a = ''pending'') in
      if list_ex hit aps
      then (ApiOk 200 (), upd_approval hit (\<lambda>a. a\<lparr>ap_status := ''executing'', ap_exec_status := ''executing'',
              ap_reviewer_id := Some reviewer, ap_resolved_at := Some now, ap_executed_at := Some now\<rparr>) aps)
      else (ApiErr 409 ''CONFLICT'', aps))"

text \<open>The last update is the same for both entrances; where it fails the row keeps its state.\<close>

definition finish_exec :: "bool \<Rightarrow> string \<Rightarrow> string + unit \<Rightarrow> ddl_approval list \<Rightarrow> ddl_approval list" where
  "finish_exec ok i result aps =
     (if \<not> ok then aps
      else case result of
          Inr _ \<Rightarrow> upd_approval (\<lambda>a. ap_id a = i) (\<lambda>a. a\<lparr>ap_status := ''approved'', ap_exec_status := ''approved''\<rparr>) aps
        | Inl err \<Rightarrow> upd_approval (\<lambda>a. ap_id a = i)
            (\<lambda>a. a\<lparr>ap_status := ''failed'', ap_exec_status := ''failed'', ap_exec_error := Some err\<rparr>) aps)"

text \<open>The row the spawned task leaves in the credential audit, best effort.\<close>

record cred_audit_row =
  cau_connection_id :: string
  cau_action :: string
  cau_status :: string
  cau_error :: "string option"
  cau_triggered_by :: string

definition ddl_audit_row :: "string \<Rightarrow> string + unit \<Rightarrow> string \<Rightarrow> cred_audit_row" where
  "ddl_audit_row target result reviewer =
     \<lparr>cau_connection_id = target, cau_action = ''ddl_execute'', cau_status = (case result of Inr _ \<Rightarrow> ''ok'' | Inl _ \<Rightarrow> ''error''),
      cau_error = (case result of Inr _ \<Rightarrow> None | Inl e \<Rightarrow> Some e), cau_triggered_by = reviewer\<rparr>"

text \<open>Rejecting has no guard on the state.\<close>

definition reject_approval :: "bool \<Rightarrow> string \<Rightarrow> string \<Rightarrow> auto_store \<Rightarrow> unit api \<times> auto_store" where
  "reject_approval ok now i st =
     (if is_gated (as_entitlement st) then (gated_answer, st)
      else (ApiOk 200 (),
        if ok then st\<lparr>as_approvals := upd_approval (\<lambda>a. ap_id a = i)
               (\<lambda>a. a\<lparr>ap_status := ''rejected'', ap_resolved_at := Some now\<rparr>) (as_approvals st)\<rparr>
        else st))"

text \<open>The claim of \<open>execute_write\<close>.\<close>

definition execute_claim :: "bool \<Rightarrow> string \<Rightarrow> string \<Rightarrow> ddl_approval list \<Rightarrow> (string + bool) \<times> ddl_approval list" where
  "execute_claim ok now i aps =
     (if \<not> ok then (Inl ''EXECUTE_FAILED: could not claim the approval for execution'', aps)
      else let hit = (\<lambda>a. ap_id a = i \<and> ap_exec_status a = ''pending'') in
      (Inr (list_ex hit aps),
       upd_approval hit (\<lambda>a. a\<lparr>ap_exec_status := ''executing'', ap_executed_at := Some now\<rparr>) aps))"

section \<open>What reaches the target\<close>

lemma ddl_check_all:
  "ddl_check stmts = Inr u \<Longrightarrow> s \<in> set stmts \<Longrightarrow> trim s \<noteq> [] \<Longrightarrow> is_ddl_statement (trim s)"
  by (induction stmts) (auto simp: Let_def split: if_splits)

lemma ddl_run_prefix:
  assumes "\<And>s. s \<in> set stmts \<Longrightarrow> s \<noteq> [] \<and> trim s = s"
  shows "ddl_run answer stmts sent = (r, sent') \<Longrightarrow>
    \<exists>n. sent' = sent @ take n stmts \<and> (r = Inr () \<longrightarrow> length stmts \<le> n)"
  using assms
proof (induction stmts arbitrary: sent)
  case (Cons s stmts)
  have s: "s \<noteq> []" "trim s = s" using Cons.prems(2) by auto
  show ?case
  proof (cases "answer sent s")
    case None
    with Cons.prems s obtain n where "sent' = (sent @ [s]) @ take n stmts" "r = Inr () \<longrightarrow> length stmts \<le> n"
      using Cons.IH [of "sent @ [s]"] by auto
    then show ?thesis by (intro exI [of _ "Suc n"]) simp
  next
    case (Some msg)
    with Cons.prems s show ?thesis by (intro exI [of _ 1]) auto
  qed
qed simp

lemma execute_ddl_sends:
  assumes "execute_ddl_on_target_with_key cr key env conns target sql = (r, sent)" "sent \<noteq> [] \<or> r = Inr ()"
  obtains conn pw backend stmts where
    "find_conn target conns = Some conn" "decrypt_password cr key (dc_password_encrypted conn) = Inr pw"
    "backend_for (dc_db_type conn) = Inr backend" "backend \<noteq> ClickhouseBackend" "ddl_guard env conns target = None"
    "split_sql_script sql = Some stmts" "ddl_check stmts = Inr ()" "ddl_run (de_answer env) stmts [] = (r, sent)"
proof -
  obtain conn pw where load: "load_and_decrypt_key cr key (de_load_error env) conns target = Inr (conn, pw)"
    using assms by (cases "load_and_decrypt_key cr key (de_load_error env) conns target")
      (auto simp: execute_ddl_on_target_with_key_def)
  note eq = assms(1) [unfolded execute_ddl_on_target_with_key_def load sum.case prod.case]
  have ch: "map to_ascii_lower (dc_db_type conn) \<noteq> ''clickhouse''"
    using eq assms(2) by (auto split: if_splits)
  have guard: "ddl_guard env conns target = None"
    using eq ch assms(2) by (auto split: option.splits)
  obtain backend where backend: "backend_for (dc_db_type conn) = Inr backend"
    using eq ch guard assms(2) by (cases "backend_for (dc_db_type conn)") auto
  obtain stmts where stmts: "split_sql_script sql = Some stmts"
    using split_sql_script_total [of sql] by blast
  have run: "ddl_check stmts = Inr ()" "ddl_run (de_answer env) stmts [] = (r, sent)"
    using eq ch guard backend stmts assms(2) by (auto simp: Let_def split: sum.splits)
  have "find_conn target conns = Some conn" "decrypt_password cr key (dc_password_encrypted conn) = Inr pw"
    using load by (auto simp: load_and_decrypt_key_def split: option.splits sum.splits)
  moreover have "backend \<noteq> ClickhouseBackend"
    using backend ch by (auto simp: backend_for_def Let_def split: if_splits)
  ultimately show ?thesis using that backend guard stmts run by blast
qed

text \<open>
  C40. Only DDL reaches a target: what the executor sends is a prefix, in order, of the statements of the
  script, each beginning with one of the five keywords, and the whole script when it reports success;
  nothing is sent to a ClickHouse, read-only or source-drift connection or when one statement is not DDL.
\<close>

theorem only_ddl_reaches_target:
  assumes "execute_ddl_on_target_with_key cr key env conns target sql = (r, sent)" "sent \<noteq> [] \<or> r = Inr ()"
  shows "\<exists>conn stmts n. find_conn target conns = Some conn \<and> map to_ascii_lower (dc_db_type conn) \<noteq> ''clickhouse'' \<and>
    (de_guard_ok env \<longrightarrow> \<not> dc_read_only conn \<and> dc_kind conn \<noteq> ''source_drift'') \<and>
    split_sql_script sql = Some stmts \<and> (\<forall>s \<in> set stmts. is_ddl_statement s) \<and>
    sent = take n stmts \<and> (r = Inr () \<longrightarrow> sent = stmts)"
proof -
  obtain conn pw backend stmts where c: "find_conn target conns = Some conn" "backend_for (dc_db_type conn) = Inr backend"
      "backend \<noteq> ClickhouseBackend" "ddl_guard env conns target = None" "split_sql_script sql = Some stmts"
      "ddl_check stmts = Inr ()" "ddl_run (de_answer env) stmts [] = (r, sent)"
    using assms by (rule execute_ddl_sends) blast
  have clean: "s \<noteq> [] \<and> trim s = s" if "s \<in> set stmts" for s
    using c(5) that by (rule split_sql_script_clean)
  obtain n where n: "sent = take n stmts" "r = Inr () \<longrightarrow> length stmts \<le> n"
    using ddl_run_prefix [OF clean c(7)] by auto
  have "\<forall>s \<in> set stmts. is_ddl_statement s"
    using ddl_check_all [OF c(6)] clean by metis
  moreover have "map to_ascii_lower (dc_db_type conn) \<noteq> ''clickhouse''"
    using c(2,3) by (auto simp: backend_for_def Let_def mysql_family_members_def split: if_splits)
  moreover have "de_guard_ok env \<longrightarrow> \<not> dc_read_only conn \<and> dc_kind conn \<noteq> ''source_drift''"
    using c(1,4) by (auto simp: ddl_guard_def split: if_splits)
  moreover have "r = Inr () \<longrightarrow> sent = stmts" using n by simp
  ultimately show ?thesis using c(1,5) n(1) by blast
qed

section \<open>Interleaved requests\<close>

text \<open>
  A request between two of its statements: a reviewer that has loaded a pending approval, an agent that
  has loaded an approved one, and an execution that has been claimed. \<open>ax_log\<close> lists the executions in
  the order they began, with the text that is run.
\<close>

datatype appr_job =
    ApproveLoaded string string string
  | ExecuteLoaded string string
  | RunningDdl string

record appr_state =
  ax_store :: auto_store
  ax_jobs :: "appr_job list"
  ax_log :: "(string \<times> string) list"

definition set_aps :: "ddl_approval list \<Rightarrow> appr_state \<Rightarrow> appr_state" where
  "set_aps aps x = x\<lparr>ax_store := (ax_store x)\<lparr>as_approvals := aps\<rparr>\<rparr>"

abbreviation ax_aps :: "appr_state \<Rightarrow> ddl_approval list" where
  "ax_aps x \<equiv> as_approvals (ax_store x)"

inductive appr_step :: "appr_state \<Rightarrow> appr_state \<Rightarrow> bool" where
  submit: "submit_approval io cl sql target (ax_store x) = (r, st') \<Longrightarrow> appr_step x (x\<lparr>ax_store := st'\<rparr>)"
| submit_write: "insert_approval ok (new_approval i submitter sql target now) (ax_store x) = Some st' \<Longrightarrow>
    appr_step x (x\<lparr>ax_store := st'\<rparr>)"
| approve_load: "approve_load ok i (ax_store x) = ApiOk 200 (sql, target) \<Longrightarrow>
    appr_step x (x\<lparr>ax_jobs := ApproveLoaded i sql reviewer # ax_jobs x\<rparr>)"
| approve_claim: "ApproveLoaded i sql reviewer \<in> set (ax_jobs x) \<Longrightarrow>
    approve_claim ok now reviewer i (ax_aps x) = (ApiOk 200 (), aps) \<Longrightarrow>
    appr_step x (set_aps aps x\<lparr>ax_jobs := RunningDdl i # remove1 (ApproveLoaded i sql reviewer) (ax_jobs x),
      ax_log := ax_log x @ [(i, sql)]\<rparr>)"
| execute_load: "find_approval i (ax_aps x) = Some a \<Longrightarrow> ap_submitter_id a = cl_sub (cl :: claims) \<Longrightarrow> ap_status a = ''approved'' \<Longrightarrow>
    appr_step x (x\<lparr>ax_jobs := ExecuteLoaded i (ap_ddl_sql a) # ax_jobs x\<rparr>)"
| execute_claim: "ExecuteLoaded i sql \<in> set (ax_jobs x) \<Longrightarrow> execute_claim ok now i (ax_aps x) = (Inr True, aps) \<Longrightarrow>
    appr_step x (set_aps aps x\<lparr>ax_jobs := RunningDdl i # remove1 (ExecuteLoaded i sql) (ax_jobs x),
      ax_log := ax_log x @ [(i, sql)]\<rparr>)"
| finish: "RunningDdl i \<in> set (ax_jobs x) \<Longrightarrow>
    appr_step x (set_aps (finish_exec ok i result (ax_aps x)) x\<lparr>ax_jobs := remove1 (RunningDdl i) (ax_jobs x)\<rparr>)"
| give_up: "appr_step x (x\<lparr>ax_jobs := remove1 j (ax_jobs x)\<rparr>)"
| reject: "reject_approval ok now i (ax_store x) = (r, st') \<Longrightarrow> appr_step x (x\<lparr>ax_store := st'\<rparr>)"
| other: "as_approvals st' = ax_aps x \<Longrightarrow> appr_step x (x\<lparr>ax_store := st'\<rparr>)"

definition logged :: "appr_state \<Rightarrow> string set" where
  "logged x = fst ` set (ax_log x)"

lemma logged_simps [simp]:
  "logged (x\<lparr>ax_store := st\<rparr>) = logged x" "logged (x\<lparr>ax_jobs := js\<rparr>) = logged x" "logged (set_aps aps x) = logged x"
  by (simp_all add: logged_def set_aps_def)

text \<open>What every single approval satisfies, whatever the other requests do.\<close>

definition row_ok :: "appr_state \<Rightarrow> ddl_approval \<Rightarrow> bool" where
  "row_ok x a \<longleftrightarrow>
     (ap_status a = ''pending'' \<longrightarrow> ap_exec_status a = ''pending'') \<and>
     (ap_exec_status a = ''pending'' \<longrightarrow> ap_id a \<notin> logged x)"

definition job_ok :: "ddl_approval list \<Rightarrow> appr_job \<Rightarrow> bool" where
  "job_ok aps j \<longleftrightarrow>
     (case j of
       ApproveLoaded i sql reviewer \<Rightarrow> (\<exists>a \<in> set aps. ap_id a = i \<and> ap_ddl_sql a = sql)
     | ExecuteLoaded i sql \<Rightarrow> (\<exists>a \<in> set aps. ap_id a = i \<and> ap_ddl_sql a = sql \<and> ap_status a \<noteq> ''pending'')
     | RunningDdl i \<Rightarrow> True)"

definition appr_inv :: "appr_state \<Rightarrow> bool" where
  "appr_inv x \<longleftrightarrow>
     distinct (map ap_id (ax_aps x)) \<and> (\<forall>a \<in> set (ax_aps x). row_ok x a) \<and> (\<forall>j \<in> set (ax_jobs x). job_ok (ax_aps x) j) \<and>
     distinct (map fst (ax_log x)) \<and>
     (\<forall>(i, sql) \<in> set (ax_log x). \<exists>a \<in> set (ax_aps x). ap_id a = i \<and> ap_ddl_sql a = sql)"

text \<open>Facts about the single statements.\<close>

lemma find_approval_Some: "find_approval i aps = Some a \<Longrightarrow> a \<in> set aps \<and> ap_id a = i"
  by (auto simp: find_approval_def find_Some_iff)

lemma find_approval_None: "find_approval i aps = None \<longleftrightarrow> i \<notin> ap_id ` set aps"
  by (auto simp: find_approval_def find_None_iff)

lemma same_id_same_row: "distinct (map ap_id aps) \<Longrightarrow> a \<in> set aps \<Longrightarrow> b \<in> set aps \<Longrightarrow> ap_id a = ap_id b \<Longrightarrow> a = b"
  by (meson distinct_map inj_onD)

lemma set_aps_simps [simp]:
  "ax_aps (set_aps aps x) = aps" "ax_jobs (set_aps aps x) = ax_jobs x" "ax_log (set_aps aps x) = ax_log x"
  "ax_store (set_aps aps x\<lparr>ax_jobs := js\<rparr>) = ax_store (set_aps aps x)"
  "ax_store (set_aps aps x\<lparr>ax_jobs := js, ax_log := l\<rparr>) = ax_store (set_aps aps x)"
  by (simp_all add: set_aps_def)

lemma insert_approval_Some:
  assumes "insert_approval ok a st = Some st'"
  shows "as_approvals st' = as_approvals st @ [a] \<and> ap_id a \<notin> ap_id ` set (as_approvals st)"
  using assms by (auto simp: insert_approval_def find_approval_None split: if_splits)

lemma submit_approval_cases:
  assumes "submit_approval io cl sql target st = (r, st')"
  obtains "st' = st" | "insert_approval True (new_approval (tio_id io) (cl_sub cl) sql target (tio_now io)) st = Some st'"
  using assms by (auto simp: submit_approval_def insert_approval_def split: if_splits option.splits)

lemma approve_claim_Ok:
  assumes "approve_claim ok now reviewer i aps = (ApiOk 200 (), aps')"
  shows "list_ex (\<lambda>a. ap_id a = i \<and> ap_status a = ''pending'') aps"
    and "aps' = upd_approval (\<lambda>a. ap_id a = i \<and> ap_status a = ''pending'') (\<lambda>a. a\<lparr>ap_status := ''executing'', ap_exec_status := ''executing'',
              ap_reviewer_id := Some reviewer, ap_resolved_at := Some now, ap_executed_at := Some now\<rparr>) aps"
  using assms by (auto simp: approve_claim_def Let_def split: if_splits)

lemma execute_claim_True:
  assumes "execute_claim ok now i aps = (Inr True, aps')"
  shows "list_ex (\<lambda>a. ap_id a = i \<and> ap_exec_status a = ''pending'') aps"
    and "aps' = upd_approval (\<lambda>a. ap_id a = i \<and> ap_exec_status a = ''pending'')
      (\<lambda>a. a\<lparr>ap_exec_status := ''executing'', ap_executed_at := Some now\<rparr>) aps"
  using assms by (auto simp: execute_claim_def Let_def split: if_splits)

definition finish_row :: "bool \<Rightarrow> string \<Rightarrow> string + unit \<Rightarrow> ddl_approval \<Rightarrow> ddl_approval" where
  "finish_row ok i result a =
     (if \<not> ok \<or> ap_id a \<noteq> i then a
      else case result of
          Inr _ \<Rightarrow> a\<lparr>ap_status := ''approved'', ap_exec_status := ''approved''\<rparr>
        | Inl err \<Rightarrow> a\<lparr>ap_status := ''failed'', ap_exec_status := ''failed'', ap_exec_error := Some err\<rparr>)"

lemma finish_exec_map: "finish_exec ok i result aps = map (finish_row ok i result) aps"
proof -
  have "map (finish_row False i result) aps = aps" by (simp add: finish_row_def map_idI)
  then show ?thesis
    by (auto simp: finish_exec_def upd_approval_def finish_row_def split: sum.splits)
qed

lemma reject_approval_cases:
  assumes "reject_approval ok now i st = (r, st')"
  obtains "st' = st" | "st' = st\<lparr>as_approvals := upd_approval (\<lambda>a. ap_id a = i) (\<lambda>a. a\<lparr>ap_status := ''rejected'', ap_resolved_at := Some now\<rparr>) (as_approvals st)\<rparr>"
  using assms by (auto simp: reject_approval_def split: if_splits)

text \<open>Preservation for the two shapes a step has: an update of the rows, or a new row.\<close>

lemma logged_append: "ax_log x' = ax_log x @ l \<Longrightarrow> logged x' = logged x \<union> fst ` set l"
  by (auto simp: logged_def)

lemma job_ok_map:
  assumes "\<And>a. ap_id (g a) = ap_id a \<and> ap_ddl_sql (g a) = ap_ddl_sql a \<and> (ap_status a \<noteq> ''pending'' \<longrightarrow> ap_status (g a) \<noteq> ''pending'')"
    and "job_ok aps j"
  shows "job_ok (map g aps) j"
  using assms by (cases j) (auto simp: job_ok_def)

lemma appr_inv_map:
  assumes inv: "appr_inv x"
    and g: "\<And>a. ap_id (g a) = ap_id a \<and> ap_ddl_sql (g a) = ap_ddl_sql a \<and> (ap_status a \<noteq> ''pending'' \<longrightarrow> ap_status (g a) \<noteq> ''pending'')"
    and aps: "ax_aps x' = map g (ax_aps x)"
    and jobs: "\<And>j. j \<in> set (ax_jobs x') \<Longrightarrow> j \<in> set (ax_jobs x) \<or> job_ok (ax_aps x) j"
    and log: "ax_log x' = ax_log x @ l" "distinct (map fst l)" "fst ` set l \<inter> logged x = {}"
      "\<forall>(i, sql) \<in> set l. \<exists>a \<in> set (ax_aps x). ap_id a = i \<and> ap_ddl_sql a = sql"
    and rows: "\<And>a. a \<in> set (ax_aps x) \<Longrightarrow> row_ok x a \<Longrightarrow> row_ok x' (g a)"
  shows "appr_inv x'"
proof -
  have "map ap_id (ax_aps x') = map ap_id (ax_aps x)" using g by (simp add: aps)
  moreover have "\<forall>a \<in> set (ax_aps x'). row_ok x' a" using rows inv by (auto simp: aps appr_inv_def)
  moreover have "\<forall>j \<in> set (ax_jobs x'). job_ok (ax_aps x') j"
    using jobs inv job_ok_map [OF g] unfolding aps appr_inv_def by metis
  moreover have "distinct (map fst (ax_log x'))"
    using inv log by (auto simp: appr_inv_def logged_def)
  moreover have "\<exists>a \<in> set (ax_aps x'). ap_id a = i \<and> ap_ddl_sql a = sql" if "(i, sql) \<in> set (ax_log x')" for i sql
  proof -
    have "\<exists>a \<in> set (ax_aps x). ap_id a = i \<and> ap_ddl_sql a = sql"
      using that log(1,4) inv by (auto simp: appr_inv_def)
    then show ?thesis using g by (auto simp: aps)
  qed
  ultimately show ?thesis using inv by (auto simp: appr_inv_def)
qed

lemma appr_inv_insert:
  assumes inv: "appr_inv x" and st: "insert_approval ok (new_approval i sub sql target now) (ax_store x) = Some st'"
  shows "appr_inv (x\<lparr>ax_store := st'\<rparr>)"
proof -
  let ?a = "new_approval i sub sql target now"
  have st': "as_approvals st' = ax_aps x @ [?a]" and new: "i \<notin> ap_id ` set (ax_aps x)"
    using insert_approval_Some [OF st] by (auto simp: new_approval_def)
  have "i \<notin> logged x" using new inv by (auto simp: appr_inv_def logged_def)
  then have "row_ok (x\<lparr>ax_store := st'\<rparr>) ?a"
    by (simp add: row_ok_def new_approval_def logged_def)
  moreover have "row_ok (x\<lparr>ax_store := st'\<rparr>) a = row_ok x a" for a
    by (simp add: row_ok_def logged_def)
  moreover have "job_ok (ax_aps x @ [?a]) j" if "job_ok (ax_aps x) j" for j
    using that by (cases j) (auto simp: job_ok_def)
  ultimately show ?thesis
    using inv new st' by (auto simp: appr_inv_def new_approval_def [of i])
qed

lemma in_remove1: "j \<in> set (remove1 k js) \<Longrightarrow> j \<in> set js"
  by (meson notin_set_remove1)

lemma claimed_not_logged:
  assumes "appr_inv x" "a \<in> set (ax_aps x)" "ap_exec_status a = ''pending''"
  shows "ap_id a \<notin> logged x"
  using assms by (auto simp: appr_inv_def row_ok_def)

text \<open>A claim: the only pending row of that identifier leaves the state pending as it is logged.\<close>

lemma appr_inv_claim:
  assumes inv: "appr_inv x" and a0: "a0 \<in> set (ax_aps x)" "hit a0" "ap_ddl_sql a0 = sql" "ap_exec_status a0 = ''pending''"
    and hit: "\<And>a. hit a \<Longrightarrow> ap_id a = i"
    and f: "\<And>a. ap_id (f a) = ap_id a \<and> ap_ddl_sql (f a) = ap_ddl_sql a \<and> (ap_status a \<noteq> ''pending'' \<longrightarrow> ap_status (f a) \<noteq> ''pending'')"
      "ap_exec_status (f a0) \<noteq> ''pending'' \<and> ap_status (f a0) \<noteq> ''pending''"
    and aps: "ax_aps x' = upd_approval hit f (ax_aps x)"
    and jobs: "\<And>j. j \<in> set (ax_jobs x') \<Longrightarrow> j \<in> set (ax_jobs x) \<or> j = RunningDdl i"
    and log: "ax_log x' = ax_log x @ [(i, sql)]"
  shows "appr_inv x'"
proof (rule appr_inv_map [OF inv _ aps [unfolded upd_approval_def] _ log])
  have i: "ap_id a0 = i" using hit a0(2) by simp
  then have "i \<notin> logged x" using claimed_not_logged [OF inv a0(1,4)] by simp
  then show "fst ` set [(i, sql)] \<inter> logged x = {}" by simp
  show "\<forall>(i, sql) \<in> set [(i, sql)]. \<exists>a \<in> set (ax_aps x). ap_id a = i \<and> ap_ddl_sql a = sql"
    using a0 i by auto
  show "row_ok x' (if hit a then f a else a)" if a: "a \<in> set (ax_aps x)" "row_ok x a" for a
  proof (cases "ap_id a = i")
    case True
    have "a = a0" using inv a(1) a0(1) True i same_id_same_row by (auto simp: appr_inv_def)
    with a0(2) f(2) show ?thesis by (auto simp: row_ok_def)
  next
    case False
    with hit [of a] a(2) log show ?thesis by (auto simp: row_ok_def logged_def)
  qed
  show "j \<in> set (ax_jobs x) \<or> job_ok (ax_aps x) j" if "j \<in> set (ax_jobs x')" for j
    using jobs [OF that] by (auto simp: job_ok_def)
qed (use f in auto)

lemma job_row:
  assumes "appr_inv x" "j \<in> set (ax_jobs x)" "j = ApproveLoaded i sql reviewer \<or> j = ExecuteLoaded i sql"
    and "a \<in> set (ax_aps x)" "ap_id a = i"
  shows "ap_ddl_sql a = sql \<and> (j = ExecuteLoaded i sql \<longrightarrow> ap_status a \<noteq> ''pending'')"
proof -
  have "job_ok (ax_aps x) j" using assms(1,2) by (simp add: appr_inv_def)
  then obtain b where b: "b \<in> set (ax_aps x)" "ap_id b = i" "ap_ddl_sql b = sql" "j = ExecuteLoaded i sql \<longrightarrow> ap_status b \<noteq> ''pending''"
    using assms(3) by (auto simp: job_ok_def)
  have "a = b" by (rule same_id_same_row [of "ax_aps x"]) (use assms b in \<open>auto simp: appr_inv_def\<close>)
  with b show ?thesis by simp
qed

lemma appr_step_inv:
  assumes "appr_step x y" "appr_inv x"
  shows "appr_inv y"
  using assms(1)
proof cases
  case (submit io cl sql target r st')
  from submit(2) show ?thesis
    by (cases rule: submit_approval_cases) (use submit(1) assms(2) appr_inv_insert in auto)
next
  case (submit_write ok i sub sql target now st')
  with assms(2) show ?thesis by (simp add: appr_inv_insert)
next
  case (approve_load ok i sql target reviewer)
  then have "job_ok (ax_aps x) (ApproveLoaded i sql reviewer)"
    using find_approval_Some
    by (fastforce simp: approve_load_def gated_answer_def job_ok_def split: if_splits option.splits)
  with approve_load assms(2) show ?thesis by (auto simp: appr_inv_def row_ok_def logged_def)
next
  case (approve_claim i sql reviewer ok now aps)
  note c = approve_claim_Ok [OF approve_claim(3)]
  obtain a0 where a0: "a0 \<in> set (ax_aps x)" "ap_id a0 = i" "ap_status a0 = ''pending''"
    using c(1) by (auto simp: list_ex_iff)
  have "ap_ddl_sql a0 = sql" "ap_exec_status a0 = ''pending''"
    using job_row [OF assms(2) approve_claim(2), of i sql reviewer a0] a0 assms(2) by (auto simp: appr_inv_def row_ok_def)
  moreover have "ax_aps y = aps" "ax_log y = ax_log x @ [(i, sql)]"
    "j \<in> set (ax_jobs y) \<Longrightarrow> j \<in> set (ax_jobs x) \<or> j = RunningDdl i" for j
    using approve_claim(1) by (auto dest: in_remove1)
  ultimately show ?thesis
    using a0 by (intro appr_inv_claim [OF assms(2) a0(1) _ _ _ _ _ _ trans [OF _ c(2)]]) auto
next
  case (execute_load i a cl)
  then have "job_ok (ax_aps x) (ExecuteLoaded i (ap_ddl_sql a))"
    using find_approval_Some [OF execute_load(2)] by (auto simp: job_ok_def)
  with execute_load assms(2) show ?thesis by (auto simp: appr_inv_def row_ok_def logged_def)
next
  case (execute_claim i sql ok now aps)
  note c = execute_claim_True [OF execute_claim(3)]
  obtain a0 where a0: "a0 \<in> set (ax_aps x)" "ap_id a0 = i" "ap_exec_status a0 = ''pending''"
    using c(1) by (auto simp: list_ex_iff)
  have "ap_ddl_sql a0 = sql" "ap_status a0 \<noteq> ''pending''"
    using job_row [OF assms(2) execute_claim(2), of i sql _ a0] a0 by auto
  moreover have "ax_aps y = aps" "ax_log y = ax_log x @ [(i, sql)]"
    "j \<in> set (ax_jobs y) \<Longrightarrow> j \<in> set (ax_jobs x) \<or> j = RunningDdl i" for j
    using execute_claim(1) by (auto dest: in_remove1)
  ultimately show ?thesis
    using a0 by (intro appr_inv_claim [OF assms(2) a0(1) _ _ _ _ _ _ trans [OF _ c(2)]]) auto
next
  case (finish i ok result)
  have "row_ok y (finish_row ok i result a)" if "row_ok x a" for a
    using that finish(1) by (auto simp: row_ok_def finish_row_def logged_def split: sum.splits)
  then show ?thesis
    using finish assms(2)
    by (intro appr_inv_map [of x "finish_row ok i result" y "[]"])
      (auto simp: finish_exec_map finish_row_def logged_def dest: in_remove1 split: sum.splits)
next
  case (give_up j)
  then show ?thesis using assms(2) by (auto simp: appr_inv_def row_ok_def logged_def dest: in_remove1)
next
  case (reject ok now i r st')
  from reject(2) show ?thesis
  proof (cases rule: reject_approval_cases)
    case 2
    show ?thesis
      by (rule appr_inv_map [OF assms(2), of "\<lambda>a. if ap_id a = i then a\<lparr>ap_status := ''rejected'', ap_resolved_at := Some now\<rparr> else a" y "[]"])
        (use reject 2 in \<open>auto simp: upd_approval_def row_ok_def logged_def\<close>)
  qed (use reject assms(2) in simp)
next
  case (other st')
  with assms(2) show ?thesis by (simp add: appr_inv_def row_ok_def logged_def)
qed

lemma appr_steps_inv: "appr_step\<^sup>*\<^sup>* x y \<Longrightarrow> appr_inv x \<Longrightarrow> appr_inv y"
  by (induction rule: rtranclp_induct) (auto intro: appr_step_inv)

text \<open>A server that starts on a table: no request under way, rows pending or not, as migration 009 left them.\<close>

definition appr_start :: "appr_state \<Rightarrow> bool" where
  "appr_start x \<longleftrightarrow> ax_jobs x = [] \<and> ax_log x = [] \<and> distinct (map ap_id (ax_aps x)) \<and>
     (\<forall>a \<in> set (ax_aps x). ap_status a = ''pending'' \<longrightarrow> ap_exec_status a = ''pending'')"

lemma appr_start_inv: "appr_start x \<Longrightarrow> appr_inv x"
  by (auto simp: appr_start_def appr_inv_def row_ok_def logged_def)

text \<open>
  C4. However reviewers, agents, rejections and failures interleave, the DDL of one approval begins to
  execute at most once, and what is executed is the text that was submitted under that approval.
\<close>

theorem ddl_executes_at_most_once:
  assumes "appr_start x" "appr_step\<^sup>*\<^sup>* x y"
  shows "distinct (map fst (ax_log y)) \<and>
    (\<forall>(i, sql) \<in> set (ax_log y). \<exists>a \<in> set (ax_aps y). ap_id a = i \<and> ap_ddl_sql a = sql)"
  using appr_steps_inv [OF assms(2) appr_start_inv [OF assms(1)]] by (simp add: appr_inv_def)

subsection \<open>From an empty table\<close>

text \<open>
  Rows that only this code has written: execution is claimed by a reviewer, and an approved row has
  been executed.
\<close>

definition fresh_row :: "appr_state \<Rightarrow> ddl_approval \<Rightarrow> bool" where
  "fresh_row x a \<longleftrightarrow>
     (ap_exec_status a \<noteq> ''pending'' \<longrightarrow> ap_reviewer_id a \<noteq> None \<and> ap_id a \<in> logged x) \<and>
     (ap_status a = ''approved'' \<longrightarrow> ap_exec_status a \<noteq> ''pending'')"

definition fresh_job :: "appr_state \<Rightarrow> appr_job \<Rightarrow> bool" where
  "fresh_job x j \<longleftrightarrow> (case j of ApproveLoaded i sql reviewer \<Rightarrow> True | ExecuteLoaded i sql \<Rightarrow> i \<in> logged x | RunningDdl i \<Rightarrow> i \<in> logged x)"

definition appr_fresh :: "appr_state \<Rightarrow> bool" where
  "appr_fresh x \<longleftrightarrow> appr_inv x \<and> (\<forall>a \<in> set (ax_aps x). fresh_row x a) \<and> (\<forall>j \<in> set (ax_jobs x). fresh_job x j)"

lemma fresh_simps [simp]:
  "fresh_job (x\<lparr>ax_store := st\<rparr>) j = fresh_job x j" "fresh_job (x\<lparr>ax_jobs := js\<rparr>) j = fresh_job x j"
  "fresh_row (x\<lparr>ax_store := st\<rparr>) a = fresh_row x a" "fresh_row (x\<lparr>ax_jobs := js\<rparr>) a = fresh_row x a"
  by (cases j; simp add: fresh_job_def fresh_row_def)+

lemma fresh_row_logged: "appr_fresh x \<Longrightarrow> a \<in> set (ax_aps x) \<Longrightarrow> ap_id a \<in> logged x \<longleftrightarrow> ap_exec_status a \<noteq> ''pending''"
  by (auto simp: appr_fresh_def fresh_row_def appr_inv_def row_ok_def)

lemma appr_fresh_map:
  assumes fresh: "appr_fresh x" and inv: "appr_inv x'"
    and aps: "ax_aps x' = map g (ax_aps x)" and log: "logged x \<subseteq> logged x'"
    and jobs: "\<And>j. j \<in> set (ax_jobs x') \<Longrightarrow> j \<in> set (ax_jobs x) \<or> fresh_job x' j"
    and rows: "\<And>a. a \<in> set (ax_aps x) \<Longrightarrow> fresh_row x a \<Longrightarrow> fresh_row x' (g a)"
  shows "appr_fresh x'"
proof -
  have "fresh_job x' j" if "fresh_job x j" for j
    using that log by (cases j) (auto simp: fresh_job_def)
  with fresh jobs have "\<forall>j \<in> set (ax_jobs x'). fresh_job x' j" by (auto simp: appr_fresh_def)
  moreover have "\<forall>a \<in> set (ax_aps x'). fresh_row x' a"
    using fresh rows by (auto simp: aps appr_fresh_def)
  ultimately show ?thesis using inv by (simp add: appr_fresh_def)
qed

lemma execute_claim_impossible:
  assumes "appr_fresh x" "ExecuteLoaded i sql \<in> set (ax_jobs x)"
  shows "fst (execute_claim ok now i (ax_aps x)) \<noteq> Inr True"
proof -
  have "i \<in> logged x" using assms by (auto simp: appr_fresh_def fresh_job_def)
  then have "\<not> list_ex (\<lambda>a. ap_id a = i \<and> ap_exec_status a = ''pending'') (ax_aps x)"
    using fresh_row_logged [OF assms(1)] by (auto simp: list_ex_iff)
  then show ?thesis by (simp add: execute_claim_def Let_def)
qed

lemma fresh_row_new: "fresh_row x (new_approval i sub sql target now)"
  by (simp add: fresh_row_def new_approval_def)

lemma appr_step_fresh:
  assumes "appr_step x y" "appr_fresh x"
  shows "appr_fresh y"
proof -
  have inv: "appr_inv y" using assms appr_step_inv by (auto simp: appr_fresh_def)
  have insert: "appr_fresh (x\<lparr>ax_store := st'\<rparr>)"
    if "insert_approval ok (new_approval i sub sql target now) (ax_store x) = Some st'" for ok i sub sql target now st'
  proof -
    have "as_approvals st' = ax_aps x @ [new_approval i sub sql target now]"
      using insert_approval_Some [OF that] by simp
    moreover have "appr_inv (x\<lparr>ax_store := st'\<rparr>)" using assms(2) that appr_inv_insert by (auto simp: appr_fresh_def)
    ultimately show ?thesis
      using assms(2) fresh_row_new by (auto simp: appr_fresh_def)
  qed
  from assms(1) show ?thesis
  proof cases
    case (submit io cl sql target r st')
    from submit(2) show ?thesis
      by (cases rule: submit_approval_cases) (use submit(1) assms(2) insert in auto)
  next
    case (submit_write ok i sub sql target now st')
    then show ?thesis using insert by simp
  next
    case (approve_load ok i sql target reviewer)
    then show ?thesis
      using inv assms(2) by (auto simp: appr_fresh_def fresh_job_def [of _ "ApproveLoaded _ _ _"])
  next
    case (approve_claim i sql reviewer ok now aps)
    note c = approve_claim_Ok [OF approve_claim(3)]
    have log: "logged y = insert i (logged x)" and aps: "ax_aps y = aps"
      using approve_claim(1) by (auto simp: logged_def)
    show ?thesis
    proof (rule appr_fresh_map [OF assms(2) inv trans [OF aps c(2) [unfolded upd_approval_def]]])
      show "fresh_row y (if ap_id a = i \<and> ap_status a = ''pending'' then a\<lparr>ap_status := ''executing'', ap_exec_status := ''executing'',
              ap_reviewer_id := Some reviewer, ap_resolved_at := Some now, ap_executed_at := Some now\<rparr> else a)" if "fresh_row x a" for a
        using that by (auto simp: fresh_row_def log)
    qed (use approve_claim(1) log in \<open>auto simp: fresh_job_def dest: in_remove1\<close>)
  next
    case (execute_load i a cl)
    have "i \<in> logged x"
      using fresh_row_logged [OF assms(2)] find_approval_Some [OF execute_load(2)] execute_load(4) assms(2)
      by (auto simp: appr_fresh_def fresh_row_def)
    then show ?thesis
      using inv assms(2) execute_load(1) by (auto simp: appr_fresh_def fresh_job_def [of _ "ExecuteLoaded _ _"])
  next
    case (execute_claim i sql ok now aps)
    then show ?thesis using execute_claim_impossible [OF assms(2) execute_claim(2), of ok now] by simp
  next
    case (finish i ok result)
    have "i \<in> logged x" using finish(2) assms(2) by (auto simp: appr_fresh_def fresh_job_def)
    then have rows: "fresh_row y (finish_row ok i result a)" if "a \<in> set (ax_aps x)" "fresh_row x a" for a
      using that finish(1) fresh_row_logged [OF assms(2) that(1)]
      by (auto simp: fresh_row_def finish_row_def logged_def split: sum.splits)
    show ?thesis
      by (rule appr_fresh_map [OF assms(2) inv, of "finish_row ok i result"])
        (use finish rows in \<open>auto simp: finish_exec_map logged_def dest: in_remove1\<close>)
  next
    case (give_up j)
    then show ?thesis
      using inv assms(2) by (auto simp: appr_fresh_def dest: in_remove1)
  next
    case (reject ok now i r st')
    from reject(2) show ?thesis
    proof (cases rule: reject_approval_cases)
      case 2
      show ?thesis
        by (rule appr_fresh_map [OF assms(2) inv,
              of "\<lambda>a. if ap_id a = i then a\<lparr>ap_status := ''rejected'', ap_resolved_at := Some now\<rparr> else a"])
          (use reject 2 in \<open>auto simp: upd_approval_def fresh_row_def logged_def\<close>)
    qed (use reject assms(2) in simp)
  next
    case (other st')
    with assms(2) inv show ?thesis by (simp add: appr_fresh_def)
  qed
qed

lemma appr_steps_fresh: "appr_step\<^sup>*\<^sup>* x y \<Longrightarrow> appr_fresh x \<Longrightarrow> appr_fresh y"
  by (induction rule: rtranclp_induct) (auto intro: appr_step_fresh)

definition appr_empty :: "appr_state \<Rightarrow> bool" where
  "appr_empty x \<longleftrightarrow> ax_jobs x = [] \<and> ax_log x = [] \<and> ax_aps x = []"

lemma appr_empty_fresh: "appr_empty x \<Longrightarrow> appr_fresh x"
  by (auto simp: appr_empty_def appr_fresh_def appr_inv_def row_ok_def logged_def)

text \<open>
  No DDL without a reviewer: from an empty table on, every execution that began belongs to an
  approval whose row names the reviewer that claimed it.
\<close>

theorem ddl_needs_reviewer:
  assumes "appr_empty x" "appr_step\<^sup>*\<^sup>* x y" "(i, sql) \<in> set (ax_log y)"
  shows "\<exists>a \<in> set (ax_aps y). ap_id a = i \<and> ap_ddl_sql a = sql \<and> ap_reviewer_id a \<noteq> None"
proof -
  have y: "appr_fresh y" using assms(1,2) appr_empty_fresh appr_steps_fresh by blast
  then obtain a where a: "a \<in> set (ax_aps y)" "ap_id a = i" "ap_ddl_sql a = sql"
    using assms(3) by (auto simp: appr_fresh_def appr_inv_def)
  moreover have "ap_id a \<in> logged y" using assms(3) a(2) by (auto simp: logged_def rev_image_eqI)
  ultimately show ?thesis
    using y fresh_row_logged [OF y a(1)] by (auto simp: appr_fresh_def fresh_row_def)
qed

text \<open>
  The agent's \<open>execute_write\<close> never executes: on rows this code has written its claim always comes too
  late, because approving executes at once.
\<close>

lemma execute_write_never_claims:
  assumes "appr_empty x" "appr_step\<^sup>*\<^sup>* x y" "ExecuteLoaded i sql \<in> set (ax_jobs y)"
  shows "fst (execute_claim ok now i (ax_aps y)) \<noteq> Inr True"
  using assms appr_empty_fresh appr_steps_fresh execute_claim_impossible by blast

text \<open>A rejected approval whose execution has not begun.\<close>

definition rejected_idle :: "string \<Rightarrow> appr_state \<Rightarrow> bool" where
  "rejected_idle i x \<longleftrightarrow> i \<notin> logged x \<and> (\<exists>a \<in> set (ax_aps x). ap_id a = i) \<and>
     (\<forall>a \<in> set (ax_aps x). ap_id a = i \<longrightarrow> ap_status a = ''rejected'')"

lemma rejected_idle_map:
  assumes "rejected_idle i x" "ax_aps x' = map g (ax_aps x)" "i \<notin> logged x'"
    and "\<And>a. ap_id (g a) = ap_id a" "\<And>a. ap_id a = i \<Longrightarrow> ap_status a = ''rejected'' \<Longrightarrow> ap_status (g a) = ''rejected''"
  shows "rejected_idle i x'"
  using assms by (auto simp: rejected_idle_def)

lemma rejected_idle_insert:
  assumes "rejected_idle i x" "insert_approval ok (new_approval j sub sql target now) (ax_store x) = Some st'"
  shows "rejected_idle i (x\<lparr>ax_store := st'\<rparr>)"
  using assms(1) insert_approval_Some [OF assms(2)]
  by (auto simp: rejected_idle_def new_approval_def rev_image_eqI)

lemma rejected_idle_step:
  assumes "appr_step x y" "appr_fresh x" "rejected_idle i x"
  shows "rejected_idle i y"
  using assms(1)
proof cases
  case (submit io cl sql target r st')
  from submit(2) show ?thesis
    by (cases rule: submit_approval_cases) (use submit(1) assms(3) rejected_idle_insert in auto)
next
  case (submit_write ok j sub sql target now st')
  with assms(3) show ?thesis by (simp add: rejected_idle_insert)
next
  case (approve_claim j sql reviewer ok now aps)
  note c = approve_claim_Ok [OF approve_claim(3)]
  have "j \<noteq> i" using c(1) assms(3) by (auto simp: list_ex_iff rejected_idle_def)
  show ?thesis
    by (rule rejected_idle_map [OF assms(3), of y "\<lambda>a. if ap_id a = j \<and> ap_status a = ''pending'' then a\<lparr>ap_status := ''executing'',
          ap_exec_status := ''executing'', ap_reviewer_id := Some reviewer, ap_resolved_at := Some now, ap_executed_at := Some now\<rparr> else a"])
      (use approve_claim(1) c(2) \<open>j \<noteq> i\<close> assms(3) in \<open>auto simp: upd_approval_def logged_def rejected_idle_def\<close>)
next
  case (execute_claim j sql ok now aps)
  then show ?thesis using execute_claim_impossible [OF assms(2) execute_claim(2), of ok now] by simp
next
  case (finish j ok result)
  have "j \<noteq> i" using finish(2) assms(2,3) by (auto simp: appr_fresh_def fresh_job_def rejected_idle_def)
  show ?thesis
    by (rule rejected_idle_map [OF assms(3), of y "finish_row ok j result"])
      (use finish(1) \<open>j \<noteq> i\<close> assms(3) in \<open>auto simp: finish_exec_map finish_row_def rejected_idle_def split: sum.splits\<close>)
next
  case (reject ok now j r st')
  from reject(2) show ?thesis
  proof (cases rule: reject_approval_cases)
    case 2
    show ?thesis
      by (rule rejected_idle_map [OF assms(3), of y "\<lambda>a. if ap_id a = j then a\<lparr>ap_status := ''rejected'', ap_resolved_at := Some now\<rparr> else a"])
        (use reject 2 assms(3) in \<open>auto simp: upd_approval_def rejected_idle_def\<close>)
  qed (use reject assms(3) in simp)
qed (use assms(3) in \<open>simp_all add: rejected_idle_def\<close>)

text \<open>
  A rejection in time is final: an approval that is rejected before its execution was claimed is
  never executed afterwards, not even by a reviewer or an agent that had loaded it before.
\<close>

theorem rejected_never_executes:
  assumes "appr_empty x" "appr_step\<^sup>*\<^sup>* x y" "appr_step\<^sup>*\<^sup>* y z"
    and "find_approval i (ax_aps y) = Some a" "ap_status a = ''rejected''" "i \<notin> fst ` set (ax_log y)"
  shows "i \<notin> fst ` set (ax_log z)"
proof -
  have y: "appr_fresh y" using assms(1,2) appr_empty_fresh appr_steps_fresh by blast
  have a: "a \<in> set (ax_aps y)" "ap_id a = i" using find_approval_Some [OF assms(4)] by auto
  have d: "distinct (map ap_id (ax_aps y))" using y by (simp add: appr_fresh_def appr_inv_def)
  have "ap_status b = ''rejected''" if "b \<in> set (ax_aps y)" "ap_id b = i" for b
    using same_id_same_row [OF d that(1) a(1)] that(2) a(2) assms(5) by simp
  then have "rejected_idle i y"
    using a assms(6) unfolding rejected_idle_def logged_def by blast
  with assms(3) y have "appr_fresh z \<and> rejected_idle i z"
  proof (induction rule: rtranclp_induct)
    case (step u v)
    then show ?case using appr_step_fresh [OF step(2)] rejected_idle_step [OF step(2)] by simp
  qed simp
  then show ?thesis by (simp add: rejected_idle_def logged_def)
qed

section \<open>Concrete runs\<close>

definition sample_conn :: db_connection where
  "sample_conn = \<lparr>dc_id = ''c'', dc_name = ''n'', dc_db_type = ''MySQL'', dc_host = ''h'', dc_port = 3306, dc_username = ''u'',
     dc_password_encrypted = ''enc:pw'', dc_default_database = None, dc_ssh_enabled = False, dc_ssh_host = None, dc_ssh_port = None,
     dc_created_by = ''u1'', dc_created_at = ''t0'', dc_kind = ''collab'', dc_file_path = None, dc_use_ssl = False,
     dc_timeout_seconds = 30, dc_auto_reconnect = False, dc_charset = None, dc_timezone = None, dc_environment = None,
     dc_read_only = False, dc_group_id = None, dc_extra = None, dc_ssh_username = None, dc_ssh_auth_mode = None,
     dc_ssh_password_encrypted = None, dc_ssh_private_key_encrypted = None, dc_ssh_passphrase_encrypted = None\<rparr>"

definition demo_store :: "ddl_approval list \<Rightarrow> auto_store" where
  "demo_store aps = \<lparr>as_entitlement = Trial 0, as_embedded_mode = False, as_connections = [sample_conn], as_tasks = [],
     as_approvals = aps, as_queries = []\<rparr>"

definition sample_appr :: ddl_approval where
  "sample_appr = new_approval ''a'' ''u1'' ''DROP TABLE t'' ''c'' ''t1''"

definition sample_x :: "ddl_approval list \<Rightarrow> appr_job list \<Rightarrow> (string \<times> string) list \<Rightarrow> appr_state" where
  "sample_x aps jobs lg = \<lparr>ax_store = demo_store aps, ax_jobs = jobs, ax_log = lg\<rparr>"

definition claimed_appr :: ddl_approval where
  "claimed_appr = sample_appr\<lparr>ap_status := ''executing'', ap_exec_status := ''executing'',
     ap_reviewer_id := Some ''u2'', ap_resolved_at := Some ''t2'', ap_executed_at := Some ''t2''\<rparr>"

lemma step_submit: "appr_step (sample_x [] js lg) (sample_x [sample_appr] js lg)"
proof -
  have "insert_approval True (new_approval ''a'' ''u1'' ''DROP TABLE t'' ''c'' ''t1'') (ax_store (sample_x [] js lg)) = Some (demo_store [sample_appr])"
    by (simp add: insert_approval_def find_approval_def conn_exists_def find_conn_def sample_x_def demo_store_def sample_conn_def
        sample_appr_def new_approval_def)
  from appr_step.submit_write [OF this] show ?thesis by (simp add: sample_x_def)
qed

lemma step_load: "appr_step (sample_x [sample_appr] js lg) (sample_x [sample_appr] (ApproveLoaded ''a'' ''DROP TABLE t'' ''u2'' # js) lg)"
proof -
  have "approve_load True ''a'' (ax_store (sample_x [sample_appr] js lg)) = ApiOk 200 (''DROP TABLE t'', ''c'')"
    by (simp add: approve_load_def find_approval_def sample_x_def demo_store_def sample_appr_def new_approval_def is_gated_def)
  from appr_step.approve_load [OF this, of "''u2''"] show ?thesis by (simp add: sample_x_def)
qed

lemma step_claim:
  "appr_step (sample_x [sample_appr] [ApproveLoaded ''a'' ''DROP TABLE t'' ''u2''] [])
     (sample_x [claimed_appr] [RunningDdl ''a''] [(''a'', ''DROP TABLE t'')])"
proof -
  let ?x = "sample_x [sample_appr] [ApproveLoaded ''a'' ''DROP TABLE t'' ''u2''] []"
  have 1: "ApproveLoaded ''a'' ''DROP TABLE t'' ''u2'' \<in> set (ax_jobs ?x)" by (simp add: sample_x_def)
  have 2: "approve_claim True ''t2'' ''u2'' ''a'' (ax_aps ?x) = (ApiOk 200 (), [claimed_appr])"
    by (simp add: approve_claim_def sample_x_def demo_store_def claimed_appr_def upd_approval_def sample_appr_def new_approval_def)
  from appr_step.approve_claim [OF 1 2] show ?thesis by (simp add: sample_x_def set_aps_def demo_store_def)
qed

lemma sample_run:
  "appr_step\<^sup>*\<^sup>* (sample_x [] [] []) (sample_x [claimed_appr] [RunningDdl ''a''] [(''a'', ''DROP TABLE t'')])"
  using step_submit [of "[]" "[]"] step_load [of "[]" "[]"] step_claim by (meson converse_rtranclp_into_rtranclp rtranclp.rtrancl_refl)

lemma sample_empty: "appr_empty (sample_x [] [] [])" "appr_start (sample_x [] [] [])"
  by (simp_all add: appr_empty_def appr_start_def sample_x_def demo_store_def)

theorem ddl_executes_at_most_once_witness:
  "distinct (map fst (ax_log (sample_x [claimed_appr] [RunningDdl ''a''] [(''a'', ''DROP TABLE t'')]))) \<and>
   ap_ddl_sql claimed_appr = ''DROP TABLE t''"
  using ddl_executes_at_most_once [OF sample_empty(2) sample_run]
  by (simp add: sample_x_def demo_store_def)

theorem ddl_needs_reviewer_witness: "ap_reviewer_id claimed_appr \<noteq> None"
proof -
  have "(''a'', ''DROP TABLE t'') \<in> set (ax_log (sample_x [claimed_appr] [RunningDdl ''a''] [(''a'', ''DROP TABLE t'')]))"
    by (simp add: sample_x_def)
  from ddl_needs_reviewer [OF sample_empty(1) sample_run this] show ?thesis
    by (auto simp: sample_x_def demo_store_def)
qed

text \<open>A reviewer has loaded the approval when another one rejects it.\<close>

definition rejected_appr :: ddl_approval where
  "rejected_appr = sample_appr\<lparr>ap_status := ''rejected'', ap_resolved_at := Some ''t3''\<rparr>"

lemma step_reject:
  "appr_step (sample_x [sample_appr] js lg) (sample_x [rejected_appr] js lg)"
proof -
  have "reject_approval True ''t3'' ''a'' (ax_store (sample_x [sample_appr] js lg)) = (ApiOk 200 (), demo_store [rejected_appr])"
    by (simp add: reject_approval_def sample_x_def demo_store_def upd_approval_def rejected_appr_def sample_appr_def new_approval_def is_gated_def)
  from appr_step.reject [OF this] show ?thesis by (simp add: sample_x_def)
qed

lemma sample_rejection:
  "appr_step\<^sup>*\<^sup>* (sample_x [] [] []) (sample_x [rejected_appr] [ApproveLoaded ''a'' ''DROP TABLE t'' ''u2''] [])"
  using step_submit [of "[]" "[]"] step_load [of "[]" "[]"] step_reject [of "[ApproveLoaded ''a'' ''DROP TABLE t'' ''u2'']" "[]"]
  by (meson converse_rtranclp_into_rtranclp rtranclp.rtrancl_refl)

theorem rejected_never_executes_witness:
  "\<not> (\<exists>z. appr_step\<^sup>*\<^sup>* (sample_x [rejected_appr] [ApproveLoaded ''a'' ''DROP TABLE t'' ''u2''] []) z \<and> ''a'' \<in> fst ` set (ax_log z))"
proof (rule notI, elim exE conjE)
  fix z
  assume z: "appr_step\<^sup>*\<^sup>* (sample_x [rejected_appr] [ApproveLoaded ''a'' ''DROP TABLE t'' ''u2''] []) z"
    and a: "''a'' \<in> fst ` set (ax_log z)"
  have "''a'' \<notin> fst ` set (ax_log z)"
    by (rule rejected_never_executes [OF sample_empty(1) sample_rejection z, of _ rejected_appr])
      (simp_all add: sample_x_def demo_store_def find_approval_def rejected_appr_def sample_appr_def new_approval_def)
  then show False using a by (rule notE)
qed

text \<open>A rejection that comes later changes the row of a running execution, which ends approved all the same.\<close>

lemma reject_does_not_stop:
  "appr_step\<^sup>*\<^sup>* (sample_x [claimed_appr] [RunningDdl ''a''] [(''a'', ''DROP TABLE t'')])
     (sample_x [claimed_appr\<lparr>ap_status := ''approved'', ap_exec_status := ''approved'', ap_resolved_at := Some ''t3''\<rparr>] [] [(''a'', ''DROP TABLE t'')])"
proof -
  let ?rej = "claimed_appr\<lparr>ap_status := ''rejected'', ap_resolved_at := Some ''t3''\<rparr>"
  have 1: "reject_approval True ''t3'' ''a'' (ax_store (sample_x [claimed_appr] [RunningDdl ''a''] [(''a'', ''DROP TABLE t'')])) =
      (ApiOk 200 (), demo_store [?rej])"
    by (simp add: reject_approval_def sample_x_def demo_store_def upd_approval_def claimed_appr_def sample_appr_def new_approval_def is_gated_def)
  have 2: "RunningDdl ''a'' \<in> set (ax_jobs (sample_x [?rej] [RunningDdl ''a''] [(''a'', ''DROP TABLE t'')]))"
    by (simp add: sample_x_def)
  show ?thesis
    using appr_step.reject [OF 1] appr_step.finish [OF 2, of True "Inr ()"]
    by (auto intro!: converse_rtranclp_into_rtranclp
        simp: sample_x_def demo_store_def set_aps_def finish_exec_def upd_approval_def claimed_appr_def sample_appr_def new_approval_def)
qed

theorem only_ddl_reaches_target_witness:
  "\<exists>conn stmts n. find_conn ''c'' [sample_conn] = Some conn \<and> split_sql_script ''DROP TABLE t; create view v'' = Some stmts \<and>
     list_all is_ddl_statement stmts \<and> [''DROP TABLE t'', ''create view v''] = take n stmts"
proof -
  have "execute_ddl_on_target_with_key sample_crypto [] \<lparr>de_load_error = None, de_guard_ok = True, de_answer = (\<lambda>_ _. None)\<rparr>
      [sample_conn] ''c'' ''DROP TABLE t; create view v'' = (Inr (), [''DROP TABLE t'', ''create view v''])"
    unfolding execute_ddl_on_target_with_key_def load_and_decrypt_key_def by code_simp
  from only_ddl_reaches_target [OF this] show ?thesis by (auto simp: list_all_iff)
qed

end
