(* ===== verification/Automation_Api.thy ===== *)
theory Automation_Api
  imports Ddl_Approvals
begin

text \<open>
  The mutating handlers of the automation API as one interface: what they share (the license gate, the
  integrity of the tables, sealed secrets) is the contract \<open>store_op\<close>, and every handler is an instance
  of it. The properties follow for every sequence of requests.
\<close>

section \<open>Sealed secrets\<close>

definition sealed_text :: "crypto \<Rightarrow> nat list \<Rightarrow> string \<Rightarrow> bool" where
  "sealed_text cr key s \<longleftrightarrow> (\<exists>nonce p. encrypt_v1 cr nonce key p = Some s)"

definition conn_sealed :: "crypto \<Rightarrow> nat list \<Rightarrow> db_connection \<Rightarrow> bool" where
  "conn_sealed cr key c \<longleftrightarrow>
     sealed_text cr key (dc_password_encrypted c) \<and>
     (\<forall>s \<in> set_option (dc_ssh_password_encrypted c) \<union> set_option (dc_ssh_private_key_encrypted c) \<union>
        set_option (dc_ssh_passphrase_encrypted c). sealed_text cr key s)"

definition store_sealed :: "crypto \<Rightarrow> nat list \<Rightarrow> auto_store \<Rightarrow> bool" where
  "store_sealed cr key st \<longleftrightarrow> (\<forall>c \<in> set (as_connections st). conn_sealed cr key c)"

lemma encrypt_secret_sealed: "encrypt_secret cr nonce key p = Inr s \<Longrightarrow> t \<in> set_option s \<Longrightarrow> sealed_text cr key t"
  by (cases "encrypt_v1 cr nonce key (the p)")
    (auto simp: encrypt_secret_def sealed_text_def split: option.splits if_splits)

lemma create_connection_sealed:
  assumes "create_connection cr key io cl body st = (r, st')" "store_sealed cr key st"
  shows "store_sealed cr key st'"
  using assms(1)
proof (cases rule: create_connection_cases)
  case (2 e sp sk ss)
  have "conn_sealed cr key (conn_row io cl body e sp sk ss)"
    using 2(5) encrypt_secret_sealed [OF 2(6)] encrypt_secret_sealed [OF 2(7)] encrypt_secret_sealed [OF 2(8)]
    by (auto simp: conn_sealed_def sealed_text_def)
  with 2(1) assms(2) show ?thesis by (auto simp: store_sealed_def)
qed (use assms(2) in simp)

lemma update_connection_sealed:
  assumes "update_connection cr key io i body st = (r, st')" "store_sealed cr key st"
  shows "store_sealed cr key st'"
  using assms(1)
proof (cases rule: update_connection_cases)
  case (2 row pw)
  have row: "conn_sealed cr key row" using assms(2) find_conn_SomeD [OF 2(1)] by (simp add: store_sealed_def)
  moreover have "sealed_text cr key pw"
    using 2(3) row by (auto simp: new_password_def conn_sealed_def sealed_text_def split: option.splits if_splits)
  ultimately have "conn_sealed cr key (apply_update body pw row)"
    by (simp add: conn_sealed_def apply_update_def)
  with 2(4) assms(2) show ?thesis by (auto simp: store_sealed_def)
qed (use assms(2) in simp)

section \<open>The contract of a mutating handler\<close>

locale store_op =
  fixes cr :: crypto and key :: "nat list" and handler :: "auto_store \<Rightarrow> 'a api \<times> auto_store"
  assumes gated: "is_gated (as_entitlement st) \<Longrightarrow> handler st = (gated_answer, st)"
    and keeps_wf: "handler st = (r, st') \<Longrightarrow> store_wf st \<Longrightarrow> store_wf st'"
    and keeps_sealed: "handler st = (r, st') \<Longrightarrow> store_sealed cr key st \<Longrightarrow> store_sealed cr key st'"
    and keeps_mode: "handler st = (r, st') \<Longrightarrow> as_entitlement st' = as_entitlement st \<and> as_embedded_mode st' = as_embedded_mode st"
begin

definition good :: "auto_store \<Rightarrow> bool" where
  "good st \<longleftrightarrow> store_wf st \<and> store_sealed cr key st"

lemma keeps_good: "good st \<Longrightarrow> good (snd (handler st))"
  using keeps_wf keeps_sealed by (metis good_def surjective_pairing)

lemma gated_noop: "is_gated (as_entitlement st) \<Longrightarrow> snd (handler st) = st"
  by (simp add: gated)

lemma keeps_entitlement: "as_entitlement (snd (handler st)) = as_entitlement st"
  using keeps_mode by (metis surjective_pairing)

end

text \<open>Handlers that add no connection keep the secrets sealed.\<close>

lemma store_op_frame:
  assumes "\<And>st. is_gated (as_entitlement st) \<Longrightarrow> handler st = (gated_answer, st)"
    and "\<And>st r st'. handler st = (r, st') \<Longrightarrow> store_wf st \<Longrightarrow> store_wf st'"
    and "\<And>st r st'. handler st = (r, st') \<Longrightarrow> set (as_connections st') \<subseteq> set (as_connections st) \<and>
      as_entitlement st' = as_entitlement st \<and> as_embedded_mode st' = as_embedded_mode st"
  shows "store_op cr key handler"
proof
  show "store_sealed cr key st'" if "handler st = (r, st')" "store_sealed cr key st" for st r st'
    using assms(3) [OF that(1)] that(2) by (auto simp: store_sealed_def)
qed (use assms in auto)

interpretation creating: store_op cr key "create_connection cr key io cl body" for cr key io cl body
proof
  fix st r st'
  assume eq: "create_connection cr key io cl body st = (r, st')"
  show "store_wf st \<Longrightarrow> store_wf st'" by (rule create_connection_wf [OF eq])
  show "store_sealed cr key st \<Longrightarrow> store_sealed cr key st'" by (rule create_connection_sealed [OF eq])
  show "as_entitlement st' = as_entitlement st \<and> as_embedded_mode st' = as_embedded_mode st"
    using eq by (cases rule: create_connection_cases) auto
qed (simp add: create_connection_def)

interpretation updating: store_op cr key "update_connection cr key io i body" for cr key io i body
proof
  fix st r st'
  assume eq: "update_connection cr key io i body st = (r, st')"
  show "store_wf st \<Longrightarrow> store_wf st'" by (rule update_connection_wf [OF eq])
  show "store_sealed cr key st \<Longrightarrow> store_sealed cr key st'" by (rule update_connection_sealed [OF eq])
  show "as_entitlement st' = as_entitlement st \<and> as_embedded_mode st' = as_embedded_mode st"
    using eq by (cases rule: update_connection_cases) auto
qed (simp add: update_connection_def)

interpretation deleting: store_op cr key "delete_connection ok i" for cr key ok i
  by (rule store_op_frame, simp add: delete_connection_def, erule (1) delete_connection_wf, auto simp: delete_connection_def delete_conn_row_def split: if_splits option.splits)

interpretation task_creating: store_op cr key "create_task jl io body" for cr key jl io body
  by (rule store_op_frame, simp add: create_task_def, erule (1) create_task_wf, auto simp: create_task_def Let_def split: if_splits option.splits)

interpretation task_updating: store_op cr key "update_task jl ok i body" for cr key jl ok i body
  by (rule store_op_frame, simp add: update_task_def, erule (1) update_task_wf, auto simp: update_task_def split: if_splits option.splits)

interpretation task_deleting: store_op cr key "delete_task ok i" for cr key ok i
  by (rule store_op_frame, simp add: delete_task_def, erule (1) delete_task_wf, auto simp: delete_task_def split: if_splits option.splits)

interpretation query_saving: store_op cr key "save_query jl io cl title sql tags" for cr key jl io cl title sql tags
  by (rule store_op_frame, simp add: save_query_def, erule (1) save_query_wf, auto simp: save_query_def split: if_splits option.splits)

interpretation query_deleting: store_op cr key "delete_saved_query ok cl i" for cr key ok cl i
  by (rule store_op_frame, simp add: delete_saved_query_def, erule (1) delete_saved_query_wf, auto simp: delete_saved_query_def split: if_splits option.splits)

lemma store_wf_approvals:
  assumes "store_wf st" "map ap_id aps = map ap_id (as_approvals st)" "map ap_target_db_id aps = map ap_target_db_id (as_approvals st)"
  shows "store_wf (st\<lparr>as_approvals := aps\<rparr>)"
proof -
  have "ap_target_db_id ` set aps = ap_target_db_id ` set (as_approvals st)"
    using arg_cong [OF assms(3), of set] by simp
  then have "\<forall>a \<in> set aps. ap_target_db_id a \<in> conn_ids st" using assms(1) by (force simp: store_wf_def)
  with assms show ?thesis by (simp add: store_wf_def)
qed

lemma insert_approval_wf:
  assumes "insert_approval ok a st = Some st'" "store_wf st"
  shows "store_wf st'"
  using assms
  by (auto simp: insert_approval_def store_wf_def find_approval_None conn_exists_def find_conn_None conn_ids_def split: if_splits)

lemma submit_approval_wf: "submit_approval io cl sql target st = (r, st') \<Longrightarrow> store_wf st \<Longrightarrow> store_wf st'"
  by (erule submit_approval_cases) (auto intro: insert_approval_wf)

lemma reject_approval_wf: "reject_approval ok now i st = (r, st') \<Longrightarrow> store_wf st \<Longrightarrow> store_wf st'"
  by (erule reject_approval_cases) (auto simp: upd_approval_def intro!: store_wf_approvals)

interpretation submitting: store_op cr key "submit_approval io cl sql target" for cr key io cl sql target
  by (rule store_op_frame, simp add: submit_approval_def, erule (1) submit_approval_wf, auto simp: submit_approval_def insert_approval_def split: if_splits option.splits)

interpretation rejecting: store_op cr key "reject_approval ok now i" for cr key ok now i
  by (rule store_op_frame, simp add: reject_approval_def, erule (1) reject_approval_wf, auto simp: reject_approval_def split: if_splits option.splits)

section \<open>Sequences of requests\<close>

datatype api_call =
    CreateConnection conn_io claims create_connection_request
  | UpdateConnection conn_io string update_connection_request
  | DeleteConnection "nat \<Rightarrow> bool" string
  | CreateTask task_io create_task_request
  | UpdateTask "nat \<Rightarrow> bool" string update_task_request
  | DeleteTask "nat \<Rightarrow> bool" string
  | SaveQuery task_io claims string string "string list"
  | DeleteQuery "nat \<Rightarrow> bool" claims string
  | SubmitApproval task_io claims string string
  | RejectApproval bool string string

fun api_exec :: "crypto \<Rightarrow> nat list \<Rightarrow> json_lib \<Rightarrow> api_call \<Rightarrow> auto_store \<Rightarrow> auto_store" where
  "api_exec cr key jl (CreateConnection io cl body) st = snd (create_connection cr key io cl body st)"
| "api_exec cr key jl (UpdateConnection io i body) st = snd (update_connection cr key io i body st)"
| "api_exec cr key jl (DeleteConnection ok i) st = snd (delete_connection ok i st)"
| "api_exec cr key jl (CreateTask io body) st = snd (create_task jl io body st)"
| "api_exec cr key jl (UpdateTask ok i body) st = snd (update_task jl ok i body st)"
| "api_exec cr key jl (DeleteTask ok i) st = snd (delete_task ok i st)"
| "api_exec cr key jl (SaveQuery io cl title sql tags) st = snd (save_query jl io cl title sql tags st)"
| "api_exec cr key jl (DeleteQuery ok cl i) st = snd (delete_saved_query ok cl i st)"
| "api_exec cr key jl (SubmitApproval io cl sql target) st = snd (submit_approval io cl sql target st)"
| "api_exec cr key jl (RejectApproval ok now i) st = snd (reject_approval ok now i st)"

lemmas noop_rules = creating.gated_noop updating.gated_noop deleting.gated_noop task_creating.gated_noop
  task_updating.gated_noop task_deleting.gated_noop query_saving.gated_noop query_deleting.gated_noop
  submitting.gated_noop rejecting.gated_noop

lemma api_exec_gated: "is_gated (as_entitlement st) \<Longrightarrow> api_exec cr key jl c st = st"
  by (cases c) (simp_all add: noop_rules)

lemma api_exec_wf: "store_wf st \<Longrightarrow> store_wf (api_exec cr key jl c st)"
  by (cases c)
    (simp_all, (metis surjective_pairing creating.keeps_wf updating.keeps_wf deleting.keeps_wf task_creating.keeps_wf
      task_updating.keeps_wf task_deleting.keeps_wf query_saving.keeps_wf query_deleting.keeps_wf submitting.keeps_wf rejecting.keeps_wf)+)

lemma api_exec_sealed: "store_sealed cr key st \<Longrightarrow> store_sealed cr key (api_exec cr key jl c st)"
  by (cases c)
    (simp_all, (metis surjective_pairing creating.keeps_sealed updating.keeps_sealed deleting.keeps_sealed task_creating.keeps_sealed
      task_updating.keeps_sealed task_deleting.keeps_sealed query_saving.keeps_sealed query_deleting.keeps_sealed
      submitting.keeps_sealed rejecting.keeps_sealed)+)


text \<open>
  C29. No plaintext at rest: from a store whose secrets are sealed, no sequence of requests stores a
  password, key or passphrase other than as the cipher's output, so none with the plaintext prefix.
\<close>

theorem api_never_stores_plaintext:
  assumes "store_sealed cr key st" "c \<in> set (as_connections (fold (api_exec cr key jl) calls st))"
    and "s \<in> {dc_password_encrypted c} \<union> set_option (dc_ssh_password_encrypted c) \<union>
      set_option (dc_ssh_private_key_encrypted c) \<union> set_option (dc_ssh_passphrase_encrypted c)"
  shows "(\<exists>nonce p. encrypt_v1 cr nonce key p = Some s) \<and> strip_prefix legacy_enc_prefix s = None"
proof -
  have "store_sealed cr key (fold (api_exec cr key jl) calls st)"
    using assms(1) by (induction calls arbitrary: st) (simp_all add: api_exec_sealed)
  then have "conn_sealed cr key c" using assms(2) by (simp add: store_sealed_def)
  then obtain nonce p where "encrypt_v1 cr nonce key p = Some s"
    using assms(3) by (auto simp: conn_sealed_def sealed_text_def)
  then show ?thesis using encrypt_v1_not_legacy by blast
qed

text \<open>
  While the license is gated no mutating request of the automation API changes anything.
\<close>

theorem gated_api_is_read_only:
  assumes "is_gated (as_entitlement st)"
  shows "fold (api_exec cr key jl) calls st = st"
  using assms by (induction calls) (simp_all add: api_exec_gated)

section \<open>Credentials come back\<close>

lemma decrypt_encrypt_secret:
  assumes "crypto_ok cr" "length nonce = 12" "encrypt_secret cr nonce key secret = Inr s"
  shows "decrypt_opt cr key s = Inr (if secret = Some [] then None else secret)"
proof (cases secret)
  case (Some p)
  show ?thesis
  proof (cases "p = []")
    case False
    then obtain c where c: "encrypt_v1 cr nonce key p = Some c" "s = Some c"
      using assms(3) Some by (cases "encrypt_v1 cr nonce key p") (auto simp: encrypt_secret_def)
    moreover have "c \<noteq> []" using c(1) by (auto simp: encrypt_v1_def v1_prefix_def)
    ultimately show ?thesis
      using decrypt_encrypt_v1 [OF assms(1,2) c(1)] Some False by (simp add: decrypt_opt_def)
  qed (use assms(3) Some in \<open>simp add: encrypt_secret_def decrypt_opt_def\<close>)
qed (use assms(3) in \<open>simp add: encrypt_secret_def decrypt_opt_def\<close>)

lemma find_conn_snoc: "dc_id c \<notin> dc_id ` set cs \<Longrightarrow> find_conn (dc_id c) (cs @ [c]) = Some c"
  by (induction cs) (auto simp: find_conn_def)

text \<open>
  A connection gives its credentials back: after a creation the credential endpoint of an embedded
  server answers the password and the SSH secrets of the request, empty ones as absent; outside embedded
  mode it answers none.
\<close>

theorem credential_round_trip:
  assumes "crypto_ok cr" "\<And>k. length (ci_nonce io k) = 12"
    and "create_connection cr key io cl body st = (ApiOk 200 row, st')"
  shows "get_connection_credential cr key True (dc_id row) st' =
    (if as_embedded_mode st
     then ApiOk 200 \<lparr>ca_password = cc_password body,
            ca_ssh_password = (if cc_ssh_password body = Some [] then None else cc_ssh_password body),
            ca_ssh_private_key = (if cc_ssh_private_key body = Some [] then None else cc_ssh_private_key body),
            ca_ssh_passphrase = (if cc_ssh_passphrase body = Some [] then None else cc_ssh_passphrase body)\<rparr>
     else ApiErr 200 ''NOT_EMBEDDED'')"
  using assms(3)
proof (cases rule: create_connection_cases)
  case (2 e sp sk ss)
  have row: "row = conn_row io cl body e sp sk ss" using 2(9) by (simp split: if_splits)
  have "find_conn (ci_id io) (as_connections st') = Some row"
    using 2(1,3) find_conn_snoc [of row "as_connections st"] by (simp add: row)
  then show ?thesis
    using 2(1) decrypt_encrypt_v1 [OF assms(1,2) 2(5)] decrypt_encrypt_secret [OF assms(1,2) 2(6)]
      decrypt_encrypt_secret [OF assms(1,2) 2(7)] decrypt_encrypt_secret [OF assms(1,2) 2(8)]
    by (simp add: get_connection_credential_def row)
qed auto

section \<open>Concrete requests\<close>

definition sample_conn_request :: create_connection_request where
  "sample_conn_request = \<lparr>cc_name = ''n'', cc_db_type = ''mysql'', cc_host = ''h'', cc_port = 3306, cc_username = ''u'', cc_password = ''pw'',
     cc_default_database = None, cc_ssh_enabled = False, cc_ssh_host = None, cc_ssh_port = None, cc_kind = None, cc_file_path = None,
     cc_use_ssl = False, cc_timeout_seconds = 30, cc_auto_reconnect = False, cc_charset = None, cc_timezone = None, cc_environment = None,
     cc_read_only = False, cc_group_id = None, cc_extra = None, cc_ssh_username = None, cc_ssh_auth_mode = None, cc_ssh_password = Some ''k'',
     cc_ssh_private_key = Some [], cc_ssh_passphrase = None\<rparr>"

definition sample_conn_io :: conn_io where
  "sample_conn_io = \<lparr>ci_ok = (\<lambda>_. True), ci_id = ''d'', ci_now = ''t1'', ci_nonce = (\<lambda>_. replicate 12 0), ci_probe = ProbeNoConnect\<rparr>"

definition sample_claims :: claims where
  "sample_claims = \<lparr>cl_sub = ''u1'', cl_iat = 0, cl_exp = 9, cl_jti = ''j''\<rparr>"

definition sample_auto :: "entitlement_state \<Rightarrow> bool \<Rightarrow> auto_store" where
  "sample_auto ent embedded = \<lparr>as_entitlement = ent, as_embedded_mode = embedded, as_connections = [], as_tasks = [], as_approvals = [], as_queries = []\<rparr>"

definition sample_jl :: json_lib where
  "sample_jl = \<lparr>jl_text = (\<lambda>_. ''{}''), jl_strings = (\<lambda>_. ''[]'')\<rparr>"

definition sample_enc :: "string \<Rightarrow> string" where
  "sample_enc p = v1_prefix @ cr_b64_encode sample_crypto (replicate 12 0) @ '':'' @ cr_b64_encode sample_crypto (map ccode p)"

lemma sample_encrypt: "encrypt_v1 sample_crypto (replicate 12 0) [] p = Some (sample_enc p)"
  by (simp add: encrypt_v1_def sample_crypto_def sample_enc_def)

definition sample_conn_created :: db_connection where
  "sample_conn_created = conn_row sample_conn_io sample_claims sample_conn_request (sample_enc ''pw'') (Some (sample_enc ''k'')) None None"

lemma sample_create:
  "create_connection sample_crypto [] sample_conn_io sample_claims sample_conn_request (sample_auto (Trial 0) True) =
     (ApiOk 200 sample_conn_created, (sample_auto (Trial 0) True)\<lparr>as_connections := [sample_conn_created]\<rparr>)"
  by (simp add: create_connection_def sample_auto_def is_gated_def conn_kind_def encrypt_secret_def
      sample_conn_created_def find_conn_def Let_def sample_encrypt sample_conn_io_def sample_conn_request_def)

theorem credential_round_trip_witness:
  "get_connection_credential sample_crypto [] True ''d'' ((sample_auto (Trial 0) True)\<lparr>as_connections := [sample_conn_created]\<rparr>) =
     ApiOk 200 \<lparr>ca_password = ''pw'', ca_ssh_password = Some ''k'', ca_ssh_private_key = None, ca_ssh_passphrase = None\<rparr>"
proof -
  have "length (ci_nonce sample_conn_io k) = 12" for k by (simp add: sample_conn_io_def)
  from credential_round_trip [OF sample_crypto_ok this sample_create]
  have "get_connection_credential sample_crypto [] True (dc_id sample_conn_created) ((sample_auto (Trial 0) True)\<lparr>as_connections := [sample_conn_created]\<rparr>) =
     ApiOk 200 \<lparr>ca_password = cc_password sample_conn_request, ca_ssh_password = cc_ssh_password sample_conn_request, ca_ssh_private_key = None, ca_ssh_passphrase = None\<rparr>"
    by (simp add: sample_auto_def sample_conn_request_def)
  moreover have "dc_id sample_conn_created = ''d''" by (simp add: sample_conn_created_def sample_conn_io_def)
  ultimately show ?thesis by (simp only: sample_conn_request_def create_connection_request.simps)
qed


theorem api_never_stores_plaintext_witness:
  "strip_prefix legacy_enc_prefix (dc_password_encrypted sample_conn_created) = None"
proof -
  have "sample_conn_created \<in> set (as_connections (fold (api_exec sample_crypto [] sample_jl)
      [CreateConnection sample_conn_io sample_claims sample_conn_request] (sample_auto (Trial 0) True)))"
    by (simp add: sample_create)
  moreover have "store_sealed sample_crypto [] (sample_auto (Trial 0) True)"
    by (simp add: store_sealed_def sample_auto_def)
  ultimately show ?thesis
    using api_never_stores_plaintext [of sample_crypto "[]" "sample_auto (Trial 0) True" sample_conn_created sample_jl
        "[CreateConnection sample_conn_io sample_claims sample_conn_request]" "dc_password_encrypted sample_conn_created"] by simp
qed

theorem gated_api_is_read_only_witness:
  "fold (api_exec sample_crypto [] sample_jl) [CreateConnection sample_conn_io sample_claims sample_conn_request] (sample_auto (Gated TrialExpired) False)
     = sample_auto (Gated TrialExpired) False"
  by (rule gated_api_is_read_only) (simp add: sample_auto_def is_gated_def)

text \<open>
  A connection an approval refers to is not deleted, but the answer says it is; and an edit may point a
  source-drift connection at a writable account that no probe has seen.
\<close>

lemma delete_connection_reports_success:
  assumes "\<not> is_gated (as_entitlement st)" "conn_exists i st" "a \<in> set (as_approvals st)" "ap_target_db_id a = i"
  shows "delete_connection (\<lambda>_. True) i st = (ApiOk 200 (), st)"
  using assms by (auto simp: delete_connection_def delete_conn_row_def conn_exists_def list_ex_iff)

lemma update_connection_skips_canary:
  assumes "\<not> is_gated (as_entitlement st)" "find_conn i (as_connections st) = Some row" "dc_kind row = ''source_drift''"
    and "\<And>k. ci_ok io k" "uc_password body = None"
  shows "\<exists>r. fst (update_connection cr key io i body st) = ApiOk 200 r \<and> dc_kind r = ''source_drift'' \<and>
    dc_username r = or_keep (uc_username body) (dc_username row) \<and> dc_host r = or_keep (uc_host body) (dc_host row)"
  using assms by (simp add: update_connection_def new_password_def apply_update_def)

text \<open>The tag filter takes wildcards and ignores case.\<close>

lemma tag_filter_not_exact:
  "sql_like (''%'' @ [CHR 0x22] @ ''a_b'' @ [CHR 0x22] @ ''%'') (''['' @ [CHR 0x22] @ ''AXB'' @ [CHR 0x22] @ '']'')"
  by code_simp

end
