(* ===== verification/Mcp_Tools.thy ===== *)
theory Mcp_Tools
  imports Ddl_Approvals Sql_Risk Audit_Trail
begin

text \<open>
  The MCP tools: \<open>crates/mcp/src/tools.rs\<close> and \<open>write.rs\<close>, with the read path of
  \<open>crates/automation/src/read_query.rs\<close> and the connection loading of \<open>metadata.rs\<close>.

  Every tool returns its result, the new tables, and the statements its target database was sent. The
  parsers of sqlparser, the JSON writer, the SSH tunnel, the catalogue queries of \<open>metadata.rs\<close> and the
  answers of the target are fields of \<open>mcp_env\<close>; \<open>me_ok k\<close> says whether the \<open>k\<close>-th statement of a tool
  reaches the server's own database, and
  \<open>me_db_error\<close> is what that database says when it does not. The em dashes of the messages are written as hyphens.
\<close>

section \<open>Model\<close>

record tool_config =
  tc_max_rows :: nat
  tc_timeout_secs :: nat
  tc_whitelist :: "string list"

text \<open>A query of the target: cancelled by the timeout, refused with code and message, or a JSON result.\<close>

datatype query_answer = QueryTimeout | QueryError "string option" "string option" | QueryResult json

record mcp_env =
  me_parse :: sql_parser
  me_json :: json_lib
  me_ok :: "nat \<Rightarrow> bool"
  me_db_error :: string
  me_crypto :: crypto
  me_key :: "nat list"
  me_id :: string
  me_now :: string
  me_tunnel :: "db_connection \<Rightarrow> (string \<times> string) option"
  me_query :: "db_connection \<Rightarrow> string option \<Rightarrow> string \<Rightarrow> nat \<Rightarrow> query_answer"
  me_elapsed_ms :: nat
  me_databases :: "string \<Rightarrow> (string \<times> string) + json"
  me_tables :: "string \<Rightarrow> string option \<Rightarrow> (string \<times> string) + json"
  me_describe :: "string \<Rightarrow> string option \<Rightarrow> string \<Rightarrow> (string \<times> string) + json"
  me_ddl :: ddl_env

type_synonym json_object = "(string \<times> json) list"

record connection_summary =
  cs_id :: string
  cs_name :: string
  cs_db_type :: string
  cs_read_only :: bool
  cs_default_database :: "string option"

subsection \<open>Connections an agent may see\<close>

definition allows :: "string list \<Rightarrow> string \<Rightarrow> string \<Rightarrow> bool" where
  "allows entries i name = (entries = [] \<or> list_ex (\<lambda>e. e = i \<or> e = name) entries)"

definition conn_summary_of :: "db_connection \<Rightarrow> connection_summary" where
  "conn_summary_of c = \<lparr>cs_id = dc_id c, cs_name = dc_name c, cs_db_type = dc_db_type c, cs_read_only = dc_read_only c,
     cs_default_database = dc_default_database c\<rparr>"

definition code_message :: "string \<times> string \<Rightarrow> string" where
  "code_message e = fst e @ '': '' @ snd e"

definition list_connection_summaries :: "string \<Rightarrow> bool \<Rightarrow> auto_store \<Rightarrow> string + connection_summary list" where
  "list_connection_summaries err ok st =
     (if ok then Inr (map conn_summary_of (rev (sort_key (\<lambda>c. dc_created_at c) (as_connections st))))
      else Inl (''DB_ERROR: server database read failed: '' @ take 120 err))"

definition visible_summaries :: "tool_config \<Rightarrow> connection_summary list \<Rightarrow> connection_summary list" where
  "visible_summaries cfg conns = filter (\<lambda>c. allows (tc_whitelist cfg) (cs_id c) (cs_name c)) conns"

definition ensure_connection_allowed :: "tool_config \<Rightarrow> string \<Rightarrow> bool \<Rightarrow> string \<Rightarrow> auto_store \<Rightarrow> string + unit" where
  "ensure_connection_allowed cfg err ok conn_id st =
     (if tc_whitelist cfg = [] then Inr ()
      else and_then (list_connection_summaries err ok st) (\<lambda>conns.
        case find (\<lambda>c. cs_id c = conn_id) conns of
          Some c \<Rightarrow> if allows (tc_whitelist cfg) (cs_id c) (cs_name c) then Inr ()
            else Inl ''CONNECTION_NOT_ALLOWED: connection is not exposed over MCP (not in mcp.allowed_connections)''
        | None \<Rightarrow> Inr ()))"

subsection \<open>Arguments\<close>

definition bad_request :: "string + 'a \<Rightarrow> string + 'a" where
  "bad_request r = map_sum (\<lambda>m. ''INVALID_ARGUMENT: '' @ m) id r"

definition quoted_name :: "string \<Rightarrow> string" where
  "quoted_name name = [CHR 0x27] @ name @ [CHR 0x27]"

definition arg_str :: "json_lib \<Rightarrow> json_object \<Rightarrow> string \<Rightarrow> string + string option" where
  "arg_str jl args name =
     (case map_of args name of
       None \<Rightarrow> Inr None
     | Some JNull \<Rightarrow> Inr None
     | Some (JStr s) \<Rightarrow> Inr (Some s)
     | Some other \<Rightarrow> Inl (''argument '' @ quoted_name name @ '' must be a string, got '' @ jl_text jl other))"

definition arg_u64 :: "json_lib \<Rightarrow> json_object \<Rightarrow> string \<Rightarrow> string + nat option" where
  "arg_u64 jl args name =
     (case map_of args name of
       None \<Rightarrow> Inr None
     | Some JNull \<Rightarrow> Inr None
     | Some (JNum n) \<Rightarrow> if 0 \<le> n \<and> n < 2 ^ 64 then Inr (Some (nat n))
         else Inl (''argument '' @ quoted_name name @ '' must be a non-negative integer'')
     | Some other \<Rightarrow> Inl (''argument '' @ quoted_name name @ '' must be an integer, got '' @ jl_text jl other))"

definition require_str :: "json_lib \<Rightarrow> json_object \<Rightarrow> string \<Rightarrow> string + string" where
  "require_str jl args name =
     and_then (arg_str jl args name) (\<lambda>v.
       case v of
         Some s \<Rightarrow> if trim s = [] then Inl (''missing required argument '' @ quoted_name name) else Inr s
       | None \<Rightarrow> Inl (''missing required argument '' @ quoted_name name))"

subsection \<open>Reading\<close>

text \<open>A connection row, its password and the tunnel; document stores and the like have no backend here.\<close>

definition extra_families :: "string list" where
  "extra_families = [''mongodb'', ''mongo'', ''redis'', ''tdengine'']"

definition family_known :: "string \<Rightarrow> bool" where
  "family_known db_type =
     ((case backend_for db_type of Inr _ \<Rightarrow> True | Inl _ \<Rightarrow> False) \<or> map to_ascii_lower db_type \<in> set extra_families)"

definition meta_load_connection :: "mcp_env \<Rightarrow> bool \<Rightarrow> string \<Rightarrow> auto_store \<Rightarrow> (string \<times> string) + (db_connection \<times> string)" where
  "meta_load_connection env ok conn_id st =
     (if \<not> ok then Inl (''DB_ERROR'', ''server database read failed: '' @ take 120 (me_db_error env))
      else case find_conn conn_id (as_connections st) of
          None \<Rightarrow> Inl (''NOT_FOUND'', ''connection '' @ quoted_name conn_id @ '' not found'')
        | Some conn \<Rightarrow>
            if \<not> family_known (dc_db_type conn)
            then Inl (''UNSUPPORTED_DB_TYPE'', ''unsupported db_type: '' @ map to_ascii_lower (dc_db_type conn))
            else if map to_ascii_lower (dc_db_type conn) = ''sqlite'' then Inr (conn, [])
            else case decrypt_password (me_crypto env) (me_key env) (dc_password_encrypted conn) of
                Inl _ \<Rightarrow> Inl (''DECRYPT_FAILED'', ''stored credential could not be decrypted'')
              | Inr password \<Rightarrow> (case me_tunnel env conn of Some e \<Rightarrow> Inl e | None \<Rightarrow> Inr (conn, password)))"

definition json_rows :: "json \<Rightarrow> nat" where
  "json_rows r = (case Option.bind (json_get ''rows'' r) json_as_array of Some xs \<Rightarrow> length xs | None \<Rightarrow> 0)"

definition read_result :: "nat \<Rightarrow> nat \<Rightarrow> json \<Rightarrow> json" where
  "read_result row_limit elapsed_ms result =
     JObj ([(''rowCount'', JNum (int (json_rows result))), (''truncated'', JBool (row_limit \<le> json_rows result)),
            (''executionTimeMs'', JNum (int elapsed_ms))] @
       List.map_filter (\<lambda>f. map_option (Pair f) (json_get f result)) [''columns'', ''columnTypes'', ''rows''])"

text \<open>The statements sent are returned with the connection and the row limit.\<close>

type_synonym target_read = "string \<times> string \<times> nat"

definition exec_read_query :: "mcp_env \<Rightarrow> bool \<Rightarrow> nat \<Rightarrow> string \<Rightarrow> string option \<Rightarrow> string \<Rightarrow> nat \<Rightarrow> auto_store \<Rightarrow>
    ((string \<times> string) + json) \<times> target_read list" where
  "exec_read_query env ok timeout conn_id db sql row_limit st =
     (case meta_load_connection env ok conn_id st of
       Inl e \<Rightarrow> (Inl e, [])
     | Inr (conn, password) \<Rightarrow>
         (case backend_for (dc_db_type conn) of
           Inl e \<Rightarrow> (Inl (''UNSUPPORTED_DB_TYPE'', e), [])
         | Inr backend \<Rightarrow>
             let row_limit = max row_limit 1;
                 db_name = or_else db (dc_default_database conn)
             in (case me_query env conn db_name sql row_limit of
                  QueryTimeout \<Rightarrow> Inl (''TIMEOUT'', ''statement exceeded the '' @ show_nat timeout @ ''s server-side timeout and was cancelled'')
                | QueryError code msg \<Rightarrow> Inl (or_keep code ''QUERY_FAILED'', or_keep msg ''query execution failed'')
                | QueryResult r \<Rightarrow> Inr (read_result row_limit (me_elapsed_ms env) r),
                [(conn_id, sql, row_limit)])))"

definition read_query_default_rows :: nat where
  "read_query_default_rows = 500"

text \<open>Without a value \<open>clamp\<close> panics: its lower bound is above the upper one.\<close>

definition read_limit :: "tool_config \<Rightarrow> nat option \<Rightarrow> nat option" where
  "read_limit cfg max_rows =
     (case max_rows of
       Some v \<Rightarrow> if tc_max_rows cfg < 1 then None else Some (min (min (max v 1) (tc_max_rows cfg)) (tc_max_rows cfg))
     | None \<Rightarrow> Some (min read_query_default_rows (tc_max_rows cfg)))"

definition not_read_only_message :: "risk_verdict \<Rightarrow> string" where
  "not_read_only_message v =
     ''NOT_READ_ONLY: read_query executes read-only SQL only (risk class: '' @ risk_as_str (rv_class v) @ ''); reasons: '' @
     join ''; '' (rv_reasons v)"

definition run_read_query :: "mcp_env \<Rightarrow> tool_config \<Rightarrow> json_object \<Rightarrow> auto_store \<Rightarrow> ((string + json) \<times> target_read list) option" where
  "run_read_query env cfg args st =
     (case and_then (bad_request (require_str (me_json env) args ''connection_id'')) (\<lambda>conn_id.
           and_then (bad_request (require_str (me_json env) args ''sql'')) (\<lambda>sql.
           and_then (bad_request (arg_str (me_json env) args ''database'')) (\<lambda>db.
           and_then (bad_request (arg_u64 (me_json env) args ''max_rows'')) (\<lambda>max_rows.
           and_then (ensure_connection_allowed cfg (me_db_error env) (me_ok env 0) conn_id st) (\<lambda>_.
             let verdict = classify (me_parse env) sql in
             if \<not> is_read_only verdict then Inl (not_read_only_message verdict)
             else if statement_count (me_parse env) sql \<noteq> 1
             then Inl ''MULTI_STATEMENT: send exactly one SQL statement per read_query call''
             else Inr (conn_id, sql, db, max_rows)))))) of
       Inl e \<Rightarrow> Some (Inl e, [])
     | Inr (conn_id, sql, db, max_rows) \<Rightarrow>
         (case read_limit cfg max_rows of
           None \<Rightarrow> None
         | Some limit \<Rightarrow>
             (case exec_read_query env (me_ok env 1) (tc_timeout_secs cfg) conn_id db sql limit st of
               (Inl e, sent) \<Rightarrow> Some (Inl (code_message e), sent)
             | (Inr r, sent) \<Rightarrow> Some (Inr r, sent))))"

subsection \<open>Writing\<close>

definition write_gate_blocked :: "auto_store \<Rightarrow> string option" where
  "write_gate_blocked st =
     (if is_gated (as_entitlement st)
      then Some ''ENTITLEMENT_GATED: server license is gated - activate or renew to use write tools (read tools remain available)''
      else None)"

definition not_found_message :: string where
  "not_found_message = ''NOT_FOUND: approval not found (unknown id, or not submitted by you)''"

definition load_own_approval :: "bool \<Rightarrow> string \<Rightarrow> claims \<Rightarrow> auto_store \<Rightarrow> string + ddl_approval" where
  "load_own_approval ok approval_id cl st =
     (if \<not> ok then Inl ''DB_ERROR: could not read the approval''
      else ok_or not_found_message (find (\<lambda>a. ap_id a = approval_id \<and> ap_submitter_id a = cl_sub cl) (as_approvals st)))"

definition risk_json :: "risk_verdict \<Rightarrow> json" where
  "risk_json v = JObj [(''level'', JStr (risk_as_str (rv_class v))), (''reasons'', JArr (map JStr (rv_reasons v)))]"

definition current_exec_state :: "bool \<Rightarrow> string \<Rightarrow> auto_store \<Rightarrow> string + json" where
  "current_exec_state ok approval_id st =
     (if \<not> ok then Inl ''DB_ERROR: could not read the approval state''
      else case find_approval approval_id (as_approvals st) of
          None \<Rightarrow> Inl not_found_message
        | Some a \<Rightarrow> Inr (JObj ([(''approvalId'', JStr approval_id), (''execStatus'', JStr (ap_exec_status a))] @
            (case ap_exec_error a of Some e \<Rightarrow> [(''execError'', JStr e)] | None \<Rightarrow> []))))"

definition submit_write :: "mcp_env \<Rightarrow> tool_config \<Rightarrow> json_object \<Rightarrow> claims \<Rightarrow> auto_store \<Rightarrow> (string + json) \<times> auto_store" where
  "submit_write env cfg args cl st =
     (case and_then (case write_gate_blocked st of Some e \<Rightarrow> Inl e | None \<Rightarrow> Inr ()) (\<lambda>_.
           and_then (bad_request (require_str (me_json env) args ''connection_id'')) (\<lambda>conn_id.
           and_then (bad_request (require_str (me_json env) args ''sql'')) (\<lambda>sql.
           and_then (ensure_connection_allowed cfg (me_db_error env) (me_ok env 0) conn_id st) (\<lambda>_.
             let verdict = classify (me_parse env) sql in
             if is_read_only verdict
             then Inl ''READ_ONLY_SQL: statement is read-only - use read_query instead (no approval needed)''
             else if statement_count (me_parse env) sql \<noteq> 1
             then Inl ''MULTI_STATEMENT: submit exactly one SQL statement per submit_write call''
             else if \<not> me_ok env 1 then Inl ''DB_ERROR: could not verify the connection''
             else if \<not> conn_exists conn_id st
             then Inl (''NOT_FOUND: connection '' @ quoted_name conn_id @ '' not found (check list_connections)'')
             else Inr (conn_id, sql, verdict))))) of
       Inl e \<Rightarrow> (Inl e, st)
     | Inr (conn_id, sql, verdict) \<Rightarrow>
         (case insert_approval (me_ok env 2) (new_approval (me_id env) (cl_sub cl) sql conn_id (me_now env)) st of
           None \<Rightarrow> (Inl ''SUBMIT_FAILED: could not create the approval'', st)
         | Some st' \<Rightarrow>
             (Inr (JObj [(''approvalId'', JStr (me_id env)), (''status'', JStr ''pending''), (''risk'', risk_json verdict)]), st')))"

definition get_approval :: "mcp_env \<Rightarrow> json_object \<Rightarrow> claims \<Rightarrow> auto_store \<Rightarrow> string + json" where
  "get_approval env args cl st =
     and_then (bad_request (require_str (me_json env) args ''approval_id'')) (\<lambda>approval_id.
     and_then (load_own_approval (me_ok env 0) approval_id cl st) (\<lambda>row.
       Inr (JObj ([(''approvalId'', JStr (ap_id row)), (''status'', JStr (ap_status row)), (''execStatus'', JStr (ap_exec_status row)),
         (''risk'', risk_json (classify (me_parse env) (ap_ddl_sql row))), (''createdAt'', JStr (ap_created_at row))] @
         (case ap_resolved_at row of Some v \<Rightarrow> [(''resolvedAt'', JStr v)] | None \<Rightarrow> []) @
         (case ap_exec_error row of Some e \<Rightarrow> [(''execError'', JStr e)] | None \<Rightarrow> [])))))"

text \<open>The checks of \<open>execute_write\<close> before its claim.\<close>

definition execute_load :: "mcp_env \<Rightarrow> tool_config \<Rightarrow> json_object \<Rightarrow> claims \<Rightarrow> auto_store \<Rightarrow> string + (string \<times> ddl_approval)" where
  "execute_load env cfg args cl st =
     and_then (case write_gate_blocked st of Some e \<Rightarrow> Inl e | None \<Rightarrow> Inr ()) (\<lambda>_.
     and_then (bad_request (require_str (me_json env) args ''approval_id'')) (\<lambda>approval_id.
     and_then (load_own_approval (me_ok env 0) approval_id cl st) (\<lambda>row.
       if ap_status row \<noteq> ''approved''
       then Inl (''APPROVAL_NOT_APPROVED: approval status is '' @ quoted_name (ap_status row) @
         '' - a human must approve it (in the dbmaster client) before execute_write can run'')
       else and_then (ensure_connection_allowed cfg (me_db_error env) (me_ok env 1) (ap_target_db_id row) st) (\<lambda>_. Inr (approval_id, row)))))"

text \<open>The tool without other requests in between; the last component is what the target was sent.\<close>

definition execute_write :: "mcp_env \<Rightarrow> tool_config \<Rightarrow> json_object \<Rightarrow> claims \<Rightarrow> auto_store \<Rightarrow> (string + json) \<times> auto_store \<times> string list" where
  "execute_write env cfg args cl st =
     (case execute_load env cfg args cl st of
       Inl e \<Rightarrow> (Inl e, st, [])
     | Inr (approval_id, row) \<Rightarrow>
         (case execute_claim (me_ok env 2) (me_now env) approval_id (as_approvals st) of
           (Inl e, aps) \<Rightarrow> (Inl e, st\<lparr>as_approvals := aps\<rparr>, [])
         | (Inr False, aps) \<Rightarrow> (current_exec_state (me_ok env 3) approval_id (st\<lparr>as_approvals := aps\<rparr>), st\<lparr>as_approvals := aps\<rparr>, [])
         | (Inr True, aps) \<Rightarrow>
             let (result, sent) = execute_ddl_on_target_with_key (me_crypto env) (me_key env) (me_ddl env) (as_connections st)
                   (ap_target_db_id row) (ap_ddl_sql row);
                 aps = finish_exec (me_ok env 3) approval_id result aps
             in (case result of
                  Inr _ \<Rightarrow> Inr (JObj [(''approvalId'', JStr approval_id), (''execStatus'', JStr ''approved'')])
                | Inl err \<Rightarrow> Inr (JObj [(''approvalId'', JStr approval_id), (''execStatus'', JStr ''failed''), (''execError'', JStr err)]),
                st\<lparr>as_approvals := aps\<rparr>, sent)))"

subsection \<open>Dispatch\<close>

record tool_outcome =
  to_result :: "string + json"
  to_store :: auto_store
  to_reads :: "target_read list"
  to_writes :: "string list"

definition plain_outcome :: "string + json \<Rightarrow> auto_store \<Rightarrow> tool_outcome" where
  "plain_outcome r st = \<lparr>to_result = r, to_store = st, to_reads = [], to_writes = []\<rparr>"

definition summary_json :: "connection_summary \<Rightarrow> json" where
  "summary_json c = JObj [(''id'', JStr (cs_id c)), (''name'', JStr (cs_name c)), (''dbType'', JStr (cs_db_type c)),
     (''readOnly'', JBool (cs_read_only c)), (''defaultDatabase'', json_opt JStr (cs_default_database c))]"

text \<open>Without a value a tool panicked.\<close>

definition tool_execute :: "mcp_env \<Rightarrow> tool_config \<Rightarrow> string \<Rightarrow> json_object option \<Rightarrow> claims option \<Rightarrow> auto_store \<Rightarrow> tool_outcome option" where
  "tool_execute env cfg tool args user st =
     (case user of
       None \<Rightarrow> Some (plain_outcome (Inl ''unauthenticated tool call (no caller identity on request)'') st)
     | Some cl \<Rightarrow>
         let args = or_keep args [];
             jl = me_json env;
             on_connection = (\<lambda>f. and_then (bad_request (require_str jl args ''connection_id'')) (\<lambda>conn_id.
               and_then (ensure_connection_allowed cfg (me_db_error env) (me_ok env 0) conn_id st) (\<lambda>_. f conn_id)));
             meta = map_sum code_message id
         in
         if tool = ''list_connections'' then
           Some (plain_outcome (map_sum id (\<lambda>cs. JObj [(''connections'', JArr (map summary_json (visible_summaries cfg cs)))])
             (list_connection_summaries (me_db_error env) (me_ok env 0) st)) st)
         else if tool = ''list_databases'' then
           Some (plain_outcome (on_connection (\<lambda>c. and_then (meta (me_databases env c)) (\<lambda>dbs.
             Inr (JObj [(''connection_id'', JStr c), (''databases'', dbs)])))) st)
         else if tool = ''list_tables'' then
           Some (plain_outcome (on_connection (\<lambda>c. and_then (bad_request (arg_str jl args ''database'')) (\<lambda>db.
             and_then (meta (me_tables env c db)) (\<lambda>tables.
             Inr (JObj [(''connection_id'', JStr c), (''tables'', tables)]))))) st)
         else if tool = ''describe_table'' then
           Some (plain_outcome (on_connection (\<lambda>c. and_then (bad_request (require_str jl args ''table'')) (\<lambda>table.
             and_then (bad_request (arg_str jl args ''database'')) (\<lambda>db. meta (me_describe env c db table))))) st)
         else if tool = ''read_query'' then
           map_option (\<lambda>(r, sent). \<lparr>to_result = r, to_store = st, to_reads = sent, to_writes = []\<rparr>) (run_read_query env cfg args st)
         else if tool = ''submit_write'' then
           (let (r, st') = submit_write env cfg args cl st in Some (plain_outcome r st'))
         else if tool = ''get_approval'' then Some (plain_outcome (get_approval env args cl st) st)
         else if tool = ''execute_write'' then
           (let (r, st', sent) = execute_write env cfg args cl st
            in Some \<lparr>to_result = r, to_store = st', to_reads = [], to_writes = sent\<rparr>)
         else Some (plain_outcome (Inl (''unknown tool '' @ quoted_name tool)) st))"

definition mcp_dispatch :: "mcp_env \<Rightarrow> tool_config \<Rightarrow> audit_io \<Rightarrow> string \<Rightarrow> json_object option \<Rightarrow> claims option \<Rightarrow> auto_store \<Rightarrow>
    audit_row list \<Rightarrow> (tool_outcome \<times> audit_row list) option" where
  "mcp_dispatch env cfg io tool args user st audit =
     map_option (\<lambda>out. (out, log_mcp_event io (map_option cl_sub user) ToolCall (Some tool)
       (case to_result out of Inr _ \<Rightarrow> None | Inl msg \<Rightarrow> Some (take 200 msg)) audit))
     (tool_execute env cfg tool args user st)"

section \<open>What an agent can reach\<close>

lemma read_only_single:
  assumes "is_read_only (classify parse sql)" "statement_count parse sql = 1"
  shows "\<exists>s. parse_any parse sql = Some [s] \<and> \<not> risky_stmt s \<and> \<not> contains_executable_comment sql"
proof -
  obtain s where s: "parse_any parse sql = Some [s]"
    using assms(2) by (auto simp: statement_count_def length_Suc_conv split: option.splits)
  define v where "v = (if contains_executable_comment sql
    then bump Write ''executable comment (/*! */) not allowed'' verdict_empty else verdict_empty)"
  have "rv_class (classify_statement s v) = ReadOnly"
    using assms(1) s by (simp add: classify_def is_read_only_def Let_def v_def)
  moreover have "rv_class (classify_statement s v) = max (rv_class v) (rv_class (classify_statement s verdict_empty))"
    using class_act [of "classify_statement s" v] act_bumps_statements [of "[s]"] by simp
  ultimately have "rv_class v = ReadOnly" "quiet (classify_statement s)"
    by (simp_all add: quiet_def)
  then show ?thesis
    using s quiet_iff_not_risky(1) [of s] by (auto simp: v_def split: if_splits)
qed

lemma find_SomeD: "find P xs = Some x \<Longrightarrow> x \<in> set xs \<and> P x"
  by (induction xs) (auto split: if_splits)

lemma ensure_connection_allowed_Inr:
  assumes "ensure_connection_allowed cfg err ok i st = Inr ()" "find_conn i (as_connections st) = Some c" "store_wf st"
  shows "allows (tc_whitelist cfg) (dc_id c) (dc_name c)"
proof (cases "tc_whitelist cfg = []")
  case False
  have c: "c \<in> set (as_connections st)" "dc_id c = i" using find_conn_SomeD [OF assms(2)] by auto
  let ?cs = "map conn_summary_of (rev (sort_key (\<lambda>c. dc_created_at c) (as_connections st)))"
  have "find (\<lambda>s. cs_id s = i) ?cs \<noteq> None"
    using c by (auto simp: find_None_iff conn_summary_of_def)
  then obtain s where s: "find (\<lambda>s. cs_id s = i) ?cs = Some s" by auto
  obtain d where d: "d \<in> set (as_connections st)" "s = conn_summary_of d" "dc_id d = i"
    using find_SomeD [OF s] by (auto simp: conn_summary_of_def)
  have "d = c" using d c assms(3) by (auto simp: store_wf_def distinct_map inj_on_def)
  then show ?thesis
    using assms(1) False s d
    by (auto simp: ensure_connection_allowed_def list_connection_summaries_def rust_res conn_summary_of_def split: if_splits)
qed (simp add: allows_def)

lemma exec_read_query_sent:
  assumes "exec_read_query env ok timeout c db sql limit st = (r, sent)" "x \<in> set sent"
  shows "x = (c, sql, max limit 1) \<and> find_conn c (as_connections st) \<noteq> None"
  using assms
  by (auto simp: exec_read_query_def meta_load_connection_def Let_def split: sum.splits option.splits if_splits)

lemma read_limit_bounds: "read_limit cfg m = Some n \<Longrightarrow> n \<le> tc_max_rows cfg"
  by (auto simp: read_limit_def split: option.splits if_splits)

lemma run_read_query_sent:
  assumes "run_read_query env cfg args st = Some (r, sent)" "(c, sql, n) \<in> set sent"
  shows "is_read_only (classify (me_parse env) sql) \<and> statement_count (me_parse env) sql = 1 \<and>
    ensure_connection_allowed cfg (me_db_error env) (me_ok env 0) c st = Inr () \<and> find_conn c (as_connections st) \<noteq> None \<and>
    1 \<le> n \<and> n \<le> max (tc_max_rows cfg) 1"
proof -
  let ?checks = "and_then (bad_request (require_str (me_json env) args ''connection_id'')) (\<lambda>conn_id.
           and_then (bad_request (require_str (me_json env) args ''sql'')) (\<lambda>sql.
           and_then (bad_request (arg_str (me_json env) args ''database'')) (\<lambda>db.
           and_then (bad_request (arg_u64 (me_json env) args ''max_rows'')) (\<lambda>max_rows.
           and_then (ensure_connection_allowed cfg (me_db_error env) (me_ok env 0) conn_id st) (\<lambda>_.
             let verdict = classify (me_parse env) sql in
             if \<not> is_read_only verdict then Inl (not_read_only_message verdict)
             else if statement_count (me_parse env) sql \<noteq> 1
             then Inl ''MULTI_STATEMENT: send exactly one SQL statement per read_query call''
             else Inr (conn_id, sql, db, max_rows))))))"
  obtain ci q db m where checks: "?checks = Inr (ci, q, db, m)"
    using assms by (cases ?checks) (auto simp: run_read_query_def)
  then have ok: "ensure_connection_allowed cfg (me_db_error env) (me_ok env 0) ci st = Inr ()" "is_read_only (classify (me_parse env) q)"
      "statement_count (me_parse env) q = 1"
    by (auto simp: rust_res Let_def split: if_splits)
  obtain limit where limit: "read_limit cfg m = Some limit"
    using assms(1) checks by (cases "read_limit cfg m") (auto simp: run_read_query_def)
  obtain r' where "exec_read_query env (me_ok env 1) (tc_timeout_secs cfg) ci db q limit st = (r', sent)"
    using assms(1) checks limit unfolding run_read_query_def
    by (cases "exec_read_query env (me_ok env 1) (tc_timeout_secs cfg) ci db q limit st") (auto split: sum.splits)
  from exec_read_query_sent [OF this assms(2)] ok read_limit_bounds [OF limit] show ?thesis by auto
qed

lemma tool_execute_reads:
  assumes "tool_execute env cfg tool args user st = Some out" "to_reads out \<noteq> []"
  shows "tool = ''read_query'' \<and> to_store out = st \<and> (\<exists>args r. run_read_query env cfg args st = Some (r, to_reads out))"
  using assms unfolding tool_execute_def Let_def
  by (auto simp: plain_outcome_def split: option.splits if_splits prod.splits) blast

lemma tool_execute_writes:
  assumes "tool_execute env cfg tool args user st = Some out" "to_writes out \<noteq> []"
  shows "tool = ''execute_write'' \<and>
    (\<exists>args cl. user = Some cl \<and> execute_write env cfg args cl st = (to_result out, to_store out, to_writes out))"
  using assms unfolding tool_execute_def Let_def
  by (auto simp: plain_outcome_def split: option.splits if_splits prod.splits)

text \<open>
  C5. What an agent reads is read-only: a query reaches a target only from \<open>read_query\<close>, as one
  statement without any write, DDL, transaction, locking or side-effect construct the classifier knows
  and without an executable comment, on a connection the whitelist exposes, and for at most the
  configured number of rows; the server's tables do not change.
\<close>

theorem agent_reads_are_read_only:
  assumes "store_wf st" "tool_execute env cfg tool args user st = Some out" "(c, sql, n) \<in> set (to_reads out)"
  shows "\<exists>conn s. find_conn c (as_connections st) = Some conn \<and> allows (tc_whitelist cfg) (dc_id conn) (dc_name conn) \<and>
    parse_any (me_parse env) sql = Some [s] \<and> \<not> risky_stmt s \<and> \<not> contains_executable_comment sql \<and>
    1 \<le> n \<and> n \<le> max (tc_max_rows cfg) 1 \<and> to_store out = st"
proof -
  have "to_reads out \<noteq> []" using assms(3) by auto
  from tool_execute_reads [OF assms(2) this] obtain args r where
    st: "to_store out = st" and run: "run_read_query env cfg args st = Some (r, to_reads out)" by blast
  note q = run_read_query_sent [OF run assms(3)]
  then obtain conn where conn: "find_conn c (as_connections st) = Some conn" by auto
  have "allows (tc_whitelist cfg) (dc_id conn) (dc_name conn)"
    by (rule ensure_connection_allowed_Inr [OF _ conn assms(1)]) (use q in blast)
  then show ?thesis using read_only_single q conn st by blast
qed

lemma load_own_approval_Inr:
  assumes "load_own_approval ok i cl st = Inr a"
  shows "a \<in> set (as_approvals st) \<and> ap_id a = i \<and> ap_submitter_id a = cl_sub cl"
  using assms find_SomeD by (fastforce simp: load_own_approval_def rust_res split: if_splits)

lemma execute_load_Inr:
  assumes "execute_load env cfg args cl st = Inr (i, a)"
  shows "\<not> is_gated (as_entitlement st) \<and> a \<in> set (as_approvals st) \<and> ap_id a = i \<and> ap_submitter_id a = cl_sub cl \<and>
    ap_status a = ''approved'' \<and> ensure_connection_allowed cfg (me_db_error env) (me_ok env 1) (ap_target_db_id a) st = Inr ()"
  using assms load_own_approval_Inr
  by (auto simp: execute_load_def write_gate_blocked_def rust_res split: if_splits)

text \<open>
  C25. What an agent executes was approved: a statement reaches a target only from \<open>execute_write\<close>, while
  the license is not gated, for an approval the same caller submitted, that is approved and not yet
  executed, on an exposed connection; it is a DDL statement of the submitted text.
\<close>

theorem agent_writes_are_approved:
  assumes "store_wf st" "tool_execute env cfg tool args user st = Some out" "s \<in> set (to_writes out)"
  shows "\<exists>cl a conn stmts. user = Some cl \<and> \<not> is_gated (as_entitlement st) \<and> a \<in> set (as_approvals st) \<and>
    ap_submitter_id a = cl_sub cl \<and> ap_status a = ''approved'' \<and> ap_exec_status a = ''pending'' \<and>
    find_conn (ap_target_db_id a) (as_connections st) = Some conn \<and> allows (tc_whitelist cfg) (dc_id conn) (dc_name conn) \<and>
    split_sql_script (ap_ddl_sql a) = Some stmts \<and> s \<in> set stmts \<and> is_ddl_statement s"
proof -
  have ne: "to_writes out \<noteq> []" using assms(3) by auto
  from tool_execute_writes [OF assms(2) ne] obtain args cl where
    user: "user = Some cl" and ex: "execute_write env cfg args cl st = (to_result out, to_store out, to_writes out)" by blast
  obtain i a where load: "execute_load env cfg args cl st = Inr (i, a)"
    using ex ne by (cases "execute_load env cfg args cl st") (auto simp: execute_write_def)
  note a = execute_load_Inr [OF load]
  obtain aps where claim: "execute_claim (me_ok env 2) (me_now env) i (as_approvals st) = (Inr True, aps)"
    using ex ne load unfolding execute_write_def
    by (cases "execute_claim (me_ok env 2) (me_now env) i (as_approvals st)") (auto split: sum.splits bool.splits)
  obtain r where run: "execute_ddl_on_target_with_key (me_crypto env) (me_key env) (me_ddl env) (as_connections st)
      (ap_target_db_id a) (ap_ddl_sql a) = (r, to_writes out)"
    using ex load claim unfolding execute_write_def by (auto simp: Let_def split: prod.splits)
  obtain conn stmts where c: "find_conn (ap_target_db_id a) (as_connections st) = Some conn"
      "split_sql_script (ap_ddl_sql a) = Some stmts" "ddl_check stmts = Inr ()" "ddl_run (de_answer (me_ddl env)) stmts [] = (r, to_writes out)"
    using execute_ddl_sends [OF run] ne by metis
  have clean: "t \<noteq> [] \<and> trim t = t" if "t \<in> set stmts" for t
    using c(2) that by (rule split_sql_script_clean)
  have s: "s \<in> set stmts" "is_ddl_statement s"
    using ddl_run_prefix [OF clean c(4)] assms(3) ddl_check_all [OF c(3)] clean by (auto dest: in_set_takeD) (metis in_set_takeD)
  obtain b where "b \<in> set (as_approvals st)" "ap_id b = i" "ap_exec_status b = ''pending''"
    using execute_claim_True(1) [OF claim] by (auto simp: list_ex_iff)
  then have "ap_exec_status a = ''pending''"
    using a assms(1) same_id_same_row by (metis store_wf_def)
  moreover have "allows (tc_whitelist cfg) (dc_id conn) (dc_name conn)"
    by (rule ensure_connection_allowed_Inr [OF _ c(1) assms(1)]) (use a in blast)
  ultimately show ?thesis using user a c s by blast
qed

lemma submit_write_store:
  assumes "submit_write env cfg args cl st = (r, st')" "st' \<noteq> st"
  shows "\<not> is_gated (as_entitlement st) \<and>
    (\<exists>sql c. st' = st\<lparr>as_approvals := as_approvals st @ [new_approval (me_id env) (cl_sub cl) sql c (me_now env)]\<rparr> \<and> conn_exists c st \<and>
       \<not> is_read_only (classify (me_parse env) sql) \<and> statement_count (me_parse env) sql = 1)"
proof -
  have "ap_target_db_id (new_approval i sub sql c now) = c" for i sub sql c now by (simp add: new_approval_def)
  with assms show ?thesis
    by (auto simp: submit_write_def write_gate_blocked_def insert_approval_def rust_res Let_def
        split: if_splits option.splits sum.splits) blast
qed

lemma execute_write_store:
  assumes "execute_write env cfg args cl st = (r, st', sent)" "st' \<noteq> st"
  shows "\<not> is_gated (as_entitlement st) \<and> (\<exists>i a. execute_load env cfg args cl st = Inr (i, a))"
proof (cases "execute_load env cfg args cl st")
  case (Inr ia)
  obtain i a where ia: "ia = (i, a)" by (cases ia)
  with execute_load_Inr [of env cfg args cl st i a] Inr show ?thesis by auto
qed (use assms in \<open>simp add: execute_write_def\<close>)

lemma execute_write_connections:
  "execute_write env cfg args cl st = (r, st', sent) \<Longrightarrow> as_connections st' = as_connections st \<and> as_tasks st' = as_tasks st"
  by (auto simp: execute_write_def Let_def split: sum.splits prod.splits bool.splits)

lemma tool_execute_store:
  assumes "tool_execute env cfg tool args user st = Some out" "to_store out \<noteq> st"
  shows "\<exists>args cl r sent. user = Some cl \<and>
    (tool = ''submit_write'' \<and> submit_write env cfg args cl st = (r, to_store out) \<or>
     tool = ''execute_write'' \<and> execute_write env cfg args cl st = (r, to_store out, sent))"
  using assms unfolding tool_execute_def Let_def
  by (auto simp: plain_outcome_def split: option.splits if_splits prod.splits) blast+

text \<open>
  An agent changes the server's tables in two ways only, and not at all while the license is gated:
  \<open>submit_write\<close> appends one pending approval in the caller's name for one statement that is not
  read-only, and \<open>execute_write\<close> moves the state of an approved one; connections and tasks never change.
\<close>

theorem agent_changes_only_approvals:
  assumes "tool_execute env cfg tool args user st = Some out" "to_store out \<noteq> st"
  shows "\<not> is_gated (as_entitlement st) \<and> as_connections (to_store out) = as_connections st \<and> as_tasks (to_store out) = as_tasks st \<and>
    (\<exists>cl. user = Some cl \<and>
      (tool = ''submit_write'' \<and> (\<exists>sql c. as_approvals (to_store out) =
          as_approvals st @ [new_approval (me_id env) (cl_sub cl) sql c (me_now env)] \<and>
          \<not> is_read_only (classify (me_parse env) sql) \<and> statement_count (me_parse env) sql = 1) \<or>
       tool = ''execute_write'' \<and> (\<exists>a \<in> set (as_approvals st). ap_submitter_id a = cl_sub cl \<and> ap_status a = ''approved'')))"
proof -
  obtain args cl r sent where user: "user = Some cl"
    and either: "tool = ''submit_write'' \<and> submit_write env cfg args cl st = (r, to_store out) \<or>
     tool = ''execute_write'' \<and> execute_write env cfg args cl st = (r, to_store out, sent)"
    using tool_execute_store [OF assms] by blast
  from either show ?thesis
  proof
    assume "tool = ''submit_write'' \<and> submit_write env cfg args cl st = (r, to_store out)"
    moreover then obtain sql c where "to_store out = st\<lparr>as_approvals := as_approvals st @ [new_approval (me_id env) (cl_sub cl) sql c (me_now env)]\<rparr>"
        "\<not> is_read_only (classify (me_parse env) sql)" "statement_count (me_parse env) sql = 1" "\<not> is_gated (as_entitlement st)"
      using submit_write_store assms(2) by blast
    ultimately show ?thesis
      using user by (intro conjI exI [of _ cl] disjI1 exI [of _ sql] exI [of _ c]) simp_all
  next
    assume ex: "tool = ''execute_write'' \<and> execute_write env cfg args cl st = (r, to_store out, sent)"
    then obtain i a where "execute_load env cfg args cl st = Inr (i, a)"
      using execute_write_store assms(2) by blast
    from execute_load_Inr [OF this] ex user execute_write_connections show ?thesis by blast
  qed
qed

text \<open>
  Approvals are private: what \<open>get_approval\<close> answers a caller, errors included, is what it would
  answer if the table held only the caller's own approvals.
\<close>

theorem approvals_are_private:
  "get_approval env args cl st =
     get_approval env args cl (st\<lparr>as_approvals := filter (\<lambda>a. ap_submitter_id a = cl_sub cl) (as_approvals st)\<rparr>)"
proof -
  have "find (\<lambda>a. ap_id a = i \<and> ap_submitter_id a = cl_sub cl) (filter (\<lambda>a. ap_submitter_id a = cl_sub cl) aps) =
      find (\<lambda>a. ap_id a = i \<and> ap_submitter_id a = cl_sub cl) aps" for i and aps :: "ddl_approval list"
    by (induction aps) auto
  then have "load_own_approval ok i cl (st\<lparr>as_approvals := filter (\<lambda>a. ap_submitter_id a = cl_sub cl) (as_approvals st)\<rparr>) =
      load_own_approval ok i cl st" for ok i
    unfolding load_own_approval_def by simp
  then show ?thesis by (simp only: get_approval_def)
qed

text \<open>
  Every tool call is audited: when the audit table accepts the row, each call that returns leaves
  exactly one new row with the tool's name, the caller and the outcome, and an error of at most 200
  characters of the message.
\<close>

theorem tool_calls_are_audited:
  assumes "mcp_dispatch env cfg io tool args user st audit = Some (out, audit')" "au_accepts io"
  shows "\<exists>row. audit' = audit @ [row] \<and> ar_action row = ''tool_call'' \<and> ar_detail row = Some tool \<and>
    ar_subject row = map_option cl_sub user \<and>
    (case to_result out of
       Inr _ \<Rightarrow> ar_status row = ''ok'' \<and> ar_error row = None
     | Inl msg \<Rightarrow> ar_status row = ''error'' \<and> ar_error row = Some (mcp_truncate_redacted (take 200 msg)))"
  using assms
  by (auto simp: mcp_dispatch_def log_mcp_event_def insert_row_def Let_def split: sum.splits)

text \<open>A configuration with a positive row limit never makes a tool panic.\<close>

lemma tool_execute_returns:
  assumes "1 \<le> tc_max_rows cfg"
  shows "\<exists>out. tool_execute env cfg tool args user st = Some out"
proof -
  have limit: "\<exists>n. read_limit cfg m = Some n" for m
    using assms by (auto simp: read_limit_def split: option.splits)
  have "\<exists>r sent. run_read_query env cfg a st = Some (r, sent)" for a
    using limit unfolding run_read_query_def
    by (auto split: sum.splits option.splits prod.splits) (metis option.distinct(1))
  then show ?thesis unfolding tool_execute_def Let_def
    by (auto split: option.splits prod.splits)
qed

section \<open>Witnesses\<close>

definition agent_parser :: sql_parser where
  "agent_parser d sql =
     (if sql = ''SELECT * FROM t'' then Some [StQuery (Query [] 0 plain_select)]
      else if sql = ''DROP TABLE t'' then Some [StDdl Drop] else None)"

definition agent_env :: mcp_env where
  "agent_env = \<lparr>me_parse = agent_parser, me_json = \<lparr>jl_text = (\<lambda>_. ''{}''), jl_strings = (\<lambda>_. ''[]'')\<rparr>, me_ok = (\<lambda>_. True), me_db_error = [],
     me_crypto = sample_crypto, me_key = [], me_id = ''a'', me_now = ''t1'', me_tunnel = (\<lambda>_. None),
     me_query = (\<lambda>_ _ _ _. QueryResult (JObj [])), me_elapsed_ms = 1, me_databases = (\<lambda>_. Inr JNull), me_tables = (\<lambda>_ _. Inr JNull),
     me_describe = (\<lambda>_ _ _. Inr JNull),
     me_ddl = \<lparr>de_load_error = None, de_guard_ok = True, de_answer = (\<lambda>_ _. None)\<rparr>\<rparr>"

definition agent_cfg :: tool_config where
  "agent_cfg = \<lparr>tc_max_rows = 100, tc_timeout_secs = 30, tc_whitelist = [''n'']\<rparr>"

definition agent_claims :: claims where
  "agent_claims = \<lparr>cl_sub = ''u1'', cl_iat = 0, cl_exp = 9, cl_jti = ''j''\<rparr>"

definition read_args :: json_object where
  "read_args = [(''connection_id'', JStr ''c''), (''sql'', JStr ''SELECT * FROM t'')]"

definition submit_args :: json_object where
  "submit_args = [(''connection_id'', JStr ''c''), (''sql'', JStr ''DROP TABLE t'')]"

definition approved_appr :: ddl_approval where
  "approved_appr = sample_appr\<lparr>ap_status := ''approved''\<rparr>"

definition out_of :: "string \<Rightarrow> json_object \<Rightarrow> auto_store \<Rightarrow> tool_outcome" where
  "out_of tool args st = the (tool_execute agent_env agent_cfg tool (Some args) (Some agent_claims) st)"

lemma sample_calls:
  "tool_execute agent_env agent_cfg ''read_query'' (Some read_args) (Some agent_claims) (demo_store []) =
     Some (out_of ''read_query'' read_args (demo_store []))"
  "tool_execute agent_env agent_cfg ''submit_write'' (Some submit_args) (Some agent_claims) (demo_store []) =
     Some (out_of ''submit_write'' submit_args (demo_store []))"
  "tool_execute agent_env agent_cfg ''execute_write'' (Some [(''approval_id'', JStr ''a'')]) (Some agent_claims)
     (demo_store [approved_appr]) =
     Some (out_of ''execute_write'' [(''approval_id'', JStr ''a'')] (demo_store [approved_appr]))"
  by code_simp+

lemma demo_stores_wf: "store_wf (demo_store [])" "store_wf (demo_store [approved_appr])"
  by (simp_all add: store_wf_def demo_store_def sample_conn_def approved_appr_def sample_appr_def new_approval_def
      conn_ids_def)

theorem agent_reads_are_read_only_witness:
  "\<exists>conn s. find_conn ''c'' (as_connections (demo_store [])) = Some conn \<and>
     allows (tc_whitelist agent_cfg) (dc_id conn) (dc_name conn) \<and>
     parse_any (me_parse agent_env) ''SELECT * FROM t'' = Some [s] \<and> \<not> risky_stmt s \<and>
     \<not> contains_executable_comment ''SELECT * FROM t'' \<and> 1 \<le> (100 :: nat) \<and> 100 \<le> max (tc_max_rows agent_cfg) 1 \<and>
     to_store (out_of ''read_query'' read_args (demo_store [])) = demo_store []"
proof (rule agent_reads_are_read_only [OF demo_stores_wf(1) sample_calls(1)])
  show "(''c'', ''SELECT * FROM t'', 100) \<in> set (to_reads (out_of ''read_query'' read_args (demo_store [])))"
    by code_simp
qed

theorem agent_writes_are_approved_witness:
  "\<exists>cl a conn stmts. Some agent_claims = Some cl \<and> \<not> is_gated (as_entitlement (demo_store [approved_appr])) \<and>
     a \<in> set (as_approvals (demo_store [approved_appr])) \<and>
     ap_submitter_id a = cl_sub cl \<and> ap_status a = ''approved'' \<and> ap_exec_status a = ''pending'' \<and>
     find_conn (ap_target_db_id a) (as_connections (demo_store [approved_appr])) = Some conn \<and>
     allows (tc_whitelist agent_cfg) (dc_id conn) (dc_name conn) \<and>
     split_sql_script (ap_ddl_sql a) = Some stmts \<and> ''DROP TABLE t'' \<in> set stmts \<and> is_ddl_statement ''DROP TABLE t''"
proof (rule agent_writes_are_approved [OF demo_stores_wf(2) sample_calls(3)])
  show "''DROP TABLE t'' \<in> set (to_writes (out_of ''execute_write'' [(''approval_id'', JStr ''a'')] (demo_store [approved_appr])))"
    by code_simp
qed

theorem agent_changes_only_approvals_witness:
  "as_connections (to_store (out_of ''submit_write'' submit_args (demo_store []))) = [sample_conn] \<and>
   as_approvals (to_store (out_of ''submit_write'' submit_args (demo_store []))) = [sample_appr]"
proof -
  have "as_approvals (to_store (out_of ''submit_write'' submit_args (demo_store []))) = [sample_appr]" by code_simp
  moreover then have "to_store (out_of ''submit_write'' submit_args (demo_store [])) \<noteq> demo_store []"
    by (auto simp: demo_store_def)
  from agent_changes_only_approvals [OF sample_calls(2) this] show ?thesis
    using calculation by (simp add: demo_store_def)
qed

theorem tool_calls_are_audited_witness:
  "\<exists>row.
     snd (the (mcp_dispatch agent_env agent_cfg \<lparr>au_id = ''x'', au_now = ''t'', au_accepts = True\<rparr> ''drop_all'' None (Some agent_claims) (demo_store []) [])) =
     [row] \<and> ar_detail row = Some ''drop_all'' \<and> ar_status row = ''error''"
proof -
  let ?io = "\<lparr>au_id = ''x'', au_now = ''t'', au_accepts = True\<rparr>"
  obtain out audit where d: "mcp_dispatch agent_env agent_cfg ?io ''drop_all'' None (Some agent_claims) (demo_store []) [] = Some (out, audit)"
      and out: "to_result out = Inl (''unknown tool '' @ quoted_name ''drop_all'')"
    by (simp add: mcp_dispatch_def tool_execute_def plain_outcome_def)
  from tool_calls_are_audited [OF d] obtain row where "audit = [row]" "ar_detail row = Some ''drop_all''" "ar_status row = ''error''"
    using out by auto
  with d show ?thesis by (intro exI [of _ row]) simp
qed

end
