(* ===== verification/Accounts.thy ===== *)
theory Accounts
  imports Request_Guards Text_Case
begin

text \<open>
  Accounts and sessions of the server: \<open>crates/core/src/user/handler.rs\<close> and \<open>model.rs\<close>, the tokens of
  \<open>auth/jwt.rs\<close> and the extractor of \<open>auth/middleware.rs\<close>.

  A handler maps the two tables to its answer and the tables it leaves; the statements of a handler are
  not one transaction, so each may fail on its own (\<open>ai_ok k\<close>), with the effects of the earlier ones
  kept. Argon2, the JWT library, the clock and the UUIDs are parameters.
\<close>

section \<open>Model\<close>

subsection \<open>Libraries, configuration and inputs\<close>

datatype jwt_error = JwtExpired | JwtOther

text \<open>
  \<open>al_decode secret now token\<close> is the library's \<open>decode\<close> with its default validation when the clock
  shows \<open>now\<close> seconds; \<open>al_verify\<close> has no value for a stored hash that does not parse.
\<close>

record account_lib =
  al_hash :: "string \<Rightarrow> string \<Rightarrow> string option"
  al_verify :: "string \<Rightarrow> string \<Rightarrow> bool option"
  al_sign :: "string \<Rightarrow> claims \<Rightarrow> string option"
  al_decode :: "string \<Rightarrow> nat \<Rightarrow> string \<Rightarrow> jwt_error + claims"
  al_rfc3339 :: "nat \<Rightarrow> string option"

record account_config =
  ac_registration_enabled :: bool
  ac_jwt_secret :: string
  ac_jwt_refresh_secret :: string

record account_io =
  ai_ok :: "nat \<Rightarrow> bool"
  ai_uuid :: "nat \<Rightarrow> string"
  ai_salt :: string
  ai_now :: string
  ai_secs :: "nat option"

subsection \<open>Tables and requests\<close>

record user_row =
  us_id :: string
  us_email :: string
  us_password_hash :: string
  us_display_name :: string
  us_created_at :: string
  us_updated_at :: string

record refresh_row =
  rf_id :: string
  rf_user_id :: string
  rf_jti :: string
  rf_expires_at :: string
  rf_created_at :: string
  rf_revoked_at :: "string option"

record accounts =
  acc_users :: "user_row list"
  acc_refresh :: "refresh_row list"

record user_response =
  ur_id :: string
  ur_email :: string
  ur_display_name :: string
  ur_created_at :: string
  ur_updated_at :: string

record user_with_tokens =
  uw_user :: user_response
  uw_access_token :: string
  uw_refresh_token :: string

record create_user_request =
  cu_email :: string
  cu_password :: string
  cu_display_name :: string

record login_request =
  lr_email :: string
  lr_password :: string

record update_profile_request =
  up_display_name :: "string option"
  up_password :: "string option"

definition response_of :: "user_row \<Rightarrow> user_response" where
  "response_of u = \<lparr>ur_id = us_id u, ur_email = us_email u, ur_display_name = us_display_name u,
     ur_created_at = us_created_at u, ur_updated_at = us_updated_at u\<rparr>"

text \<open>SQLite's \<open>LOWER\<close>, which knows ASCII only.\<close>

definition sql_lower :: "string \<Rightarrow> string" where
  "sql_lower s = map to_ascii_lower s"

definition valid_name :: "string \<Rightarrow> bool" where
  "valid_name s = (let name = trim s in name \<noteq> [] \<and> utf8_len name \<le> 100)"

definition name_message :: string where
  "name_message = ''Display name must be between 1 and 100 characters.''"

definition password_message :: string where
  "password_message = ''Password must be at least 8 characters.''"

definition validate_create :: "create_user_request \<Rightarrow> string + unit" where
  "validate_create req =
     (let email = trim (cu_email req) in
      if email = [] then Inl ''Email is required.''
      else if CHR 0x40 \<notin> set email \<or> CHR 0x2E \<notin> set email then Inl ''Invalid email format.''
      else if utf8_len (cu_password req) < 8 then Inl password_message
      else if \<not> valid_name (cu_display_name req) then Inl name_message
      else Inr ())"

definition normalized :: "create_user_request \<Rightarrow> create_user_request" where
  "normalized req = req\<lparr>cu_email := to_lowercase (trim (cu_email req)), cu_display_name := trim (cu_display_name req)\<rparr>"

definition validate_update :: "update_profile_request \<Rightarrow> string + unit" where
  "validate_update req =
     (if \<not> (case up_display_name req of Some n \<Rightarrow> valid_name n | None \<Rightarrow> True) then Inl name_message
      else if \<not> (case up_password req of Some p \<Rightarrow> 8 \<le> utf8_len p | None \<Rightarrow> True) then Inl password_message
      else Inr ())"

subsection \<open>Tokens\<close>

definition access_token_ttl_secs :: nat where
  "access_token_ttl_secs = 900"

definition refresh_token_ttl_secs :: nat where
  "refresh_token_ttl_secs = 604800"

definition embedded_access_token_ttl_secs :: nat where
  "embedded_access_token_ttl_secs = 30 * 24 * 3600"

definition embedded_refresh_token_ttl_secs :: nat where
  "embedded_refresh_token_ttl_secs = 31 * 24 * 3600"

definition issue_claims :: "string \<Rightarrow> nat \<Rightarrow> nat \<Rightarrow> string \<Rightarrow> claims" where
  "issue_claims user_id now ttl_secs jti = \<lparr>cl_sub = user_id, cl_iat = now, cl_exp = now + ttl_secs, cl_jti = jti\<rparr>"

text \<open>Without a clock value the system time lies before the epoch.\<close>

definition issue_with_ttl :: "account_lib \<Rightarrow> string \<Rightarrow> nat option \<Rightarrow> string \<Rightarrow> string \<Rightarrow> nat \<Rightarrow> app_error + (string \<times> claims)" where
  "issue_with_ttl lib secret secs jti user_id ttl_secs =
     (case secs of
        None \<Rightarrow> Inl internal_error
      | Some now \<Rightarrow>
          let c = issue_claims user_id now ttl_secs jti
          in case al_sign lib secret c of None \<Rightarrow> Inl internal_error | Some t \<Rightarrow> Inr (t, c))"

definition jwt_app_error :: "jwt_error \<Rightarrow> app_error" where
  "jwt_app_error e = (case e of JwtExpired \<Rightarrow> TokenExpired | JwtOther \<Rightarrow> AppUnauthorized ''Invalid or malformed token.'')"

definition verify_access_token :: "account_lib \<Rightarrow> account_config \<Rightarrow> nat \<Rightarrow> string \<Rightarrow> app_error + claims" where
  "verify_access_token lib cfg now t = map_sum jwt_app_error id (al_decode lib (ac_jwt_secret cfg) now t)"

definition verify_refresh_token :: "account_lib \<Rightarrow> account_config \<Rightarrow> nat \<Rightarrow> string \<Rightarrow> app_error + claims" where
  "verify_refresh_token lib cfg now t = map_sum jwt_app_error id (al_decode lib (ac_jwt_refresh_secret cfg) now t)"

text \<open>The extractor of every authenticated handler; the header, where there is one in visible ASCII.\<close>

definition claims_from_parts :: "account_lib \<Rightarrow> account_config \<Rightarrow> nat \<Rightarrow> string option \<Rightarrow> app_error + claims" where
  "claims_from_parts lib cfg now hdr =
     (case hdr of
        None \<Rightarrow> Inl (AppUnauthorized ''Missing Authorization header.'')
      | Some h \<Rightarrow>
          if starts_with ''Bearer '' h then verify_access_token lib cfg now (drop 7 h)
          else Inl (AppUnauthorized ''Invalid Authorization format. Expected: Bearer <token>''))"

subsection \<open>Statements\<close>

definition insert_user :: "bool \<Rightarrow> user_row \<Rightarrow> accounts \<Rightarrow> accounts option" where
  "insert_user ok u st =
     (if \<not> ok \<or> list_ex (\<lambda>v. us_id v = us_id u \<or> us_email v = us_email u) (acc_users st) then None
      else Some (st\<lparr>acc_users := acc_users st @ [u]\<rparr>))"

definition insert_or_ignore :: "user_row \<Rightarrow> accounts \<Rightarrow> accounts" where
  "insert_or_ignore u st = (case insert_user True u st of Some st' \<Rightarrow> st' | None \<Rightarrow> st)"

definition insert_refresh :: "bool \<Rightarrow> refresh_row \<Rightarrow> accounts \<Rightarrow> accounts option" where
  "insert_refresh ok r st =
     (if \<not> ok \<or> list_ex (\<lambda>q. rf_id q = rf_id r \<or> rf_jti q = rf_jti r) (acc_refresh st) \<or>
         \<not> list_ex (\<lambda>u. us_id u = rf_user_id r) (acc_users st) then None
      else Some (st\<lparr>acc_refresh := acc_refresh st @ [r]\<rparr>))"

definition find_email :: "string \<Rightarrow> accounts \<Rightarrow> user_row option" where
  "find_email email st = find (\<lambda>u. sql_lower (us_email u) = sql_lower email) (acc_users st)"

definition find_user :: "string \<Rightarrow> accounts \<Rightarrow> user_row option" where
  "find_user i st = find (\<lambda>u. us_id u = i) (acc_users st)"

definition upd_user :: "string \<Rightarrow> (user_row \<Rightarrow> user_row) \<Rightarrow> accounts \<Rightarrow> accounts" where
  "upd_user i f st = st\<lparr>acc_users := map (\<lambda>u. if us_id u = i then f u else u) (acc_users st)\<rparr>"

definition revoke_where :: "(refresh_row \<Rightarrow> bool) \<Rightarrow> string \<Rightarrow> accounts \<Rightarrow> accounts" where
  "revoke_where P now st =
     st\<lparr>acc_refresh := map (\<lambda>r. if P r then r\<lparr>rf_revoked_at := Some now\<rparr> else r) (acc_refresh st)\<rparr>"

text \<open>
  Both tokens of a user and the row of the second: the common end of four handlers. Statement \<open>k\<close> stores
  the row; the identifiers are those the handler draws, in order.
\<close>

definition issue_pair :: "account_lib \<Rightarrow> account_config \<Rightarrow> account_io \<Rightarrow> nat \<Rightarrow> nat \<Rightarrow> nat \<Rightarrow> string \<Rightarrow> accounts \<Rightarrow>
    (app_error + string \<times> string) \<times> accounts" where
  "issue_pair lib cfg io k ttl_access ttl_refresh user_id st =
     (case issue_with_ttl lib (ac_jwt_secret cfg) (ai_secs io) (ai_uuid io 1) user_id ttl_access of
        Inl e \<Rightarrow> (Inl e, st)
      | Inr (access, _) \<Rightarrow>
          (case issue_with_ttl lib (ac_jwt_refresh_secret cfg) (ai_secs io) (ai_uuid io 2) user_id ttl_refresh of
             Inl e \<Rightarrow> (Inl e, st)
           | Inr (refresh, c) \<Rightarrow>
               (case insert_refresh (ai_ok io k) \<lparr>rf_id = ai_uuid io 3, rf_user_id = user_id, rf_jti = cl_jti c,
                    rf_expires_at = (case al_rfc3339 lib (cl_exp c) of Some t \<Rightarrow> t | None \<Rightarrow> ai_now io),
                    rf_created_at = ai_now io, rf_revoked_at = None\<rparr> st of
                  None \<Rightarrow> (Inl internal_error, st)
                | Some st' \<Rightarrow> (Inr (access, refresh), st'))))"

subsection \<open>Handlers\<close>

definition register :: "account_lib \<Rightarrow> account_config \<Rightarrow> account_io \<Rightarrow> create_user_request \<Rightarrow> accounts \<Rightarrow>
    (app_error + user_with_tokens) \<times> accounts" where
  "register lib cfg io req st =
     (if \<not> ac_registration_enabled cfg then (Inl RegistrationDisabled, st)
      else let req = normalized req in
      case validate_create req of
        Inl m \<Rightarrow> (Inl (Validation m), st)
      | Inr _ \<Rightarrow>
          if \<not> ai_ok io 0 then (Inl internal_error, st)
          else if find_email (cu_email req) st \<noteq> None then (Inl (Conflict ''Email already registered.''), st)
          else (case al_hash lib (ai_salt io) (cu_password req) of
              None \<Rightarrow> (Inl internal_error, st)
            | Some h \<Rightarrow>
                let u = \<lparr>us_id = ai_uuid io 0, us_email = cu_email req, us_password_hash = h,
                         us_display_name = cu_display_name req, us_created_at = ai_now io, us_updated_at = ai_now io\<rparr>
                in (case insert_user (ai_ok io 1) u st of
                     None \<Rightarrow> (Inl internal_error, st)
                   | Some st' \<Rightarrow>
                       let (r, st'') = issue_pair lib cfg io 2 access_token_ttl_secs refresh_token_ttl_secs (us_id u) st'
                       in (map_sum id (\<lambda>(a, t). \<lparr>uw_user = response_of u, uw_access_token = a, uw_refresh_token = t\<rparr>) r, st''))))"

definition login :: "account_lib \<Rightarrow> account_config \<Rightarrow> account_io \<Rightarrow> login_request \<Rightarrow> accounts \<Rightarrow>
    (app_error + user_with_tokens) \<times> accounts" where
  "login lib cfg io req st =
     (let email = to_lowercase (trim (lr_email req)) in
      if \<not> ai_ok io 0 then (Inl internal_error, st)
      else case find_email email st of
        None \<Rightarrow> (Inl InvalidCredentials, st)
      | Some u \<Rightarrow>
          (case al_verify lib (lr_password req) (us_password_hash u) of
             None \<Rightarrow> (Inl internal_error, st)
           | Some False \<Rightarrow> (Inl InvalidCredentials, st)
           | Some True \<Rightarrow>
               let (r, st') = issue_pair lib cfg io 1 access_token_ttl_secs refresh_token_ttl_secs (us_id u) st
               in (map_sum id (\<lambda>(a, t). \<lparr>uw_user = response_of u, uw_access_token = a, uw_refresh_token = t\<rparr>) r, st')))"

definition get_me :: "account_io \<Rightarrow> claims \<Rightarrow> accounts \<Rightarrow> app_error + user_response" where
  "get_me io cl st =
     (if \<not> ai_ok io 0 then Inl internal_error
      else case find_user (cl_sub cl) st of
        Some u \<Rightarrow> Inr (response_of u)
      | None \<Rightarrow> Inl (NotFound ''User not found.''))"

text \<open>The three parts of \<open>update_me\<close>, each of which an error ends with what the earlier ones did.\<close>

definition update_name :: "account_io \<Rightarrow> claims \<Rightarrow> string option \<Rightarrow> accounts \<Rightarrow> (app_error + unit) \<times> accounts" where
  "update_name io cl name st =
     (case name of
        None \<Rightarrow> (Inr (), st)
      | Some n \<Rightarrow>
          if \<not> ai_ok io 0 then (Inl internal_error, st)
          else (Inr (), upd_user (cl_sub cl) (\<lambda>u. u\<lparr>us_display_name := trim n, us_updated_at := ai_now io\<rparr>) st))"

definition update_password :: "account_lib \<Rightarrow> account_io \<Rightarrow> claims \<Rightarrow> string option \<Rightarrow> accounts \<Rightarrow> (app_error + unit) \<times> accounts" where
  "update_password lib io cl password st =
     (case password of
        None \<Rightarrow> (Inr (), st)
      | Some p \<Rightarrow>
          (case al_hash lib (ai_salt io) p of
             None \<Rightarrow> (Inl internal_error, st)
           | Some h \<Rightarrow>
               if \<not> ai_ok io 1 then (Inl internal_error, st)
               else let st = upd_user (cl_sub cl) (\<lambda>u. u\<lparr>us_password_hash := h, us_updated_at := ai_now io\<rparr>) st in
               if \<not> ai_ok io 2 then (Inl internal_error, st)
               else (Inr (), revoke_where (\<lambda>r. rf_user_id r = cl_sub cl \<and> rf_revoked_at r = None) (ai_now io) st)))"

definition update_me :: "account_lib \<Rightarrow> account_io \<Rightarrow> claims \<Rightarrow> update_profile_request \<Rightarrow> accounts \<Rightarrow>
    (app_error + user_response) \<times> accounts" where
  "update_me lib io cl req st =
     (case validate_update req of
        Inl m \<Rightarrow> (Inl (Validation m), st)
      | Inr _ \<Rightarrow>
          (case update_name io cl (up_display_name req) st of
             (Inl e, st1) \<Rightarrow> (Inl e, st1)
           | (Inr _, st1) \<Rightarrow>
               (case update_password lib io cl (up_password req) st1 of
                  (Inl e, st2) \<Rightarrow> (Inl e, st2)
                | (Inr _, st2) \<Rightarrow>
                    (if \<not> ai_ok io 3 then Inl internal_error
                     else case find_user (cl_sub cl) st2 of Some u \<Rightarrow> Inr (response_of u) | None \<Rightarrow> Inl internal_error, st2))))"

text \<open>A refresh checks the presented token and then rotates the row it found.\<close>

definition refresh_check :: "account_lib \<Rightarrow> account_config \<Rightarrow> bool \<Rightarrow> nat \<Rightarrow> string \<Rightarrow> accounts \<Rightarrow>
    app_error + (claims \<times> refresh_row)" where
  "refresh_check lib cfg ok now t st =
     and_then (verify_refresh_token lib cfg now t) (\<lambda>c.
       if \<not> ok then Inl internal_error
       else case find (\<lambda>r. rf_jti r = cl_jti c) (acc_refresh st) of
           None \<Rightarrow> Inl (AppUnauthorized ''Invalid refresh token.'')
         | Some r \<Rightarrow> if rf_revoked_at r \<noteq> None then Inl (AppUnauthorized ''Refresh token has been revoked.'') else Inr (c, r))"

definition refresh_rotate :: "account_lib \<Rightarrow> account_config \<Rightarrow> account_io \<Rightarrow> claims \<Rightarrow> refresh_row \<Rightarrow> accounts \<Rightarrow>
    (app_error + string \<times> string) \<times> accounts" where
  "refresh_rotate lib cfg io c row st =
     (if \<not> ai_ok io 1 then (Inl internal_error, st)
      else issue_pair lib cfg io 2 access_token_ttl_secs refresh_token_ttl_secs (cl_sub c)
             (revoke_where (\<lambda>r. rf_id r = rf_id row) (ai_now io) st))"

definition refresh_token :: "account_lib \<Rightarrow> account_config \<Rightarrow> account_io \<Rightarrow> nat \<Rightarrow> string \<Rightarrow> accounts \<Rightarrow>
    (app_error + string \<times> string) \<times> accounts" where
  "refresh_token lib cfg io now t st =
     (case refresh_check lib cfg (ai_ok io 0) now t st of
        Inl e \<Rightarrow> (Inl e, st)
      | Inr (c, row) \<Rightarrow> refresh_rotate lib cfg io c row st)"

definition embedded_user_email :: string where
  "embedded_user_email = ''embedded@local''"

text \<open>The user of an embedded server; \<open>password\<close> is the random throw-away one.\<close>

definition ensure_embedded_user_and_tokens :: "account_lib \<Rightarrow> account_config \<Rightarrow> account_io \<Rightarrow> string \<Rightarrow> accounts \<Rightarrow>
    (app_error + string \<times> string \<times> string) \<times> accounts" where
  "ensure_embedded_user_and_tokens lib cfg io password st =
     (case al_hash lib (ai_salt io) password of
        None \<Rightarrow> (Inl internal_error, st)
      | Some h \<Rightarrow>
          if \<not> ai_ok io 0 then (Inl internal_error, st)
          else let u = \<lparr>us_id = ai_uuid io 0, us_email = embedded_user_email, us_password_hash = h,
                        us_display_name = ''Embedded User'', us_created_at = ai_now io, us_updated_at = ai_now io\<rparr>;
                   st = insert_or_ignore u st
          in if \<not> ai_ok io 1 then (Inl internal_error, st)
          else case find_email embedded_user_email st of
              None \<Rightarrow> (Inl internal_error, st)
            | Some v \<Rightarrow>
                let (r, st') = issue_pair lib cfg io 2 embedded_access_token_ttl_secs embedded_refresh_token_ttl_secs (us_id v) st
                in (map_sum id (\<lambda>(a, t). (us_id v, a, t)) r, st'))"

section \<open>Requests\<close>

datatype account_request =
  RegisterReq create_user_request | LoginReq login_request | UpdateMeReq claims update_profile_request |
  RefreshReq nat string | EmbeddedBoot string

definition account_exec :: "account_lib \<Rightarrow> account_config \<Rightarrow> account_io \<times> account_request \<Rightarrow> accounts \<Rightarrow> accounts" where
  "account_exec lib cfg req st =
     (case req of
        (io, RegisterReq r) \<Rightarrow> snd (register lib cfg io r st)
      | (io, LoginReq r) \<Rightarrow> snd (login lib cfg io r st)
      | (io, UpdateMeReq cl r) \<Rightarrow> snd (update_me lib io cl r st)
      | (io, RefreshReq now t) \<Rightarrow> snd (refresh_token lib cfg io now t st)
      | (io, EmbeddedBoot p) \<Rightarrow> snd (ensure_embedded_user_and_tokens lib cfg io p st))"

section \<open>What every request does to the tables\<close>

lemma ccode_char_of: "n < 256 \<Longrightarrow> ccode (char_of n) = n"
  by (simp add: ccode_def)

lemma to_ascii_lower_lower: "to_ascii_lower (to_lower c) = to_lower c"
proof -
  have "\<not> is_ascii_upper (to_lower c)"
    by (auto simp: to_lower_def is_ascii_upper_def ccode_char_of)
  then show ?thesis by (simp add: to_ascii_lower_def)
qed

lemma sql_lower_to_lowercase [simp]: "sql_lower (to_lowercase s) = to_lowercase s"
  by (simp add: sql_lower_def to_lowercase_def to_ascii_lower_lower)

lemma sql_lower_embedded [simp]: "sql_lower embedded_user_email = embedded_user_email"
  by code_simp

definition accounts_wf :: "accounts \<Rightarrow> bool" where
  "accounts_wf st =
     (distinct (map us_id (acc_users st)) \<and> distinct (map us_email (acc_users st)) \<and>
      list_all (\<lambda>u. sql_lower (us_email u) = us_email u) (acc_users st) \<and>
      distinct (map rf_id (acc_refresh st)) \<and> distinct (map rf_jti (acc_refresh st)) \<and>
      list_all (\<lambda>r. rf_user_id r \<in> set (map us_id (acc_users st))) (acc_refresh st))"

text \<open>The statements of the handlers; only users in \<open>K\<close> get another password.\<close>

inductive acc_step :: "string set \<Rightarrow> accounts \<Rightarrow> accounts \<Rightarrow> bool" for K where
  insert_user: "acc_step K st st'" if "insert_user True u st = Some st'" "sql_lower (us_email u) = us_email u"
| update_user: "acc_step K st (upd_user i f st)"
    if "\<And>u. us_id (f u) = us_id u" "\<And>u. us_email (f u) = us_email u"
      "\<And>u. i \<notin> K \<Longrightarrow> us_password_hash (f u) = us_password_hash u"
| revoke: "acc_step K st (revoke_where P now st)"
| insert_refresh: "acc_step K st st'" if "insert_refresh True r st = Some st'" "rf_revoked_at r = None"

abbreviation acc_steps :: "string set \<Rightarrow> accounts \<Rightarrow> accounts \<Rightarrow> bool" where
  "acc_steps K \<equiv> (acc_step K)\<^sup>*\<^sup>*"

lemma insert_user_ok: "insert_user ok u st = Some st' \<Longrightarrow> insert_user True u st = Some st'"
  by (simp add: insert_user_def split: if_splits)

lemma insert_refresh_ok: "insert_refresh ok r st = Some st' \<Longrightarrow> insert_refresh True r st = Some st'"
  by (simp add: insert_refresh_def split: if_splits)

lemma issue_pair_steps:
  assumes "issue_pair lib cfg io k ta tr i st = (r, st')"
  shows "acc_steps K st st'"
  using assms
  by (auto simp: issue_pair_def split: sum.splits option.splits prod.splits
      intro!: r_into_rtranclp acc_step.insert_refresh dest: insert_refresh_ok)

lemma register_steps:
  assumes "register lib cfg io req st = (r, st')"
  shows "acc_steps K st st'"
proof (cases "st' = st")
  case False
  with assms obtain h st1 r1 where
    ins: "insert_user (ai_ok io 1) \<lparr>us_id = ai_uuid io 0, us_email = cu_email (normalized req), us_password_hash = h,
      us_display_name = cu_display_name (normalized req), us_created_at = ai_now io, us_updated_at = ai_now io\<rparr> st = Some st1"
    and pair: "issue_pair lib cfg io 2 access_token_ttl_secs refresh_token_ttl_secs (ai_uuid io 0) st1 = (r1, st')"
    by (auto simp: register_def Let_def split: if_splits sum.splits option.splits prod.splits)
  have "acc_step K st st1"
    by (rule acc_step.insert_user [OF insert_user_ok [OF ins]]) (simp add: normalized_def)
  then show ?thesis using issue_pair_steps [OF pair] by (rule converse_rtranclp_into_rtranclp)
qed simp

lemma login_steps:
  assumes "login lib cfg io req st = (r, st')"
  shows "acc_steps K st st'"
proof (cases "st' = st")
  case False
  with assms obtain i r1 where "issue_pair lib cfg io 1 access_token_ttl_secs refresh_token_ttl_secs i st = (r1, st')"
    by (auto simp: login_def Let_def split: if_splits option.splits bool.splits prod.splits)
  then show ?thesis by (rule issue_pair_steps)
qed simp

lemma update_name_steps: "update_name io cl name st = (r, st') \<Longrightarrow> acc_steps K st st'"
  by (auto simp: update_name_def split: option.splits if_splits intro!: r_into_rtranclp acc_step.update_user)

lemma update_password_steps:
  assumes "update_password lib io cl p st = (r, st')" "p \<noteq> None \<longrightarrow> cl_sub cl \<in> K"
  shows "acc_steps K st st'"
proof (cases "st' = st")
  case False
  with assms obtain h where K: "cl_sub cl \<in> K"
    and st': "st' = upd_user (cl_sub cl) (\<lambda>u. u\<lparr>us_password_hash := h, us_updated_at := ai_now io\<rparr>) st \<or>
      st' = revoke_where (\<lambda>r. rf_user_id r = cl_sub cl \<and> rf_revoked_at r = None) (ai_now io)
        (upd_user (cl_sub cl) (\<lambda>u. u\<lparr>us_password_hash := h, us_updated_at := ai_now io\<rparr>) st)"
    by (auto simp: update_password_def Let_def split: option.splits if_splits)
  have "acc_step K st (upd_user (cl_sub cl) (\<lambda>u. u\<lparr>us_password_hash := h, us_updated_at := ai_now io\<rparr>) st)"
    using K by (intro acc_step.update_user) auto
  then show ?thesis using st' acc_step.revoke by (auto intro: rtranclp.rtrancl_into_rtrancl)
qed simp

lemma update_me_steps:
  assumes "update_me lib io cl req st = (r, st')" "up_password req \<noteq> None \<longrightarrow> cl_sub cl \<in> K"
  shows "acc_steps K st st'"
proof -
  obtain r1 st1 where 1: "update_name io cl (up_display_name req) st = (r1, st1)" by fastforce
  obtain r2 st2 where 2: "update_password lib io cl (up_password req) st1 = (r2, st2)" by fastforce
  have "st' = st \<or> st' = st1 \<or> st' = st2"
    using assms(1) 1 2 by (auto simp: update_me_def split: sum.splits)
  moreover have "acc_steps K st st2"
    using update_name_steps [OF 1] update_password_steps [OF 2 assms(2)] by (rule rtranclp_trans)
  ultimately show ?thesis using update_name_steps [OF 1] by blast
qed

lemma refresh_rotate_steps:
  assumes "refresh_rotate lib cfg io c row st = (r, st')"
  shows "acc_steps K st st'"
proof (cases "ai_ok io 1")
  case True
  with assms have pair: "issue_pair lib cfg io 2 access_token_ttl_secs refresh_token_ttl_secs (cl_sub c)
      (revoke_where (\<lambda>r. rf_id r = rf_id row) (ai_now io) st) = (r, st')"
    by (simp add: refresh_rotate_def)
  show ?thesis by (rule converse_rtranclp_into_rtranclp [OF acc_step.revoke issue_pair_steps [OF pair]])
qed (use assms in \<open>simp add: refresh_rotate_def\<close>)

lemma refresh_token_steps:
  "refresh_token lib cfg io now t st = (r, st') \<Longrightarrow> acc_steps K st st'"
  by (auto simp: refresh_token_def split: sum.splits intro: refresh_rotate_steps)

lemma insert_or_ignore_steps:
  "sql_lower (us_email u) = us_email u \<Longrightarrow> acc_steps K st (insert_or_ignore u st)"
  by (auto simp: insert_or_ignore_def split: option.splits intro!: r_into_rtranclp acc_step.insert_user)

lemma embedded_steps:
  assumes "ensure_embedded_user_and_tokens lib cfg io p st = (r, st')"
  shows "acc_steps K st st'"
proof -
  define u where "u h = \<lparr>us_id = ai_uuid io 0, us_email = embedded_user_email, us_password_hash = h,
    us_display_name = ''Embedded User'', us_created_at = ai_now io, us_updated_at = ai_now io\<rparr>" for h
  have ins: "acc_steps K st (insert_or_ignore (u h) st)" for h
    by (rule insert_or_ignore_steps) (simp add: u_def)
  consider "st' = st" | h where "st' = insert_or_ignore (u h) st"
    | h i r1 where "issue_pair lib cfg io 2 embedded_access_token_ttl_secs embedded_refresh_token_ttl_secs i
        (insert_or_ignore (u h) st) = (r1, st')"
    using assms unfolding ensure_embedded_user_and_tokens_def Let_def u_def [symmetric]
    by (auto split: option.splits if_splits prod.splits)
  then show ?thesis
  proof cases
    case (3 h i r1)
    from rtranclp_trans [OF ins issue_pair_steps [OF this]] show ?thesis .
  qed (use ins in simp_all)
qed

text \<open>A user's password changes only by a request of that user.\<close>

definition changes_password :: "string \<Rightarrow> account_io \<times> account_request \<Rightarrow> bool" where
  "changes_password i req =
     (case snd req of UpdateMeReq cl r \<Rightarrow> cl_sub cl = i \<and> up_password r \<noteq> None | _ \<Rightarrow> False)"

lemma account_exec_steps: "acc_steps {i. changes_password i req} st (account_exec lib cfg req st)"
proof -
  obtain io r where req: "req = (io, r)" by fastforce
  show ?thesis
    by (cases r; simp add: req account_exec_def)
      (auto simp: changes_password_def intro: register_steps login_steps update_me_steps refresh_token_steps embedded_steps prod.collapse [symmetric])
qed

section \<open>Invariants\<close>

lemma map_upd_same: "(\<And>x. g (f x) = g x) \<Longrightarrow> map (g \<circ> (\<lambda>x. if P x then f x else x)) xs = map g xs"
  by (induction xs) auto

lemma upd_user_simps [simp]:
  "acc_refresh (upd_user i f st) = acc_refresh st"
  "(\<And>u. us_id (f u) = us_id u) \<Longrightarrow> map us_id (acc_users (upd_user i f st)) = map us_id (acc_users st)"
  "(\<And>u. us_email (f u) = us_email u) \<Longrightarrow> map us_email (acc_users (upd_user i f st)) = map us_email (acc_users st)"
  by (simp_all add: upd_user_def map_upd_same)

lemma revoke_where_simps [simp]:
  "acc_users (revoke_where P now st) = acc_users st"
  "map rf_id (acc_refresh (revoke_where P now st)) = map rf_id (acc_refresh st)"
  "map rf_jti (acc_refresh (revoke_where P now st)) = map rf_jti (acc_refresh st)"
  "map rf_user_id (acc_refresh (revoke_where P now st)) = map rf_user_id (acc_refresh st)"
  by (simp_all add: revoke_where_def map_upd_same)

lemma list_ex_disj: "list_ex (\<lambda>x. P x \<or> Q x) xs \<longleftrightarrow> list_ex P xs \<or> list_ex Q xs"
  by (induction xs) auto

lemma list_ex_key: "list_ex (\<lambda>x. g x = k) xs \<longleftrightarrow> k \<in> g ` set xs"
  by (induction xs) auto

lemma insert_user_Some:
  "insert_user True u st = Some st' \<longleftrightarrow> st' = st\<lparr>acc_users := acc_users st @ [u]\<rparr> \<and>
     us_id u \<notin> set (map us_id (acc_users st)) \<and> us_email u \<notin> set (map us_email (acc_users st))"
  by (auto simp: insert_user_def list_ex_disj list_ex_key)

lemma insert_refresh_Some:
  "insert_refresh True r st = Some st' \<longleftrightarrow> st' = st\<lparr>acc_refresh := acc_refresh st @ [r]\<rparr> \<and>
     rf_id r \<notin> set (map rf_id (acc_refresh st)) \<and> rf_jti r \<notin> set (map rf_jti (acc_refresh st)) \<and>
     rf_user_id r \<in> set (map us_id (acc_users st))"
  by (auto simp: insert_refresh_def list_ex_disj list_ex_key)

text \<open>The invariant over the key columns alone, so that an update of the other columns rewrites to the same.\<close>

lemma accounts_wf_columns:
  "accounts_wf st \<longleftrightarrow>
     distinct (map us_id (acc_users st)) \<and> distinct (map us_email (acc_users st)) \<and>
     list_all (\<lambda>e. sql_lower e = e) (map us_email (acc_users st)) \<and>
     distinct (map rf_id (acc_refresh st)) \<and> distinct (map rf_jti (acc_refresh st)) \<and>
     set (map rf_user_id (acc_refresh st)) \<subseteq> set (map us_id (acc_users st))"
  by (auto simp: accounts_wf_def list_all_iff)

lemma acc_step_wf: "acc_step K st st' \<Longrightarrow> accounts_wf st \<Longrightarrow> accounts_wf st'"
proof (induction rule: acc_step.induct)
  case (insert_user u st st')
  then show ?case unfolding insert_user_Some accounts_wf_columns by auto
next
  case (insert_refresh r st st')
  then show ?case unfolding insert_refresh_Some accounts_wf_columns by auto
qed (simp_all only: accounts_wf_columns upd_user_simps revoke_where_simps)

lemma acc_steps_wf: "acc_steps K st st' \<Longrightarrow> accounts_wf st \<Longrightarrow> accounts_wf st'"
  by (induction rule: rtranclp_induct) (auto intro: acc_step_wf)

definition jti_revoked :: "string \<Rightarrow> accounts \<Rightarrow> bool" where
  "jti_revoked j st = list_ex (\<lambda>r. rf_jti r = j \<and> rf_revoked_at r \<noteq> None) (acc_refresh st)"

lemma jti_revoked_revoke:
  "jti_revoked j (revoke_where P now st) \<longleftrightarrow>
     list_ex (\<lambda>r. rf_jti r = j \<and> (P r \<or> rf_revoked_at r \<noteq> None)) (acc_refresh st)"
proof -
  have "list_ex (\<lambda>r. rf_jti r = j \<and> rf_revoked_at r \<noteq> None) (map (\<lambda>r. if P r then r\<lparr>rf_revoked_at := Some now\<rparr> else r) rs) =
      list_ex (\<lambda>r. rf_jti r = j \<and> (P r \<or> rf_revoked_at r \<noteq> None)) rs" for rs :: "refresh_row list"
    by (induction rs) auto
  then show ?thesis by (simp add: jti_revoked_def revoke_where_def)
qed

lemma acc_step_revoked: "acc_step K st st' \<Longrightarrow> jti_revoked j st \<Longrightarrow> jti_revoked j st'"
  by (induction rule: acc_step.induct)
    (auto simp: insert_user_Some insert_refresh_Some jti_revoked_revoke, auto simp: jti_revoked_def list_ex_iff)

lemma acc_steps_revoked: "acc_steps K st st' \<Longrightarrow> jti_revoked j st \<Longrightarrow> jti_revoked j st'"
  by (induction rule: rtranclp_induct) (auto intro: acc_step_revoked)

lemma find_id_iff:
  assumes "distinct (map g xs)"
  shows "find (\<lambda>x. g x = k) xs = Some x \<longleftrightarrow> x \<in> set xs \<and> g x = k"
  using assms
proof (induction xs)
  case (Cons y xs)
  then show ?case by (cases "g y = k") (auto simp: image_iff)
qed simp

lemma refresh_check_revoked:
  assumes "jti_revoked j st" "accounts_wf st" "verify_refresh_token lib cfg now t = Inr c" "cl_jti c = j"
  shows "\<exists>e. refresh_check lib cfg ok now t st = Inl e"
proof -
  obtain r where r: "r \<in> set (acc_refresh st)" "rf_jti r = j" "rf_revoked_at r \<noteq> None"
    using assms(1) by (auto simp: jti_revoked_def list_ex_iff)
  then have "find (\<lambda>r. rf_jti r = j) (acc_refresh st) = Some r"
    using assms(2) by (simp add: find_id_iff accounts_wf_def)
  with r assms(3,4) show ?thesis by (auto simp: refresh_check_def)
qed

text \<open>
  What the code relies on of the JWT library: a decoded token yields the claims it was signed with,
  whenever it is decoded, and an unexpired token decodes under the secret that signed it.
\<close>

definition jwt_law :: "account_lib \<Rightarrow> bool" where
  "jwt_law lib \<longleftrightarrow>
     (\<forall>s n t c n' c'. al_decode lib s n t = Inr c \<longrightarrow> al_decode lib s n' t = Inr c' \<longrightarrow> c' = c) \<and>
     (\<forall>s n t c. al_sign lib s c = Some t \<longrightarrow> n \<le> cl_exp c \<longrightarrow> al_decode lib s n t = Inr c)"

lemma verify_refresh_same:
  assumes "jwt_law lib" "verify_refresh_token lib cfg n t = Inr c" "verify_refresh_token lib cfg n' t = Inr c'"
  shows "c' = c"
proof -
  from assms(2,3) have "al_decode lib (ac_jwt_refresh_secret cfg) n t = Inr c" "al_decode lib (ac_jwt_refresh_secret cfg) n' t = Inr c'"
    by (auto simp: verify_refresh_token_def map_sum_def split: sum.splits)
  with assms(1) show ?thesis unfolding jwt_law_def by blast
qed

lemma refresh_token_revoked:
  assumes "jwt_law lib" "accounts_wf st" "jti_revoked j st" "verify_refresh_token lib cfg n0 t = Inr c" "cl_jti c = j"
  shows "\<exists>e. refresh_token lib cfg io n t st = (Inl e, st)"
proof (cases "verify_refresh_token lib cfg n t")
  case (Inr c')
  from verify_refresh_same [OF assms(1,4) this] assms(5) have "cl_jti c' = j" by simp
  with refresh_check_revoked [OF assms(3,2) Inr] obtain e where "refresh_check lib cfg (ai_ok io 0) n t st = Inl e" by blast
  then show ?thesis by (simp add: refresh_token_def)
qed (auto simp: refresh_token_def refresh_check_def)

lemma account_run_frame:
  "acc_steps {i. list_ex (changes_password i) reqs} st (fold (account_exec lib cfg) reqs st)"
proof (induction reqs arbitrary: st)
  case (Cons req reqs)
  have mono: "acc_steps K a b \<Longrightarrow> K \<subseteq> L \<Longrightarrow> acc_steps L a b" for K L a b
  proof (induction rule: rtranclp_induct)
    case (step y z)
    from step(2) step.prems have "acc_step L y z"
    proof (induction rule: acc_step.induct)
      case (update_user f i st)
      then show ?case by (intro acc_step.update_user) auto
    qed (auto intro: acc_step.intros)
    with step show ?case by (meson rtranclp.rtrancl_into_rtrancl)
  qed simp
  have "acc_steps {i. list_ex (changes_password i) (req # reqs)} st (account_exec lib cfg req st)"
    by (rule mono [OF account_exec_steps]) auto
  moreover have "acc_steps {i. list_ex (changes_password i) (req # reqs)} (account_exec lib cfg req st)
      (fold (account_exec lib cfg) reqs (account_exec lib cfg req st))"
    by (rule mono [OF Cons.IH]) auto
  ultimately show ?case by simp
qed simp

text \<open>
  The account tables stay sound under every sequence of requests: user identifiers and addresses are
  unique, addresses also when case is ignored, token identifiers are unique and every session has a user.
\<close>

theorem accounts_stay_wf:
  assumes "accounts_wf st"
  shows "accounts_wf (fold (account_exec lib cfg) reqs st)"
  by (rule acc_steps_wf [OF account_run_frame assms])

text \<open>
  C18. A refresh token works once: after it was exchanged, no sequence of requests makes it work again,
  at whatever time it is presented.
\<close>

theorem refresh_token_works_once:
  assumes "jwt_law lib" "accounts_wf st" "refresh_token lib cfg io now t st = (Inr pair, st')"
  shows "\<exists>e. fst (refresh_token lib cfg io' now' t (fold (account_exec lib cfg) reqs st')) = Inl e"
proof -
  obtain c row where check: "refresh_check lib cfg (ai_ok io 0) now t st = Inr (c, row)"
    and rotate: "refresh_rotate lib cfg io c row st = (Inr pair, st')"
    using assms(3) by (auto simp: refresh_token_def split: sum.splits)
  have v: "verify_refresh_token lib cfg now t = Inr c"
    and row: "find (\<lambda>r. rf_jti r = cl_jti c) (acc_refresh st) = Some row"
    using check by (auto simp: refresh_check_def and_then_Inr split: if_splits option.splits)
  have in_st: "row \<in> set (acc_refresh st)" "rf_jti row = cl_jti c"
    using row assms(2) by (simp_all add: find_id_iff accounts_wf_def)
  define mid where "mid = revoke_where (\<lambda>r. rf_id r = rf_id row) (ai_now io) st"
  have "jti_revoked (cl_jti c) mid"
    using in_st by (auto simp: mid_def jti_revoked_revoke list_ex_iff)
  moreover have "acc_steps {} mid st'"
    using rotate issue_pair_steps by (auto simp: refresh_rotate_def mid_def split: if_splits)
  ultimately have rev: "jti_revoked (cl_jti c) st'" by (metis acc_steps_revoked)
  let ?z = "fold (account_exec lib cfg) reqs st'"
  have "accounts_wf ?z" "jti_revoked (cl_jti c) ?z"
    using refresh_token_steps [OF assms(3)] assms(2) rev acc_steps_wf acc_steps_revoked account_run_frame by blast+
  from refresh_token_revoked [OF assms(1) this v refl] show ?thesis by (metis fst_conv)
qed

section \<open>Passwords\<close>

text \<open>
  C34. A password change ends every session: once it succeeded, no token of a session the user had before
  can be exchanged, after whatever requests and at whatever time.
\<close>

theorem password_change_ends_sessions:
  assumes "jwt_law lib" "accounts_wf st" "update_me lib io cl req st = (Inr u, st')" "up_password req \<noteq> None"
    and "r \<in> set (acc_refresh st)" "rf_user_id r = cl_sub cl"
    and "verify_refresh_token lib cfg now t = Inr c" "cl_jti c = rf_jti r"
  shows "\<exists>e. fst (refresh_token lib cfg io' now' t (fold (account_exec lib cfg) reqs st')) = Inl e"
proof -
  obtain st1 where 1: "update_name io cl (up_display_name req) st = (Inr (), st1)"
    and 2: "update_password lib io cl (up_password req) st1 = (Inr (), st')"
    using assms(3) by (auto simp: update_me_def split: sum.splits prod.splits option.splits if_splits)
  have same: "acc_refresh st1 = acc_refresh st"
    using 1 by (auto simp: update_name_def split: option.splits if_splits)
  obtain h where st': "st' = revoke_where (\<lambda>r. rf_user_id r = cl_sub cl \<and> rf_revoked_at r = None) (ai_now io)
      (upd_user (cl_sub cl) (\<lambda>u. u\<lparr>us_password_hash := h, us_updated_at := ai_now io\<rparr>) st1)"
    using 2 assms(4) by (auto simp: update_password_def Let_def split: option.splits if_splits)
  have "jti_revoked (rf_jti r) st'"
    unfolding st' jti_revoked_revoke upd_user_simps(1) same list_ex_iff using assms(5,6) by (intro bexI [of _ r]) auto
  moreover have "accounts_wf st'"
    using update_me_steps [OF assms(3), of UNIV] assms(2) acc_steps_wf by blast
  ultimately have "accounts_wf (fold (account_exec lib cfg) reqs st')" "jti_revoked (rf_jti r) (fold (account_exec lib cfg) reqs st')"
    using acc_steps_wf acc_steps_revoked account_run_frame by blast+
  from refresh_token_revoked [OF assms(1) this assms(7,8)] show ?thesis by (metis fst_conv)
qed

definition has_login :: "string \<Rightarrow> string \<Rightarrow> string \<Rightarrow> accounts \<Rightarrow> bool" where
  "has_login i email h st = list_ex (\<lambda>u. us_id u = i \<and> us_email u = email \<and> us_password_hash u = h) (acc_users st)"

lemma acc_step_login: "acc_step K st st' \<Longrightarrow> i \<notin> K \<Longrightarrow> has_login i email h st \<Longrightarrow> has_login i email h st'"
proof (induction rule: acc_step.induct)
  case (update_user f j st)
  then obtain u where u: "u \<in> set (acc_users st)" "us_id u = i" "us_email u = email" "us_password_hash u = h"
    by (auto simp: has_login_def list_ex_iff)
  let ?g = "\<lambda>u. if us_id u = j then f u else u"
  have "us_id (?g u) = i" "us_email (?g u) = email" "us_password_hash (?g u) = h"
    using update_user u by auto
  moreover have "?g u \<in> set (acc_users (upd_user j f st))" using u(1) by (auto simp: upd_user_def)
  ultimately show ?case unfolding has_login_def list_ex_iff by blast
qed (auto simp: insert_user_Some insert_refresh_Some has_login_def)

lemma acc_steps_login: "acc_steps K st st' \<Longrightarrow> i \<notin> K \<Longrightarrow> has_login i email h st \<Longrightarrow> has_login i email h st'"
  by (induction rule: rtranclp_induct) (auto intro: acc_step_login)

lemma find_email_has_login:
  assumes "accounts_wf st" "has_login i email h st"
  obtains u where "find_email email st = Some u" "us_id u = i" "us_email u = email" "us_password_hash u = h"
proof -
  obtain u where u: "u \<in> set (acc_users st)" "us_id u = i" "us_email u = email" "us_password_hash u = h"
    using assms(2) by (auto simp: has_login_def list_ex_iff)
  have low: "sql_lower (us_email v) = us_email v" if "v \<in> set (acc_users st)" for v
    using that assms(1) by (auto simp: accounts_wf_def list_all_iff)
  have "find (\<lambda>v. sql_lower (us_email v) = sql_lower email) (acc_users st) = find (\<lambda>v. us_email v = email) (acc_users st)"
    by (rule find_cong) (use low u in auto)
  also have "\<dots> = Some u" using assms(1) u by (simp add: find_id_iff accounts_wf_def)
  finally show thesis using that u by (simp add: find_email_def)
qed

lemma issue_pair_Inl: "issue_pair lib cfg io k ta tr i st = (Inl e, st') \<Longrightarrow> e = internal_error"
  by (auto simp: issue_pair_def issue_with_ttl_def Let_def split: sum.splits option.splits prod.splits)

text \<open>What \<open>login\<close> answers a user whose row is known.\<close>

lemma login_answer:
  assumes "accounts_wf st" "has_login i (to_lowercase (trim (lr_email req))) h st" "ai_ok io 0"
    and "login lib cfg io req st = (res, st')"
  shows "al_verify lib (lr_password req) h = Some False \<Longrightarrow> res = Inl InvalidCredentials"
    and "al_verify lib (lr_password req) h = Some True \<Longrightarrow>
      res = Inl internal_error \<or> (\<exists>uw. res = Inr uw \<and> ur_id (uw_user uw) = i)"
proof -
  obtain u where u: "find_email (to_lowercase (trim (lr_email req))) st = Some u" "us_id u = i" "us_password_hash u = h"
    using find_email_has_login [OF assms(1,2)] by metis
  show "res = Inl InvalidCredentials" if "al_verify lib (lr_password req) h = Some False"
    using u that assms(3,4) by (simp add: login_def Let_def)
  show "res = Inl internal_error \<or> (\<exists>uw. res = Inr uw \<and> ur_id (uw_user uw) = i)"
    if v: "al_verify lib (lr_password req) h = Some True"
  proof -
    obtain r st1 where pair: "issue_pair lib cfg io 1 access_token_ttl_secs refresh_token_ttl_secs i st = (r, st1)" by fastforce
    then have "res = map_sum id (\<lambda>(a, t). \<lparr>uw_user = response_of u, uw_access_token = a, uw_refresh_token = t\<rparr>) r"
      using u v assms(3,4) by (simp add: login_def Let_def)
    with issue_pair_Inl pair u(2) show ?thesis by (cases r) (auto simp: response_of_def)
  qed
qed

lemma register_has_login:
  assumes "register lib cfg io req st = (Inr uw, st')"
  obtains h where "al_hash lib (ai_salt io) (cu_password req) = Some h" "ur_id (uw_user uw) = ai_uuid io 0"
    "has_login (ai_uuid io 0) (to_lowercase (trim (cu_email req))) h st'"
proof -
  obtain h st1 r1 f where h: "al_hash lib (ai_salt io) (cu_password req) = Some h"
    and f: "map_sum id (\<lambda>(a, t). f a t) r1 = Inr uw" "\<And>a t. ur_id (uw_user (f a t)) = ai_uuid io 0"
    and ins: "insert_user (ai_ok io 1) \<lparr>us_id = ai_uuid io 0, us_email = cu_email (normalized req), us_password_hash = h,
      us_display_name = cu_display_name (normalized req), us_created_at = ai_now io, us_updated_at = ai_now io\<rparr> st = Some st1"
    and pair: "issue_pair lib cfg io 2 access_token_ttl_secs refresh_token_ttl_secs (ai_uuid io 0) st1 = (r1, st')"
    using assms
    by (auto simp: register_def Let_def normalized_def response_of_def split: if_splits sum.splits option.splits prod.splits)
  have uw: "ur_id (uw_user uw) = ai_uuid io 0"
    using f by (cases r1) auto
  have "has_login (ai_uuid io 0) (to_lowercase (trim (cu_email req))) h st1"
    using insert_user_ok [OF ins] by (simp add: insert_user_Some has_login_def normalized_def)
  from acc_steps_login [OF issue_pair_steps [OF pair, of "{}"] _ this] h uw that show thesis by simp
qed

text \<open>
  A registered user can log in with the address in any case and with the password given, and with no
  password the hash does not verify, after whatever requests in which this user did not set another one.
\<close>

theorem registered_user_logs_in:
  assumes "accounts_wf st" "register lib cfg io req st = (Inr uw, st')"
    and "\<not> list_ex (changes_password (ur_id (uw_user uw))) reqs"
    and "to_lowercase (trim (lr_email lreq)) = to_lowercase (trim (cu_email req))" "ai_ok io' 0"
    and "login lib cfg io' lreq (fold (account_exec lib cfg) reqs st') = (res, st'')"
  shows "\<exists>h. al_hash lib (ai_salt io) (cu_password req) = Some h \<and>
    (al_verify lib (lr_password lreq) h = Some False \<longrightarrow> res = Inl InvalidCredentials) \<and>
    (al_verify lib (lr_password lreq) h = Some True \<longrightarrow>
       res = Inl internal_error \<or> (\<exists>uw'. res = Inr uw' \<and> ur_id (uw_user uw') = ur_id (uw_user uw)))"
proof -
  obtain h where h: "al_hash lib (ai_salt io) (cu_password req) = Some h" and i: "ur_id (uw_user uw) = ai_uuid io 0"
    and st': "has_login (ai_uuid io 0) (to_lowercase (trim (cu_email req))) h st'"
    using register_has_login [OF assms(2)] .
  let ?z = "fold (account_exec lib cfg) reqs st'"
  have z: "accounts_wf ?z" "has_login (ai_uuid io 0) (to_lowercase (trim (lr_email lreq))) h ?z"
    using acc_steps_wf [OF account_run_frame acc_steps_wf [OF register_steps [OF assms(2), of UNIV] assms(1)]]
      acc_steps_login [OF account_run_frame _ st'] assms(3,4) i by auto
  from login_answer [OF z assms(5,6)] h i show ?thesis by auto
qed

section \<open>Tokens in use\<close>

text \<open>A token decodes only under the secret that signed it: what the code relies on of the signature.\<close>

definition signature_law :: "account_lib \<Rightarrow> bool" where
  "signature_law lib \<longleftrightarrow> (\<forall>s c t s' n c'. al_sign lib s c = Some t \<longrightarrow> al_decode lib s' n t = Inr c' \<longrightarrow> s' = s)"

lemma login_tokens:
  assumes "login lib cfg io req st = (Inr uw, st')"
  obtains now jti jti' where "ai_secs io = Some now"
    "al_sign lib (ac_jwt_secret cfg) (issue_claims (ur_id (uw_user uw)) now access_token_ttl_secs jti) = Some (uw_access_token uw)"
    "al_sign lib (ac_jwt_refresh_secret cfg) (issue_claims (ur_id (uw_user uw)) now refresh_token_ttl_secs jti') = Some (uw_refresh_token uw)"
proof -
  obtain u r where pair: "issue_pair lib cfg io 1 access_token_ttl_secs refresh_token_ttl_secs (us_id u) st = (r, st')"
    and uw: "map_sum id (\<lambda>(a, t). \<lparr>uw_user = response_of u, uw_access_token = a, uw_refresh_token = t\<rparr>) r = Inr uw"
    using assms by (auto simp: login_def Let_def split: if_splits option.splits bool.splits prod.splits)
  obtain a t where r: "r = Inr (a, t)" using uw by (cases r) auto
  with uw have "uw = \<lparr>uw_user = response_of u, uw_access_token = a, uw_refresh_token = t\<rparr>" by simp
  with pair r that show thesis
    by (auto simp: issue_pair_def issue_with_ttl_def response_of_def Let_def split: sum.splits option.splits)
qed

text \<open>
  The access token of a login opens every authenticated handler, for the user who logged in and for
  15 minutes; the refresh token of the same login opens none of them where the two secrets differ.
\<close>

theorem login_tokens_open:
  assumes "jwt_law lib" "signature_law lib" "ac_jwt_secret cfg \<noteq> ac_jwt_refresh_secret cfg"
    and "login lib cfg io req st = (Inr uw, st')" "ai_secs io = Some now" "n \<le> now + 900"
  shows "(\<exists>c. claims_from_parts lib cfg n (Some (''Bearer '' @ uw_access_token uw)) = Inr c \<and> cl_sub c = ur_id (uw_user uw)) \<and>
    (\<exists>e. claims_from_parts lib cfg n (Some (''Bearer '' @ uw_refresh_token uw)) = Inl e)"
proof -
  have bearer: "claims_from_parts lib cfg n (Some (''Bearer '' @ t)) = verify_access_token lib cfg n t" for t
    by (simp add: claims_from_parts_def starts_with_def)
  obtain jti jti' where
    a: "al_sign lib (ac_jwt_secret cfg) (issue_claims (ur_id (uw_user uw)) now access_token_ttl_secs jti) = Some (uw_access_token uw)"
    and r: "al_sign lib (ac_jwt_refresh_secret cfg) (issue_claims (ur_id (uw_user uw)) now refresh_token_ttl_secs jti') = Some (uw_refresh_token uw)"
    using login_tokens [OF assms(4)] assms(5) by (metis option.inject)
  have "al_decode lib (ac_jwt_secret cfg) n (uw_access_token uw) = Inr (issue_claims (ur_id (uw_user uw)) now access_token_ttl_secs jti)"
    using assms(1,6) a unfolding jwt_law_def by (simp add: issue_claims_def access_token_ttl_secs_def)
  moreover obtain e where "al_decode lib (ac_jwt_secret cfg) n (uw_refresh_token uw) = Inl e"
    using assms(2,3) r unfolding signature_law_def by (metis sumE)
  ultimately show ?thesis unfolding bearer by (simp add: verify_access_token_def issue_claims_def)
qed

text \<open>
  While registration is disabled a registration changes nothing and its answer, a plain refusal, is
  the same for every request and every table, so it tells nothing of registered addresses.
\<close>

lemma disabled_registration_reveals_nothing:
  assumes "\<not> ac_registration_enabled cfg"
  shows "register lib cfg io req st = (Inl RegistrationDisabled, st) \<and> status_and_code RegistrationDisabled = (403, ''REGISTRATION_DISABLED'')"
  using assms by (simp add: register_def status_and_code_def)

section \<open>A concrete server\<close>

text \<open>A token is its secret and its claims, printed; a text with the separator is not signed.\<close>

definition demo_token :: "string \<Rightarrow> claims \<Rightarrow> string" where
  "demo_token s c = join '':'' [s, cl_sub c, show_nat (cl_iat c), show_nat (cl_exp c), cl_jti c]"

definition demo_plain :: "string \<Rightarrow> claims \<Rightarrow> bool" where
  "demo_plain s c = (CHR 0x3A \<notin> set s \<union> set (cl_sub c) \<union> set (cl_jti c))"

definition demo_lib :: account_lib where
  "demo_lib = \<lparr>al_hash = (\<lambda>salt p. Some (CHR ''h'' # p)), al_verify = (\<lambda>p h. Some (h = CHR ''h'' # p)),
     al_sign = (\<lambda>s c. if demo_plain s c then Some (demo_token s c) else None),
     al_decode = (\<lambda>s n t. case split_on CHR 0x3A t of
         [s', sub, i, e, j] \<Rightarrow>
           if s' \<noteq> s then Inl JwtOther
           else if digits_val e < n then Inl JwtExpired
           else Inr \<lparr>cl_sub = sub, cl_iat = digits_val i, cl_exp = digits_val e, cl_jti = j\<rparr>
       | _ \<Rightarrow> Inl JwtOther),
     al_rfc3339 = (\<lambda>n. Some ''later'')\<rparr>"

lemma demo_decode:
  assumes "demo_plain s' c"
  shows "al_decode demo_lib s n (demo_token s' c) =
    (if s' \<noteq> s then Inl JwtOther else if cl_exp c < n then Inl JwtExpired else Inr c)"
proof -
  have "split_on CHR 0x3A (demo_token s' c) = [s', cl_sub c, show_nat (cl_iat c), show_nat (cl_exp c), cl_jti c]"
    unfolding demo_token_def using assms
    by (intro split_on_join) (auto simp: demo_plain_def not_digit_notin_show_nat is_ascii_digit_def ccode_def)
  then show ?thesis by (simp add: demo_lib_def digits_val_show_nat)
qed

lemma demo_lib_simps [simp]:
  "al_hash demo_lib salt p = Some (CHR ''h'' # p)" "al_verify demo_lib p h = Some (h = CHR ''h'' # p)"
  "al_sign demo_lib s c = (if demo_plain s c then Some (demo_token s c) else None)"
  "al_rfc3339 demo_lib n = Some ''later''"
  by (simp_all add: demo_lib_def)

lemma demo_laws: "jwt_law demo_lib" "signature_law demo_lib"
proof -
  have "al_decode demo_lib s n t = Inr c \<Longrightarrow> al_decode demo_lib s n' t = Inr c' \<Longrightarrow> c' = c" for s n t c n' c'
    by (auto simp: demo_lib_def split: list.splits if_splits)
  then show "jwt_law demo_lib"
    unfolding jwt_law_def by (auto simp: demo_decode split: if_splits)
  show "signature_law demo_lib"
    unfolding signature_law_def by (auto simp: demo_decode split: if_splits)
qed

definition demo_cfg :: account_config where
  "demo_cfg = \<lparr>ac_registration_enabled = True, ac_jwt_secret = ''a'', ac_jwt_refresh_secret = ''r''\<rparr>"

definition demo_io :: "string \<Rightarrow> account_io" where
  "demo_io p = \<lparr>ai_ok = (\<lambda>_. True),
     ai_uuid = (\<lambda>k. p @ (if k = 0 then [] else if k = 1 then ''i'' else if k = 2 then ''ii'' else ''iii'')),
     ai_salt = ''s'', ai_now = ''t'', ai_secs = Some 1000\<rparr>"

definition demo_user :: create_user_request where
  "demo_user = \<lparr>cu_email = '' Ann@x.org'', cu_password = ''correct horse'', cu_display_name = ''Ann''\<rparr>"

definition demo_login :: login_request where
  "demo_login = \<lparr>lr_email = ''ANN@x.org'', lr_password = ''correct horse''\<rparr>"

definition no_accounts :: accounts where
  "no_accounts = \<lparr>acc_users = [], acc_refresh = []\<rparr>"

definition demo_access :: "string \<Rightarrow> claims" where
  "demo_access j = \<lparr>cl_sub = ''u'', cl_iat = 1000, cl_exp = 1900, cl_jti = j\<rparr>"

definition demo_refresh :: "string \<Rightarrow> claims" where
  "demo_refresh j = \<lparr>cl_sub = ''u'', cl_iat = 1000, cl_exp = 605800, cl_jti = j\<rparr>"

definition demo_row :: "string \<Rightarrow> string \<Rightarrow> refresh_row" where
  "demo_row i j = \<lparr>rf_id = i, rf_user_id = ''u'', rf_jti = j, rf_expires_at = ''later'', rf_created_at = ''t'', rf_revoked_at = None\<rparr>"

definition demo_ann :: user_row where
  "demo_ann = \<lparr>us_id = ''u'', us_email = ''ann@x.org'', us_password_hash = ''hcorrect horse'', us_display_name = ''Ann'',
     us_created_at = ''t'', us_updated_at = ''t''\<rparr>"

definition demo_accounts :: accounts where
  "demo_accounts = \<lparr>acc_users = [demo_ann], acc_refresh = [demo_row ''uiii'' ''uii'']\<rparr>"

definition demo_uw :: user_with_tokens where
  "demo_uw = \<lparr>uw_user = response_of demo_ann, uw_access_token = demo_token ''a'' (demo_access ''ui''),
     uw_refresh_token = demo_token ''r'' (demo_refresh ''uii'')\<rparr>"

lemmas demo_defs = demo_cfg_def demo_io_def demo_access_def demo_refresh_def demo_row_def demo_ann_def demo_accounts_def
  issue_pair_def issue_with_ttl_def issue_claims_def access_token_ttl_secs_def refresh_token_ttl_secs_def
  insert_refresh_def find_email_def find_user_def

lemma demo_plain_simps [simp]:
  "demo_plain ''a'' \<lparr>cl_sub = ''u'', cl_iat = i, cl_exp = e, cl_jti = j\<rparr> = (CHR 0x3A \<notin> set j)"
  "demo_plain ''r'' \<lparr>cl_sub = ''u'', cl_iat = i, cl_exp = e, cl_jti = j\<rparr> = (CHR 0x3A \<notin> set j)"
  by (auto simp: demo_plain_def)

lemma demo_texts:
  "normalized demo_user = \<lparr>cu_email = ''ann@x.org'', cu_password = ''correct horse'', cu_display_name = ''Ann''\<rparr>"
  "validate_create \<lparr>cu_email = ''ann@x.org'', cu_password = ''correct horse'', cu_display_name = ''Ann''\<rparr> = Inr ()"
  "to_lowercase (trim (lr_email demo_login)) = ''ann@x.org''" "to_lowercase (trim (cu_email demo_user)) = ''ann@x.org''"
  "sql_lower ''ann@x.org'' = ''ann@x.org''"
  by code_simp+

lemma demo_registered: "register demo_lib demo_cfg (demo_io ''u'') demo_user no_accounts = (Inr demo_uw, demo_accounts)"
  by (simp add: register_def demo_texts no_accounts_def insert_user_def demo_uw_def Let_def response_of_def demo_defs)

lemma demo_wf: "accounts_wf no_accounts" "accounts_wf demo_accounts"
  by (simp_all add: accounts_wf_def no_accounts_def demo_texts demo_accounts_def demo_ann_def demo_row_def)

theorem accounts_stay_wf_witness:
  "accounts_wf (fold (account_exec demo_lib demo_cfg) [(demo_io ''v'', LoginReq demo_login), (demo_io ''w'', EmbeddedBoot ''pw'')] demo_accounts)"
  by (rule accounts_stay_wf [OF demo_wf(2)])

definition demo_first :: string where
  "demo_first = demo_token ''r'' (demo_refresh ''uii'')"

lemma demo_first_verified: "n \<le> 605800 \<Longrightarrow> verify_refresh_token demo_lib demo_cfg n demo_first = Inr (demo_refresh ''uii'')"
  by (simp add: verify_refresh_token_def demo_first_def demo_decode demo_cfg_def demo_refresh_def)

definition demo_refreshed :: accounts where
  "demo_refreshed = \<lparr>acc_users = [demo_ann],
     acc_refresh = [(demo_row ''uiii'' ''uii'')\<lparr>rf_revoked_at := Some ''t''\<rparr>, demo_row ''viii'' ''vii'']\<rparr>"

lemma demo_refresh_check: "refresh_check demo_lib demo_cfg True 1001 demo_first demo_accounts = Inr (demo_refresh ''uii'', demo_row ''uiii'' ''uii'')"
  by (simp add: refresh_check_def demo_first_verified) (simp add: demo_refresh_def demo_accounts_def demo_row_def)

lemma demo_refresh_rotate:
  "refresh_rotate demo_lib demo_cfg (demo_io ''v'') (demo_refresh ''uii'') (demo_row ''uiii'' ''uii'') demo_accounts =
     (Inr (demo_token ''a'' (demo_access ''vi''), demo_token ''r'' (demo_refresh ''vii'')), demo_refreshed)"
  by (simp add: refresh_rotate_def revoke_where_def demo_refreshed_def demo_defs Let_def)

lemma demo_refresh_run:
  "refresh_token demo_lib demo_cfg (demo_io ''v'') 1001 demo_first demo_accounts =
     (Inr (demo_token ''a'' (demo_access ''vi''), demo_token ''r'' (demo_refresh ''vii'')), demo_refreshed)"
proof -
  have "ai_ok (demo_io ''v'') 0" by (simp add: demo_io_def)
  then show ?thesis by (simp add: refresh_token_def demo_refresh_check demo_refresh_rotate)
qed

theorem refresh_token_works_once_witness:
  "\<exists>e. fst (refresh_token demo_lib demo_cfg (demo_io ''w'') 1002 demo_first
     (fold (account_exec demo_lib demo_cfg) [(demo_io ''x'', LoginReq demo_login)] demo_refreshed)) = Inl e"
  by (rule refresh_token_works_once [OF demo_laws(1) demo_wf(2) demo_refresh_run])

definition demo_change :: update_profile_request where
  "demo_change = \<lparr>up_display_name = None, up_password = Some ''battery staple''\<rparr>"

definition demo_changed :: "bool \<Rightarrow> accounts" where
  "demo_changed revoked = \<lparr>acc_users = [demo_ann\<lparr>us_password_hash := ''hbattery staple''\<rparr>],
     acc_refresh = [(demo_row ''uiii'' ''uii'')\<lparr>rf_revoked_at := if revoked then Some ''t'' else None\<rparr>]\<rparr>"

lemma demo_change_valid: "validate_update demo_change = Inr ()"
  by code_simp

lemma demo_change_run:
  "update_me demo_lib (demo_io ''v'') (demo_access ''ui'') demo_change demo_accounts = (Inr (response_of demo_ann), demo_changed True)"
  by (simp add: update_me_def demo_change_valid)
    (simp add: demo_change_def demo_changed_def update_name_def update_password_def upd_user_def revoke_where_def response_of_def
      Let_def demo_defs)

theorem password_change_ends_sessions_witness:
  "\<exists>e. fst (refresh_token demo_lib demo_cfg (demo_io ''w'') 1002 demo_first
     (fold (account_exec demo_lib demo_cfg) [] (demo_changed True))) = Inl e"
  by (rule password_change_ends_sessions [OF demo_laws(1) demo_wf(2) demo_change_run _ _ _ demo_first_verified [of 1001],
      of "demo_row ''uiii'' ''uii''"])
    (simp_all add: demo_change_def demo_accounts_def demo_row_def demo_access_def demo_refresh_def)

theorem registered_user_logs_in_witness:
  "fst (login demo_lib demo_cfg (demo_io ''w'') demo_login
     (fold (account_exec demo_lib demo_cfg) [(demo_io ''v'', EmbeddedBoot ''pw'')] demo_accounts)) \<noteq> Inl InvalidCredentials"
proof -
  let ?z = "fold (account_exec demo_lib demo_cfg) [(demo_io ''v'', EmbeddedBoot ''pw'')] demo_accounts"
  obtain res st where l: "login demo_lib demo_cfg (demo_io ''w'') demo_login ?z = (res, st)" by fastforce
  have e: "to_lowercase (trim (lr_email demo_login)) = to_lowercase (trim (cu_email demo_user))" by (simp add: demo_texts)
  have c: "\<not> list_ex (changes_password (ur_id (uw_user demo_uw))) [(demo_io ''v'', EmbeddedBoot ''pw'')]"
    by (simp add: changes_password_def)
  have "ai_ok (demo_io ''w'') 0" by (simp add: demo_io_def)
  from registered_user_logs_in [OF demo_wf(1) demo_registered c e this l] l show ?thesis
    by (auto simp: demo_login_def demo_user_def)
qed

definition demo_session :: user_with_tokens where
  "demo_session = \<lparr>uw_user = response_of demo_ann, uw_access_token = demo_token ''a'' (demo_access ''wi''),
     uw_refresh_token = demo_token ''r'' (demo_refresh ''wii'')\<rparr>"

lemma demo_logged_in:
  "login demo_lib demo_cfg (demo_io ''w'') demo_login demo_accounts =
     (Inr demo_session, demo_accounts\<lparr>acc_refresh := acc_refresh demo_accounts @ [demo_row ''wiii'' ''wii'']\<rparr>)"
  by (simp add: login_def demo_texts demo_session_def Let_def demo_defs) (simp add: demo_login_def demo_defs Let_def)

theorem login_tokens_open_witness:
  "(\<exists>c. claims_from_parts demo_lib demo_cfg 1900 (Some (''Bearer '' @ uw_access_token demo_session)) = Inr c \<and> cl_sub c = ''u'') \<and>
   (\<exists>e. claims_from_parts demo_lib demo_cfg 1900 (Some (''Bearer '' @ uw_refresh_token demo_session)) = Inl e)"
proof -
  have "ur_id (uw_user demo_session) = ''u''" by (simp add: demo_session_def response_of_def demo_ann_def)
  with login_tokens_open [OF demo_laws _ demo_logged_in, of 1000 1900] show ?thesis
    by (simp add: demo_cfg_def demo_io_def)
qed

section \<open>What is not guaranteed\<close>

text \<open>
  Two requests with the same refresh token that are both checked before the first one rotates both
  succeed: the rotation does not look at the state of the row again.
\<close>

lemma refresh_check_then_rotate:
  "refresh_check demo_lib demo_cfg True 1001 demo_first demo_accounts = Inr (demo_refresh ''uii'', demo_row ''uiii'' ''uii'')"
  "snd (refresh_rotate demo_lib demo_cfg (demo_io ''v'') (demo_refresh ''uii'') (demo_row ''uiii'' ''uii'') demo_accounts) = demo_refreshed"
  "fst (refresh_rotate demo_lib demo_cfg (demo_io ''w'') (demo_refresh ''uii'') (demo_row ''uiii'' ''uii'') demo_refreshed) =
     Inr (demo_token ''a'' (demo_access ''wi''), demo_token ''r'' (demo_refresh ''wii''))"
  by (simp_all add: demo_refresh_check demo_refresh_rotate)
    (simp add: refresh_rotate_def revoke_where_def demo_refreshed_def demo_defs Let_def)

text \<open>With equal secrets, which nothing excludes, a refresh token opens the handlers like an access token.\<close>

lemma equal_secrets_confuse_tokens:
  "verify_access_token demo_lib (demo_cfg\<lparr>ac_jwt_secret := ''r''\<rparr>) 1001 demo_first = Inr (demo_refresh ''uii'')"
  by (simp add: verify_access_token_def demo_first_def demo_decode demo_cfg_def demo_refresh_def)

text \<open>A password change whose last statement fails is answered as an error, with the sessions still alive.\<close>

lemma failed_change_keeps_sessions:
  "update_me demo_lib ((demo_io ''v'')\<lparr>ai_ok := (\<lambda>k. k \<noteq> 2)\<rparr>) (demo_access ''ui'') demo_change demo_accounts =
     (Inl internal_error, demo_changed False)"
  by (simp add: update_me_def demo_change_valid)
    (simp add: demo_change_def demo_changed_def update_name_def update_password_def upd_user_def Let_def demo_defs)

end
