(* ===== verification/Workspaces.thy ===== *)
theory Workspaces
  imports Accounts
begin

text \<open>
  Workspaces and their members: \<open>crates/core/src/workspace/handler.rs\<close>, \<open>invite.rs\<close> and \<open>model.rs\<close>.

  The handlers act on the two tables of the migration, whose constraints the statements enforce: a
  primary key each, unique invite codes, references to the user and to the workspace, and the deletion
  of the members with their workspace. The random codes, the UUID and the failures of single statements
  are inputs; \<open>users\<close> is the user table.
\<close>

section \<open>Model\<close>

record workspace_row =
  wr_id :: string
  wr_name :: string
  wr_owner_id :: string
  wr_invite_code :: string
  wr_created_at :: string

record member_row =
  mb_workspace_id :: string
  mb_user_id :: string
  mb_role :: string
  mb_joined_at :: string

record ws_store =
  wst_workspaces :: "workspace_row list"
  wst_members :: "member_row list"

record workspace_list_item =
  wl_id :: string
  wl_name :: string
  wl_owner_id :: string
  wl_invite_code :: string
  wl_member_count :: nat
  wl_role :: string
  wl_created_at :: string

record member_info =
  mi_user_id :: string
  mi_display_name :: string
  mi_email :: string
  mi_role :: string
  mi_joined_at :: string

record workspace_with_members =
  wm_row :: workspace_row
  wm_members :: "member_info list"

text \<open>\<open>wi_code k i\<close> is the index drawn for place \<open>i\<close> of the \<open>k\<close>-th code.\<close>

record ws_io =
  wi_ok :: "nat \<Rightarrow> bool"
  wi_uuid :: string
  wi_now :: string
  wi_code :: "nat \<Rightarrow> nat \<Rightarrow> nat"

definition valid_ws_name :: "string \<Rightarrow> bool" where
  "valid_ws_name name = (trim name \<noteq> [] \<and> utf8_len (trim name) \<le> 100)"

subsection \<open>Invite codes\<close>

definition invite_charset :: string where
  "invite_charset = ''ABCDEFGHJKMNPQRSTUVWXYZ23456789''"

definition code_length :: nat where
  "code_length = 6"

definition generate_code :: "(nat \<Rightarrow> nat) \<Rightarrow> string" where
  "generate_code idx = map (\<lambda>i. invite_charset ! (idx i mod length invite_charset)) [0..<code_length]"

text \<open>Attempts \<open>k\<close>, \<open>k + 1\<close> and so on, \<open>n\<close> of them; attempt \<open>k\<close> asks the table with statement \<open>k\<close>.\<close>

fun try_codes :: "ws_io \<Rightarrow> ws_store \<Rightarrow> nat \<Rightarrow> nat \<Rightarrow> app_error + string" where
  "try_codes io st k 0 = Inl (Internal ''Failed to generate unique invite code after 10 attempts'')"
| "try_codes io st k (Suc n) =
     (let code = generate_code (wi_code io k) in
      if \<not> wi_ok io k then Inl internal_error
      else if list_ex (\<lambda>w. wr_invite_code w = code) (wst_workspaces st) then try_codes io st (Suc k) n
      else Inr code)"

definition generate_unique_invite_code :: "ws_io \<Rightarrow> ws_store \<Rightarrow> app_error + string" where
  "generate_unique_invite_code io st = try_codes io st 0 10"

definition find_ws :: "string \<Rightarrow> ws_store \<Rightarrow> workspace_row option" where
  "find_ws w st = find (\<lambda>r. wr_id r = w) (wst_workspaces st)"

definition verify_invite_code :: "bool \<Rightarrow> string \<Rightarrow> string \<Rightarrow> ws_store \<Rightarrow> app_error + unit" where
  "verify_invite_code ok w code st =
     (if \<not> ok then Inl internal_error
      else case map_option (\<lambda>r. to_uppercase (wr_invite_code r)) (find_ws w st) of
        Some stored \<Rightarrow> if stored = to_uppercase (trim code) then Inr () else Inl (Conflict ''Invalid invite code.'')
      | None \<Rightarrow> Inl (Conflict ''Invalid invite code.''))"

subsection \<open>Statements\<close>

definition find_member :: "string \<Rightarrow> string \<Rightarrow> ws_store \<Rightarrow> member_row option" where
  "find_member w u st = find (\<lambda>m. mb_workspace_id m = w \<and> mb_user_id m = u) (wst_members st)"

definition role_of :: "string \<Rightarrow> string \<Rightarrow> ws_store \<Rightarrow> string option" where
  "role_of w u st = map_option mb_role (find_member w u st)"

definition admin_count :: "string \<Rightarrow> ws_store \<Rightarrow> nat" where
  "admin_count w st = length (filter (\<lambda>m. mb_workspace_id m = w \<and> mb_role m = ''admin'') (wst_members st))"

definition insert_workspace :: "bool \<Rightarrow> user_row list \<Rightarrow> workspace_row \<Rightarrow> ws_store \<Rightarrow> ws_store option" where
  "insert_workspace ok users w st =
     (if \<not> ok \<or> list_ex (\<lambda>v. wr_id v = wr_id w) (wst_workspaces st) \<or>
         list_ex (\<lambda>v. wr_invite_code v = wr_invite_code w) (wst_workspaces st) \<or>
         \<not> list_ex (\<lambda>u. us_id u = wr_owner_id w) users then None
      else Some (st\<lparr>wst_workspaces := wst_workspaces st @ [w]\<rparr>))"

definition insert_member :: "bool \<Rightarrow> user_row list \<Rightarrow> member_row \<Rightarrow> ws_store \<Rightarrow> ws_store option" where
  "insert_member ok users m st =
     (if \<not> ok \<or> find_member (mb_workspace_id m) (mb_user_id m) st \<noteq> None \<or> find_ws (mb_workspace_id m) st = None \<or>
         \<not> list_ex (\<lambda>u. us_id u = mb_user_id m) users then None
      else Some (st\<lparr>wst_members := wst_members st @ [m]\<rparr>))"

definition delete_ws_row :: "string \<Rightarrow> ws_store \<Rightarrow> ws_store" where
  "delete_ws_row w st = st\<lparr>wst_workspaces := filter (\<lambda>r. wr_id r \<noteq> w) (wst_workspaces st),
     wst_members := filter (\<lambda>m. mb_workspace_id m \<noteq> w) (wst_members st)\<rparr>"

definition delete_member_row :: "string \<Rightarrow> string \<Rightarrow> ws_store \<Rightarrow> ws_store" where
  "delete_member_row w u st =
     st\<lparr>wst_members := filter (\<lambda>m. \<not> (mb_workspace_id m = w \<and> mb_user_id m = u)) (wst_members st)\<rparr>"

subsection \<open>Handlers\<close>

definition list_items :: "claims \<Rightarrow> member_row list \<Rightarrow> workspace_row \<Rightarrow> workspace_list_item list" where
  "list_items cl ms w =
     map (\<lambda>m. \<lparr>wl_id = wr_id w, wl_name = wr_name w, wl_owner_id = wr_owner_id w, wl_invite_code = wr_invite_code w,
           wl_member_count = length (filter (\<lambda>m2. mb_workspace_id m2 = wr_id w) ms),
           wl_role = mb_role m, wl_created_at = wr_created_at w\<rparr>)
       (filter (\<lambda>m. mb_workspace_id m = wr_id w \<and> mb_user_id m = cl_sub cl) ms)"

definition list_workspaces :: "bool \<Rightarrow> claims \<Rightarrow> ws_store \<Rightarrow> app_error + workspace_list_item list" where
  "list_workspaces ok cl st =
     (if \<not> ok then Inl internal_error
      else Inr (concat (map (list_items cl (wst_members st)) (rev (sort_key (\<lambda>w. wr_created_at w) (wst_workspaces st))))))"

definition create_workspace :: "user_row list \<Rightarrow> ws_io \<Rightarrow> claims \<Rightarrow> string \<Rightarrow> ws_store \<Rightarrow>
    (app_error + workspace_list_item) \<times> ws_store" where
  "create_workspace users io cl name st =
     (let name = trim name in
      if \<not> valid_ws_name name then (Inl (Validation ''Workspace name must be between 1 and 100 characters.''), st)
      else case generate_unique_invite_code io st of
        Inl e \<Rightarrow> (Inl e, st)
      | Inr code \<Rightarrow>
          (case insert_workspace (wi_ok io 10) users \<lparr>wr_id = wi_uuid io, wr_name = name, wr_owner_id = cl_sub cl,
                wr_invite_code = code, wr_created_at = wi_now io\<rparr> st of
             None \<Rightarrow> (Inl internal_error, st)
           | Some st1 \<Rightarrow>
               (case insert_member (wi_ok io 11) users \<lparr>mb_workspace_id = wi_uuid io, mb_user_id = cl_sub cl,
                     mb_role = ''admin'', mb_joined_at = wi_now io\<rparr> st1 of
                  None \<Rightarrow> (Inl internal_error, st1)
                | Some st2 \<Rightarrow>
                    (Inr \<lparr>wl_id = wi_uuid io, wl_name = name, wl_owner_id = cl_sub cl, wl_invite_code = code,
                          wl_member_count = 1, wl_role = ''admin'', wl_created_at = wi_now io\<rparr>, st2))))"

definition member_infos :: "user_row list \<Rightarrow> string \<Rightarrow> ws_store \<Rightarrow> member_info list" where
  "member_infos users w st =
     concat (map (\<lambda>m. map (\<lambda>u. \<lparr>mi_user_id = mb_user_id m, mi_display_name = us_display_name u, mi_email = us_email u,
         mi_role = mb_role m, mi_joined_at = mb_joined_at m\<rparr>) (filter (\<lambda>u. us_id u = mb_user_id m) users))
       (sort_key (\<lambda>m. mb_joined_at m) (filter (\<lambda>m. mb_workspace_id m = w) (wst_members st))))"

definition get_workspace :: "user_row list \<Rightarrow> ws_io \<Rightarrow> claims \<Rightarrow> string \<Rightarrow> ws_store \<Rightarrow> app_error + workspace_with_members" where
  "get_workspace users io cl w st =
     (if \<not> wi_ok io 0 then Inl internal_error
      else if role_of w (cl_sub cl) st = None then Inl (Forbidden ''You are not a member of this workspace.'')
      else if \<not> wi_ok io 1 then Inl internal_error
      else case find_ws w st of
          None \<Rightarrow> Inl (NotFound ''Workspace not found.'')
        | Some r \<Rightarrow> if \<not> wi_ok io 2 then Inl internal_error else Inr \<lparr>wm_row = r, wm_members = member_infos users w st\<rparr>)"

definition delete_workspace :: "ws_io \<Rightarrow> claims \<Rightarrow> string \<Rightarrow> ws_store \<Rightarrow> (app_error + unit) \<times> ws_store" where
  "delete_workspace io cl w st =
     (if \<not> wi_ok io 0 then (Inl internal_error, st)
      else case role_of w (cl_sub cl) st of
        Some r \<Rightarrow>
          if r = ''admin'' then (if wi_ok io 1 then (Inr (), delete_ws_row w st) else (Inl internal_error, st))
          else (Inl (Forbidden ''Only workspace admins can delete the workspace.''), st)
      | None \<Rightarrow> (Inl (NotFound ''Workspace not found.''), st))"

definition join_workspace :: "user_row list \<Rightarrow> ws_io \<Rightarrow> claims \<Rightarrow> string \<Rightarrow> string \<Rightarrow> ws_store \<Rightarrow>
    (app_error + member_row) \<times> ws_store" where
  "join_workspace users io cl w code st =
     (if \<not> wi_ok io 0 then (Inl internal_error, st)
      else if find_ws w st = None then (Inl (NotFound ''Workspace not found.''), st)
      else case verify_invite_code (wi_ok io 1) w code st of
        Inl e \<Rightarrow> (Inl e, st)
      | Inr _ \<Rightarrow>
          if \<not> wi_ok io 2 then (Inl internal_error, st)
          else if role_of w (cl_sub cl) st \<noteq> None then (Inl (Conflict ''You are already a member of this workspace.''), st)
          else let m = \<lparr>mb_workspace_id = w, mb_user_id = cl_sub cl, mb_role = ''member'', mb_joined_at = wi_now io\<rparr>
          in (case insert_member (wi_ok io 3) users m st of
               None \<Rightarrow> (Inl internal_error, st)
             | Some st' \<Rightarrow> (Inr m, st')))"

text \<open>The last check of the two removals: statement 1 counts the administrators, statement 2 deletes.\<close>

definition guarded_removal :: "ws_io \<Rightarrow> nat \<Rightarrow> string \<Rightarrow> string \<Rightarrow> string \<Rightarrow> string \<Rightarrow> ws_store \<Rightarrow> (app_error + unit) \<times> ws_store" where
  "guarded_removal io k w u role msg st =
     (if role = ''admin'' \<and> \<not> wi_ok io k then (Inl internal_error, st)
      else if role = ''admin'' \<and> admin_count w st \<le> 1 then (Inl (BusinessRuleViolation msg), st)
      else if \<not> wi_ok io (Suc k) then (Inl internal_error, st)
      else (Inr (), delete_member_row w u st))"

definition leave_workspace :: "ws_io \<Rightarrow> claims \<Rightarrow> string \<Rightarrow> ws_store \<Rightarrow> (app_error + unit) \<times> ws_store" where
  "leave_workspace io cl w st =
     (if \<not> wi_ok io 0 then (Inl internal_error, st)
      else case role_of w (cl_sub cl) st of
        None \<Rightarrow> (Inl (NotFound ''You are not a member of this workspace.''), st)
      | Some role \<Rightarrow> guarded_removal io 1 w (cl_sub cl) role
          ''You are the last admin of this workspace. Delete the workspace or promote another member to admin first.'' st)"

definition remove_member :: "ws_io \<Rightarrow> claims \<Rightarrow> string \<Rightarrow> string \<Rightarrow> ws_store \<Rightarrow> (app_error + unit) \<times> ws_store" where
  "remove_member io cl w target st =
     (if \<not> wi_ok io 0 then (Inl internal_error, st)
      else case role_of w (cl_sub cl) st of
        Some r \<Rightarrow>
          if r \<noteq> ''admin'' then (Inl (Forbidden ''Only workspace admins can remove members.''), st)
          else if \<not> wi_ok io 1 then (Inl internal_error, st)
          else (case role_of w target st of
              None \<Rightarrow> (Inl (NotFound ''Member not found in this workspace.''), st)
            | Some role \<Rightarrow> guarded_removal io 2 w target role ''Cannot remove the last admin of the workspace.'' st)
      | None \<Rightarrow> (Inl (NotFound ''Workspace not found.''), st))"

section \<open>Requests\<close>

datatype ws_request =
  CreateWs string | DeleteWs string | JoinWs string string | LeaveWs string | RemoveMember string string

type_synonym ws_call = "user_row list \<times> ws_io \<times> claims \<times> ws_request"

fun ws_exec :: "ws_call \<Rightarrow> ws_store \<Rightarrow> ws_store" where
  "ws_exec (users, io, cl, CreateWs name) st = snd (create_workspace users io cl name st)"
| "ws_exec (users, io, cl, DeleteWs w) st = snd (delete_workspace io cl w st)"
| "ws_exec (users, io, cl, JoinWs w code) st = snd (join_workspace users io cl w code st)"
| "ws_exec (users, io, cl, LeaveWs w) st = snd (leave_workspace io cl w st)"
| "ws_exec (users, io, cl, RemoveMember w u) st = snd (remove_member io cl w u st)"

section \<open>Invariant\<close>

definition member_key :: "member_row \<Rightarrow> string \<times> string" where
  "member_key m = (mb_workspace_id m, mb_user_id m)"

text \<open>The keys and references of the tables, and the rule no handler states: an administrator owns the workspace.\<close>

definition ws_wf :: "ws_store \<Rightarrow> bool" where
  "ws_wf st =
     (distinct (map wr_id (wst_workspaces st)) \<and> distinct (map wr_invite_code (wst_workspaces st)) \<and>
      distinct (map member_key (wst_members st)) \<and>
      list_all (\<lambda>m. case find_ws (mb_workspace_id m) st of
          Some r \<Rightarrow> mb_role m \<noteq> ''admin'' \<or> mb_user_id m = wr_owner_id r
        | None \<Rightarrow> False) (wst_members st))"

lemma find_ws_Some: "ws_wf st \<Longrightarrow> find_ws w st = Some r \<longleftrightarrow> r \<in> set (wst_workspaces st) \<and> wr_id r = w"
  by (simp add: find_ws_def ws_wf_def find_id_iff)

lemma find_ws_None: "find_ws w st = None \<longleftrightarrow> w \<notin> wr_id ` set (wst_workspaces st)"
  by (auto simp: find_ws_def find_None_iff)

lemma find_member_Some:
  "ws_wf st \<Longrightarrow> find_member w u st = Some m \<longleftrightarrow> m \<in> set (wst_members st) \<and> mb_workspace_id m = w \<and> mb_user_id m = u"
  using find_id_iff [of member_key "wst_members st" "(w, u)" m]
  by (simp add: find_member_def ws_wf_def member_key_def)

lemma find_member_None: "find_member w u st = None \<longleftrightarrow> (w, u) \<notin> member_key ` set (wst_members st)"
  by (auto simp: find_member_def find_None_iff member_key_def)

lemma find_filter_same: "(\<And>x. P x \<Longrightarrow> Q x) \<Longrightarrow> find P (filter Q xs) = find P xs"
  by (induction xs) auto

lemma find_snoc: "find P (xs @ [x]) = (case find P xs of Some y \<Rightarrow> Some y | None \<Rightarrow> if P x then Some x else None)"
  by (induction xs) auto

lemma store_lookups [simp]:
  "find_ws w (st\<lparr>wst_members := ms\<rparr>) = find_ws w st"
  "find_member w u (st\<lparr>wst_workspaces := ws\<rparr>) = find_member w u st"
  "find_ws w (delete_member_row v u st) = find_ws w st"
  "find_ws v (delete_ws_row w st) = (if v = w then None else find_ws v st)"
  "find_member v u (delete_ws_row w st) = (if v = w then None else find_member v u st)"
  "find_member v x (delete_member_row w u st) = (if v = w \<and> x = u then None else find_member v x st)"
  by (auto simp: find_ws_def find_member_def delete_ws_row_def delete_member_row_def find_None_iff intro: find_filter_same)

lemma insert_workspace_Some:
  "insert_workspace ok users w st = Some st' \<longleftrightarrow>
     st' = st\<lparr>wst_workspaces := wst_workspaces st @ [w]\<rparr> \<and> ok \<and> wr_owner_id w \<in> us_id ` set users \<and>
     wr_id w \<notin> wr_id ` set (wst_workspaces st) \<and> wr_invite_code w \<notin> wr_invite_code ` set (wst_workspaces st)"
  by (auto simp: insert_workspace_def list_ex_disj list_ex_key)

lemma insert_member_Some:
  "insert_member ok users m st = Some st' \<longleftrightarrow>
     st' = st\<lparr>wst_members := wst_members st @ [m]\<rparr> \<and> ok \<and> mb_user_id m \<in> us_id ` set users \<and>
     find_member (mb_workspace_id m) (mb_user_id m) st = None \<and> find_ws (mb_workspace_id m) st \<noteq> None"
  by (auto simp: insert_member_def list_ex_key)

lemma ws_wf_member: "ws_wf st \<Longrightarrow> m \<in> set (wst_members st) \<Longrightarrow>
    \<exists>r. find_ws (mb_workspace_id m) st = Some r \<and> (mb_role m \<noteq> ''admin'' \<or> mb_user_id m = wr_owner_id r)"
  by (auto simp: ws_wf_def list_all_iff split: option.splits)

lemma ws_wfI:
  assumes "distinct (map wr_id (wst_workspaces st))" "distinct (map wr_invite_code (wst_workspaces st))"
    "distinct (map member_key (wst_members st))"
    "\<And>m. m \<in> set (wst_members st) \<Longrightarrow>
      \<exists>r. find_ws (mb_workspace_id m) st = Some r \<and> (mb_role m \<noteq> ''admin'' \<or> mb_user_id m = wr_owner_id r)"
  shows "ws_wf st"
  using assms by (fastforce simp: ws_wf_def list_all_iff)

lemma ws_wf_insert_workspace:
  assumes "ws_wf st" "insert_workspace ok users w st = Some st'"
  shows "ws_wf st'"
proof -
  have st': "st' = st\<lparr>wst_workspaces := wst_workspaces st @ [w]\<rparr>" "wr_id w \<notin> wr_id ` set (wst_workspaces st)"
    "wr_invite_code w \<notin> wr_invite_code ` set (wst_workspaces st)"
    using assms(2) by (simp_all add: insert_workspace_Some)
  have "find_ws v st' = Some r" if "find_ws v st = Some r" for v r
    using that by (simp add: st'(1) find_ws_def find_snoc)
  then show ?thesis
    using assms(1) st' ws_wf_member [OF assms(1)]
    by (intro ws_wfI) (auto simp: ws_wf_def, blast+)
qed

lemma ws_wf_insert_member:
  assumes "ws_wf st" "insert_member ok users m st = Some st'" "find_ws (mb_workspace_id m) st = Some r"
    "mb_role m \<noteq> ''admin'' \<or> mb_user_id m = wr_owner_id r"
  shows "ws_wf st'"
proof -
  have "st' = st\<lparr>wst_members := wst_members st @ [m]\<rparr>" "member_key m \<notin> member_key ` set (wst_members st)"
    using assms(2) by (simp_all add: insert_member_Some find_member_None member_key_def)
  then show ?thesis
    using assms(1,3,4) ws_wf_member [OF assms(1)] by (intro ws_wfI) (auto simp: ws_wf_def)
qed

lemma distinct_map_filter_sub: "distinct (map f xs) \<Longrightarrow> distinct (map f (filter P xs))"
  by (induction xs) auto

lemma ws_wf_deletes:
  assumes "ws_wf st"
  shows "ws_wf (delete_ws_row w st)" "ws_wf (delete_member_row w u st)"
proof -
  have d: "distinct (map wr_id (wst_workspaces st))" "distinct (map wr_invite_code (wst_workspaces st))"
    "distinct (map member_key (wst_members st))" using assms by (simp_all add: ws_wf_def)
  have m: "m \<in> set (wst_members (delete_ws_row w st)) \<Longrightarrow> m \<in> set (wst_members st) \<and> mb_workspace_id m \<noteq> w"
    "m \<in> set (wst_members (delete_member_row w u st)) \<Longrightarrow> m \<in> set (wst_members st)" for m
    by (auto simp: delete_ws_row_def delete_member_row_def)
  show "ws_wf (delete_ws_row w st)"
  proof (rule ws_wfI)
    fix x assume "x \<in> set (wst_members (delete_ws_row w st))"
    with m(1) [OF this] ws_wf_member [OF assms] show "\<exists>r. find_ws (mb_workspace_id x) (delete_ws_row w st) = Some r \<and>
        (mb_role x \<noteq> ''admin'' \<or> mb_user_id x = wr_owner_id r)" by simp
  qed (use d in \<open>simp_all add: delete_ws_row_def distinct_map_filter_sub\<close>)
  show "ws_wf (delete_member_row w u st)"
  proof (rule ws_wfI)
    fix x assume "x \<in> set (wst_members (delete_member_row w u st))"
    with m(2) [OF this] ws_wf_member [OF assms] show "\<exists>r. find_ws (mb_workspace_id x) (delete_member_row w u st) = Some r \<and>
        (mb_role x \<noteq> ''admin'' \<or> mb_user_id x = wr_owner_id r)" by simp
  qed (use d in \<open>simp_all add: delete_member_row_def distinct_map_filter_sub\<close>)
qed

section \<open>What a call does\<close>

text \<open>The five ways in which a call leaves the tables.\<close>

lemma create_workspace_cases:
  assumes "snd (create_workspace users io cl name st) \<noteq> st"
  obtains w st1 where "insert_workspace (wi_ok io 10) users w st = Some st1" "wr_id w = wi_uuid io" "wr_owner_id w = cl_sub cl"
      "snd (create_workspace users io cl name st) = st1"
  | w st1 m st2 where "insert_workspace (wi_ok io 10) users w st = Some st1" "wr_id w = wi_uuid io" "wr_owner_id w = cl_sub cl"
      "insert_member (wi_ok io 11) users m st1 = Some st2" "mb_workspace_id m = wi_uuid io" "mb_user_id m = cl_sub cl"
      "snd (create_workspace users io cl name st) = st2"
proof -
  obtain code where code: "generate_unique_invite_code io st = Inr code" and valid: "valid_ws_name (trim name)"
    using assms by (cases "generate_unique_invite_code io st") (auto simp: create_workspace_def Let_def split: if_splits)
  let ?w = "\<lparr>wr_id = wi_uuid io, wr_name = trim name, wr_owner_id = cl_sub cl, wr_invite_code = code, wr_created_at = wi_now io\<rparr>"
  let ?m = "\<lparr>mb_workspace_id = wi_uuid io, mb_user_id = cl_sub cl, mb_role = ''admin'', mb_joined_at = wi_now io\<rparr>"
  obtain st1 where ins: "insert_workspace (wi_ok io 10) users ?w st = Some st1"
    using assms code valid by (cases "insert_workspace (wi_ok io 10) users ?w st") (auto simp: create_workspace_def Let_def)
  show thesis
  proof (cases "insert_member (wi_ok io 11) users ?m st1")
    case None
    with code valid ins show thesis by (intro that(1) [OF ins]) (simp_all add: create_workspace_def Let_def)
  next
    case (Some st2)
    with code valid ins show thesis by (intro that(2) [OF ins _ _ Some]) (simp_all add: create_workspace_def Let_def)
  qed
qed

lemma join_workspace_cases:
  assumes "snd (join_workspace users io cl w code st) \<noteq> st"
  obtains r m where "find_ws w st = Some r" "to_uppercase (wr_invite_code r) = to_uppercase (trim code)" "role_of w (cl_sub cl) st = None"
    "insert_member (wi_ok io 3) users m st = Some (snd (join_workspace users io cl w code st))"
    "mb_workspace_id m = w" "mb_user_id m = cl_sub cl" "mb_role m = ''member''"
  using assms
  by (auto simp: join_workspace_def verify_invite_code_def Let_def split: if_splits sum.splits option.splits)

lemma guarded_removal_cases:
  assumes "snd (guarded_removal io k w u role msg st) \<noteq> st"
  shows "snd (guarded_removal io k w u role msg st) = delete_member_row w u st \<and> (role = ''admin'' \<longrightarrow> 1 < admin_count w st)"
  using assms by (auto simp: guarded_removal_def split: if_splits)

lemma leave_workspace_cases:
  assumes "snd (leave_workspace io cl w st) \<noteq> st"
  obtains role where "role_of w (cl_sub cl) st = Some role" "role = ''admin'' \<longrightarrow> 1 < admin_count w st"
    "snd (leave_workspace io cl w st) = delete_member_row w (cl_sub cl) st"
  using assms guarded_removal_cases by (fastforce simp: leave_workspace_def split: if_splits option.splits)

lemma remove_member_cases:
  assumes "snd (remove_member io cl w u st) \<noteq> st"
  obtains role where "role_of w (cl_sub cl) st = Some ''admin''" "role_of w u st = Some role" "role = ''admin'' \<longrightarrow> 1 < admin_count w st"
    "snd (remove_member io cl w u st) = delete_member_row w u st"
  using assms guarded_removal_cases by (fastforce simp: remove_member_def split: if_splits option.splits)

lemma delete_workspace_cases:
  assumes "snd (delete_workspace io cl w st) \<noteq> st"
  shows "role_of w (cl_sub cl) st = Some ''admin'' \<and> snd (delete_workspace io cl w st) = delete_ws_row w st"
  using assms by (auto simp: delete_workspace_def split: if_splits option.splits)

lemma find_ws_inserted:
  assumes "insert_workspace ok users w st = Some st1"
  shows "find_ws (wr_id w) st1 = Some w" "v \<noteq> wr_id w \<Longrightarrow> find_ws v st1 = find_ws v st" "find_member v u st1 = find_member v u st"
proof -
  have st1: "st1 = st\<lparr>wst_workspaces := wst_workspaces st @ [w]\<rparr>" "find_ws (wr_id w) st = None"
    using assms by (simp_all add: insert_workspace_Some find_ws_None)
  then show "find_ws (wr_id w) st1 = Some w" "v \<noteq> wr_id w \<Longrightarrow> find_ws v st1 = find_ws v st"
    "find_member v u st1 = find_member v u st"
    by (simp_all add: find_ws_def find_snoc split: option.splits)
qed

lemma find_member_inserted:
  assumes "insert_member ok users m st = Some st1"
  shows "find_member (mb_workspace_id m) (mb_user_id m) st1 = Some m" "find_ws v st1 = find_ws v st"
    "(v, u) \<noteq> (mb_workspace_id m, mb_user_id m) \<Longrightarrow> find_member v u st1 = find_member v u st"
proof -
  have st1: "st1 = st\<lparr>wst_members := wst_members st @ [m]\<rparr>" "find_member (mb_workspace_id m) (mb_user_id m) st = None"
    using assms by (simp_all add: insert_member_Some)
  then show "find_member (mb_workspace_id m) (mb_user_id m) st1 = Some m" "find_ws v st1 = find_ws v st"
    "(v, u) \<noteq> (mb_workspace_id m, mb_user_id m) \<Longrightarrow> find_member v u st1 = find_member v u st"
    by (auto simp: find_member_def find_snoc split: option.splits)
qed

lemma create_workspace_admin:
  assumes "insert_workspace ok users w st = Some st1" "insert_member ok' users m st1 = Some st2" "ws_wf st"
    "mb_workspace_id m = wr_id w" "mb_user_id m = wr_owner_id w"
  shows "ws_wf st2"
proof (rule ws_wf_insert_member [OF ws_wf_insert_workspace [OF assms(3,1)] assms(2)])
  show "find_ws (mb_workspace_id m) st1 = Some w" using find_ws_inserted(1) [OF assms(1)] assms(4) by simp
qed (use assms(5) in simp)

lemma ws_exec_wf:
  assumes "ws_wf st"
  shows "ws_wf (ws_exec call st)"
proof (cases "ws_exec call st = st")
  case False
  obtain users io cl req where call: "call = (users, io, cl, req)" by (cases call)
  show ?thesis
  proof (cases req)
    case (CreateWs name)
    with False call have "snd (create_workspace users io cl name st) \<noteq> st" by simp
    then show ?thesis
    proof (cases rule: create_workspace_cases)
      case (1 w st1)
      with ws_wf_insert_workspace [OF assms 1(1)] CreateWs call show ?thesis by simp
    next
      case (2 w st1 m st2)
      with create_workspace_admin [OF 2(1) 2(4) assms] CreateWs call show ?thesis by simp
    qed
  next
    case (DeleteWs w)
    with False call assms delete_workspace_cases [of io cl w st] ws_wf_deletes show ?thesis by simp
  next
    case (JoinWs w code)
    with False call have "snd (join_workspace users io cl w code st) \<noteq> st" by simp
    then show ?thesis
    proof (cases rule: join_workspace_cases)
      case (1 r m)
      with ws_wf_insert_member [OF assms 1(4)] JoinWs call show ?thesis by simp
    qed
  next
    case (LeaveWs w)
    with False call have "snd (leave_workspace io cl w st) \<noteq> st" by simp
    then show ?thesis
    proof (cases rule: leave_workspace_cases)
      case (1 role)
      with ws_wf_deletes(2) [OF assms] LeaveWs call show ?thesis by simp
    qed
  next
    case (RemoveMember w u)
    with False call have "snd (remove_member io cl w u st) \<noteq> st" by simp
    then show ?thesis
    proof (cases rule: remove_member_cases)
      case (1 role)
      with ws_wf_deletes(2) [OF assms] RemoveMember call show ?thesis by simp
    qed
  qed
qed (use assms in simp)

text \<open>There is never a second administrator, because nothing makes one.\<close>

lemma distinct_all_same: "distinct xs \<Longrightarrow> (\<And>x. x \<in> set xs \<Longrightarrow> x = k) \<Longrightarrow> length xs \<le> 1"
  by (cases xs; cases "tl xs") auto

lemma admin_count_le: "ws_wf st \<Longrightarrow> admin_count w st \<le> 1"
proof -
  assume wf: "ws_wf st"
  let ?as = "filter (\<lambda>m. mb_workspace_id m = w \<and> mb_role m = ''admin'') (wst_members st)"
  have "length (map member_key ?as) \<le> 1"
  proof (rule distinct_all_same)
    show "distinct (map member_key ?as)" using wf by (simp add: ws_wf_def distinct_map_filter_sub)
    show "k = (w, wr_owner_id (the (find_ws w st)))" if "k \<in> set (map member_key ?as)" for k
      using that ws_wf_member [OF wf] by (fastforce simp: member_key_def)
  qed
  then show ?thesis by (simp add: admin_count_def)
qed

lemma admin_count_owner:
  assumes "ws_wf st" "role_of w u st = Some ''admin''"
  shows "admin_count w st = 1"
proof -
  obtain m where m: "find_member w u st = Some m" "mb_role m = ''admin''" using assms(2) by (auto simp: role_of_def)
  then have "m \<in> set (filter (\<lambda>m. mb_workspace_id m = w \<and> mb_role m = ''admin'') (wst_members st))"
    using assms(1) by (simp add: find_member_Some)
  from length_pos_if_in_set [OF this] have "0 < admin_count w st" by (simp add: admin_count_def)
  with admin_count_le [OF assms(1), of w] show ?thesis by simp
qed

lemma admin_is_owner:
  assumes "ws_wf st" "role_of w u st = Some ''admin''" "find_ws w st = Some r"
  shows "u = wr_owner_id r"
proof -
  obtain m where "find_member w u st = Some m" "mb_role m = ''admin''" using assms(2) by (auto simp: role_of_def)
  with assms(1,3) ws_wf_member [OF assms(1), of m] show ?thesis by (auto simp: find_member_Some)
qed

definition owned :: "string \<Rightarrow> workspace_row \<Rightarrow> ws_store \<Rightarrow> bool" where
  "owned w r st = (ws_wf st \<and> find_ws w st = Some r \<and> role_of w (wr_owner_id r) st = Some ''admin'')"

text \<open>The calls that could end an ownership: reuse of the identifier, and deletion by the owner.\<close>

fun keeps_workspace :: "string \<Rightarrow> string \<Rightarrow> ws_call \<Rightarrow> bool" where
  "keeps_workspace w own (users, io, cl, req) = (wi_uuid io \<noteq> w \<and> \<not> (cl_sub cl = own \<and> req = DeleteWs w))"

lemma owned_step:
  assumes "owned w r st" "keeps_workspace w (wr_owner_id r) call"
  shows "owned w r (ws_exec call st)"
proof (cases "ws_exec call st = st")
  case False
  obtain users io cl req where call: "call = (users, io, cl, req)" by (cases call)
  have wf: "ws_wf st" and r: "find_ws w st = Some r" and role: "role_of w (wr_owner_id r) st = Some ''admin''"
    using assms(1) by (simp_all add: owned_def)
  have kept: "wi_uuid io \<noteq> w" "\<not> (cl_sub cl = wr_owner_id r \<and> req = DeleteWs w)" using assms(2) call by simp_all
  have one: "admin_count w st = 1" by (rule admin_count_owner [OF wf role])
  have "find_ws w (ws_exec call st) = Some r \<and> role_of w (wr_owner_id r) (ws_exec call st) = Some ''admin''"
  proof (cases req)
    case (CreateWs name)
    with False call have "snd (create_workspace users io cl name st) \<noteq> st" by simp
    then show ?thesis
      by (cases rule: create_workspace_cases)
        (use CreateWs call kept r role in \<open>auto simp: role_of_def find_ws_inserted find_member_inserted\<close>)
  next
    case (DeleteWs v)
    with False call have d: "role_of v (cl_sub cl) st = Some ''admin''" "ws_exec call st = delete_ws_row v st"
      using delete_workspace_cases [of io cl v st] by simp_all
    have "v \<noteq> w" using admin_is_owner [OF wf _ r] d(1) kept(2) DeleteWs by blast
    then show ?thesis using r role by (simp add: d(2) role_of_def)
  next
    case (JoinWs v code)
    with False call have "snd (join_workspace users io cl v code st) \<noteq> st" by simp
    then show ?thesis
    proof (cases rule: join_workspace_cases)
      case (1 r' m)
      then have "(w, wr_owner_id r) \<noteq> (mb_workspace_id m, mb_user_id m)" using role by auto
      then show ?thesis using JoinWs call r role find_member_inserted [OF 1(4)] by (simp add: role_of_def)
    qed
  next
    case (LeaveWs v)
    with False call have "snd (leave_workspace io cl v st) \<noteq> st" by simp
    then show ?thesis
      by (cases rule: leave_workspace_cases) (use LeaveWs call r role one in \<open>auto simp: role_of_def\<close>)
  next
    case (RemoveMember v u)
    with False call have "snd (remove_member io cl v u st) \<noteq> st" by simp
    then show ?thesis
      by (cases rule: remove_member_cases) (use RemoveMember call r role one in \<open>auto simp: role_of_def\<close>)
  qed
  then show ?thesis using ws_exec_wf [OF wf] by (simp add: owned_def)
qed (use assms in simp)

lemma owned_run:
  "owned w r st \<Longrightarrow> list_all (keeps_workspace w (wr_owner_id r)) calls \<Longrightarrow> owned w r (fold ws_exec calls st)"
  by (induction calls arbitrary: st) (simp_all add: owned_step)

text \<open>
  C15. A workspace keeps its owner: whatever calls of whatever users follow, as long as the owner does not
  delete it, it stays as it is and the owner stays its one administrator; nobody, the owner included, can
  remove the owner or become a second administrator.
\<close>

theorem workspace_keeps_its_owner:
  assumes "ws_wf st" "find_ws w st = Some r" "role_of w (wr_owner_id r) st = Some ''admin''"
    and "list_all (keeps_workspace w (wr_owner_id r)) calls"
  shows "find_ws w (fold ws_exec calls st) = Some r \<and>
    role_of w (wr_owner_id r) (fold ws_exec calls st) = Some ''admin'' \<and> admin_count w (fold ws_exec calls st) = 1"
proof -
  have "owned w r (fold ws_exec calls st)"
    using assms by (intro owned_run) (simp_all add: owned_def)
  then show ?thesis using admin_count_owner unfolding owned_def by blast
qed

section \<open>Membership\<close>

text \<open>
  Membership needs an invitation or an act of the owner: a call that makes a user a member is that
  user's own, and either creates the workspace or presents its invite code; a call that ends a membership
  is the member's own or the administrator's.
\<close>

theorem membership_changes:
  assumes "call = (users, io, cl, req)" "role_of w u (ws_exec call st) \<noteq> role_of w u st"
  shows "role_of w u st = None \<and> cl_sub cl = u \<and>
      ((\<exists>name. req = CreateWs name) \<and> wi_uuid io = w \<or>
       (\<exists>code r. req = JoinWs w code \<and> find_ws w st = Some r \<and> to_uppercase (wr_invite_code r) = to_uppercase (trim code))) \<or>
    role_of w u (ws_exec call st) = None \<and>
      (req = LeaveWs w \<and> cl_sub cl = u \<or>
       (req = RemoveMember w u \<or> req = DeleteWs w) \<and> role_of w (cl_sub cl) st = Some ''admin'')"
proof (cases req)
  case (CreateWs name)
  with assms have "snd (create_workspace users io cl name st) \<noteq> st" by auto
  then show ?thesis
  proof (cases rule: create_workspace_cases)
    case (1 v st1)
    then show ?thesis using assms CreateWs by (simp add: role_of_def find_ws_inserted)
  next
    case (2 v st1 m st2)
    have "(w, u) = (mb_workspace_id m, mb_user_id m)"
    proof (rule ccontr)
      assume "(w, u) \<noteq> (mb_workspace_id m, mb_user_id m)"
      then have "find_member w u st2 = find_member w u st"
        using find_member_inserted(3) [OF 2(4)] find_ws_inserted(3) [OF 2(1)] by simp
      then show False using assms CreateWs 2(7) by (simp add: role_of_def)
    qed
    then have "(w, u) = (wi_uuid io, cl_sub cl)" using 2(5,6) by simp
    moreover have "find_member (wi_uuid io) (cl_sub cl) st1 = None" using 2(4-6) by (simp add: insert_member_Some)
    ultimately show ?thesis using CreateWs find_ws_inserted(3) [OF 2(1)] by (simp add: role_of_def)
  qed
next
  case (DeleteWs v)
  with assms have "snd (delete_workspace io cl v st) \<noteq> st" by auto
  from delete_workspace_cases [OF this] assms DeleteWs show ?thesis by (auto simp: role_of_def split: if_splits)
next
  case (JoinWs v code)
  with assms have "snd (join_workspace users io cl v code st) \<noteq> st" by auto
  then show ?thesis
  proof (cases rule: join_workspace_cases)
    case (1 r m)
    have "(w, u) = (mb_workspace_id m, mb_user_id m)"
    proof (rule ccontr)
      assume "(w, u) \<noteq> (mb_workspace_id m, mb_user_id m)"
      from find_member_inserted(3) [OF 1(4) this] show False using assms JoinWs by (simp add: role_of_def)
    qed
    with 1 JoinWs show ?thesis by auto
  qed
next
  case (LeaveWs v)
  with assms have "snd (leave_workspace io cl v st) \<noteq> st" by auto
  then show ?thesis
    by (cases rule: leave_workspace_cases) (use assms LeaveWs in \<open>auto simp: role_of_def split: if_splits\<close>)
next
  case (RemoveMember v x)
  with assms have "snd (remove_member io cl v x st) \<noteq> st" by auto
  then show ?thesis
    by (cases rule: remove_member_cases) (use assms RemoveMember in \<open>auto simp: role_of_def split: if_splits\<close>)
qed

lemma concat_map_filter_skip:
  "(\<And>x. x \<in> set xs \<Longrightarrow> \<not> P x \<Longrightarrow> f x = []) \<Longrightarrow> concat (map f (filter P xs)) = concat (map f xs)"
  by (induction xs) auto

text \<open>
  Outsiders see nothing of a workspace: the details are refused to a user who is no member, and the
  list of a user is what it would be if the workspaces of others, with all their members, did not exist.
\<close>

theorem outsiders_see_nothing:
  assumes "role_of w (cl_sub cl) st = None"
  shows "get_workspace users io cl w st = Inl (if wi_ok io 0 then Forbidden ''You are not a member of this workspace.'' else internal_error) \<and>
    list_workspaces ok cl st = list_workspaces ok cl (delete_ws_row w st)"
proof -
  have "\<not> (\<exists>m \<in> set (wst_members st). mb_workspace_id m = w \<and> mb_user_id m = cl_sub cl)"
    using assms by (auto simp: role_of_def find_member_None member_key_def)
  then have none: "filter (\<lambda>m. mb_workspace_id m = w \<and> mb_user_id m = cl_sub cl) (wst_members st) = []"
    by (simp add: filter_empty_conv)
  let ?ms = "filter (\<lambda>m. mb_workspace_id m \<noteq> w) (wst_members st)"
  have same: "list_items cl ?ms v = list_items cl (wst_members st) v" if "wr_id v \<noteq> w" for v
  proof -
    have "filter (\<lambda>m. mb_workspace_id m \<noteq> w \<and> mb_workspace_id m = wr_id v \<and> Q m) ms =
        filter (\<lambda>m. mb_workspace_id m = wr_id v \<and> Q m) ms" for Q and ms :: "member_row list"
      using that by (intro filter_cong) auto
    from this [of "\<lambda>m. mb_user_id m = cl_sub cl"] this [of "\<lambda>_. True"] show ?thesis by (simp add: list_items_def)
  qed
  let ?ws = "rev (sort_key (\<lambda>w. wr_created_at w) (wst_workspaces st))"
  have sorted: "rev (sort_key (\<lambda>w. wr_created_at w) (filter (\<lambda>v. wr_id v \<noteq> w) (wst_workspaces st))) = filter (\<lambda>v. wr_id v \<noteq> w) ?ws"
    by (simp add: filter_sort [symmetric] rev_filter)
  have "concat (map (list_items cl ?ms) (filter (\<lambda>v. wr_id v \<noteq> w) ?ws)) = concat (map (list_items cl (wst_members st)) (filter (\<lambda>v. wr_id v \<noteq> w) ?ws))"
    using same by (intro arg_cong [where f = concat] map_cong) auto
  also have "\<dots> = concat (map (list_items cl (wst_members st)) ?ws)"
    by (rule concat_map_filter_skip) (use none in \<open>simp add: list_items_def\<close>)
  finally have "list_workspaces ok cl st = list_workspaces ok cl (delete_ws_row w st)"
    unfolding list_workspaces_def by (simp add: delete_ws_row_def sorted)
  with assms show ?thesis by (simp add: get_workspace_def)
qed

section \<open>Codes\<close>

lemma generate_code_chars: "length (generate_code idx) = 6 \<and> set (generate_code idx) \<subseteq> set invite_charset"
proof -
  have "0 < length invite_charset" by code_simp
  then show ?thesis by (auto simp: generate_code_def code_length_def)
qed

lemma try_codes_Inr:
  "try_codes io st k n = Inr code \<Longrightarrow>
     (\<exists>j < n. code = generate_code (wi_code io (k + j))) \<and> code \<notin> wr_invite_code ` set (wst_workspaces st)"
proof (induction n arbitrary: k)
  case (Suc n)
  show ?case
  proof (cases "code = generate_code (wi_code io k)")
    case True
    with Suc show ?thesis by (fastforce simp: Let_def list_ex_key split: if_splits)
  next
    case False
    with Suc.prems have "try_codes io st (Suc k) n = Inr code" by (auto simp: Let_def split: if_splits)
    from Suc.IH [OF this] obtain j where "j < n" "code = generate_code (wi_code io (Suc k + j))"
        "code \<notin> wr_invite_code ` set (wst_workspaces st)" by blast
    then show ?thesis by (intro conjI exI [of _ "Suc j"]) auto
  qed
qed simp

text \<open>A generated code has six characters of the alphabet and no workspace has it yet; at most ten are drawn.\<close>

lemma generate_unique_invite_code_fresh:
  assumes "generate_unique_invite_code io st = Inr code"
  shows "length code = 6 \<and> set code \<subseteq> set invite_charset \<and> code \<notin> wr_invite_code ` set (wst_workspaces st)"
  using try_codes_Inr [of io st 0 10 code] assms generate_code_chars by (auto simp: generate_unique_invite_code_def)

section \<open>A concrete team\<close>

definition team_io :: "string \<Rightarrow> ws_io" where
  "team_io w = \<lparr>wi_ok = (\<lambda>_. True), wi_uuid = w, wi_now = ''t'', wi_code = (\<lambda>_ i. i)\<rparr>"

definition team_user :: "string \<Rightarrow> user_row" where
  "team_user i = \<lparr>us_id = i, us_email = i, us_password_hash = ''h'', us_display_name = i, us_created_at = ''t'', us_updated_at = ''t''\<rparr>"

definition team_claims :: "string \<Rightarrow> claims" where
  "team_claims i = \<lparr>cl_sub = i, cl_iat = 0, cl_exp = 9, cl_jti = ''j''\<rparr>"

definition team_call :: "string \<Rightarrow> ws_request \<Rightarrow> ws_call" where
  "team_call u req = ([team_user ''ann'', team_user ''bob''], team_io ''x'', team_claims u, req)"

definition team :: ws_store where
  "team = \<lparr>wst_workspaces = [\<lparr>wr_id = ''w'', wr_name = ''Team'', wr_owner_id = ''ann'', wr_invite_code = ''ABCDES'', wr_created_at = ''t''\<rparr>],
     wst_members = [\<lparr>mb_workspace_id = ''w'', mb_user_id = ''ann'', mb_role = ''admin'', mb_joined_at = ''t''\<rparr>]\<rparr>"

lemma team_facts:
  "ws_wf team" "find_ws ''w'' team = Some (hd (wst_workspaces team))" "role_of ''w'' ''ann'' team = Some ''admin''"
  "wr_owner_id (hd (wst_workspaces team)) = ''ann''" "role_of ''w'' ''bob'' team = None"
  by code_simp+

theorem workspace_keeps_its_owner_witness:
  "admin_count ''w'' (fold ws_exec [team_call ''bob'' (JoinWs ''w'' ''abcdes''), team_call ''ann'' (LeaveWs ''w''),
     team_call ''bob'' (RemoveMember ''w'' ''ann''), team_call ''bob'' (DeleteWs ''w'')] team) = 1"
proof -
  let ?calls = "[team_call ''bob'' (JoinWs ''w'' ''abcdes''), team_call ''ann'' (LeaveWs ''w''),
     team_call ''bob'' (RemoveMember ''w'' ''ann''), team_call ''bob'' (DeleteWs ''w'')]"
  have "list_all (keeps_workspace ''w'' (wr_owner_id (hd (wst_workspaces team)))) ?calls"
    by (simp add: team_facts team_call_def team_io_def team_claims_def)
  from workspace_keeps_its_owner [OF team_facts(1,2) _ this] show ?thesis by (simp add: team_facts)
qed

theorem membership_changes_witness:
  "\<exists>code r. JoinWs ''w'' '' abcdes'' = JoinWs ''w'' code \<and> find_ws ''w'' team = Some r \<and>
     to_uppercase (wr_invite_code r) = to_uppercase (trim code)"
proof -
  have "role_of ''w'' ''bob'' (ws_exec (team_call ''bob'' (JoinWs ''w'' '' abcdes'')) team) = Some ''member''" by code_simp
  then show ?thesis
    using membership_changes [of "team_call ''bob'' (JoinWs ''w'' '' abcdes'')" _ _ _ _ "''w''" "''bob''" team, OF team_call_def]
    by (simp add: team_facts)
qed

theorem outsiders_see_nothing_witness:
  "list_workspaces True (team_claims ''bob'') team = list_workspaces True (team_claims ''bob'') (delete_ws_row ''w'' team)"
  using outsiders_see_nothing [of "''w''" "team_claims ''bob''" team "[]" "team_io ''x''" True]
  by (simp add: team_facts team_claims_def)

section \<open>What is not guaranteed\<close>

text \<open>The answers to a join tell a user who is no member which workspaces exist.\<close>

lemma join_tells_existence:
  "fst (join_workspace [team_user ''bob''] (team_io ''x'') (team_claims ''bob'') ''w'' ''WRONG'' team) = Inl (Conflict ''Invalid invite code.'')"
  "fst (join_workspace [team_user ''bob''] (team_io ''x'') (team_claims ''bob'') ''v'' ''WRONG'' team) = Inl (NotFound ''Workspace not found.'')"
  by code_simp+

text \<open>A creation whose second statement fails leaves a workspace without any member.\<close>

lemma creation_may_lose_its_admin:
  "let (r, st) = create_workspace [team_user ''bob''] ((team_io ''x'')\<lparr>wi_ok := (\<lambda>k. k \<noteq> 11)\<rparr>) (team_claims ''bob'') ''Mine'' team
   in r = Inl internal_error \<and> find_ws ''x'' st \<noteq> None \<and> role_of ''x'' ''bob'' st = None"
  by code_simp

end
