(* ===== verification/Query_Stats.thy ===== *)
theory Query_Stats
  imports Rate_Limiter Redaction Text_Case "HOL-Library.Word" "HOL-Library.Product_Lexorder" Complex_Main
begin

text \<open>
  The slow-query samples of \<open>crates/automation/src/query_stats.rs\<close> and their two read
  endpoints in \<open>handler.rs\<close>: the normal form under which statements are grouped, the chain
  of decisions before a sample is written, the table \<open>query_stats\<close> with its aggregation and
  retention, and the listings.

  The table is a list of rows in the order of insertion. A sample is written by a spawned
  task; the answers of the database to its two statements, the new identifier and the time it
  takes are the record \<open>capture_io\<close>. The text of a JSON document (\<open>json_text\<close>) and SQLite's
  \<open>datetime('now', ...)\<close> are parameters. Averages are exact fractions, not doubles.
\<close>

section \<open>Normal forms\<close>

definition quote_char :: char where
  "quote_char = CHR 0x27"

definition digest_max_chars :: nat where
  "digest_max_chars = 1000"

definition sql_text_max_chars :: nat where
  "sql_text_max_chars = 8192"

definition cap_window_secs :: nat where
  "cap_window_secs = 3600"

text \<open>What follows a string literal, given the characters after its opening quote.\<close>

fun skip_literal :: "bool \<Rightarrow> string \<Rightarrow> string" where
  "skip_literal escaped [] = []"
| "skip_literal escaped (c # cs) =
     (if escaped then skip_literal False cs
      else if c = CHR 0x5C then skip_literal True cs
      else if c = quote_char then
        (case cs of d # cs' \<Rightarrow> if d = quote_char then skip_literal False cs' else cs | [] \<Rightarrow> [])
      else skip_literal False cs)"

definition is_ascii_hexdigit :: "char \<Rightarrow> bool" where
  "is_ascii_hexdigit c = (is_ascii_digit c \<or> (65 \<le> ccode c \<and> ccode c \<le> 70) \<or> (97 \<le> ccode c \<and> ccode c \<le> 102))"

definition peek :: "(char \<Rightarrow> bool) \<Rightarrow> string \<Rightarrow> bool" where
  "peek P cs = (case cs of c # _ \<Rightarrow> P c | [] \<Rightarrow> False)"

definition is_e :: "char \<Rightarrow> bool" where
  "is_e c = (c = CHR ''e'' \<or> c = CHR ''E'')"

definition is_x :: "char \<Rightarrow> bool" where
  "is_x c = (c = CHR ''x'' \<or> c = CHR ''X'')"

definition is_sign :: "char \<Rightarrow> bool" where
  "is_sign c = (c = CHR ''-'' \<or> c = CHR ''+'')"

definition consume_number_tail :: "bool \<Rightarrow> string \<Rightarrow> string" where
  "consume_number_tail hex_prefix cs =
     (if hex_prefix \<and> peek is_x cs then dropWhile is_ascii_hexdigit (tl cs)
      else let r = dropWhile (\<lambda>d. is_ascii_digit d \<or> d = CHR ''.'') cs in
        if peek is_e r then
          (if peek is_ascii_digit (tl r) then dropWhile is_ascii_digit (tl r)
           else if peek is_sign (tl r) \<and> peek is_ascii_digit (tl (tl r)) then dropWhile is_ascii_digit (tl (tl r))
           else r)
        else r)"

lemma length_skip_literal: "length (skip_literal b cs) \<le> length cs"
proof (induction b cs rule: skip_literal.induct)
  case (2 escaped c cs)
  show ?case
    using 2 by (cases cs) (simp_all add: le_SucI)
qed simp

lemma length_dropWhile_tl: "length (dropWhile P (tl cs)) \<le> length cs"
  by (rule le_trans [OF length_dropWhile_le]) simp

lemma length_consume_number_tail: "length (consume_number_tail h cs) \<le> length cs"
proof -
  let ?r = "dropWhile (\<lambda>d. is_ascii_digit d \<or> d = CHR ''.'') cs"
  have r: "length ?r \<le> length cs" by (rule length_dropWhile_le)
  have "length (dropWhile is_ascii_digit (tl ?r)) \<le> length cs"
    by (rule le_trans [OF length_dropWhile_tl r])
  moreover have "length (dropWhile is_ascii_digit (tl (tl ?r))) \<le> length cs"
    using r by (intro le_trans [OF length_dropWhile_tl]) simp
  ultimately show ?thesis
    using r by (simp add: consume_number_tail_def Let_def length_dropWhile_tl)
qed

lemma peek_simps [simp]: "\<not> peek P []" "peek P (c # cs) = P c"
  by (simp_all add: peek_def)

text \<open>The loop of \<open>normalize_sql\<close>: \<open>out\<close> is what has been written.\<close>

function normalize_from :: "string \<Rightarrow> string \<Rightarrow> string" where
  "normalize_from out [] = out"
| "normalize_from out (c # cs) =
     (if c = quote_char then normalize_from (out @ ''?'') (skip_literal False cs)
      else if is_ascii_digit c then normalize_from (out @ ''?'') (consume_number_tail (c = CHR ''0'') cs)
      else if is_sign c \<and> peek is_ascii_digit cs then normalize_from (out @ ''?'') (consume_number_tail False (tl cs))
      else if is_ws c then
        normalize_from (if out \<noteq> [] \<and> last out \<noteq> CHR '' '' then out @ '' '' else out) (dropWhile is_ws cs)
      else normalize_from (out @ [c]) cs)"
  by pat_completeness auto
termination
proof (relation "measure (length \<circ> snd)", goal_cases)
  case 4
  then show ?case by (simp add: less_Suc_eq_le le_trans [OF length_consume_number_tail])
qed (auto simp: less_Suc_eq_le length_skip_literal length_consume_number_tail length_dropWhile_le)

definition normalize_sql :: "string \<Rightarrow> string" where
  "normalize_sql sql = normalize_from [] sql"

definition normalize_mongo :: "json \<Rightarrow> string" where
  "normalize_mongo doc =
     (case doc of
        JObj ((cmd, v) # _) \<Rightarrow>
          ''mongo:'' @ cmd @ '':'' @ (case json_as_str v of Some s \<Rightarrow> s | None \<Rightarrow> ''?'')
      | _ \<Rightarrow> ''mongo:?'')"

definition first_upper :: "string list \<Rightarrow> string" where
  "first_upper cmdline = (case cmdline of c # _ \<Rightarrow> to_uppercase c | [] \<Rightarrow> [])"

definition normalize_redis :: "string list \<Rightarrow> string" where
  "normalize_redis cmdline = ''redis:'' @ first_upper cmdline @ '':'' @ show_nat (length cmdline)"

definition normalize_redis_pipeline :: "string list list \<Rightarrow> string" where
  "normalize_redis_pipeline pipeline =
     truncate_chars digest_max_chars
       (''redis:PIPELINE['' @ show_nat (length pipeline) @ '']:'' @ join ''+'' (map first_upper pipeline))"

datatype capture_payload =
    Sql string
  | Mongo json
  | Redis "string list"
  | RedisPipeline "string list list"

fun normalize_digest :: "capture_payload \<Rightarrow> string" where
  "normalize_digest (Sql sql) = truncate_chars digest_max_chars (normalize_sql sql)"
| "normalize_digest (Mongo doc) = normalize_mongo doc"
| "normalize_digest (Redis cmdline) = normalize_redis cmdline"
| "normalize_digest (RedisPipeline pipeline) = normalize_redis_pipeline pipeline"

fun render_plaintext :: "(json \<Rightarrow> string) \<Rightarrow> capture_payload \<Rightarrow> string" where
  "render_plaintext json_text (Sql sql) = sql"
| "render_plaintext json_text (Mongo doc) = json_text doc"
| "render_plaintext json_text (Redis cmdline) = join '' '' cmdline"
| "render_plaintext json_text (RedisPipeline pipeline) = join '' ; '' (map (join '' '') pipeline)"

section \<open>Samples\<close>

datatype capture_entry = GwSse | SyncQuery | TxnQuery | AdminScript | McpRead

fun capture_entry_str :: "capture_entry \<Rightarrow> string" where
  "capture_entry_str GwSse = ''gw_sse''"
| "capture_entry_str SyncQuery = ''sync_query''"
| "capture_entry_str TxnQuery = ''txn_query''"
| "capture_entry_str AdminScript = ''admin_script''"
| "capture_entry_str McpRead = ''mcp_read''"

datatype capture_outcome = CaptureOk | CaptureError string | CaptureCancelled

fun outcome_status :: "capture_outcome \<Rightarrow> string" where
  "outcome_status CaptureOk = ''ok''"
| "outcome_status (CaptureError code) = ''error''"
| "outcome_status CaptureCancelled = ''cancelled''"

fun outcome_error_code :: "capture_outcome \<Rightarrow> string option" where
  "outcome_error_code (CaptureError code) = Some code"
| "outcome_error_code CaptureOk = None"
| "outcome_error_code CaptureCancelled = None"

record capture_context =
  cc_conn_id :: string
  cc_db_kind :: "string option"
  cc_database :: "string option"
  cc_user_id :: "string option"
  cc_entry :: capture_entry
  cc_outcome :: capture_outcome

record stat_row =
  qs_id :: string
  qs_source :: string
  qs_conn_id :: string
  qs_db_kind :: string
  qs_database :: "string option"
  qs_digest :: string
  qs_sql_text :: "string option"
  qs_elapsed_ms :: int
  qs_row_count :: "int option"
  qs_affected_rows :: "int option"
  qs_query_count :: "int option"
  qs_status :: string
  qs_error_code :: "string option"
  qs_user_id :: "string option"
  qs_entry :: string
  qs_captured_at :: string

record recorder =
  rc_enabled :: bool
  rc_threshold_ms :: "64 word"
  rc_store_sql :: bool
  rc_cap_per_hour :: nat
  rc_cap_limiter :: counters
  rc_dropped :: "64 word"

definition recorder_from_parts :: "bool \<Rightarrow> 32 word \<Rightarrow> bool \<Rightarrow> 32 word \<Rightarrow> recorder" where
  "recorder_from_parts enabled threshold_ms store_sql cap_per_hour =
     \<lparr>rc_enabled = enabled, rc_threshold_ms = ucast threshold_ms, rc_store_sql = store_sql,
      rc_cap_per_hour = unat cap_per_hour, rc_cap_limiter = Map.empty, rc_dropped = 0\<rparr>"

text \<open>The decision before a sample is written; \<open>now\<close> is the instant of the limiter's clock.\<close>

definition stats_gate :: "nat \<Rightarrow> 64 word \<Rightarrow> string \<Rightarrow> recorder \<Rightarrow> bool \<times> recorder" where
  "stats_gate now elapsed_ms digest rc =
     (if \<not> rc_enabled rc \<or> elapsed_ms < rc_threshold_ms rc then (False, rc)
      else case check_and_record (rc_cap_limiter rc) digest (rc_cap_per_hour rc) cap_window_secs now of
        (True, l) \<Rightarrow> (True, rc\<lparr>rc_cap_limiter := l\<rparr>)
      | (False, l) \<Rightarrow> (False, rc\<lparr>rc_cap_limiter := l, rc_dropped := rc_dropped rc + 1\<rparr>))"

text \<open>
  The two statements of the spawned task. \<open>ci_db_type\<close> answers the query for the type of the
  connection: \<open>None\<close> when it fails, \<open>Some None\<close> when there is no such connection.
\<close>

record capture_io =
  ci_db_type :: "string \<Rightarrow> string option option"
  ci_insert_ok :: bool
  ci_id :: string
  ci_captured_at :: string

definition insert_stat_row :: "bool \<Rightarrow> stat_row \<Rightarrow> stat_row list \<Rightarrow> bool \<times> stat_row list" where
  "insert_stat_row ok row rows =
     (if ok \<and> \<not> list_ex (\<lambda>r. qs_id r = qs_id row) rows then (True, rows @ [row]) else (False, rows))"

definition capture_db_kind :: "capture_io \<Rightarrow> capture_context \<Rightarrow> string option" where
  "capture_db_kind io ctx =
     (case cc_db_kind ctx of Some k \<Rightarrow> Some k
      | None \<Rightarrow> Option.bind (ci_db_type io (cc_conn_id ctx)) id)"

definition gateway_row ::
  "capture_io \<Rightarrow> capture_context \<Rightarrow> string \<Rightarrow> string \<Rightarrow> string option \<Rightarrow> 64 word \<Rightarrow> 64 word option \<Rightarrow> 64 word option \<Rightarrow> stat_row" where
  "gateway_row io ctx db_kind digest sql_text elapsed_ms row_count affected_rows =
     \<lparr>qs_id = ci_id io, qs_source = ''gateway'', qs_conn_id = cc_conn_id ctx, qs_db_kind = db_kind,
      qs_database = cc_database ctx, qs_digest = digest, qs_sql_text = sql_text,
      qs_elapsed_ms = sint elapsed_ms, qs_row_count = map_option sint row_count,
      qs_affected_rows = map_option sint affected_rows, qs_query_count = None,
      qs_status = outcome_status (cc_outcome ctx), qs_error_code = outcome_error_code (cc_outcome ctx),
      qs_user_id = cc_user_id ctx, qs_entry = capture_entry_str (cc_entry ctx),
      qs_captured_at = ci_captured_at io\<rparr>"

definition record_capture ::
  "(json \<Rightarrow> string) \<Rightarrow> capture_io \<Rightarrow> nat \<Rightarrow> 64 word \<Rightarrow> capture_context \<Rightarrow> capture_payload \<Rightarrow>
   64 word option \<Rightarrow> 64 word option \<Rightarrow> recorder \<times> stat_row list \<Rightarrow> recorder \<times> stat_row list" where
  "record_capture json_text io now elapsed_ms ctx payload row_count affected_rows st =
     (let digest = normalize_digest payload in
      case stats_gate now elapsed_ms digest (fst st) of
        (False, rc) \<Rightarrow> (rc, snd st)
      | (True, rc) \<Rightarrow>
          (let sql_text = (if rc_store_sql rc
             then Some (truncate_chars sql_text_max_chars (render_plaintext json_text payload)) else None) in
           case capture_db_kind io ctx of
             None \<Rightarrow> (rc, snd st)
           | Some k \<Rightarrow>
               (rc, snd (insert_stat_row (ci_insert_ok io)
                 (gateway_row io ctx k digest sql_text elapsed_ms row_count affected_rows) (snd st)))))"

record complete_info =
  cp_row_count :: "64 word"
  cp_truncated :: bool
  cp_affected_rows :: "64 word option"

record stream_query_error =
  se_code :: string
  se_message :: string
  se_engine_code :: "string option"

definition stream_context :: "string \<Rightarrow> string option \<Rightarrow> capture_outcome \<Rightarrow> capture_context" where
  "stream_context conn_id db oc =
     \<lparr>cc_conn_id = conn_id, cc_db_kind = None, cc_database = db, cc_user_id = None, cc_entry = GwSse, cc_outcome = oc\<rparr>"

definition record_stream ::
  "(json \<Rightarrow> string) \<Rightarrow> capture_io \<Rightarrow> nat \<Rightarrow> 64 word \<Rightarrow> string \<Rightarrow> string option \<Rightarrow> capture_payload \<Rightarrow>
   stream_query_error + complete_info \<Rightarrow> recorder \<times> stat_row list \<Rightarrow> recorder \<times> stat_row list" where
  "record_stream json_text io now elapsed_ms conn_id db payload outcome st =
     (case outcome of
        Inr info \<Rightarrow> record_capture json_text io now elapsed_ms (stream_context conn_id db CaptureOk) payload
          (Some (cp_row_count info)) (cp_affected_rows info) st
      | Inl e \<Rightarrow> record_capture json_text io now elapsed_ms
          (stream_context conn_id db (if se_code e = ''CANCELLED'' then CaptureCancelled else CaptureError (se_code e)))
          payload None None st)"

definition native_row ::
  "string \<Rightarrow> string \<Rightarrow> string \<Rightarrow> string \<Rightarrow> string option \<Rightarrow> string \<Rightarrow> string \<Rightarrow> string option \<Rightarrow> int \<Rightarrow> int option \<Rightarrow> stat_row" where
  "native_row uuid now conn_id db_kind database source digest sql_text elapsed_ms query_count =
     \<lparr>qs_id = uuid, qs_source = source, qs_conn_id = conn_id, qs_db_kind = db_kind, qs_database = database,
      qs_digest = digest, qs_sql_text = map_option (truncate_chars sql_text_max_chars) sql_text,
      qs_elapsed_ms = elapsed_ms, qs_row_count = None, qs_affected_rows = None, qs_query_count = query_count,
      qs_status = ''ok'', qs_error_code = None, qs_user_id = None, qs_entry = ''native'', qs_captured_at = now\<rparr>"

definition insert_native ::
  "bool \<Rightarrow> string \<Rightarrow> string \<Rightarrow> string \<Rightarrow> string \<Rightarrow> string option \<Rightarrow> string \<Rightarrow> string \<Rightarrow> string option \<Rightarrow> int \<Rightarrow>
   int option \<Rightarrow> stat_row list \<Rightarrow> bool \<times> stat_row list" where
  "insert_native ok uuid now conn_id db_kind database source digest sql_text elapsed_ms query_count rows =
     insert_stat_row ok (native_row uuid now conn_id db_kind database source digest sql_text elapsed_ms query_count) rows"

section \<open>Aggregation, listing and retention\<close>

record digest_agg =
  da_digest :: string
  da_db_kind :: string
  da_conn_id :: string
  da_count :: int
  da_total_ms :: int
  da_avg_ms :: rat
  da_max_ms :: int
  da_first_seen :: string
  da_last_seen :: string

text \<open>The whitelisted ORDER BY expressions, by the SQL text they stand for.\<close>

datatype sort_expr = ByCount | ByAvg | ByMax | BySum

definition query_stats_sort_expr :: "string option \<Rightarrow> sort_expr" where
  "query_stats_sort_expr raw =
     (if raw = Some ''count'' then ByCount else if raw = Some ''avg_ms'' then ByAvg
      else if raw = Some ''max_ms'' then ByMax else BySum)"

type_synonym group_key = "string \<times> string \<times> string"

definition key_of_row :: "stat_row \<Rightarrow> group_key" where
  "key_of_row r = (qs_digest r, qs_db_kind r, qs_conn_id r)"

definition stats_since :: "string \<Rightarrow> string option \<Rightarrow> stat_row list \<Rightarrow> stat_row list" where
  "stats_since since conn rows =
     filter (\<lambda>r. since \<le> qs_captured_at r \<and> (case conn of None \<Rightarrow> True | Some c \<Rightarrow> qs_conn_id r = c)) rows"

definition queries_of :: "stat_row \<Rightarrow> int" where
  "queries_of r = (case qs_query_count r of Some n \<Rightarrow> n | None \<Rightarrow> 1)"

definition sort_value :: "sort_expr \<Rightarrow> stat_row list \<Rightarrow> rat" where
  "sort_value e rows =
     (let ms = map qs_elapsed_ms rows in
      case e of
        ByCount \<Rightarrow> of_nat (length rows)
      | ByAvg \<Rightarrow> of_int (sum_list ms) / of_nat (length rows)
      | ByMax \<Rightarrow> of_int (Max (set ms))
      | BySum \<Rightarrow> of_int (sum_list ms))"

definition agg_row :: "group_key \<Rightarrow> stat_row list \<Rightarrow> digest_agg" where
  "agg_row k rows =
     (let ms = map qs_elapsed_ms rows; n = sum_list (map queries_of rows); seen = map qs_captured_at rows in
      \<lparr>da_digest = fst k, da_db_kind = fst (snd k), da_conn_id = snd (snd k), da_count = n,
       da_total_ms = sum_list ms, da_avg_ms = of_int (sum_list ms) / of_int n, da_max_ms = Max (set ms),
       da_first_seen = Min (set seen), da_last_seen = Max (set seen)\<rparr>)"

definition sort_desc :: "('a \<Rightarrow> 'b::linorder) \<Rightarrow> 'a list \<Rightarrow> 'a list" where
  "sort_desc f xs = rev (sort_key f (rev xs))"

definition rows_of_group :: "stat_row list \<Rightarrow> group_key \<Rightarrow> stat_row list" where
  "rows_of_group rows k = filter (\<lambda>r. key_of_row r = k) rows"

text \<open>
  The groups in the order of the answer. A group whose query counts sum to zero makes the
  average NULL, which the decoder of the row rejects, and the call fails.
\<close>

definition agg_groups :: "sort_expr \<Rightarrow> stat_row list \<Rightarrow> group_key list" where
  "agg_groups e rows =
     sort_desc (\<lambda>k. (sort_value e (rows_of_group rows k), da_last_seen (agg_row k (rows_of_group rows k))))
       (sort (remdups (map key_of_row rows)))"

definition aggregate_stats ::
  "bool \<Rightarrow> string \<Rightarrow> string option \<Rightarrow> sort_expr \<Rightarrow> int \<Rightarrow> stat_row list \<Rightarrow> digest_agg list option" where
  "aggregate_stats ok since conn e limit table =
     (let rows = stats_since since conn table;
          aggs = map (\<lambda>k. agg_row k (rows_of_group rows k)) (take (nat limit) (agg_groups e rows)) in
      if \<not> ok \<or> list_ex (\<lambda>a. da_count a = 0) aggs then None else Some aggs)"

definition latest_sample :: "bool \<Rightarrow> string \<Rightarrow> string \<Rightarrow> stat_row list \<Rightarrow> string option" where
  "latest_sample ok digest conn_id table =
     (if \<not> ok then None
      else case sort_desc qs_captured_at (filter (\<lambda>r. qs_digest r = digest \<and> qs_conn_id r = conn_id) table) of
        r # _ \<Rightarrow> qs_sql_text r | [] \<Rightarrow> None)"

text \<open>\<open>cutoff\<close> is \<open>datetime('now', '-N days')\<close>.\<close>

definition rotate_stats :: "bool \<Rightarrow> string \<Rightarrow> stat_row list \<Rightarrow> nat option \<times> stat_row list" where
  "rotate_stats ok cutoff table =
     (if \<not> ok then (None, table)
      else (Some (length (filter (\<lambda>r. qs_captured_at r < cutoff) table)), filter (\<lambda>r. \<not> qs_captured_at r < cutoff) table))"

definition window_hours :: "string option \<Rightarrow> nat" where
  "window_hours raw = (if raw = Some ''1h'' then 1 else if raw = Some ''7d'' then 7 * 24 else 24)"

definition clamp_int :: "int \<Rightarrow> int \<Rightarrow> int \<Rightarrow> int" where
  "clamp_int lo hi n = (if n < lo then lo else if hi < n then hi else n)"

record summary_query =
  suq_conn_id :: "string option"
  suq_sort :: "string option"
  suq_limit :: "int option"

record stats_meta =
  sm_threshold_ms :: "32 word"
  sm_store_sql :: bool
  sm_retention_days :: "32 word"
  sm_dropped_total :: "64 word option"
  sm_window_from :: string

text \<open>
  The summary endpoint; \<open>since\<close> is the current time less the window, \<open>sample_ok\<close> says which
  of the sample queries answers.
\<close>

definition query_stats_summary ::
  "bool \<Rightarrow> (string \<times> string \<Rightarrow> bool) \<Rightarrow> string \<Rightarrow> summary_query \<Rightarrow> stats_meta \<Rightarrow> stat_row list \<Rightarrow>
   ((digest_agg \<times> string option) list \<times> stats_meta) option" where
  "query_stats_summary ok sample_ok since q meta table =
     (case aggregate_stats ok since (suq_conn_id q) (query_stats_sort_expr (suq_sort q))
         (clamp_int 1 100 (case suq_limit q of Some n \<Rightarrow> n | None \<Rightarrow> 20)) table of
        None \<Rightarrow> None
      | Some gs \<Rightarrow> Some (map (\<lambda>g. (g, latest_sample (sample_ok (da_digest g, da_conn_id g)) (da_digest g) (da_conn_id g) table)) gs,
          meta\<lparr>sm_window_from := since\<rparr>))"

record list_query =
  lq_conn_id :: "string option"
  lq_digest :: "string option"
  lq_status :: "string option"
  lq_limit :: "int option"
  lq_offset :: "int option"

record stats_page =
  pg_items :: "stat_row list"
  pg_total :: nat
  pg_limit :: int
  pg_offset :: int

definition matches_opt :: "string option \<Rightarrow> string \<Rightarrow> bool" where
  "matches_opt p s = (case p of None \<Rightarrow> True | Some v \<Rightarrow> s = v)"

definition stats_matching :: "string \<Rightarrow> list_query \<Rightarrow> stat_row list \<Rightarrow> stat_row list" where
  "stats_matching since q table =
     filter (\<lambda>r. since \<le> qs_captured_at r \<and> matches_opt (lq_conn_id q) (qs_conn_id r) \<and>
       matches_opt (lq_digest q) (qs_digest r) \<and> matches_opt (lq_status q) (qs_status r)) table"

definition query_stats_list :: "bool \<Rightarrow> bool \<Rightarrow> string \<Rightarrow> list_query \<Rightarrow> stat_row list \<Rightarrow> stats_page option" where
  "query_stats_list ok1 ok2 since q table =
     (let limit = clamp_int 1 200 (case lq_limit q of Some n \<Rightarrow> n | None \<Rightarrow> 50);
          offset = max 0 (case lq_offset q of Some n \<Rightarrow> n | None \<Rightarrow> 0);
          found = stats_matching since q table in
      if ok1 \<and> ok2 then
        Some \<lparr>pg_items = take (nat limit) (drop (nat offset) (sort_desc qs_captured_at found)),
          pg_total = length found, pg_limit = limit, pg_offset = offset\<rparr>
      else None)"

section \<open>What a digest shows\<close>

definition hidden :: "char \<Rightarrow> bool" where
  "hidden c = (c = quote_char \<or> is_ascii_digit c)"

lemma hidden_qmark [simp]: "\<not> hidden CHR ''?''" "\<not> hidden CHR '' ''"
  by code_simp+

lemma normalize_from_hides: "list_all (\<lambda>c. \<not> hidden c) out \<Longrightarrow> list_all (\<lambda>c. \<not> hidden c) (normalize_from out cs)"
proof (induction out cs rule: normalize_from.induct)
  case (2 out c cs)
  show ?case
  proof (cases "c = quote_char \<or> is_ascii_digit c \<or> is_sign c \<and> peek is_ascii_digit cs \<or> is_ws c")
    case True
    then show ?thesis using 2 by (auto simp del: list_all_iff)
  next
    case False
    then have "\<not> hidden c" by (simp add: hidden_def)
    then show ?thesis using False 2 by simp
  qed
qed simp

text \<open>White space as the digest keeps it: runs become one space, leading ones go.\<close>

fun collapse :: "bool \<Rightarrow> string \<Rightarrow> string" where
  "collapse b [] = []"
| "collapse b (c # cs) =
     (if is_ws c then (if b then collapse True cs else CHR '' '' # collapse True cs) else c # collapse False cs)"

definition at_gap :: "string \<Rightarrow> bool" where
  "at_gap out = (out = [] \<or> last out = CHR '' '')"

lemma at_gap_snoc [simp]: "at_gap (out @ [c]) = (c = CHR '' '')"
  by (simp add: at_gap_def)

lemma at_gap_gapped [simp]: "at_gap (if out \<noteq> [] \<and> last out \<noteq> CHR '' '' then out @ '' '' else out)"
  by (auto simp: at_gap_def)

lemma collapse_dropWhile: "collapse True (dropWhile is_ws cs) = collapse True cs"
  by (induction cs) auto

lemma collapse_append_char:
  "\<not> is_ws c \<Longrightarrow> collapse b (p @ c # s) = collapse b p @ c # collapse False s"
  by (induction b p rule: collapse.induct) auto

definition plain_text :: "string \<Rightarrow> bool" where
  "plain_text s = list_all (\<lambda>c. \<not> hidden c) s"

lemma plain_text_simps [simp]:
  "plain_text []" "plain_text (c # s) \<longleftrightarrow> \<not> hidden c \<and> plain_text s"
  by (simp_all add: plain_text_def)

lemma plain_text_dropWhile: "plain_text s \<Longrightarrow> plain_text (dropWhile P s)"
  by (induction s) auto

lemma last_dropWhile_ne: "dropWhile P s \<noteq> [] \<Longrightarrow> last (dropWhile P s) = last s"
  by (metis last_appendR takeWhile_dropWhile_id)

lemma dropWhile_append_stop: "\<not> peek P s \<Longrightarrow> dropWhile P (cs @ s) = dropWhile P cs @ s"
  by (induction cs) (auto simp: peek_def dropWhile_eq_self_iff split: list.splits)

lemma space_not_ws_iff [simp]: "is_ws CHR '' ''"
  by code_simp

text \<open>A text without quotes and digits passes through, but for its white space.\<close>

lemma normalize_from_text:
  assumes "plain_text p" "p = [] \<or> \<not> is_sign (last p) \<or> \<not> peek is_ascii_digit s" "\<not> peek is_ws s"
  shows "normalize_from out (p @ s) = normalize_from (out @ collapse (at_gap out) p) s"
  using assms
proof (induction "length p" arbitrary: out p rule: less_induct)
  case less
  show ?case
  proof (cases p)
    case (Cons c cs)
    have c: "c \<noteq> quote_char" "\<not> is_ascii_digit c" "plain_text cs"
      using less.prems(1) by (auto simp: Cons hidden_def)
    have nosign: "\<not> (is_sign c \<and> peek is_ascii_digit (cs @ s))"
    proof (cases cs)
      case Nil
      then show ?thesis using less.prems(2) by (simp add: Cons)
    next
      case (Cons d ds)
      then show ?thesis using c(3) by (simp add: peek_def hidden_def)
    qed
    have last: "cs = [] \<or> \<not> is_sign (last cs) \<or> \<not> peek is_ascii_digit s"
      using less.prems(2) by (auto simp: Cons)
    show ?thesis
    proof (cases "is_ws c")
      case False
      have "normalize_from out (p @ s) = normalize_from (out @ [c]) (cs @ s)"
        using False c nosign by (auto simp: Cons)
      also have "\<dots> = normalize_from ((out @ [c]) @ collapse (at_gap (out @ [c])) cs) s"
        using c(3) last less.prems(3) by (intro less.hyps) (simp_all add: Cons)
      also have "at_gap (out @ [c]) = False" using False by auto
      finally show ?thesis using False by (simp add: Cons)
    next
      case True
      let ?out = "if out \<noteq> [] \<and> last out \<noteq> CHR '' '' then out @ '' '' else out"
      let ?cs = "dropWhile is_ws cs"
      have len: "length ?cs < length p" using length_dropWhile_le [of is_ws cs] by (simp add: Cons)
      have lst: "?cs = [] \<or> \<not> is_sign (last ?cs) \<or> \<not> peek is_ascii_digit s"
        using last by (cases "?cs = []") (auto simp: last_dropWhile_ne)
      have "normalize_from out (p @ s) = normalize_from ?out (?cs @ s)"
        using True c(1,2) nosign by (auto simp: Cons dropWhile_append_stop [OF less.prems(3)])
      also have "\<dots> = normalize_from (?out @ collapse (at_gap ?out) ?cs) s"
        by (rule less.hyps [OF len plain_text_dropWhile [OF c(3)] lst less.prems(3)])
      also have "\<dots> = normalize_from (?out @ collapse True cs) s"
        by (simp add: collapse_dropWhile)
      finally show ?thesis using True by (simp add: Cons at_gap_def)
    qed
  qed simp
qed

corollary normalize_from_plain:
  "plain_text p \<Longrightarrow> normalize_from out p = out @ collapse (at_gap out) p"
  using normalize_from_text [of p "[]" out] by simp

fun squeezed :: "bool \<Rightarrow> string \<Rightarrow> bool" where
  "squeezed b [] = True"
| "squeezed b (c # cs) = (if is_ws c then c = CHR '' '' \<and> \<not> b \<and> squeezed True cs else squeezed False cs)"

lemma collapse_squeezed: "squeezed b s \<Longrightarrow> collapse b s = s"
  by (induction b s rule: squeezed.induct) (auto split: if_splits)

lemma squeezed_snoc:
  "squeezed b (s @ [c]) \<longleftrightarrow>
     squeezed b s \<and> (is_ws c \<longrightarrow> c = CHR '' '' \<and> \<not> (if s = [] then b else is_ws (last s)))"
  by (induction b s rule: squeezed.induct) auto

lemma squeezed_last: "squeezed b s \<Longrightarrow> s \<noteq> [] \<Longrightarrow> is_ws (last s) \<Longrightarrow> last s = CHR '' ''"
  by (induction b s rule: squeezed.induct) (auto split: if_splits)

lemma squeezed_gapped:
  "squeezed True out \<Longrightarrow> squeezed True (if out \<noteq> [] \<and> last out \<noteq> CHR '' '' then out @ '' '' else out)"
  using squeezed_last by (auto simp: squeezed_snoc)

lemma qmark_not_ws [simp]: "\<not> is_ws CHR ''?''"
  by code_simp

lemma normalize_from_squeezed: "squeezed True out \<Longrightarrow> squeezed True (normalize_from out cs)"
proof (induction out cs rule: normalize_from.induct)
  case (2 out c cs)
  note gap = squeezed_gapped [OF 2(6)]
  have q: "squeezed True (out @ ''?'')" using 2(6) by (simp add: squeezed_snoc)
  have "\<not> is_ws c \<Longrightarrow> squeezed True (out @ [c])" using 2(6) by (simp add: squeezed_snoc)
  then show ?case using 2(1-5) gap q by (simp del: if_split_asm split del: if_split split: if_split)
qed simp

text \<open>Normalising a digest again changes nothing.\<close>

lemma normalize_sql_plain: "plain_text (normalize_sql sql)"
  unfolding normalize_sql_def plain_text_def by (rule normalize_from_hides) simp

theorem normalize_sql_idempotent: "normalize_sql (normalize_sql sql) = normalize_sql sql"
proof -
  have "squeezed True (normalize_sql sql)"
    unfolding normalize_sql_def by (rule normalize_from_squeezed) simp
  then show ?thesis
    unfolding normalize_sql_def [of "normalize_sql sql"]
    by (simp add: normalize_from_plain [OF normalize_sql_plain] at_gap_def collapse_squeezed)
qed

section \<open>Statements that differ in their literals only\<close>

datatype sql_literal =
    LitText string
  | LitInt int
  | LitDecimal nat nat
  | LitExp nat int
  | LitHex string

definition escape_char :: "char \<Rightarrow> string" where
  "escape_char c = (if c = quote_char \<or> c = CHR 0x5C then [c, c] else [c])"

fun render_literal :: "sql_literal \<Rightarrow> string" where
  "render_literal (LitText v) = [quote_char] @ concat (map escape_char v) @ [quote_char]"
| "render_literal (LitInt n) = (if n < 0 then ''-'' else []) @ show_nat (nat \<bar>n\<bar>)"
| "render_literal (LitDecimal a b) = show_nat a @ ''.'' @ show_nat b"
| "render_literal (LitExp a e) = show_nat a @ ''e'' @ (if e < 0 then ''-'' else []) @ show_nat (nat \<bar>e\<bar>)"
| "render_literal (LitHex ds) = ''0x'' @ ds"

fun literal_ok :: "sql_literal \<Rightarrow> bool" where
  "literal_ok (LitHex ds) = list_all is_ascii_hexdigit ds"
| "literal_ok _ = True"

text \<open>A template: pieces of text, each with the literal after it, and the last text.\<close>

fun render_template :: "(string \<times> sql_literal) list \<Rightarrow> string \<Rightarrow> string" where
  "render_template [] rest = rest"
| "render_template ((p, l) # ts) rest = p @ render_literal l @ render_template ts rest"

fun skeleton :: "(string \<times> sql_literal) list \<Rightarrow> string \<Rightarrow> string" where
  "skeleton [] rest = rest"
| "skeleton ((p, l) # ts) rest = p @ CHR ''?'' # skeleton ts rest"

text \<open>A character that ends every literal before it.\<close>

definition separator :: "char \<Rightarrow> bool" where
  "separator c = (\<not> is_ascii_alnum c \<and> c \<noteq> CHR ''.'' \<and> c \<noteq> quote_char)"

fun template_ok :: "bool \<Rightarrow> (string \<times> sql_literal) list \<Rightarrow> string \<Rightarrow> bool" where
  "template_ok first [] rest = (plain_text rest \<and> (first \<or> rest = [] \<or> separator (hd rest)))"
| "template_ok first ((p, l) # ts) rest =
     (plain_text p \<and> (p = [] \<or> \<not> is_sign (last p)) \<and> (first \<or> p \<noteq> [] \<and> separator (hd p)) \<and>
      literal_ok l \<and> template_ok False ts rest)"

definition ends_literal :: "string \<Rightarrow> bool" where
  "ends_literal r = (r = [] \<or> separator (hd r))"

lemma ends_literal_peek:
  assumes "ends_literal r" "\<And>c. P c \<Longrightarrow> \<not> separator c"
  shows "\<not> peek P r"
  using assms by (cases r) (auto simp: ends_literal_def peek_def)

lemma ends_literal_peeks [simp]:
  assumes "ends_literal r"
  shows "\<not> peek is_ascii_digit r" "\<not> peek is_ascii_hexdigit r" "\<not> peek is_e r" "\<not> peek is_x r"
    "\<not> peek (\<lambda>d. is_ascii_digit d \<or> d = CHR ''.'') r"
proof -
  have e: "is_e c \<Longrightarrow> \<not> separator c" "is_x c \<Longrightarrow> \<not> separator c" for c
    by (elim disjE | auto simp: is_e_def is_x_def separator_def is_ascii_alnum_def is_ascii_alpha_def is_ascii_upper_def is_ascii_lower_def ccode_def)+
  have d: "is_ascii_digit c \<Longrightarrow> \<not> separator c" "is_ascii_hexdigit c \<Longrightarrow> \<not> separator c" for c
    by (auto simp: separator_def is_ascii_alnum_def is_ascii_hexdigit_def is_ascii_alpha_def is_ascii_upper_def is_ascii_lower_def)
  note peeks = ends_literal_peek [OF assms]
  show "\<not> peek is_ascii_digit r" by (rule peeks [OF d(1)])
  show "\<not> peek is_ascii_hexdigit r" by (rule peeks [OF d(2)])
  show "\<not> peek is_e r" by (rule peeks [OF e(1)])
  show "\<not> peek is_x r" by (rule peeks [OF e(2)])
  show "\<not> peek (\<lambda>d. is_ascii_digit d \<or> d = CHR ''.'') r"
    by (rule peeks) (auto dest: d simp: separator_def)
qed

lemma skip_literal_escaped:
  "\<not> peek (\<lambda>c. c = quote_char) r \<Longrightarrow> skip_literal False (concat (map escape_char v) @ quote_char # r) = r"
proof (induction v)
  case Nil
  then show ?case by (cases r) (auto simp: peek_def quote_char_def)
next
  case (Cons c v)
  then show ?case by (simp add: escape_char_def quote_char_def)
qed

lemma dropWhile_all_append: "list_all P ds \<Longrightarrow> \<not> peek P r \<Longrightarrow> dropWhile P (ds @ r) = r"
  by (induction ds) (auto simp: peek_def split: list.splits)

lemma dropWhile_stop: "\<not> peek P r \<Longrightarrow> dropWhile P r = r"
  by (cases r) (auto simp: peek_def)


definition in_number :: "char \<Rightarrow> bool" where
  "in_number d = (is_ascii_digit d \<or> d = CHR ''.'')"

lemma consume_number_tail_alt:
  "consume_number_tail h cs =
     (if h \<and> peek is_x cs then dropWhile is_ascii_hexdigit (tl cs)
      else let r = dropWhile in_number cs in
        if peek is_e r then
          (if peek is_ascii_digit (tl r) then dropWhile is_ascii_digit (tl r)
           else if peek is_sign (tl r) \<and> peek is_ascii_digit (tl (tl r)) then dropWhile is_ascii_digit (tl (tl r))
           else r)
        else r)"
  unfolding consume_number_tail_def in_number_def ..

lemma in_number_not_x: "in_number c \<Longrightarrow> \<not> is_x c"
  by (auto simp: in_number_def is_x_def is_ascii_digit_def ccode_def)

lemma consume_plain_number:
  assumes "list_all in_number ds" "ends_literal r" "ds \<noteq> [] \<or> h = h0"
  shows "consume_number_tail h (ds @ r) = r"
proof -
  have p: "\<not> peek in_number r" using assms(2) by (simp add: in_number_def [abs_def])
  have x: "\<not> peek is_x (ds @ r)"
    using assms(1,2) by (cases ds) (auto dest: in_number_not_x ends_literal_peeks(4))
  show ?thesis
    using assms(2) x by (simp add: consume_number_tail_alt dropWhile_all_append [OF assms(1) p])
qed

lemma show_nat_in_number: "list_all in_number (show_nat n)"
  using show_nat_digits [of n] by (auto simp: list_all_iff in_number_def)

text \<open>Numbers that begin with a digit: the digit and what the loop consumes after it.\<close>

lemma normalize_from_digits:
  assumes "s = d # ds" "is_ascii_digit d" "consume_number_tail (d = CHR ''0'') (ds @ r) = r"
  shows "normalize_from out (s @ r) = normalize_from (out @ ''?'') r"
proof -
  have "d \<noteq> quote_char" using assms(2) by (auto simp: quote_char_def is_ascii_digit_def ccode_def)
  then show ?thesis using assms by simp
qed

lemma show_nat_Cons:
  obtains d ds where "show_nat n = d # ds" "is_ascii_digit d" "list_all is_ascii_digit ds" "list_all in_number ds"
proof (cases "show_nat n")
  case (Cons d ds)
  then have "list_all is_ascii_digit (d # ds)" using show_nat_digits [of n] by simp
  then show thesis using that [OF Cons] by (auto simp: list_all_iff in_number_def)
qed simp

lemma dash_facts [simp]: "is_sign CHR ''-''" "\<not> is_ascii_digit CHR ''-''" "CHR ''-'' \<noteq> quote_char" "\<not> is_ws CHR ''-''"
  by (code_simp)+

lemma normalize_from_int:
  assumes r: "ends_literal r"
  shows "normalize_from out (render_literal (LitInt n) @ r) = normalize_from (out @ ''?'') r"
proof -
  obtain d ds where s: "show_nat (nat \<bar>n\<bar>) = d # ds" "is_ascii_digit d" "list_all in_number ds"
    by (rule show_nat_Cons)
  have c: "consume_number_tail h (ds @ r) = r" for h
    by (rule consume_plain_number [OF s(3) r, of h h]) simp
  have "normalize_from out ((if n < 0 then ''-'' else []) @ (d # ds) @ r) = normalize_from (out @ ''?'') r"
    using normalize_from_digits [OF refl s(2) c, of out] s(2) c by simp
  then show ?thesis by (simp only: render_literal.simps s(1) append_assoc)
qed

lemma normalize_from_decimal:
  assumes r: "ends_literal r"
  shows "normalize_from out (render_literal (LitDecimal a b) @ r) = normalize_from (out @ ''?'') r"
proof -
  obtain d ds where s: "show_nat a = d # ds" "is_ascii_digit d" "list_all in_number ds"
    by (rule show_nat_Cons)
  have "list_all in_number (ds @ ''.'' @ show_nat b)"
    using s(3) show_nat_in_number [of b] by (simp add: in_number_def)
  then have "consume_number_tail h ((ds @ ''.'' @ show_nat b) @ r) = r" for h
    by (rule consume_plain_number [OF _ r, of _ h h]) simp
  then show ?thesis
    using normalize_from_digits [of "d # ds @ ''.'' @ show_nat b", OF refl s(2)] by (simp add: s(1))
qed

lemma e_facts [simp]: "is_e CHR ''e''" "\<not> in_number CHR ''e''" "\<not> is_x CHR ''e''"
  by (code_simp)+

lemma digit_not_sign: "is_ascii_digit c \<Longrightarrow> \<not> is_sign c"
  by (auto simp: is_sign_def is_ascii_digit_def ccode_def)

lemma consume_exponent:
  assumes ds: "list_all in_number ds" and r: "ends_literal r"
  shows "consume_number_tail h (ds @ ''e'' @ (if e < 0 then ''-'' else []) @ show_nat (nat \<bar>e\<bar>) @ r) = r"
proof -
  obtain x xs where s: "show_nat (nat \<bar>e\<bar>) = x # xs" "is_ascii_digit x" "list_all is_ascii_digit xs"
    by (rule show_nat_Cons)
  let ?t = "(if e < 0 then ''-'' else []) @ (x # xs) @ r"
  have np: "\<not> peek in_number (CHR ''e'' # ?t)" by simp
  have dw: "dropWhile in_number (ds @ CHR ''e'' # ?t) = CHR ''e'' # ?t"
    by (rule dropWhile_all_append [OF ds np])
  have x: "\<not> peek is_x (ds @ CHR ''e'' # ?t)"
    using ds by (cases ds) (auto dest: in_number_not_x)
  have dr: "dropWhile is_ascii_digit (xs @ r) = r"
    by (rule dropWhile_all_append [OF s(3)]) (simp add: r)
  have pe: "peek is_e (CHR ''e'' # ?t)" by simp
  have "consume_number_tail h (ds @ CHR ''e'' # ?t) = r"
    unfolding consume_number_tail_alt dw Let_def using x pe s(2) dr
    by (cases "e < 0") (simp_all add: digit_not_sign)
  then show ?thesis by (simp only: s(1) append_assoc append_Cons append_Nil)
qed

lemma normalize_from_exp:
  assumes r: "ends_literal r"
  shows "normalize_from out (render_literal (LitExp a e) @ r) = normalize_from (out @ ''?'') r"
proof -
  obtain d ds where s: "show_nat a = d # ds" "is_ascii_digit d" "list_all in_number ds"
    by (rule show_nat_Cons)
  show ?thesis
    using normalize_from_digits [OF refl s(2), where r = r and ds = "ds @ ''e'' @ (if e < 0 then ''-'' else []) @ show_nat (nat \<bar>e\<bar>)" and out = out]
      consume_exponent [OF s(3) r]
    by (simp add: s(1))
qed

lemma zero_x_facts [simp]: "is_x CHR ''x''" "is_ascii_digit CHR ''0''"
  by (code_simp)+

lemma normalize_from_hex:
  assumes r: "ends_literal r" and ds: "list_all is_ascii_hexdigit ds"
  shows "normalize_from out (render_literal (LitHex ds) @ r) = normalize_from (out @ ''?'') r"
proof -
  have "consume_number_tail True ((CHR ''x'' # ds) @ r) = r"
    using dropWhile_all_append [OF ds ends_literal_peeks(2) [OF r]] by (simp add: consume_number_tail_alt)
  then show ?thesis
    using normalize_from_digits [of "''0x'' @ ds" "CHR ''0''" "CHR ''x'' # ds" r out] by simp
qed

lemma normalize_from_literal_text:
  assumes "ends_literal r"
  shows "normalize_from out (render_literal (LitText v) @ r) = normalize_from (out @ ''?'') r"
proof -
  have "\<not> peek (\<lambda>c. c = quote_char) r"
    by (rule ends_literal_peek [OF assms]) (simp add: separator_def)
  from skip_literal_escaped [OF this, of v] show ?thesis by simp
qed

lemma normalize_from_literal:
  assumes "ends_literal r" "literal_ok l"
  shows "normalize_from out (render_literal l @ r) = normalize_from (out @ ''?'') r"
  using assms normalize_from_literal_text normalize_from_int normalize_from_decimal normalize_from_exp normalize_from_hex
  by (cases l) (simp_all only: literal_ok.simps)

lemma render_literal_head:
  assumes "literal_ok l"
  obtains c cs where "render_literal l = c # cs" "hidden c \<or> is_sign c" "\<not> is_ws c"
proof (cases l)
  case (LitText v)
  then show thesis using that [of quote_char] by (simp add: hidden_def quote_char_def) (simp add: is_ws_def ccode_def)
next
  case (LitInt n)
  obtain d ds where s: "show_nat (nat \<bar>n\<bar>) = d # ds" "is_ascii_digit d" by (rule show_nat_Cons)
  have "\<not> is_ws d" using s(2) by (auto simp: is_ws_def is_ascii_digit_def Let_def)
  then show thesis
    using that [of "if n < 0 then CHR ''-'' else d" "if n < 0 then d # ds else ds"] s(2)
    by (simp add: LitInt s(1) hidden_def del: abs_ge_zero split: if_splits)
next
  case (LitDecimal a b)
  obtain d ds where s: "show_nat a = d # ds" "is_ascii_digit d" by (rule show_nat_Cons)
  have "\<not> is_ws d" using s(2) by (auto simp: is_ws_def is_ascii_digit_def Let_def)
  then show thesis using that s LitDecimal by (simp add: hidden_def)
next
  case (LitExp a e)
  obtain d ds where s: "show_nat a = d # ds" "is_ascii_digit d" by (rule show_nat_Cons)
  have "\<not> is_ws d" using s(2) by (auto simp: is_ws_def is_ascii_digit_def Let_def)
  then show thesis using that s LitExp by (simp add: hidden_def)
next
  case (LitHex ds)
  then show thesis using that [of "CHR ''0''"] by (simp add: hidden_def) (simp add: is_ws_def ccode_def)
qed

lemma template_ends_literal: "template_ok False ts z \<Longrightarrow> ends_literal (render_template ts z)"
  by (cases ts) (auto simp: ends_literal_def)

lemma normalize_from_template:
  "template_ok b ts z \<Longrightarrow>
     normalize_from out (render_template ts z) = out @ collapse (at_gap out) (skeleton ts z)"
proof (induction ts arbitrary: out b)
  case Nil
  then show ?case by (simp add: normalize_from_plain)
next
  case (Cons seg ts)
  obtain p l where seg: "seg = (p, l)" by (cases seg)
  let ?r = "render_template ts z"
  have ok: "plain_text p" "p = [] \<or> \<not> is_sign (last p)" "literal_ok l" "template_ok False ts z"
    using Cons.prems by (auto simp: seg)
  obtain c cs where l: "render_literal l = c # cs" "\<not> is_ws c"
    using render_literal_head [OF ok(3)] by metis
  have "normalize_from out (p @ render_literal l @ ?r) =
      normalize_from (out @ collapse (at_gap out) p) (render_literal l @ ?r)"
    using ok(2) l by (intro normalize_from_text [OF ok(1)]) auto
  also have "\<dots> = normalize_from ((out @ collapse (at_gap out) p) @ ''?'') ?r"
    by (rule normalize_from_literal [OF template_ends_literal [OF ok(4)] ok(3)])
  also have "\<dots> = ((out @ collapse (at_gap out) p) @ ''?'') @ collapse False (skeleton ts z)"
    using Cons.IH [OF ok(4)] by (simp del: append_assoc)
  finally show ?case by (simp add: seg collapse_append_char)
qed

text \<open>
  C35. The digest of a statement written from a template does not depend on its literals: it is
  the template with a question mark for each of them and its white space collapsed.
\<close>

theorem digest_ignores_literals:
  assumes "template_ok True ts z"
  shows "normalize_digest (Sql (render_template ts z)) = truncate_chars digest_max_chars (collapse True (skeleton ts z))"
  using normalize_from_template [OF assms, of "[]"] by (simp add: normalize_sql_def at_gap_def)

theorem digest_ignores_literals_witness:
  "normalize_digest (Sql (render_template
      [(''SELECT * FROM t  WHERE id = '', LitInt (- 42)), ('' AND name IN ('', LitText ''bob''), ('', '', LitExp 2 (- 3))] '')'')) =
     ''SELECT * FROM t WHERE id = ? AND name IN (?, ?)''"
proof -
  let ?ts = "[(''SELECT * FROM t  WHERE id = '', LitInt (- 42)), ('' AND name IN ('', LitText ''bob''), ('', '', LitExp 2 (- 3))]"
  have "template_ok True ?ts '')''" by code_simp
  from digest_ignores_literals [OF this]
  have "normalize_digest (Sql (render_template ?ts '')'')) = truncate_chars digest_max_chars (collapse True (skeleton ?ts '')''))" .
  moreover have "truncate_chars digest_max_chars (collapse True (skeleton ?ts '')'')) = ''SELECT * FROM t WHERE id = ? AND name IN (?, ?)''"
    by code_simp
  ultimately show ?thesis by simp
qed

lemma hidden_ellipsis [simp]: "\<not> hidden ellipsis"
  by code_simp

text \<open>No digest of an SQL statement shows a single quote or a digit of the statement.\<close>

theorem sql_digest_hides: "list_all (\<lambda>c. \<not> hidden c) (normalize_digest (Sql sql))"
  using normalize_sql_plain [of sql]
  by (auto simp: plain_text_def truncate_chars_def list_all_iff dest: in_set_takeD)

text \<open>
  What it does show: a double-quoted literal of MySQL, and in PostgreSQL, where a backslash
  does not escape, every second literal after one that ends in a backslash.
\<close>

lemma digest_shows_double_quoted:
  "normalize_sql (''SELECT * FROM t WHERE name = '' @ [CHR 0x22] @ ''bob'' @ [CHR 0x22]) =
     ''SELECT * FROM t WHERE name = '' @ [CHR 0x22] @ ''bob'' @ [CHR 0x22]"
  by code_simp

lemma digest_shows_after_backslash:
  "normalize_sql (''SELECT '' @ [quote_char] @ ''C:'' @ [CHR 0x5C, quote_char] @ '', '' @ [quote_char] @ ''secret'' @ [quote_char]) =
     ''SELECT ?secret?''"
  by code_simp

section \<open>Captures over time\<close>

text \<open>One call of \<open>record\<close> with everything it is given.\<close>

record capture =
  ca_io :: capture_io
  ca_now :: nat
  ca_elapsed :: "64 word"
  ca_ctx :: capture_context
  ca_payload :: capture_payload
  ca_rows :: "64 word option"
  ca_affected :: "64 word option"

definition do_capture :: "(json \<Rightarrow> string) \<Rightarrow> capture \<Rightarrow> recorder \<times> stat_row list \<Rightarrow> recorder \<times> stat_row list" where
  "do_capture json_text c st =
     record_capture json_text (ca_io c) (ca_now c) (ca_elapsed c) (ca_ctx c) (ca_payload c) (ca_rows c) (ca_affected c) st"

definition do_captures :: "(json \<Rightarrow> string) \<Rightarrow> capture list \<Rightarrow> recorder \<times> stat_row list \<Rightarrow> recorder \<times> stat_row list" where
  "do_captures json_text cs st = fold (do_capture json_text) cs st"

lemma do_captures_simps [simp]:
  "do_captures jt [] st = st"
  "do_captures jt (c # cs) st = do_captures jt cs (do_capture jt c st)"
  "do_captures jt (cs @ ds) st = do_captures jt ds (do_captures jt cs st)"
  by (simp_all add: do_captures_def)

definition passes :: "recorder \<Rightarrow> capture \<Rightarrow> bool" where
  "passes rc c = fst (stats_gate (ca_now c) (ca_elapsed c) (normalize_digest (ca_payload c)) rc)"

definition slow :: "recorder \<Rightarrow> capture \<Rightarrow> bool" where
  "slow rc c = (rc_enabled rc \<and> rc_threshold_ms rc \<le> ca_elapsed c)"

definition same_settings :: "recorder \<Rightarrow> recorder \<Rightarrow> bool" where
  "same_settings a b \<longleftrightarrow> rc_enabled a = rc_enabled b \<and> rc_threshold_ms a = rc_threshold_ms b \<and>
     rc_store_sql a = rc_store_sql b \<and> rc_cap_per_hour a = rc_cap_per_hour b"

lemma stats_gate_settings: "same_settings (snd (stats_gate now e d rc)) rc"
  by (auto simp: stats_gate_def same_settings_def split: prod.splits bool.splits)

lemma stats_gate_limiter:
  "rc_cap_limiter (snd (stats_gate (ca_now c) (ca_elapsed c) d rc)) =
     (if slow rc c then snd (check_and_record (rc_cap_limiter rc) d (rc_cap_per_hour rc) cap_window_secs (ca_now c))
      else rc_cap_limiter rc)"
  by (auto simp: stats_gate_def slow_def not_less not_le split: prod.splits bool.splits)

lemma passes_iff:
  "passes rc c \<longleftrightarrow> slow rc c \<and>
     fst (check_and_record (rc_cap_limiter rc) (normalize_digest (ca_payload c)) (rc_cap_per_hour rc) cap_window_secs (ca_now c))"
  by (auto simp: passes_def stats_gate_def slow_def not_less not_le split: prod.splits bool.splits)

text \<open>A capture leaves the recorder as its gate does and adds at most the row of its own digest.\<close>

lemma do_capture_recorder:
  "fst (do_capture jt c st) = snd (stats_gate (ca_now c) (ca_elapsed c) (normalize_digest (ca_payload c)) (fst st))"
  by (simp add: do_capture_def record_capture_def Let_def split: prod.splits bool.splits option.splits)

lemma insert_stat_row_cases:
  obtains "insert_stat_row ok r rows = (False, rows)" | "insert_stat_row ok r rows = (True, rows @ [r])"
  by (cases "ok \<and> \<not> list_ex (\<lambda>x. qs_id x = qs_id r) rows") (auto simp: insert_stat_row_def)

lemma gateway_row_sel [simp]:
  "qs_digest (gateway_row io ctx k d t e n a) = d" "qs_sql_text (gateway_row io ctx k d t e n a) = t"
  "qs_source (gateway_row io ctx k d t e n a) = ''gateway''"
  by (simp_all add: gateway_row_def)

lemma do_capture_rows:
  obtains "snd (do_capture jt c st) = snd st"
  | r where "snd (do_capture jt c st) = snd st @ [r]" "passes (fst st) c"
      "qs_digest r = normalize_digest (ca_payload c)" "qs_source r = ''gateway''"
      "qs_sql_text r = (if rc_store_sql (fst st)
         then Some (truncate_chars sql_text_max_chars (render_plaintext jt (ca_payload c))) else None)"
proof -
  let ?d = "normalize_digest (ca_payload c)"
  obtain b rc where g: "stats_gate (ca_now c) (ca_elapsed c) ?d (fst st) = (b, rc)" by fastforce
  have ss: "rc_store_sql rc = rc_store_sql (fst st)"
    using stats_gate_settings [of "ca_now c" "ca_elapsed c" ?d "fst st"] g by (simp add: same_settings_def)
  show thesis
  proof (cases "b \<and> capture_db_kind (ca_io c) (ca_ctx c) \<noteq> None")
    case False
    then have "snd (do_capture jt c st) = snd st"
      by (cases b) (auto simp: do_capture_def record_capture_def g Let_def)
    then show thesis by (rule that(1))
  next
    case True
    then obtain k where k: "capture_db_kind (ca_io c) (ca_ctx c) = Some k" by auto
    let ?t = "if rc_store_sql rc then Some (truncate_chars sql_text_max_chars (render_plaintext jt (ca_payload c))) else None"
    let ?r = "gateway_row (ca_io c) (ca_ctx c) k ?d ?t (ca_elapsed c) (ca_rows c) (ca_affected c)"
    have e: "snd (do_capture jt c st) = snd (insert_stat_row (ci_insert_ok (ca_io c)) ?r (snd st))"
      using True by (simp add: do_capture_def record_capture_def g k Let_def)
    have p: "passes (fst st) c" using True by (simp add: passes_def g)
    show thesis
      by (rule insert_stat_row_cases [of "ci_insert_ok (ca_io c)" ?r "snd st"])
        (use that(1) that(2) [of ?r] e p ss in simp_all)
  qed
qed

text \<open>The captures that pass the gate, with their digests and times.\<close>

primrec capture_log :: "(json \<Rightarrow> string) \<Rightarrow> recorder \<times> stat_row list \<Rightarrow> capture list \<Rightarrow> (string \<times> nat) list" where
  "capture_log jt st [] = []"
| "capture_log jt st (c # cs) =
     (if passes (fst st) c then [(normalize_digest (ca_payload c), ca_now c)] else []) @
     capture_log jt (do_capture jt c st) cs"

definition capture_key :: "capture \<Rightarrow> string \<times> nat" where
  "capture_key c = (normalize_digest (ca_payload c), ca_now c)"

lemma slow_settings: "same_settings a b \<Longrightarrow> slow a c = slow b c"
  by (simp add: slow_def same_settings_def)

lemma capture_log_accepted:
  "same_settings (fst st) rc \<Longrightarrow>
   capture_log jt st cs =
     accepted (\<lambda>l k now. check_and_record l k (rc_cap_per_hour rc) cap_window_secs now) (rc_cap_limiter (fst st))
       (map capture_key (filter (slow rc) cs))"
proof (induction cs arbitrary: st)
  case (Cons c cs)
  let ?d = "normalize_digest (ca_payload c)"
  let ?st = "do_capture jt c st"
  have ss: "same_settings (fst ?st) rc"
    using stats_gate_settings [of "ca_now c" "ca_elapsed c" ?d "fst st"] Cons.prems
    by (simp add: do_capture_recorder same_settings_def)
  note IH = Cons.IH [OF ss]
  have sl: "slow (fst st) c = slow rc c" by (rule slow_settings [OF Cons.prems])
  have cap: "rc_cap_per_hour (fst st) = rc_cap_per_hour rc" using Cons.prems by (simp add: same_settings_def)
  have lim: "rc_cap_limiter (fst ?st) =
      (if slow rc c then snd (check_and_record (rc_cap_limiter (fst st)) ?d (rc_cap_per_hour rc) cap_window_secs (ca_now c))
       else rc_cap_limiter (fst st))"
    by (simp add: do_capture_recorder stats_gate_limiter sl cap)
  show ?case
    using IH by (auto simp: passes_iff sl cap lim capture_key_def split: prod.splits)
qed simp

lemma capture_log_append:
  "capture_log jt st (cs @ ds) = capture_log jt st cs @ capture_log jt (do_captures jt cs st) ds"
  by (induction cs arbitrary: st) simp_all

definition count_digest :: "string \<Rightarrow> stat_row list \<Rightarrow> nat" where
  "count_digest d rows = length (filter (\<lambda>r. qs_digest r = d) rows)"

lemma capture_log_counts:
  "count_digest d (snd (do_captures jt cs st)) \<le> count_digest d (snd st) + length (filter (\<lambda>e. fst e = d) (capture_log jt st cs))"
proof (induction cs arbitrary: st)
  case (Cons c cs)
  have "count_digest d (snd (do_capture jt c st)) \<le>
      count_digest d (snd st) + (if passes (fst st) c \<and> normalize_digest (ca_payload c) = d then 1 else 0)"
    by (rule do_capture_rows [of jt c st]) (auto simp: count_digest_def)
  then show ?case using Cons.IH [of "do_capture jt c st"] by (auto split: if_splits)
qed simp

lemma capture_log_times: "(k, n) \<in> set (capture_log jt st cs) \<Longrightarrow> n \<in> ca_now ` set cs"
proof (induction cs arbitrary: st)
  case (Cons c cs)
  then have "(k, n) \<in> set (capture_log jt (do_capture jt c st) cs) \<or> n = ca_now c" by (auto split: if_splits)
  then show ?case using Cons.IH [of "do_capture jt c st"] by auto
qed simp

lemma window_count_all:
  assumes "\<And>k n. (k, n) \<in> set es \<Longrightarrow> n \<le> t \<and> t - n < w"
  shows "length (filter (\<lambda>e. fst e = d) es) = window_count w es d t"
proof -
  have "filter (\<lambda>e. fst e = d) es = filter (\<lambda>e. fst e = d \<and> snd e \<le> t \<and> t - snd e < w) es"
    using assms by (intro filter_cong) auto
  then show ?thesis by (simp add: window_count_def times_def filter_map comp_def)
qed

text \<open>
  Whatever has been captured before, the captures of one hour add at most the configured
  number of samples of one digest to the table.
\<close>

theorem samples_capped_per_hour:
  assumes "sorted (map ca_now (cs @ ds))"
    and "list_all (\<lambda>c. ca_now c \<le> t \<and> t - ca_now c < cap_window_secs * nanos_per_sec) ds"
  shows "count_digest d (snd (do_captures jt (cs @ ds) (recorder_from_parts enabled threshold_ms store_sql cap, table))) \<le>
    count_digest d (snd (do_captures jt cs (recorder_from_parts enabled threshold_ms store_sql cap, table))) + unat cap"
proof -
  let ?rc = "recorder_from_parts enabled threshold_ms store_sql cap"
  let ?st = "(?rc, table)" and ?mid = "do_captures jt cs (?rc, table)"
  let ?span = "cap_window_secs * nanos_per_sec"
  let ?log1 = "capture_log jt ?st cs" and ?log2 = "capture_log jt ?mid ds"
  have sorted: "sorted (map snd (map capture_key (filter (slow ?rc) (cs @ ds))))"
    using sorted_filter [of ca_now "cs @ ds" "slow ?rc"] assms(1) by (simp add: capture_key_def comp_def)
  have "capture_log jt ?st (cs @ ds) =
      accepted (\<lambda>l k now. check_and_record l k (unat cap) cap_window_secs now) Map.empty
        (map capture_key (filter (slow ?rc) (cs @ ds)))"
    using capture_log_accepted [of ?st ?rc jt "cs @ ds"]
    by (simp add: same_settings_def recorder_from_parts_def)
  then have "window_count ?span (?log1 @ ?log2) d t \<le> unat cap"
    using limiter.accepted_bounded [OF _ sorted, of Map.empty cap_window_secs "unat cap" d t]
    by (simp add: entries_of_def capture_log_append)
  moreover have "length (filter (\<lambda>e. fst e = d) ?log2) = window_count ?span ?log2 d t"
    using assms(2) by (intro window_count_all) (auto dest: capture_log_times simp: list_all_iff)
  moreover have "window_count ?span ?log2 d t \<le> window_count ?span (?log1 @ ?log2) d t"
    by (simp add: window_count_def)
  ultimately show ?thesis using capture_log_counts [of d jt ds ?mid] by simp
qed

definition demo_capture :: "nat \<Rightarrow> string \<Rightarrow> capture" where
  "demo_capture n sql =
     \<lparr>ca_io = \<lparr>ci_db_type = (\<lambda>_. Some (Some ''mysql'')), ci_insert_ok = True, ci_id = show_nat n, ci_captured_at = ''2026-08-27''\<rparr>,
      ca_now = n, ca_elapsed = 2000,
      ca_ctx = \<lparr>cc_conn_id = ''c1'', cc_db_kind = None, cc_database = None, cc_user_id = None, cc_entry = GwSse, cc_outcome = CaptureOk\<rparr>,
      ca_payload = Sql sql, ca_rows = None, ca_affected = None\<rparr>"

theorem samples_capped_per_hour_witness:
  "count_digest ''SELECT ?'' (snd (do_captures (\<lambda>_. [])
      ([] @ [demo_capture 1 ''SELECT 1'', demo_capture 2 ''SELECT 2'', demo_capture 3 ''SELECT 3''])
      (recorder_from_parts True 1000 True 2, []))) \<le>
     count_digest ''SELECT ?'' (snd (do_captures (\<lambda>_. []) [] (recorder_from_parts True 1000 True 2, []))) + unat (2 :: 32 word)"
  by (rule samples_capped_per_hour [where t = 3]) (simp_all add: demo_capture_def cap_window_secs_def nanos_per_sec_def)

lemma do_captures_keep:
  assumes "same_settings (fst st) rc"
  shows "\<exists>new. snd (do_captures jt cs st) = snd st @ new \<and>
    (\<forall>r \<in> set new. \<exists>c \<in> set cs. slow rc c \<and> qs_digest r = normalize_digest (ca_payload c) \<and>
       qs_source r = ''gateway'' \<and> (\<not> rc_store_sql rc \<longrightarrow> qs_sql_text r = None))"
  using assms
proof (induction cs arbitrary: st)
  case (Cons c cs)
  let ?st = "do_capture jt c st"
  have ss: "same_settings (fst ?st) rc"
    using stats_gate_settings [of "ca_now c" "ca_elapsed c" "normalize_digest (ca_payload c)" "fst st"] Cons.prems
    by (simp add: do_capture_recorder same_settings_def)
  from Cons.IH [OF ss] obtain new where new: "snd (do_captures jt cs ?st) = snd ?st @ new"
    "\<forall>r \<in> set new. \<exists>c \<in> set cs. slow rc c \<and> qs_digest r = normalize_digest (ca_payload c) \<and>
       qs_source r = ''gateway'' \<and> (\<not> rc_store_sql rc \<longrightarrow> qs_sql_text r = None)" by blast
  show ?case
  proof (rule do_capture_rows [of jt c st])
    assume "snd ?st = snd st"
    then show ?thesis using new by (intro exI [of _ new]) auto
  next
    fix r assume r: "snd ?st = snd st @ [r]" "passes (fst st) c" "qs_digest r = normalize_digest (ca_payload c)"
      "qs_source r = ''gateway''" "qs_sql_text r = (if rc_store_sql (fst st)
         then Some (truncate_chars sql_text_max_chars (render_plaintext jt (ca_payload c))) else None)"
    have "slow rc c" using r(2) slow_settings [OF Cons.prems] by (simp add: passes_iff)
    moreover have "\<not> rc_store_sql rc \<longrightarrow> qs_sql_text r = None"
      using r(5) Cons.prems by (simp add: same_settings_def)
    ultimately show ?thesis using new r(1,3,4) by (intro exI [of _ "r # new"]) auto
  qed
qed simp

lemma do_captures_new:
  assumes "same_settings (fst st) rc"
  obtains new where "snd (do_captures jt cs st) = snd st @ new"
    and "\<And>r. r \<in> set new \<Longrightarrow> \<exists>c \<in> set cs. slow rc c \<and> qs_digest r = normalize_digest (ca_payload c)"
    and "\<And>r. r \<in> set new \<Longrightarrow> \<not> rc_store_sql rc \<Longrightarrow> qs_sql_text r = None"
  using do_captures_keep [OF assms, of jt cs] by blast

text \<open>
  With the storing of statements switched off no capture writes any text but the digest.
\<close>

theorem no_plaintext_unless_enabled:
  "\<exists>new. snd (do_captures jt cs (recorder_from_parts enabled threshold_ms False cap, table)) = table @ new \<and>
     list_all (\<lambda>r. qs_sql_text r = None) new \<and>
     set (map qs_digest new) \<subseteq> set (map (normalize_digest \<circ> ca_payload) cs)"
proof -
  let ?rc = "recorder_from_parts enabled threshold_ms False cap"
  have "same_settings (fst (?rc, table)) ?rc" by (simp add: same_settings_def)
  then obtain new where new: "snd (do_captures jt cs (?rc, table)) = snd (?rc, table) @ new"
    "\<And>r. r \<in> set new \<Longrightarrow> \<exists>c \<in> set cs. slow ?rc c \<and> qs_digest r = normalize_digest (ca_payload c)"
    "\<And>r. r \<in> set new \<Longrightarrow> \<not> rc_store_sql ?rc \<Longrightarrow> qs_sql_text r = None"
    by (rule do_captures_new [where jt = jt and cs = cs]) blast
  have "\<not> rc_store_sql ?rc" by (simp add: recorder_from_parts_def)
  then show ?thesis using new by (intro exI [of _ new]) (auto simp: list_all_iff)
qed

lemma fast_captures_add_nothing:
  assumes "\<not> enabled \<or> list_all (\<lambda>c. ca_elapsed c < ucast threshold_ms) cs"
  shows "snd (do_captures jt cs (recorder_from_parts enabled threshold_ms store_sql cap, table)) = table"
proof -
  let ?rc = "recorder_from_parts enabled threshold_ms store_sql cap"
  have "same_settings (fst (?rc, table)) ?rc" by (simp add: same_settings_def)
  then obtain new where new: "snd (do_captures jt cs (?rc, table)) = snd (?rc, table) @ new"
    "\<And>r. r \<in> set new \<Longrightarrow> \<exists>c \<in> set cs. slow ?rc c \<and> qs_digest r = normalize_digest (ca_payload c)"
    by (rule do_captures_new [where jt = jt and cs = cs]) blast
  have "\<not> slow ?rc c" if "c \<in> set cs" for c
    using assms that by (auto simp: slow_def recorder_from_parts_def list_all_iff not_le)
  then have "new = []" using new(2) by (cases new) auto
  then show ?thesis using new(1) by simp
qed

section \<open>The summary\<close>

lemma set_sort_desc [simp]: "set (sort_desc f xs) = set xs"
  by (simp add: sort_desc_def)

lemma length_sort_desc [simp]: "length (sort_desc f xs) = length xs"
  by (simp add: sort_desc_def)

lemma distinct_sort_desc [simp]: "distinct (sort_desc f xs) = distinct xs"
  by (simp add: sort_desc_def)

lemma sort_desc_sorted: "sorted (rev (map f (sort_desc f xs)))"
  by (simp add: sort_desc_def rev_map)

lemma sum_list_single: "distinct ks \<Longrightarrow> sum_list (map (\<lambda>k. if k = x then v else 0) ks) = (if x \<in> set ks then v else (0 :: int))"
  by (induction ks) auto

lemma sum_list_by_group:
  fixes f :: "stat_row \<Rightarrow> int"
  assumes "distinct ks" "key_of_row ` set rows \<subseteq> set ks"
  shows "sum_list (map (\<lambda>k. sum_list (map f (rows_of_group rows k))) ks) = sum_list (map f rows)"
  using assms(2)
proof (induction rows)
  case Nil
  then show ?case by (simp add: rows_of_group_def)
next
  case (Cons r rows)
  have "sum_list (map (\<lambda>k. sum_list (map f (rows_of_group (r # rows) k))) ks) =
      sum_list (map (\<lambda>k. (if k = key_of_row r then f r else 0) + sum_list (map f (rows_of_group rows k))) ks)"
    by (rule arg_cong [of _ _ sum_list]) (simp add: rows_of_group_def)
  also have "\<dots> = sum_list (map (\<lambda>k. if k = key_of_row r then f r else 0) ks) + sum_list (map f rows)"
    using Cons by (simp add: sum_list_addf)
  also have "sum_list (map (\<lambda>k. if k = key_of_row r then f r else 0) ks) = f r"
    using assms(1) Cons.prems by (simp add: sum_list_single)
  finally show ?case by simp
qed

lemma set_agg_groups [simp]: "set (agg_groups e rows) = key_of_row ` set rows"
  by (simp add: agg_groups_def)

lemma distinct_agg_groups [simp]: "distinct (agg_groups e rows)"
  by (simp add: agg_groups_def)

lemma aggregate_stats_Some:
  "aggregate_stats ok since conn e limit table = Some aggs \<Longrightarrow>
     aggs = map (\<lambda>k. agg_row k (rows_of_group (stats_since since conn table) k))
       (take (nat limit) (agg_groups e (stats_since since conn table)))"
  by (auto simp: aggregate_stats_def Let_def split: if_splits)

lemma agg_row_sel [simp]:
  "da_count (agg_row k rows) = sum_list (map queries_of rows)"
  "da_total_ms (agg_row k rows) = sum_list (map qs_elapsed_ms rows)"
  "(da_digest (agg_row k rows), da_db_kind (agg_row k rows), da_conn_id (agg_row k rows)) = k"
  by (simp_all add: agg_row_def Let_def)

text \<open>
  While there are no more groups than the limit, the counts and the times of the summary
  add up to those of all samples of the window: no sample is lost or counted twice.
\<close>

theorem aggregate_conserves:
  assumes "aggregate_stats ok since conn e limit table = Some aggs"
    and "length (agg_groups e (stats_since since conn table)) \<le> nat limit"
  shows "(sum_list (map da_count aggs), sum_list (map da_total_ms aggs)) =
    (sum_list (map queries_of (stats_since since conn table)), sum_list (map qs_elapsed_ms (stats_since since conn table)))"
proof -
  let ?rows = "stats_since since conn table"
  have aggs: "aggs = map (\<lambda>k. agg_row k (rows_of_group ?rows k)) (agg_groups e ?rows)"
    using aggregate_stats_Some [OF assms(1)] assms(2) by simp
  have "sum_list (map (\<lambda>k. sum_list (map f (rows_of_group ?rows k))) (agg_groups e ?rows)) = sum_list (map f ?rows)"
    for f :: "stat_row \<Rightarrow> int"
    by (rule sum_list_by_group) simp_all
  then show ?thesis by (simp add: aggs comp_def)
qed

lemma sorted_rev_take_drop:
  assumes "sorted (rev (map f xs))" "x \<in> set (take n xs)" "y \<in> set (drop n xs)"
  shows "f y \<le> f x"
proof -
  have "rev (map f xs) = rev (map f (drop n xs)) @ rev (map f (take n xs))"
    by (metis append_take_drop_id map_append rev_append)
  then show ?thesis using assms by (auto simp: sorted_append)
qed

text \<open>
  In the default order a listed group has spent at least as much time as any group that
  the limit cuts off.
\<close>

theorem heaviest_digests_first:
  assumes "aggregate_stats ok since conn BySum limit table = Some aggs" "a \<in> set aggs"
    and "r \<in> set (stats_since since conn table)"
    and "key_of_row r \<notin> (\<lambda>a. (da_digest a, da_db_kind a, da_conn_id a)) ` set aggs"
  shows "sum_list (map qs_elapsed_ms (rows_of_group (stats_since since conn table) (key_of_row r))) \<le> da_total_ms a"
proof -
  let ?rows = "stats_since since conn table"
  let ?ks = "agg_groups BySum ?rows"
  let ?f = "\<lambda>k. (sort_value BySum (rows_of_group ?rows k), da_last_seen (agg_row k (rows_of_group ?rows k)))"
  note aggs = aggregate_stats_Some [OF assms(1)]
  from assms(2) obtain k where k: "k \<in> set (take (nat limit) ?ks)" "a = agg_row k (rows_of_group ?rows k)"
    by (auto simp: aggs)
  have "key_of_row r \<in> set ?ks" using assms(3) by simp
  moreover have "key_of_row r \<notin> set (take (nat limit) ?ks)"
    using assms(4) by (simp add: aggs image_image)
  ultimately have r: "key_of_row r \<in> set (drop (nat limit) ?ks)"
    by (metis Un_iff append_take_drop_id set_append)
  have "?f (key_of_row r) \<le> ?f k"
    by (rule sorted_rev_take_drop [OF _ k(1) r]) (simp only: agg_groups_def sort_desc_sorted)
  then have "sort_value BySum (rows_of_group ?rows (key_of_row r)) \<le> sort_value BySum (rows_of_group ?rows k)"
    by (auto simp: less_eq_prod_def)
  then show ?thesis by (simp add: sort_value_def k(2))
qed

definition demo_row :: "string \<Rightarrow> string \<Rightarrow> int \<Rightarrow> int option \<Rightarrow> stat_row" where
  "demo_row i d ms n = native_row i ''t1'' ''c1'' ''mysql'' None ''gateway'' d None ms n"

definition demo_rows :: "stat_row list" where
  "demo_rows = [demo_row ''1'' ''A'' 7 (Some 5), demo_row ''2'' ''B'' 2 None, demo_row ''3'' ''B'' 3 None]"

definition demo_aggs :: "sort_expr \<Rightarrow> int \<Rightarrow> digest_agg list" where
  "demo_aggs e n = the (aggregate_stats True ''t0'' None e n demo_rows)"

theorem aggregate_conserves_witness:
  "(sum_list (map da_count (demo_aggs BySum 20)), sum_list (map da_total_ms (demo_aggs BySum 20))) =
     (sum_list (map queries_of (stats_since ''t0'' None demo_rows)), sum_list (map qs_elapsed_ms (stats_since ''t0'' None demo_rows)))"
proof (rule aggregate_conserves)
  show "aggregate_stats True ''t0'' None BySum 20 demo_rows = Some (demo_aggs BySum 20)"
    by code_simp
  show "length (agg_groups BySum (stats_since ''t0'' None demo_rows)) \<le> nat 20"
    by code_simp
qed

theorem heaviest_digests_first_witness:
  "sum_list (map qs_elapsed_ms (rows_of_group (stats_since ''t0'' None demo_rows) (key_of_row (demo_row ''2'' ''B'' 2 None)))) \<le>
     da_total_ms (hd (demo_aggs BySum 1))"
proof (rule heaviest_digests_first)
  show "aggregate_stats True ''t0'' None BySum 1 demo_rows = Some (demo_aggs BySum 1)"
    by code_simp
  show "hd (demo_aggs BySum 1) \<in> set (demo_aggs BySum 1)" by code_simp
  show "demo_row ''2'' ''B'' 2 None \<in> set (stats_since ''t0'' None demo_rows)" by code_simp
  show "key_of_row (demo_row ''2'' ''B'' 2 None) \<notin> (\<lambda>a. (da_digest a, da_db_kind a, da_conn_id a)) ` set (demo_aggs BySum 1)"
    by code_simp
qed

text \<open>
  The order by count is by the number of rows, not by the count that is shown, which adds the
  query counts of the counter sources: five queries come after two.
\<close>

lemma count_order_ignores_query_count: "map da_count (demo_aggs ByCount 20) = [2, 5]"
  by code_simp

text \<open>The limits of the two endpoints, and the pages of the listing.\<close>

lemma clamp_int_bounds: "lo \<le> hi \<Longrightarrow> lo \<le> clamp_int lo hi n \<and> clamp_int lo hi n \<le> hi"
  by (simp add: clamp_int_def)

lemma summary_bounded:
  assumes "query_stats_summary ok sample_ok since q meta table = Some (items, m)"
  shows "length items \<le> 100"
proof -
  let ?n = "clamp_int 1 100 (case suq_limit q of Some n \<Rightarrow> n | None \<Rightarrow> 20)"
  obtain gs where gs: "aggregate_stats ok since (suq_conn_id q) (query_stats_sort_expr (suq_sort q)) ?n table = Some gs"
    "length items = length gs"
    using assms by (auto simp: query_stats_summary_def split: option.splits)
  have "?n \<le> 100" using clamp_int_bounds [of 1 100 "case suq_limit q of Some n \<Rightarrow> n | None \<Rightarrow> 20"] by simp
  then have "nat ?n \<le> 100" by simp
  then show ?thesis using gs(2) by (simp add: aggregate_stats_Some [OF gs(1)])
qed

lemma page_of_list:
  assumes "query_stats_list True True since q table = Some p"
  shows "pg_total p = length (stats_matching since q table) \<and> set (pg_items p) \<subseteq> set (stats_matching since q table) \<and>
    length (pg_items p) \<le> nat (pg_limit p) \<and> 1 \<le> pg_limit p \<and> pg_limit p \<le> 200"
proof -
  have "1 \<le> clamp_int 1 200 n \<and> clamp_int 1 200 n \<le> 200" for n by (rule clamp_int_bounds) simp
  then show ?thesis
    using assms by (auto simp: query_stats_list_def Let_def dest!: in_set_takeD in_set_dropD)
qed

text \<open>
  Retention compares an RFC 3339 time with SQLite's own form, which has a space where the
  former has a T: a row of the cut-off day stays whatever its hour.
\<close>

lemma rotate_keeps_cutoff_day: "\<not> day @ CHR ''T'' # time < day @ CHR '' '' # time'"
proof -
  have "\<not> CHR ''T'' # time < CHR '' '' # time'" by (simp add: less_char_def)
  then show ?thesis by (induction day) simp_all
qed

end
