(* ===== verification/Native_Collector.thy ===== *)
theory Native_Collector
  imports Query_Stats Mcp_Tools "HOL-Library.Multiset"
begin

text \<open>
  The collectors of \<open>crates/automation/src/native_collector.rs\<close>, which copy the slow-query
  logs of the registered databases into \<open>query_stats\<close>: the Redis slow log, the MySQL slow-log
  table, and the digest counters of MySQL's performance schema, of which only the differences
  between two snapshots are written.

  The tables of the server are a record with the samples and the cursors. What the drivers
  answer, the opening of the connections, the text form of a snapshot and the outcome of every
  statement on the server's own database are the fields of \<open>native_env\<close>.
\<close>

section \<open>State and environment\<close>

record native_store =
  nv_rows :: "stat_row list"
  nv_cursors :: "string \<times> string \<rightharpoonup> string"

text \<open>\<open>PsSnapshot\<close>: the time it was taken and the counters by composite key.\<close>

record ps_snapshot =
  sn_t :: int
  sn_d :: "string \<rightharpoonup> int \<times> int"

type_synonym slow_row = "string \<times> string \<times> string option \<times> string option"

type_synonym digest_row = "string \<times> string \<times> nat \<times> nat \<times> string option"

record native_env =
  ne_meta :: mcp_env
  ne_load_ok :: bool
  ne_slowlog :: "db_connection \<Rightarrow> string \<Rightarrow> string + json"
  ne_open_mysql :: "db_connection \<Rightarrow> string \<Rightarrow> bool"
  ne_slow_settings :: "string + int \<times> string"
  ne_slow_log :: "string \<Rightarrow> string + slow_row list"
  ne_ps_flag :: "string + int"
  ne_ps_rows :: "string + digest_row list"
  ne_hour_ago :: string
  ne_cursor_ok :: bool
  ne_put_ok :: bool
  ne_insert_ok :: "nat \<Rightarrow> bool"
  ne_uuid :: "nat \<Rightarrow> string"
  ne_now :: string
  ne_now_ms :: int
  ne_snap_text :: "ps_snapshot \<Rightarrow> string"
  ne_snap_parse :: "string \<Rightarrow> ps_snapshot option"

definition redis_source :: string where
  "redis_source = ''db_native:redis_slowlog''"

definition mysql_source :: string where
  "mysql_source = ''db_native:mysql_slow_log''"

definition ps_digest_source :: string where
  "ps_digest_source = ''db_native:mysql_ps_digest''"

definition slowlog_batch :: nat where
  "slowlog_batch = 128"

definition native_load_conn :: "native_env \<Rightarrow> string \<Rightarrow> auto_store \<Rightarrow> string + db_connection \<times> string" where
  "native_load_conn env conn_id ast =
     (case meta_load_connection (ne_meta env) (ne_load_ok env) conn_id ast of
        Inl (code, message) \<Rightarrow> Inl message
      | Inr p \<Rightarrow> Inr p)"

definition cursor_get :: "native_env \<Rightarrow> string \<Rightarrow> string \<Rightarrow> native_store \<Rightarrow> string option" where
  "cursor_get env conn_id source st = (if ne_cursor_ok env then nv_cursors st (conn_id, source) else None)"

definition cursor_put :: "native_env \<Rightarrow> string \<Rightarrow> string \<Rightarrow> string \<Rightarrow> native_store \<Rightarrow> native_store" where
  "cursor_put env conn_id source c st =
     (if ne_put_ok env then st\<lparr>nv_cursors := (nv_cursors st)((conn_id, source) \<mapsto> c)\<rparr> else st)"

text \<open>The \<open>k\<close>-th insertion of a collection.\<close>

definition native_insert ::
  "native_env \<Rightarrow> nat \<Rightarrow> string \<Rightarrow> string \<Rightarrow> string option \<Rightarrow> string \<Rightarrow> string \<Rightarrow> string option \<Rightarrow> int \<Rightarrow> int option \<Rightarrow>
   stat_row list \<Rightarrow> bool \<times> stat_row list" where
  "native_insert env k conn_id db_kind database source digest sql_text elapsed_ms query_count rows =
     insert_native (ne_insert_ok env k) (ne_uuid env k) (ne_now env) conn_id db_kind database source digest sql_text
       elapsed_ms query_count rows"

section \<open>Redis\<close>

definition json_as_i64 :: "json \<Rightarrow> int option" where
  "json_as_i64 v = (case v of JNum n \<Rightarrow> if - (2 ^ 63) \<le> n \<and> n < 2 ^ 63 then Some n else None | _ \<Rightarrow> None)"

definition unwrap_or :: "'a \<Rightarrow> 'a option \<Rightarrow> 'a" where
  "unwrap_or d x = (case x of Some v \<Rightarrow> v | None \<Rightarrow> d)"

text \<open>The id, the duration in microseconds and the command of an entry.\<close>

definition slowlog_entry :: "json \<Rightarrow> (int \<times> int \<times> string list) option" where
  "slowlog_entry e =
     (case json_as_array e of
        Some p \<Rightarrow>
          if 4 \<le> length p then
            Some (unwrap_or 0 (json_as_i64 (p ! 0)), unwrap_or 0 (json_as_i64 (p ! 2)),
              map (\<lambda>x. unwrap_or [] (json_as_str x)) (unwrap_or [] (json_as_array (p ! 3))))
          else None
      | None \<Rightarrow> None)"

definition slowlog_wanted :: "nat \<Rightarrow> int \<times> int \<times> string list \<Rightarrow> bool" where
  "slowlog_wanted seen_id e =
     (case e of (i, dur, args) \<Rightarrow>
        \<not> (args = [] \<or> eq_ignore_ascii_case (hd args) ''SLOWLOG'' \<or> i \<le> 0 \<or> nat i \<le> seen_id))"

fun redis_loop ::
  "native_env \<Rightarrow> string \<Rightarrow> nat \<Rightarrow> json list \<Rightarrow> nat \<Rightarrow> nat \<Rightarrow> nat \<Rightarrow> stat_row list \<Rightarrow> nat \<times> nat \<times> stat_row list" where
  "redis_loop env conn_id seen_id [] k max_id n rows = (n, max_id, rows)"
| "redis_loop env conn_id seen_id (e # es) k max_id n rows =
     (case slowlog_entry e of
        None \<Rightarrow> redis_loop env conn_id seen_id es k max_id n rows
      | Some (i, dur_us, args) \<Rightarrow>
          if \<not> slowlog_wanted seen_id (i, dur_us, args) then redis_loop env conn_id seen_id es k max_id n rows
          else
            (let (ok, rows') = native_insert env k conn_id ''redis'' None redis_source (normalize_digest (Redis args))
                   (Some (join '' '' args)) (max 1 (dur_us div 1000)) None rows in
             if \<not> ok then redis_loop env conn_id seen_id es (Suc k) max_id n rows'
             else redis_loop env conn_id seen_id es (Suc k) (max max_id (nat i)) (Suc n) rows'))"

definition native_collect_redis :: "native_env \<Rightarrow> string \<Rightarrow> auto_store \<Rightarrow> native_store \<Rightarrow> (string + nat) \<times> native_store" where
  "native_collect_redis env conn_id ast st =
     (case native_load_conn env conn_id ast of
        Inl e \<Rightarrow> (Inl e, st)
      | Inr (conn, password) \<Rightarrow>
          (case ne_slowlog env conn password of
             Inl e \<Rightarrow> (Inl e, st)
           | Inr answer \<Rightarrow>
               (let entries = unwrap_or [] (json_as_array answer);
                    seen_id = unwrap_or 0 (Option.bind (cursor_get env conn_id redis_source st) (parse_unsigned (2 ^ 64 - 1)));
                    (n, max_id, rows) = redis_loop env conn_id seen_id entries 0 seen_id 0 (nv_rows st);
                    st' = st\<lparr>nv_rows := rows\<rparr> in
                (Inr n, if seen_id < max_id then cursor_put env conn_id redis_source (show_nat max_id) st' else st'))))"

section \<open>MySQL\<close>

text \<open>\<open>str::parse::<i64>\<close>.\<close>

definition parse_i64 :: "string \<Rightarrow> int option" where
  "parse_i64 s =
     (case s of
        c # ds \<Rightarrow>
          if c = CHR ''-'' then (if ds = [] \<or> \<not> list_all is_ascii_digit ds \<or> 2 ^ 63 < digits_val ds then None
            else Some (- int (digits_val ds)))
          else (let ds' = (if c = CHR ''+'' then ds else s) in
            if ds' = [] \<or> \<not> list_all is_ascii_digit ds' \<or> 2 ^ 63 \<le> digits_val ds' then None
            else Some (int (digits_val ds')))
      | [] \<Rightarrow> None)"

definition i64_or_0 :: "string \<Rightarrow> int" where
  "i64_or_0 s = unwrap_or 0 (parse_i64 s)"

text \<open>The text is padded to six characters with zeros on the right.\<close>

definition frac_millis :: "string \<Rightarrow> int" where
  "frac_millis fracs =
     (if fracs = [] then 0 else i64_or_0 (take 3 (fracs @ replicate (6 - length fracs) CHR ''0'')))"

definition nth_or :: "nat \<Rightarrow> string \<Rightarrow> string list \<Rightarrow> string" where
  "nth_or k d xs = (if k < length xs then xs ! k else d)"

definition parse_mysql_time_ms :: "string \<Rightarrow> int" where
  "parse_mysql_time_ms s =
     (let parts = split_on CHR '':'' s;
          h = i64_or_0 (nth_or 0 [] parts); m = i64_or_0 (nth_or 1 [] parts);
          sec_str = nth_or 2 ''0'' parts;
          (sec, frac_ms) = (case split_once CHR ''.'' sec_str of
              Some (sec, fracs) \<Rightarrow> (i64_or_0 sec, frac_millis fracs)
            | None \<Rightarrow> (i64_or_0 sec_str, 0))
      in h * 3600000 + m * 60000 + sec * 1000 + frac_ms)"

fun mysql_loop ::
  "native_env \<Rightarrow> string \<Rightarrow> string \<Rightarrow> slow_row list \<Rightarrow> nat \<Rightarrow> string \<Rightarrow> nat \<Rightarrow> stat_row list \<Rightarrow> nat \<times> string \<times> stat_row list" where
  "mysql_loop env conn_id db_kind [] k max_ts n rows = (n, max_ts, rows)"
| "mysql_loop env conn_id db_kind ((start_time, query_time, sql_text, db) # rs) k max_ts n rows =
     (let (ok, rows') = native_insert env k conn_id db_kind db mysql_source
            (normalize_digest (Sql (unwrap_or [] sql_text))) sql_text (max 1 (parse_mysql_time_ms query_time)) None rows in
      if \<not> ok then mysql_loop env conn_id db_kind rs (Suc k) max_ts n rows'
      else mysql_loop env conn_id db_kind rs (Suc k) (max max_ts start_time) (Suc n) rows')"

record ps_delta =
  pd_count :: int
  pd_total_ms :: int
  pd_digest_text :: string
  pd_schema :: "string option"

definition ps_key :: "string \<Rightarrow> string option \<Rightarrow> string" where
  "ps_key digest_hex schema = digest_hex @ ''|'' @ unwrap_or [] schema"

definition ps_to_ms :: "int \<Rightarrow> int" where
  "ps_to_ms ps = ps div 1000000000"

type_synonym ps_row = "string \<times> string \<times> int \<times> int"

definition i64_max :: int where
  "i64_max = 2 ^ 63 - 1"

definition ps_row_of :: "digest_row \<Rightarrow> ps_row" where
  "ps_row_of r =
     (case r of (dh, text, c, tps, schema) \<Rightarrow>
        (ps_key dh schema, text, min (int c) i64_max, ps_to_ms (min (int tps) i64_max)))"

text \<open>The schema after the last bar of the composite key.\<close>

definition schema_of_key :: "string \<Rightarrow> string option" where
  "schema_of_key k =
     (if CHR ''|'' \<in> set k then
        (let s = rev (takeWhile (\<lambda>c. c \<noteq> CHR ''|'') (rev k)) in if s = [] then None else Some s)
      else None)"

definition ps_delta_of :: "ps_snapshot \<Rightarrow> ps_row \<Rightarrow> ps_delta option" where
  "ps_delta_of prev r =
     (case r of (k, text, c, total_ms) \<Rightarrow>
        (case sn_d prev k of
           None \<Rightarrow> None
         | Some (pc, ptotal) \<Rightarrow>
             if c - pc \<le> 0 then None
             else Some \<lparr>pd_count = c - pc, pd_total_ms = max (total_ms - ptotal) 0, pd_digest_text = text,
               pd_schema = schema_of_key k\<rparr>))"

definition ps_reset :: "ps_snapshot \<Rightarrow> ps_row list \<Rightarrow> bool" where
  "ps_reset prev cur =
     list_ex (\<lambda>r. case r of (k, text, c, ms) \<Rightarrow> (case sn_d prev k of Some (pc, pt) \<Rightarrow> c < pc | None \<Rightarrow> False)) cur"

definition diff_ps_snapshots :: "ps_snapshot option \<Rightarrow> ps_row list \<Rightarrow> ps_delta list" where
  "diff_ps_snapshots prev cur =
     (case prev of
        None \<Rightarrow> []
      | Some p \<Rightarrow> if ps_reset p cur then [] else List.map_filter (ps_delta_of p) cur)"

fun ps_loop ::
  "native_env \<Rightarrow> string \<Rightarrow> string \<Rightarrow> ps_delta list \<Rightarrow> nat \<Rightarrow> nat \<Rightarrow> stat_row list \<Rightarrow> nat \<times> stat_row list" where
  "ps_loop env conn_id db_kind [] k n rows = (n, rows)"
| "ps_loop env conn_id db_kind (d # ds) k n rows =
     (let (ok, rows') = native_insert env k conn_id db_kind (pd_schema d) ps_digest_source
            (normalize_digest (Sql (pd_digest_text d))) (Some (pd_digest_text d)) (max (pd_total_ms d) 1)
            (Some (pd_count d)) rows in
      ps_loop env conn_id db_kind ds (Suc k) (if ok then Suc n else n) rows')"

text \<open>Collecting into the map of the new snapshot: a later row of the same key wins.\<close>

definition snapshot_of :: "int \<Rightarrow> ps_row list \<Rightarrow> ps_snapshot" where
  "snapshot_of t rows = \<lparr>sn_t = t, sn_d = map_of (rev (map (\<lambda>(k, text, c, ms). (k, c, ms)) rows))\<rparr>"

definition collect_mysql_ps_digest ::
  "native_env \<Rightarrow> string \<Rightarrow> string \<Rightarrow> native_store \<Rightarrow> (string + nat) \<times> native_store" where
  "collect_mysql_ps_digest env conn_id db_kind st =
     (case ne_ps_flag env of
        Inl e \<Rightarrow> (Inl (''performance_schema flag read failed: '' @ e), st)
      | Inr ps_on \<Rightarrow>
          if ps_on = 0 then (Inr 0, st)
          else case ne_ps_rows env of
            Inl e \<Rightarrow> (Inl (''ps digest table read failed: '' @ e), st)
          | Inr rs \<Rightarrow>
              (let now_rows = map ps_row_of rs;
                   prev = Option.bind (cursor_get env conn_id ps_digest_source st) (ne_snap_parse env);
                   (n, rows) = ps_loop env conn_id db_kind (diff_ps_snapshots prev now_rows) 0 0 (nv_rows st) in
               (Inr n, cursor_put env conn_id ps_digest_source
                 (ne_snap_text env (snapshot_of (ne_now_ms env) now_rows)) (st\<lparr>nv_rows := rows\<rparr>))))"

definition native_collect_mysql :: "native_env \<Rightarrow> string \<Rightarrow> auto_store \<Rightarrow> native_store \<Rightarrow> (string + nat) \<times> native_store" where
  "native_collect_mysql env conn_id ast st =
     (case native_load_conn env conn_id ast of
        Inl e \<Rightarrow> (Inl e, st)
      | Inr (conn, password) \<Rightarrow>
          if \<not> ne_open_mysql env conn password then (Inl ''mysql pool open failed'', st)
          else case ne_slow_settings env of
            Inl e \<Rightarrow> (Inl (''slow log settings read failed: '' @ e), st)
          | Inr (slow_on, log_output) \<Rightarrow>
              if slow_on = 0 \<or> \<not> contains_sub ''table'' (to_lowercase log_output)
              then collect_mysql_ps_digest env conn_id (dc_db_type conn) st
              else
                (let cursor = unwrap_or (ne_hour_ago env) (cursor_get env conn_id mysql_source st) in
                 case ne_slow_log env cursor of
                   Inl e \<Rightarrow> (Inl (''mysql.slow_log read failed: '' @ e), st)
                 | Inr rs \<Rightarrow>
                     (let (n, max_ts, rows) = mysql_loop env conn_id (dc_db_type conn) rs 0 cursor 0 (nv_rows st);
                          st' = st\<lparr>nv_rows := rows\<rparr> in
                      (Inr n, if 0 < n then cursor_put env conn_id mysql_source max_ts st' else st'))))"

section \<open>All connections\<close>

definition collect_one :: "native_env \<Rightarrow> string \<Rightarrow> string \<Rightarrow> auto_store \<Rightarrow> native_store \<Rightarrow> (string + nat) \<times> native_store" where
  "collect_one env conn_id db_type ast st =
     (if db_type = ''redis'' then native_collect_redis env conn_id ast st else native_collect_mysql env conn_id ast st)"

definition collectable :: "auto_store \<Rightarrow> (string \<times> string) list" where
  "collectable ast =
     map (\<lambda>c. (dc_id c, dc_db_type c))
       (filter (\<lambda>c. dc_db_type c \<in> {''redis'', ''mysql'', ''mariadb''}) (as_connections ast))"

definition collect_all :: "bool \<Rightarrow> (string \<Rightarrow> native_env) \<Rightarrow> auto_store \<Rightarrow> native_store \<Rightarrow> native_store" where
  "collect_all scan_ok env ast st =
     (if \<not> scan_ok then st
      else fold (\<lambda>(i, t) st. snd (collect_one (env i) i t ast st)) (collectable ast) st)"

section \<open>Every entry of a slow log is sampled once\<close>

definition inserts_ok :: "native_env \<Rightarrow> nat \<Rightarrow> nat \<Rightarrow> stat_row list \<Rightarrow> bool" where
  "inserts_ok env k m rows =
     (list_all (ne_insert_ok env) [k..<m] \<and> distinct (map (ne_uuid env) [k..<m]) \<and>
      list_all (\<lambda>j. ne_uuid env j \<notin> qs_id ` set rows) [k..<m])"

lemma qs_id_native_row [simp]: "qs_id (native_row u now c t d src dg sq e q) = u"
  by (simp add: native_row_def)

lemma upt_Suc_Cons: "k < m \<Longrightarrow> [k..<m] = k # [Suc k..<m]"
  by (rule upt_conv_Cons)

lemma native_insert_step:
  assumes "inserts_ok env k m rows" "k < m"
  shows "native_insert env k c t d src dg sq e q rows =
      (True, rows @ [native_row (ne_uuid env k) (ne_now env) c t d src dg sq e q])"
    and "inserts_ok env (Suc k) m (rows @ [native_row (ne_uuid env k) (ne_now env) c t d src dg sq e q])"
proof -
  have new: "\<not> list_ex (\<lambda>r. qs_id r = ne_uuid env k) rows"
    using assms by (simp add: inserts_ok_def upt_Suc_Cons list_ex_iff image_iff) metis
  have other: "ne_uuid env j \<noteq> ne_uuid env k" if "j \<in> {Suc k..<m}" for j
    using assms that by (simp add: inserts_ok_def upt_Suc_Cons) (metis atLeastLessThan_iff image_eqI)
  show "native_insert env k c t d src dg sq e q rows =
      (True, rows @ [native_row (ne_uuid env k) (ne_now env) c t d src dg sq e q])"
    using assms(1) new by (simp add: native_insert_def insert_native_def insert_stat_row_def inserts_ok_def upt_Suc_Cons [OF assms(2)])
  show "inserts_ok env (Suc k) m (rows @ [native_row (ne_uuid env k) (ne_now env) c t d src dg sq e q])"
    using assms(1) other by (simp add: inserts_ok_def upt_Suc_Cons [OF assms(2)] list_all_iff)
qed

definition redis_row :: "native_env \<Rightarrow> string \<Rightarrow> nat \<Rightarrow> int \<times> int \<times> string list \<Rightarrow> stat_row" where
  "redis_row env c k e =
     native_row (ne_uuid env k) (ne_now env) c ''redis'' None redis_source (normalize_digest (Redis (snd (snd e))))
       (Some (join '' '' (snd (snd e)))) (max 1 (fst (snd e) div 1000)) None"

lemma redis_loop_all:
  assumes "ws = filter (slowlog_wanted seen) (List.map_filter slowlog_entry es)"
    and "inserts_ok env k (k + length ws) rows"
  shows "redis_loop env c seen es k mx n rows =
    (n + length ws, fold max (map (\<lambda>e. nat (fst e)) ws) mx, rows @ map2 (redis_row env c) [k..<k + length ws] ws)"
  using assms
proof (induction es arbitrary: ws k mx n rows)
  case Nil
  then show ?case by (simp add: map_filter_def)
next
  case (Cons e es)
  show ?case
  proof (cases "slowlog_entry e")
    case None
    then show ?thesis using Cons by (simp add: List.map_filter_simps)
  next
    case (Some x)
    obtain i d args where x: "x = (i, d, args)" by (cases x)
    let ?rest = "filter (slowlog_wanted seen) (List.map_filter slowlog_entry es)"
    show ?thesis
    proof (cases "slowlog_wanted seen x")
      case False
      then show ?thesis using Cons Some by (simp add: List.map_filter_simps x)
    next
      case True
      have ws: "ws = x # ?rest" using Cons.prems(1) Some True by (simp add: List.map_filter_simps)
      let ?row = "redis_row env c k x"
      have ok: "inserts_ok env k (k + length ws) rows" by (rule Cons.prems(2))
      note step = native_insert_step [OF ok, of c "''redis''" None redis_source "normalize_digest (Redis args)"
          "Some (join '' '' args)" "max 1 (d div 1000)" None]
      have row: "native_row (ne_uuid env k) (ne_now env) c ''redis'' None redis_source (normalize_digest (Redis args))
          (Some (join '' '' args)) (max 1 (d div 1000)) None = ?row"
        by (simp add: redis_row_def x)
      have lt: "k < k + length ws" by (simp add: ws)
      have ok': "inserts_ok env (Suc k) (Suc k + length ?rest) (rows @ [?row])"
        using step(2) [OF lt] unfolding row by (simp add: ws del: normalize_digest.simps)
      have "redis_loop env c seen (e # es) k mx n rows =
          redis_loop env c seen es (Suc k) (max mx (nat i)) (Suc n) (rows @ [?row])"
        using step(1) [OF lt] True Some unfolding row by (simp add: x del: normalize_digest.simps)
      also have "\<dots> = (Suc n + length ?rest, fold max (map (\<lambda>e. nat (fst e)) ?rest) (max mx (nat i)),
          (rows @ [?row]) @ map2 (redis_row env c) [Suc k..<Suc k + length ?rest] ?rest)"
        by (rule Cons.IH [OF refl ok'])
      finally show ?thesis
        by (simp add: ws x upt_conv_Cons max.commute del: upt_Suc)
    qed
  qed
qed

text \<open>
  A slow log as the server of the database keeps it, oldest entry first, and its answer to
  \<open>SLOWLOG GET 128\<close>, newest entry first.
\<close>

type_synonym slow_entry = "int \<times> int \<times> string list"

definition slow_json :: "slow_entry \<Rightarrow> json" where
  "slow_json e = JArr [JNum (fst e), JNum 0, JNum (fst (snd e)), JArr (map JStr (snd (snd e)))]"

definition slow_answer :: "slow_entry list \<Rightarrow> json" where
  "slow_answer es = JArr (map slow_json (take slowlog_batch (rev es)))"

definition slow_log_ok :: "slow_entry list \<Rightarrow> bool" where
  "slow_log_ok es =
     (sorted_wrt (<) (map fst es) \<and>
      list_all (\<lambda>e. 0 < fst e \<and> fst e < 2 ^ 63 \<and> - (2 ^ 63) \<le> fst (snd e) \<and> fst (snd e) < 2 ^ 63) es)"

definition recordable :: "slow_entry \<Rightarrow> bool" where
  "recordable e = (snd (snd e) \<noteq> [] \<and> \<not> eq_ignore_ascii_case (hd (snd (snd e))) ''SLOWLOG'')"

text \<open>
  The history of one Redis connection: at every tick the log has grown by at most one batch,
  the answer is the newest batch, and the database of the server takes every statement.
\<close>

inductive redis_history :: "auto_store \<Rightarrow> string \<Rightarrow> stat_row list \<Rightarrow> slow_entry list \<Rightarrow> native_store \<Rightarrow> bool"
  for ast c base where
  redis_start: "redis_history ast c base [] st"
    if "nv_rows st = base" "nv_cursors st (c, redis_source) = None"
| redis_tick: "redis_history ast c base (es @ new) (snd (native_collect_redis env c ast st))"
    if "redis_history ast c base es st" "length new \<le> slowlog_batch" "slow_log_ok (es @ new)"
      "native_load_conn env c ast = Inr (conn, password)" "ne_slowlog env conn password = Inr (slow_answer (es @ new))"
      "ne_cursor_ok env" "ne_put_ok env" "inserts_ok env 0 (length (filter recordable new)) (nv_rows st)"

text \<open>What is stored of a sample: digest, text and time.\<close>

definition sample_of :: "slow_entry \<Rightarrow> string \<times> string option \<times> int" where
  "sample_of e =
     (normalize_redis (snd (snd e)), Some (truncate_chars sql_text_max_chars (join '' '' (snd (snd e)))), max 1 (fst (snd e) div 1000))"

definition sample_in :: "stat_row \<Rightarrow> string \<times> string option \<times> int" where
  "sample_in r = (qs_digest r, qs_sql_text r, qs_elapsed_ms r)"

lemma sample_in_redis_row [simp]: "sample_in (redis_row env c k e) = sample_of e"
  by (simp add: sample_in_def redis_row_def native_row_def sample_of_def)

lemma map_sample_rows: "map sample_in (map2 (redis_row env c) [k..<k + length ws] ws) = map sample_of ws"
proof (induction ws arbitrary: k)
  case (Cons w ws)
  then show ?case using Cons.IH [of "Suc k"] by (simp add: upt_conv_Cons del: upt_Suc)
qed simp

lemma slowlog_entry_json: 
  "slow_log_ok [e] \<Longrightarrow> slowlog_entry (slow_json e) = Some e"
  by (cases e) (simp add: slowlog_entry_def slow_json_def slow_log_ok_def json_as_i64_def unwrap_or_def comp_def)

lemma map_filter_slow_json:
  "list_all (\<lambda>e. slow_log_ok [e]) es \<Longrightarrow> List.map_filter slowlog_entry (map slow_json es) = es"
  by (induction es) (simp_all add: List.map_filter_simps slowlog_entry_json)

definition cursor_value :: "string \<Rightarrow> native_store \<Rightarrow> nat" where
  "cursor_value c st = unwrap_or 0 (Option.bind (nv_cursors st (c, redis_source)) (parse_unsigned (2 ^ 64 - 1)))"

text \<open>The cursor is past every recordable entry and not past the last entry.\<close>

definition cursor_between :: "string \<Rightarrow> slow_entry list \<Rightarrow> native_store \<Rightarrow> bool" where
  "cursor_between c es st \<longleftrightarrow>
     (\<forall>e \<in> set es. recordable e \<longrightarrow> nat (fst e) \<le> cursor_value c st) \<and>
     (cursor_value c st = 0 \<or> (\<exists>e \<in> set es. nat (fst e) = cursor_value c st))"

lemma wanted_iff: "0 < fst e \<Longrightarrow> slowlog_wanted m e \<longleftrightarrow> recordable e \<and> m < nat (fst e)"
  by (cases e) (auto simp: slowlog_wanted_def recordable_def)

lemma wanted_of_answer:
  assumes ok: "slow_log_ok (es @ new)" and n: "length new \<le> slowlog_batch" and cur: "cursor_between c es st"
  shows "filter (slowlog_wanted (cursor_value c st)) (take slowlog_batch (rev (es @ new))) = filter recordable (rev new)"
proof -
  let ?m = "cursor_value c st"
  have pos: "0 < fst e" if "e \<in> set (es @ new)" for e
    using ok that by (auto simp: slow_log_ok_def list_all_iff)
  have lt: "fst a < fst b" if "a \<in> set es" "b \<in> set new" for a b
    using ok that by (auto simp: slow_log_ok_def sorted_wrt_append)
  have new: "?m < nat (fst e)" if e: "e \<in> set new" for e
  proof (cases "?m = 0")
    case True
    then show ?thesis using pos [of e] e by simp
  next
    case False
    then obtain a where "a \<in> set es" "nat (fst a) = ?m" using cur by (auto simp: cursor_between_def)
    then show ?thesis using lt [of a e] e pos [of a] by auto
  qed
  have "filter (slowlog_wanted ?m) (rev new) = filter recordable (rev new)"
    using new pos by (intro filter_cong) (auto simp: wanted_iff)
  moreover have "\<not> slowlog_wanted ?m e" if e: "e \<in> set es" for e
  proof -
    have "0 < fst e" by (rule pos) (simp add: e)
    moreover have "recordable e \<Longrightarrow> nat (fst e) \<le> ?m" using cur e by (simp add: cursor_between_def)
    ultimately show ?thesis by (auto simp: wanted_iff)
  qed
  then have "filter (slowlog_wanted ?m) (take k (rev es)) = []" for k
    by (metis filter_False in_set_takeD set_rev)
  ultimately show ?thesis using n by (simp add: take_append)
qed

lemma fold_max_bounds:
  fixes m :: nat
  shows "m \<le> fold max xs m" "x \<in> set xs \<Longrightarrow> x \<le> fold max xs m" "fold max xs m = m \<or> fold max xs m \<in> set xs"
proof (induction xs arbitrary: m)
  case (Cons y ys)
  { case 1 show ?case using Cons.IH(1) [of "max y m"] by simp }
  { case 2 then show ?case using Cons.IH(1,2) [of "max y m"] by auto }
  { case 3 show ?case using Cons.IH(3) [of "max y m"] by (auto simp: max_def) }
qed simp_all

lemma collect_redis_tick:
  assumes n: "length new \<le> slowlog_batch" and ok: "slow_log_ok (es @ new)"
    and conn: "native_load_conn env c ast = Inr (conn, password)" "ne_slowlog env conn password = Inr (slow_answer (es @ new))"
    and io: "ne_cursor_ok env" "ne_put_ok env" and ins: "inserts_ok env 0 (length (filter recordable new)) (nv_rows st)"
    and cur: "cursor_between c es st" and st': "st' = snd (native_collect_redis env c ast st)"
  shows "map sample_in (nv_rows st') = map sample_in (nv_rows st) @ map sample_of (filter recordable (rev new))"
    and "cursor_between c (es @ new) st'"
    and "take (length (nv_rows st)) (nv_rows st') = nv_rows st"
proof -
  let ?m = "cursor_value c st" and ?ws = "filter recordable (rev new)"
  let ?mx = "fold max (map (\<lambda>e. nat (fst e)) ?ws) ?m"
  let ?rows = "nv_rows st @ map2 (redis_row env c) [0..<length ?ws] ?ws"
  have all: "slow_log_ok [e]" if "e \<in> set (es @ new)" for e
    using ok that by (auto simp: slow_log_ok_def list_all_iff)
  have "List.map_filter slowlog_entry (map slow_json (take slowlog_batch (rev (es @ new)))) = take slowlog_batch (rev (es @ new))"
    using all by (intro map_filter_slow_json) (auto simp: list_all_iff dest: in_set_takeD)
  then have ws: "?ws = filter (slowlog_wanted ?m) (List.map_filter slowlog_entry (map slow_json (take slowlog_batch (rev (es @ new)))))"
    using wanted_of_answer [OF ok n cur] by simp
  have len: "length ?ws = length (filter recordable new)" by (simp flip: rev_filter)
  have loop: "redis_loop env c ?m (map slow_json (take slowlog_batch (rev (es @ new)))) 0 ?m 0 (nv_rows st) = (length ?ws, ?mx, ?rows)"
    using redis_loop_all [OF ws, of env 0 "nv_rows st" c ?m 0] ins len by simp
  have put: "st' = (if ?m < ?mx then cursor_put env c redis_source (show_nat ?mx) (st\<lparr>nv_rows := ?rows\<rparr>) else st\<lparr>nv_rows := ?rows\<rparr>)"
    unfolding st' using conn io loop
    by (simp add: native_collect_redis_def slow_answer_def unwrap_or_def cursor_get_def cursor_value_def Let_def split: option.splits)
  then have rows: "nv_rows st' = ?rows" by (simp add: cursor_put_def)
  then show "map sample_in (nv_rows st') = map sample_in (nv_rows st) @ map sample_of ?ws"
    using map_sample_rows [of env c 0 ?ws] by simp
  show "take (length (nv_rows st)) (nv_rows st') = nv_rows st" using rows by simp
  have small: "nat (fst e) < 2 ^ 64" if "e \<in> set new" for e
    using all [of e] that by (auto simp: slow_log_ok_def)
  have val: "cursor_value c st' = ?mx"
  proof (cases "?m < ?mx")
    case True
    then have "?mx \<in> set (map (\<lambda>e. nat (fst e)) ?ws)" using fold_max_bounds(3) [of "map (\<lambda>e. nat (fst e)) ?ws" ?m] by auto
    then have "?mx \<le> 2 ^ 64 - 1" using small by force
    then show ?thesis using True io by (simp add: put cursor_put_def cursor_value_def unwrap_or_def parse_unsigned_show_nat)
  next
    case False
    then have "?mx = ?m" using fold_max_bounds(1) [of ?m "map (\<lambda>e. nat (fst e)) ?ws"] by simp
    then show ?thesis using False by (simp add: put cursor_value_def)
  qed
  show "cursor_between c (es @ new) st'"
    unfolding cursor_between_def val
  proof (intro conjI ballI impI)
    fix e assume e: "e \<in> set (es @ new)" "recordable e"
    show "nat (fst e) \<le> ?mx"
    proof (cases "e \<in> set new")
      case True
      then show ?thesis using e(2) by (intro fold_max_bounds(2)) auto
    next
      case False
      then have "nat (fst e) \<le> ?m" using e cur by (auto simp: cursor_between_def)
      then show ?thesis using fold_max_bounds(1) [of ?m] le_trans by blast
    qed
  next
    show "?mx = 0 \<or> (\<exists>e \<in> set (es @ new). nat (fst e) = ?mx)"
      using fold_max_bounds(3) [of "map (\<lambda>e. nat (fst e)) ?ws" ?m]
    proof
      assume mx: "?mx = ?m"
      have "?m = 0 \<or> (\<exists>e \<in> set es. nat (fst e) = ?m)" using cur by (simp add: cursor_between_def)
      then show ?thesis unfolding mx by (metis UnI1 set_append)
    next
      assume "?mx \<in> set (map (\<lambda>e. nat (fst e)) ?ws)"
      then obtain e where "e \<in> set ?ws" "nat (fst e) = ?mx" by (metis (no_types, lifting) image_iff list.set_map)
      then show ?thesis by (metis UnI2 filter_is_subset set_append set_rev subsetD)
    qed
  qed
qed


section \<open>The digest counters\<close>

definition ps_stat_row :: "native_env \<Rightarrow> string \<Rightarrow> string \<Rightarrow> nat \<Rightarrow> ps_delta \<Rightarrow> stat_row" where
  "ps_stat_row env c t k d =
     native_row (ne_uuid env k) (ne_now env) c t (pd_schema d) ps_digest_source (normalize_digest (Sql (pd_digest_text d)))
       (Some (pd_digest_text d)) (max (pd_total_ms d) 1) (Some (pd_count d))"

lemma ps_loop_all:
  "inserts_ok env k (k + length ds) rows \<Longrightarrow>
     ps_loop env c t ds k n rows = (n + length ds, rows @ map2 (ps_stat_row env c t) [k..<k + length ds] ds)"
proof (induction ds arbitrary: k n rows)
  case (Cons d ds)
  note step = native_insert_step [OF Cons.prems, of c t "pd_schema d" ps_digest_source "normalize_digest (Sql (pd_digest_text d))"
      "Some (pd_digest_text d)" "max (pd_total_ms d) 1" "Some (pd_count d)"]
  have "inserts_ok env (Suc k) (Suc k + length ds) (rows @ [ps_stat_row env c t k d])"
    using step(2) unfolding ps_stat_row_def [symmetric] by simp
  from Cons.IH [OF this] show ?case
    using step(1) unfolding ps_stat_row_def [symmetric]
    by (simp add: upt_conv_Cons del: upt_Suc normalize_digest.simps)
qed simp

lemma queries_of_ps_rows: "map queries_of (map2 (ps_stat_row env c t) [k..<k + length ds] ds) = map pd_count ds"
proof (induction ds arbitrary: k)
  case (Cons d ds)
  then show ?case
    using Cons.IH [of "Suc k"] by (simp add: upt_conv_Cons queries_of_def ps_stat_row_def native_row_def del: upt_Suc)
qed simp

definition ps_count :: "ps_row \<Rightarrow> int" where
  "ps_count r = fst (snd (snd r))"

definition prev_count :: "ps_snapshot \<Rightarrow> string \<Rightarrow> int" where
  "prev_count p k = (case sn_d p k of Some (c, ms) \<Rightarrow> c | None \<Rightarrow> 0)"

lemma sum_of_deltas:
  assumes "\<not> ps_reset p cur" "list_all (\<lambda>r. sn_d p (fst r) \<noteq> None) cur"
  shows "sum_list (map pd_count (List.map_filter (ps_delta_of p) cur)) = sum_list (map (\<lambda>r. ps_count r - prev_count p (fst r)) cur)"
  using assms
proof (induction cur)
  case (Cons r cur)
  obtain k dt c ms where r: "r = (k, dt, c, ms)" by (cases r)
  obtain pc pt where p: "sn_d p k = Some (pc, pt)" using Cons.prems(2) by (auto simp: r)
  have ge: "pc \<le> c" using Cons.prems(1) by (simp add: ps_reset_def r p)
  have "\<not> ps_reset p cur" "list_all (\<lambda>r. sn_d p (fst r) \<noteq> None) cur"
    using Cons.prems by (simp_all add: ps_reset_def)
  from Cons.IH [OF this] show ?case
    using ge by (simp add: List.map_filter_simps ps_delta_of_def r p ps_count_def prev_count_def)
qed (simp add: List.map_filter_def)

lemma snapshot_of_lookup:
  assumes "distinct (map fst rows)" "r \<in> set rows"
  shows "sn_d (snapshot_of t rows) (fst r) = Some (snd (snd r))"
proof -
  have "(fst r, snd (snd r)) \<in> set (rev (map (\<lambda>(k, text, c, ms). (k, c, ms)) rows))"
    using assms(2) by (force simp: case_prod_unfold)
  moreover have "distinct (map fst (rev (map (\<lambda>(k, text, c, ms). (k, c, ms)) rows)))"
    using assms(1) by (simp add: comp_def case_prod_unfold flip: rev_map)
  ultimately show ?thesis by (simp add: snapshot_of_def)
qed

lemma sum_over_keys:
  fixes g :: "string \<Rightarrow> int"
  assumes "distinct (map fst xs)" "distinct (map fst ys)" "fst ` set xs = fst ` set ys"
  shows "sum_list (map (\<lambda>x. g (fst x)) xs) = sum_list (map (\<lambda>y. g (fst y)) ys)"
proof -
  have "mset (map fst xs) = mset (map fst ys)"
    using assms by (intro set_eq_iff_mset_eq_distinct [THEN iffD1]) simp_all
  then have "sum_mset (image_mset g (mset (map fst xs))) = sum_mset (image_mset g (mset (map fst ys)))" by simp
  then show ?thesis by (simp add: comp_def image_mset.compositionality flip: sum_mset_sum_list mset_map)
qed

lemma inserts_ok_less: "inserts_ok env k m rows \<Longrightarrow> m' \<le> m \<Longrightarrow> inserts_ok env k m' rows"
proof -
  assume a: "inserts_ok env k m rows" "m' \<le> m"
  have "set [k..<m'] \<subseteq> set [k..<m]" using a(2) by auto
  then show ?thesis using a(1) by (auto simp: inserts_ok_def list_all_iff distinct_map intro: inj_on_subset)
qed

lemma length_map_filter: "length (List.map_filter f xs) \<le> length xs"
  by (induction xs) (simp_all add: List.map_filter_simps split: option.splits)

text \<open>
  Between two ticks that see the same digests, with counters that did not go back, the
  samples added count exactly the queries executed in between, and the counters stored are
  the ones the next tick starts from.
\<close>

theorem ps_tick_counts_increase:
  assumes "ne_ps_flag env = Inr 1" "ne_ps_rows env = Inr rs" "ne_cursor_ok env" "ne_put_ok env"
    and "nv_cursors st (c, ps_digest_source) = Some s" "ne_snap_parse env s = Some (snapshot_of t0 prev)"
    and "distinct (map fst prev)" "distinct (map fst (map ps_row_of rs))" "fst ` set prev = fst ` set (map ps_row_of rs)"
    and "\<not> ps_reset (snapshot_of t0 prev) (map ps_row_of rs)" "inserts_ok env 0 (length rs) (nv_rows st)"
  shows "(let st' = snd (collect_mysql_ps_digest env c t st) in
      (sum_list (map queries_of (drop (length (nv_rows st)) (nv_rows st'))), nv_cursors st' (c, ps_digest_source))) =
    (sum_list (map ps_count (map ps_row_of rs)) - sum_list (map ps_count prev),
     Some (ne_snap_text env (snapshot_of (ne_now_ms env) (map ps_row_of rs))))"
proof -
  let ?p = "snapshot_of t0 prev" and ?cur = "map ps_row_of rs"
  let ?ds = "List.map_filter (ps_delta_of ?p) ?cur"
  have diff: "diff_ps_snapshots (Some ?p) ?cur = ?ds" using assms(10) by (simp add: diff_ps_snapshots_def)
  have ok: "inserts_ok env 0 (0 + length ?ds) (nv_rows st)"
    using inserts_ok_less [OF assms(11)] length_map_filter [of "ps_delta_of ?p" ?cur] by simp
  let ?new = "map2 (ps_stat_row env c t) [0..<0 + length ?ds] ?ds"
  have loop: "ps_loop env c t ?ds 0 0 (nv_rows st) = (length ?ds, nv_rows st @ ?new)"
    using ps_loop_all [OF ok, of c t 0] by simp
  have st': "snd (collect_mysql_ps_digest env c t st) =
      cursor_put env c ps_digest_source (ne_snap_text env (snapshot_of (ne_now_ms env) ?cur)) (st\<lparr>nv_rows := nv_rows st @ ?new\<rparr>)"
    using assms(1-6) diff loop by (simp add: collect_mysql_ps_digest_def cursor_get_def Let_def)
  have look: "sn_d ?p (fst r) = Some (snd (snd r))" if "r \<in> set prev" for r
    using snapshot_of_lookup [OF assms(7) that] .
  have "list_all (\<lambda>r. sn_d ?p (fst r) \<noteq> None) ?cur"
    unfolding list_all_iff
  proof
    fix r assume "r \<in> set ?cur"
    then have "fst r \<in> fst ` set prev" unfolding assms(9) by (rule imageI)
    then obtain q where "q \<in> set prev" "fst r = fst q" by blast
    then show "sn_d ?p (fst r) \<noteq> None" using look by simp
  qed
  note sum = sum_of_deltas [OF assms(10) this]
  have "sum_list (map (\<lambda>r. ps_count r - prev_count ?p (fst r)) ?cur) =
      sum_list (map ps_count ?cur) - sum_list (map (\<lambda>r. prev_count ?p (fst r)) ?cur)"
    by (simp add: sum_list_subtractf comp_def)
  also have "sum_list (map (\<lambda>r. prev_count ?p (fst r)) ?cur) = sum_list (map (\<lambda>r. prev_count ?p (fst r)) prev)"
    by (rule sum_over_keys [OF assms(8,7)]) (simp only: assms(9))
  also have "\<dots> = sum_list (map ps_count prev)"
    by (rule arg_cong [of _ _ sum_list], rule map_cong) (simp_all add: prev_count_def look ps_count_def case_prod_unfold)
  finally have "sum_list (map queries_of ?new) = sum_list (map ps_count ?cur) - sum_list (map ps_count prev)"
    unfolding queries_of_ps_rows using sum by simp
  then show ?thesis using assms(4) by (simp add: st' cursor_put_def Let_def)
qed

text \<open>No baseline, or any counter that went back: nothing is written, and the next tick starts afresh.\<close>

lemma diff_conservative: "prev = None \<or> (\<exists>p. prev = Some p \<and> ps_reset p cur) \<Longrightarrow> diff_ps_snapshots prev cur = []"
  by (auto simp: diff_ps_snapshots_def)

section \<open>Times\<close>

definition zero_pad :: "nat \<Rightarrow> nat \<Rightarrow> string" where
  "zero_pad w k = replicate (w - length (show_nat k)) CHR ''0'' @ show_nat k"

text \<open>The text of a TIME with microseconds.\<close>

definition mysql_time :: "nat \<Rightarrow> nat \<Rightarrow> nat \<Rightarrow> nat \<Rightarrow> string" where
  "mysql_time h m s us =
     zero_pad 2 h @ '':'' @ zero_pad 2 m @ '':'' @ zero_pad 2 s @ ''.'' @ zero_pad 6 us"

lemma digits_val_append: "digits_val (a @ b) = digits_val a * 10 ^ length b + digits_val b"
proof (induction b rule: rev_induct)
  case Nil
  then show ?case by (simp add: digits_val_def)
next
  case (snoc c b)
  then show ?case by (simp add: digits_val_snoc algebra_simps flip: append_assoc)
qed

lemma digits_val_zeros: "digits_val (replicate n CHR ''0'') = 0"
proof (induction n)
  case (Suc n)
  have "digits_val (replicate (Suc n) CHR ''0'') = digits_val (replicate n CHR ''0'' @ [CHR ''0''])"
    by (simp add: replicate_append_same)
  then show ?case using Suc by (simp only: digits_val_snoc) (simp add: ccode_def)
qed (simp add: digits_val_def)

lemma digits_val_less: "list_all is_ascii_digit b \<Longrightarrow> digits_val b < 10 ^ length b"
proof (induction b rule: rev_induct)
  case (snoc c b)
  then have "digits_val b < 10 ^ length b" "ccode c \<le> 57" by (simp_all add: is_ascii_digit_def)
  then have "10 * digits_val b + (ccode c - 48) < 10 * 10 ^ length b" by linarith
  then show ?case by (simp add: digits_val_snoc)
qed (simp add: digits_val_def)

lemma zero_pad_val [simp]: "digits_val (zero_pad w k) = k"
  by (simp add: zero_pad_def digits_val_append digits_val_zeros digits_val_show_nat)

lemma zero_pad_digits: "list_all is_ascii_digit (zero_pad w k)"
  using show_nat_digits [of k] by (auto simp: zero_pad_def list_all_iff is_ascii_digit_def ccode_def)

lemma zero_pad_ne [simp]: "zero_pad w k \<noteq> []"
  by (simp add: zero_pad_def)

lemma length_show_nat_le: "0 < w \<Longrightarrow> k < 10 ^ w \<Longrightarrow> length (show_nat k) \<le> w"
proof (induction k arbitrary: w rule: show_nat.induct)
  case (1 n)
  show ?case
  proof (cases "n < 10")
    case False
    then obtain v where w: "w = Suc v" "0 < v"
      using 1(2,3) by (cases w; cases "w - 1") auto
    then have "n div 10 < 10 ^ v" using 1(3) by (simp add: less_mult_imp_div_less mult.commute)
    then show ?thesis using 1(1) [OF False w(2)] False w by (simp add: show_nat.simps [of n])
  qed (use 1(2) in \<open>simp add: show_nat.simps [of n]\<close>)
qed

lemma length_zero_pad: "0 < w \<Longrightarrow> k < 10 ^ w \<Longrightarrow> length (zero_pad w k) = w"
  using length_show_nat_le [of w k] by (simp add: zero_pad_def)

lemma parse_i64_digits:
  assumes "list_all is_ascii_digit s" "s \<noteq> []" "digits_val s < 2 ^ 63"
  shows "parse_i64 s = Some (int (digits_val s))"
proof (cases s)
  case (Cons c ds)
  then have "c \<noteq> CHR ''-''" "c \<noteq> CHR ''+''" using assms(1) by (auto simp: is_ascii_digit_def ccode_def)
  then show ?thesis using assms by (simp add: parse_i64_def Cons)
qed (use assms in simp)

lemma i64_or_0_pad: "k < 2 ^ 63 \<Longrightarrow> i64_or_0 (zero_pad w k) = int k"
  using parse_i64_digits [OF zero_pad_digits [of w k]] by (simp add: i64_or_0_def unwrap_or_def)

lemma frac_millis_pad:
  assumes "us < 10 ^ 6"
  shows "frac_millis (zero_pad 6 us) = int (us div 1000)"
proof -
  let ?s = "zero_pad 6 us"
  have len: "length ?s = 6" using length_zero_pad [of 6 us] assms by simp
  have d: "list_all is_ascii_digit (take 3 ?s)" "list_all is_ascii_digit (drop 3 ?s)"
    using zero_pad_digits [of 6 us] by (auto simp: list_all_iff dest: in_set_takeD in_set_dropD)
  have ne: "take 3 ?s \<noteq> []" using len by auto
  have "us = digits_val (take 3 ?s @ drop 3 ?s)" by simp
  also have "\<dots> = digits_val (take 3 ?s) * 1000 + digits_val (drop 3 ?s)"
    by (simp only: digits_val_append) (simp add: len)
  finally have us: "us = digits_val (take 3 ?s) * 1000 + digits_val (drop 3 ?s)" .
  have "digits_val (drop 3 ?s) < 1000" using digits_val_less [OF d(2)] by (simp add: len)
  then have v: "digits_val (take 3 ?s) = us div 1000" using us by simp
  have "parse_i64 (take 3 ?s) = Some (int (us div 1000))"
    using parse_i64_digits [OF d(1) ne] v assms by simp
  then show ?thesis using len by (simp add: frac_millis_def i64_or_0_def unwrap_or_def)
qed

lemma split_once_append: "d \<notin> set w \<Longrightarrow> split_once d (w @ d # s) = Some (w, s)"
  by (induction w) auto

lemma not_in_pad: "\<not> is_ascii_digit c \<Longrightarrow> c \<notin> set (zero_pad w k)"
  using zero_pad_digits [of w k] by (auto simp: list_all_iff)

lemma parse_mysql_time_parts:
  "split_on CHR '':'' t = [a, b, x] \<Longrightarrow> split_once CHR ''.'' x = Some (y, z) \<Longrightarrow>
     parse_mysql_time_ms t = i64_or_0 a * 3600000 + i64_or_0 b * 60000 + i64_or_0 y * 1000 + frac_millis z"
  by (simp add: parse_mysql_time_ms_def nth_or_def)

text \<open>The printed form of a time reads back as its milliseconds.\<close>

theorem parse_mysql_time_round_trip:
  assumes "h < 2 ^ 63" "m < 60" "s < 60" "us < 10 ^ 6"
  shows "parse_mysql_time_ms (mysql_time h m s us) = int h * 3600000 + int m * 60000 + int s * 1000 + int (us div 1000)"
proof -
  have c: "\<not> is_ascii_digit CHR '':''" "\<not> is_ascii_digit CHR ''.''" by code_simp+
  have split: "split_on CHR '':'' (mysql_time h m s us) = [zero_pad 2 h, zero_pad 2 m, zero_pad 2 s @ ''.'' @ zero_pad 6 us]"
    unfolding mysql_time_def using c
    by (simp add: split_on_append split_on_single not_in_pad)
  have sec: "split_once CHR ''.'' (zero_pad 2 s @ ''.'' @ zero_pad 6 us) = Some (zero_pad 2 s, zero_pad 6 us)"
    using c by (simp add: split_once_append not_in_pad)
  have small: "m < 2 ^ 63" "s < 2 ^ 63" using assms(2,3) by simp_all
  show ?thesis
    unfolding parse_mysql_time_parts [OF split sec]
    by (simp add: i64_or_0_pad [OF assms(1)] i64_or_0_pad [OF small(1)] i64_or_0_pad [OF small(2)] frac_millis_pad [OF assms(4)])
qed

section \<open>What a collection writes\<close>

definition native_sample :: "string \<Rightarrow> string \<Rightarrow> stat_row \<Rightarrow> bool" where
  "native_sample c src r =
     (qs_conn_id r = c \<and> qs_source r = src \<and> qs_entry r = ''native'' \<and> qs_row_count r = None \<and> qs_user_id r = None \<and>
      (case qs_sql_text r of Some t \<Rightarrow> length t \<le> sql_text_max_chars + 1 | None \<Rightarrow> True))"

definition adds :: "string \<Rightarrow> string \<Rightarrow> stat_row list \<Rightarrow> stat_row list \<Rightarrow> bool" where
  "adds c src rows rows' \<longleftrightarrow> (\<exists>new. rows' = rows @ new \<and> list_all (native_sample c src) new)"

lemma adds_refl [simp]: "adds c src rows rows"
  by (simp add: adds_def)

lemma adds_trans: "adds c src a b \<Longrightarrow> adds c src b d \<Longrightarrow> adds c src a d"
  by (auto simp: adds_def)

lemma native_insert_adds: "adds c src rows (snd (native_insert env k c t d src dg sq e q rows))"
proof -
  have "native_sample c src (native_row (ne_uuid env k) (ne_now env) c t d src dg sq e q)"
    by (auto simp: native_sample_def native_row_def truncate_chars_def split: option.splits)
  then show ?thesis by (auto simp: native_insert_def insert_native_def insert_stat_row_def adds_def)
qed

lemma redis_loop_adds: "adds c redis_source rows (snd (snd (redis_loop env c seen es k mx n rows)))"
proof (induction es arbitrary: k mx n rows)
  case (Cons e es)
  show ?case
  proof (cases "slowlog_entry e")
    case (Some x)
    obtain i d args where x: "x = (i, d, args)" by (cases x)
    obtain ok rows' where i: "native_insert env k c ''redis'' None redis_source (normalize_digest (Redis args))
        (Some (join '' '' args)) (max 1 (d div 1000)) None rows = (ok, rows')" by fastforce
    have "adds c redis_source rows rows'"
      using native_insert_adds [of c redis_source rows env k "''redis''" None "normalize_digest (Redis args)"] by (metis i snd_conv)
    then show ?thesis
      using Cons.IH i adds_trans by (simp add: Some x del: normalize_digest.simps)
  qed (use Cons in simp)
qed simp

lemma mysql_loop_adds: "adds c mysql_source rows (snd (snd (mysql_loop env c t rs k mx n rows)))"
proof (induction env c t rs k mx n rows rule: mysql_loop.induct)
  case (2 env c t st qt sql db rs k mx n rows)
  obtain ok rows' where i: "native_insert env k c t db mysql_source (normalize_digest (Sql (unwrap_or [] sql))) sql
      (max 1 (parse_mysql_time_ms qt)) None rows = (ok, rows')" by fastforce
  have "adds c mysql_source rows rows'" by (metis native_insert_adds i snd_conv)
  then show ?case using 2 i adds_trans by (auto simp del: normalize_digest.simps)
qed simp

lemma ps_loop_adds: "adds c ps_digest_source rows (snd (ps_loop env c t ds k n rows))"
proof (induction ds arbitrary: k n rows)
  case (Cons d ds)
  obtain ok rows' where i: "native_insert env k c t (pd_schema d) ps_digest_source (normalize_digest (Sql (pd_digest_text d)))
      (Some (pd_digest_text d)) (max (pd_total_ms d) 1) (Some (pd_count d)) rows = (ok, rows')" by fastforce
  have "adds c ps_digest_source rows rows'" by (metis native_insert_adds i snd_conv)
  then show ?case using Cons.IH i adds_trans by (simp del: normalize_digest.simps)
qed simp

lemma nv_rows_put [simp]: "nv_rows (cursor_put env c src x st) = nv_rows st"
  by (simp add: cursor_put_def)

lemma collect_redis_adds: "adds c redis_source (nv_rows st) (nv_rows (snd (native_collect_redis env c ast st)))"
  using redis_loop_adds by (auto simp: native_collect_redis_def Let_def split: sum.splits prod.splits) (metis snd_conv)+

lemma collect_ps_adds: "adds c ps_digest_source (nv_rows st) (nv_rows (snd (collect_mysql_ps_digest env c t st)))"
  using ps_loop_adds by (auto simp: collect_mysql_ps_digest_def Let_def split: sum.splits prod.splits) (metis snd_conv)+

text \<open>
  One collection of a MySQL connection writes samples of a single source: of the slow log
  or of the digest counters, never of both.
\<close>

lemma collect_mysql_cases:
  obtains "nv_rows (snd (native_collect_mysql env c ast st)) = nv_rows st"
  | t where "native_collect_mysql env c ast st = collect_mysql_ps_digest env c t st"
  | t rs mx where "nv_rows (snd (native_collect_mysql env c ast st)) = snd (snd (mysql_loop env c t rs 0 mx 0 (nv_rows st)))"
proof (cases "native_load_conn env c ast")
  case (Inr p)
  obtain conn pw where p: "p = (conn, pw)" by (cases p)
  note load = Inr [unfolded p]
  show thesis
  proof (cases "ne_open_mysql env conn pw")
    case opened: True
    show thesis
    proof (cases "ne_slow_settings env")
      case (Inr q)
      obtain on out where q: "q = (on, out)" by (cases q)
      note settings = Inr [unfolded q]
      show thesis
      proof (cases "on = 0 \<or> \<not> contains_sub ''table'' (to_lowercase out)")
        case True
        then show thesis using that(2) by (simp add: native_collect_mysql_def load opened settings)
      next
        case False
        let ?cursor = "unwrap_or (ne_hour_ago env) (cursor_get env c mysql_source st)"
        show thesis
        proof (cases "ne_slow_log env ?cursor")
          case (Inr rs)
          obtain n mx rows where l: "mysql_loop env c (dc_db_type conn) rs 0 ?cursor 0 (nv_rows st) = (n, mx, rows)"
            by (cases "mysql_loop env c (dc_db_type conn) rs 0 ?cursor 0 (nv_rows st)")
          have "nv_rows (snd (native_collect_mysql env c ast st)) = rows"
            using False by (simp add: native_collect_mysql_def load opened settings Inr l Let_def)
          then show thesis using that(3) [of "dc_db_type conn" rs ?cursor] by (simp add: l)
        qed (use that(1) False in \<open>simp add: native_collect_mysql_def load opened settings Let_def\<close>)
      qed
    qed (use that(1) in \<open>simp add: native_collect_mysql_def load opened\<close>)
  qed (use that(1) in \<open>simp add: native_collect_mysql_def load\<close>)
qed (use that(1) in \<open>simp add: native_collect_mysql_def\<close>)

text \<open>
  One collection of a MySQL connection writes samples of a single source: of the slow log
  or of the digest counters, never of both.
\<close>

theorem one_source_per_tick:
  "adds c mysql_source (nv_rows st) (nv_rows (snd (native_collect_mysql env c ast st))) \<or>
   adds c ps_digest_source (nv_rows st) (nv_rows (snd (native_collect_mysql env c ast st)))"
  by (rule collect_mysql_cases [of env c ast st]) (simp_all add: collect_ps_adds mysql_loop_adds)

text \<open>Every collection only appends native samples of its own connection; a failure of one leaves the others.\<close>

definition native_only :: "stat_row list \<Rightarrow> stat_row list \<Rightarrow> bool" where
  "native_only rows rows' \<longleftrightarrow>
     (\<exists>new. rows' = rows @ new \<and> list_all (\<lambda>r. qs_entry r = ''native'' \<and> qs_row_count r = None) new)"

lemma adds_native_only: "adds c src rows rows' \<Longrightarrow> native_only rows rows'"
  by (auto simp: adds_def native_only_def native_sample_def list_all_iff)

lemma native_only_trans: "native_only a b \<Longrightarrow> native_only b d \<Longrightarrow> native_only a d"
  by (auto simp: native_only_def)

lemma collect_one_native_only: "native_only (nv_rows st) (nv_rows (snd (collect_one env i t ast st)))"
proof (cases "t = ''redis''")
  case True
  then show ?thesis by (simp add: collect_one_def adds_native_only [OF collect_redis_adds])
next
  case False
  have "native_only (nv_rows st) (nv_rows (snd (native_collect_mysql env i ast st)))"
    by (rule collect_mysql_cases [of env i ast st])
      (auto intro: adds_native_only collect_ps_adds mysql_loop_adds simp: native_only_def [of "nv_rows st" "nv_rows st"])
  then show ?thesis using False by (simp add: collect_one_def)
qed

lemma collect_all_native_only: "native_only (nv_rows st) (nv_rows (collect_all ok env ast st))"
proof -
  have "native_only (nv_rows st) (nv_rows (fold (\<lambda>(i, t) st. snd (collect_one (env i) i t ast st)) cs st))" for cs
  proof (induction cs arbitrary: st)
    case Nil
    then show ?case by (simp add: native_only_def)
  next
    case (Cons c cs)
    obtain i t where c: "c = (i, t)" by (cases c)
    show ?case
      using native_only_trans [OF collect_one_native_only [of st "env i" i t ast] Cons.IH] by (simp add: c)
  qed
  then show ?thesis by (simp add: collect_all_def native_only_def [of "nv_rows st" "nv_rows st"])
qed

section \<open>Examples\<close>

definition quiet_env :: native_env where
  "quiet_env =
     \<lparr>ne_meta = agent_env, ne_load_ok = True, ne_slowlog = (\<lambda>_ _. Inr JNull), ne_open_mysql = (\<lambda>_ _. True),
      ne_slow_settings = Inr (0, ''FILE''), ne_slow_log = (\<lambda>_. Inr []), ne_ps_flag = Inr 1, ne_ps_rows = Inr [],
      ne_hour_ago = ''2026-08-27 09:00:00.000000'', ne_cursor_ok = True, ne_put_ok = True, ne_insert_ok = (\<lambda>_. True),
      ne_uuid = (\<lambda>k. replicate k CHR ''x''), ne_now = ''2026-08-27T10:00:00Z'', ne_now_ms = 0, ne_snap_text = (\<lambda>_. ''s''),
      ne_snap_parse = (\<lambda>_. None)\<rparr>"

definition empty_native :: native_store where
  "empty_native = \<lparr>nv_rows = [], nv_cursors = Map.empty\<rparr>"

definition log_env :: "slow_entry list \<Rightarrow> nat \<Rightarrow> native_env" where
  "log_env es n = quiet_env\<lparr>ne_slowlog := (\<lambda>_ _. Inr (slow_answer es)), ne_uuid := (\<lambda>k. replicate (n + k) CHR ''x'')\<rparr>"

definition first_log :: "slow_entry list" where
  "first_log = [(7, 2500, [''GET'', ''k'']), (8, 900, [''slowlog'', ''GET''])]"

definition second_log :: "slow_entry list" where
  "second_log = [(9, 12000, [''KEYS'', ''a''])]"

definition native_demo :: native_store where
  "native_demo = snd (native_collect_redis (log_env (first_log @ second_log) 5) ''c'' (demo_store [])
     (snd (native_collect_redis (log_env ([] @ first_log) 0) ''c'' (demo_store []) empty_native)))"

lemma native_demo_load:
  obtains conn pw where "native_load_conn (log_env es n) ''c'' (demo_store []) = Inr (conn, pw)"
proof -
  have "native_load_conn (log_env es n) ''c'' (demo_store []) = native_load_conn quiet_env ''c'' (demo_store [])"
    by (simp add: native_load_conn_def log_env_def)
  moreover have ok: "\<not> isl (native_load_conn quiet_env ''c'' (demo_store []))" by code_simp
  obtain p where "native_load_conn quiet_env ''c'' (demo_store []) = Inr p"
    using ok by (cases "native_load_conn quiet_env ''c'' (demo_store [])") auto
  ultimately show thesis using that [of "fst p" "snd p"] by simp
qed

lemma native_demo_history: "redis_history (demo_store []) ''c'' [] (first_log @ second_log) native_demo"
proof -
  obtain c1 p1 where l1: "native_load_conn (log_env ([] @ first_log) 0) ''c'' (demo_store []) = Inr (c1, p1)"
    by (rule native_demo_load)
  obtain c2 p2 where l2: "native_load_conn (log_env (first_log @ second_log) 5) ''c'' (demo_store []) = Inr (c2, p2)"
    by (rule native_demo_load)
  have start: "redis_history (demo_store []) ''c'' [] [] empty_native"
    by (rule redis_start) (simp_all add: empty_native_def)
  have "redis_history (demo_store []) ''c'' [] ([] @ first_log)
      (snd (native_collect_redis (log_env ([] @ first_log) 0) ''c'' (demo_store []) empty_native))"
  proof (rule redis_tick [OF start _ _ l1])
    show "slow_log_ok ([] @ first_log)" by code_simp
    show "inserts_ok (log_env ([] @ first_log) 0) 0 (length (filter recordable first_log)) (nv_rows empty_native)" by code_simp
  qed (simp_all add: log_env_def quiet_env_def slowlog_batch_def first_log_def)
  then have one: "redis_history (demo_store []) ''c'' [] first_log
      (snd (native_collect_redis (log_env ([] @ first_log) 0) ''c'' (demo_store []) empty_native))" by simp
  show ?thesis
    unfolding native_demo_def
  proof (rule redis_tick [OF one _ _ l2])
    show "slow_log_ok (first_log @ second_log)" by code_simp
    show "inserts_ok (log_env (first_log @ second_log) 5) 0 (length (filter recordable second_log))
       (nv_rows (snd (native_collect_redis (log_env ([] @ first_log) 0) ''c'' (demo_store []) empty_native)))" by code_simp
  qed (simp_all add: log_env_def quiet_env_def slowlog_batch_def second_log_def)
qed


theorem parse_mysql_time_round_trip_witness:
  "parse_mysql_time_ms (mysql_time 1 2 5 250000) = int 1 * 3600000 + int 2 * 60000 + int 5 * 1000 + int (250000 div 1000)"
  by (rule parse_mysql_time_round_trip) simp_all

definition old_counters :: "ps_row list" where
  "old_counters = [(''ab|db'', ''SELECT ?'', 10, 40)]"

definition new_digests :: "digest_row list" where
  "new_digests = [(''ab'', ''SELECT ?'', 11, 42000000000, Some ''db'')]"

definition ps_env :: native_env where
  "ps_env = quiet_env\<lparr>ne_ps_rows := Inr new_digests, ne_snap_parse := (\<lambda>_. Some (snapshot_of 0 old_counters))\<rparr>"

definition ps_store :: native_store where
  "ps_store = \<lparr>nv_rows = [], nv_cursors = [(''c'', ps_digest_source) \<mapsto> ''s'']\<rparr>"

lemma new_rows: "map ps_row_of new_digests = [(''ab|db'', ''SELECT ?'', 11, 42)]"
  by (simp add: new_digests_def ps_row_of_def ps_key_def unwrap_or_def i64_max_def ps_to_ms_def)

theorem ps_tick_counts_increase_witness:
  "(let st' = snd (collect_mysql_ps_digest ps_env ''c'' ''mysql'' ps_store) in
      (sum_list (map queries_of (drop (length (nv_rows ps_store)) (nv_rows st'))), nv_cursors st' (''c'', ps_digest_source))) =
    (sum_list (map ps_count (map ps_row_of new_digests)) - sum_list (map ps_count old_counters),
     Some (ne_snap_text ps_env (snapshot_of (ne_now_ms ps_env) (map ps_row_of new_digests))))"
proof (rule ps_tick_counts_increase)
  show "\<not> ps_reset (snapshot_of 0 old_counters) (map ps_row_of new_digests)" unfolding new_rows by code_simp
  show "distinct (map fst (map ps_row_of new_digests))" "distinct (map fst old_counters)" unfolding new_rows by code_simp+
  show "fst ` set old_counters = fst ` set (map ps_row_of new_digests)" unfolding new_rows by code_simp
  show "inserts_ok ps_env 0 (length new_digests) (nv_rows ps_store)"
    by (simp add: inserts_ok_def new_digests_def ps_env_def quiet_env_def ps_store_def)
qed (simp_all add: ps_env_def quiet_env_def ps_store_def)

text \<open>
  After a restart a Redis server counts its entries from one again; nothing is collected until
  its ids pass the stored cursor.
\<close>

lemma redis_restart_stalls:
  "native_collect_redis (log_env [(1, 9000, [''KEYS'', ''a''])] 0) ''c'' (demo_store [])
      \<lparr>nv_rows = [], nv_cursors = [(''c'', redis_source) \<mapsto> show_nat 100]\<rparr> =
    (Inr 0, \<lparr>nv_rows = [], nv_cursors = [(''c'', redis_source) \<mapsto> show_nat 100]\<rparr>)"
proof -
  obtain conn pw where l: "native_load_conn (log_env [(1, 9000, [''KEYS'', ''a''])] 0) ''c'' (demo_store []) = Inr (conn, pw)"
    by (rule native_demo_load)
  have "ne_slowlog (log_env [(1, 9000, [''KEYS'', ''a''])] 0) conn pw = Inr (slow_answer [(1, 9000, [''KEYS'', ''a''])])"
    "cursor_get (log_env [(1, 9000, [''KEYS'', ''a''])] 0) ''c'' redis_source
       \<lparr>nv_rows = [], nv_cursors = [(''c'', redis_source) \<mapsto> show_nat 100]\<rparr> = Some (show_nat 100)"
    by (simp_all add: log_env_def quiet_env_def cursor_get_def)
  moreover have "parse_unsigned (2 ^ 64 - 1) (show_nat 100) = Some 100" by (simp add: parse_unsigned_show_nat)
  ultimately show ?thesis
    by (simp add: native_collect_redis_def l slow_answer_def slowlog_batch_def slow_json_def slowlog_entry_def json_as_i64_def
        unwrap_or_def slowlog_wanted_def Let_def)
qed

text \<open>An entry whose insertion failed is lost when a newer one of the same answer was stored.\<close>

definition failing_env :: native_env where
  "failing_env = (log_env [(8, 9000, [''KEYS'', ''a'']), (9, 9000, [''KEYS'', ''b''])] 0)\<lparr>ne_insert_ok := (\<lambda>k. k = 0)\<rparr>"

definition retry_env :: native_env where
  "retry_env = log_env [(8, 9000, [''KEYS'', ''a'']), (9, 9000, [''KEYS'', ''b''])] 5"

lemmas native_eval = native_collect_redis_def slow_answer_def slowlog_batch_def slow_json_def slowlog_entry_def json_as_i64_def
  unwrap_or_def slowlog_wanted_def Let_def native_insert_def insert_native_def insert_stat_row_def cursor_get_def cursor_put_def
  log_env_def quiet_env_def empty_native_def eq_ignore_ascii_case_def to_ascii_lower_def is_ascii_upper_def ccode_def
  parse_unsigned_show_nat

lemma failed_insert_is_not_retried:
  "map (\<lambda>r. qs_id r) (nv_rows (snd (native_collect_redis retry_env ''c'' (demo_store [])
      (snd (native_collect_redis failing_env ''c'' (demo_store []) empty_native))))) = [ne_uuid failing_env 0]"
proof -
  have l: "native_load_conn failing_env ''c'' (demo_store []) = native_load_conn retry_env ''c'' (demo_store [])"
    by (simp add: native_load_conn_def failing_env_def retry_env_def log_env_def)
  obtain conn pw where l2: "native_load_conn retry_env ''c'' (demo_store []) = Inr (conn, pw)"
    unfolding retry_env_def by (rule native_demo_load)
  show ?thesis
    using l l2 by (simp add: native_eval failing_env_def retry_env_def native_row_def)
qed

text \<open>
  Switching between the sources counts twice: the queries of a tick that the slow log covers
  are in the difference of the next tick that reads the counters.
\<close>

definition slow_env :: native_env where
  "slow_env = quiet_env\<lparr>ne_slow_settings := Inr (1, ''TABLE''), ne_uuid := (\<lambda>k. replicate (20 + k) CHR ''x''),
     ne_slow_log := (\<lambda>_. Inr [(''2026-08-27 09:30:00.000000'', ''00:00:02.000000'', Some ''SELECT 1'', None)])\<rparr>"

lemma switching_sources_counts_twice:
  "sum_list (map queries_of (nv_rows (snd (native_collect_mysql ps_env ''c'' (demo_store [])
      (snd (native_collect_mysql slow_env ''c'' (demo_store []) ps_store)))))) = 2"
proof -
  have l: "native_load_conn slow_env ''c'' (demo_store []) = native_load_conn ps_env ''c'' (demo_store [])"
    by (simp add: native_load_conn_def slow_env_def ps_env_def)
  have l1: "native_load_conn ps_env ''c'' (demo_store []) = native_load_conn (log_env [] 0) ''c'' (demo_store [])"
    by (simp add: native_load_conn_def log_env_def ps_env_def)
  obtain conn pw where l2: "native_load_conn ps_env ''c'' (demo_store []) = Inr (conn, pw)"
    unfolding l1 by (rule native_demo_load)
  have t: "contains_sub ''table'' (to_lowercase ''TABLE'')" by code_simp
  have d: "diff_ps_snapshots (Some (snapshot_of 0 old_counters)) (map ps_row_of new_digests) =
      [\<lparr>pd_count = 1, pd_total_ms = 2, pd_digest_text = ''SELECT ?'', pd_schema = Some ''db''\<rparr>]"
    unfolding new_rows by code_simp
  show ?thesis
    using l l2 t d by (simp add: native_eval native_collect_mysql_def collect_mysql_ps_digest_def slow_env_def ps_env_def ps_store_def
        native_row_def queries_of_def mysql_source_def ps_digest_source_def)
qed

end
