(* ===== verification/Redis_Leg.thy ===== *)
theory Redis_Leg
  imports Query_Stats Mcp_Tools
begin

text \<open>
  The Redis leg: \<open>crates/automation/src/redis_leg.rs\<close> (choice of the database, the command
  classes of read-only connections with their ACL cache, the conversion of answers to JSON and
  to rows) and the execution of \<open>kind:"redis"\<close> requests in \<open>stream_query.rs\<close>.

  A bulk string is its text after the lossy decoding. Floating-point numbers lie outside the
  JSON model: a double is its text, and \<open>float_json\<close> stands for reading such a text as a
  floating-point JSON number. The connection and its answers are the fields of \<open>redis_io\<close>.
\<close>

section \<open>Choice of the database\<close>

text \<open>\<open>str::parse::<i64>\<close>.\<close>

definition parse_signed :: "string \<Rightarrow> int option" where
  "parse_signed s =
     (case s of
        c # ds \<Rightarrow>
          if c = CHR ''-'' then (if ds = [] \<or> \<not> list_all is_ascii_digit ds \<or> 2 ^ 63 < int (digits_val ds) then None
            else Some (- int (digits_val ds)))
          else (let ds' = (if c = CHR ''+'' then ds else s) in
            if ds' = [] \<or> \<not> list_all is_ascii_digit ds' \<or> 2 ^ 63 \<le> int (digits_val ds') then None
            else Some (int (digits_val ds')))
      | [] \<Rightarrow> None)"

definition strip_db :: "string \<Rightarrow> string" where
  "strip_db raw = (if starts_with ''db'' raw then drop 2 raw else raw)"

definition db_index :: "string option \<Rightarrow> string option \<Rightarrow> int" where
  "db_index default_database db =
     (let raw = (case db of
          Some d \<Rightarrow> if d \<noteq> [] then d else (case default_database of Some x \<Rightarrow> x | None \<Rightarrow> ''0'')
        | None \<Rightarrow> (case default_database of Some x \<Rightarrow> x | None \<Rightarrow> ''0''))
      in case parse_signed (strip_db raw) of Some n \<Rightarrow> n | None \<Rightarrow> 0)"

section \<open>Command classes\<close>

datatype redis_command_class = ClassWrite | ClassRead

definition write_commands :: "string list" where
  "write_commands =
     [''SET'', ''SETNX'', ''SETEX'', ''PSETEX'', ''MSET'', ''MSETNX'', ''GETSET'', ''GETDEL'',
      ''SETRANGE'', ''SETBIT'', ''APPEND'',
      ''DEL'', ''UNLINK'', ''RENAME'', ''RENAMENX'', ''EXPIRE'', ''PEXPIRE'', ''EXPIREAT'',
      ''PEXPIREAT'', ''PERSIST'', ''COPY'', ''MOVE'', ''RESTORE'', ''MIGRATE'',
      ''INCR'', ''INCRBY'', ''INCRBYFLOAT'', ''DECR'', ''DECRBY'',
      ''LPUSH'', ''LPUSHX'', ''RPUSH'', ''RPUSHX'', ''LPOP'', ''RPOP'', ''LINSERT'', ''LSET'',
      ''LTRIM'', ''RPOPLPUSH'', ''LMOVE'', ''LMPOP'', ''BLPOP'', ''BRPOP'', ''BLMOVE'',
      ''BRPOPLPUSH'',
      ''SADD'', ''SPOP'', ''SREM'', ''SMOVE'', ''SINTERSTORE'', ''SUNIONSTORE'',
      ''SDIFFSTORE'',
      ''ZADD'', ''ZINCRBY'', ''ZPOPMIN'', ''ZPOPMAX'', ''ZPOPCOUNT'', ''ZREM'',
      ''ZREMRANGEBYRANK'', ''ZREMRANGEBYSCORE'', ''ZREMRANGEBYLEX'', ''ZMPOP'',
      ''BZPOPMIN'', ''BZPOPMAX'',
      ''HSET'', ''HSETNX'', ''HMSET'', ''HDEL'', ''HINCRBY'', ''HINCRBYFLOAT'',
      ''BITOP'', ''PFADD'', ''PFMERGE'', ''GEOADD'',
      ''XADD'', ''XDEL'', ''XTRIM'', ''XGROUP'', ''XSETID'', ''XACK'',
      ''EVAL'', ''EVALSHA'', ''FUNCTION'', ''SCRIPT'', ''CONFIG'', ''ACL'',
      ''FLUSHALL'', ''FLUSHDB'', ''SWAPDB'', ''SORT'']"

definition dangerous_commands :: "string list" where
  "dangerous_commands =
     [''KEYS'', ''FLUSHALL'', ''FLUSHDB'', ''SHUTDOWN'', ''DEBUG'', ''MONITOR'',
      ''SLAVEOF'', ''REPLICAOF'', ''FAILOVER'', ''CLIENT'', ''CLUSTER'', ''SYNC'',
      ''PSYNC'', ''RESET'', ''LOLWUT'']"

definition ascii_upper :: "string \<Rightarrow> string" where
  "ascii_upper s = map to_ascii_upper s"

definition classify_static :: "string \<Rightarrow> redis_command_class" where
  "classify_static name =
     (if ascii_upper name \<in> set write_commands \<or> ascii_upper name \<in> set dangerous_commands then ClassWrite else ClassRead)"

record acl_classes =
  acl_write :: "string list"
  acl_dangerous :: "string list"

text \<open>The cache by connection id; \<open>Some None\<close> is a cached failure.\<close>

type_synonym acl_cache = "string \<rightharpoonup> acl_classes option"

text \<open>The answers to \<open>ACL CAT write\<close> and \<open>ACL CAT dangerous\<close>, when there is one.\<close>

definition fetch_acl_classes :: "string list option \<Rightarrow> string list option \<Rightarrow> acl_classes option" where
  "fetch_acl_classes write dangerous =
     (case write of
        None \<Rightarrow> None
      | Some w \<Rightarrow>
          (case dangerous of
             None \<Rightarrow> None
           | Some d \<Rightarrow> Some \<lparr>acl_write = map ascii_upper w, acl_dangerous = map ascii_upper d\<rparr>))"

definition class_in :: "acl_classes option \<Rightarrow> string \<Rightarrow> redis_command_class" where
  "class_in classes upper =
     (case classes of
        Some a \<Rightarrow> if upper \<in> set (acl_write a) \<or> upper \<in> set (acl_dangerous a) then ClassWrite else ClassRead
      | None \<Rightarrow> ClassRead)"

definition redis_classify :: "string list option \<Rightarrow> string list option \<Rightarrow> string \<Rightarrow> string \<Rightarrow> acl_cache \<Rightarrow> redis_command_class \<times> acl_cache" where
  "redis_classify write dangerous conn_id name cache =
     (if classify_static name = ClassWrite then (ClassWrite, cache)
      else case cache conn_id of
        Some cached \<Rightarrow> (class_in cached (ascii_upper name), cache)
      | None \<Rightarrow>
          (let fetched = fetch_acl_classes write dangerous in
           (class_in fetched (ascii_upper name), cache(conn_id \<mapsto> fetched))))"

section \<open>Answers\<close>

datatype resp =
    Nil_resp
  | Int_resp int
  | Bulk string
  | Simple string
  | Okay
  | Array "resp list"
  | Set_resp "resp list"
  | Map_resp "(resp \<times> resp) list"
  | Attribute resp
  | Push "resp list"
  | Double string
  | Boolean bool
  | Verbatim string
  | Other string

text \<open>\<open>from_iter\<close> of a JSON object: a later entry of a key replaces the value in its place.\<close>

fun obj_put :: "string \<Rightarrow> json \<Rightarrow> (string \<times> json) list \<Rightarrow> (string \<times> json) list" where
  "obj_put k v [] = [(k, v)]"
| "obj_put k v ((k', v') # kvs) = (if k' = k then (k, v) # kvs else (k', v') # obj_put k v kvs)"

fun resp_to_json :: "(string \<Rightarrow> json option) \<Rightarrow> resp \<Rightarrow> json" where
  "resp_to_json fj Nil_resp = JNull"
| "resp_to_json fj (Int_resp i) = JNum i"
| "resp_to_json fj (Bulk s) = JStr s"
| "resp_to_json fj (Simple s) = JStr s"
| "resp_to_json fj Okay = JStr ''OK''"
| "resp_to_json fj (Array xs) = JArr (map (resp_to_json fj) xs)"
| "resp_to_json fj (Set_resp xs) = JArr (map (resp_to_json fj) xs)"
| "resp_to_json fj (Map_resp ps) =
     JObj (fold (\<lambda>kv. obj_put (case json_as_str (fst kv) of Some s \<Rightarrow> s | None \<Rightarrow> []) (snd kv))
       (map (\<lambda>(k, v). (resp_to_json fj k, resp_to_json fj v)) ps) [])"
| "resp_to_json fj (Attribute d) = resp_to_json fj d"
| "resp_to_json fj (Push xs) = JArr (map (resp_to_json fj) xs)"
| "resp_to_json fj (Double t) = (case fj t of Some v \<Rightarrow> v | None \<Rightarrow> JNull)"
| "resp_to_json fj (Boolean b) = JBool b"
| "resp_to_json fj (Verbatim s) = JStr s"
| "resp_to_json fj (Other s) = JStr s"

definition show_int :: "int \<Rightarrow> string" where
  "show_int n = (if n < 0 then ''-'' else []) @ show_nat (nat \<bar>n\<bar>)"

fun resp_string :: "resp \<Rightarrow> string option" where
  "resp_string (Bulk s) = Some s"
| "resp_string (Simple s) = Some s"
| "resp_string Okay = Some ''OK''"
| "resp_string (Int_resp i) = Some (show_int i)"
| "resp_string (Double t) = Some t"
| "resp_string _ = None"

fun cell :: "(string \<Rightarrow> json option) \<Rightarrow> resp \<Rightarrow> json" where
  "cell fj (Int_resp i) = JNum i"
| "cell fj (Bulk s) =
     (case parse_signed s of Some n \<Rightarrow> JNum n | None \<Rightarrow> (case fj s of Some v \<Rightarrow> v | None \<Rightarrow> JStr s))"
| "cell fj r = resp_to_json fj r"

text \<open>\<open>chunks(2)\<close>.\<close>

fun chunks2 :: "'a list \<Rightarrow> 'a list list" where
  "chunks2 [] = []"
| "chunks2 [x] = [[x]]"
| "chunks2 (x # y # xs) = [x, y] # chunks2 xs"

type_synonym semantic = "string list \<times> json list list"

text \<open>The answer of a cursor command: the cursor and the items, unless the batch is empty.\<close>

definition cursor_batch :: "resp \<Rightarrow> (string \<times> resp list) option" where
  "cursor_batch result =
     (case result of
        Array [c, Array items] \<Rightarrow>
          (case resp_string c of Some cursor \<Rightarrow> if items = [] then None else Some (cursor, items) | None \<Rightarrow> None)
      | _ \<Rightarrow> None)"

definition scan_like :: "(string \<Rightarrow> json option) \<Rightarrow> string list \<Rightarrow> resp \<Rightarrow> semantic option" where
  "scan_like fj item_cols result =
     (case cursor_batch result of
        Some (cursor, items) \<Rightarrow> Some (''cursor'' # item_cols, map (\<lambda>item. [JStr cursor, cell fj item]) items)
      | None \<Rightarrow> None)"

definition pair_or_nil :: "(string \<Rightarrow> json option) \<Rightarrow> resp list \<Rightarrow> json list" where
  "pair_or_nil fj p = (case p of a # b # _ \<Rightarrow> [cell fj a, cell fj b] | [a] \<Rightarrow> [cell fj a, cell fj Nil_resp] | [] \<Rightarrow> [cell fj Nil_resp, cell fj Nil_resp])"

definition scan_pairs :: "(string \<Rightarrow> json option) \<Rightarrow> string list \<Rightarrow> resp \<Rightarrow> semantic option" where
  "scan_pairs fj cols result =
     (case cursor_batch result of
        Some (cursor, items) \<Rightarrow> Some (cols, map (\<lambda>p. JStr cursor # pair_or_nil fj p) (chunks2 items))
      | None \<Rightarrow> None)"

definition array_items :: "resp \<Rightarrow> resp list option" where
  "array_items r = (case r of Array xs \<Rightarrow> Some xs | _ \<Rightarrow> None)"

definition one_column :: "(string \<Rightarrow> json option) \<Rightarrow> string \<Rightarrow> resp \<Rightarrow> semantic option" where
  "one_column fj col result = map_option (\<lambda>items. ([col], map (\<lambda>i. [cell fj i]) items)) (array_items result)"

definition full_pairs :: "resp list \<Rightarrow> (resp \<times> resp) list" where
  "full_pairs items = List.map_filter (\<lambda>c. case c of [k, v] \<Rightarrow> Some (k, v) | _ \<Rightarrow> None) (chunks2 items)"

definition pair_rows :: "(string \<Rightarrow> json option) \<Rightarrow> (resp \<times> resp) list \<Rightarrow> json list list" where
  "pair_rows fj ps = map (\<lambda>(k, v). [cell fj k, cell fj v]) ps"

definition semantic_rows :: "(string \<Rightarrow> json option) \<Rightarrow> string \<Rightarrow> string list \<Rightarrow> resp \<Rightarrow> semantic option" where
  "semantic_rows fj name args result =
     (let upper = ascii_upper name in
      if upper = ''SCAN'' then scan_like fj [''key''] result
      else if upper = ''HSCAN'' then scan_pairs fj [''cursor'', ''field'', ''value''] result
      else if upper = ''SSCAN'' then scan_like fj [''member''] result
      else if upper = ''ZSCAN'' then scan_pairs fj [''cursor'', ''member'', ''score''] result
      else if upper \<in> {''KEYS'', ''SMEMBERS'', ''SINTER'', ''SUNION'', ''SDIFF'', ''LRANGE''} then
        one_column fj (if upper = ''LRANGE'' then ''element'' else if upper = ''KEYS'' then ''key'' else ''member'') result
      else if upper \<in> {''HGETALL'', ''CONFIG''} then
        (let cols = (if upper = ''CONFIG'' then [''parameter'', ''value''] else [''field'', ''value'']) in
         case result of
           Array items \<Rightarrow> Some (cols, pair_rows fj (full_pairs items))
         | Map_resp ps \<Rightarrow> Some (cols, pair_rows fj ps)
         | _ \<Rightarrow> None)
      else if upper \<in> {''ZRANGE'', ''ZRANGESTORE''} then
        (if \<not> list_ex (\<lambda>a. ascii_upper a = ''WITHSCORES'') args then None
         else map_option (\<lambda>items. ([''member'', ''score''], pair_rows fj (full_pairs items))) (array_items result))
      else if upper = ''MGET'' then one_column fj ''value'' result
      else None)"

definition fallback_row :: "(string \<Rightarrow> json option) \<Rightarrow> resp \<Rightarrow> json list" where
  "fallback_row fj result = [resp_to_json fj result]"

section \<open>Execution\<close>

text \<open>An awaited answer of the driver; an error has its code, if any, and its text.\<close>

datatype 'a awaited =
    TimedOut
  | Failed "string option" string
  | Answered 'a

text \<open>How the sending of the events ended, with the number of events sent before it was cut off.\<close>

datatype flush_end =
    Flushed
  | FlushCancelled nat
  | FlushTimedOut nat

record redis_io =
  ri_float :: "string \<Rightarrow> json option"
  ri_open :: "db_connection \<Rightarrow> string \<Rightarrow> int \<Rightarrow> unit awaited"
  ri_acl_write :: "string list option"
  ri_acl_dangerous :: "string list option"
  ri_command :: "string list \<Rightarrow> resp awaited"
  ri_pipeline :: "bool \<Rightarrow> string list list \<Rightarrow> resp list awaited"
  ri_flush :: flush_end

datatype stream_event =
    Meta "string list" "string list option"
  | Rows "json list list"
  | Complete complete_info "64 word"
  | StreamError stream_query_error

definition batch_size :: nat where
  "batch_size = 500"

definition normalize_meta_code :: "string \<Rightarrow> string" where
  "normalize_meta_code code =
     (if code = ''CONNECT_FAILED'' then ''CONNECTION_FAILED'' else if code = ''QUERY_FAILED'' then ''DB_ERROR'' else code)"

definition stream_error :: "string \<Rightarrow> string \<Rightarrow> string option \<Rightarrow> stream_query_error" where
  "stream_error code message engine = \<lparr>se_code = code, se_message = message, se_engine_code = engine\<rparr>"

definition cancelled_error :: stream_query_error where
  "cancelled_error = stream_error ''CANCELLED'' ''execution cancelled by client'' None"

definition timeout_error :: "nat \<Rightarrow> stream_query_error" where
  "timeout_error secs =
     stream_error ''TIMEOUT'' (''statement exceeded the '' @ show_nat secs @ ''s server-side timeout and was cancelled'') None"

definition connect_failed_error :: stream_query_error where
  "connect_failed_error = stream_error ''CONNECTION_FAILED'' ''database connection failed'' None"

definition from_redis :: "string option \<Rightarrow> string \<Rightarrow> stream_query_error" where
  "from_redis code message =
     (if code = None then connect_failed_error else stream_error ''DB_ERROR'' (take 200 message) code)"

definition awaited_result :: "nat \<Rightarrow> 'a awaited \<Rightarrow> stream_query_error + 'a" where
  "awaited_result secs a =
     (case a of TimedOut \<Rightarrow> Inl (timeout_error secs) | Failed c m \<Rightarrow> Inl (from_redis c m) | Answered x \<Rightarrow> Inr x)"

definition readonly_error :: stream_query_error where
  "readonly_error = stream_error ''DB_ERROR'' ''connection is read-only: write command rejected'' (Some ''READONLY'')"

text \<open>Every name is classified in turn; the first that is not a read ends the request.\<close>

fun redis_guard_read_only :: "redis_io \<Rightarrow> string \<Rightarrow> string list \<Rightarrow> acl_cache \<Rightarrow> (stream_query_error + unit) \<times> acl_cache" where
  "redis_guard_read_only io conn_id [] cache = (Inr (), cache)"
| "redis_guard_read_only io conn_id (name # names) cache =
     (case redis_classify (ri_acl_write io) (ri_acl_dangerous io) conn_id name cache of
        (ClassRead, cache') \<Rightarrow> redis_guard_read_only io conn_id names cache'
      | (ClassWrite, cache') \<Rightarrow> (Inl readonly_error, cache'))"

definition guard_if :: "bool \<Rightarrow> redis_io \<Rightarrow> string \<Rightarrow> string list \<Rightarrow> acl_cache \<Rightarrow> (stream_query_error + unit) \<times> acl_cache" where
  "guard_if read_only io conn_id names cache = (if read_only then redis_guard_read_only io conn_id names cache else (Inr (), cache))"

text \<open>The outcome of a request, the cache, and the commands the server was sent.\<close>

type_synonym 'a redis_out = "(stream_query_error + 'a) \<times> acl_cache \<times> string list list"

definition run_single :: "redis_io \<Rightarrow> nat \<Rightarrow> bool \<Rightarrow> string \<Rightarrow> string list \<Rightarrow> acl_cache \<Rightarrow> semantic redis_out" where
  "run_single io secs read_only conn_id command cache =
     (case command of
        [] \<Rightarrow> (Inl (stream_error ''DB_ERROR'' ''command array must be non-empty'' None), cache, [])
      | name # args \<Rightarrow>
          (case guard_if read_only io conn_id [name] cache of
             (Inl e, cache') \<Rightarrow> (Inl e, cache', [])
           | (Inr _, cache') \<Rightarrow>
               (case awaited_result secs (ri_command io command) of
                  Inl e \<Rightarrow> (Inl e, cache', [command])
                | Inr r \<Rightarrow>
                    (Inr (case semantic_rows (ri_float io) name args r of
                            Some s \<Rightarrow> s | None \<Rightarrow> ([''result''], [fallback_row (ri_float io) r])),
                     cache', [command]))))"

definition first_names :: "string list list \<Rightarrow> string list" where
  "first_names pipeline = map hd (filter (\<lambda>c. c \<noteq> []) pipeline)"

definition run_pipeline :: "redis_io \<Rightarrow> nat \<Rightarrow> bool \<Rightarrow> string \<Rightarrow> bool \<Rightarrow> string list list \<Rightarrow> acl_cache \<Rightarrow> semantic redis_out" where
  "run_pipeline io secs read_only conn_id atomic pipeline cache =
     (case guard_if read_only io conn_id (first_names pipeline) cache of
        (Inl e, cache') \<Rightarrow> (Inl e, cache', [])
      | (Inr _, cache') \<Rightarrow>
          if [] \<in> set pipeline
          then (Inl (stream_error ''DB_ERROR'' ''pipeline entry must be a non-empty command array'' None), cache', [])
          else case awaited_result secs (ri_pipeline io atomic pipeline) of
            Inl e \<Rightarrow> (Inl e, cache', pipeline)
          | Inr rs \<Rightarrow>
              (Inr ([''index'', ''result''], map (\<lambda>(i, v). [JNum (int i), resp_to_json (ri_float io) v]) (enumerate 0 rs)),
               cache', pipeline))"

fun batches :: "nat \<Rightarrow> 'a list \<Rightarrow> 'a list list" where
  "batches n xs = (if xs = [] \<or> n = 0 then [] else take n xs # batches n (drop n xs))"

declare batches.simps [simp del]

definition redis_events :: "string list \<Rightarrow> json list list \<Rightarrow> stream_event list" where
  "redis_events columns rows = Meta columns None # map Rows (batches batch_size rows)"

text \<open>The rows within the limit as events, and the final information.\<close>

definition redis_emit :: "redis_io \<Rightarrow> nat \<Rightarrow> nat \<Rightarrow> semantic \<Rightarrow> (stream_query_error + complete_info) \<times> stream_event list" where
  "redis_emit io secs row_limit s =
     (let limit = max row_limit 1; rows = take limit (snd s); events = redis_events (fst s) rows in
      case ri_flush io of
        Flushed \<Rightarrow>
          (Inr \<lparr>cp_row_count = of_nat (length rows), cp_truncated = (limit \<le> length (snd s)), cp_affected_rows = None\<rparr>, events)
      | FlushCancelled n \<Rightarrow> (Inl cancelled_error, take n events)
      | FlushTimedOut n \<Rightarrow> (Inl (timeout_error secs), take n events))"

definition run_redis_inner ::
  "mcp_env \<Rightarrow> bool \<Rightarrow> redis_io \<Rightarrow> string \<Rightarrow> string option \<Rightarrow> string list option \<Rightarrow> string list list option \<Rightarrow> bool \<Rightarrow> nat \<Rightarrow> nat \<Rightarrow>
   auto_store \<Rightarrow> acl_cache \<Rightarrow> (stream_query_error + complete_info) \<times> stream_event list \<times> acl_cache \<times> string list list" where
  "run_redis_inner env ok io conn_id db command pipeline atomic row_limit secs st cache =
     (case meta_load_connection env ok conn_id st of
        Inl (code, message) \<Rightarrow> (Inl (stream_error (normalize_meta_code code) message None), [], cache, [])
      | Inr (conn, password) \<Rightarrow>
          if map to_ascii_lower (dc_db_type conn) \<noteq> ''redis'' then
            (Inl (stream_error ''UNSUPPORTED_KIND'' (''connection db_type '' @ quoted_name (dc_db_type conn) @
               '' does not accept kind '' @ [CHR 0x22] @ ''redis'' @ [CHR 0x22] @ '' commands'') None), [], cache, [])
          else case awaited_result secs (ri_open io conn password (db_index (dc_default_database conn) db)) of
            Inl e \<Rightarrow> (Inl e, [], cache, [])
          | Inr _ \<Rightarrow>
              (case (case command of
                   Some c \<Rightarrow> run_single io secs (dc_read_only conn) conn_id c cache
                 | None \<Rightarrow>
                     (case pipeline of
                        Some p \<Rightarrow> run_pipeline io secs (dc_read_only conn) conn_id atomic p cache
                      | None \<Rightarrow> (Inl (stream_error ''DB_ERROR'' (''kind '' @ [CHR 0x22] @ ''redis'' @ [CHR 0x22] @
                          '' requires a command or pipeline'') None), cache, []))) of
                 (Inl e, cache', sent) \<Rightarrow> (Inl e, [], cache', sent)
               | (Inr s, cache', sent) \<Rightarrow>
                   (let (r, events) = redis_emit io secs row_limit s in (r, events, cache', sent))))"

definition terminal_event :: "64 word \<Rightarrow> stream_query_error + complete_info \<Rightarrow> stream_event" where
  "terminal_event elapsed_ms outcome = (case outcome of Inr info \<Rightarrow> Complete info elapsed_ms | Inl e \<Rightarrow> StreamError e)"

definition redis_payload :: "string list option \<Rightarrow> string list list option \<Rightarrow> capture_payload option" where
  "redis_payload command pipeline = or_else (map_option Redis command) (map_option RedisPipeline pipeline)"

text \<open>The request with its sample and its terminal event, which is sent while somebody listens.\<close>

definition run_stream_redis ::
  "mcp_env \<Rightarrow> bool \<Rightarrow> redis_io \<Rightarrow> (json \<Rightarrow> string) \<Rightarrow> capture_io \<Rightarrow> nat \<Rightarrow> 64 word \<Rightarrow> bool \<Rightarrow> string \<Rightarrow> string option \<Rightarrow>
   string list option \<Rightarrow> string list list option \<Rightarrow> bool \<Rightarrow> nat \<Rightarrow> nat \<Rightarrow> auto_store \<Rightarrow> acl_cache \<Rightarrow> recorder \<times> stat_row list \<Rightarrow>
   (stream_query_error + complete_info) \<times> stream_event list \<times> acl_cache \<times> string list list \<times> (recorder \<times> stat_row list)" where
  "run_stream_redis env ok io json_text cio now elapsed_ms listening conn_id db command pipeline atomic row_limit secs st cache stats =
     (let (outcome, events, cache', sent) =
            run_redis_inner env ok io conn_id db command pipeline atomic row_limit secs st cache;
          stats' = (case redis_payload command pipeline of
              Some payload \<Rightarrow> record_stream json_text cio now elapsed_ms conn_id db payload outcome stats
            | None \<Rightarrow> stats)
      in (outcome, events @ (if listening then [terminal_event elapsed_ms outcome] else []), cache', sent, stats'))"

section \<open>Read-only connections\<close>

text \<open>What the cache knows to be a write: the classes the server gave, when it gave them.\<close>

definition acl_says_write :: "acl_classes option \<Rightarrow> string \<Rightarrow> bool" where
  "acl_says_write classes name = (class_in classes (ascii_upper name) = ClassWrite)"

definition effective_classes :: "redis_io \<Rightarrow> string \<Rightarrow> acl_cache \<Rightarrow> acl_classes option" where
  "effective_classes io conn_id cache =
     (case cache conn_id of Some c \<Rightarrow> c | None \<Rightarrow> fetch_acl_classes (ri_acl_write io) (ri_acl_dangerous io))"

lemma redis_classify_read:
  "redis_classify (ri_acl_write io) (ri_acl_dangerous io) c name cache = (ClassRead, cache') \<Longrightarrow>
     classify_static name = ClassRead \<and> \<not> acl_says_write (effective_classes io c cache) name \<and>
     effective_classes io c cache' = effective_classes io c cache"
  by (auto simp: redis_classify_def effective_classes_def acl_says_write_def Let_def split: if_splits option.splits
      intro: redis_command_class.exhaust)

lemma redis_guard_passes:
  "redis_guard_read_only io c names cache = (Inr u, cache') \<Longrightarrow>
     list_all (\<lambda>n. classify_static n = ClassRead \<and> \<not> acl_says_write (effective_classes io c cache) n) names"
proof (induction names arbitrary: cache)
  case (Cons n ns)
  obtain cl cache1 where cl: "redis_classify (ri_acl_write io) (ri_acl_dangerous io) c n cache = (cl, cache1)" by fastforce
  have read: "cl = ClassRead" and rest: "redis_guard_read_only io c ns cache1 = (Inr u, cache')"
    using Cons.prems by (cases cl; simp add: cl)+
  note r = redis_classify_read [OF cl [unfolded read]]
  show ?case using r Cons.IH [OF rest] by simp
qed simp

text \<open>A command the server may be sent on a read-only connection.\<close>

definition read_command :: "redis_io \<Rightarrow> string \<Rightarrow> acl_cache \<Rightarrow> string list \<Rightarrow> bool" where
  "read_command io c cache command =
     (command \<noteq> [] \<and> classify_static (hd command) = ClassRead \<and> \<not> acl_says_write (effective_classes io c cache) (hd command))"

lemma run_single_sent:
  assumes "run_single io secs True c command cache = (r, cache', sent)" "x \<in> set sent"
  shows "read_command io c cache x"
proof (cases command)
  case Nil
  then show ?thesis using assms by (simp add: run_single_def)
next
  case (Cons n args)
  obtain g cache1 where g: "guard_if True io c [n] cache = (g, cache1)" by fastforce
  show ?thesis
  proof (cases g)
    case (Inl e)
    then show ?thesis using assms by (simp add: run_single_def Cons g)
  next
    case (Inr u)
    have "x = command" using assms by (auto simp: run_single_def Cons g Inr split: sum.splits)
    moreover have "classify_static n = ClassRead \<and> \<not> acl_says_write (effective_classes io c cache) n"
      using redis_guard_passes [of io c "[n]" cache u cache1] g by (simp add: guard_if_def Inr)
    ultimately show ?thesis by (simp add: read_command_def Cons)
  qed
qed

lemma run_pipeline_sent:
  assumes "run_pipeline io secs True c atomic p cache = (r, cache', sent)" "x \<in> set sent"
  shows "read_command io c cache x"
proof -
  obtain g cache1 where g: "guard_if True io c (first_names p) cache = (g, cache1)" by fastforce
  show ?thesis
  proof (cases g)
    case (Inl e)
    then show ?thesis using assms by (simp add: run_pipeline_def g)
  next
    case (Inr u)
    have x: "x \<in> set p" "[] \<notin> set p"
      using assms by (auto simp: run_pipeline_def g Inr split: sum.splits if_splits)
    then have "x \<noteq> []" "hd x \<in> set (first_names p)" by (auto simp: first_names_def)
    moreover have "list_all (\<lambda>n. classify_static n = ClassRead \<and> \<not> acl_says_write (effective_classes io c cache) n) (first_names p)"
      using redis_guard_passes g by (simp add: guard_if_def Inr)
    ultimately show ?thesis by (simp add: read_command_def list_all_iff)
  qed
qed

lemma run_redis_inner_cases:
  assumes "run_redis_inner env ok io c db command pipeline atomic limit secs st cache = (r, events, cache', sent)"
  obtains "sent = []" "events = []" "isl r" "cache' = cache"
  | conn pw e where "meta_load_connection env ok c st = Inr (conn, pw)" "r = Inl e" "events = []"
      "(case command of Some x \<Rightarrow> run_single io secs (dc_read_only conn) c x cache = (Inl e, cache', sent)
        | None \<Rightarrow> \<exists>p. pipeline = Some p \<and> run_pipeline io secs (dc_read_only conn) c atomic p cache = (Inl e, cache', sent))"
  | conn pw s where "meta_load_connection env ok c st = Inr (conn, pw)" "(r, events) = redis_emit io secs limit s"
      "(case command of Some x \<Rightarrow> run_single io secs (dc_read_only conn) c x cache = (Inr s, cache', sent)
        | None \<Rightarrow> \<exists>p. pipeline = Some p \<and> run_pipeline io secs (dc_read_only conn) c atomic p cache = (Inr s, cache', sent))"
proof (cases "meta_load_connection env ok c st")
  case (Inl e)
  then show thesis using that(1) assms by (cases e) (auto simp: run_redis_inner_def)
next
  case (Inr q)
  obtain conn pw where q: "q = (conn, pw)" by (cases q)
  note load = Inr [unfolded q]
  show thesis
  proof (cases "map to_ascii_lower (dc_db_type conn) \<noteq> ''redis''")
    case True
    then show thesis using that(1) assms by (auto simp: run_redis_inner_def load)
  next
    case False
    show thesis
    proof (cases "awaited_result secs (ri_open io conn pw (db_index (dc_default_database conn) db))")
      case (Inl e)
      then show thesis using that(1) assms False by (auto simp: run_redis_inner_def load)
    next
      case opened: (Inr u)
      note eval = run_redis_inner_def load opened
      show thesis
      proof (cases command)
        case (Some x)
        obtain o1 c1 s1 where o: "run_single io secs (dc_read_only conn) c x cache = (o1, c1, s1)"
          by (cases "run_single io secs (dc_read_only conn) c x cache")
        show thesis
        proof (cases o1)
          case (Inl e)
          then show thesis using that(2) [OF load] assms False by (simp add: eval Some o)
        next
          case (Inr s)
          then show thesis using that(3) [OF load, of s] assms False by (auto simp: eval Some o Let_def split: prod.splits)
        qed
      next
        case None
        show thesis
        proof (cases pipeline)
          case np: None
          then show thesis using that(1) assms False None by (auto simp: eval)
        next
          case p: (Some p)
          obtain o1 c1 s1 where o: "run_pipeline io secs (dc_read_only conn) c atomic p cache = (o1, c1, s1)"
            by (cases "run_pipeline io secs (dc_read_only conn) c atomic p cache")
          show thesis
          proof (cases o1)
            case (Inl e)
            then show thesis using that(2) [OF load] assms False None by (simp add: eval p o)
          next
            case (Inr s)
            then show thesis using that(3) [OF load, of s] assms False None by (auto simp: eval p o Let_def split: prod.splits)
          qed
        qed
      qed
    qed
  qed
qed

text \<open>
  C36. On a read-only connection no command is sent that the tables of the server name or that
  the access lists known for the connection put in the write or dangerous class, alone or
  anywhere in a pipeline.
\<close>

theorem redis_read_only_enforced:
  assumes "run_redis_inner env ok io c db command pipeline atomic limit secs st cache = (r, events, cache', sent)"
    and "meta_load_connection env ok c st = Inr (conn, pw)" "dc_read_only conn" "x \<in> set sent"
  shows "x \<noteq> [] \<and> ascii_upper (hd x) \<notin> set write_commands \<and> ascii_upper (hd x) \<notin> set dangerous_commands \<and>
    \<not> acl_says_write (effective_classes io c cache) (hd x)"
proof -
  have "read_command io c cache x"
    using assms(2-4)
    by (rule_tac run_redis_inner_cases [OF assms(1)])
      (auto split: option.splits dest: run_single_sent run_pipeline_sent)
  then show ?thesis by (auto simp: read_command_def classify_static_def split: if_splits)
qed

section \<open>Shape of the answers\<close>

definition widths_ok :: "semantic \<Rightarrow> bool" where
  "widths_ok s = list_all (\<lambda>row. length row = length (fst s)) (snd s)"

lemma length_pair_or_nil [simp]: "length (pair_or_nil fj p) = 2"
  by (auto simp: pair_or_nil_def split: list.splits)

lemma widths_scan_like: "scan_like fj [c] r = Some s \<Longrightarrow> widths_ok s"
  by (auto simp: scan_like_def widths_ok_def list_all_iff split: option.splits prod.splits)

lemma widths_scan_pairs: "scan_pairs fj [a, b, c] r = Some s \<Longrightarrow> widths_ok s"
  by (auto simp: scan_pairs_def widths_ok_def list_all_iff split: option.splits prod.splits)

lemma widths_one_column: "one_column fj c r = Some s \<Longrightarrow> widths_ok s"
  by (auto simp: one_column_def widths_ok_def list_all_iff)

lemma widths_pair_rows: "widths_ok ([a, b], pair_rows fj ps)"
  by (auto simp: pair_rows_def widths_ok_def list_all_iff)

lemma semantic_rows_width: "semantic_rows fj name args r = Some s \<Longrightarrow> widths_ok s"
  unfolding semantic_rows_def Let_def
  by (auto simp: widths_pair_rows dest: widths_scan_like widths_scan_pairs widths_one_column
      split: if_splits resp.splits)

lemma run_single_width: "run_single io secs ro c command cache = (Inr s, cache', sent) \<Longrightarrow> widths_ok s"
  by (auto simp: run_single_def split: list.splits prod.splits sum.splits option.splits dest: semantic_rows_width)
    (simp add: widths_ok_def fallback_row_def)

lemma run_pipeline_width: "run_pipeline io secs ro c atomic p cache = (Inr s, cache', sent) \<Longrightarrow> widths_ok s"
  by (auto simp: run_pipeline_def widths_ok_def list_all_iff split: prod.splits sum.splits if_splits)

lemma concat_batches: "0 < n \<Longrightarrow> concat (batches n xs) = xs"
proof (induction n xs rule: batches.induct)
  case (1 n xs)
  show ?case
  proof (cases "xs = []")
    case True
    then show ?thesis by (simp add: batches.simps)
  next
    case False
    then show ?thesis using 1 by (simp add: batches.simps [of n xs])
  qed
qed

lemma batches_bounded: "list_all (\<lambda>b. b \<noteq> [] \<and> length b \<le> n) (batches n xs)"
proof (induction n xs rule: batches.induct)
  case (1 n xs)
  then show ?case by (cases "xs = [] \<or> n = 0") (auto simp: batches.simps [of n xs])
qed

text \<open>
  A well-formed stream: the columns, then batches of at most 500 rows, none empty, each row
  with one cell per column, and in all as many rows as the final information says.
\<close>

fun event_rows :: "stream_event \<Rightarrow> json list list" where
  "event_rows (Rows b) = b"
| "event_rows _ = []"

fun batch_ok :: "nat \<Rightarrow> stream_event \<Rightarrow> bool" where
  "batch_ok w (Rows b) = (b \<noteq> [] \<and> length b \<le> batch_size \<and> list_all (\<lambda>r. length r = w) b)"
| "batch_ok w _ = False"

fun stream_typed :: "nat \<Rightarrow> complete_info \<Rightarrow> stream_event list \<Rightarrow> bool" where
  "stream_typed limit info (Meta cols types # bs) =
     (list_all (batch_ok (length cols)) bs \<and> length (concat (map event_rows bs)) = unat (cp_row_count info) \<and>
      unat (cp_row_count info) \<le> max limit 1 \<and> (\<not> cp_truncated info \<longrightarrow> unat (cp_row_count info) < max limit 1))"
| "stream_typed limit info _ = False"

lemma redis_emit_typed:
  assumes "redis_emit io secs limit s = (Inr info, events)" "widths_ok s" "max limit 1 < 2 ^ 64"
  shows "stream_typed limit info events"
proof -
  let ?rows = "take (max limit 1) (snd s)"
  have e: "events = redis_events (fst s) ?rows" "cp_row_count info = of_nat (length ?rows)"
    "cp_truncated info = (max limit 1 \<le> length (snd s))"
    using assms(1) by (auto simp: redis_emit_def Let_def split: flush_end.splits)
  have rows: "concat (map event_rows (map Rows (batches batch_size ?rows))) = ?rows"
    using concat_batches [of batch_size ?rows] by (simp add: comp_def batch_size_def)
  have "list_all (\<lambda>r. length r = length (fst s)) (concat (batches batch_size ?rows))"
    using assms(2) by (auto simp: concat_batches batch_size_def widths_ok_def list_all_iff dest: in_set_takeD)
  then have "list_all (batch_ok (length (fst s))) (map Rows (batches batch_size ?rows))"
    using batches_bounded [of batch_size ?rows] by (auto simp: list_all_iff)
  moreover have "unat (cp_row_count info) = length ?rows"
    using assms(3) by (simp add: e(2) unat_of_nat take_bit_nat_eq_self)
  moreover have "\<not> cp_truncated info \<Longrightarrow> length ?rows < max limit 1" "length ?rows \<le> max limit 1"
    by (auto simp: e(3) min_def max_def)
  ultimately show ?thesis using rows by (simp add: e(1) redis_events_def del: length_take map_map)
qed

text \<open>
  C37. A request that completes has sent a well-formed stream within the row limit, and a
  stream not marked as cut off holds fewer rows than the limit.
\<close>

theorem redis_stream_typed:
  assumes "run_redis_inner env ok io c db command pipeline atomic limit secs st cache = (Inr info, events, cache', sent)"
    and "max limit 1 < 2 ^ 64"
  shows "stream_typed limit info events"
proof (rule run_redis_inner_cases [OF assms(1)])
  fix conn pw s
  assume "(Inr info, events) = redis_emit io secs limit s"
    and "(case command of Some x \<Rightarrow> run_single io secs (dc_read_only conn) c x cache = (Inr s, cache', sent)
        | None \<Rightarrow> \<exists>p. pipeline = Some p \<and> run_pipeline io secs (dc_read_only conn) c atomic p cache = (Inr s, cache', sent))"
  moreover from this(2) have "widths_ok s"
    by (auto split: option.splits dest: run_single_width run_pipeline_width)
  ultimately show ?thesis using redis_emit_typed [of io secs limit s info events] assms(2) by simp
qed simp_all

text \<open>The terminal event is the last one, and there is one exactly when somebody listens.\<close>

lemma run_stream_redis_terminal:
  assumes "run_stream_redis env ok io jt cio now e listening c db command pipeline atomic limit secs st cache stats =
    (outcome, events, cache', sent, stats')"
  shows "\<exists>es. events = es @ (if listening then [terminal_event e outcome] else []) \<and>
    run_redis_inner env ok io c db command pipeline atomic limit secs st cache = (outcome, es, cache', sent)"
  using assms by (auto simp: run_stream_redis_def Let_def split: prod.splits)

section \<open>Limits of the command tables\<close>

text \<open>
  Without access lists a command that the tables do not name is a read: \<open>ZUNIONSTORE\<close>,
  \<open>BITFIELD\<close>, \<open>FCALL\<close> and \<open>XCLAIM\<close> write on a read-only connection.
\<close>

lemma unlisted_writes_are_reads:
  "list_all (\<lambda>n. classify_static n = ClassRead) [''ZUNIONSTORE'', ''BITFIELD'', ''FCALL'', ''XCLAIM'', ''GETEX'']"
  by code_simp

text \<open>A failed fetch is cached: later requests do not ask again, even when the lists could be had.\<close>

lemma failed_fetch_sticks:
  "snd (redis_classify None d c ''GETEX'' Map.empty) c = Some None \<and>
   fst (redis_classify (Some [''getex'']) (Some []) c ''GETEX'' (snd (redis_classify None d c ''GETEX'' Map.empty))) = ClassRead"
proof -
  have s: "classify_static ''GETEX'' = ClassRead" by code_simp
  show ?thesis by (simp add: redis_classify_def s fetch_acl_classes_def class_in_def)
qed

section \<open>Examples\<close>

definition redis_conn :: db_connection where
  "redis_conn = sample_conn\<lparr>dc_db_type := ''redis'', dc_read_only := True\<rparr>"

definition redis_store :: auto_store where
  "redis_store = (demo_store [])\<lparr>as_connections := [redis_conn]\<rparr>"

definition demo_redis_io :: redis_io where
  "demo_redis_io =
     \<lparr>ri_float = (\<lambda>_. None), ri_open = (\<lambda>_ _ _. Answered ()), ri_acl_write = Some [''set'', ''getex''], ri_acl_dangerous = Some [''keys''],
      ri_command = (\<lambda>_. Answered (Array [Bulk ''f'', Bulk ''1'', Bulk ''g'', Bulk ''x''])), ri_pipeline = (\<lambda>_ _. Answered []),
      ri_flush = Flushed\<rparr>"

definition demo_redis :: "string list \<Rightarrow> (stream_query_error + complete_info) \<times> stream_event list \<times> acl_cache \<times> string list list" where
  "demo_redis command = run_redis_inner agent_env True demo_redis_io ''c'' None (Some command) None False 10 30 redis_store Map.empty"

lemma demo_redis_load:
  obtains pw where "meta_load_connection agent_env True ''c'' redis_store = Inr (redis_conn, pw)"
proof -
  have "(case meta_load_connection agent_env True ''c'' redis_store of Inr (c, pw) \<Rightarrow> c = redis_conn | Inl e \<Rightarrow> False)"
    by code_simp
  then show thesis using that by (auto split: sum.splits)
qed

definition hgetall_outcome :: "stream_query_error + complete_info" where
  "hgetall_outcome = Inr \<lparr>cp_row_count = 2, cp_truncated = False, cp_affected_rows = None\<rparr>"

definition hgetall_events :: "stream_event list" where
  "hgetall_events = [Meta [''field'', ''value''] None, Rows [[JStr ''f'', JNum 1], [JStr ''g'', JStr ''x'']]]"

lemma demo_redis_runs:
  obtains cache' where "demo_redis [''HGETALL'', ''h''] = (hgetall_outcome, hgetall_events, cache', [[''HGETALL'', ''h'']])"
proof -
  obtain pw where l: "meta_load_connection agent_env True ''c'' redis_store = Inr (redis_conn, pw)" by (rule demo_redis_load)
  have t: "map to_ascii_lower (dc_db_type redis_conn) = ''redis''" "dc_read_only redis_conn" by code_simp+
  have g: "classify_static ''HGETALL'' = ClassRead" by code_simp
  have s: "semantic_rows (\<lambda>_. None) ''HGETALL'' [''h''] (Array [Bulk ''f'', Bulk ''1'', Bulk ''g'', Bulk ''x'']) =
      Some ([''field'', ''value''], [[JStr ''f'', JNum 1], [JStr ''g'', JStr ''x'']])"
    by code_simp
  have acl: "ascii_upper ''HGETALL'' \<notin> set (map ascii_upper [''set'', ''getex''])" "ascii_upper ''HGETALL'' \<notin> set (map ascii_upper [''keys''])"
    by code_simp+
  have b: "batches 500 [r1, r2] = [[r1, r2]]" for r1 r2 :: "json list"
    by (simp add: batches.simps)
  show thesis
    using that l t g s acl
    by (simp add: demo_redis_def run_redis_inner_def demo_redis_io_def awaited_result_def run_single_def guard_if_def
        redis_classify_def fetch_acl_classes_def class_in_def Let_def redis_emit_def redis_events_def batch_size_def b
        hgetall_outcome_def hgetall_events_def)
qed

theorem redis_read_only_enforced_witness:
  "[''HGETALL'', ''h''] \<noteq> [] \<and> ascii_upper (hd [''HGETALL'', ''h'']) \<notin> set write_commands \<and>
    ascii_upper (hd [''HGETALL'', ''h'']) \<notin> set dangerous_commands \<and>
    \<not> acl_says_write (effective_classes demo_redis_io ''c'' Map.empty) (hd [''HGETALL'', ''h''])"
proof -
  obtain pw where l: "meta_load_connection agent_env True ''c'' redis_store = Inr (redis_conn, pw)" by (rule demo_redis_load)
  obtain cache' where r: "demo_redis [''HGETALL'', ''h''] = (hgetall_outcome, hgetall_events, cache', [[''HGETALL'', ''h'']])"
    by (rule demo_redis_runs)
  show ?thesis
    by (rule redis_read_only_enforced [OF r [unfolded demo_redis_def] l]) (simp_all add: redis_conn_def)
qed

theorem redis_stream_typed_witness:
  "stream_typed 10 \<lparr>cp_row_count = 2, cp_truncated = False, cp_affected_rows = None\<rparr> hgetall_events"
proof -
  obtain cache' where r: "demo_redis [''HGETALL'', ''h''] = (hgetall_outcome, hgetall_events, cache', [[''HGETALL'', ''h'']])"
    by (rule demo_redis_runs)
  show ?thesis
    by (rule redis_stream_typed [OF r [unfolded demo_redis_def hgetall_outcome_def]]) simp
qed

end
