(* ===== verification/Mysql_Family.thy ===== *)
theory Mysql_Family
  imports Text_Case
begin

text \<open>
  The members of the MySQL protocol family, \<open>crates/automation/src/mysql_family.rs\<close>: the
  registry, the hooks with their overrides, the two modes of execution, and string literals
  for the text protocol. A profile is the value of its struct; a hook is a function of it. The
  connection options are a record of what the hooks and their callers set.
\<close>

section \<open>Profiles and hooks\<close>

datatype catalog_query_mode = Prepare | RawSql

datatype mysql_profile =
    MysqlProfile | DorisProfile | OceanbaseProfile | TidbProfile | StarrocksProfile | MariadbProfile

fun profile_name :: "mysql_profile \<Rightarrow> string" where
  "profile_name MysqlProfile = ''mysql''"
| "profile_name DorisProfile = ''doris''"
| "profile_name OceanbaseProfile = ''oceanbase''"
| "profile_name TidbProfile = ''tidb''"
| "profile_name StarrocksProfile = ''starrocks''"
| "profile_name MariadbProfile = ''mariadb''"

record mysql_options =
  mo_host :: string
  mo_port :: nat
  mo_username :: string
  mo_password :: "string option"
  mo_database :: "string option"
  mo_pipes_as_concat :: bool
  mo_no_engine_substitution :: bool

fun handshake :: "mysql_profile \<Rightarrow> mysql_options \<Rightarrow> mysql_options" where
  "handshake DorisProfile opts = opts\<lparr>mo_pipes_as_concat := False, mo_no_engine_substitution := False\<rparr>"
| "handshake StarrocksProfile opts = opts\<lparr>mo_pipes_as_concat := False, mo_no_engine_substitution := False\<rparr>"
| "handshake _ opts = opts"

definition non_empty :: "string option \<Rightarrow> string option" where
  "non_empty s = (case s of Some [] \<Rightarrow> None | _ \<Rightarrow> s)"

definition set_names :: "string \<Rightarrow> string" where
  "set_names cs = ''SET NAMES '' @ [CHR 0x27] @ replace_char (CHR 0x27) [CHR 0x5C, CHR 0x27] cs @ [CHR 0x27]"

definition set_time_zone :: "string \<Rightarrow> string" where
  "set_time_zone tz = ''SET time_zone = '' @ [CHR 0x27] @ replace_char (CHR 0x27) [CHR 0x5C, CHR 0x27] tz @ [CHR 0x27]"

definition opt_list :: "'a option \<Rightarrow> 'a list" where
  "opt_list x = (case x of Some v \<Rightarrow> [v] | None \<Rightarrow> [])"

fun session_statements :: "mysql_profile \<Rightarrow> string option \<Rightarrow> string option \<Rightarrow> string list" where
  "session_statements DorisProfile charset timezone = opt_list (map_option set_names (non_empty charset))"
| "session_statements _ charset timezone =
     opt_list (map_option set_names (non_empty charset)) @ opt_list (map_option set_time_zone (non_empty timezone))"

fun catalog_mode :: "mysql_profile \<Rightarrow> catalog_query_mode" where
  "catalog_mode DorisProfile = RawSql"
| "catalog_mode StarrocksProfile = RawSql"
| "catalog_mode _ = Prepare"

fun system_databases :: "mysql_profile \<Rightarrow> string list" where
  "system_databases OceanbaseProfile =
     [''information_schema'', ''performance_schema'', ''oceanbase'', ''SYS'', ''LBACSYS'', ''ORAAUDITOR'', ''ocs'', ''sys_external_tbs'']"
| "system_databases TidbProfile =
     [''information_schema'', ''performance_schema'', ''INFORMATION_SCHEMA'', ''PERFORMANCE_SCHEMA'', ''METRICS_SCHEMA'']"
| "system_databases StarrocksProfile = [''information_schema'', ''performance_schema'', ''sys'', ''_statistics_'']"
| "system_databases _ = [''information_schema'', ''performance_schema'']"

fun supports_transactions :: "mysql_profile \<Rightarrow> bool" where
  "supports_transactions StarrocksProfile = False"
| "supports_transactions _ = True"

text \<open>No member overrides the two hooks below.\<close>

definition row_estimate_expr :: "mysql_profile \<Rightarrow> string" where
  "row_estimate_expr p = ''table_rows''"

definition supports_kill_query :: "mysql_profile \<Rightarrow> bool" where
  "supports_kill_query p = True"

definition double_chars :: "char set \<Rightarrow> string \<Rightarrow> string" where
  "double_chars q s = concat (map (\<lambda>c. if c \<in> q then [c, c] else [c]) s)"

text \<open>Two replacements, one after the other.\<close>

definition mysql_str_literal :: "string \<Rightarrow> string" where
  "mysql_str_literal s =
     [CHR 0x27] @ replace_char (CHR 0x27) [CHR 0x27, CHR 0x27] (replace_char (CHR 0x5C) [CHR 0x5C, CHR 0x5C] s) @ [CHR 0x27]"

definition schema_condition :: "mysql_profile \<Rightarrow> string \<Rightarrow> string" where
  "schema_condition p db =
     (case catalog_mode p of Prepare \<Rightarrow> ''table_schema = DATABASE()'' | RawSql \<Rightarrow> ''table_schema = '' @ mysql_str_literal db)"

definition table_condition :: "mysql_profile \<Rightarrow> string \<Rightarrow> string" where
  "table_condition p table =
     (case catalog_mode p of Prepare \<Rightarrow> ''table_name = ?'' | RawSql \<Rightarrow> ''table_name = '' @ mysql_str_literal table)"

definition mysql_family_for :: "string \<Rightarrow> mysql_profile option" where
  "mysql_family_for db_type =
     (let t = map to_ascii_lower db_type in
      if t = ''mysql'' then Some MysqlProfile
      else if t = ''doris'' then Some DorisProfile
      else if t = ''oceanbase'' then Some OceanbaseProfile
      else if t = ''tidb'' then Some TidbProfile
      else if t = ''starrocks'' then Some StarrocksProfile
      else if t = ''mariadb'' then Some MariadbProfile
      else None)"

definition mysql_profile_for :: "string \<Rightarrow> mysql_profile" where
  "mysql_profile_for db_type = (case mysql_family_for db_type of Some p \<Rightarrow> p | None \<Rightarrow> MysqlProfile)"

section \<open>Execution by mode\<close>

text \<open>How a statement reaches the server, and the answer: an error has the engine's number, if any.\<close>

datatype sent = Prepared string "string option" | Text string

type_synonym 'a engine_answer = "(nat option \<times> string) + 'a"

definition fetch_all_by_mode :: "(sent \<Rightarrow> 'a engine_answer) \<Rightarrow> catalog_query_mode \<Rightarrow> string \<Rightarrow> string option \<Rightarrow> 'a engine_answer \<times> sent list" where
  "fetch_all_by_mode answer mode sql bind =
     (case mode of
        RawSql \<Rightarrow> (answer (Text sql), [Text sql])
      | Prepare \<Rightarrow> (answer (Prepared sql bind), [Prepared sql bind]))"

definition is_mysql_1295 :: "nat option \<times> string \<Rightarrow> bool" where
  "is_mysql_1295 e = (fst e = Some 1295)"

definition execute_by_mode :: "(sent \<Rightarrow> 'a engine_answer) \<Rightarrow> catalog_query_mode \<Rightarrow> string \<Rightarrow> 'a engine_answer \<times> sent list" where
  "execute_by_mode answer mode sql =
     (case mode of
        RawSql \<Rightarrow> (answer (Text sql), [Text sql])
      | Prepare \<Rightarrow>
          (case answer (Prepared sql None) of
             Inr r \<Rightarrow> (Inr r, [Prepared sql None])
           | Inl e \<Rightarrow>
               if is_mysql_1295 e then (answer (Text sql), [Prepared sql None, Text sql])
               else (Inl e, [Prepared sql None])))"

text \<open>\<open>apply_mysql_session\<close>: failures are logged and do not matter.\<close>

definition apply_mysql_session :: "(sent \<Rightarrow> 'a engine_answer) \<Rightarrow> string option \<Rightarrow> string option \<Rightarrow> string \<Rightarrow> sent list" where
  "apply_mysql_session answer charset timezone db_type =
     (let p = mysql_profile_for db_type in
      concat (map (\<lambda>sql. snd (execute_by_mode answer (catalog_mode p) sql)) (session_statements p charset timezone)))"

section \<open>The registry\<close>

lemma to_ascii_lower_idem [simp]: "to_ascii_lower (to_ascii_lower c) = to_ascii_lower c"
proof -
  have "ccode (char_of (ccode c + 32)) = ccode c + 32" if "is_ascii_upper c"
    using that by (simp add: ccode_def is_ascii_upper_def take_bit_eq_mod)
  then show ?thesis by (auto simp: to_ascii_lower_def is_ascii_upper_def)
qed

lemma mysql_family_for_name [simp]: "mysql_family_for (profile_name p) = Some p"
proof -
  have "list_all (\<lambda>p. mysql_family_for (profile_name p) = Some p)
      [MysqlProfile, DorisProfile, OceanbaseProfile, TidbProfile, StarrocksProfile, MariadbProfile]"
    by code_simp
  then show ?thesis by (cases p) simp_all
qed

lemma mysql_family_for_case: "mysql_family_for (map to_ascii_lower t) = mysql_family_for t"
  by (simp add: mysql_family_for_def comp_def)

lemma mysql_family_for_Some: "mysql_family_for t = Some p \<Longrightarrow> map to_ascii_lower t = profile_name p"
  by (auto simp: mysql_family_for_def Let_def split: if_splits)

section \<open>Literals\<close>

text \<open>
  How a server of the family reads a literal after its opening quote: a backslash takes the
  next character as it is (of the named escapes none occurs here), two quotes are one, a single
  quote ends. The result is the text and what follows.
\<close>

fun read_literal :: "string \<Rightarrow> (string \<times> string) option" where
  "read_literal [] = None"
| "read_literal (c # cs) =
     (if c = CHR 0x5C then
        (case cs of [] \<Rightarrow> None | d # ds \<Rightarrow> map_option (\<lambda>(a, r). (d # a, r)) (read_literal ds))
      else if c = CHR 0x27 then
        (case cs of
           d # ds \<Rightarrow> if d = CHR 0x27 then map_option (\<lambda>(a, r). (CHR 0x27 # a, r)) (read_literal ds) else Some ([], cs)
         | [] \<Rightarrow> Some ([], []))
      else map_option (\<lambda>(a, r). (c # a, r)) (read_literal cs))"

lemma mysql_str_literal_alt:
  "mysql_str_literal s = [CHR 0x27] @ double_chars {CHR 0x27, CHR 0x5C} s @ [CHR 0x27]"
proof -
  have "replace_char (CHR 0x27) [CHR 0x27, CHR 0x27] (replace_char (CHR 0x5C) [CHR 0x5C, CHR 0x5C] s) =
      double_chars {CHR 0x27, CHR 0x5C} s"
    by (induction s) (simp_all add: replace_char_def double_chars_def)
  then show ?thesis by (simp add: mysql_str_literal_def)
qed

text \<open>
  A literal built for the text protocol reads back as the text it was built from, whatever
  the text, and the statement goes on right after it.
\<close>

theorem mysql_literal_reads_back:
  assumes "r = [] \<or> hd r \<noteq> CHR 0x27"
  shows "read_literal (tl (mysql_str_literal s @ r)) = Some (s, r)"
proof -
  have "read_literal (double_chars {CHR 0x27, CHR 0x5C} s @ CHR 0x27 # r) = Some (s, r)"
  proof (induction s)
    case Nil
    then show ?case using assms by (cases r) (simp_all add: double_chars_def)
  next
    case (Cons c s)
    then show ?case by (simp add: double_chars_def)
  qed
  then show ?thesis by (simp add: mysql_str_literal_alt)
qed

theorem mysql_literal_reads_back_witness:
  "read_literal (tl (mysql_str_literal (''o'' @ [CHR 0x27, CHR 0x5C] @ ''x'') @ '' AND 1'')) = Some (''o'' @ [CHR 0x27, CHR 0x5C] @ ''x'', '' AND 1'')"
  by (rule mysql_literal_reads_back) simp

text \<open>
  The session statements escape quotes with a backslash and leave backslashes alone: a charset
  that holds a backslash before a quote ends its literal early.
\<close>

lemma set_names_ends_early:
  "read_literal (drop 11 (set_names ([CHR 0x5C, CHR 0x27] @ '', x''))) = Some ([CHR 0x5C], '', x'' @ [CHR 0x27])"
  by (simp add: set_names_def replace_char_def)

text \<open>A statement is sent a second time only after an answer that it was not executed.\<close>

lemma execute_by_mode_sends:
  "snd (execute_by_mode answer mode sql) \<in> {[Text sql], [Prepared sql None]} \<or>
   (snd (execute_by_mode answer mode sql) = [Prepared sql None, Text sql] \<and>
     (\<exists>m. answer (Prepared sql None) = Inl (Some 1295, m)))"
  by (auto simp: execute_by_mode_def is_mysql_1295_def split: catalog_query_mode.splits sum.splits)

end
