(* ===== verification/Txn_Sessions.thy ===== *)
theory Txn_Sessions
  imports Mysql_Family Redaction Mcp_Tools
begin

text \<open>
  The transaction sessions of \<open>crates/automation/src/txn.rs\<close> and their four endpoints in
  \<open>db_handler.rs\<close>. A session owns a pool of one connection; what is sent on each physical
  connection is kept as a log, so that the properties can speak of it. The store is a list of
  sessions by id, the order being that of the map's iteration.

  An operation holds the guard of its entry, or has removed the entry, while it talks to the
  database, so operations on one session do not overlap; the sweep is cut between its scan and
  each of its removals, where other requests come in between. The drivers are the fields of
  \<open>txn_env\<close>.
\<close>

section \<open>State and environment\<close>

datatype pool_kind = PinnedMySql mysql_profile | PinnedPg | PinnedSqlite

fun pool_db_type :: "pool_kind \<Rightarrow> string" where
  "pool_db_type (PinnedMySql p) = profile_name p"
| "pool_db_type PinnedPg = ''postgres''"
| "pool_db_type PinnedSqlite = ''sqlite''"

datatype txn_stmt =
    Setup sent
  | Control string
  | User string
  | Probe

record txn_session =
  ts_kind :: pool_kind
  ts_conn :: nat
  ts_created_at :: nat
  ts_last_used :: nat

record txn_world =
  tw_sessions :: "(string \<times> txn_session) list"
  tw_log :: "nat \<Rightarrow> txn_stmt list"
  tw_next :: nat

record conn_params =
  tp_db_type :: string
  tp_host :: string
  tp_port :: nat
  tp_username :: string
  tp_password :: string
  tp_database :: "string option"
  tp_charset :: "string option"
  tp_timezone :: "string option"
  tp_file_path :: "string option"

record pg_options =
  po_host :: string
  po_port :: nat
  po_username :: string
  po_password :: string
  po_database :: string

record txn_env =
  te_open_mysql :: "mysql_options \<Rightarrow> string option"
  te_open_pg :: "pg_options \<Rightarrow> string option"
  te_open_sqlite :: "string \<Rightarrow> string option"
  te_set :: "sent \<Rightarrow> unit engine_answer"
  te_control :: "nat \<Rightarrow> string \<Rightarrow> string option"
  te_answer :: "nat \<Rightarrow> string \<Rightarrow> nat \<Rightarrow> bool \<Rightarrow> json + json"
  te_thread_id :: "nat \<Rightarrow> int option"

definition find_session :: "string \<Rightarrow> txn_world \<Rightarrow> txn_session option" where
  "find_session i w = map_of (tw_sessions w) i"

definition log_stmts :: "nat \<Rightarrow> txn_stmt list \<Rightarrow> txn_world \<Rightarrow> txn_world" where
  "log_stmts c ss w = w\<lparr>tw_log := (tw_log w)(c := tw_log w c @ ss)\<rparr>"

definition remove_session :: "string \<Rightarrow> txn_world \<Rightarrow> txn_world" where
  "remove_session i w = w\<lparr>tw_sessions := filter (\<lambda>s. fst s \<noteq> i) (tw_sessions w)\<rparr>"

section \<open>Opening\<close>

definition mysql_default_options :: "string \<Rightarrow> nat \<Rightarrow> mysql_options" where
  "mysql_default_options host port =
     \<lparr>mo_host = host, mo_port = port, mo_username = ''root'', mo_password = None, mo_database = None,
      mo_pipes_as_concat = True, mo_no_engine_substitution = True\<rparr>"

text \<open>The options of a pinned MySQL pool: the password is set, and set again unless it is empty.\<close>

definition mysql_pinned_options :: "conn_params \<Rightarrow> mysql_profile \<Rightarrow> mysql_options" where
  "mysql_pinned_options p profile =
     (let opts = (mysql_default_options (tp_host p) (tp_port p))\<lparr>mo_username := tp_username p, mo_password := Some (tp_password p)\<rparr>;
          opts = (case tp_database p of Some db \<Rightarrow> if db \<noteq> [] then opts\<lparr>mo_database := Some db\<rparr> else opts | None \<Rightarrow> opts);
          opts = (if tp_password p = [] then opts else opts\<lparr>mo_password := Some (tp_password p)\<rparr>)
      in handshake profile opts)"

definition open_mysql_pinned :: "txn_env \<Rightarrow> conn_params \<Rightarrow> mysql_profile \<Rightarrow> string + sent list" where
  "open_mysql_pinned env p profile =
     (case te_open_mysql env (mysql_pinned_options p profile) of
        Some e \<Rightarrow> Inl (db_redact (''mysql connect: '' @ e))
      | None \<Rightarrow> Inr (apply_mysql_session (te_set env) (tp_charset p) (tp_timezone p) (tp_db_type p)))"

definition open_pg_pinned :: "txn_env \<Rightarrow> conn_params \<Rightarrow> string + sent list" where
  "open_pg_pinned env p =
     (case te_open_pg env \<lparr>po_host = tp_host p, po_port = tp_port p, po_username = tp_username p, po_password = tp_password p,
          po_database = (case tp_database p of Some d \<Rightarrow> d | None \<Rightarrow> ''postgres'')\<rparr> of
        Some e \<Rightarrow> Inl (db_redact (''pg connect: '' @ e))
      | None \<Rightarrow> Inr [])"

definition open_sqlite_pinned :: "txn_env \<Rightarrow> conn_params \<Rightarrow> string + sent list" where
  "open_sqlite_pinned env p =
     (case tp_file_path p of
        None \<Rightarrow> Inl ''sqlite transaction missing file_path''
      | Some path \<Rightarrow>
          (case te_open_sqlite env path of
             Some e \<Rightarrow> Inl (db_redact (''sqlite connect: '' @ e))
           | None \<Rightarrow> Inr []))"

definition open_pinned_pool :: "txn_env \<Rightarrow> conn_params \<Rightarrow> string + pool_kind \<times> sent list" where
  "open_pinned_pool env p =
     (case mysql_family_for (tp_db_type p) of
        Some profile \<Rightarrow>
          if \<not> supports_transactions profile
          then Inl (''transactions unsupported for db_type '' @ quoted_name (tp_db_type p))
          else and_then (open_mysql_pinned env p profile) (\<lambda>s. Inr (PinnedMySql profile, s))
      | None \<Rightarrow>
          if tp_db_type p = ''postgres'' \<or> tp_db_type p = ''postgresql'' then
            and_then (open_pg_pinned env p) (\<lambda>s. Inr (PinnedPg, s))
          else if tp_db_type p = ''sqlite'' then and_then (open_sqlite_pinned env p) (\<lambda>s. Inr (PinnedSqlite, s))
          else Inl (''transactions unsupported for db_type '' @ quoted_name (tp_db_type p)))"

definition begin_sql_for :: "string \<Rightarrow> string" where
  "begin_sql_for db_type =
     (if mysql_family_for db_type \<noteq> None then ''START TRANSACTION''
      else if db_type = ''postgres'' \<or> db_type = ''postgresql'' then ''BEGIN''
      else if db_type = ''sqlite'' then ''BEGIN TRANSACTION''
      else ''/* unsupported: '' @ db_type @ '' */ START TRANSACTION'')"

section \<open>Operations of the store\<close>

definition txn_begin_session :: "txn_env \<Rightarrow> nat \<Rightarrow> string \<Rightarrow> conn_params \<Rightarrow> txn_world \<Rightarrow> (string + string) \<times> txn_world" where
  "txn_begin_session env now uuid params w =
     (case open_pinned_pool env params of
        Inl e \<Rightarrow> (Inl e, w)
      | Inr (kind, sents) \<Rightarrow>
          (let c = tw_next w; sql = begin_sql_for (pool_db_type kind);
               w1 = log_stmts c (map Setup sents @ [Control sql]) (w\<lparr>tw_next := Suc c\<rparr>) in
           case te_control env c sql of
             Some e \<Rightarrow> (Inl (db_redact (''begin failed: '' @ e)), w1)
           | None \<Rightarrow>
               (Inr uuid,
                w1\<lparr>tw_sessions := tw_sessions w1 @
                  [(uuid, \<lparr>ts_kind = kind, ts_conn = c, ts_created_at = now, ts_last_used = now\<rparr>)]\<rparr>)))"

text \<open>The message of an error envelope, redacted again.\<close>

definition axum_err_to_string :: "json \<Rightarrow> string" where
  "axum_err_to_string body =
     db_redact (case Option.bind (Option.bind (json_get ''error'' body) (json_get ''message'')) json_as_str of
       Some m \<Rightarrow> m | None \<Rightarrow> ''query execution failed'')"

fun json_insert :: "string \<Rightarrow> json \<Rightarrow> json \<Rightarrow> json" where
  "json_insert k v (JObj kvs) = JObj (if k \<in> fst ` set kvs then map (\<lambda>(a, b). if a = k then (a, v) else (a, b)) kvs else kvs @ [(k, v)])"
| "json_insert k v j = j"

definition touch_session :: "nat \<Rightarrow> string \<Rightarrow> txn_world \<Rightarrow> txn_world" where
  "touch_session now i w =
     w\<lparr>tw_sessions := map (\<lambda>(k, s). (k, if k = i then s\<lparr>ts_last_used := now\<rparr> else s)) (tw_sessions w)\<rparr>"

definition session_missing :: string where
  "session_missing = ''transaction session not found (expired or rolled back)''"

definition execute_in_txn ::
  "txn_env \<Rightarrow> nat \<Rightarrow> string \<Rightarrow> string \<Rightarrow> nat \<Rightarrow> bool \<Rightarrow> txn_world \<Rightarrow> (string + json) \<times> txn_world" where
  "execute_in_txn env now i sql limit is_select w =
     (case find_session i w of
        None \<Rightarrow> (Inl session_missing, w)
      | Some s \<Rightarrow>
          (let c = ts_conn s in
           case te_answer env c sql limit is_select of
             Inl body \<Rightarrow> (Inl (axum_err_to_string body), log_stmts c [User sql] w)
           | Inr result \<Rightarrow>
               (case ts_kind s of
                  PinnedMySql p \<Rightarrow>
                    (Inr (case te_thread_id env c of Some tid \<Rightarrow> json_insert ''threadId'' (JNum tid) result | None \<Rightarrow> result),
                     touch_session now i (log_stmts c [User sql, Probe] w))
                | _ \<Rightarrow> (Inr result, touch_session now i (log_stmts c [User sql] w)))))"

definition finish_session :: "txn_env \<Rightarrow> string \<Rightarrow> string \<Rightarrow> txn_world \<Rightarrow> (string + unit) \<times> txn_world" where
  "finish_session env i sql w =
     (case find_session i w of
        None \<Rightarrow> (Inl ''transaction session not found'', w)
      | Some s \<Rightarrow> (Inr (), log_stmts (ts_conn s) [Control sql] (remove_session i w)))"

definition txn_commit_session :: "txn_env \<Rightarrow> string \<Rightarrow> txn_world \<Rightarrow> (string + unit) \<times> txn_world" where
  "txn_commit_session env i w = finish_session env i ''COMMIT'' w"

definition txn_rollback_session :: "txn_env \<Rightarrow> string \<Rightarrow> txn_world \<Rightarrow> (string + unit) \<times> txn_world" where
  "txn_rollback_session env i w = finish_session env i ''ROLLBACK'' w"

text \<open>The sweep: the sessions idle for longer than the limit, then each of them if it still is.\<close>

definition idle_for :: "nat \<Rightarrow> nat \<Rightarrow> txn_session \<Rightarrow> bool" where
  "idle_for now ttl s = (ttl < now - ts_last_used s)"

definition sweep_scan :: "nat \<Rightarrow> nat \<Rightarrow> txn_world \<Rightarrow> string list" where
  "sweep_scan now ttl w = map fst (filter (\<lambda>(i, s). idle_for now ttl s) (tw_sessions w))"

definition reclaim_session :: "nat \<Rightarrow> nat \<Rightarrow> string \<Rightarrow> txn_world \<Rightarrow> nat \<times> txn_world" where
  "reclaim_session now ttl i w =
     (case find_session i w of
        Some s \<Rightarrow>
          if idle_for now ttl s then (1, log_stmts (ts_conn s) [Control ''ROLLBACK''] (remove_session i w)) else (0, w)
      | None \<Rightarrow> (0, w))"

definition cleanup_expired :: "nat \<Rightarrow> nat \<Rightarrow> txn_world \<Rightarrow> nat \<times> txn_world" where
  "cleanup_expired now ttl w =
     fold (\<lambda>i (n, w). let (k, w') = reclaim_session now ttl i w in (n + k, w')) (sweep_scan now ttl w) (0, w)"

section \<open>Endpoints\<close>

datatype 'a answer = OkBody 'a | ErrBody string string nat

definition select_keywords :: "string list" where
  "select_keywords = [''SELECT'', ''WITH'', ''SHOW'', ''DESCRIBE'', ''EXPLAIN'', ''PRAGMA'']"

definition is_select_statement :: "string \<Rightarrow> bool" where
  "is_select_statement sql = list_ex (\<lambda>k. starts_with k (to_uppercase (trim_start sql))) select_keywords"

definition query_limit :: "int option \<Rightarrow> nat" where
  "query_limit limit = nat (max (min (case limit of Some n \<Rightarrow> n | None \<Rightarrow> 10000) 100000) 1)"

definition load_and_decrypt :: "crypto \<Rightarrow> nat list \<Rightarrow> string option \<Rightarrow> string \<Rightarrow> auto_store \<Rightarrow> (string \<times> string \<times> nat) + db_connection \<times> string" where
  "load_and_decrypt cr key db_failure conn_id st =
     (case db_failure of
        Some e \<Rightarrow> Inl (''DB_ERROR'', e, 500)
      | None \<Rightarrow>
          (case find_conn conn_id (as_connections st) of
             None \<Rightarrow> Inl (''CONNECTION_NOT_FOUND'', ''connection '' @ conn_id @ '' not found'', 404)
           | Some conn \<Rightarrow>
               (case decrypt_password cr key (dc_password_encrypted conn) of
                  Inl e \<Rightarrow> Inl (''DECRYPT_FAILED'', cred_error_str e, 500)
                | Inr password \<Rightarrow> Inr (conn, password))))"

definition txn_params :: "db_connection \<Rightarrow> string \<Rightarrow> string option \<Rightarrow> conn_params" where
  "txn_params conn password db =
     \<lparr>tp_db_type = dc_db_type conn, tp_host = dc_host conn, tp_port = nat (dc_port conn mod 65536), tp_username = dc_username conn,
      tp_password = password, tp_database = or_else db (dc_default_database conn), tp_charset = dc_charset conn,
      tp_timezone = dc_timezone conn, tp_file_path = dc_file_path conn\<rparr>"

definition txn_begin ::
  "txn_env \<Rightarrow> crypto \<Rightarrow> nat list \<Rightarrow> string option \<Rightarrow> nat \<Rightarrow> string \<Rightarrow> string \<Rightarrow> string option \<Rightarrow> auto_store \<Rightarrow> txn_world \<Rightarrow>
   string answer \<times> txn_world" where
  "txn_begin env cr key db_failure now uuid conn_id db st w =
     (case load_and_decrypt cr key db_failure conn_id st of
        Inl (code, message, status) \<Rightarrow> (ErrBody code message status, w)
      | Inr (conn, password) \<Rightarrow>
          if dc_db_type conn = ''clickhouse'' then (ErrBody ''UNSUPPORTED_TXN'' ''ClickHouse does not support transactions'' 400, w)
          else case txn_begin_session env now uuid (txn_params conn password db) w of
            (Inl e, w') \<Rightarrow> (ErrBody ''TXN_BEGIN_FAILED'' (db_redact e) 503, w')
          | (Inr i, w') \<Rightarrow> (OkBody i, w'))"

definition txn_query ::
  "txn_env \<Rightarrow> nat \<Rightarrow> nat \<Rightarrow> string \<Rightarrow> string \<Rightarrow> int option \<Rightarrow> txn_world \<Rightarrow> json answer \<times> txn_world" where
  "txn_query env now elapsed i sql limit w =
     (case execute_in_txn env now i sql (query_limit limit) (is_select_statement sql) w of
        (Inl e, w') \<Rightarrow> (ErrBody ''TXN_QUERY_FAILED'' (db_redact e) 500, w')
      | (Inr r, w') \<Rightarrow> (OkBody (json_insert ''executionTimeMs'' (JNum (int elapsed)) r), w'))"

definition txn_commit :: "txn_env \<Rightarrow> string \<Rightarrow> txn_world \<Rightarrow> unit answer \<times> txn_world" where
  "txn_commit env i w =
     (case txn_commit_session env i w of
        (Inl e, w') \<Rightarrow> (ErrBody ''TXN_COMMIT_FAILED'' (db_redact e) 500, w')
      | (Inr _, w') \<Rightarrow> (OkBody (), w'))"

definition txn_rollback :: "txn_env \<Rightarrow> string \<Rightarrow> txn_world \<Rightarrow> unit answer \<times> txn_world" where
  "txn_rollback env i w =
     (case txn_rollback_session env i w of
        (Inl e, w') \<Rightarrow> (ErrBody ''TXN_ROLLBACK_FAILED'' (db_redact e) 500, w')
      | (Inr _, w') \<Rightarrow> (OkBody (), w'))"

section \<open>Runs of the store\<close>

text \<open>
  Requests and sweeps in any order, with any answers of the drivers; a sweep's removals are
  steps of their own, at the time of its scan. The id of a new session is a fresh UUID.
\<close>

inductive txn_step :: "txn_world \<Rightarrow> txn_world \<Rightarrow> bool" where
  begin_step: "uuid \<notin> fst ` set (tw_sessions w) \<Longrightarrow> txn_step w (snd (txn_begin_session env now uuid params w))"
| execute_step: "txn_step w (snd (execute_in_txn env now i sql limit is_select w))"
| commit_step: "txn_step w (snd (txn_commit_session env i w))"
| rollback_step: "txn_step w (snd (txn_rollback_session env i w))"
| reclaim_step: "txn_step w (snd (reclaim_session now ttl i w))"

definition txn_start :: txn_world where
  "txn_start = \<lparr>tw_sessions = [], tw_log = (\<lambda>_. []), tw_next = 0\<rparr>"

inductive txn_reachable :: "txn_world \<Rightarrow> bool" where
  reach_start: "txn_reachable txn_start"
| reach_step: "txn_reachable w \<Longrightarrow> txn_step w w' \<Longrightarrow> txn_reachable w'"

text \<open>What a connection may have been sent: while its transaction is open, and at any time.\<close>

definition in_txn :: "txn_stmt \<Rightarrow> bool" where
  "in_txn s = (case s of User _ \<Rightarrow> True | Probe \<Rightarrow> True | _ \<Rightarrow> False)"

fun open_log :: "txn_stmt list \<Rightarrow> bool" where
  "open_log (Setup s # xs) = open_log xs"
| "open_log (Control b # xs) = (b \<in> {''START TRANSACTION'', ''BEGIN'', ''BEGIN TRANSACTION''} \<and> list_all in_txn xs)"
| "open_log _ = False"

definition ended_log :: "txn_stmt list \<Rightarrow> bool" where
  "ended_log xs = (xs \<noteq> [] \<and> open_log (butlast xs) \<and> last xs \<in> {Control ''COMMIT'', Control ''ROLLBACK''})"

definition log_ok :: "txn_stmt list \<Rightarrow> bool" where
  "log_ok xs = (xs = [] \<or> open_log xs \<or> ended_log xs)"

lemma open_log_append:
  assumes "open_log xs"
  shows "open_log (xs @ ys) \<longleftrightarrow> list_all in_txn ys"
  using assms by (induction xs rule: open_log.induct) simp_all

lemma ended_log_snoc: "ended_log (xs @ [x]) \<longleftrightarrow> open_log xs \<and> x \<in> {Control ''COMMIT'', Control ''ROLLBACK''}"
  by (simp add: ended_log_def)

lemma open_log_setup: "open_log (map Setup ss @ xs) = open_log xs"
  by (induction ss) simp_all

lemma begin_sql_for_kind: "begin_sql_for (pool_db_type k) \<in> {''START TRANSACTION'', ''BEGIN'', ''BEGIN TRANSACTION''}"
proof (cases k)
  case PinnedPg
  have "mysql_family_for ''postgres'' = None" by code_simp
  then show ?thesis using PinnedPg by (simp add: begin_sql_for_def)
next
  case PinnedSqlite
  have "mysql_family_for ''sqlite'' = None" by code_simp
  then show ?thesis using PinnedSqlite by (simp add: begin_sql_for_def)
qed (simp add: begin_sql_for_def)

subsection \<open>The invariant\<close>

definition session_conns :: "txn_world \<Rightarrow> nat list" where
  "session_conns w = map (\<lambda>(i, s). ts_conn s) (tw_sessions w)"

definition txn_inv :: "txn_world \<Rightarrow> bool" where
  "txn_inv w \<longleftrightarrow>
     distinct (map fst (tw_sessions w)) \<and> distinct (session_conns w) \<and>
     (\<forall>c \<in> set (session_conns w). c < tw_next w \<and> open_log (tw_log w c)) \<and>
     (\<forall>c. log_ok (tw_log w c)) \<and> (\<forall>c. tw_next w \<le> c \<longrightarrow> tw_log w c = [])"

lemma txn_invI:
  assumes "distinct (map fst (tw_sessions w))" and "distinct (session_conns w)"
    and "\<And>c. c \<in> set (session_conns w) \<Longrightarrow> c < tw_next w \<and> open_log (tw_log w c)"
    and "\<And>c. log_ok (tw_log w c)" and "\<And>c. tw_next w \<le> c \<Longrightarrow> tw_log w c = []"
  shows "txn_inv w"
  using assms by (simp add: txn_inv_def)

lemma txn_invD:
  assumes "txn_inv w"
  shows "distinct (map fst (tw_sessions w))" and "distinct (session_conns w)"
    and "c \<in> set (session_conns w) \<Longrightarrow> c < tw_next w"
    and "c \<in> set (session_conns w) \<Longrightarrow> open_log (tw_log w c)"
    and "log_ok (tw_log w c)" and "tw_next w \<le> c \<Longrightarrow> tw_log w c = []"
  using assms by (simp_all add: txn_inv_def)

lemma txn_start_inv [simp]: "txn_inv txn_start"
  by (simp add: txn_inv_def txn_start_def session_conns_def log_ok_def)

lemma find_session_mem: "find_session i w = Some s \<Longrightarrow> (i, s) \<in> set (tw_sessions w)"
  by (simp add: find_session_def map_of_SomeD)

lemma find_session_conn: "find_session i w = Some s \<Longrightarrow> ts_conn s \<in> set (session_conns w)"
  using find_session_mem by (force simp: session_conns_def)

lemma log_stmts_simps [simp]:
  "tw_sessions (log_stmts c ss w) = tw_sessions w"
  "tw_next (log_stmts c ss w) = tw_next w"
  "tw_log (log_stmts c ss w) d = (if d = c then tw_log w c @ ss else tw_log w d)"
  "session_conns (log_stmts c ss w) = session_conns w"
  by (simp_all add: log_stmts_def session_conns_def)

lemma touch_session_simps [simp]:
  "map fst (tw_sessions (touch_session now i w)) = map fst (tw_sessions w)"
  "session_conns (touch_session now i w) = session_conns w"
  "tw_next (touch_session now i w) = tw_next w"
  "tw_log (touch_session now i w) = tw_log w"
  by (simp_all add: touch_session_def session_conns_def comp_def case_prod_unfold)

lemma remove_session_simps [simp]:
  "tw_sessions (remove_session i w) = filter (\<lambda>s. fst s \<noteq> i) (tw_sessions w)"
  "tw_next (remove_session i w) = tw_next w"
  "tw_log (remove_session i w) = tw_log w"
  by (simp_all add: remove_session_def)

lemma distinct_map_filter_fst: "distinct (map f xs) \<Longrightarrow> distinct (map f (filter P xs))"
  by (induction xs) auto

lemma remove_session_conns:
  assumes "find_session i w = Some s" and "distinct (session_conns w)"
  shows "set (session_conns (remove_session i w)) \<subseteq> set (session_conns w) - {ts_conn s}"
proof -
  have "j = i" if "(j, t) \<in> set (tw_sessions w)" and "ts_conn t = ts_conn s" for j t
    using assms(2) find_session_mem [OF assms(1)] that
    by (auto simp: session_conns_def distinct_map inj_on_def)
  then show ?thesis by (auto simp: session_conns_def)
qed

lemma log_in_txn_inv:
  assumes "txn_inv w" and "c \<in> set (session_conns w)" and "list_all in_txn ss"
  shows "txn_inv (log_stmts c ss w)"
proof (rule txn_invI)
  note i = txn_invD [OF assms(1)]
  have "open_log (tw_log w c @ ss)" using i(4) [OF assms(2)] assms(3) by (simp add: open_log_append)
  then show "\<And>d. log_ok (tw_log (log_stmts c ss w) d)"
    and "\<And>d. d \<in> set (session_conns (log_stmts c ss w)) \<Longrightarrow> d < tw_next (log_stmts c ss w) \<and> open_log (tw_log (log_stmts c ss w) d)"
    using i(3-5) by (auto simp: log_ok_def)
  show "\<And>d. tw_next (log_stmts c ss w) \<le> d \<Longrightarrow> tw_log (log_stmts c ss w) d = []"
    using i(3) [OF assms(2)] i(6) by auto
qed (use txn_invD [OF assms(1)] in simp_all)

lemma touch_inv: "txn_inv w \<Longrightarrow> txn_inv (touch_session now i w)"
  by (simp add: txn_inv_def)

lemma end_session_inv:
  assumes "txn_inv w" and "find_session i w = Some s" and "sql = ''COMMIT'' \<or> sql = ''ROLLBACK''"
  shows "txn_inv (log_stmts (ts_conn s) [Control sql] (remove_session i w))" (is "txn_inv ?w")
proof (rule txn_invI)
  note i = txn_invD [OF assms(1)] and c = find_session_conn [OF assms(2)]
  note rest = remove_session_conns [OF assms(2) i(2)]
  show "distinct (map fst (tw_sessions ?w))" "distinct (session_conns ?w)"
    using i(1,2) by (simp_all add: session_conns_def distinct_map_filter_fst)
  show "\<And>d. d \<in> set (session_conns ?w) \<Longrightarrow> d < tw_next ?w \<and> open_log (tw_log ?w d)"
    using rest i(3,4) by auto
  have "ended_log (tw_log w (ts_conn s) @ [Control sql])"
    using i(4) [OF c] assms(3) by (auto simp: ended_log_snoc)
  then show "\<And>d. log_ok (tw_log ?w d)" using i(5) by (auto simp: log_ok_def)
  show "\<And>d. tw_next ?w \<le> d \<Longrightarrow> tw_log ?w d = []" using i(3) [OF c] i(6) by auto
qed

subsection \<open>Every operation keeps it\<close>

lemma execute_inv: "txn_inv w \<Longrightarrow> txn_inv (snd (execute_in_txn env now i sql limit is_select w))"
  by (auto simp: execute_in_txn_def Let_def in_txn_def intro!: touch_inv log_in_txn_inv find_session_conn
      split: option.split sum.split pool_kind.split)

lemma finish_inv:
  "txn_inv w \<Longrightarrow> sql = ''COMMIT'' \<or> sql = ''ROLLBACK'' \<Longrightarrow> txn_inv (snd (finish_session env i sql w))"
  by (auto simp: finish_session_def intro: end_session_inv split: option.split)

lemma reclaim_inv: "txn_inv w \<Longrightarrow> txn_inv (snd (reclaim_session now ttl i w))"
  by (auto simp: reclaim_session_def intro: end_session_inv split: option.split)

definition opened :: "nat \<Rightarrow> pool_kind \<Rightarrow> sent list \<Rightarrow> txn_world \<Rightarrow> txn_world" where
  "opened c k sents w = log_stmts c (map Setup sents @ [Control (begin_sql_for (pool_db_type k))]) (w\<lparr>tw_next := Suc c\<rparr>)"

lemma opened_inv:
  assumes "txn_inv w"
  shows "txn_inv (opened (tw_next w) k sents w)"
    and "open_log (tw_log (opened (tw_next w) k sents w) (tw_next w))"
proof -
  note i = txn_invD [OF assms]
  have e: "tw_log w (tw_next w) = []" using i(6) by simp
  have o: "open_log (map Setup sents @ [Control (begin_sql_for (pool_db_type k))])"
    using begin_sql_for_kind [of k] by (simp add: open_log_setup)
  have sc: "session_conns (w\<lparr>tw_next := n\<rparr>) = session_conns w" for n by (simp add: session_conns_def)
  show "open_log (tw_log (opened (tw_next w) k sents w) (tw_next w))" using o e by (simp add: opened_def)
  show "txn_inv (opened (tw_next w) k sents w)"
    by (rule txn_invI) (use i o e in \<open>auto simp: opened_def sc log_ok_def less_Suc_eq\<close>)
qed

lemma begin_inv:
  assumes "txn_inv w" and "uuid \<notin> fst ` set (tw_sessions w)"
  shows "txn_inv (snd (txn_begin_session env now uuid params w))"
proof (cases "open_pinned_pool env params")
  case (Inr ks)
  obtain k sents where ks: "ks = (k, sents)" by (cases ks)
  let ?w = "opened (tw_next w) k sents w"
  note i = txn_invD [OF assms(1)] and oi = txn_invD [OF opened_inv(1) [OF assms(1)]]
  have s: "tw_sessions ?w = tw_sessions w" "tw_next ?w = Suc (tw_next w)" by (simp_all add: opened_def)
  show ?thesis
  proof (cases "te_control env (tw_next w) (begin_sql_for (pool_db_type k))")
    case None
    let ?s = "\<lparr>ts_kind = k, ts_conn = tw_next w, ts_created_at = now, ts_last_used = now\<rparr>"
    have eq: "snd (txn_begin_session env now uuid params w) = ?w\<lparr>tw_sessions := tw_sessions w @ [(uuid, ?s)]\<rparr>"
      using None s by (simp add: txn_begin_session_def Inr ks Let_def opened_def)
    have new: "tw_next w \<notin> set (session_conns w)" using i(3) by blast
    have sc: "session_conns (?w\<lparr>tw_sessions := tw_sessions w @ [(uuid, ?s)]\<rparr>) = session_conns w @ [tw_next w]"
      by (simp add: session_conns_def)
    have old: "session_conns ?w = session_conns w" using s by (simp add: session_conns_def)
    show ?thesis unfolding eq
    proof (rule txn_invI, goal_cases)
      case (3 c)
      then show ?case using sc oi(3) [of c k sents] oi(4) [of c k sents] old opened_inv(2) [OF assms(1), of k sents] s(2) by auto
    qed (use i(1,2) oi(5,6) assms(2) s sc new in \<open>auto\<close>)
  next
    case (Some e)
    then show ?thesis using opened_inv(1) [OF assms(1)] by (simp add: txn_begin_session_def Inr ks Let_def opened_def)
  qed
qed (use assms in \<open>simp add: txn_begin_session_def\<close>)

lemma txn_step_inv: "txn_step w w' \<Longrightarrow> txn_inv w \<Longrightarrow> txn_inv w'"
  by (induction rule: txn_step.induct)
    (auto simp: txn_commit_session_def txn_rollback_session_def intro: begin_inv execute_inv finish_inv reclaim_inv)

lemma txn_reachable_inv: "txn_reachable w \<Longrightarrow> txn_inv w"
  by (induction rule: txn_reachable.induct) (auto intro: txn_step_inv)

subsection \<open>Connections that are no longer used\<close>

definition retired :: "nat \<Rightarrow> txn_world \<Rightarrow> bool" where
  "retired c w = (c < tw_next w \<and> c \<notin> set (session_conns w))"

lemma session_conns_filter: "set (session_conns (remove_session i w)) \<subseteq> set (session_conns w)"
  by (auto simp: session_conns_def)

lemma retired_execute:
  assumes "retired c w"
  shows "retired c (snd (execute_in_txn env now i sql limit is_select w)) \<and>
    tw_log (snd (execute_in_txn env now i sql limit is_select w)) c = tw_log w c"
proof (cases "find_session i w")
  case (Some s)
  then have "c \<noteq> ts_conn s" using find_session_conn [OF Some] assms by (auto simp: retired_def)
  then show ?thesis
    using assms Some by (simp add: execute_in_txn_def Let_def retired_def split: option.split sum.split pool_kind.split)
qed (use assms in \<open>simp add: execute_in_txn_def\<close>)

lemma retired_end:
  assumes "retired c w" and "find_session i w = Some s"
  shows "retired c (log_stmts (ts_conn s) [Control sql] (remove_session i w)) \<and>
    tw_log (log_stmts (ts_conn s) [Control sql] (remove_session i w)) c = tw_log w c"
  using find_session_conn [OF assms(2)] assms(1) session_conns_filter [of i w] by (auto simp: retired_def)

lemma retired_begin:
  assumes "retired c w"
  shows "retired c (snd (txn_begin_session env now uuid params w)) \<and>
    tw_log (snd (txn_begin_session env now uuid params w)) c = tw_log w c"
  using assms
  by (auto simp: txn_begin_session_def Let_def retired_def session_conns_def split: sum.split option.split)

lemma retired_step: "txn_step w w' \<Longrightarrow> retired c w \<Longrightarrow> retired c w' \<and> tw_log w' c = tw_log w c"
proof (induction rule: txn_step.induct)
  case (begin_step uuid w env now params)
  then show ?case using retired_begin by blast
next
  case (execute_step w env now i sql limit is_select)
  then show ?case using retired_execute by blast
next
  case (commit_step w env i)
  then show ?case
    by (cases "find_session i w") (simp_all add: txn_commit_session_def finish_session_def retired_end del: log_stmts_simps)
next
  case (rollback_step w env i)
  then show ?case
    by (cases "find_session i w") (simp_all add: txn_rollback_session_def finish_session_def retired_end del: log_stmts_simps)
next
  case (reclaim_step w now ttl i)
  then show ?case by (cases "find_session i w") (simp_all add: reclaim_session_def retired_end del: log_stmts_simps)
qed

lemma retired_steps: "txn_step\<^sup>*\<^sup>* w w' \<Longrightarrow> retired c w \<Longrightarrow> retired c w' \<and> tw_log w' c = tw_log w c"
  by (induction rule: rtranclp_induct) (auto dest: retired_step)

lemma end_session_retires:
  assumes "txn_inv w" and "find_session i w = Some s"
  shows "retired (ts_conn s) (log_stmts (ts_conn s) ss (remove_session i w))"
  using remove_session_conns [OF assms(2) txn_invD(2) [OF assms(1)]] txn_invD(3) [OF assms(1) find_session_conn [OF assms(2)]]
  by (auto simp: retired_def)

subsection \<open>The sweep\<close>

lemma reclaim_idle:
  assumes "find_session i w = Some s" and "idle_for now ttl s"
  shows "reclaim_session now ttl i w = (1, log_stmts (ts_conn s) [Control ''ROLLBACK''] (remove_session i w))"
  using assms by (simp add: reclaim_session_def)

lemma find_session_removed: "j \<noteq> i \<Longrightarrow> find_session j (log_stmts c ss (remove_session i w)) = find_session j w"
proof -
  have "map_of (filter (\<lambda>s. fst s \<noteq> i) xs) j = map_of xs j" if "j \<noteq> i" for xs :: "(string \<times> txn_session) list"
    using that by (induction xs) auto
  then show "j \<noteq> i \<Longrightarrow> find_session j (log_stmts c ss (remove_session i w)) = find_session j w"
    by (simp add: find_session_def)
qed

lemma sweep_fold:
  assumes "distinct is" and "\<And>i. i \<in> set is \<Longrightarrow> \<exists>s. find_session i w = Some s \<and> idle_for now ttl s"
  shows "\<exists>w'. fold (\<lambda>i (n, w). let (k, w') = reclaim_session now ttl i w in (n + k, w')) is (n, w) = (n + length is, w') \<and>
     tw_sessions w' = filter (\<lambda>s. fst s \<notin> set is) (tw_sessions w)"
  using assms
proof (induction "is" arbitrary: n w)
  case (Cons i "is")
  obtain s where s: "find_session i w = Some s" "idle_for now ttl s" using Cons.prems(2) [of i] by auto
  let ?w = "log_stmts (ts_conn s) [Control ''ROLLBACK''] (remove_session i w)"
  have "\<exists>s. find_session j ?w = Some s \<and> idle_for now ttl s" if "j \<in> set is" for j
    using Cons.prems that find_session_removed [of j i] by (metis distinct.simps(2) list.set_intros(2))
  then obtain w' where
    "fold (\<lambda>i (n, w). let (k, w') = reclaim_session now ttl i w in (n + k, w')) is (n + 1, ?w) = (n + 1 + length is, w')"
    "tw_sessions w' = filter (\<lambda>s. fst s \<notin> set is) (tw_sessions ?w)"
    using Cons.IH [of ?w "n + 1"] Cons.prems(1) by auto
  then show ?case by (auto simp: reclaim_idle [OF s] intro!: filter_cong)
qed simp

lemma sweep_scan_idle:
  assumes "txn_inv w" and "i \<in> set (sweep_scan now ttl w)"
  shows "\<exists>s. find_session i w = Some s \<and> idle_for now ttl s"
  using assms txn_invD(1) [OF assms(1)] by (auto simp: sweep_scan_def find_session_def)

lemma sweep_scan_mem:
  assumes "txn_inv w" and "(i, s) \<in> set (tw_sessions w)"
  shows "i \<in> set (sweep_scan now ttl w) \<longleftrightarrow> idle_for now ttl s"
proof
  have m: "find_session i w = Some s" using assms txn_invD(1) [OF assms(1)] by (simp add: find_session_def)
  show "idle_for now ttl s" if "i \<in> set (sweep_scan now ttl w)"
    using sweep_scan_idle [OF assms(1) that] m by auto
  show "i \<in> set (sweep_scan now ttl w)" if "idle_for now ttl s"
    using assms(2) that by (force simp: sweep_scan_def)
qed

lemma cleanup_expired_result:
  assumes "txn_inv w"
  shows "fst (cleanup_expired now ttl w) = length (filter (\<lambda>(i, s). idle_for now ttl s) (tw_sessions w))"
    and "tw_sessions (snd (cleanup_expired now ttl w)) = filter (\<lambda>(i, s). \<not> idle_for now ttl s) (tw_sessions w)"
proof -
  have d: "distinct (sweep_scan now ttl w)"
    using txn_invD(1) [OF assms] by (simp add: sweep_scan_def distinct_map_filter_fst)
  obtain w' where w': "cleanup_expired now ttl w = (0 + length (sweep_scan now ttl w), w')"
    "tw_sessions w' = filter (\<lambda>s. fst s \<notin> set (sweep_scan now ttl w)) (tw_sessions w)"
    using sweep_fold [OF d, of w now ttl 0] sweep_scan_idle [OF assms] unfolding cleanup_expired_def by blast
  show "fst (cleanup_expired now ttl w) = length (filter (\<lambda>(i, s). idle_for now ttl s) (tw_sessions w))"
    using w'(1) by (simp add: sweep_scan_def)
  show "tw_sessions (snd (cleanup_expired now ttl w)) = filter (\<lambda>(i, s). \<not> idle_for now ttl s) (tw_sessions w)"
    using w' sweep_scan_mem [OF assms] by (auto intro!: filter_cong)
qed

section \<open>What the sessions promise\<close>

definition sample_env :: txn_env where
  "sample_env = \<lparr>te_open_mysql = (\<lambda>_. None), te_open_pg = (\<lambda>_. None), te_open_sqlite = (\<lambda>_. None), te_set = (\<lambda>_. Inr ()),
     te_control = (\<lambda>_ _. None), te_answer = (\<lambda>_ _ _ _. Inr (JObj [])), te_thread_id = (\<lambda>_. Some 7)\<rparr>"

definition sample_params :: "string \<Rightarrow> conn_params" where
  "sample_params t = \<lparr>tp_db_type = t, tp_host = ''h'', tp_port = 1, tp_username = ''u'', tp_password = ''p'', tp_database = None,
     tp_charset = Some ''utf8mb4'', tp_timezone = None, tp_file_path = Some ''f''\<rparr>"

definition sample_world :: txn_world where
  "sample_world = snd (txn_begin_session sample_env 20 ''s2'' (sample_params ''sqlite'')
     (snd (txn_begin_session sample_env 10 ''s1'' (sample_params ''mysql'') txn_start)))"

lemma sample_world_sessions:
  "tw_sessions sample_world =
     [(''s1'', \<lparr>ts_kind = PinnedMySql MysqlProfile, ts_conn = 0, ts_created_at = 10, ts_last_used = 10\<rparr>),
      (''s2'', \<lparr>ts_kind = PinnedSqlite, ts_conn = 1, ts_created_at = 20, ts_last_used = 20\<rparr>)]"
  by code_simp

lemma sample_world_reachable: "txn_reachable sample_world"
proof -
  let ?w = "snd (txn_begin_session sample_env 10 ''s1'' (sample_params ''mysql'') txn_start)"
  have "tw_sessions ?w = [(''s1'', \<lparr>ts_kind = PinnedMySql MysqlProfile, ts_conn = 0, ts_created_at = 10, ts_last_used = 10\<rparr>)]"
    by code_simp
  then have "''s2'' \<notin> fst ` set (tw_sessions ?w)" by simp
  then have "txn_step ?w sample_world" unfolding sample_world_def by (rule begin_step)
  moreover have "txn_step txn_start ?w" by (rule begin_step) (simp add: txn_start_def)
  ultimately show ?thesis using reach_start reach_step by blast
qed

lemma sample_session: "find_session ''s1'' sample_world = Some \<lparr>ts_kind = PinnedMySql MysqlProfile, ts_conn = 0, ts_created_at = 10, ts_last_used = 10\<rparr>"
  "find_session ''s2'' sample_world = Some \<lparr>ts_kind = PinnedSqlite, ts_conn = 1, ts_created_at = 20, ts_last_used = 20\<rparr>"
  by (simp_all add: find_session_def sample_world_sessions)



text \<open>
  A committed session is over: the COMMIT is the last statement its connection ever gets,
  whatever happens afterwards.
\<close>

theorem committed_connection_is_retired:
  assumes "txn_reachable w" and "find_session i w = Some s"
    and "txn_step\<^sup>*\<^sup>* (snd (txn_commit_session env i w)) w'"
  shows "tw_log w' (ts_conn s) = tw_log w (ts_conn s) @ [Control ''COMMIT'']"
  using retired_steps [OF assms(3), of "ts_conn s"] end_session_retires [OF txn_reachable_inv [OF assms(1)] assms(2)] assms(2)
  by (simp add: txn_commit_session_def finish_session_def)

theorem committed_connection_is_retired_witness:
  "tw_log (snd (execute_in_txn sample_env 30 ''s1'' ''DELETE FROM t'' 1 False (snd (txn_commit_session sample_env ''s1'' sample_world)))) 0 =
     tw_log sample_world 0 @ [Control ''COMMIT'']"
  using committed_connection_is_retired
    [OF sample_world_reachable sample_session(1) r_into_rtranclp [of txn_step, OF execute_step [of _ sample_env 30 "''s1''" "''DELETE FROM t''" 1 False]]]
  by simp

text \<open>A statement of one session is never sent on the connection of another.\<close>

theorem sessions_are_isolated:
  assumes "txn_reachable w" and "find_session j w = Some s" and "i \<noteq> j"
  shows "tw_log (snd (execute_in_txn env now i sql limit is_select w)) (ts_conn s) = tw_log w (ts_conn s)"
proof (cases "find_session i w")
  case (Some t)
  have "ts_conn t \<noteq> ts_conn s"
    using txn_invD(2) [OF txn_reachable_inv [OF assms(1)]] find_session_mem [OF Some] find_session_mem [OF assms(2)] assms(3)
    by (auto simp: session_conns_def distinct_map inj_on_def)
  then show ?thesis by (auto simp: execute_in_txn_def Some Let_def touch_session_def split: sum.split pool_kind.split)
qed (simp add: execute_in_txn_def)

theorem sessions_are_isolated_witness:
  "tw_log (snd (execute_in_txn sample_env 30 ''s1'' ''DELETE FROM t'' 1 False sample_world)) 1 = [Control ''BEGIN TRANSACTION'']"
proof -
  have "tw_log sample_world 1 = [Control ''BEGIN TRANSACTION'']" by code_simp
  then show ?thesis
    using sessions_are_isolated [OF sample_world_reachable sample_session(2), of "''s1''" sample_env 30 "''DELETE FROM t''" 1 False] by simp
qed

text \<open>
  C39. A sweep reclaims the sessions that were idle for longer than the limit, all of them and no
  other, and reports how many there were.
\<close>

theorem sweep_takes_the_idle:
  assumes "txn_reachable w" and "r = cleanup_expired now ttl w"
  shows "(fst r, tw_sessions (snd r)) =
    (length (filter (\<lambda>(i, s). idle_for now ttl s) (tw_sessions w)), filter (\<lambda>(i, s). \<not> idle_for now ttl s) (tw_sessions w))"
  using cleanup_expired_result [OF txn_reachable_inv [OF assms(1)]] assms(2) by simp

theorem sweep_takes_the_idle_witness:
  "(fst (cleanup_expired 45 30 sample_world), map fst (tw_sessions (snd (cleanup_expired 45 30 sample_world)))) = (1, [''s2''])"
  using sweep_takes_the_idle [OF sample_world_reachable refl, of 45 30] by (simp add: sample_world_sessions idle_for_def)

subsection \<open>What they do not\<close>

text \<open>A COMMIT the server refuses is reported to the client as done.\<close>

lemma failed_commit_is_reported_done:
  "te_control env 0 ''COMMIT'' = Some e \<Longrightarrow> find_session i w = Some s \<Longrightarrow> fst (txn_commit env i w) = OkBody ()"
  by (simp add: txn_commit_def txn_commit_session_def finish_session_def)

text \<open>A statement that fails does not count as use of its session.\<close>

lemma failed_statement_is_no_use:
  "te_answer env (ts_conn s) sql limit is_select = Inl body \<Longrightarrow> find_session i w = Some s \<Longrightarrow>
   tw_sessions (snd (execute_in_txn env now i sql limit is_select w)) = tw_sessions w"
  by (simp add: execute_in_txn_def Let_def)

text \<open>The empty password is set like any other.\<close>

lemma empty_password_is_set: "mo_password (mysql_pinned_options (p\<lparr>tp_password := []\<rparr>) profile) = Some []"
  by (cases profile) (simp_all add: mysql_pinned_options_def Let_def split: option.split)

text \<open>Names that the rest of the server takes for PostgreSQL.\<close>

lemma pg_names_rejected:
  "list_all (\<lambda>t. open_pinned_pool sample_env (sample_params t) = Inl (''transactions unsupported for db_type '' @ quoted_name t))
     [''pg'', ''PostgreSQL'', ''SQLite'']"
  by code_simp

text \<open>Statements that write and pass for queries.\<close>

lemma writes_that_look_like_queries:
  "list_all is_select_statement
     [''WITH d AS (DELETE FROM t RETURNING 1) SELECT 1'', ''EXPLAIN ANALYZE DELETE FROM t'', ''pragma user_version = 3'', ''SELECT 1 INTO t'']"
  by code_simp

end
