(* ===== verification/Drift_Collector.thy ===== *)
theory Drift_Collector
  imports Drift_Snapshot Text_Case "HOL-Library.Product_Lexorder" "HOL-Library.Multiset"
begin

text \<open>
  The schema collectors of \<open>crates/drift/src/collector.rs\<close>: the assembly of the flat rows of
  the source's catalogue into a snapshot, for MySQL and PostgreSQL. The three catalogue queries are
  inputs, each an error or its rows; their fixed texts are left out. A \<open>BTreeMap\<close> keyed by
  pairs is the sorted list of its keys with the rows of each.
\<close>

section \<open>Rows\<close>

record my_column_row =
  mc_table :: string
  mc_column :: string
  mc_ordinal :: int
  mc_data_type :: string
  mc_is_nullable :: string
  mc_default :: "string option"
  mc_char_max_length :: "int option"
  mc_numeric_precision :: "int option"
  mc_numeric_scale :: "int option"

record my_index_row =
  mi_table :: string
  mi_index :: string
  mi_column :: string
  mi_seq :: int
  mi_non_unique :: int

record my_fk_row =
  mf_table :: string
  mf_constraint :: string
  mf_column :: string
  mf_ordinal :: int
  mf_ref_table :: string
  mf_ref_column :: string

record pg_column_row =
  pc_table :: string
  pc_schema :: string
  pc_column :: string
  pc_ordinal :: int
  pc_data_type :: string
  pc_is_nullable :: string
  pc_default :: "string option"
  pc_char_max_length :: "int option"
  pc_numeric_precision :: "int option"
  pc_numeric_scale :: "int option"

record pg_index_row =
  pi_table :: string
  pi_index :: string
  pi_schema :: string
  pi_is_unique :: bool
  pi_is_primary :: bool
  pi_columns :: "string list"

record pg_fk_row =
  pf_table :: string
  pf_schema :: string
  pf_constraint :: string
  pf_ref_table :: string
  pf_ref_schema :: string
  pf_columns :: "string list"
  pf_ref_columns :: "string list"

section \<open>Assembly\<close>

definition is_nullable_decode :: "string \<Rightarrow> bool" where
  "is_nullable_decode s = (\<not> eq_ignore_ascii_case s ''NO'')"

text \<open>A cast to \<open>i32\<close>.\<close>

definition as_i32 :: "int \<Rightarrow> int" where
  "as_i32 x = (x + 2147483648) mod 4294967296 - 2147483648"

definition empty_table :: "string \<Rightarrow> string \<Rightarrow> table_schema" where
  "empty_table schema name =
     \<lparr>ta_schema = schema, ta_name = name, ta_columns = [], ta_primary_key = None, ta_indexes = [], ta_foreign_keys = []\<rparr>"

text \<open>An entry of a map, inserted when it is missing, and then changed.\<close>

definition bt_upd :: "string \<Rightarrow> 'v \<Rightarrow> ('v \<Rightarrow> 'v) \<Rightarrow> 'v btree \<Rightarrow> 'v btree" where
  "bt_upd k d f m = bt_insert k (f (case bt_get m k of Some v \<Rightarrow> v | None \<Rightarrow> d)) m"

definition table_key :: "string \<Rightarrow> string \<Rightarrow> string" where
  "table_key schema name = schema @ ''.'' @ name"

subsection \<open>MySQL\<close>

definition my_column :: "my_column_row \<Rightarrow> column_schema" where
  "my_column r =
     \<lparr>co_name = mc_column r, co_ordinal = as_i32 (mc_ordinal r), co_data_type = mc_data_type r,
      co_is_nullable = is_nullable_decode (mc_is_nullable r), co_default = mc_default r,
      co_char_max_length = mc_char_max_length r, co_numeric_precision = mc_numeric_precision r,
      co_numeric_scale = mc_numeric_scale r\<rparr>"

definition assemble_mysql_columns :: "string \<Rightarrow> my_column_row list \<Rightarrow> table_schema btree" where
  "assemble_mysql_columns db rows =
     fold (\<lambda>r. bt_upd (table_key db (mc_table r)) (empty_table db (mc_table r))
       (\<lambda>t. t\<lparr>ta_columns := bt_insert (mc_column r) (my_column r) (ta_columns t)\<rparr>)) rows []"

definition add_index_column :: "my_index_row \<Rightarrow> table_schema \<Rightarrow> table_schema" where
  "add_index_column r t =
     t\<lparr>ta_indexes := bt_upd (mi_index r) \<lparr>ix_name = mi_index r, ix_columns = [], ix_is_unique = (mi_non_unique r = 0)\<rparr>
       (\<lambda>i. i\<lparr>ix_is_unique := (mi_non_unique r = 0), ix_columns := ix_columns i @ [mi_column r]\<rparr>) (ta_indexes t)\<rparr>"

text \<open>One row: a column of the primary key is kept aside under its table's key.\<close>

definition index_row ::
  "string \<Rightarrow> my_index_row \<Rightarrow> table_schema btree \<times> (int \<times> string) list btree \<Rightarrow> table_schema btree \<times> (int \<times> string) list btree" where
  "index_row db r st =
     (let key = table_key db (mi_table r); tables = bt_upd key (empty_table db (mi_table r)) id (fst st) in
      if mi_index r = ''PRIMARY'' then (tables, bt_upd key [] (\<lambda>cs. cs @ [(mi_seq r, mi_column r)]) (snd st))
      else (bt_upd key (empty_table db (mi_table r)) (add_index_column r) tables, snd st))"

definition set_primary :: "string \<times> (int \<times> string) list \<Rightarrow> table_schema btree \<Rightarrow> table_schema btree" where
  "set_primary kc tables =
     (case bt_get tables (fst kc) of
        None \<Rightarrow> tables
      | Some t \<Rightarrow> bt_insert (fst kc)
          (t\<lparr>ta_primary_key := Some \<lparr>pk_name = Some ''PRIMARY'', pk_columns = map snd (sort_key fst (snd kc))\<rparr>\<rparr>) tables)"

definition assemble_mysql_indexes :: "string \<Rightarrow> my_index_row list \<Rightarrow> table_schema btree \<Rightarrow> table_schema btree" where
  "assemble_mysql_indexes db rows tables =
     (let (tables', pk) = fold (index_row db) rows (tables, []) in fold set_primary pk tables')"

definition my_fk :: "string \<Rightarrow> string \<Rightarrow> my_fk_row list \<Rightarrow> foreign_key" where
  "my_fk db name grp =
     (let rows = sort_key mf_ordinal grp in
      \<lparr>fk_name = name, fk_columns = map mf_column rows, fk_ref_schema = Some db,
       fk_ref_table = (case rows of [] \<Rightarrow> [] | r # _ \<Rightarrow> mf_ref_table r), fk_ref_columns = map mf_ref_column rows\<rparr>)"

definition fk_groups :: "my_fk_row list \<Rightarrow> ((string \<times> string) \<times> my_fk_row list) list" where
  "fk_groups rows =
     map (\<lambda>k. (k, filter (\<lambda>r. (mf_table r, mf_constraint r) = k) rows))
       (sort (remdups (map (\<lambda>r. (mf_table r, mf_constraint r)) rows)))"

definition assemble_mysql_fks :: "string \<Rightarrow> my_fk_row list \<Rightarrow> table_schema btree \<Rightarrow> table_schema btree" where
  "assemble_mysql_fks db rows tables =
     fold (\<lambda>((table, name), grp). bt_upd (table_key db table) (empty_table db table)
       (\<lambda>t. t\<lparr>ta_foreign_keys := bt_insert name (my_fk db name grp) (ta_foreign_keys t)\<rparr>)) (fk_groups rows) tables"

subsection \<open>PostgreSQL\<close>

definition pg_column :: "pg_column_row \<Rightarrow> column_schema" where
  "pg_column r =
     \<lparr>co_name = pc_column r, co_ordinal = as_i32 (pc_ordinal r), co_data_type = pc_data_type r,
      co_is_nullable = is_nullable_decode (pc_is_nullable r), co_default = pc_default r,
      co_char_max_length = pc_char_max_length r, co_numeric_precision = pc_numeric_precision r,
      co_numeric_scale = pc_numeric_scale r\<rparr>"

definition add_column :: "pg_column_row \<Rightarrow> table_schema \<Rightarrow> table_schema" where
  "add_column r t = t\<lparr>ta_columns := bt_insert (pc_column r) (pg_column r) (ta_columns t)\<rparr>"

definition assemble_pg_columns :: "pg_column_row list \<Rightarrow> table_schema btree" where
  "assemble_pg_columns rows =
     fold (\<lambda>r. bt_upd (table_key (pc_schema r) (pc_table r)) (empty_table (pc_schema r) (pc_table r)) (add_column r)) rows []"

definition add_index :: "pg_index_row \<Rightarrow> table_schema \<Rightarrow> table_schema" where
  "add_index r t =
     (if pi_is_primary r then t\<lparr>ta_primary_key := Some \<lparr>pk_name = Some (pi_index r), pk_columns = pi_columns r\<rparr>\<rparr>
      else t\<lparr>ta_indexes := bt_insert (pi_index r)
        \<lparr>ix_name = pi_index r, ix_columns = pi_columns r, ix_is_unique = pi_is_unique r\<rparr> (ta_indexes t)\<rparr>)"

definition assemble_pg_indexes :: "pg_index_row list \<Rightarrow> table_schema btree \<Rightarrow> table_schema btree" where
  "assemble_pg_indexes rows tables =
     fold (\<lambda>r. bt_upd (table_key (pi_schema r) (pi_table r)) (empty_table (pi_schema r) (pi_table r)) (add_index r)) rows tables"

definition add_fk :: "pg_fk_row \<Rightarrow> table_schema \<Rightarrow> table_schema" where
  "add_fk r t =
     t\<lparr>ta_foreign_keys := bt_insert (pf_constraint r)
       \<lparr>fk_name = pf_constraint r, fk_columns = pf_columns r,
        fk_ref_schema = (if pf_ref_schema r = [] then None else Some (pf_ref_schema r)),
        fk_ref_table = pf_ref_table r, fk_ref_columns = pf_ref_columns r\<rparr> (ta_foreign_keys t)\<rparr>"

definition assemble_pg_fks :: "pg_fk_row list \<Rightarrow> table_schema btree \<Rightarrow> table_schema btree" where
  "assemble_pg_fks rows tables =
     fold (\<lambda>r. bt_upd (table_key (pf_schema r) (pf_table r)) (empty_table (pf_schema r) (pf_table r)) (add_fk r)) rows tables"

subsection \<open>The collectors\<close>

definition build_snapshot :: "string \<Rightarrow> db_type \<Rightarrow> table_schema btree \<Rightarrow> schema_snapshot" where
  "build_snapshot database db_type tables = \<lparr>sn_database = database, sn_db_type = db_type, sn_tables = tables\<rparr>"

record ('c, 'i, 'f) catalogue =
  ca_columns :: "string + 'c list"
  ca_indexes :: "string + 'i list"
  ca_fks :: "string + 'f list"

definition drift_collect_mysql :: "(my_column_row, my_index_row, my_fk_row) catalogue \<Rightarrow> string \<Rightarrow> string + schema_snapshot" where
  "drift_collect_mysql src database =
     and_then (ca_columns src) (\<lambda>cs.
     and_then (ca_indexes src) (\<lambda>is.
     and_then (ca_fks src) (\<lambda>fs.
       Inr (build_snapshot database MySql
         (assemble_mysql_fks database fs (assemble_mysql_indexes database is (assemble_mysql_columns database cs)))))))"

definition drift_collect_postgres :: "(pg_column_row, pg_index_row, pg_fk_row) catalogue \<Rightarrow> string \<Rightarrow> string + schema_snapshot" where
  "drift_collect_postgres src database =
     and_then (ca_columns src) (\<lambda>cs.
     and_then (ca_indexes src) (\<lambda>is.
     and_then (ca_fks src) (\<lambda>fs.
       Inr (build_snapshot database Postgres (assemble_pg_fks fs (assemble_pg_indexes is (assemble_pg_columns cs)))))))"

section \<open>Entries of a map\<close>

lemma bt_upd_wf [simp]: "bt_wf m \<Longrightarrow> bt_wf (bt_upd k d f m)"
  by (simp add: bt_upd_def)

lemma bt_get_upd: "bt_wf m \<Longrightarrow> bt_get (bt_upd k d f m) = (bt_get m)(k \<mapsto> f (case bt_get m k of Some v \<Rightarrow> v | None \<Rightarrow> d))"
  by (simp add: bt_upd_def bt_get_insert)

lemma fold_bt_upd_wf: "bt_wf m \<Longrightarrow> bt_wf (fold (\<lambda>r. bt_upd (key r) (d r) (f r)) rows m)"
  by (induction rows arbitrary: m) simp_all

lemma fold_bt_upd_get:
  assumes "bt_wf m"
  shows "bt_get (fold (\<lambda>r. bt_upd (key r) (d r) (f r)) rows m) k =
    (case bt_get m k of
       Some v \<Rightarrow> Some (fold f (filter (\<lambda>r. key r = k) rows) v)
     | None \<Rightarrow> (case filter (\<lambda>r. key r = k) rows of [] \<Rightarrow> None | r # rs \<Rightarrow> Some (fold f (r # rs) (d r))))"
  using assms
proof (induction rows arbitrary: m)
  case (Cons r rows)
  then show ?case by (auto simp: bt_get_upd split: option.split)
qed (simp split: option.split)

lemma list_all_bt_insert: "list_all P m \<Longrightarrow> P (k, v) \<Longrightarrow> list_all P (bt_insert k v m)"
  by (induction k v m rule: bt_insert.induct) auto

lemma list_all_bt_get: "list_all P m \<Longrightarrow> bt_get m k = Some v \<Longrightarrow> P (k, v)"
  by (auto simp: list_all_iff bt_get_def dest: map_of_SomeD)

lemma list_all_bt_upd:
  assumes "list_all P m" "\<And>v. P (k, v) \<Longrightarrow> P (k, f v)" "P (k, d)"
  shows "list_all P (bt_upd k d f m)"
  using assms list_all_bt_get [OF assms(1)] unfolding bt_upd_def by (intro list_all_bt_insert) (auto split: option.split)

section \<open>Collected snapshots are well formed\<close>

text \<open>
  A table is under its qualified name, its maps are sorted, and every column, index and foreign
  key is under its own name.
\<close>

definition entry_ok :: "string \<times> table_schema \<Rightarrow> bool" where
  "entry_ok kt \<longleftrightarrow>
     fst kt = qualified_name (snd kt) \<and> table_wf (snd kt) \<and>
     list_all (\<lambda>(k, c). co_name c = k) (ta_columns (snd kt)) \<and>
     list_all (\<lambda>(k, i). ix_name i = k) (ta_indexes (snd kt)) \<and>
     list_all (\<lambda>(k, f). fk_name f = k) (ta_foreign_keys (snd kt))"

definition tables_ok :: "table_schema btree \<Rightarrow> bool" where
  "tables_ok m \<longleftrightarrow> bt_wf m \<and> list_all entry_ok m"

lemma tables_ok_Nil [simp]: "tables_ok []"
  by (simp add: tables_ok_def)

lemma entry_ok_empty [simp]: "entry_ok (table_key s n, empty_table s n)"
  by (simp add: entry_ok_def empty_table_def table_wf_def qualified_name_def table_key_def)

lemma tables_ok_upd:
  assumes "tables_ok m" and "\<And>t. entry_ok (table_key s n, t) \<Longrightarrow> entry_ok (table_key s n, f t)"
  shows "tables_ok (bt_upd (table_key s n) (empty_table s n) f m)"
  using assms by (auto simp: tables_ok_def intro: list_all_bt_upd)

lemma tables_ok_fold: "(\<And>r m. tables_ok m \<Longrightarrow> tables_ok (g r m)) \<Longrightarrow> tables_ok m \<Longrightarrow> tables_ok (fold g rows m)"
  by (induction rows arbitrary: m) simp_all

lemma entry_ok_column:
  "entry_ok (k, t) \<Longrightarrow> co_name c = x \<Longrightarrow> entry_ok (k, t\<lparr>ta_columns := bt_insert x c (ta_columns t)\<rparr>)"
  by (simp add: entry_ok_def table_wf_def qualified_name_def list_all_bt_insert)

lemma entry_ok_fk:
  "entry_ok (k, t) \<Longrightarrow> fk_name f = x \<Longrightarrow> entry_ok (k, t\<lparr>ta_foreign_keys := bt_insert x f (ta_foreign_keys t)\<rparr>)"
  by (simp add: entry_ok_def table_wf_def qualified_name_def list_all_bt_insert)

lemma entry_ok_index:
  "entry_ok (k, t) \<Longrightarrow> ix_name i = x \<Longrightarrow> entry_ok (k, t\<lparr>ta_indexes := bt_insert x i (ta_indexes t)\<rparr>)"
  by (simp add: entry_ok_def table_wf_def qualified_name_def list_all_bt_insert)

lemma entry_ok_primary: "entry_ok (k, t) \<Longrightarrow> entry_ok (k, t\<lparr>ta_primary_key := p\<rparr>)"
  by (simp add: entry_ok_def table_wf_def qualified_name_def)

lemma entry_ok_add_index_column: "entry_ok (k, t) \<Longrightarrow> entry_ok (k, add_index_column r t)"
  by (auto simp: entry_ok_def table_wf_def qualified_name_def add_index_column_def intro!: list_all_bt_upd)

lemma mysql_columns_ok: "tables_ok (assemble_mysql_columns db rows)"
  unfolding assemble_mysql_columns_def
  by (intro tables_ok_fold tables_ok_upd entry_ok_column) (simp_all add: my_column_def)

lemma index_row_ok: "tables_ok (fst st) \<Longrightarrow> tables_ok (fst (index_row db r st))"
  by (auto simp: index_row_def Let_def intro!: tables_ok_upd entry_ok_add_index_column)

lemma index_rows_ok: "tables_ok (fst st) \<Longrightarrow> tables_ok (fst (fold (index_row db) rows st))"
  by (induction rows arbitrary: st) (simp_all add: index_row_ok)

lemma set_primary_ok: "tables_ok m \<Longrightarrow> tables_ok (set_primary kc m)"
  using list_all_bt_get [of entry_ok m "fst kc"]
  by (auto simp: set_primary_def tables_ok_def intro!: list_all_bt_insert entry_ok_primary split: option.split)

lemma mysql_indexes_ok: "tables_ok m \<Longrightarrow> tables_ok (assemble_mysql_indexes db rows m)"
  using index_rows_ok [of "(m, [])" db rows]
  by (auto simp: assemble_mysql_indexes_def intro!: tables_ok_fold set_primary_ok split: prod.split)

lemma mysql_fks_ok: "tables_ok m \<Longrightarrow> tables_ok (assemble_mysql_fks db rows m)"
  unfolding assemble_mysql_fks_def
  by (auto intro!: tables_ok_fold tables_ok_upd entry_ok_fk simp: my_fk_def Let_def)

lemma pg_columns_ok: "tables_ok (assemble_pg_columns rows)"
  unfolding assemble_pg_columns_def
  by (intro tables_ok_fold tables_ok_upd) (simp_all add: add_column_def entry_ok_column pg_column_def)

lemma pg_indexes_ok: "tables_ok m \<Longrightarrow> tables_ok (assemble_pg_indexes rows m)"
  unfolding assemble_pg_indexes_def
  by (auto intro!: tables_ok_fold tables_ok_upd simp: add_index_def entry_ok_primary entry_ok_index)

lemma pg_fks_ok: "tables_ok m \<Longrightarrow> tables_ok (assemble_pg_fks rows m)"
  unfolding assemble_pg_fks_def
  by (auto intro!: tables_ok_fold tables_ok_upd entry_ok_fk simp: add_fk_def)

lemma collected_tables_ok:
  "drift_collect_mysql my db = Inr s \<Longrightarrow> tables_ok (sn_tables s)"
  "drift_collect_postgres pg db = Inr s \<Longrightarrow> tables_ok (sn_tables s)"
  by (auto simp: drift_collect_mysql_def drift_collect_postgres_def and_then_Inr build_snapshot_def
      intro!: mysql_fks_ok mysql_indexes_ok mysql_columns_ok pg_fks_ok pg_indexes_ok pg_columns_ok)

lemma tables_ok_snapshot_wf: "tables_ok (sn_tables s) \<Longrightarrow> snapshot_wf s"
  by (auto simp: snapshot_wf_def tables_ok_def entry_ok_def list_all_iff)

text \<open>
  Whatever rows the catalogue returns, in whatever order, a collected snapshot is well formed:
  every table is under its qualified name and everything in it under its own name, in sorted maps.
\<close>

theorem collected_snapshots_well_formed:
  assumes "drift_collect_mysql my db = Inr s \<or> drift_collect_postgres pg db = Inr s"
  shows "snapshot_wf s \<and> tables_ok (sn_tables s)"
  using assms collected_tables_ok tables_ok_snapshot_wf by blast

section \<open>Collecting a known schema\<close>

text \<open>The catalogue rows of the tables of a PostgreSQL database, in the order of a snapshot.\<close>

definition column_row_of :: "table_schema \<Rightarrow> column_schema \<Rightarrow> pg_column_row" where
  "column_row_of t c =
     \<lparr>pc_table = ta_name t, pc_schema = ta_schema t, pc_column = co_name c, pc_ordinal = co_ordinal c,
      pc_data_type = co_data_type c, pc_is_nullable = (if co_is_nullable c then ''YES'' else ''NO''),
      pc_default = co_default c, pc_char_max_length = co_char_max_length c,
      pc_numeric_precision = co_numeric_precision c, pc_numeric_scale = co_numeric_scale c\<rparr>"

definition index_row_of :: "table_schema \<Rightarrow> index_schema \<Rightarrow> pg_index_row" where
  "index_row_of t i =
     \<lparr>pi_table = ta_name t, pi_index = ix_name i, pi_schema = ta_schema t, pi_is_unique = ix_is_unique i,
      pi_is_primary = False, pi_columns = ix_columns i\<rparr>"

definition primary_rows_of :: "table_schema \<Rightarrow> pg_index_row list" where
  "primary_rows_of t =
     (case ta_primary_key t of
        None \<Rightarrow> []
      | Some p \<Rightarrow>
          [\<lparr>pi_table = ta_name t, pi_index = (case pk_name p of Some n \<Rightarrow> n | None \<Rightarrow> []), pi_schema = ta_schema t,
            pi_is_unique = True, pi_is_primary = True, pi_columns = pk_columns p\<rparr>])"

definition fk_row_of :: "table_schema \<Rightarrow> foreign_key \<Rightarrow> pg_fk_row" where
  "fk_row_of t f =
     \<lparr>pf_table = ta_name t, pf_schema = ta_schema t, pf_constraint = fk_name f, pf_ref_table = fk_ref_table f,
      pf_ref_schema = (case fk_ref_schema f of Some s \<Rightarrow> s | None \<Rightarrow> []), pf_columns = fk_columns f,
      pf_ref_columns = fk_ref_columns f\<rparr>"

definition column_rows :: "table_schema btree \<Rightarrow> pg_column_row list" where
  "column_rows m = concat (map (\<lambda>(_, t). map (column_row_of t \<circ> snd) (ta_columns t)) m)"

definition index_rows :: "table_schema btree \<Rightarrow> pg_index_row list" where
  "index_rows m = concat (map (\<lambda>(_, t). primary_rows_of t @ map (index_row_of t \<circ> snd) (ta_indexes t)) m)"

definition fk_rows :: "table_schema btree \<Rightarrow> pg_fk_row list" where
  "fk_rows m = concat (map (\<lambda>(_, t). map (fk_row_of t \<circ> snd) (ta_foreign_keys t)) m)"

text \<open>
  The snapshots PostgreSQL can have: well formed, with a column in every table, a named primary
  key, a schema for the target of every foreign key, and ordinals of 32 bits.
\<close>

definition pg_describable :: "string \<times> table_schema \<Rightarrow> bool" where
  "pg_describable kt \<longleftrightarrow> entry_ok kt \<and> ta_columns (snd kt) \<noteq> [] \<and>
     list_all (\<lambda>(_, c). as_i32 (co_ordinal c) = co_ordinal c) (ta_columns (snd kt)) \<and>
     (case ta_primary_key (snd kt) of None \<Rightarrow> True | Some p \<Rightarrow> pk_name p \<noteq> None) \<and>
     list_all (\<lambda>(_, f). fk_ref_schema f \<noteq> Some []) (ta_foreign_keys (snd kt))"

subsection \<open>Rows of one table\<close>

lemma filter_concat_key:
  assumes "distinct (map fst m)" and "\<And>kv r. kv \<in> set m \<Longrightarrow> r \<in> set (g kv) \<Longrightarrow> key r = fst kv"
  shows "filter (\<lambda>r. key r = k) (concat (map g m)) = (case map_of m k of None \<Rightarrow> [] | Some v \<Rightarrow> g (k, v))"
  using assms
proof (induction m)
  case (Cons kv m)
  have own: "filter (\<lambda>r. key r = k) (g kv) = (if fst kv = k then g kv else [])"
    using Cons.prems(2) [of kv] by (auto simp: filter_empty_conv intro!: filter_True)
  have none: "map_of m (fst kv) = None" using Cons.prems(1) by (simp add: map_of_eq_None_iff)
  have "filter (\<lambda>r. key r = k) (concat (map g m)) = (case map_of m k of None \<Rightarrow> [] | Some v \<Rightarrow> g (k, v))"
    using Cons by simp
  then show ?case using none own by (cases kv) (auto split: if_splits)
qed simp

lemma bt_of_same: "bt_wf m \<Longrightarrow> mset kvs = mset m \<Longrightarrow> bt_of kvs = m"
proof -
  assume m: "bt_wf m" and eq: "mset kvs = mset m"
  have "mset (map fst kvs) = mset (map fst m)" using eq by simp
  then have d: "distinct (map fst kvs)" using bt_wf_distinct [OF m] mset_eq_imp_distinct_iff by blast
  have "map_of kvs = map_of m"
    using d bt_wf_distinct [OF m] mset_eq_setD [OF eq] by (simp add: map_of_inject_set)
  then show ?thesis using d by (intro bt_ext bt_of_wf m) (simp add: bt_of_get bt_get_def fun_eq_iff)
qed

lemma fold_add_column:
  "fold add_column rs t = t\<lparr>ta_columns := fold (\<lambda>kv. bt_insert (fst kv) (snd kv)) (map (\<lambda>r. (pc_column r, pg_column r)) rs) (ta_columns t)\<rparr>"
  by (induction rs arbitrary: t) (simp_all add: add_column_def)

lemma fold_add_fk:
  "fold add_fk rs t = t\<lparr>ta_foreign_keys := fold (\<lambda>kv. bt_insert (fst kv) (snd kv))
     (map (\<lambda>r. (pf_constraint r, \<lparr>fk_name = pf_constraint r, fk_columns = pf_columns r,
        fk_ref_schema = (if pf_ref_schema r = [] then None else Some (pf_ref_schema r)),
        fk_ref_table = pf_ref_table r, fk_ref_columns = pf_ref_columns r\<rparr>)) rs) (ta_foreign_keys t)\<rparr>"
  by (induction rs arbitrary: t) (simp_all add: add_fk_def)

lemma fold_add_index:
  "fold add_index rs t = t\<lparr>
     ta_primary_key := fold (\<lambda>r p. Some \<lparr>pk_name = Some (pi_index r), pk_columns = pi_columns r\<rparr>) (filter pi_is_primary rs) (ta_primary_key t),
     ta_indexes := fold (\<lambda>kv. bt_insert (fst kv) (snd kv))
       (map (\<lambda>r. (pi_index r, \<lparr>ix_name = pi_index r, ix_columns = pi_columns r, ix_is_unique = pi_is_unique r\<rparr>))
         (filter (\<lambda>r. \<not> pi_is_primary r) rs)) (ta_indexes t)\<rparr>"
  by (induction rs arbitrary: t) (simp_all add: add_index_def)

subsection \<open>All tables\<close>

lemma bt_wf_map_snd: "bt_wf m \<Longrightarrow> bt_wf (map (\<lambda>(k, t). (k, f t)) m)"
  by (simp add: bt_wf_def comp_def case_prod_unfold)

lemma bt_get_map_snd: "bt_get (map (\<lambda>(k, t). (k, f t)) m) k = map_option f (bt_get m k)"
  by (simp add: bt_get_def map_of_map)

lemma rows_of_key:
  assumes "bt_wf T" and "\<And>kv r. kv \<in> set T \<Longrightarrow> r \<in> set (g kv) \<Longrightarrow> key r = fst kv"
    and "mset rows = mset (concat (map g T))"
  shows "mset (filter (\<lambda>r. key r = k) rows) = mset (case bt_get T k of None \<Rightarrow> [] | Some t \<Rightarrow> g (k, t))"
proof -
  have "mset (filter (\<lambda>r. key r = k) rows) = mset (filter (\<lambda>r. key r = k) (concat (map g T)))"
    using assms(3) by (simp only: mset_filter)
  then show ?thesis
    using filter_concat_key [where m = T and g = g and key = key and k = k] bt_wf_distinct [OF assms(1)] assms(2)
    by (simp add: bt_get_def)
qed

lemma fold_known_tables:
  assumes "bt_wf T" and "\<And>kv r. kv \<in> set T \<Longrightarrow> r \<in> set (g kv) \<Longrightarrow> key r = fst kv"
    and "mset rows = mset (concat (map g T))"
    and "\<And>k t rs. (k, t) \<in> set T \<Longrightarrow> mset rs = mset (g (k, t)) \<Longrightarrow> fold f rs (a t) = b t"
  shows "fold (\<lambda>r. bt_upd (key r) (d r) (f r)) rows (map (\<lambda>(k, t). (k, a t)) T) = map (\<lambda>(k, t). (k, b t)) T"
proof (intro bt_ext fold_bt_upd_wf bt_wf_map_snd assms(1) ext)
  fix k
  have rows: "mset (filter (\<lambda>r. key r = k) rows) = mset (case bt_get T k of None \<Rightarrow> [] | Some t \<Rightarrow> g (k, t))"
    by (rule rows_of_key [OF assms(1) _ assms(3)]) (rule assms(2))
  show "bt_get (fold (\<lambda>r. bt_upd (key r) (d r) (f r)) rows (map (\<lambda>(k, t). (k, a t)) T)) k = bt_get (map (\<lambda>(k, t). (k, b t)) T) k"
  proof (cases "bt_get T k")
    case None
    then have "filter (\<lambda>r. key r = k) rows = []" using rows by simp
    with None show ?thesis by (simp add: fold_bt_upd_get bt_wf_map_snd assms(1) bt_get_map_snd)
  next
    case (Some t)
    then have "(k, t) \<in> set T" using assms(1) by (simp add: bt_get_Some_iff)
    then have "fold f (filter (\<lambda>r. key r = k) rows) (a t) = b t" using rows Some by (intro assms(4)) simp_all
    with Some show ?thesis by (simp add: fold_bt_upd_get bt_wf_map_snd assms(1) bt_get_map_snd)
  qed
qed

lemma fold_new_tables:
  assumes "bt_wf T" and "\<And>kv r. kv \<in> set T \<Longrightarrow> r \<in> set (g kv) \<Longrightarrow> key r = fst kv"
    and "mset rows = mset (concat (map g T))"
    and "\<And>k t. (k, t) \<in> set T \<Longrightarrow> g (k, t) \<noteq> []"
    and "\<And>k t r rs. (k, t) \<in> set T \<Longrightarrow> mset (r # rs) = mset (g (k, t)) \<Longrightarrow> fold f (r # rs) (d r) = b t"
  shows "fold (\<lambda>r. bt_upd (key r) (d r) (f r)) rows [] = map (\<lambda>(k, t). (k, b t)) T"
proof (intro bt_ext fold_bt_upd_wf bt_wf_map_snd assms(1) ext bt_wf_Nil)
  fix k
  have rows: "mset (filter (\<lambda>r. key r = k) rows) = mset (case bt_get T k of None \<Rightarrow> [] | Some t \<Rightarrow> g (k, t))"
    by (rule rows_of_key [OF assms(1) _ assms(3)]) (rule assms(2))
  have nil: "bt_get [] k = None" by (simp add: bt_get_def)
  show "bt_get (fold (\<lambda>r. bt_upd (key r) (d r) (f r)) rows []) k = bt_get (map (\<lambda>(k, t). (k, b t)) T) k"
  proof (cases "bt_get T k")
    case None
    then have "filter (\<lambda>r. key r = k) rows = []" using rows by simp
    with None show ?thesis by (simp add: fold_bt_upd_get bt_get_map_snd nil)
  next
    case (Some t)
    then have t: "(k, t) \<in> set T" using assms(1) by (simp add: bt_get_Some_iff)
    obtain r rs where rs: "filter (\<lambda>r. key r = k) rows = r # rs"
      using rows Some assms(4) [OF t] by (cases "filter (\<lambda>r. key r = k) rows") auto
    then have "fold f (r # rs) (d r) = b t" using rows Some by (intro assms(5) [OF t]) simp
    with Some rs show ?thesis by (simp add: fold_bt_upd_get bt_get_map_snd nil)
  qed
qed

lemma column_of_row:
  assumes "as_i32 (co_ordinal c) = co_ordinal c"
  shows "pg_column (column_row_of t c) = c"
proof -
  have "is_nullable_decode ''YES''" "\<not> is_nullable_decode ''NO''" by code_simp+
  then show ?thesis using assms by (simp add: pg_column_def column_row_of_def)
qed

lemma column_row_simps [simp]:
  "pc_column (column_row_of t c) = co_name c" "pc_schema (column_row_of t c) = ta_schema t" "pc_table (column_row_of t c) = ta_name t"
  by (simp_all add: column_row_of_def)

lemma mset_map_eq: "mset xs = mset (map f ys) \<Longrightarrow> mset (map g xs) = mset (map (g \<circ> f) ys)"
  by (metis list.map_comp mset_map)

lemma columns_collected:
  assumes "bt_wf T" "list_all pg_describable T" "mset rows = mset (column_rows T)"
  shows "assemble_pg_columns rows = map (\<lambda>(k, t). (k, t\<lparr>ta_primary_key := None, ta_indexes := [], ta_foreign_keys := []\<rparr>)) T"
  unfolding assemble_pg_columns_def
proof (rule fold_new_tables [OF assms(1) _ assms(3) [unfolded column_rows_def]])
  fix kv r assume "kv \<in> set T" "r \<in> set (case kv of (_, t) \<Rightarrow> map (column_row_of t \<circ> snd) (ta_columns t))"
  then show "table_key (pc_schema r) (pc_table r) = fst kv"
    using assms(2) by (auto simp: list_all_iff pg_describable_def entry_ok_def column_row_of_def qualified_name_def table_key_def)
next
  fix k t assume "(k, t) \<in> set T"
  then show "(case (k, t) of (_, t) \<Rightarrow> map (column_row_of t \<circ> snd) (ta_columns t)) \<noteq> []"
    using assms(2) by (auto simp: list_all_iff pg_describable_def)
next
  fix k t r rs
  assume t: "(k, t) \<in> set T" and "mset (r # rs) = mset (case (k, t) of (_, t) \<Rightarrow> map (column_row_of t \<circ> snd) (ta_columns t))"
  then have rows: "mset (r # rs) = mset (map (column_row_of t \<circ> snd) (ta_columns t))" by simp
  have ok: "pg_describable (k, t)" using assms(2) t by (simp add: list_all_iff)
  have "mset (map (\<lambda>r. (pc_column r, pg_column r)) (r # rs)) =
      mset (map ((\<lambda>r. (pc_column r, pg_column r)) \<circ> (column_row_of t \<circ> snd)) (ta_columns t))"
    by (rule mset_map_eq [OF rows])
  also have "map ((\<lambda>r. (pc_column r, pg_column r)) \<circ> (column_row_of t \<circ> snd)) (ta_columns t) = ta_columns t"
    using ok by (intro map_idI) (auto simp: pg_describable_def entry_ok_def list_all_iff column_of_row)
  finally have "bt_of (map (\<lambda>r. (pc_column r, pg_column r)) (r # rs)) = ta_columns t"
    using ok by (intro bt_of_same) (simp_all add: pg_describable_def entry_ok_def table_wf_def)
  moreover have "r \<in> set (map (column_row_of t \<circ> snd) (ta_columns t))"
    using mset_eq_setD [OF rows] by (metis list.set_intros(1))
  then have "pc_schema r = ta_schema t" "pc_table r = ta_name t" by auto
  ultimately show "fold add_column (r # rs) (empty_table (pc_schema r) (pc_table r)) =
      t\<lparr>ta_primary_key := None, ta_indexes := [], ta_foreign_keys := []\<rparr>"
    unfolding fold_add_column by (simp add: empty_table_def bt_of_def)
qed

lemma mset_short: "mset xs = mset ys \<Longrightarrow> length ys \<le> 1 \<Longrightarrow> xs = ys"
  by (cases ys) (simp_all add: mset_single_iff)

lemma indexes_collected:
  assumes "bt_wf T" "list_all pg_describable T" "mset rows = mset (index_rows T)"
  shows "assemble_pg_indexes rows (map (\<lambda>(k, t). (k, t\<lparr>ta_primary_key := None, ta_indexes := [], ta_foreign_keys := []\<rparr>)) T) =
    map (\<lambda>(k, t). (k, t\<lparr>ta_foreign_keys := []\<rparr>)) T"
  unfolding assemble_pg_indexes_def
proof (rule fold_known_tables [OF assms(1) _ assms(3) [unfolded index_rows_def]])
  fix kv r assume "kv \<in> set T" "r \<in> set (case kv of (_, t) \<Rightarrow> primary_rows_of t @ map (index_row_of t \<circ> snd) (ta_indexes t))"
  then show "table_key (pi_schema r) (pi_table r) = fst kv"
    using assms(2)
    by (auto simp: list_all_iff pg_describable_def entry_ok_def index_row_of_def primary_rows_of_def qualified_name_def table_key_def
        split: option.splits)
next
  fix k t rs
  assume t: "(k, t) \<in> set T"
    and "mset rs = mset (case (k, t) of (_, t) \<Rightarrow> primary_rows_of t @ map (index_row_of t \<circ> snd) (ta_indexes t))"
  then have rows: "mset rs = mset (primary_rows_of t @ map (index_row_of t \<circ> snd) (ta_indexes t))" by simp
  have ok: "pg_describable (k, t)" using assms(2) t by (simp add: list_all_iff)
  have prim: "filter pi_is_primary (primary_rows_of t @ map (index_row_of t \<circ> snd) (ta_indexes t)) = primary_rows_of t"
    "filter (\<lambda>r. \<not> pi_is_primary r) (primary_rows_of t @ map (index_row_of t \<circ> snd) (ta_indexes t)) = map (index_row_of t \<circ> snd) (ta_indexes t)"
    by (auto simp: primary_rows_of_def index_row_of_def filter_empty_conv intro!: filter_True split: option.split)
  have parts: "mset (filter P rs) = mset (filter P (primary_rows_of t @ map (index_row_of t \<circ> snd) (ta_indexes t)))" for P
    by (simp only: mset_filter rows)
  have "mset (filter pi_is_primary rs) = mset (primary_rows_of t)" using parts [of pi_is_primary] unfolding prim .
  then have "filter pi_is_primary rs = primary_rows_of t"
    by (rule mset_short) (simp add: primary_rows_of_def split: option.split)
  moreover have "fold (\<lambda>r p. Some \<lparr>pk_name = Some (pi_index r), pk_columns = pi_columns r\<rparr>) (primary_rows_of t) None = ta_primary_key t"
    using ok by (auto simp: primary_rows_of_def pg_describable_def split: option.splits)
  moreover have "mset (filter (\<lambda>r. \<not> pi_is_primary r) rs) = mset (map (index_row_of t \<circ> snd) (ta_indexes t))"
    using parts [of "\<lambda>r. \<not> pi_is_primary r"] unfolding prim .
  then have "mset (map (\<lambda>r. (pi_index r, \<lparr>ix_name = pi_index r, ix_columns = pi_columns r, ix_is_unique = pi_is_unique r\<rparr>)) (filter (\<lambda>r. \<not> pi_is_primary r) rs)) =
      mset (map ((\<lambda>r. (pi_index r, \<lparr>ix_name = pi_index r, ix_columns = pi_columns r, ix_is_unique = pi_is_unique r\<rparr>)) \<circ> (index_row_of t \<circ> snd)) (ta_indexes t))"
    by (rule mset_map_eq)
  moreover have "map ((\<lambda>r. (pi_index r, \<lparr>ix_name = pi_index r, ix_columns = pi_columns r, ix_is_unique = pi_is_unique r\<rparr>)) \<circ> (index_row_of t \<circ> snd)) (ta_indexes t) = ta_indexes t"
    using ok by (intro map_idI) (auto simp: pg_describable_def entry_ok_def list_all_iff index_row_of_def)
  ultimately have "bt_of (map (\<lambda>r. (pi_index r, \<lparr>ix_name = pi_index r, ix_columns = pi_columns r, ix_is_unique = pi_is_unique r\<rparr>)) (filter (\<lambda>r. \<not> pi_is_primary r) rs)) = ta_indexes t"
    and "fold (\<lambda>r p. Some \<lparr>pk_name = Some (pi_index r), pk_columns = pi_columns r\<rparr>) (filter pi_is_primary rs) None = ta_primary_key t"
    using ok by (auto intro!: bt_of_same simp: pg_describable_def entry_ok_def table_wf_def simp del: mset_map)
  then show "fold add_index rs (t\<lparr>ta_primary_key := None, ta_indexes := [], ta_foreign_keys := []\<rparr>) = t\<lparr>ta_foreign_keys := []\<rparr>"
    unfolding fold_add_index by (simp add: bt_of_def)
qed

lemma fks_collected:
  assumes "bt_wf T" "list_all pg_describable T" "mset rows = mset (fk_rows T)"
  shows "assemble_pg_fks rows (map (\<lambda>(k, t). (k, t\<lparr>ta_foreign_keys := []\<rparr>)) T) = T"
proof -
  have "assemble_pg_fks rows (map (\<lambda>(k, t). (k, t\<lparr>ta_foreign_keys := []\<rparr>)) T) = map (\<lambda>(k, t). (k, t)) T"
    unfolding assemble_pg_fks_def
  proof (rule fold_known_tables [OF assms(1) _ assms(3) [unfolded fk_rows_def]])
    fix kv r assume "kv \<in> set T" "r \<in> set (case kv of (_, t) \<Rightarrow> map (fk_row_of t \<circ> snd) (ta_foreign_keys t))"
    then show "table_key (pf_schema r) (pf_table r) = fst kv"
      using assms(2) by (auto simp: list_all_iff pg_describable_def entry_ok_def fk_row_of_def qualified_name_def table_key_def)
  next
    fix k t rs
    let ?f = "\<lambda>r. (pf_constraint r, \<lparr>fk_name = pf_constraint r, fk_columns = pf_columns r,
        fk_ref_schema = (if pf_ref_schema r = [] then None else Some (pf_ref_schema r)),
        fk_ref_table = pf_ref_table r, fk_ref_columns = pf_ref_columns r\<rparr>)"
    assume t: "(k, t) \<in> set T" and "mset rs = mset (case (k, t) of (_, t) \<Rightarrow> map (fk_row_of t \<circ> snd) (ta_foreign_keys t))"
    then have rows: "mset rs = mset (map (fk_row_of t \<circ> snd) (ta_foreign_keys t))" by simp
    have ok: "pg_describable (k, t)" using assms(2) t by (simp add: list_all_iff)
    have "mset (map ?f rs) = mset (map (?f \<circ> (fk_row_of t \<circ> snd)) (ta_foreign_keys t))" by (rule mset_map_eq [OF rows])
    also have "map (?f \<circ> (fk_row_of t \<circ> snd)) (ta_foreign_keys t) = ta_foreign_keys t"
      using ok by (intro map_idI) (auto simp: pg_describable_def entry_ok_def list_all_iff fk_row_of_def split: option.split)
    finally have "bt_of (map ?f rs) = ta_foreign_keys t"
      using ok by (intro bt_of_same) (simp_all add: pg_describable_def entry_ok_def table_wf_def)
    then show "fold add_fk rs (t\<lparr>ta_foreign_keys := []\<rparr>) = t" unfolding fold_add_fk by (simp add: bt_of_def)
  qed
  then show ?thesis by simp
qed

text \<open>
  C12. The collector reads a PostgreSQL schema back exactly: from the catalogue rows of a snapshot,
  in any order, it assembles that snapshot, with nothing lost, merged or attached to another table.
\<close>

theorem collect_postgres_reads_back:
  assumes "bt_wf (sn_tables s)" "list_all pg_describable (sn_tables s)" "sn_db_type s = Postgres"
    and "mset cs = mset (column_rows (sn_tables s))" "mset is = mset (index_rows (sn_tables s))" "mset fs = mset (fk_rows (sn_tables s))"
  shows "drift_collect_postgres \<lparr>ca_columns = Inr cs, ca_indexes = Inr is, ca_fks = Inr fs\<rparr> (sn_database s) = Inr s"
  using columns_collected [OF assms(1,2,4)] indexes_collected [OF assms(1,2,5)] fks_collected [OF assms(1,2,6)] assms(3)
  by (simp add: drift_collect_postgres_def build_snapshot_def)

section \<open>Examples\<close>

definition demo_column :: "string \<Rightarrow> int \<Rightarrow> column_schema" where
  "demo_column name n = \<lparr>co_name = name, co_ordinal = n, co_data_type = ''bigint'', co_is_nullable = (n \<noteq> 1), co_default = None,
     co_char_max_length = None, co_numeric_precision = Some 64, co_numeric_scale = Some 0\<rparr>"

definition demo_orders :: table_schema where
  "demo_orders = \<lparr>ta_schema = ''public'', ta_name = ''orders'',
     ta_columns = [(''id'', demo_column ''id'' 1), (''user_id'', demo_column ''user_id'' 2)],
     ta_primary_key = Some \<lparr>pk_name = Some ''orders_pkey'', pk_columns = [''id'']\<rparr>,
     ta_indexes = [(''orders_user'', \<lparr>ix_name = ''orders_user'', ix_columns = [''user_id''], ix_is_unique = False\<rparr>)],
     ta_foreign_keys = [(''orders_user_fkey'', \<lparr>fk_name = ''orders_user_fkey'', fk_columns = [''user_id''],
       fk_ref_schema = Some ''public'', fk_ref_table = ''users'', fk_ref_columns = [''id'']\<rparr>)]\<rparr>"

definition demo_users :: table_schema where
  "demo_users = \<lparr>ta_schema = ''public'', ta_name = ''users'', ta_columns = [(''id'', demo_column ''id'' 1)],
     ta_primary_key = None, ta_indexes = [], ta_foreign_keys = []\<rparr>"

definition demo_pg :: schema_snapshot where
  "demo_pg = \<lparr>sn_database = ''shop'', sn_db_type = Postgres, sn_tables = [(''public.orders'', demo_orders), (''public.users'', demo_users)]\<rparr>"

lemma demo_pg_describable: "bt_wf (sn_tables demo_pg)" "list_all pg_describable (sn_tables demo_pg)"
  by code_simp+

theorem collect_postgres_reads_back_witness:
  "drift_collect_postgres \<lparr>ca_columns = Inr (rev (column_rows (sn_tables demo_pg))), ca_indexes = Inr (rev (index_rows (sn_tables demo_pg))),
     ca_fks = Inr (fk_rows (sn_tables demo_pg))\<rparr> ''shop'' = Inr demo_pg"
  using collect_postgres_reads_back [OF demo_pg_describable, of "rev (column_rows (sn_tables demo_pg))"
      "rev (index_rows (sn_tables demo_pg))" "fk_rows (sn_tables demo_pg)"]
  by (simp add: demo_pg_def)

definition demo_my_catalogue :: "(my_column_row, my_index_row, my_fk_row) catalogue" where
  "demo_my_catalogue =
     \<lparr>ca_columns = Inr [\<lparr>mc_table = ''t'', mc_column = ''b'', mc_ordinal = 2, mc_data_type = ''int'', mc_is_nullable = ''NO'', mc_default = None,
        mc_char_max_length = None, mc_numeric_precision = None, mc_numeric_scale = None\<rparr>],
      ca_indexes = Inr [\<lparr>mi_table = ''t'', mi_index = ''PRIMARY'', mi_column = ''a'', mi_seq = 2, mi_non_unique = 0\<rparr>,
        \<lparr>mi_table = ''t'', mi_index = ''PRIMARY'', mi_column = ''b'', mi_seq = 1, mi_non_unique = 0\<rparr>],
      ca_fks = Inr [\<lparr>mf_table = ''t'', mf_constraint = ''fk'', mf_column = ''b'', mf_ordinal = 1, mf_ref_table = ''p'', mf_ref_column = ''id''\<rparr>]\<rparr>"

theorem collected_snapshots_well_formed_witness:
  "\<exists>s. drift_collect_mysql demo_my_catalogue ''db'' = Inr s \<and> snapshot_wf s \<and> tables_ok (sn_tables s)"
proof -
  obtain s where s: "drift_collect_mysql demo_my_catalogue ''db'' = Inr s"
    by (simp add: drift_collect_mysql_def demo_my_catalogue_def)
  have "snapshot_wf s \<and> tables_ok (sn_tables s)"
    by (rule collected_snapshots_well_formed) (rule disjI1 [OF s])
  with s show ?thesis by blast
qed

text \<open>The columns of a MySQL primary key come in the order of the key, not of the rows.\<close>

lemma mysql_primary_in_order:
  "(case drift_collect_mysql demo_my_catalogue ''db'' of Inl _ \<Rightarrow> None
    | Inr s \<Rightarrow> map_option ta_primary_key (bt_get (sn_tables s) ''db.t'')) =
   Some (Some \<lparr>pk_name = Some ''PRIMARY'', pk_columns = [''b'', ''a'']\<rparr>)"
  by code_simp

end
