(* ===== verification/Drift_Runner.thy ===== *)
theory Drift_Runner
  imports Drift_Collector Drift_Diff Webhook_Delivery Redaction Audit_Trail Ddl_Approvals
begin

text \<open>
  A drift run: \<open>crates/drift/src/runner.rs\<close> with the canary of \<open>canary.rs\<close> and the payload of
  \<open>notify.rs\<close>. Every statement on the server's own database may fail (the booleans of
  \<open>drift_io\<close>); the source database is its answers (\<open>drift_source\<close>), \<open>serde_json\<close> its readers
  and writer, \<open>reqwest\<close> the three fields of the delivery, as in \<open>Webhook_Delivery\<close>. The rows of
  \<open>schema_snapshots\<close> are in the order of their insertion.
\<close>

section \<open>The canary\<close>

datatype canary_outcome = CanaryReadOnly | CanaryWritable | CanaryUnreachable string

definition canary_interpret :: "bool \<Rightarrow> canary_outcome" where
  "canary_interpret create_succeeded = (if create_succeeded then CanaryWritable else CanaryReadOnly)"

definition mysql_canary_create_sql :: string where
  "mysql_canary_create_sql = ''CREATE TEMPORARY TABLE dbmaster_canary_readonly (id INT)''"

definition mysql_canary_drop_sql :: string where
  "mysql_canary_drop_sql = ''DROP TEMPORARY TABLE dbmaster_canary_readonly''"

definition pg_canary_create_sql :: string where
  "pg_canary_create_sql = ''CREATE TEMP TABLE dbmaster_canary_readonly (id INT)''"

definition transport_keywords :: "string list" where
  "transport_keywords =
     [''connection refused'', ''connection reset'', ''broken pipe'', ''timed out'', ''timeout'', ''dns'', ''no route'',
      ''unreachable'', ''authentication'', ''auth'', ''access denied'', ''password'', ''tls'', ''handshake'']"

definition is_connection_level_error :: "string \<Rightarrow> bool" where
  "is_connection_level_error e = list_ex (\<lambda>k. contains_sub k (map to_ascii_lower e)) transport_keywords"

text \<open>The answers of the source to a statement: an error or nothing. With the outcome, what was sent.\<close>

definition check_mysql :: "(string \<Rightarrow> string + unit) \<Rightarrow> canary_outcome \<times> string list" where
  "check_mysql execute =
     (case execute mysql_canary_create_sql of
        Inr _ \<Rightarrow> (CanaryWritable, [mysql_canary_create_sql, mysql_canary_drop_sql])
      | Inl e \<Rightarrow>
          (if is_connection_level_error e then CanaryUnreachable (canary_redact e) else CanaryReadOnly, [mysql_canary_create_sql]))"

definition check_postgres :: "string + unit \<Rightarrow> string + unit \<Rightarrow> (string \<Rightarrow> string + unit) \<Rightarrow> canary_outcome \<times> string list" where
  "check_postgres acquire begin execute =
     (case acquire of
        Inl e \<Rightarrow> (CanaryUnreachable (canary_redact e), [])
      | Inr _ \<Rightarrow>
          (case begin of
             Inl e \<Rightarrow> (CanaryUnreachable (canary_redact e), [''BEGIN''])
           | Inr _ \<Rightarrow>
               (case execute pg_canary_create_sql of
                  Inr _ \<Rightarrow> CanaryWritable
                | Inl e \<Rightarrow> if is_connection_level_error e then CanaryUnreachable (canary_redact e) else CanaryReadOnly,
                [''BEGIN'', pg_canary_create_sql, ''ROLLBACK''])))"

section \<open>The payload\<close>

record webhook_payload =
  wp_schema :: string
  wp_event_id :: string
  wp_event_at :: string
  wp_instance_uuid :: string
  wp_task :: "string \<times> string"
  wp_connection :: "string \<times> string"
  wp_source :: "string \<times> string"
  wp_prior_snapshot_at :: "string option"
  wp_new_snapshot_at :: string
  wp_change_count :: "32 word"
  wp_kinds :: drift_kind_counts
  wp_drifts :: "drift list"

definition payload_schema :: string where
  "payload_schema = ''dbmaster.drift-event.v1''"

definition payload_new :: "string \<Rightarrow> string \<Rightarrow> string \<Rightarrow> drift list \<Rightarrow> string option \<Rightarrow> string \<Rightarrow> webhook_payload" where
  "payload_new event_id event_at instance_uuid drifts prior_at new_at =
     \<lparr>wp_schema = payload_schema, wp_event_id = event_id, wp_event_at = event_at, wp_instance_uuid = instance_uuid,
      wp_task = ([], []), wp_connection = ([], []), wp_source = ([], []), wp_prior_snapshot_at = prior_at,
      wp_new_snapshot_at = new_at, wp_change_count = counts_total (summarize drifts), wp_kinds = summarize drifts, wp_drifts = drifts\<rparr>"

definition opt_debug :: "nat option \<Rightarrow> string" where
  "opt_debug x = (case x of None \<Rightarrow> ''None'' | Some n \<Rightarrow> ''Some('' @ show_nat n @ '')'')"

fun notify_error_str :: "notify_error \<Rightarrow> string" where
  "notify_error_str InsecureUrl = ''webhook URL rejected: must be https, or http://localhost in dev mode''"
| "notify_error_str (MalformedUrl s) = ''webhook URL is malformed: '' @ s"
| "notify_error_str (ClientBuild s) = ''HTTP client build failed: '' @ s"
| "notify_error_str (AllAttemptsFailed n last_status last_error) =
     ''webhook delivery failed after '' @ show_nat n @ '' attempts; last_status='' @ opt_debug last_status @
     ''; last_error='' @ last_error"

section \<open>State\<close>

record drift_task =
  dk_id :: string
  dk_name :: string
  dk_config :: string
  dk_source_db_id :: string
  dk_notify_channels :: string

record drift_connection =
  dn_id :: string
  dn_name :: string
  dn_db_type :: string
  dn_password :: string
  dn_default_database :: "string option"
  dn_kind :: string

record snapshot_row =
  ss_id :: string
  ss_connection_id :: string
  ss_captured_at :: string
  ss_hash :: string
  ss_json :: string
  ss_prior_hash :: "string option"
  ss_task_id :: string
  ss_change_count :: nat

record drift_run_summary =
  rs_drift_count :: nat
  rs_webhook_status :: string
  rs_duration_ms :: nat
  rs_snapshot_id :: string
  rs_baseline :: "string option"

record drift_outcome =
  oc_drift_count :: nat
  oc_webhook_status :: string
  oc_snapshot_id :: string
  oc_baseline :: "string option"

record drift_history =
  dh_id :: string
  dh_task_id :: string
  dh_started_at :: string
  dh_finished_at :: "string option"
  dh_status :: string
  dh_summary :: "drift_run_summary option"
  dh_error :: "string option"
  dh_triggered_by :: string

record drift_db =
  db_tasks :: "string \<rightharpoonup> drift_task"
  db_connections :: "string \<rightharpoonup> drift_connection"
  db_snapshots :: "snapshot_row list"
  db_audit :: "audit_row list"
  db_history :: "drift_history list"
  db_status :: "string \<rightharpoonup> string \<times> string"

record drift_source =
  dx_connect :: "string + unit"
  dx_acquire :: "string + unit"
  dx_begin :: "string + unit"
  dx_execute :: "string \<Rightarrow> string + unit"
  dx_mysql :: "(my_column_row, my_index_row, my_fk_row) catalogue"
  dx_postgres :: "string list \<Rightarrow> (pg_column_row, pg_index_row, pg_fk_row) catalogue"

record drift_io =
  di_run_id :: string
  di_start :: string
  di_end :: string
  di_elapsed_ms :: nat
  di_snap_id :: string
  di_snap_at :: string
  di_event_id :: string
  di_event_at :: string
  di_install_uuid :: string
  di_open_ok :: bool
  di_close_ok :: bool
  di_status_ok :: bool
  di_task_ok :: bool
  di_conn_ok :: bool
  di_prior_ok :: bool
  di_insert_ok :: bool
  di_audit_start :: audit_io
  di_audit_canary :: audit_io
  di_audit_webhook :: audit_io
  di_crypto :: crypto
  di_key :: "nat list"
  di_parse :: "string \<Rightarrow> json option"
  di_read_snapshot :: "string \<Rightarrow> string + schema_snapshot"
  di_to_vec :: "json \<Rightarrow> string"
  di_digest :: "string \<Rightarrow> string"
  di_client :: "string + unit"
  di_parse_url :: "string \<Rightarrow> string + string option"
  di_send :: "webhook_payload \<Rightarrow> nat \<Rightarrow> string + nat"
  di_dev_mode :: bool

section \<open>The run\<close>

definition drift_first_webhook_url :: "(string \<Rightarrow> json option) \<Rightarrow> string \<Rightarrow> string option" where
  "drift_first_webhook_url parse channels =
     Option.bind (Option.bind (parse channels) json_as_array)
       (\<lambda>xs. case xs of [] \<Rightarrow> None | x # _ \<Rightarrow> json_as_str x)"

definition pg_schemas_from_task_config :: "(string \<Rightarrow> json option) \<Rightarrow> string \<Rightarrow> string list" where
  "pg_schemas_from_task_config parse config =
     (case Option.bind (Option.bind (parse config) (json_get ''pg_schemas'')) json_as_array of
        None \<Rightarrow> [''public'']
      | Some xs \<Rightarrow>
          (let out = filter (\<lambda>s. s \<noteq> []) (List.map_filter json_as_str xs) in if out = [] then [''public''] else out))"

definition audit_access ::
  "audit_io \<Rightarrow> string \<Rightarrow> drift_audit_action \<Rightarrow> audit_status \<Rightarrow> string option \<Rightarrow> string \<Rightarrow> drift_db \<Rightarrow> (string + unit) \<times> drift_db" where
  "audit_access io conn_id action status err triggered_by db =
     (let (r, rows) = drift_log_access io conn_id action status err triggered_by (db_audit db) in (r, db\<lparr>db_audit := rows\<rparr>))"

definition run_canary :: "drift_io \<Rightarrow> canary_outcome \<Rightarrow> string \<Rightarrow> string \<Rightarrow> drift_db \<Rightarrow> (string + unit) \<times> drift_db" where
  "run_canary io outcome conn_id triggered_by db =
     (let (status, err) = (case outcome of
          CanaryReadOnly \<Rightarrow> (AuditOk, None)
        | CanaryWritable \<Rightarrow> (AuditError, Some ''account is writable; expected read-only'')
        | CanaryUnreachable m \<Rightarrow> (AuditError, Some m));
          db' = snd (audit_access (di_audit_canary io) conn_id CanaryCheck status err triggered_by db)
      in (case outcome of
            CanaryReadOnly \<Rightarrow> Inr ()
          | CanaryWritable \<Rightarrow> Inl ''source account is writable; refusing to run''
          | CanaryUnreachable _ \<Rightarrow> Inl ''source DB unreachable during canary'', db'))"

text \<open>Steps 4 to 6: open the source, probe its account, read its schema.\<close>

definition take_snapshot ::
  "drift_io \<Rightarrow> drift_source \<Rightarrow> drift_task \<Rightarrow> drift_connection \<Rightarrow> db_type \<Rightarrow> string \<Rightarrow> drift_db \<Rightarrow> (string + schema_snapshot) \<times> drift_db" where
  "take_snapshot io src task conn t triggered_by db =
     (case dx_connect src of
        Inl e \<Rightarrow> (Inl ((case t of MySql \<Rightarrow> ''mysql'' | Postgres \<Rightarrow> ''postgres'') @ '' connect failed: '' @ e), db)
      | Inr _ \<Rightarrow>
          (let outcome = (case t of
                 MySql \<Rightarrow> fst (check_mysql (dx_execute src))
               | Postgres \<Rightarrow> fst (check_postgres (dx_acquire src) (dx_begin src) (dx_execute src)));
               (r, db) = (if dn_kind conn = ''source_drift'' then run_canary io outcome (dn_id conn) triggered_by db else (Inr (), db));
               name = (case dn_default_database conn of Some d \<Rightarrow> d | None \<Rightarrow> [])
           in case r of
                Inl e \<Rightarrow> (Inl e, db)
              | Inr _ \<Rightarrow>
                  (case t of
                     MySql \<Rightarrow> drift_collect_mysql (dx_mysql src) name
                   | Postgres \<Rightarrow> drift_collect_postgres (dx_postgres src (pg_schemas_from_task_config (di_parse io) (dk_config task))) name,
                   db)))"

text \<open>\<open>ORDER BY captured_at DESC LIMIT 1\<close>; of equal times the row the query meets first.\<close>

definition latest_snapshot :: "string \<Rightarrow> snapshot_row list \<Rightarrow> snapshot_row option" where
  "latest_snapshot conn_id rows =
     (case filter (\<lambda>r. ss_connection_id r = conn_id) rows of
        [] \<Rightarrow> None
      | r # rs \<Rightarrow> Some (fold (\<lambda>x best. if ss_captured_at best < ss_captured_at x then x else best) rs r))"

definition drifts_since ::
  "drift_io \<Rightarrow> snapshot_row option \<Rightarrow> schema_snapshot \<Rightarrow> string \<Rightarrow> string + drift list \<times> string option" where
  "drifts_since io prior snap hash =
     (case prior of
        None \<Rightarrow> Inr ([], None)
      | Some p \<Rightarrow>
          if ss_hash p = hash then Inr ([], Some (ss_captured_at p))
          else (case di_read_snapshot io (ss_json p) of
                  Inl e \<Rightarrow> Inl (''parse prior snapshot json: '' @ e)
                | Inr old \<Rightarrow> Inr (compute_drifts old snap, Some (ss_captured_at p))))"

definition build_payload ::
  "drift_io \<Rightarrow> schema_snapshot \<Rightarrow> drift list \<Rightarrow> string option \<Rightarrow> drift_task \<Rightarrow> drift_connection \<Rightarrow> db_type \<Rightarrow> webhook_payload" where
  "build_payload io snap drifts prior_at task conn t =
     (payload_new (di_event_id io) (di_event_at io) (di_install_uuid io) drifts prior_at (di_snap_at io))
       \<lparr>wp_task := (dk_id task, dk_name task), wp_connection := (dn_id conn, dn_name conn),
        wp_source := (as_wire_str t, sn_database snap)\<rparr>"

text \<open>Step 10, when there are drifts: the answer is the webhook status.\<close>

definition notify_drifts :: "drift_io \<Rightarrow> webhook_payload \<Rightarrow> drift_task \<Rightarrow> string \<Rightarrow> string \<Rightarrow> drift_db \<Rightarrow> string \<times> drift_db" where
  "notify_drifts io payload task conn_id triggered_by db =
     (case drift_first_webhook_url (di_parse io) (dk_notify_channels task) of
        None \<Rightarrow> (''skipped'', db)
      | Some url \<Rightarrow>
          (case fst (drift_deliver (di_client io) (di_parse_url io) (di_send io payload) url (di_dev_mode io) default_backoffs) of
             Inr _ \<Rightarrow> (''ok'', snd (audit_access (di_audit_webhook io) conn_id WebhookDeliver AuditOk None triggered_by db))
           | Inl e \<Rightarrow> (''failed'',
               snd (audit_access (di_audit_webhook io) conn_id WebhookDeliver AuditError (Some (notify_error_str e)) triggered_by db))))"

text \<open>Steps 7 to 10, with the new snapshot at hand.\<close>

definition record_snapshot ::
  "drift_io \<Rightarrow> drift_task \<Rightarrow> drift_connection \<Rightarrow> db_type \<Rightarrow> string \<Rightarrow> schema_snapshot \<Rightarrow> string \<Rightarrow> drift_db \<Rightarrow>
   (string + drift_outcome) \<times> drift_db" where
  "record_snapshot io task conn t task_id snap triggered_by db =
     (let hash = canonical_hash (di_to_vec io) (di_digest io) snap; prior = latest_snapshot (dn_id conn) (db_snapshots db) in
      if \<not> di_prior_ok io then (Inl ''fetch prior snapshot'', db)
      else case drifts_since io prior snap hash of
        Inl e \<Rightarrow> (Inl e, db)
      | Inr (drifts, prior_at) \<Rightarrow>
          if \<not> di_insert_ok io then (Inl ''insert schema_snapshots row'', db)
          else
            (let row = \<lparr>ss_id = di_snap_id io, ss_connection_id = dn_id conn, ss_captured_at = di_snap_at io, ss_hash = hash,
                   ss_json = canonical_json (di_to_vec io) snap, ss_prior_hash = map_option ss_hash prior, ss_task_id = task_id,
                   ss_change_count = length drifts\<rparr>;
                 db = db\<lparr>db_snapshots := db_snapshots db @ [row]\<rparr>;
                 (status, db) = (if drifts = [] then (''skipped'', db)
                   else notify_drifts io (build_payload io snap drifts prior_at task conn t) task (dn_id conn) triggered_by db)
             in (Inr \<lparr>oc_drift_count = length drifts, oc_webhook_status = status, oc_snapshot_id = di_snap_id io,
                  oc_baseline = map_option ss_id prior\<rparr>, db)))"

definition drift_run_inner ::
  "drift_io \<Rightarrow> (string \<Rightarrow> string \<Rightarrow> drift_source) \<Rightarrow> string \<Rightarrow> string \<Rightarrow> drift_db \<Rightarrow> (string + drift_outcome) \<times> drift_db" where
  "drift_run_inner io sources task_id triggered_by db =
     (if \<not> di_task_ok io then (Inl ''fetch scheduled_task'', db)
      else case db_tasks db task_id of
        None \<Rightarrow> (Inl (''task '' @ task_id @ '' not found''), db)
      | Some task \<Rightarrow>
          if \<not> di_conn_ok io then (Inl ''fetch source connection'', db)
          else case db_connections db (dk_source_db_id task) of
            None \<Rightarrow> (Inl (''source connection '' @ dk_source_db_id task @ '' not found''), db)
          | Some conn \<Rightarrow>
              (case decrypt_password (di_crypto io) (di_key io) (dn_password conn) of
                 Inl e \<Rightarrow> (Inl (''credential decrypt failed: '' @ cred_error_str e), db)
               | Inr password \<Rightarrow>
                   (case audit_access (di_audit_start io) (dn_id conn) SchemaSnapshot AuditOk None triggered_by db of
                      (Inl e, db) \<Rightarrow> (Inl ''audit schema_snapshot start'', db)
                    | (Inr _, db) \<Rightarrow>
                        (case from_db_type_str (dn_db_type conn) of
                           None \<Rightarrow> (Inl (''unsupported db_type: '' @ dn_db_type conn), db)
                         | Some t \<Rightarrow>
                             (case take_snapshot io (sources (dn_id conn) password) task conn t triggered_by db of
                                (Inl e, db) \<Rightarrow> (Inl e, db)
                              | (Inr snap, db) \<Rightarrow> record_snapshot io task conn t task_id snap triggered_by db)))))"

definition drift_close :: "drift_io \<Rightarrow> string \<Rightarrow> drift_run_summary option \<Rightarrow> string option \<Rightarrow> drift_db \<Rightarrow> drift_db" where
  "drift_close io status summary err db =
     (if di_close_ok io
      then db\<lparr>db_history := map (\<lambda>h. if dh_id h = di_run_id io
             then h\<lparr>dh_finished_at := Some (di_end io), dh_status := status,
               dh_summary := (case summary of None \<Rightarrow> dh_summary h | s \<Rightarrow> s),
               dh_error := (case err of None \<Rightarrow> dh_error h | e \<Rightarrow> e)\<rparr> else h) (db_history db)\<rparr>
      else db)"

definition drift_update_task_status :: "drift_io \<Rightarrow> string \<Rightarrow> string \<Rightarrow> drift_db \<Rightarrow> drift_db" where
  "drift_update_task_status io task_id status db =
     (if di_status_ok io \<and> db_tasks db task_id \<noteq> None
      then db\<lparr>db_status := (db_status db)(task_id \<mapsto> (di_end io, status))\<rparr> else db)"

definition drift_run_task ::
  "drift_io \<Rightarrow> (string \<Rightarrow> string \<Rightarrow> drift_source) \<Rightarrow> string \<Rightarrow> string \<Rightarrow> drift_db \<Rightarrow> (string + drift_outcome) \<times> drift_db" where
  "drift_run_task io sources task_id triggered_by db =
     (if \<not> di_open_ok io then (Inl ''insert task_run_history running row'', db)
      else
        (let db = db\<lparr>db_history := db_history db @
               [\<lparr>dh_id = di_run_id io, dh_task_id = task_id, dh_started_at = di_start io, dh_finished_at = None, dh_status = ''running'',
                 dh_summary = None, dh_error = None, dh_triggered_by = triggered_by\<rparr>]\<rparr>;
             (outcome, db) = drift_run_inner io sources task_id triggered_by db
         in (outcome,
             case outcome of
               Inr r \<Rightarrow>
                 drift_update_task_status io task_id ''succeeded''
                   (drift_close io ''succeeded''
                     (Some \<lparr>rs_drift_count = oc_drift_count r, rs_webhook_status = oc_webhook_status r, rs_duration_ms = di_elapsed_ms io,
                        rs_snapshot_id = oc_snapshot_id r, rs_baseline = oc_baseline r\<rparr>) None db)
             | Inl e \<Rightarrow>
                 drift_update_task_status io task_id ''failed'' (drift_close io ''failed'' None (Some (drift_redact_error e)) db))))"

section \<open>What a run stores\<close>

lemma audit_access_snapshots [simp]:
  "db_snapshots (snd (audit_access io c a st e t db)) = db_snapshots db"
  "audit_access io c a st e t db = (r, db') \<Longrightarrow> db_snapshots db' = db_snapshots db"
  by (auto simp: audit_access_def split: prod.splits)

lemma run_canary_snapshots: "run_canary io oc c t db = (r, db') \<Longrightarrow> db_snapshots db' = db_snapshots db"
  by (auto simp: run_canary_def Let_def split: prod.splits)

lemma take_snapshot_frame:
  assumes "take_snapshot io src task conn t trig db = (r, db')"
  shows "db_snapshots db' = db_snapshots db"
  using assms
  by (auto simp: take_snapshot_def Let_def run_canary_snapshots split: sum.splits prod.splits if_splits)

lemma take_snapshot_wf: "take_snapshot io src task conn t trig db = (Inr snap, db') \<Longrightarrow> snapshot_wf snap"
  by (auto simp: take_snapshot_def Let_def dest!: collected_tables_ok intro: tables_ok_snapshot_wf
      split: sum.splits prod.splits if_splits db_type.splits)

lemma notify_drifts_snapshots: "db_snapshots (snd (notify_drifts io p task c t db)) = db_snapshots db"
  by (simp add: notify_drifts_def split: option.split sum.split)

definition stored_row :: "drift_io \<Rightarrow> drift_connection \<Rightarrow> string \<Rightarrow> schema_snapshot \<Rightarrow> snapshot_row option \<Rightarrow> drift list \<Rightarrow> snapshot_row" where
  "stored_row io conn task_id snap prior drifts =
     \<lparr>ss_id = di_snap_id io, ss_connection_id = dn_id conn, ss_captured_at = di_snap_at io,
      ss_hash = canonical_hash (di_to_vec io) (di_digest io) snap, ss_json = canonical_json (di_to_vec io) snap,
      ss_prior_hash = map_option ss_hash prior, ss_task_id = task_id, ss_change_count = length drifts\<rparr>"

lemma record_snapshot_cases:
  assumes "record_snapshot io task conn t task_id snap trig db = (r, db')"
  obtains e where "r = Inl e" "db_snapshots db' = db_snapshots db"
  | drifts at oc where "r = Inr oc" "oc_drift_count oc = length drifts"
      "drifts_since io (latest_snapshot (dn_id conn) (db_snapshots db)) snap (canonical_hash (di_to_vec io) (di_digest io) snap) = Inr (drifts, at)"
      "db_snapshots db' = db_snapshots db @ [stored_row io conn task_id snap (latest_snapshot (dn_id conn) (db_snapshots db)) drifts]"
proof -
  let ?prior = "latest_snapshot (dn_id conn) (db_snapshots db)"
  show ?thesis
  proof (cases "di_prior_ok io \<and> di_insert_ok io")
    case False
    then show ?thesis using assms that(1) by (auto simp: record_snapshot_def Let_def split: if_splits sum.splits)
  next
    case ok: True
    show ?thesis
    proof (cases "drifts_since io ?prior snap (canonical_hash (di_to_vec io) (di_digest io) snap)")
      case (Inl e)
      then show ?thesis using assms that(1) ok by (auto simp: record_snapshot_def Let_def)
    next
      case (Inr da)
      obtain drifts at where da: "da = (drifts, at)" by (cases da)
      let ?db = "db\<lparr>db_snapshots := db_snapshots db @ [stored_row io conn task_id snap ?prior drifts]\<rparr>"
      let ?st = "if drifts = [] then (''skipped'', ?db)
        else notify_drifts io (build_payload io snap drifts at task conn t) task (dn_id conn) trig ?db"
      have "record_snapshot io task conn t task_id snap trig db =
          (Inr \<lparr>oc_drift_count = length drifts, oc_webhook_status = fst ?st, oc_snapshot_id = di_snap_id io,
             oc_baseline = map_option ss_id ?prior\<rparr>, snd ?st)"
        using ok by (simp add: record_snapshot_def Let_def Inr da stored_row_def case_prod_beta)
      then have r: "r = Inr \<lparr>oc_drift_count = length drifts, oc_webhook_status = fst ?st, oc_snapshot_id = di_snap_id io,
             oc_baseline = map_option ss_id ?prior\<rparr>" and db': "db' = snd ?st"
        using assms by simp_all
      have "db_snapshots db' = db_snapshots ?db" unfolding db' by (simp add: notify_drifts_snapshots)
      then show ?thesis using that(2) [OF r _ Inr [unfolded da]] by simp
    qed
  qed
qed

lemma drift_run_inner_cases:
  assumes "drift_run_inner io sources task_id trig db = (r, db')"
  obtains e where "r = Inl e" "db_snapshots db' = db_snapshots db"
  | task conn t pw db1 db2 snap where "db_tasks db task_id = Some task" "db_connections db (dk_source_db_id task) = Some conn"
      "from_db_type_str (dn_db_type conn) = Some t" "db_snapshots db1 = db_snapshots db" "db_snapshots db2 = db_snapshots db"
      "take_snapshot io (sources (dn_id conn) pw) task conn t trig db1 = (Inr snap, db2)"
      "record_snapshot io task conn t task_id snap trig db2 = (r, db')"
proof -
  show ?thesis
  proof (cases "\<exists>task conn pw db1 t. di_task_ok io \<and> di_conn_ok io \<and> db_tasks db task_id = Some task \<and>
      db_connections db (dk_source_db_id task) = Some conn \<and>
      decrypt_password (di_crypto io) (di_key io) (dn_password conn) = Inr pw \<and>
      audit_access (di_audit_start io) (dn_id conn) SchemaSnapshot AuditOk None trig db = (Inr (), db1) \<and>
      from_db_type_str (dn_db_type conn) = Some t")
    case False
    then show ?thesis
      using assms that(1) by (auto simp: drift_run_inner_def split: if_splits option.splits sum.splits prod.splits)
  next
    case True
    then obtain task conn pw db1 t where ok: "di_task_ok io" "di_conn_ok io" "db_tasks db task_id = Some task"
      "db_connections db (dk_source_db_id task) = Some conn"
      "decrypt_password (di_crypto io) (di_key io) (dn_password conn) = Inr pw"
      "audit_access (di_audit_start io) (dn_id conn) SchemaSnapshot AuditOk None trig db = (Inr (), db1)"
      "from_db_type_str (dn_db_type conn) = Some t" by blast
    obtain q db2 where take: "take_snapshot io (sources (dn_id conn) pw) task conn t trig db1 = (q, db2)" by fastforce
    have same: "db_snapshots db1 = db_snapshots db" "db_snapshots db2 = db_snapshots db"
      using audit_access_snapshots(2) [OF ok(6)] take_snapshot_frame [OF take] by simp_all
    show ?thesis
    proof (cases q)
      case (Inl e)
      then have "r = Inl e" "db' = db2" using assms ok take by (simp_all add: drift_run_inner_def)
      then show ?thesis using same that(1) by simp
    next
      case (Inr snap)
      then have "record_snapshot io task conn t task_id snap trig db2 = (r, db')"
        using assms ok take by (simp add: drift_run_inner_def)
      then show ?thesis using that(2) ok same take Inr by blast
    qed
  qed
qed

lemma drift_close_snapshots [simp]: "db_snapshots (drift_close io s su e db) = db_snapshots db"
  by (simp add: drift_close_def)

lemma drift_update_snapshots [simp]: "db_snapshots (drift_update_task_status io t s db) = db_snapshots db"
  by (simp add: drift_update_task_status_def)

lemma drift_run_task_snapshots:
  "db_snapshots (snd (drift_run_task io sources task_id trig db)) =
     (if di_open_ok io then db_snapshots (snd (drift_run_inner io sources task_id trig
        (db\<lparr>db_history := db_history db @
               [\<lparr>dh_id = di_run_id io, dh_task_id = task_id, dh_started_at = di_start io, dh_finished_at = None, dh_status = ''running'',
                 dh_summary = None, dh_error = None, dh_triggered_by = trig\<rparr>]\<rparr>)))
      else db_snapshots db)"
  by (simp add: drift_run_task_def Let_def case_prod_beta split: sum.split)

section \<open>The history of a connection\<close>

text \<open>
  Runs one after the other, of any tasks, with any failures; the writer, digest and reader of the
  snapshots are the same for all, and the time of a new snapshot is later than those stored.
\<close>

inductive drift_runs ::
  "(json \<Rightarrow> string) \<Rightarrow> (string \<Rightarrow> string) \<Rightarrow> (string \<Rightarrow> string + schema_snapshot) \<Rightarrow> drift_db \<Rightarrow> drift_db \<Rightarrow> bool"
  for w dg rd db where
  no_run: "drift_runs w dg rd db db"
| one_run: "drift_runs w dg rd db db1 \<Longrightarrow> di_to_vec io = w \<Longrightarrow> di_digest io = dg \<Longrightarrow> di_read_snapshot io = rd \<Longrightarrow>
    list_all (\<lambda>r. ss_captured_at r < di_snap_at io) (db_snapshots db1) \<Longrightarrow>
    drift_runs w dg rd db (snd (drift_run_task io sources task_id trig db1))"

definition rows_of :: "string \<Rightarrow> drift_db \<Rightarrow> snapshot_row list" where
  "rows_of c db = filter (\<lambda>r. ss_connection_id r = c) (db_snapshots db)"

text \<open>Of two rows that follow each other, the second names the first and counts what changed.\<close>

definition row_follows :: "(string \<Rightarrow> string + schema_snapshot) \<Rightarrow> snapshot_row \<Rightarrow> snapshot_row \<Rightarrow> bool" where
  "row_follows rd a b \<longleftrightarrow> ss_prior_hash b = Some (ss_hash a) \<and>
     (\<exists>old new. rd (ss_json a) = Inr old \<and> rd (ss_json b) = Inr new \<and> ss_change_count b = length (compute_drifts old new))"

definition starts_history :: "snapshot_row list \<Rightarrow> bool" where
  "starts_history rs = (case rs of [] \<Rightarrow> True | r # _ \<Rightarrow> ss_prior_hash r = None \<and> ss_change_count r = 0)"

definition row_true :: "(json \<Rightarrow> string) \<Rightarrow> (string \<Rightarrow> string) \<Rightarrow> snapshot_row \<Rightarrow> bool" where
  "row_true w dg r \<longleftrightarrow> (\<exists>s. snapshot_wf s \<and> ss_json r = canonical_json w s \<and> ss_hash r = canonical_hash w dg s)"

definition history_inv :: "(json \<Rightarrow> string) \<Rightarrow> (string \<Rightarrow> string) \<Rightarrow> (string \<Rightarrow> string + schema_snapshot) \<Rightarrow> drift_db \<Rightarrow> bool" where
  "history_inv w dg rd db \<longleftrightarrow> list_all (row_true w dg) (db_snapshots db) \<and>
     sorted_wrt (\<lambda>a b. ss_captured_at a < ss_captured_at b) (db_snapshots db) \<and>
     (\<forall>c. successively (row_follows rd) (rows_of c db) \<and> starts_history (rows_of c db))"

lemma latest_sorted:
  assumes "sorted_wrt (\<lambda>a b. ss_captured_at a < ss_captured_at b) rs"
  shows "latest_snapshot c rs = (let own = filter (\<lambda>r. ss_connection_id r = c) rs in if own = [] then None else Some (last own))"
proof -
  let ?later = "\<lambda>x best. if ss_captured_at best < ss_captured_at x then x else best"
  have latest: "fold ?later xs r = last (r # xs)" if "sorted_wrt (\<lambda>a b. ss_captured_at a < ss_captured_at b) (r # xs)" for xs r
    using that by (induction xs arbitrary: r) auto
  have sorted: "sorted_wrt (\<lambda>a b. ss_captured_at a < ss_captured_at b) (filter (\<lambda>r. ss_connection_id r = c) rs)"
    using assms by (rule sorted_wrt_filter)
  show ?thesis
  proof (cases "filter (\<lambda>r. ss_connection_id r = c) rs")
    case (Cons r xs)
    then show ?thesis using latest [of r xs] sorted by (simp add: latest_snapshot_def Let_def)
  qed (simp add: latest_snapshot_def)
qed

lemma successively_snoc: "successively P (xs @ [x]) \<longleftrightarrow> successively P xs \<and> (xs = [] \<or> P (last xs) x)"
  by (auto simp: successively_append_iff)

text \<open>The short cut of equal hashes is sound when writer and digest are injective.\<close>

lemma drift_free_refl: "drift_free s s"
proof -
  have "rel_option column_drift_free x x" for x by (cases x) (simp_all add: column_drift_free_def)
  then have "table_drift_free t t" for t by (simp add: table_drift_free_def rel_fun_def)
  then have "rel_option table_drift_free x x" for x by (cases x) simp_all
  then show ?thesis by (simp add: drift_free_def rel_fun_def)
qed

lemma drifts_since_exact:
  assumes "inj w" "\<And>x y. dg (w x) = dg (w y) \<Longrightarrow> w x = w y" "\<And>s. snapshot_wf s \<Longrightarrow> rd (canonical_json w s) = Inr s"
    and "di_to_vec io = w" "di_digest io = dg" "di_read_snapshot io = rd"
    and "row_true w dg p" "snapshot_wf snap" "drifts_since io (Some p) snap (canonical_hash w dg snap) = Inr (drifts, at)"
  shows "\<exists>old. rd (ss_json p) = Inr old \<and> drifts = compute_drifts old snap"
proof -
  obtain s where s: "snapshot_wf s" "ss_json p = canonical_json w s" "ss_hash p = canonical_hash w dg s"
    using assms(7) by (auto simp: row_true_def)
  show ?thesis
  proof (cases "ss_hash p = canonical_hash w dg snap")
    case True
    then have "s = snap"
      using s(3) canonical_hash_faithful [OF assms(1), of dg s snap] assms(2) by (simp add: canonical_json_def)
    moreover have "compute_drifts snap snap = []" using assms(8) compute_drifts_nil drift_free_refl by blast
    ultimately show ?thesis using s assms(3,9) True by (auto simp: drifts_since_def)
  next
    case False
    then show ?thesis using s assms(3,6,9) by (auto simp: drifts_since_def)
  qed
qed

lemma history_inv_append:
  assumes inv: "history_inv w dg rd db" and w: "inj w" "\<And>x y. dg (w x) = dg (w y) \<Longrightarrow> w x = w y"
      "\<And>s. snapshot_wf s \<Longrightarrow> rd (canonical_json w s) = Inr s"
    and io: "di_to_vec io = w" "di_digest io = dg" "di_read_snapshot io = rd"
    and time: "list_all (\<lambda>r. ss_captured_at r < di_snap_at io) (db_snapshots db)" and snap: "snapshot_wf snap"
    and drifts: "drifts_since io (latest_snapshot (dn_id conn) (db_snapshots db)) snap (canonical_hash w dg snap) = Inr (drifts, at)"
    and db': "db_snapshots db' = db_snapshots db @ [stored_row io conn task_id snap (latest_snapshot (dn_id conn) (db_snapshots db)) drifts]"
  shows "history_inv w dg rd db'"
proof -
  let ?prior = "latest_snapshot (dn_id conn) (db_snapshots db)"
  let ?row = "stored_row io conn task_id snap ?prior drifts"
  let ?own = "rows_of (dn_id conn) db"
  have sorted: "sorted_wrt (\<lambda>a b. ss_captured_at a < ss_captured_at b) (db_snapshots db)" using inv by (simp add: history_inv_def)
  have row: "ss_captured_at ?row = di_snap_at io" "ss_connection_id ?row = dn_id conn" "row_true w dg ?row"
    using snap io by (auto simp: stored_row_def row_true_def)
  have prior: "?prior = (if ?own = [] then None else Some (last ?own))"
    using latest_sorted [OF sorted] by (simp add: rows_of_def Let_def)
  have first: "starts_history [?row]" if "?own = []"
    using that drifts prior by (simp add: starts_history_def stored_row_def drifts_since_def)
  have follows: "row_follows rd (last ?own) ?row" if "?own \<noteq> []"
  proof -
    have "last ?own \<in> set (db_snapshots db)" using that last_in_set by (fastforce simp: rows_of_def)
    then have true: "row_true w dg (last ?own)" using inv by (simp add: history_inv_def list_all_iff)
    have "drifts_since io (Some (last ?own)) snap (canonical_hash w dg snap) = Inr (drifts, at)" using drifts prior that by simp
    then obtain old where old: "rd (ss_json (last ?own)) = Inr old" "drifts = compute_drifts old snap"
      using drifts_since_exact [OF w io true snap] by blast
    then show ?thesis using that prior w(3) [OF snap] io by (auto simp: row_follows_def stored_row_def)
  qed
  have own: "rows_of c db' = rows_of c db @ (if dn_id conn = c then [?row] else [])" for c
    using row(2) by (simp add: rows_of_def db')
  have "starts_history (rows_of c db @ (if dn_id conn = c then [?row] else []))" for c
    using inv first by (cases "rows_of c db") (auto simp: history_inv_def starts_history_def split: list.splits)
  moreover have "successively (row_follows rd) (rows_of c db @ (if dn_id conn = c then [?row] else []))" for c
    using inv follows by (auto simp: history_inv_def successively_snoc)
  moreover have "sorted_wrt (\<lambda>a b. ss_captured_at a < ss_captured_at b) (db_snapshots db')"
    using sorted time row(1) by (simp add: db' sorted_wrt_append list_all_iff)
  ultimately show ?thesis using inv row(3) by (simp add: history_inv_def own db')
qed

lemma history_inv_same: "db_snapshots db' = db_snapshots db \<Longrightarrow> history_inv w dg rd db \<Longrightarrow> history_inv w dg rd db'"
  by (simp add: history_inv_def rows_of_def)

lemma history_inv_run:
  assumes inv: "history_inv w dg rd db" and w: "inj w" "\<And>x y. dg (w x) = dg (w y) \<Longrightarrow> w x = w y"
      "\<And>s. snapshot_wf s \<Longrightarrow> rd (canonical_json w s) = Inr s"
    and io: "di_to_vec io = w" "di_digest io = dg" "di_read_snapshot io = rd"
    and time: "list_all (\<lambda>r. ss_captured_at r < di_snap_at io) (db_snapshots db)"
  shows "history_inv w dg rd (snd (drift_run_task io sources task_id trig db))"
proof -
  have "history_inv w dg rd db'" if inner: "drift_run_inner io sources task_id trig db0 = (r, db')" and same: "db_snapshots db0 = db_snapshots db" for db0 db' r
    using inner
  proof (cases rule: drift_run_inner_cases)
    case (1 e)
    then show ?thesis using history_inv_same inv same by metis
  next
    case (2 task conn t pw db1 db2 snap)
    have eq: "db_snapshots db2 = db_snapshots db" using 2 same by simp
    from 2(7) show ?thesis
    proof (cases rule: record_snapshot_cases)
      case (1 e)
      then show ?thesis using history_inv_same inv eq by metis
    next
      case (2 drifts at oc)
      show ?thesis
        by (rule history_inv_append [OF inv w io time take_snapshot_wf]) (use 2 eq io \<open>take_snapshot _ _ _ _ _ _ _ = _\<close> in \<open>simp_all\<close>)
    qed
  qed
  then have inner: "history_inv w dg rd (snd (drift_run_inner io sources task_id trig db0))" if "db_snapshots db0 = db_snapshots db" for db0
    using that by (metis prod.collapse)
  have "\<exists>db'. db_snapshots (snd (drift_run_task io sources task_id trig db)) = db_snapshots db' \<and> history_inv w dg rd db'"
    if "di_open_ok io"
    unfolding drift_run_task_snapshots if_P [OF that] by (intro exI conjI, rule refl) (rule inner, simp)
  then show ?thesis
    using history_inv_same inv drift_run_task_snapshots [of io sources task_id trig db] by (metis (full_types))
qed

lemma drift_runs_inv:
  assumes "drift_runs w dg rd db db'" "history_inv w dg rd db" "inj w" "\<And>x y. dg (w x) = dg (w y) \<Longrightarrow> w x = w y"
    "\<And>s. snapshot_wf s \<Longrightarrow> rd (canonical_json w s) = Inr s"
  shows "history_inv w dg rd db'"
  using assms by (induction rule: drift_runs.induct) (auto intro: history_inv_run)


section \<open>Failures\<close>

lemma audit_access_history [simp]:
  "db_history (snd (audit_access io c a st e t db)) = db_history db"
  "audit_access io c a st e t db = (r, db') \<Longrightarrow> db_history db' = db_history db"
  by (auto simp: audit_access_def split: prod.splits)

lemma run_canary_history: "run_canary io oc c t db = (r, db') \<Longrightarrow> db_history db' = db_history db"
  by (auto simp: run_canary_def Let_def split: prod.splits)

lemma take_snapshot_history:
  assumes "take_snapshot io src task conn t trig db = (r, db')"
  shows "db_history db' = db_history db"
  using assms
  by (auto simp: take_snapshot_def Let_def run_canary_history split: sum.splits prod.splits if_splits)

lemma notify_drifts_history: "db_history (snd (notify_drifts io p task c t db)) = db_history db"
  by (simp add: notify_drifts_def split: option.split sum.split)

lemma record_snapshot_history: "db_history (snd (record_snapshot io task conn t task_id snap trig db)) = db_history db"
  by (simp add: record_snapshot_def Let_def case_prod_beta notify_drifts_history split: sum.split)

lemma drift_run_inner_history: "db_history (snd (drift_run_inner io sources task_id trig db)) = db_history db"
  using audit_access_history(2) take_snapshot_history record_snapshot_history
  by (auto simp: drift_run_inner_def split: option.split sum.split prod.split)

lemma drift_run_inner_failed: "drift_run_inner io sources task_id trig db = (Inl e, db') \<Longrightarrow> db_snapshots db' = db_snapshots db"
  by (erule drift_run_inner_cases) (auto elim: record_snapshot_cases)


text \<open>
  A schema of a source marked for drift is read only from an account that the canary found
  unable to write: otherwise the run fails.
\<close>

theorem writable_source_is_refused:
  assumes "dn_kind conn = ''source_drift''" "take_snapshot io src task conn t trig db = (Inr snap, db')"
  shows "(case t of MySql \<Rightarrow> fst (check_mysql (dx_execute src))
    | Postgres \<Rightarrow> fst (check_postgres (dx_acquire src) (dx_begin src) (dx_execute src))) = CanaryReadOnly"
  using assms
  by (auto simp: take_snapshot_def Let_def run_canary_def split: sum.splits prod.splits canary_outcome.splits db_type.splits)

section \<open>Examples\<close>

text \<open>A reader that inverts the writer, whatever it is.\<close>

definition demo_reader :: "string \<Rightarrow> string + schema_snapshot" where
  "demo_reader text = Inr (inv (canonical_json sample_writer) text)"

lemma demo_reader_reads: "demo_reader (canonical_json sample_writer s) = Inr s"
proof -
  have "inj (canonical_json sample_writer)"
    using inj_sample_writer snapshot_json_eq unfolding inj_def canonical_json_def by metis
  then show ?thesis by (simp add: demo_reader_def)
qed

definition demo_drift_io :: "string \<Rightarrow> drift_io" where
  "demo_drift_io at = \<lparr>di_run_id = at, di_start = at, di_end = at, di_elapsed_ms = 1, di_snap_id = at, di_snap_at = at,
     di_event_id = ''e'', di_event_at = at, di_install_uuid = ''i'', di_open_ok = True, di_close_ok = True, di_status_ok = True,
     di_task_ok = True, di_conn_ok = True, di_prior_ok = True, di_insert_ok = True,
     di_audit_start = \<lparr>au_id = ''a'', au_now = at, au_accepts = True\<rparr>, di_audit_canary = \<lparr>au_id = ''b'', au_now = at, au_accepts = True\<rparr>,
     di_audit_webhook = \<lparr>au_id = ''c'', au_now = at, au_accepts = True\<rparr>, di_crypto = sample_crypto, di_key = [],
     di_parse = (\<lambda>_. None), di_read_snapshot = demo_reader, di_to_vec = sample_writer, di_digest = id,
     di_client = Inr (), di_parse_url = (\<lambda>_. Inr None), di_send = (\<lambda>_ _. Inr 500), di_dev_mode = False\<rparr>"

definition demo_source :: "string + unit \<Rightarrow> drift_source" where
  "demo_source create = \<lparr>dx_connect = Inr (), dx_acquire = Inr (), dx_begin = Inr (), dx_execute = (\<lambda>_. create),
     dx_mysql = demo_my_catalogue, dx_postgres = (\<lambda>_. \<lparr>ca_columns = Inr [], ca_indexes = Inr [], ca_fks = Inr []\<rparr>)\<rparr>"

definition demo_denied :: string where
  "demo_denied = ''CREATE command denied to user ro''"

definition demo_drift_task :: drift_task where
  "demo_drift_task = \<lparr>dk_id = ''t1'', dk_name = ''nightly'', dk_config = [], dk_source_db_id = ''c1'', dk_notify_channels = []\<rparr>"

definition demo_drift_conn :: drift_connection where
  "demo_drift_conn = \<lparr>dn_id = ''c1'', dn_name = ''shop'', dn_db_type = ''mysql'', dn_password = ''enc:pw'', dn_default_database = Some ''db'',
     dn_kind = ''source_drift''\<rparr>"

definition demo_drift_db :: drift_db where
  "demo_drift_db = \<lparr>db_tasks = [''t1'' \<mapsto> demo_drift_task], db_connections = [''c1'' \<mapsto> demo_drift_conn], db_snapshots = [],
     db_audit = [], db_history = [], db_status = Map.empty\<rparr>"

definition demo_my_snapshot :: schema_snapshot where
  "demo_my_snapshot = (case drift_collect_mysql demo_my_catalogue ''db'' of Inr s \<Rightarrow> s | Inl _ \<Rightarrow> build_snapshot [] MySql [])"

lemma demo_my_collected: "drift_collect_mysql demo_my_catalogue ''db'' = Inr demo_my_snapshot"
  by (simp add: demo_my_snapshot_def drift_collect_mysql_def demo_my_catalogue_def)

lemma demo_canary_read_only: "check_mysql (\<lambda>_. Inl demo_denied) = (CanaryReadOnly, [mysql_canary_create_sql])"
  by code_simp

lemma demo_password: "decrypt_password sample_crypto [] ''enc:pw'' = Inr ''pw''"
  by code_simp

lemma demo_flavour: "from_db_type_str ''mysql'' = Some MySql"
  by code_simp

lemma demo_taken:
  "\<exists>db'. take_snapshot (demo_drift_io at) (demo_source (Inl demo_denied)) demo_drift_task demo_drift_conn MySql trig db = (Inr demo_my_snapshot, db')"
  by (simp add: take_snapshot_def demo_source_def demo_canary_read_only run_canary_def Let_def case_prod_beta demo_drift_conn_def
      demo_my_collected)

definition demo_run :: "string \<Rightarrow> drift_db \<Rightarrow> drift_db" where
  "demo_run at db = snd (drift_run_task (demo_drift_io at) (\<lambda>_ _. demo_source (Inl demo_denied)) ''t1'' ''scheduler'' db)"

lemma demo_runs: "drift_runs sample_writer id demo_reader demo_drift_db (demo_run ''1'' demo_drift_db)"
  unfolding demo_run_def by (rule one_run [OF no_run]) (simp_all add: demo_drift_io_def demo_drift_db_def)



theorem writable_source_is_refused_witness:
  "fst (check_mysql (dx_execute (demo_source (Inl demo_denied)))) = CanaryReadOnly"
proof -
  obtain db' where "take_snapshot (demo_drift_io ''1'') (demo_source (Inl demo_denied)) demo_drift_task demo_drift_conn MySql ''s'' demo_drift_db =
      (Inr demo_my_snapshot, db')"
    using demo_taken by blast
  from writable_source_is_refused [OF _ this] show ?thesis by (simp add: demo_drift_conn_def)
qed

subsection \<open>Where the code and its comments differ\<close>

text \<open>
  MySQL refuses a read-only account with a text that the canary takes for a connection failure, so the
  expected outcome makes every run fail.
\<close>

lemma mysql_denial_is_unreachable:
  "fst (check_mysql (\<lambda>_. Inl (''1044 (42000): Access denied for user ro to database shop''))) =
     CanaryUnreachable ''1044 (42000): Access denied for user ro to database shop''"
  by code_simp

text \<open>A webhook that could not be delivered leaves the run succeeded and no error.\<close>

lemma failed_delivery_is_success:
  assumes "drift_run_inner io sources task_id trig
      (db\<lparr>db_history := db_history db @ [\<lparr>dh_id = di_run_id io, dh_task_id = task_id, dh_started_at = di_start io, dh_finished_at = None,
        dh_status = ''running'', dh_summary = None, dh_error = None, dh_triggered_by = trig\<rparr>]\<rparr>) = (Inr oc, db1)"
    and "oc_webhook_status oc = ''failed''" "di_open_ok io" "di_close_ok io" "di_run_id io \<notin> dh_id ` set (db_history db)"
  shows "map (\<lambda>h. (dh_status h, dh_error h)) (db_history (snd (drift_run_task io sources task_id trig db))) =
    map (\<lambda>h. (dh_status h, dh_error h)) (db_history db) @ [(''succeeded'', None)]"
proof -
  have hist: "db_history db1 = db_history db @ [\<lparr>dh_id = di_run_id io, dh_task_id = task_id, dh_started_at = di_start io, dh_finished_at = None,
        dh_status = ''running'', dh_summary = None, dh_error = None, dh_triggered_by = trig\<rparr>]"
    using drift_run_inner_history [of io sources task_id trig] assms(1) by (metis (no_types, lifting) drift_db.select_convs(5) drift_db.update_convs(5) drift_db.surjective snd_conv)
  have "map (\<lambda>h. if dh_id h = di_run_id io then f h else h) (db_history db) = db_history db" for f
    using assms(5) by (intro map_idI) (metis image_eqI)
  then show ?thesis
    using assms(1,3,4) by (simp add: drift_run_task_def Let_def drift_update_task_status_def drift_close_def hist)
qed

text \<open>The snapshot a run compares with is the connection's latest, of whatever task with whatever schemas.\<close>

lemma prior_of_any_task: "latest_snapshot c (map (\<lambda>r. r\<lparr>ss_task_id := t\<rparr>) rows) = map_option (\<lambda>r. r\<lparr>ss_task_id := t\<rparr>) (latest_snapshot c rows)"
proof -
  have "fold (\<lambda>x best. if ss_captured_at best < ss_captured_at x then x else best) (map (\<lambda>r. r\<lparr>ss_task_id := t\<rparr>) xs) (r\<lparr>ss_task_id := t\<rparr>) =
      (fold (\<lambda>x best. if ss_captured_at best < ss_captured_at x then x else best) xs r)\<lparr>ss_task_id := t\<rparr>" for xs r
    by (induction xs arbitrary: r) auto
  moreover have "filter (\<lambda>r. ss_connection_id r = c) (map (\<lambda>r. r\<lparr>ss_task_id := t\<rparr>) rows) =
      map (\<lambda>r. r\<lparr>ss_task_id := t\<rparr>) (filter (\<lambda>r. ss_connection_id r = c) rows)"
    by (simp add: filter_map comp_def)
  ultimately show ?thesis by (auto simp: latest_snapshot_def split: list.split)
qed

end
