(* ===== verification/Task_Schedulers.thy ===== *)
theory Task_Schedulers
  imports Automation_Store Webhook_Delivery
begin

text \<open>
  The three schedulers, \<open>scheduler.rs\<close> of the crates \<open>drift\<close>, \<open>data_sync\<close> and
  \<open>health_check\<close>: due-ness, the set of tasks in flight, the scan, and the jobs it spawns. The
  clock of chrono and the parser of the crate \<open>cron\<close> are the fields of \<open>sched_lib\<close>; instants are
  nanoseconds. A scan is one step: the loop holds no lock between two rows, but it alone acquires.
\<close>

section \<open>Due-ness\<close>

text \<open>A parsed schedule is what is asked of it: the first tick after an instant.\<close>

type_synonym schedule = "int \<Rightarrow> int option"

record sched_lib =
  sl_rfc3339 :: "string \<Rightarrow> int option"
  sl_schedule :: "string \<Rightarrow> schedule option"
  sl_json :: "string \<Rightarrow> json option"

definition minute_nanos :: int where
  "minute_nanos = 60000000000"

definition drift_is_due :: "sched_lib \<Rightarrow> string option \<Rightarrow> nat \<Rightarrow> int \<Rightarrow> bool" where
  "drift_is_due lib last_run_at interval_minutes now =
     (case last_run_at of
        None \<Rightarrow> True
      | Some ts \<Rightarrow>
          (case sl_rfc3339 lib ts of
             None \<Rightarrow> True
           | Some parsed \<Rightarrow> parsed + int (max interval_minutes 1) * minute_nanos \<le> now))"

definition task_interval_minutes :: "sched_lib \<Rightarrow> string \<Rightarrow> nat \<Rightarrow> nat" where
  "task_interval_minutes lib config dflt =
     (case sl_json lib config of
        None \<Rightarrow> dflt
      | Some v \<Rightarrow>
          (case json_get ''interval_minutes'' v of
             Some (JNum i) \<Rightarrow> if 1 \<le> i \<and> i \<le> 1440 then nat i else dflt
           | _ \<Rightarrow> dflt))"

text \<open>The number of pieces of \<open>split_whitespace\<close>.\<close>

fun count_words :: "bool \<Rightarrow> string \<Rightarrow> nat" where
  "count_words inside [] = 0"
| "count_words inside (c # cs) = (if is_ws c then count_words False cs else (if inside then 0 else 1) + count_words True cs)"

definition sync_parse_schedule :: "sched_lib \<Rightarrow> string \<Rightarrow> schedule option" where
  "sync_parse_schedule lib expr =
     (let trimmed = trim expr in sl_schedule lib (if count_words False trimmed = 5 then ''0 '' @ trimmed else trimmed))"

definition sync_is_due :: "sched_lib \<Rightarrow> string \<Rightarrow> string option \<Rightarrow> int \<Rightarrow> bool" where
  "sync_is_due lib cron_expr last_run_at now =
     (case sync_parse_schedule lib cron_expr of
        None \<Rightarrow> False
      | Some schedule \<Rightarrow>
          (case last_run_at of
             None \<Rightarrow> True
           | Some ts \<Rightarrow>
               (case sl_rfc3339 lib ts of
                  None \<Rightarrow> True
                | Some last_run \<Rightarrow> (case schedule last_run of Some t \<Rightarrow> t \<le> now | None \<Rightarrow> False))))"

definition health_parse_schedule :: "sched_lib \<Rightarrow> string \<Rightarrow> schedule option" where
  "health_parse_schedule lib expr =
     (let trimmed = trim expr in sl_schedule lib (if count_words False trimmed = 5 then ''0 '' @ trimmed else trimmed))"

definition health_is_due :: "sched_lib \<Rightarrow> string \<Rightarrow> string option \<Rightarrow> int \<Rightarrow> bool" where
  "health_is_due lib cron_expr last_run_at now =
     (case health_parse_schedule lib cron_expr of
        None \<Rightarrow> False
      | Some schedule \<Rightarrow>
          (case last_run_at of
             None \<Rightarrow> True
           | Some ts \<Rightarrow>
               (case sl_rfc3339 lib ts of
                  None \<Rightarrow> True
                | Some last_run \<Rightarrow> (case schedule last_run of Some t \<Rightarrow> t \<le> now | None \<Rightarrow> False))))"

section \<open>Scans\<close>

definition try_acquire :: "string \<Rightarrow> string set \<Rightarrow> bool \<times> string set" where
  "try_acquire task_id held = (task_id \<notin> held, insert task_id held)"

definition release :: "string \<Rightarrow> string set \<Rightarrow> string set" where
  "release task_id held = held - {task_id}"

text \<open>The loop over the rows of a scan: the tasks it dispatches, in order, and the set afterwards.\<close>

fun dispatch_due :: "(scheduled_task \<Rightarrow> bool) \<Rightarrow> scheduled_task list \<Rightarrow> string set \<Rightarrow> string list \<times> string set" where
  "dispatch_due due [] held = ([], held)"
| "dispatch_due due (t # ts) held =
     (if \<not> due t then dispatch_due due ts held
      else case try_acquire (tsk_id t) held of
        (False, held') \<Rightarrow> dispatch_due due ts held'
      | (True, held') \<Rightarrow> (let (ids, h) = dispatch_due due ts held' in (tsk_id t # ids, h)))"

definition drift_scan :: "auto_store \<Rightarrow> scheduled_task list" where
  "drift_scan st = filter (\<lambda>t. tsk_task_type t = ''schema_drift'' \<and> tsk_enabled t) (as_tasks st)"

definition sync_scan :: "auto_store \<Rightarrow> scheduled_task list" where
  "sync_scan st = filter (\<lambda>t. tsk_task_type t = ''data_sync'' \<and> tsk_enabled t \<and> tsk_cron_expr t \<noteq> []) (as_tasks st)"

definition health_scan :: "auto_store \<Rightarrow> scheduled_task list" where
  "health_scan st = filter (\<lambda>t. tsk_task_type t = ''health_check'' \<and> tsk_enabled t \<and> tsk_cron_expr t \<noteq> []) (as_tasks st)"

text \<open>A scan whose query fails dispatches nothing; the loop goes on to the next tick.\<close>

definition drift_scan_and_dispatch ::
  "sched_lib \<Rightarrow> bool \<Rightarrow> nat \<Rightarrow> int \<Rightarrow> auto_store \<Rightarrow> string set \<Rightarrow> string list \<times> string set" where
  "drift_scan_and_dispatch lib ok default_interval now st held =
     (if \<not> ok then ([], held)
      else dispatch_due (\<lambda>t. drift_is_due lib (tsk_last_run_at t) (task_interval_minutes lib (tsk_config t) default_interval) now)
        (drift_scan st) held)"

definition sync_scan_and_dispatch :: "sched_lib \<Rightarrow> bool \<Rightarrow> int \<Rightarrow> auto_store \<Rightarrow> string set \<Rightarrow> string list \<times> string set" where
  "sync_scan_and_dispatch lib ok now st held =
     (if \<not> ok then ([], held)
      else dispatch_due (\<lambda>t. sync_is_due lib (tsk_cron_expr t) (tsk_last_run_at t) now) (sync_scan st) held)"

definition health_scan_and_dispatch :: "sched_lib \<Rightarrow> bool \<Rightarrow> int \<Rightarrow> auto_store \<Rightarrow> string set \<Rightarrow> string list \<times> string set" where
  "health_scan_and_dispatch lib ok now st held =
     (if \<not> ok then ([], held)
      else dispatch_due (\<lambda>t. health_is_due lib (tsk_cron_expr t) (tsk_last_run_at t) now) (health_scan st) held)"

section \<open>The life of the jobs\<close>

text \<open>
  The set in flight, the tasks of the jobs running, and those of jobs that panicked. A job ends by
  releasing its task, whatever its result; a panic of its run skips the release. Runs started by
  hand take no part in the set.
\<close>

record sched_state =
  sc_held :: "string set"
  sc_running :: "string list"
  sc_panicked :: "string set"
  sc_manual :: "string list"

definition sched_start :: sched_state where
  "sched_start = \<lparr>sc_held = {}, sc_running = [], sc_panicked = {}, sc_manual = []\<rparr>"

definition after_scan :: "string list \<times> string set \<Rightarrow> sched_state \<Rightarrow> sched_state" where
  "after_scan r s = s\<lparr>sc_held := snd r, sc_running := sc_running s @ fst r\<rparr>"

inductive sched_step :: "sched_state \<Rightarrow> sched_state \<Rightarrow> bool" where
  drift_tick: "sched_step s (after_scan (drift_scan_and_dispatch lib ok interval now st (sc_held s)) s)"
| sync_tick: "sched_step s (after_scan (sync_scan_and_dispatch lib ok now st (sc_held s)) s)"
| health_tick: "sched_step s (after_scan (health_scan_and_dispatch lib ok now st (sc_held s)) s)"
| job_ends: "t \<in> set (sc_running s) \<Longrightarrow> sched_step s (s\<lparr>sc_running := remove1 t (sc_running s), sc_held := release t (sc_held s)\<rparr>)"
| job_panics: "t \<in> set (sc_running s) \<Longrightarrow>
    sched_step s (s\<lparr>sc_running := remove1 t (sc_running s), sc_panicked := insert t (sc_panicked s)\<rparr>)"
| manual_starts: "sched_step s (s\<lparr>sc_manual := t # sc_manual s\<rparr>)"
| manual_ends: "sched_step s (s\<lparr>sc_manual := remove1 t (sc_manual s)\<rparr>)"

definition sched_inv :: "sched_state \<Rightarrow> bool" where
  "sched_inv s \<longleftrightarrow> distinct (sc_running s) \<and> set (sc_running s) \<inter> sc_panicked s = {} \<and>
     sc_held s = set (sc_running s) \<union> sc_panicked s"

lemma dispatch_due_spec:
  assumes "dispatch_due due ts held = (ids, held')"
  shows "distinct ids \<and> set ids \<inter> held = {} \<and> held' = held \<union> set ids"
  using assms
proof (induction ts arbitrary: held ids held')
  case (Cons t ts)
  show ?case
  proof (cases "due t \<and> tsk_id t \<notin> held")
    case True
    then obtain js where js: "dispatch_due due ts (insert (tsk_id t) held) = (js, held')" "ids = tsk_id t # js"
      using Cons.prems by (auto simp: try_acquire_def split: prod.splits)
    show ?thesis using Cons.IH [OF js(1)] js(2) True by auto
  next
    case False
    then have "dispatch_due due ts held = (ids, held')"
      using Cons.prems by (auto simp: try_acquire_def insert_absorb split: if_splits)
    then show ?thesis by (rule Cons.IH)
  qed
qed simp

lemma dispatch_due_set: "set (fst (dispatch_due due ts held)) = tsk_id ` {t \<in> set ts. due t \<and> tsk_id t \<notin> held}"
proof (induction ts arbitrary: held)
  case (Cons t ts)
  show ?case
  proof (cases "due t \<and> tsk_id t \<notin> held")
    case True
    have "{u \<in> set (t # ts). due u \<and> tsk_id u \<notin> held} =
        {t} \<union> {u \<in> set ts. due u \<and> tsk_id u \<notin> insert (tsk_id t) held} \<union> {u \<in> set ts. due u \<and> tsk_id u = tsk_id t}"
      using True by auto
    then show ?thesis using True Cons.IH [of "insert (tsk_id t) held"]
      by (auto simp: try_acquire_def case_prod_beta Let_def)
  next
    case False
    then have "{u \<in> set (t # ts). due u \<and> tsk_id u \<notin> held} = {u \<in> set ts. due u \<and> tsk_id u \<notin> held}" by auto
    then show ?thesis using False Cons.IH [of held] by (auto simp: try_acquire_def insert_absorb)
  qed
qed simp

lemma after_scan_inv:
  assumes "sched_inv s" and "dispatch_due due ts (sc_held s) = r \<or> r = ([], sc_held s)"
  shows "sched_inv (after_scan r s)"
  using assms dispatch_due_spec [of due ts "sc_held s" "fst r" "snd r"]
  by (auto simp: sched_inv_def after_scan_def)

lemma sched_step_inv: "sched_step s s' \<Longrightarrow> sched_inv s \<Longrightarrow> sched_inv s'"
proof (induction rule: sched_step.induct)
  case (drift_tick s lib ok interval now st)
  then show ?case by (rule after_scan_inv) (auto simp: drift_scan_and_dispatch_def)
next
  case (sync_tick s lib ok now st)
  then show ?case by (rule after_scan_inv) (auto simp: sync_scan_and_dispatch_def)
next
  case (health_tick s lib ok now st)
  then show ?case by (rule after_scan_inv) (auto simp: health_scan_and_dispatch_def)
qed (auto simp: sched_inv_def release_def)

lemma sched_steps_inv: "sched_step\<^sup>*\<^sup>* s s' \<Longrightarrow> sched_inv s \<Longrightarrow> sched_inv s'"
  by (induction rule: rtranclp_induct) (auto intro: sched_step_inv)

lemma sched_start_inv [simp]: "sched_inv sched_start"
  by (simp add: sched_inv_def sched_start_def)

section \<open>What the schedulers promise\<close>

text \<open>
  C8. However ticks, ends of jobs, panics and runs by hand interleave, no two jobs of a scheduler
  run one task at the same time, and exactly the tasks running, or stopped by a panic, are held.
\<close>

theorem no_overlapping_jobs:
  assumes "sched_step\<^sup>*\<^sup>* sched_start s"
  shows "distinct (sc_running s) \<and> sc_held s = set (sc_running s) \<union> sc_panicked s"
  using sched_steps_inv [OF assms sched_start_inv] by (simp add: sched_inv_def)

text \<open>
  A tick starts every task that is due and not held, and nothing else: a task that is due is
  skipped only while its own run goes on.
\<close>

theorem due_tasks_are_started:
  "set (fst (sync_scan_and_dispatch lib ok now st held)) =
     (if ok then tsk_id ` {t \<in> set (sync_scan st). sync_is_due lib (tsk_cron_expr t) (tsk_last_run_at t) now \<and> tsk_id t \<notin> held} else {})"
  by (simp add: sync_scan_and_dispatch_def dispatch_due_set)

text \<open>The ticks of a schedule and the first of them after an instant.\<close>

definition first_tick_law :: "schedule \<Rightarrow> int set \<Rightarrow> bool" where
  "first_tick_law schedule ticks \<longleftrightarrow>
     (\<forall>t0. case schedule t0 of
        Some t \<Rightarrow> t \<in> ticks \<and> t0 < t \<and> (\<forall>u \<in> ticks. t0 < u \<longrightarrow> t \<le> u)
      | None \<Rightarrow> \<forall>u \<in> ticks. u \<le> t0)"

text \<open>
  C28. A task with a readable schedule that ran before is due exactly when the schedule has a tick
  after the end of that run and not in the future.
\<close>

theorem due_iff_tick_passed:
  assumes "sync_parse_schedule lib expr = Some schedule" "first_tick_law schedule ticks" "sl_rfc3339 lib ts = Some last_run"
  shows "sync_is_due lib expr (Some ts) now \<longleftrightarrow> (\<exists>t \<in> ticks. last_run < t \<and> t \<le> now)"
proof (cases "schedule last_run")
  case None
  then have "u \<le> last_run" if "u \<in> ticks" for u
    using assms(2) [unfolded first_tick_law_def, rule_format, of last_run] that by simp
  then have "\<not> (\<exists>t \<in> ticks. last_run < t \<and> t \<le> now)" by (meson not_less)
  then show ?thesis using assms(1,3) None by (simp add: sync_is_due_def)
next
  case (Some t)
  then have t: "t \<in> ticks" "last_run < t" "\<And>u. u \<in> ticks \<Longrightarrow> last_run < u \<Longrightarrow> t \<le> u"
    using assms(2) [unfolded first_tick_law_def, rule_format, of last_run] by simp_all
  have "sync_is_due lib expr (Some ts) now \<longleftrightarrow> t \<le> now" using assms(1,3) Some by (simp add: sync_is_due_def)
  also have "\<dots> \<longleftrightarrow> (\<exists>t \<in> ticks. last_run < t \<and> t \<le> now)" using t by (meson order_trans)
  finally show ?thesis .
qed

text \<open>The two cron schedulers decide alike.\<close>

lemma health_is_due_eq: "health_is_due = sync_is_due"
  by (simp add: fun_eq_iff health_is_due_def sync_is_due_def health_parse_schedule_def sync_parse_schedule_def)

text \<open>A drift task that ran is due again once its interval is over, of at least a minute.\<close>

lemma drift_due_iff:
  "sl_rfc3339 lib ts = Some last_run \<Longrightarrow>
   drift_is_due lib (Some ts) n now \<longleftrightarrow> last_run + int (max n 1) * minute_nanos \<le> now"
  by (simp add: drift_is_due_def)

lemma task_interval_in_range:
  "1 \<le> dflt \<Longrightarrow> dflt \<le> 1440 \<Longrightarrow> 1 \<le> task_interval_minutes lib config dflt \<and> task_interval_minutes lib config dflt \<le> 1440"
  by (auto simp: task_interval_minutes_def split: option.split json.split)

subsection \<open>What they do not\<close>

text \<open>A task whose run panicked is never started again while the server runs.\<close>

lemma panicked_stays: "sched_step s s' \<Longrightarrow> t \<in> sc_panicked s \<Longrightarrow> t \<in> sc_panicked s'"
  by (induction rule: sched_step.induct) (auto simp: after_scan_def)

lemma panicked_is_stuck_step:
  assumes "sched_step s s'" "sched_inv s" "t \<in> sc_panicked s"
  shows "t \<in> sc_panicked s' \<and> t \<notin> set (sc_running s')"
  using sched_step_inv [OF assms(1,2)] panicked_stays [OF assms(1,3)] by (auto simp: sched_inv_def)

lemma panicked_task_is_stuck:
  "sched_step\<^sup>*\<^sup>* s s' \<Longrightarrow> sched_inv s \<Longrightarrow> t \<in> sc_panicked s \<Longrightarrow> t \<in> sc_panicked s' \<and> t \<notin> set (sc_running s')"
proof (induction rule: rtranclp_induct)
  case base
  then show ?case by (auto simp: sched_inv_def)
next
  case (step s1 s2)
  then show ?case using panicked_is_stuck_step sched_steps_inv by metis
qed

text \<open>A run by hand overlaps with one of the scheduler.\<close>

lemma manual_run_overlaps:
  assumes "sched_step\<^sup>*\<^sup>* sched_start s" "t \<in> set (sc_running s)"
  shows "\<exists>s'. sched_step\<^sup>*\<^sup>* sched_start s' \<and> t \<in> set (sc_running s') \<and> t \<in> set (sc_manual s')"
proof -
  have "sched_step s (s\<lparr>sc_manual := t # sc_manual s\<rparr>)" by (rule manual_starts)
  with assms(1) have "sched_step\<^sup>*\<^sup>* sched_start (s\<lparr>sc_manual := t # sc_manual s\<rparr>)" by (rule rtranclp.rtrancl_into_rtrancl)
  then show ?thesis using assms(2) by (intro exI [of _ "s\<lparr>sc_manual := t # sc_manual s\<rparr>"]) simp
qed

text \<open>
  A task created through the API has its channels as a list of texts. The drift crate reads the first
  of them as the URL; the other two crates look for an object with a field, and find none.
\<close>

lemma api_channels_never_notify:
  assumes "parse (tsk_notify_channels (task_row jl io body)) = Some (map JStr (case ct_notify_channels body of Some cs \<Rightarrow> cs | None \<Rightarrow> []))"
  shows "first_webhook_url parse (tsk_notify_channels (task_row jl io body)) = None"
  using assms
  by (cases "case ct_notify_channels body of Some cs \<Rightarrow> cs | None \<Rightarrow> []") (simp_all add: first_webhook_url_def)

section \<open>Examples\<close>

definition daily :: schedule where
  "daily t = Some ((t div 100 + 1) * 100)"

lemma daily_ticks: "first_tick_law daily {t. t mod 100 = 0}"
proof -
  have less: "t < (t div 100 + 1) * 100" for t :: int
    using mult_div_mod_eq [of 100 t] pos_mod_bound [of 100 t] by simp
  have least: "(t div 100 + 1) * 100 \<le> u" if "u mod 100 = 0" "t < u" for t u :: int
  proof -
    have "100 * (t div 100) < 100 * (u div 100)"
      using mult_div_mod_eq [of 100 t] mult_div_mod_eq [of 100 u] pos_mod_sign [of 100 t] that by simp
    then have "(t div 100 + 1) * 100 \<le> (u div 100) * 100" by simp
    also have "\<dots> = u" using mult_div_mod_eq [of 100 u] that(1) by simp
    finally show ?thesis .
  qed
  show ?thesis unfolding first_tick_law_def daily_def option.case mem_Collect_eq
    using less least by simp
qed

definition demo_sched_lib :: sched_lib where
  "demo_sched_lib = \<lparr>sl_rfc3339 = (\<lambda>s. if s = ''150'' then Some 150 else None),
     sl_schedule = (\<lambda>s. if s = ''0 0 3 * * *'' then Some daily else None), sl_json = (\<lambda>_. None)\<rparr>"

definition demo_task :: scheduled_task where
  "demo_task = \<lparr>tsk_id = ''t1'', tsk_name = ''n'', tsk_task_type = ''data_sync'', tsk_cron_expr = '' 0 3 * * *'', tsk_config = [],
     tsk_source_db_id = ''c'', tsk_target_db_id = None, tsk_notify_channels = [], tsk_enabled = True,
     tsk_last_run_at = Some ''150'', tsk_last_status = None, tsk_created_at = []\<rparr>"

definition demo_sched_store :: auto_store where
  "demo_sched_store = \<lparr>as_entitlement = Gated InstanceMismatch, as_embedded_mode = False, as_connections = [], as_tasks = [demo_task],
     as_approvals = [], as_queries = []\<rparr>"

definition demo_sched :: sched_state where
  "demo_sched = after_scan (sync_scan_and_dispatch demo_sched_lib True 210 demo_sched_store (sc_held sched_start)) sched_start"

lemma demo_sched_reachable: "sched_step\<^sup>*\<^sup>* sched_start demo_sched"
  unfolding demo_sched_def by (rule r_into_rtranclp, rule sync_tick)

theorem no_overlapping_jobs_witness:
  "distinct (sc_running demo_sched) \<and> sc_held demo_sched = set (sc_running demo_sched) \<union> sc_panicked demo_sched"
  by (rule no_overlapping_jobs [OF demo_sched_reachable])

lemma demo_sched_runs: "sc_running demo_sched = [''t1'']"
  by code_simp

theorem due_iff_tick_passed_witness:
  "sync_is_due demo_sched_lib '' 0 3 * * *'' (Some ''150'') 210 \<longleftrightarrow> (\<exists>t \<in> {t. t mod 100 = 0}. 150 < t \<and> t \<le> (210::int))"
proof (rule due_iff_tick_passed [OF _ daily_ticks])
  show "sl_rfc3339 demo_sched_lib ''150'' = Some 150" by (simp add: demo_sched_lib_def)
  have "count_words False (trim '' 0 3 * * *'') = 5" "trim '' 0 3 * * *'' = ''0 3 * * *''" by code_simp+
  then show "sync_parse_schedule demo_sched_lib '' 0 3 * * *'' = Some daily"
    by (simp add: sync_parse_schedule_def demo_sched_lib_def)
qed

end
