(* ===== verification/Server_Config.thy ===== *)
theory Server_Config
  imports Text_Case License
begin

text \<open>
  The settings of the server, \<open>crates/core/src/config.rs\<close>, and the keys and files it starts from:
  the credential key of \<open>src/main.rs\<close> and the embedded database of \<open>crates/core/src/db/pool.rs\<close>.

  The environment, with the \<open>.env\<close> file already read into it, is a map from names to texts. The
  random generator, the file system's answers and the migrations are arguments.
\<close>

section \<open>Settings\<close>

type_synonym env = "string \<Rightarrow> string option"

record server_config =
  cf_host :: string
  cf_port :: nat
  cf_jwt_secret :: string
  cf_jwt_refresh_secret :: string
  cf_database_url :: string
  cf_registration_enabled :: bool
  cf_funnel_lite_enabled :: bool
  cf_drift_default_interval_mins :: nat
  cf_drift_webhook_timeout_secs :: nat
  cf_data_sync_default_batch_size :: nat
  cf_data_sync_max_concurrency :: nat
  cf_mcp_rate_limit_per_minute :: nat
  cf_mcp_read_query_max_rows :: nat
  cf_mcp_read_query_timeout_secs :: nat
  cf_mcp_allowed_hosts :: "string list"
  cf_mcp_allowed_connections :: "string list"
  cf_gw_rate_limit_per_minute :: nat
  cf_gw_query_default_rows :: nat
  cf_gw_query_max_rows :: nat
  cf_gw_query_timeout_secs :: nat
  cf_slow_query_enabled :: bool
  cf_slow_query_threshold_ms :: nat
  cf_slow_query_store_sql :: bool
  cf_slow_query_retention_days :: nat
  cf_slow_query_cap_per_digest_per_hour :: nat

definition dev_mode_env :: string where
  "dev_mode_env = ''DBMASTER_DEV''"

definition dev_mode :: "env \<Rightarrow> bool" where
  "dev_mode env \<longleftrightarrow> env dev_mode_env = Some ''1''"

datatype config_error = SecretMissing string

definition resolve_secret_env :: "env \<Rightarrow> string \<Rightarrow> string \<Rightarrow> config_error + string" where
  "resolve_secret_env env key dev_value =
     (case env key of
        Some v \<Rightarrow>
          if trim v \<noteq> [] then Inr v
          else if dev_mode env then Inr dev_value else Inl (SecretMissing key)
      | None \<Rightarrow> if dev_mode env then Inr dev_value else Inl (SecretMissing key))"

definition parse_bool_env :: "env \<Rightarrow> string \<Rightarrow> bool \<Rightarrow> bool" where
  "parse_bool_env env key dflt =
     (case env key of
        Some s \<Rightarrow> to_lowercase s \<in> {''1'', ''true'', ''yes'', ''on''}
      | None \<Rightarrow> dflt)"

definition u32_max :: nat where "u32_max = 4294967295"
definition u64_max :: nat where "u64_max = 18446744073709551615"

definition parse_interval_env :: "env \<Rightarrow> string \<Rightarrow> nat \<Rightarrow> nat \<Rightarrow> nat \<Rightarrow> nat" where
  "parse_interval_env env key dflt lo hi =
     (case env key of
        Some raw \<Rightarrow>
          (case parse_unsigned u32_max (trim raw) of
             Some v \<Rightarrow> if lo \<le> v \<and> v \<le> hi then v else dflt
           | None \<Rightarrow> dflt)
      | None \<Rightarrow> dflt)"

definition parse_u64_env :: "env \<Rightarrow> string \<Rightarrow> nat \<Rightarrow> nat" where
  "parse_u64_env env key dflt =
     (case env key of
        Some raw \<Rightarrow> (case parse_unsigned u64_max (trim raw) of Some v \<Rightarrow> v | None \<Rightarrow> dflt)
      | None \<Rightarrow> dflt)"

definition parse_list_env :: "env \<Rightarrow> string \<Rightarrow> string list" where
  "parse_list_env env key =
     (case env key of
        Some raw \<Rightarrow> filter (\<lambda>s. s \<noteq> []) (map trim (split_on (CHR '','') raw))
      | None \<Rightarrow> [])"

definition env_or :: "env \<Rightarrow> string \<Rightarrow> string \<Rightarrow> string" where
  "env_or env key dflt = (case env key of Some v \<Rightarrow> v | None \<Rightarrow> dflt)"

definition port_of_env :: "env \<Rightarrow> nat" where
  "port_of_env env =
     (case parse_unsigned 65535 (env_or env ''SERVER_PORT'' ''3000'') of Some p \<Rightarrow> p | None \<Rightarrow> 3000)"

text \<open>The settings once both secrets are known.\<close>

definition config_with :: "env \<Rightarrow> string \<Rightarrow> string \<Rightarrow> server_config" where
  "config_with env secret refresh =
     \<lparr>cf_host = env_or env ''SERVER_HOST'' ''0.0.0.0'',
      cf_port = port_of_env env,
      cf_jwt_secret = secret,
      cf_jwt_refresh_secret = refresh,
      cf_database_url = env_or env ''DATABASE_URL'' ''sqlite:dbmaster.db?mode=rwc'',
      cf_registration_enabled = parse_bool_env env ''DBMASTER_REGISTRATION_ENABLED'' True,
      cf_funnel_lite_enabled = parse_bool_env env ''DBMASTER_FUNNEL_LITE_ENABLED'' True,
      cf_drift_default_interval_mins = parse_interval_env env ''DBMASTER_DRIFT_DEFAULT_INTERVAL_MINS'' 30 1 1440,
      cf_drift_webhook_timeout_secs = parse_u64_env env ''DBMASTER_DRIFT_WEBHOOK_TIMEOUT_SECS'' 10,
      cf_data_sync_default_batch_size = parse_u64_env env ''DBMASTER_DATASYNC_BATCH_SIZE'' 10000,
      cf_data_sync_max_concurrency = parse_interval_env env ''DBMASTER_DATASYNC_MAX_CONCURRENCY'' 1 1 32,
      cf_mcp_rate_limit_per_minute = parse_interval_env env ''DBMASTER_MCP_RATE_LIMIT_PER_MIN'' 120 1 10000,
      cf_mcp_read_query_max_rows = parse_interval_env env ''DBMASTER_MCP_READ_QUERY_MAX_ROWS'' 10000 1 100000,
      cf_mcp_read_query_timeout_secs = parse_interval_env env ''DBMASTER_MCP_READ_QUERY_TIMEOUT_SECS'' 30 1 600,
      cf_mcp_allowed_hosts = parse_list_env env ''DBMASTER_MCP_ALLOWED_HOSTS'',
      cf_mcp_allowed_connections = parse_list_env env ''DBMASTER_MCP_ALLOWED_CONNECTIONS'',
      cf_gw_rate_limit_per_minute = parse_interval_env env ''DBMASTER_GW_RATE_LIMIT_PER_MIN'' 600 1 100000,
      cf_gw_query_default_rows = parse_interval_env env ''DBMASTER_GW_QUERY_DEFAULT_ROWS'' 500 1 100000,
      cf_gw_query_max_rows = parse_interval_env env ''DBMASTER_GW_QUERY_MAX_ROWS'' 10000 1 100000,
      cf_gw_query_timeout_secs = parse_interval_env env ''DBMASTER_GW_QUERY_TIMEOUT_SECS'' 30 1 600,
      cf_slow_query_enabled = parse_bool_env env ''DBMASTER_SLOW_QUERY_ENABLED'' True,
      cf_slow_query_threshold_ms = parse_interval_env env ''DBMASTER_SLOW_QUERY_THRESHOLD_MS'' 1000 100 600000,
      cf_slow_query_store_sql = parse_bool_env env ''DBMASTER_SLOW_QUERY_STORE_SQL'' True,
      cf_slow_query_retention_days = parse_interval_env env ''DBMASTER_SLOW_QUERY_RETENTION_DAYS'' 14 1 365,
      cf_slow_query_cap_per_digest_per_hour =
        parse_interval_env env ''DBMASTER_SLOW_QUERY_CAP_PER_DIGEST_PER_HOUR'' 20 1 10000\<rparr>"

definition from_env :: "env \<Rightarrow> config_error + server_config" where
  "from_env env =
     and_then (resolve_secret_env env ''SERVER_JWT_SECRET'' ''dev-jwt-secret-change-in-production'') (\<lambda>secret.
     and_then (resolve_secret_env env ''SERVER_JWT_REFRESH_SECRET'' ''dev-refresh-secret-change-in-production'') (\<lambda>refresh.
       Inr (config_with env secret refresh)))"

section \<open>The credential key\<close>

datatype key_error = KeyBadHex | KeyBadLength | KeyMissing

definition credential_key_env :: string where
  "credential_key_env = ''DBMASTER_CREDENTIAL_KEY''"

definition load_credential_key :: "env \<Rightarrow> nat list \<Rightarrow> key_error + nat list" where
  "load_credential_key env random =
     (case env credential_key_env of
        Some raw \<Rightarrow>
          (case hex_decode (trim raw) of
             None \<Rightarrow> Inl KeyBadHex
           | Some bytes \<Rightarrow> if length bytes = 32 then Inr bytes else Inl KeyBadLength)
      | None \<Rightarrow> if dev_mode env then Inr random else Inl KeyMissing)"

text \<open>The key file of an embedded server; \<open>kio_partial\<close> is what a failing write leaves of it.\<close>

record key_io =
  kio_random :: "nat list"
  kio_read_ok :: bool
  kio_write_ok :: bool
  kio_partial :: "nat list option"

definition fresh_key_and_maybe_write :: "key_io \<Rightarrow> nat list option \<Rightarrow> nat list \<times> nat list option" where
  "fresh_key_and_maybe_write io file =
     (kio_random io, if kio_write_ok io then Some (kio_random io) else kio_partial io)"

definition load_or_create_credential_key :: "key_io \<Rightarrow> nat list option \<Rightarrow> nat list \<times> nat list option" where
  "load_or_create_credential_key io file =
     (if \<not> kio_read_ok io then (kio_random io, file)
      else case file of
          Some bytes \<Rightarrow> if length bytes = 32 then (bytes, file) else fresh_key_and_maybe_write io file
        | None \<Rightarrow> fresh_key_and_maybe_write io file)"

text \<open>\<open>random_hex_secret\<close>: the drawn bytes in lower-case hexadecimal.\<close>

definition hex_digit :: "nat \<Rightarrow> char" where
  "hex_digit d = char_of (if d < 10 then 48 + d else 87 + d)"

definition random_hex_secret :: "nat list \<Rightarrow> string" where
  "random_hex_secret bytes = concat (map (\<lambda>b. [hex_digit (b div 16), hex_digit (b mod 16)]) bytes)"

section \<open>The embedded database\<close>

type_synonym files = "string \<rightharpoonup> string"

text \<open>Opening a pool and running the migrations may change the files; both may fail.\<close>

record db_io =
  dio_open :: "nat \<Rightarrow> files \<Rightarrow> bool \<times> files"
  dio_migrate :: "nat \<Rightarrow> files \<Rightarrow> bool \<times> files"
  dio_close :: "files \<Rightarrow> files"
  dio_rename_ok :: "string \<Rightarrow> nat \<Rightarrow> bool"
  dio_stamp :: nat

definition max_rename_attempts :: nat where
  "max_rename_attempts = 30"

definition rename_file :: "string \<Rightarrow> string \<Rightarrow> files \<Rightarrow> files" where
  "rename_file path bak fs = (fs(bak := fs path))(path := None)"

function rename_retry :: "(nat \<Rightarrow> bool) \<Rightarrow> nat \<Rightarrow> string \<Rightarrow> string \<Rightarrow> files \<Rightarrow> (string + unit) \<times> files" where
  "rename_retry ok attempts path bak fs =
     (if fs path = None then (Inr (), fs)
      else if ok attempts then (Inr (), rename_file path bak fs)
      else if max_rename_attempts \<le> attempts + 1 then (Inl ''rename'', fs)
      else rename_retry ok (attempts + 1) path bak fs)"
  by pat_completeness auto
termination by (relation "measure (\<lambda>(_, attempts, _). max_rename_attempts - attempts)") auto

declare rename_retry.simps [simp del]

definition backup_name :: "nat \<Rightarrow> string \<Rightarrow> string" where
  "backup_name stamp path = path @ ''.bak-'' @ show_nat stamp"

definition db_files :: "string \<Rightarrow> string list" where
  "db_files db = [db, db @ ''-wal'', db @ ''-shm'']"

fun backup_each :: "db_io \<Rightarrow> string list \<Rightarrow> files \<Rightarrow> (string + unit) \<times> files" where
  "backup_each io [] fs = (Inr (), fs)"
| "backup_each io (path # paths) fs =
     (case rename_retry (dio_rename_ok io path) 0 path (backup_name (dio_stamp io) path) fs of
        (Inl e, fs) \<Rightarrow> (Inl e, fs)
      | (Inr _, fs) \<Rightarrow> backup_each io paths fs)"

definition backup_db_files :: "db_io \<Rightarrow> string \<Rightarrow> files \<Rightarrow> (string + unit) \<times> files" where
  "backup_db_files io db fs = backup_each io (db_files db) fs"

text \<open>One opening and migration, the \<open>n\<close>-th of this start.\<close>

definition init_pool :: "db_io \<Rightarrow> nat \<Rightarrow> files \<Rightarrow> (string + unit) \<times> files" where
  "init_pool io n fs =
     (let (ok, fs) = dio_open io n fs in (if ok then Inr () else Inl ''open'', fs))"

definition run_migrations :: "db_io \<Rightarrow> nat \<Rightarrow> files \<Rightarrow> (string + unit) \<times> files" where
  "run_migrations io n fs =
     (let (ok, fs) = dio_migrate io n fs in (if ok then Inr () else Inl ''migrate'', fs))"

text \<open>\<open>Inr True\<close>: the database was rebuilt.\<close>

definition init_pool_with_embedded_rebuild :: "db_io \<Rightarrow> string \<Rightarrow> files \<Rightarrow> (string + bool) \<times> files" where
  "init_pool_with_embedded_rebuild io db fs =
     (case init_pool io 0 fs of
        (Inl e, fs) \<Rightarrow> (Inl e, fs)
      | (Inr _, fs) \<Rightarrow>
          (case run_migrations io 0 fs of
             (Inr _, fs) \<Rightarrow> (Inr False, fs)
           | (Inl _, fs) \<Rightarrow>
               (case backup_db_files io db (dio_close io fs) of
                  (Inl e, fs) \<Rightarrow> (Inl e, fs)
                | (Inr _, fs) \<Rightarrow>
                    (case init_pool io 1 fs of
                       (Inl e, fs) \<Rightarrow> (Inl e, fs)
                     | (Inr _, fs) \<Rightarrow>
                         (case run_migrations io 1 fs of
                            (Inl e, fs) \<Rightarrow> (Inl e, fs)
                          | (Inr _, fs) \<Rightarrow> (Inr True, fs))))))"

section \<open>What the settings guarantee\<close>

definition within :: "nat \<Rightarrow> nat \<Rightarrow> nat \<Rightarrow> bool" where
  "within lo hi n \<longleftrightarrow> lo \<le> n \<and> n \<le> hi"

text \<open>The ranges the fields are documented with.\<close>

definition config_in_range :: "server_config \<Rightarrow> bool" where
  "config_in_range c \<longleftrightarrow>
     cf_port c \<le> 65535 \<and>
     within 1 1440 (cf_drift_default_interval_mins c) \<and>
     within 0 u64_max (cf_drift_webhook_timeout_secs c) \<and>
     within 0 u64_max (cf_data_sync_default_batch_size c) \<and>
     within 1 32 (cf_data_sync_max_concurrency c) \<and>
     within 1 10000 (cf_mcp_rate_limit_per_minute c) \<and>
     within 1 100000 (cf_mcp_read_query_max_rows c) \<and>
     within 1 600 (cf_mcp_read_query_timeout_secs c) \<and>
     within 1 100000 (cf_gw_rate_limit_per_minute c) \<and>
     within 1 100000 (cf_gw_query_default_rows c) \<and>
     within 1 100000 (cf_gw_query_max_rows c) \<and>
     within 1 600 (cf_gw_query_timeout_secs c) \<and>
     within 100 600000 (cf_slow_query_threshold_ms c) \<and>
     within 1 365 (cf_slow_query_retention_days c) \<and>
     within 1 10000 (cf_slow_query_cap_per_digest_per_hour c) \<and>
     (\<forall>h \<in> set (cf_mcp_allowed_hosts c) \<union> set (cf_mcp_allowed_connections c). h \<noteq> [] \<and> trim h = h \<and> CHR '','' \<notin> set h)"

lemma parse_interval_within [intro]: "within lo hi dflt \<Longrightarrow> within lo hi (parse_interval_env env key dflt lo hi)"
  by (simp add: parse_interval_env_def within_def split: option.splits)

lemma parse_u64_within [intro]: "dflt \<le> u64_max \<Longrightarrow> within 0 u64_max (parse_u64_env env key dflt)"
  by (auto simp: parse_u64_env_def within_def dest: parse_unsigned_bound split: option.splits)

lemma parse_list_items: "h \<in> set (parse_list_env env key) \<Longrightarrow> h \<noteq> [] \<and> trim h = h \<and> CHR '','' \<notin> set h"
  by (auto simp: parse_list_env_def dest: split_on_no_sep set_trim [THEN subsetD] split: option.splits)

lemma port_le: "port_of_env env \<le> 65535"
  by (auto simp: port_of_env_def dest: parse_unsigned_bound split: option.splits)

lemma config_with_in_range: "config_in_range (config_with env s r)"
  unfolding config_in_range_def config_with_def server_config.simps
  by (intro conjI parse_interval_within parse_u64_within port_le ballI)
    (auto simp: within_def u64_max_def dest: parse_list_items)

lemma from_env_Inr:
  "from_env env = Inr c \<longleftrightarrow>
     (\<exists>s r. resolve_secret_env env ''SERVER_JWT_SECRET'' ''dev-jwt-secret-change-in-production'' = Inr s \<and>
       resolve_secret_env env ''SERVER_JWT_REFRESH_SECRET'' ''dev-refresh-secret-change-in-production'' = Inr r \<and>
       c = config_with env s r)"
  by (auto simp: from_env_def rust_res)

lemma resolve_secret_Inr:
  "resolve_secret_env env key d = Inr v \<longleftrightarrow>
     (env key = Some v \<and> trim v \<noteq> []) \<or>
     ((case env key of None \<Rightarrow> True | Some w \<Rightarrow> trim w = []) \<and> dev_mode env \<and> v = d)"
  by (auto simp: resolve_secret_env_def split: option.splits if_splits)

text \<open>
  C21. Whatever the environment holds, a server that starts runs with every numeric setting inside its
  documented range and with lists of trimmed, non-empty entries; a value that does not parse or lies
  outside never reaches the server.
\<close>

theorem settings_stay_in_range:
  assumes "from_env env = Inr c"
  shows "config_in_range c"
  using assms by (auto simp: from_env_Inr config_with_in_range)

text \<open>
  Outside development mode the settings load exactly when both signing secrets are given and not
  blank; they are then used as they are. A text for registration that is not one of the four words
  closes it.
\<close>

theorem no_start_without_secrets:
  assumes "\<not> dev_mode env"
  shows "from_env env = Inr c \<longleftrightarrow>
    (\<exists>s r. env ''SERVER_JWT_SECRET'' = Some s \<and> env ''SERVER_JWT_REFRESH_SECRET'' = Some r \<and>
      trim s \<noteq> [] \<and> trim r \<noteq> [] \<and> c = config_with env s r \<and> cf_jwt_secret c = s \<and> cf_jwt_refresh_secret c = r \<and>
      cf_registration_enabled c =
        (case env ''DBMASTER_REGISTRATION_ENABLED'' of None \<Rightarrow> True
         | Some w \<Rightarrow> to_lowercase w \<in> {''1'', ''true'', ''yes'', ''on''}))"
  using assms by (auto simp: from_env_Inr resolve_secret_Inr config_with_def parse_bool_env_def)

definition sample_env :: env where
  "sample_env = [''SERVER_JWT_SECRET'' \<mapsto> ''s1'', ''SERVER_JWT_REFRESH_SECRET'' \<mapsto> ''s1'',
     ''SERVER_PORT'' \<mapsto> ''70000'', ''DBMASTER_REGISTRATION_ENABLED'' \<mapsto> ''enabled?'',
     ''DBMASTER_MCP_RATE_LIMIT_PER_MIN'' \<mapsto> '' 20000 '', ''DBMASTER_GW_QUERY_MAX_ROWS'' \<mapsto> ''10'',
     ''DBMASTER_MCP_ALLOWED_HOSTS'' \<mapsto> ''localhost, 192.0.2.10:38080 ,,'']"

lemma sample_trims [simp]:
  "trim ''s1'' = ''s1''" "trim '' 20000 '' = ''20000''" "trim ''20000 '' = ''20000''" "trim ''10'' = ''10''" "trim ''0'' = ''0''"
  "trim ''localhost'' = ''localhost''" "trim ''192.0.2.10:38080 '' = ''192.0.2.10:38080''"
  by code_simp+

lemma sample_numbers [simp]:
  "parse_unsigned u32_max ''20000'' = Some 20000" "parse_unsigned u32_max ''10'' = Some 10"
  "parse_unsigned 65535 ''70000'' = None" "parse_unsigned u64_max ''0'' = Some 0"
  by (simp_all add: parse_unsigned_def digits_val_def is_ascii_digit_def ccode_def u32_max_def u64_max_def)

lemma sample_env_starts: "from_env sample_env = Inr (config_with sample_env ''s1'' ''s1'')"
  by (simp add: from_env_def resolve_secret_env_def sample_env_def)

lemma sample_env_values:
  "cf_port (config_with sample_env s r) = 3000"
  "cf_mcp_rate_limit_per_minute (config_with sample_env s r) = 120"
  "cf_gw_query_max_rows (config_with sample_env s r) = 10"
  "cf_gw_query_default_rows (config_with sample_env s r) = 500"
  "cf_mcp_allowed_hosts (config_with sample_env s r) = [''localhost'', ''192.0.2.10:38080'']"
  by (simp_all add: config_with_def port_of_env_def env_or_def parse_interval_env_def parse_list_env_def sample_env_def)

theorem settings_stay_in_range_witness:
  "cf_port (config_with sample_env ''s1'' ''s1'') = 3000 \<and>
   cf_mcp_rate_limit_per_minute (config_with sample_env ''s1'' ''s1'') = 120 \<and>
   cf_mcp_allowed_hosts (config_with sample_env ''s1'' ''s1'') = [''localhost'', ''192.0.2.10:38080''] \<and>
   config_in_range (config_with sample_env ''s1'' ''s1'')"
proof (intro conjI)
  show "config_in_range (config_with sample_env ''s1'' ''s1'')"
    by (rule settings_stay_in_range [OF sample_env_starts])
qed (simp_all add: sample_env_values)

theorem no_start_without_secrets_witness:
  "cf_registration_enabled (config_with sample_env ''s1'' ''s1'') = False"
proof -
  have "\<not> dev_mode sample_env" by (simp add: dev_mode_def dev_mode_env_def sample_env_def)
  from no_start_without_secrets [OF this, of "config_with sample_env ''s1'' ''s1''"] sample_env_starts
  have "cf_registration_enabled (config_with sample_env ''s1'' ''s1'') =
      (case sample_env ''DBMASTER_REGISTRATION_ENABLED'' of None \<Rightarrow> True
       | Some w \<Rightarrow> to_lowercase w \<in> {''1'', ''true'', ''yes'', ''on''})" by blast
  also have "\<dots> = (to_lowercase ''enabled?'' \<in> {''1'', ''true'', ''yes'', ''on''})" by (simp add: sample_env_def)
  also have "\<dots> = False" by code_simp
  finally show ?thesis .
qed

subsection \<open>What the comments say and the code does not\<close>

text \<open>A value above the range is not clamped: the default takes its place, here 120 and not 10000.\<close>

lemma out_of_range_is_not_clamped:
  assumes "env key = Some raw" "parse_unsigned u32_max (trim raw) = Some v" "hi < v"
  shows "parse_interval_env env key dflt lo hi = dflt"
  using assms by (simp add: parse_interval_env_def)

text \<open>The refresh secret must differ from the access secret, but equal ones are accepted.\<close>

lemma equal_secrets_start: "\<exists>c. from_env sample_env = Inr c \<and> cf_jwt_secret c = cf_jwt_refresh_secret c"
  by (simp add: sample_env_starts config_with_def)

text \<open>The default number of rows of a gateway query may exceed the ceiling; the handler clamps it like any other.\<close>

lemma default_rows_above_ceiling:
  "cf_gw_query_max_rows (config_with sample_env ''s1'' ''s1'') < cf_gw_query_default_rows (config_with sample_env ''s1'' ''s1'')"
  by (simp add: sample_env_values)

text \<open>A webhook timeout of zero is accepted.\<close>

lemma zero_timeout_accepted: "parse_u64_env [k \<mapsto> ''0''] k 10 = 0"
  by (simp add: parse_u64_env_def)

text \<open>A blank signing secret counts as missing, a blank credential key is an error even in development mode.\<close>

lemma blank_key_is_no_missing_key:
  "load_credential_key [credential_key_env \<mapsto> '' '', dev_mode_env \<mapsto> ''1''] random = Inl KeyBadLength"
proof -
  have "hex_decode (trim '' '') = Some []" by code_simp
  then show ?thesis by (simp add: load_credential_key_def credential_key_env_def dev_mode_env_def)
qed

section \<open>What the key guarantees\<close>

lemma hex_nibble_digit: "d < 16 \<Longrightarrow> hex_nibble (hex_digit d) = Some d"
proof -
  assume d: "d < 16"
  have "ccode (hex_digit d) = (if d < 10 then 48 + d else 87 + d)"
    using d by (simp add: hex_digit_def ccode_def take_bit_eq_mod)
  then show ?thesis using d by (auto simp: is_ascii_digit_def)
qed

text \<open>A random secret has two digits for every byte drawn, from which the bytes can be read back.\<close>

theorem random_secret_reads_back:
  assumes "\<And>b. b \<in> set bytes \<Longrightarrow> b < 256"
  shows "hex_decode (random_hex_secret bytes) = Some bytes \<and> length (random_hex_secret bytes) = 2 * length bytes"
  using assms
proof (induction bytes)
  case (Cons b bytes)
  have "b div 16 < 16" using Cons.prems [of b] by simp
  then have "hex_nibble (hex_digit (b div 16)) = Some (b div 16)" "hex_nibble (hex_digit (b mod 16)) = Some (b mod 16)"
    by (simp_all only: hex_nibble_digit mod_less_divisor zero_less_numeral)
  with Cons show ?case by (simp add: random_hex_secret_def del: hex_nibble.simps)
qed (simp add: random_hex_secret_def)

lemma credential_key_length:
  assumes "load_credential_key env random = Inr key" "length random = 32"
  shows "length key = 32"
  using assms by (auto simp: load_credential_key_def split: option.splits if_splits)

lemma no_start_without_key:
  assumes "load_credential_key env random = Inr key" "\<not> dev_mode env"
  shows "\<exists>raw. env credential_key_env = Some raw \<and> hex_decode (trim raw) = Some key \<and> length key = 32"
  using assms by (auto simp: load_credential_key_def split: option.splits if_splits)

lemma load_or_create_stored:
  "kio_read_ok io \<Longrightarrow> length key = 32 \<Longrightarrow> load_or_create_credential_key io (Some key) = (key, Some key)"
  by (simp add: load_or_create_credential_key_def)

text \<open>One start after the other; every start sees the file the one before it left.\<close>

fun restarts :: "key_io list \<Rightarrow> nat list option \<Rightarrow> nat list list" where
  "restarts [] file = []"
| "restarts (io # ios) file =
     (let (key, file) = load_or_create_credential_key io file in key # restarts ios file)"

text \<open>
  The key of an embedded server is the same at every start once a start could read or create its
  file: the connections stored under it stay readable, whatever the generator draws later.
\<close>

theorem embedded_key_is_stable:
  assumes "kio_read_ok io" "kio_write_ok io" "length (kio_random io) = 32"
    and "\<And>io'. io' \<in> set ios \<Longrightarrow> kio_read_ok io'"
  shows "\<exists>key. length key = 32 \<and> restarts (io # ios) file = replicate (Suc (length ios)) key"
proof -
  let ?key = "fst (load_or_create_credential_key io file)"
  have "length ?key = 32 \<and> snd (load_or_create_credential_key io file) = Some ?key"
    using assms(1-3)
    by (simp add: load_or_create_credential_key_def fresh_key_and_maybe_write_def split: option.split)
  then obtain key where key: "length key = 32" "load_or_create_credential_key io file = (key, Some key)"
    by (metis prod.collapse)
  have "restarts ios (Some key) = replicate (length ios) key"
    using assms(4) by (induction ios) (auto simp: load_or_create_stored key(1))
  with key show ?thesis by auto
qed

text \<open>
  A file that exists but cannot be read at one start gives that start a key of its own, with which
  nothing stored can be read and which no later start knows.
\<close>

lemma unreadable_file_forks_the_key:
  assumes "length key = 32" "\<not> kio_read_ok io" "kio_read_ok io'"
  shows "restarts [io, io'] (Some key) = [kio_random io, key]"
  using assms by (simp add: load_or_create_credential_key_def)

theorem embedded_key_is_stable_witness:
  "\<exists>key. length key = 32 \<and>
     restarts [\<lparr>kio_random = replicate 32 7, kio_read_ok = True, kio_write_ok = True, kio_partial = None\<rparr>,
       \<lparr>kio_random = replicate 32 9, kio_read_ok = True, kio_write_ok = False, kio_partial = None\<rparr>] (Some [1]) =
     replicate 2 key"
  using embedded_key_is_stable [of "\<lparr>kio_random = replicate 32 7, kio_read_ok = True, kio_write_ok = True, kio_partial = None\<rparr>"
      "[\<lparr>kio_random = replicate 32 9, kio_read_ok = True, kio_write_ok = False, kio_partial = None\<rparr>]" "Some [1]"]
  by (simp add: numeral_2_eq_2)

section \<open>What the rebuild keeps\<close>

lemma rename_retry_cases:
  assumes "rename_retry ok n path bak fs = (r, fs')"
  shows "(r = Inr () \<and> fs' = (if fs path = None then fs else rename_file path bak fs)) \<or>
    (fs path \<noteq> None \<and> r = Inl ''rename'' \<and> fs' = fs)"
  using assms
proof (induction ok n path bak fs rule: rename_retry.induct)
  case (1 ok n path bak fs)
  show ?case
  proof (cases "fs path = None \<or> ok n \<or> max_rename_attempts \<le> n + 1")
    case True
    with "1.prems" show ?thesis
      by (cases "fs path = None"; cases "ok n") (auto simp: rename_retry.simps [of ok n path bak fs])
  next
    case False
    then have "rename_retry ok n path bak fs = rename_retry ok (n + 1) path bak fs"
      by (subst rename_retry.simps) (auto simp del: One_nat_def)
    with "1.prems" have "rename_retry ok (n + 1) path bak fs = (r, fs')" by simp
    then show ?thesis using False by (intro "1.IH") simp_all
  qed
qed

text \<open>A rename that succeeds at one of the thirty attempts is enough.\<close>

lemma rename_retry_succeeds:
  assumes "ok m" "n \<le> m" "m < max_rename_attempts"
  shows "fst (rename_retry ok n path bak fs) = Inr ()"
  using assms
proof (induction "m - n" arbitrary: n)
  case 0
  then show ?case by (subst rename_retry.simps) auto
next
  case (Suc k)
  then have "fst (rename_retry ok (n + 1) path bak fs) = Inr ()" by simp
  then show ?case using Suc.prems Suc.hyps(2) by (subst rename_retry.simps) auto
qed

lemma db_names_distinct: "distinct (db_files db @ map (backup_name n) (db_files db))"
  by (simp add: db_files_def backup_name_def)

lemma backup_each_moves:
  assumes "backup_each io paths fs = (r, fs')" "distinct (paths @ map (backup_name (dio_stamp io)) paths)"
  shows "(\<forall>x. x \<notin> set paths \<union> backup_name (dio_stamp io) ` set paths \<longrightarrow> fs' x = fs x) \<and>
    (\<forall>p \<in> set paths. \<forall>c. fs p = Some c \<longrightarrow> fs' p = Some c \<or> fs' (backup_name (dio_stamp io) p) = Some c) \<and>
    (r = Inr () \<longrightarrow> (\<forall>p \<in> set paths. fs' p = None))"
  using assms
proof (induction paths arbitrary: fs)
  case (Cons p ps)
  let ?b = "backup_name (dio_stamp io)"
  obtain q fs1 where q: "rename_retry (dio_rename_ok io p) 0 p (?b p) fs = (q, fs1)" by fastforce
  note step = rename_retry_cases [OF q]
  have ne: "p \<noteq> ?b p" "p \<notin> set ps" "p \<notin> ?b ` set ps" "?b p \<notin> set ps" "?b p \<notin> ?b ` set ps"
      "distinct (ps @ map ?b ps)"
    using Cons.prems(2) by auto
  show ?case
  proof (cases q)
    case (Inl e)
    with step Cons.prems(1) q show ?thesis by auto
  next
    case (Inr u)
    with step have fs1: "fs1 = (if fs p = None then fs else rename_file p (?b p) fs)" by auto
    from Inr q Cons.prems(1) have rest: "backup_each io ps fs1 = (r, fs')" by simp
    note ih = Cons.IH [OF rest ne(6)]
    have same: "fs1 x = fs x" if "x \<noteq> p" "x \<noteq> ?b p" for x
      using that by (simp add: fs1 rename_file_def)
    have "fs1 p = None" using ne(1) by (simp add: fs1 rename_file_def)
    moreover have "fs1 (?b p) = fs p" if "fs p \<noteq> None" using that ne(1) by (auto simp: fs1 rename_file_def)
    moreover have "fs' p = fs1 p" "fs' (?b p) = fs1 (?b p)" using ih ne by blast+
    ultimately have here: "fs' p = None" "fs p \<noteq> None \<Longrightarrow> fs' (?b p) = fs p" by simp_all
    show ?thesis
    proof (intro conjI ballI allI impI)
      fix x assume "x \<notin> set (p # ps) \<union> ?b ` set (p # ps)"
      then have "x \<noteq> p" "x \<noteq> ?b p" "x \<notin> set ps \<union> ?b ` set ps" by auto
      with ih show "fs' x = fs x" by (simp add: same)
    next
      fix x c assume "x \<in> set (p # ps)" "fs x = Some c"
      show "fs' x = Some c \<or> fs' (?b x) = Some c"
      proof (cases "x = p")
        case True
        with here \<open>fs x = Some c\<close> show ?thesis by simp
      next
        case False
        with \<open>x \<in> set (p # ps)\<close> ne(4) have "x \<in> set ps" "x \<noteq> ?b p" by auto
        with ih same [of x] False \<open>fs x = Some c\<close> show ?thesis by simp
      qed
    next
      fix x assume "r = Inr ()" "x \<in> set (p # ps)"
      with ih here show "fs' x = None" by auto
    qed
  qed
qed auto

text \<open>
  C32. When the migrations of an embedded start fail, the rebuild loses nothing: every database file that
  was there when the pool was closed is afterwards under its own name or under its backup name, and
  after a rebuild that succeeded it is under its backup name.
\<close>

theorem rebuild_keeps_the_old_files:
  assumes "dio_open io 0 fs = (True, fs0)" "dio_migrate io 0 fs0 = (False, fs1)"
    and "init_pool_with_embedded_rebuild io db fs = (r, fs')"
    and "\<And>g x. x \<notin> set (db_files db) \<Longrightarrow> snd (dio_open io 1 g) x = g x \<and> snd (dio_migrate io 1 g) x = g x"
    and "p \<in> set (db_files db)" "dio_close io fs1 p = Some c"
  shows "fs' (backup_name (dio_stamp io) p) = Some c \<or> fs' p = Some c \<and> r = Inl ''rename''"
proof -
  let ?b = "backup_name (dio_stamp io)"
  obtain q fs2 where q: "backup_each io (db_files db) (dio_close io fs1) = (q, fs2)" by fastforce
  note moved = backup_each_moves [OF q db_names_distinct]
  have bp: "?b p \<notin> set (db_files db)" using db_names_distinct [of db "dio_stamp io"] assms(5) by auto
  show ?thesis
  proof (cases q)
    case (Inl e)
    have "e = ''rename''"
      using q Inl by (auto dest!: rename_retry_cases simp: db_files_def split: prod.splits sum.splits)
    with Inl q assms(1-3) have "fs' = fs2" "r = Inl ''rename''"
      by (auto simp: init_pool_with_embedded_rebuild_def init_pool_def run_migrations_def backup_db_files_def)
    with moved assms(5,6) show ?thesis by blast
  next
    case (Inr u)
    then have "fs2 p = None" "fs2 (?b p) = Some c" using moved assms(5,6) by auto
    moreover have "fs' x = fs2 x" if "x \<notin> set (db_files db)" for x
      using assms(1-3) q Inr that assms(4) [OF that]
      by (auto simp: init_pool_with_embedded_rebuild_def init_pool_def run_migrations_def backup_db_files_def
          split: prod.splits if_splits) (metis snd_conv)+
    ultimately show ?thesis using bp by simp
  qed
qed

definition sample_db_io :: db_io where
  "sample_db_io = \<lparr>dio_open = (\<lambda>n fs. (True, fs)),
     dio_migrate = (\<lambda>n fs. (n = 1, if n = 1 then fs(''d'' \<mapsto> ''new'') else fs)),
     dio_close = id, dio_rename_ok = (\<lambda>p n. n = 3), dio_stamp = 7\<rparr>"

theorem rebuild_keeps_the_old_files_witness:
  "snd (init_pool_with_embedded_rebuild sample_db_io ''d'' [''d'' \<mapsto> ''old'']) ''d.bak-7'' = Some ''old''"
proof -
  obtain r fs' where run: "init_pool_with_embedded_rebuild sample_db_io ''d'' [''d'' \<mapsto> ''old''] = (r, fs')" by fastforce
  have "fs' (backup_name (dio_stamp sample_db_io) ''d'') = Some ''old'' \<or> fs' ''d'' = Some ''old'' \<and> r = Inl ''rename''"
    by (rule rebuild_keeps_the_old_files [where ?fs1.0 = "[''d'' \<mapsto> ''old'']", OF _ _ run])
      (auto simp: sample_db_io_def db_files_def)
  moreover have "r = Inr True"
  proof -
    have ok: "fst (rename_retry (\<lambda>n. n = 3) 0 path bak fs) = Inr ()" for path bak fs
      by (rule rename_retry_succeeds [of _ 3]) (simp_all add: max_rename_attempts_def)
    have "fst (backup_each sample_db_io paths fs) = Inr ()" for paths fs
    proof (induction paths arbitrary: fs)
      case (Cons p ps)
      then show ?case using ok [of p "backup_name 7 p" fs]
        by (cases "rename_retry (\<lambda>n. n = 3) 0 p (backup_name 7 p) fs") (simp add: sample_db_io_def)
    qed simp
    from this [of "db_files ''d''" "[''d'' \<mapsto> ''old'']"] run show ?thesis
      by (cases "backup_each sample_db_io (db_files ''d'') [''d'' \<mapsto> ''old'']")
        (simp add: sample_db_io_def init_pool_with_embedded_rebuild_def init_pool_def run_migrations_def backup_db_files_def)
  qed
  moreover have "backup_name (dio_stamp sample_db_io) ''d'' = ''d.bak-7''"
  proof -
    have "show_nat 7 = ''7''" by code_simp
    then show ?thesis by (simp add: backup_name_def sample_db_io_def)
  qed
  ultimately show ?thesis using run by simp
qed

end
