(* ===== verification/Server_App.thy ===== *)
theory Server_App
  imports Server_Config Entitlement Credentials Accounts
begin

text \<open>
  The composition and the start of the server: \<open>src/lib.rs\<close>, the application state of
  \<open>crates/core/src/server/mod.rs\<close> and the two start-ups of \<open>src/main.rs\<close>.

  An \<open>Arc<ArcSwap<EntitlementState>>\<close> is an index into the list of cells; creating one appends a cell.
  Background jobs are the list of what was spawned. The pool, the listener, the clock and the random
  generator are arguments.
\<close>

section \<open>Composition\<close>

type_synonym cells = "entitlement_state list"

record app_state =
  ap_config :: server_config
  ap_credential_key :: "nat list"
  ap_entitlement :: nat
  ap_admin_token :: "string option"
  ap_install_uuid :: string
  ap_embedded_mode :: bool

definition app_state_new :: "env \<Rightarrow> server_config \<Rightarrow> nat list \<Rightarrow> entitlement_state \<Rightarrow> string \<Rightarrow> cells \<Rightarrow> app_state \<times> cells" where
  "app_state_new env cfg key ent uuid cells =
     (\<lparr>ap_config = cfg, ap_credential_key = key, ap_entitlement = length cells,
       ap_admin_token = (case env ''DBMASTER_SERVER_ADMIN_TOKEN'' of Some s \<Rightarrow> if s \<noteq> [] then Some s else None | None \<Rightarrow> None),
       ap_install_uuid = uuid, ap_embedded_mode = False\<rparr>,
      cells @ [ent])"

definition app_state_new_embedded :: "env \<Rightarrow> server_config \<Rightarrow> nat list \<Rightarrow> entitlement_state \<Rightarrow> string \<Rightarrow> cells \<Rightarrow> app_state \<times> cells" where
  "app_state_new_embedded env cfg key ent uuid cells =
     (let (s, cells) = app_state_new env cfg key ent uuid cells in (s\<lparr>ap_embedded_mode := True\<rparr>, cells))"

definition build_router_with_config :: "env \<Rightarrow> server_config \<Rightarrow> nat list \<Rightarrow> entitlement_state \<Rightarrow> string \<Rightarrow> bool \<Rightarrow> cells \<Rightarrow> app_state \<times> cells" where
  "build_router_with_config env cfg key ent uuid embedded cells =
     (if embedded then app_state_new_embedded env cfg key ent uuid cells else app_state_new env cfg key ent uuid cells)"

text \<open>What the MCP router passes to its tools.\<close>

record mcp_service =
  ms_credential_key :: "nat list"
  ms_entitlement :: nat
  ms_max_rows :: nat
  ms_timeout_secs :: nat
  ms_whitelist :: "string list"
  ms_allowed_hosts :: "string list"

definition mcp_router :: "server_config \<Rightarrow> nat list \<Rightarrow> nat \<Rightarrow> mcp_service" where
  "mcp_router cfg key cell =
     \<lparr>ms_credential_key = key, ms_entitlement = cell, ms_max_rows = cf_mcp_read_query_max_rows cfg,
      ms_timeout_secs = cf_mcp_read_query_timeout_secs cfg, ms_whitelist = cf_mcp_allowed_connections cfg,
      ms_allowed_hosts = cf_mcp_allowed_hosts cfg\<rparr>"

record server_app =
  sa_core :: app_state
  sa_automation :: app_state
  sa_mcp :: mcp_service
  sa_gateway :: "server_config \<times> nat list"

definition build_app_with_config :: "env \<Rightarrow> server_config \<Rightarrow> nat list \<Rightarrow> entitlement_state \<Rightarrow> string \<Rightarrow> bool \<Rightarrow> cells \<Rightarrow> server_app \<times> cells" where
  "build_app_with_config env cfg key ent uuid embedded cells =
     (let (core, cells) = build_router_with_config env cfg key ent uuid embedded cells;
          (state, cells) =
            (if embedded then app_state_new_embedded env cfg key ent uuid cells else app_state_new env cfg key ent uuid cells)
      in (\<lparr>sa_core = core, sa_automation = state, sa_mcp = mcp_router cfg key (ap_entitlement state),
           sa_gateway = (cfg, key)\<rparr>, cells))"

text \<open>\<open>None\<close>: the settings did not load and the process panicked.\<close>

definition build_app :: "env \<Rightarrow> nat list \<Rightarrow> entitlement_state \<Rightarrow> string \<Rightarrow> cells \<Rightarrow> (server_app \<times> cells) option" where
  "build_app env key ent uuid cells =
     (case from_env env of
        Inl e \<Rightarrow> None
      | Inr cfg \<Rightarrow> Some (build_app_with_config env cfg key ent uuid False cells))"

section \<open>Normal start\<close>

datatype job = DriftScheduler | DataSyncScheduler | HealthScheduler | WeeklyReports | NativeCollectors | RetentionCleanup nat

definition loopback_hosts :: "string list" where
  "loopback_hosts = [''127.0.0.1'', ''localhost'', ''::1'']"

definition registration_exposure_warn :: "bool \<Rightarrow> string \<Rightarrow> bool \<Rightarrow> bool" where
  "registration_exposure_warn registration_enabled host dev \<longleftrightarrow>
     registration_enabled \<and> host \<notin> set loopback_hosts \<and> \<not> dev"

record boot_io =
  bo_random_key :: "nat list"
  bo_pool_ok :: bool
  bo_migrations_ok :: bool
  bo_scan_ok :: bool
  bo_rows :: "string \<Rightarrow> nat list \<times> bool"
  bo_resolve :: license_io
  bo_license_file :: file_io
  bo_uuid :: license_io
  bo_bind_ok :: bool

record server_disk =
  dk_credentials :: "(string \<times> string) list"
  dk_rows :: "instance_meta list"
  dk_files :: license_files

record server_start =
  sv_app :: server_app
  sv_cells :: cells
  sv_jobs :: "job list"
  sv_addr :: string
  sv_warned :: bool

datatype boot_result = BootFailed string | BootPanicked | Serving server_start

definition scheduler_state :: "env \<Rightarrow> nat list \<Rightarrow> entitlement_state \<Rightarrow> string \<Rightarrow> cells \<Rightarrow> (config_error + app_state) \<times> cells" where
  "scheduler_state env key ent uuid cells =
     (case from_env env of
        Inl e \<Rightarrow> (Inl e, cells)
      | Inr cfg \<Rightarrow> (let (s, cells) = app_state_new env cfg key ent uuid cells in (Inr s, cells)))"

text \<open>From the resolved entitlement to the bound listener.\<close>

definition serve_normal :: "env \<Rightarrow> boot_io \<Rightarrow> server_config \<Rightarrow> nat list \<Rightarrow> entitlement_state \<Rightarrow> string \<Rightarrow> boot_result" where
  "serve_normal env io cfg key ent uuid =
     (case build_app env key ent uuid [] of
        None \<Rightarrow> BootPanicked
      | Some (app, cells) \<Rightarrow>
          (case (if is_gated ent then Inr ([], cells)
                 else case scheduler_state env key ent uuid cells of
                        (Inl e, cells) \<Rightarrow> Inl ''config''
                      | (Inr s, cells) \<Rightarrow> Inr ([DriftScheduler, DataSyncScheduler, HealthScheduler], cells)) of
             Inl e \<Rightarrow> BootFailed e
           | Inr (schedulers, cells) \<Rightarrow>
               (if \<not> bo_bind_ok io then BootFailed ''bind''
                else Serving \<lparr>sv_app = app, sv_cells = cells,
                  sv_jobs = schedulers @ (if is_gated ent then [] else [WeeklyReports, NativeCollectors]) @
                    [RetentionCleanup (cf_slow_query_retention_days cfg)],
                  sv_addr = cf_host cfg @ '':'' @ show_nat (cf_port cfg),
                  sv_warned = registration_exposure_warn (cf_registration_enabled cfg) (cf_host cfg) (dev_mode env)\<rparr>)))"

definition run_normal :: "license_lib \<Rightarrow> crypto \<Rightarrow> env \<Rightarrow> boot_io \<Rightarrow> server_disk \<Rightarrow> boot_result \<times> server_disk" where
  "run_normal lib cr env io dk =
     (case from_env env of
        Inl e \<Rightarrow> (BootFailed ''config'', dk)
      | Inr cfg \<Rightarrow>
          (case load_credential_key env (bo_random_key io) of
             Inl e \<Rightarrow> (BootFailed ''credential key'', dk)
           | Inr key \<Rightarrow>
               if \<not> bo_pool_ok io then (BootFailed ''database'', dk)
               else if \<not> bo_migrations_ok io then (BootFailed ''migrations'', dk)
               else case migrate_legacy_credentials cr key (bo_scan_ok io) (bo_rows io) (dk_credentials dk) of
                   (Inl e, tbl) \<Rightarrow> (BootFailed ''credential migration'', dk\<lparr>dk_credentials := tbl\<rparr>)
                 | (Inr n, tbl) \<Rightarrow>
                     (case resolve_entitlement lib (bo_resolve io) (bo_license_file io) (dk_files dk) (dk_rows dk) of
                        None \<Rightarrow>
                          (BootPanicked, dk\<lparr>dk_credentials := tbl, dk_rows := snd (get_or_create_instance lib (bo_resolve io) (dk_rows dk))\<rparr>)
                      | Some (Inl e, rows) \<Rightarrow> (BootFailed ''entitlement'', dk\<lparr>dk_credentials := tbl, dk_rows := rows\<rparr>)
                      | Some (Inr ent, rows) \<Rightarrow>
                          (case get_install_uuid lib (bo_uuid io) rows of
                             (Inl e, rows) \<Rightarrow> (BootFailed ''install_uuid'', dk\<lparr>dk_credentials := tbl, dk_rows := rows\<rparr>)
                           | (Inr uuid, rows) \<Rightarrow>
                               (serve_normal env io cfg key ent uuid, dk\<lparr>dk_credentials := tbl, dk_rows := rows\<rparr>)))))"

section \<open>Embedded start\<close>

definition embedded_config :: "string \<Rightarrow> string \<Rightarrow> string \<Rightarrow> server_config" where
  "embedded_config secret refresh url =
     \<lparr>cf_host = ''127.0.0.1'', cf_port = 0, cf_jwt_secret = secret, cf_jwt_refresh_secret = refresh,
      cf_database_url = url, cf_registration_enabled = False, cf_funnel_lite_enabled = True,
      cf_drift_default_interval_mins = 30, cf_drift_webhook_timeout_secs = 10,
      cf_data_sync_default_batch_size = 10000, cf_data_sync_max_concurrency = 1,
      cf_mcp_rate_limit_per_minute = 120, cf_mcp_read_query_max_rows = 10000, cf_mcp_read_query_timeout_secs = 30,
      cf_mcp_allowed_hosts = [], cf_mcp_allowed_connections = [],
      cf_gw_rate_limit_per_minute = 600, cf_gw_query_default_rows = 500, cf_gw_query_max_rows = 10000,
      cf_gw_query_timeout_secs = 30, cf_slow_query_enabled = True, cf_slow_query_threshold_ms = 1000,
      cf_slow_query_store_sql = True, cf_slow_query_retention_days = 14, cf_slow_query_cap_per_digest_per_hour = 20\<rparr>"

definition embedded_license :: "string \<Rightarrow> string \<Rightarrow> license_v2" where
  "embedded_license uuid now =
     \<lparr>lv_email = ''embedded@local'', lv_expires_at = None, lv_instance_id = uuid, lv_issued_at = now,
      lv_license_type = ''embedded''\<rparr>"

text \<open>
  \<open>eo_tables\<close> is what the opened database holds, after the migrations and with a rebuild or
  without; \<open>eo_port\<close> the port of the listener when it could be bound.
\<close>

record embedded_io =
  eo_mkdir_ok :: bool
  eo_secret :: "nat list"
  eo_refresh_secret :: "nat list"
  eo_key :: key_io
  eo_db :: db_io
  eo_tables :: "bool \<Rightarrow> instance_meta list \<times> accounts"
  eo_uuid :: license_io
  eo_now :: string
  eo_account :: account_io
  eo_password :: string
  eo_port :: "nat option"
  eo_version :: string

definition ready_handshake :: "string \<Rightarrow> nat \<Rightarrow> string \<Rightarrow> string \<Rightarrow> string \<Rightarrow> json" where
  "ready_handshake version port access refresh uuid =
     JObj [(''type'', JStr ''dbmaster_embedded_ready''), (''port'', JNum (int port)), (''access_token'', JStr access),
       (''refresh_token'', JStr refresh), (''install_uuid'', JStr uuid), (''version'', JStr version)]"

record embedded_start =
  es_app :: server_app
  es_cells :: cells
  es_jobs :: "job list"
  es_bound :: "string \<times> nat"
  es_stdout :: "json list"
  es_accounts :: accounts

definition account_config_of :: "server_config \<Rightarrow> account_config" where
  "account_config_of cfg =
     \<lparr>ac_registration_enabled = cf_registration_enabled cfg, ac_jwt_secret = cf_jwt_secret cfg,
      ac_jwt_refresh_secret = cf_jwt_refresh_secret cfg\<rparr>"

text \<open>From the opened database to the handshake.\<close>

definition serve_embedded :: "license_lib \<Rightarrow> account_lib \<Rightarrow> env \<Rightarrow> embedded_io \<Rightarrow> server_config \<Rightarrow> nat list \<Rightarrow> bool \<Rightarrow>
    string + embedded_start" where
  "serve_embedded lib alib env io cfg key rebuilt =
     (let (rows, accounts) = eo_tables io rebuilt in
      case get_install_uuid lib (eo_uuid io) rows of
        (Inl e, rows) \<Rightarrow> Inl ''install_uuid''
      | (Inr uuid, rows) \<Rightarrow>
          (let ent = Licensed (embedded_license uuid (eo_now io)) None in
           case ensure_embedded_user_and_tokens alib (account_config_of cfg) (eo_account io) (eo_password io) accounts of
             (Inl e, accounts) \<Rightarrow> Inl ''embedded user bootstrap failed''
           | (Inr (user, access, refresh), accounts) \<Rightarrow>
               (let (app, cells) = build_app_with_config env cfg key ent uuid True [];
                    (ds_state, cells) = app_state_new_embedded env cfg key ent uuid cells
                in case eo_port io of
                     None \<Rightarrow> Inl ''bind''
                   | Some port \<Rightarrow>
                       Inr \<lparr>es_app = app, es_cells = cells,
                         es_jobs = [RetentionCleanup (cf_slow_query_retention_days cfg), WeeklyReports, NativeCollectors, DataSyncScheduler],
                         es_bound = (''127.0.0.1'', port),
                         es_stdout = [ready_handshake (eo_version io) port access refresh uuid],
                         es_accounts = accounts\<rparr>)))"

definition run_embedded :: "license_lib \<Rightarrow> account_lib \<Rightarrow> env \<Rightarrow> embedded_io \<Rightarrow> string \<Rightarrow> nat list option \<Rightarrow> files \<Rightarrow>
    (string + embedded_start) \<times> nat list option \<times> files" where
  "run_embedded lib alib env io data_dir key_file fs =
     (if \<not> eo_mkdir_ok io then (Inl ''create_dir_all'', key_file, fs)
      else
        let db_path = data_dir @ ''/dbmaster-embedded.db'';
            url = ''sqlite:'' @ db_path @ ''?mode=rwc'';
            cfg = embedded_config (random_hex_secret (eo_secret io)) (random_hex_secret (eo_refresh_secret io)) url;
            (key, key_file) = load_or_create_credential_key (eo_key io) key_file
        in case init_pool_with_embedded_rebuild (eo_db io) db_path fs of
             (Inl e, fs) \<Rightarrow> (Inl e, key_file, fs)
           | (Inr rebuilt, fs) \<Rightarrow> (serve_embedded lib alib env io cfg key rebuilt, key_file, fs))"

section \<open>The running server\<close>

record running =
  rn_app :: server_app
  rn_cells :: cells
  rn_rows :: "instance_meta list"
  rn_files :: license_files

text \<open>The endpoint \<open>POST /api/license\<close> of the core router, over the cell of its own state.\<close>

definition post_license_running :: "license_lib \<Rightarrow> license_io \<Rightarrow> file_io \<Rightarrow> string option \<Rightarrow> string \<Rightarrow> running \<Rightarrow>
    license_response option \<times> running" where
  "post_license_running lib io fio hdr body rn =
     (let core = sa_core (rn_app rn);
          (resp, st) = post_license lib io fio hdr body
            \<lparr>ss_embedded_mode = ap_embedded_mode core, ss_admin_token = ap_admin_token core,
             ss_entitlement = rn_cells rn ! ap_entitlement core, ss_rows = rn_rows rn, ss_files = rn_files rn\<rparr>
      in (resp, rn\<lparr>rn_cells := (rn_cells rn)[ap_entitlement core := ss_entitlement st],
                   rn_rows := ss_rows st, rn_files := ss_files st\<rparr>))"

definition core_entitlement :: "running \<Rightarrow> entitlement_state" where
  "core_entitlement rn = rn_cells rn ! ap_entitlement (sa_core (rn_app rn))"

definition automation_gate :: "running \<Rightarrow> (nat \<times> json) option" where
  "automation_gate rn = gate_blocked (rn_cells rn ! ap_entitlement (sa_automation (rn_app rn)))"

definition mcp_write_gated :: "running \<Rightarrow> bool" where
  "mcp_write_gated rn \<longleftrightarrow> is_gated (rn_cells rn ! ms_entitlement (sa_mcp (rn_app rn)))"

definition running_of :: "server_start \<Rightarrow> server_disk \<Rightarrow> running" where
  "running_of s dk = \<lparr>rn_app = sv_app s, rn_cells = sv_cells s, rn_rows = dk_rows dk, rn_files = dk_files dk\<rparr>"

section \<open>What a start guarantees\<close>

lemma app_state_new_simps [simp]:
  "ap_config (fst (app_state_new env cfg key ent uuid cells)) = cfg"
  "ap_credential_key (fst (app_state_new env cfg key ent uuid cells)) = key"
  "ap_entitlement (fst (app_state_new env cfg key ent uuid cells)) = length cells"
  "ap_embedded_mode (fst (app_state_new env cfg key ent uuid cells)) = False"
  "snd (app_state_new env cfg key ent uuid cells) = cells @ [ent]"
  by (simp_all add: app_state_new_def)

lemma app_state_new_embedded_eq:
  "app_state_new_embedded env cfg key ent uuid cells =
    ((fst (app_state_new env cfg key ent uuid cells))\<lparr>ap_embedded_mode := True\<rparr>, cells @ [ent])"
  by (simp add: app_state_new_embedded_def app_state_new_def)

text \<open>The two routers have a state each, and with it a cell each; the tools share the second.\<close>

lemma build_app_with_config_simps:
  assumes "build_app_with_config env cfg key ent uuid embedded cells = (app, cells')"
  shows "ap_config (sa_core app) = cfg" "ap_config (sa_automation app) = cfg"
    "ap_credential_key (sa_core app) = key" "ap_credential_key (sa_automation app) = key"
    "ap_embedded_mode (sa_core app) = embedded" "ap_embedded_mode (sa_automation app) = embedded"
    "ap_entitlement (sa_core app) = length cells" "ap_entitlement (sa_automation app) = Suc (length cells)"
    "sa_mcp app = mcp_router cfg key (Suc (length cells))" "sa_gateway app = (cfg, key)"
    "cells' = cells @ [ent, ent]"
  using assms
  by (cases embedded; auto simp: build_app_with_config_def build_router_with_config_def app_state_new_embedded_eq
      app_state_new_def)+

lemma serve_normal_Serving:
  assumes "serve_normal env io cfg key ent uuid = Serving s" "from_env env = Inr cfg"
  obtains app cells where "build_app_with_config env cfg key ent uuid False [] = (app, cells)"
    "sv_app s = app" "sv_cells s = cells @ (if is_gated ent then [] else [ent])"
    "sv_jobs s = (if is_gated ent then [] else [DriftScheduler, DataSyncScheduler, HealthScheduler, WeeklyReports, NativeCollectors]) @
       [RetentionCleanup (cf_slow_query_retention_days cfg)]"
    "sv_addr s = cf_host cfg @ '':'' @ show_nat (cf_port cfg)"
    "sv_warned s = registration_exposure_warn (cf_registration_enabled cfg) (cf_host cfg) (dev_mode env)"
proof -
  obtain app cells where b: "build_app_with_config env cfg key ent uuid False [] = (app, cells)" by fastforce
  with assms show ?thesis
    by (intro that [OF b])
      (auto simp: serve_normal_def build_app_def scheduler_state_def app_state_new_def split: if_splits)
qed

lemma run_normal_Serving:
  assumes "run_normal lib cr env io dk = (Serving s, dk')"
  obtains cfg key n ent rows uuid where "from_env env = Inr cfg" "load_credential_key env (bo_random_key io) = Inr key"
    "migrate_legacy_credentials cr key (bo_scan_ok io) (bo_rows io) (dk_credentials dk) = (Inr n, dk_credentials dk')"
    "resolve_entitlement lib (bo_resolve io) (bo_license_file io) (dk_files dk) (dk_rows dk) = Some (Inr ent, rows)"
    "get_install_uuid lib (bo_uuid io) rows = (Inr uuid, dk_rows dk')"
    "serve_normal env io cfg key ent uuid = Serving s" "dk_files dk' = dk_files dk"
  using assms
  by (auto simp: run_normal_def split: sum.splits if_splits prod.splits option.splits)

text \<open>
  C17. A start that serves has resolved the entitlement and runs exactly the jobs it allows: gated, only
  the cleaning of the statistics; otherwise the three schedulers, the reports and the collectors as
  well. Every part of the application has the same settings, the same credential key and, at first,
  the same entitlement.
\<close>

theorem start_follows_the_entitlement:
  assumes "run_normal lib cr env io dk = (Serving s, dk')"
  shows "\<exists>cfg key ent rows. from_env env = Inr cfg \<and> load_credential_key env (bo_random_key io) = Inr key \<and>
    resolve_entitlement lib (bo_resolve io) (bo_license_file io) (dk_files dk) (dk_rows dk) = Some (Inr ent, rows) \<and>
    sv_jobs s = (if is_gated ent then [] else [DriftScheduler, DataSyncScheduler, HealthScheduler, WeeklyReports, NativeCollectors]) @
      [RetentionCleanup (cf_slow_query_retention_days cfg)] \<and>
    ap_config (sa_core (sv_app s)) = cfg \<and> ap_config (sa_automation (sv_app s)) = cfg \<and> sa_gateway (sv_app s) = (cfg, key) \<and>
    ap_credential_key (sa_core (sv_app s)) = key \<and> ap_credential_key (sa_automation (sv_app s)) = key \<and>
    ms_credential_key (sa_mcp (sv_app s)) = key \<and> set (sv_cells s) = {ent} \<and>
    core_entitlement (running_of s dk') = ent \<and> automation_gate (running_of s dk') = gate_blocked ent \<and>
    (mcp_write_gated (running_of s dk') \<longleftrightarrow> is_gated ent)"
proof -
  from assms obtain cfg key n ent rows uuid where r: "from_env env = Inr cfg" "load_credential_key env (bo_random_key io) = Inr key"
    "resolve_entitlement lib (bo_resolve io) (bo_license_file io) (dk_files dk) (dk_rows dk) = Some (Inr ent, rows)"
    and s: "serve_normal env io cfg key ent uuid = Serving s"
    by (rule run_normal_Serving)
  from s r(1) obtain app cells where a: "build_app_with_config env cfg key ent uuid False [] = (app, cells)"
    "sv_app s = app" "sv_cells s = cells @ (if is_gated ent then [] else [ent])"
    "sv_jobs s = (if is_gated ent then [] else [DriftScheduler, DataSyncScheduler, HealthScheduler, WeeklyReports, NativeCollectors]) @
       [RetentionCleanup (cf_slow_query_retention_days cfg)]"
    by (rule serve_normal_Serving)
  note b = build_app_with_config_simps [OF a(1)]
  have "set (sv_cells s) = {ent}" by (auto simp: a(3) b(11))
  moreover have "core_entitlement (running_of s dk') = ent" "automation_gate (running_of s dk') = gate_blocked ent"
      "mcp_write_gated (running_of s dk') = is_gated ent"
    by (simp_all add: core_entitlement_def automation_gate_def mcp_write_gated_def running_of_def a(2,3) b mcp_router_def)
  ultimately show ?thesis using r a(2,4) b by (auto simp: mcp_router_def)
qed

text \<open>
  C31. Outside development mode a server that serves was given both signing secrets and a credential key
  of 32 bytes, and it signs and encrypts with these.
\<close>

theorem served_with_given_keys:
  assumes "run_normal lib cr env io dk = (Serving s, dk')" "\<not> dev_mode env"
  shows "\<exists>secret refresh raw. env ''SERVER_JWT_SECRET'' = Some secret \<and> env ''SERVER_JWT_REFRESH_SECRET'' = Some refresh \<and>
    trim secret \<noteq> [] \<and> trim refresh \<noteq> [] \<and> cf_jwt_secret (ap_config (sa_core (sv_app s))) = secret \<and>
    cf_jwt_refresh_secret (ap_config (sa_core (sv_app s))) = refresh \<and>
    env credential_key_env = Some raw \<and> hex_decode (trim raw) = Some (ap_credential_key (sa_core (sv_app s))) \<and>
    length (ap_credential_key (sa_core (sv_app s))) = 32"
proof -
  from assms(1) obtain cfg key n ent rows uuid where r: "from_env env = Inr cfg" "load_credential_key env (bo_random_key io) = Inr key"
    and s: "serve_normal env io cfg key ent uuid = Serving s"
    by (rule run_normal_Serving)
  from s r(1) obtain app cells where a: "build_app_with_config env cfg key ent uuid False [] = (app, cells)" "sv_app s = app"
    by (rule serve_normal_Serving)
  note b = build_app_with_config_simps [OF a(1)]
  obtain raw where "env credential_key_env = Some raw" "hex_decode (trim raw) = Some key" "length key = 32"
    using no_start_without_key [OF r(2) assms(2)] by blast
  moreover obtain secret refresh where "env ''SERVER_JWT_SECRET'' = Some secret" "env ''SERVER_JWT_REFRESH_SECRET'' = Some refresh"
    "trim secret \<noteq> []" "trim refresh \<noteq> []" "cfg = config_with env secret refresh"
    using r(1) assms(2) by (auto simp: from_env_Inr resolve_secret_Inr)
  ultimately show ?thesis by (simp add: a(2) b config_with_def)
qed

text \<open>
  An embedded server listens on the loopback address only, admits no registration, is never gated,
  serves the credential endpoint, and runs the data synchronisation but neither the drift nor the
  health scheduler. It prints one line, with the port it is bound to.
\<close>

theorem embedded_start_is_closed:
  assumes "run_embedded lib alib env io data_dir key_file fs = (Inr s, key_file', fs')"
  shows "fst (es_bound s) = ''127.0.0.1'' \<and> eo_port io = Some (snd (es_bound s)) \<and>
    (\<exists>access refresh uuid. es_stdout s = [ready_handshake (eo_version io) (snd (es_bound s)) access refresh uuid]) \<and>
    \<not> cf_registration_enabled (ap_config (sa_core (es_app s))) \<and>
    cf_jwt_secret (ap_config (sa_core (es_app s))) = random_hex_secret (eo_secret io) \<and>
    ap_embedded_mode (sa_core (es_app s)) \<and> ap_embedded_mode (sa_automation (es_app s)) \<and>
    (\<forall>e \<in> set (es_cells s). \<not> is_gated e) \<and> length (es_cells s) = 3 \<and>
    DataSyncScheduler \<in> set (es_jobs s) \<and> DriftScheduler \<notin> set (es_jobs s) \<and> HealthScheduler \<notin> set (es_jobs s)"
proof -
  define cfg where "cfg = embedded_config (random_hex_secret (eo_secret io)) (random_hex_secret (eo_refresh_secret io))
      (''sqlite:'' @ (data_dir @ ''/dbmaster-embedded.db'') @ ''?mode=rwc'')"
  from assms obtain key rebuilt where s: "serve_embedded lib alib env io cfg key rebuilt = Inr s"
    by (auto simp: run_embedded_def cfg_def Let_def split: if_splits sum.splits prod.splits)
  obtain uuid access refresh accounts port app cells where
    b: "build_app_with_config env cfg key (Licensed (embedded_license uuid (eo_now io)) None) uuid True [] = (app, cells)"
    and p: "eo_port io = Some port"
    and e: "s = \<lparr>es_app = app, es_cells = cells @ [Licensed (embedded_license uuid (eo_now io)) None],
      es_jobs = [RetentionCleanup (cf_slow_query_retention_days cfg), WeeklyReports, NativeCollectors, DataSyncScheduler],
      es_bound = (''127.0.0.1'', port), es_stdout = [ready_handshake (eo_version io) port access refresh uuid],
      es_accounts = accounts\<rparr>"
    using s by (auto simp: serve_embedded_def app_state_new_embedded_eq Let_def split: sum.splits prod.splits option.splits)
  show ?thesis
    using build_app_with_config_simps [OF b] p
    by (auto simp: e is_gated_def cfg_def embedded_config_def)
qed

section \<open>The entitlement of a running server\<close>

fun serve_posts :: "license_lib \<Rightarrow> (license_io \<times> file_io \<times> string option \<times> string) list \<Rightarrow> running \<Rightarrow> running" where
  "serve_posts lib [] rn = rn"
| "serve_posts lib ((io, fio, hdr, body) # posts) rn =
     serve_posts lib posts (snd (post_license_running lib io fio hdr body rn))"

lemma post_license_running_keeps:
  assumes "ap_entitlement (sa_core (rn_app rn)) \<noteq> n"
  shows "rn_app (snd (post_license_running lib io fio hdr body rn)) = rn_app rn"
    "rn_cells (snd (post_license_running lib io fio hdr body rn)) ! n = rn_cells rn ! n"
  using assms by (simp_all add: post_license_running_def Let_def split: prod.split)

lemma serve_posts_keeps:
  assumes "ap_entitlement (sa_core (rn_app rn)) \<noteq> n"
  shows "rn_app (serve_posts lib posts rn) = rn_app rn \<and> rn_cells (serve_posts lib posts rn) ! n = rn_cells rn ! n"
  using assms
proof (induction posts arbitrary: rn)
  case (Cons p posts)
  obtain io fio hdr body where "p = (io, fio, hdr, body)" by (cases p) auto
  then show ?case using Cons.IH [of "snd (post_license_running lib io fio hdr body rn)"] Cons.prems
    by (simp add: post_license_running_keeps)
qed simp


section \<open>A concrete server\<close>

definition sample_hex :: string where
  "sample_hex = replicate 64 CHR ''0''"

definition prod_env :: env where
  "prod_env = [''SERVER_JWT_SECRET'' \<mapsto> ''s1'', ''SERVER_JWT_REFRESH_SECRET'' \<mapsto> ''s2'',
     ''DBMASTER_CREDENTIAL_KEY'' \<mapsto> sample_hex, ''DBMASTER_SERVER_ADMIN_TOKEN'' \<mapsto> ''t'']"

definition sample_boot :: boot_io where
  "sample_boot = \<lparr>bo_random_key = replicate 32 1, bo_pool_ok = True, bo_migrations_ok = True, bo_scan_ok = True,
     bo_rows = (\<lambda>i. (replicate 12 0, True)), bo_resolve = ent_io (15 * nanos_per_day), bo_license_file = sample_fio,
     bo_uuid = ent_io 0, bo_bind_ok = True\<rparr>"

definition sample_disk :: server_disk where
  "sample_disk = \<lparr>dk_credentials = [], dk_rows = [sample_row 0], dk_files = \<lparr>lf_file = None, lf_tmp = None\<rparr>\<rparr>"

lemma prod_env_loads:
  "from_env prod_env = Inr (config_with prod_env ''s1'' ''s2'')"
  "load_credential_key prod_env r = Inr (replicate 32 0)"
  "\<not> dev_mode prod_env"
proof -
  have [simp]: "trim ''s1'' = ''s1''" "trim ''s2'' = ''s2''"
    "hex_decode (trim sample_hex) = Some (replicate 32 0)" by code_simp+
  show "from_env prod_env = Inr (config_with prod_env ''s1'' ''s2'')"
    by (simp add: from_env_def resolve_secret_env_def prod_env_def)
  show "load_credential_key prod_env r = Inr (replicate 32 0)"
    by (simp add: load_credential_key_def prod_env_def credential_key_env_def)
  show "\<not> dev_mode prod_env" by (simp add: dev_mode_def dev_mode_env_def prod_env_def)
qed

lemma sample_boot_resolves:
  "resolve_entitlement ent_lib (bo_resolve sample_boot) (bo_license_file sample_boot) (dk_files sample_disk) (dk_rows sample_disk) =
     Some (Inr (Gated TrialExpired), [sample_row 0])"
proof -
  have "window_until ent_lib (14 * nanos_per_day) [sample_row 0]"
    by (simp add: window_until_def sample_row_def ent_lib_def)
  from resolve_in_window [OF this, of "ent_io (15 * nanos_per_day)"] show ?thesis
    by (simp add: resolve_entitlement_def read_license_file_def sample_boot_def sample_disk_def sample_fio_def ent_io_def nanos_per_day_def)
qed

definition sample_start :: server_start where
  "sample_start = (case serve_normal prod_env sample_boot (config_with prod_env ''s1'' ''s2'') (replicate 32 0) (Gated TrialExpired) ''i1'' of
     Serving s \<Rightarrow> s)"

lemma sample_serves:
  "serve_normal prod_env sample_boot (config_with prod_env ''s1'' ''s2'') (replicate 32 0) (Gated TrialExpired) ''i1'' = Serving sample_start"
  by (simp add: sample_start_def serve_normal_def build_app_def prod_env_loads sample_boot_def is_gated_def split: prod.split)

lemma sample_boot_steps:
  "bo_pool_ok sample_boot" "bo_migrations_ok sample_boot"
  "migrate_legacy_credentials sample_crypto key (bo_scan_ok sample_boot) (bo_rows sample_boot) (dk_credentials sample_disk) = (Inr 0, [])"
  "get_install_uuid ent_lib (bo_uuid sample_boot) [sample_row 0] = (Inr ''i1'', [sample_row 0])"
  "sample_disk\<lparr>dk_credentials := [], dk_rows := [sample_row 0]\<rparr> = sample_disk"
  by (simp_all add: sample_boot_def sample_disk_def migrate_legacy_credentials_def get_install_uuid_def ent_io_def sample_row_def)

lemma sample_start: "run_normal ent_lib sample_crypto prod_env sample_boot sample_disk = (Serving sample_start, sample_disk)"
  by (simp add: run_normal_def prod_env_loads sample_boot_steps sample_boot_resolves sample_serves)

definition sample_post :: "license_io \<times> file_io \<times> string option \<times> string" where
  "sample_post = (ent_io 5, sample_fio, Some ''t'', render_pem sample_license sample_signature)"

lemma sample_post_accepted:
  "core_entitlement (serve_posts ent_lib [sample_post] (running_of sample_start sample_disk)) = Licensed sample_license None"
proof -
  let ?rn = "running_of sample_start sample_disk"
  obtain app cells where b: "build_app_with_config prod_env (config_with prod_env ''s1'' ''s2'') (replicate 32 0) (Gated TrialExpired) ''i1'' False [] = (app, cells)"
      "sv_app sample_start = app" "sv_cells sample_start = cells @ (if is_gated (Gated TrialExpired) then [] else [Gated TrialExpired])"
    by (rule serve_normal_Serving [OF sample_serves prod_env_loads(1)])
  note app = build_app_with_config_simps [OF b(1)]
  have core: "ap_admin_token (sa_core app) = Some ''t''"
    using b(1) by (auto simp: build_app_with_config_def build_router_with_config_def app_state_new_def prod_env_def)
  have "\<lparr>ss_embedded_mode = ap_embedded_mode (sa_core app), ss_admin_token = ap_admin_token (sa_core app),
      ss_entitlement = rn_cells ?rn ! ap_entitlement (sa_core app), ss_rows = rn_rows ?rn, ss_files = rn_files ?rn\<rparr> = sample_server"
    by (simp add: sample_server_def core app running_of_def b(3) sample_disk_def)
  then show ?thesis
    by (simp add: sample_post_def post_license_running_def core_entitlement_def running_of_def b(2,3) sample_activation
        activated_server_def app)
qed

theorem start_follows_the_entitlement_witness:
  "sv_jobs sample_start = [RetentionCleanup 14] \<and> mcp_write_gated (running_of sample_start sample_disk)"
proof -
  have "cf_slow_query_retention_days (config_with prod_env s r) = 14" for s r
    by (simp add: config_with_def parse_interval_env_def prod_env_def)
  with start_follows_the_entitlement [OF sample_start] show ?thesis
    using sample_boot_resolves by (auto simp: prod_env_loads is_gated_def)
qed

theorem served_with_given_keys_witness:
  "cf_jwt_refresh_secret (ap_config (sa_core (sv_app sample_start))) = ''s2'' \<and>
   length (ap_credential_key (sa_core (sv_app sample_start))) = 32"
  using served_with_given_keys [OF sample_start prod_env_loads(3)] by (auto simp: prod_env_def)


definition sample_embedded :: embedded_io where
  "sample_embedded = \<lparr>eo_mkdir_ok = True, eo_secret = [10], eo_refresh_secret = [11],
     eo_key = \<lparr>kio_random = replicate 32 7, kio_read_ok = True, kio_write_ok = True, kio_partial = None\<rparr>,
     eo_db = sample_db_io\<lparr>dio_migrate := \<lambda>n fs. (True, fs)\<rparr>, eo_tables = (\<lambda>_. ([sample_row 0], no_accounts)), eo_uuid = ent_io 0,
     eo_now = ''t'', eo_account = demo_io ''u'', eo_password = ''pw'', eo_port = Some 4711, eo_version = ''1''\<rparr>"

lemma sample_embedded_runs: "\<exists>s k f. run_embedded ent_lib demo_lib Map.empty sample_embedded ''d'' None Map.empty = (Inr s, k, f)"
proof -
  have hex: "random_hex_secret [10] = ''0a''" "random_hex_secret [11] = ''0b''" by code_simp+
  have low: "sql_lower embedded_user_email = embedded_user_email" by code_simp
  have user: "\<exists>r acc. ensure_embedded_user_and_tokens demo_lib (account_config_of (embedded_config ''0a'' ''0b'' url)) (demo_io ''u'') ''pw'' no_accounts
      = (Inr r, acc)" for url
    by (auto simp: ensure_embedded_user_and_tokens_def insert_or_ignore_def insert_user_def no_accounts_def Let_def demo_defs demo_plain_def
        account_config_of_def embedded_config_def low)
  show ?thesis using user [of "''sqlite:d/dbmaster-embedded.db?mode=rwc''"]
    by (auto simp: run_embedded_def sample_embedded_def hex load_or_create_credential_key_def fresh_key_and_maybe_write_def
        init_pool_with_embedded_rebuild_def init_pool_def run_migrations_def sample_db_io_def serve_embedded_def
        get_install_uuid_def ent_io_def Let_def split: prod.split sum.split)
qed

theorem embedded_start_is_closed_witness:
  "\<exists>s k f. run_embedded ent_lib demo_lib Map.empty sample_embedded ''d'' None Map.empty = (Inr s, k, f) \<and>
     es_bound s = (''127.0.0.1'', 4711) \<and> \<not> cf_registration_enabled (ap_config (sa_core (es_app s)))"
proof -
  obtain s k f where run: "run_embedded ent_lib demo_lib Map.empty sample_embedded ''d'' None Map.empty = (Inr s, k, f)"
    using sample_embedded_runs by blast
  note closed = embedded_start_is_closed [OF run]
  have "es_bound s = (''127.0.0.1'', 4711)"
    using closed by (cases "es_bound s") (auto simp: sample_embedded_def)
  with run closed show ?thesis by blast
qed

end
