(* ===== verification/Ssh_Tunnel.thy ===== *)
theory Ssh_Tunnel
  imports Redis_Leg Mysql_Family Native_Collector Redaction
begin

text \<open>
  The SSH tunnels of \<open>crates/automation/src/ssh.rs\<close>, the network switches of \<open>net_flags.rs\<close> and the
  loading of a connection in \<open>metadata.rs\<close>, which opens them.

  The process-wide table of tunnels maps a key to a local port; a tunnel is what listens at a port.
  The JSON reader and writer, the digest and the SSH client are arguments. A port of type \<open>i64\<close> is an
  integer, cut to its 16 or 32 bits where the code casts it.
\<close>

section \<open>Settings\<close>

record ssh_wire =
  sw_host :: string
  sw_port :: int
  sw_username :: string
  sw_auth_mode :: string
  sw_password :: "string option"
  sw_private_key :: "string option"
  sw_passphrase :: "string option"

record ssh_config =
  sc_host :: string
  sc_port :: int
  sc_username :: string
  sc_auth_mode :: string

record ssh_secrets =
  ss_password :: string
  ss_private_key :: string
  ss_passphrase :: string

record ssh_tunnel_params =
  sp_config :: ssh_config
  sp_secrets :: ssh_secrets

definition opt_string :: "string option \<Rightarrow> string" where
  "opt_string s = (case s of Some t \<Rightarrow> t | None \<Rightarrow> [])"

definition ssh_validate :: "ssh_wire \<Rightarrow> string + ssh_tunnel_params" where
  "ssh_validate w =
     (if sw_auth_mode w \<noteq> ''password'' \<and> sw_auth_mode w \<noteq> ''privateKey''
      then Inl (''unsupported ssh authMode: '' @ sw_auth_mode w)
      else if trim (sw_host w) = [] \<or> trim (sw_username w) = [] then Inl ''ssh host and username are required''
      else if sw_auth_mode w = ''password'' \<and> opt_string (sw_password w) = []
      then Inl ''ssh authMode=password requires a password''
      else if sw_auth_mode w = ''privateKey'' \<and> opt_string (sw_private_key w) = []
      then Inl ''ssh authMode=privateKey requires a private key''
      else Inr \<lparr>sp_config = \<lparr>sc_host = trim (sw_host w), sc_port = (if 0 < sw_port w then sw_port w else 22),
                  sc_username = trim (sw_username w), sc_auth_mode = sw_auth_mode w\<rparr>,
                sp_secrets = \<lparr>ss_password = opt_string (sw_password w), ss_private_key = opt_string (sw_private_key w),
                  ss_passphrase = opt_string (sw_passphrase w)\<rparr>\<rparr>)"

definition secrets_empty :: "ssh_secrets \<Rightarrow> bool" where
  "secrets_empty s \<longleftrightarrow> ss_password s = [] \<and> ss_private_key s = [] \<and> ss_passphrase s = []"

text \<open>An empty secret is left out; a missing one is empty, and a value of another type fails.\<close>

definition secrets_json :: "ssh_secrets \<Rightarrow> json" where
  "secrets_json s =
     JObj (concat (map (\<lambda>(k, v). if v = [] then [] else [(k, JStr v)])
       [(''password'', ss_password s), (''privateKey'', ss_private_key s), (''passphrase'', ss_passphrase s)]))"

definition secret_field :: "string \<Rightarrow> (string \<times> json) list \<Rightarrow> string option" where
  "secret_field k kvs = (case map_of kvs k of None \<Rightarrow> Some [] | Some (JStr s) \<Rightarrow> Some s | Some _ \<Rightarrow> None)"

definition secrets_of_json :: "json \<Rightarrow> ssh_secrets option" where
  "secrets_of_json j =
     (case j of
        JObj kvs \<Rightarrow>
          (case (secret_field ''password'' kvs, secret_field ''privateKey'' kvs, secret_field ''passphrase'' kvs) of
             (Some p, Some k, Some s) \<Rightarrow> Some \<lparr>ss_password = p, ss_private_key = k, ss_passphrase = s\<rparr>
           | _ \<Rightarrow> None)
      | _ \<Rightarrow> None)"

definition config_from_extra :: "(string \<Rightarrow> json option) \<Rightarrow> string option \<Rightarrow> ssh_config option" where
  "config_from_extra rd extra =
     (case Option.bind extra rd of
        Some (JObj kvs) \<Rightarrow>
          (case (Option.bind (map_of kvs ''sshHost'') json_as_str, Option.bind (map_of kvs ''sshUsername'') json_as_str,
                 Option.bind (map_of kvs ''sshAuthMode'') json_as_str) of
             (Some h, Some u, Some a) \<Rightarrow>
               if trim h = [] \<or> trim u = [] then None
               else Some \<lparr>sc_host = trim h,
                      sc_port = (case Option.bind (map_of kvs ''sshPort'') json_as_i64 of Some p \<Rightarrow> p | None \<Rightarrow> 22),
                      sc_username = trim u, sc_auth_mode = a\<rparr>
           | _ \<Rightarrow> None)
      | _ \<Rightarrow> None)"

definition extra_keys :: "ssh_config \<Rightarrow> (string \<times> json) list" where
  "extra_keys c = [(''sshHost'', JStr (sc_host c)), (''sshPort'', JNum (sc_port c)),
     (''sshUsername'', JStr (sc_username c)), (''sshAuthMode'', JStr (sc_auth_mode c))]"

section \<open>Network switches\<close>

text \<open>\<open>Map::insert\<close>: a present key keeps its place.\<close>

definition map_put :: "string \<Rightarrow> json \<Rightarrow> (string \<times> json) list \<Rightarrow> (string \<times> json) list" where
  "map_put k v kvs =
     (if k \<in> fst ` set kvs then map (\<lambda>(a, b). if a = k then (a, v) else (a, b)) kvs else kvs @ [(k, v)])"

definition flag :: "(string \<Rightarrow> json option) \<Rightarrow> string option \<Rightarrow> string \<Rightarrow> bool \<Rightarrow> bool" where
  "flag rd extra key dflt =
     (case Option.bind extra rd of
        Some (JObj kvs) \<Rightarrow> (case map_of kvs key of Some (JBool b) \<Rightarrow> b | _ \<Rightarrow> dflt)
      | _ \<Rightarrow> dflt)"

definition tls_flags :: "(string \<Rightarrow> json option) \<Rightarrow> string option \<Rightarrow> bool \<times> bool" where
  "tls_flags rd extra =
     (let use_tls = flag rd extra ''useTls'' False in (use_tls, use_tls \<and> flag rd extra ''tlsInsecure'' False))"

definition tunneled :: "(string \<Rightarrow> json option) \<Rightarrow> string option \<Rightarrow> bool" where
  "tunneled rd extra = flag rd extra ''tunneled'' False"

definition inject_flag :: "(string \<Rightarrow> json option) \<Rightarrow> (json \<Rightarrow> string) \<Rightarrow> string option \<Rightarrow> string \<Rightarrow> bool \<Rightarrow> string option" where
  "inject_flag rd wr extra key value =
     (let kvs = (case Option.bind extra rd of Some (JObj m) \<Rightarrow> m | _ \<Rightarrow> [])
      in Some (wr (JObj (map_put key (JBool value) kvs))))"

section \<open>Tunnels\<close>

text \<open>
  \<open>tn_key\<close>, which the code does not keep, is the key a tunnel was made for. A listening tunnel takes
  connections; they reach the target while its session lives.
\<close>

record tunnel =
  tn_port :: nat
  tn_key :: string
  tn_target :: "string \<times> 32 word"
  tn_session_alive :: bool
  tn_listening :: bool

record tunnel_world =
  tw_table :: "string \<rightharpoonup> nat"
  tw_tunnels :: "tunnel list"

record ssh_client =
  cl_connect :: "string \<Rightarrow> 16 word \<Rightarrow> string + unit"
  cl_password :: "string \<Rightarrow> string \<Rightarrow> string + bool"
  cl_decode_key :: "string \<Rightarrow> string option \<Rightarrow> bool"
  cl_public_key :: "string \<Rightarrow> string + bool"
  cl_open :: "string \<Rightarrow> 32 word \<Rightarrow> bool"
  cl_bind :: "nat option"

definition tunnel_text :: "string \<Rightarrow> int \<Rightarrow> ssh_config \<Rightarrow> ssh_secrets \<Rightarrow> string" where
  "tunnel_text target_host target_port c s =
     join ''|'' [sc_host c, show_int (sc_port c), sc_username c, sc_auth_mode c, ss_password s, ss_private_key s,
       ss_passphrase s, target_host, show_int target_port]"

definition tunnel_key :: "(string \<Rightarrow> string) \<Rightarrow> string \<Rightarrow> int \<Rightarrow> ssh_config \<Rightarrow> ssh_secrets \<Rightarrow> string" where
  "tunnel_key digest target_host target_port c s = digest (tunnel_text target_host target_port c s)"

definition probe :: "tunnel_world \<Rightarrow> nat \<Rightarrow> bool" where
  "probe w port \<longleftrightarrow> list_ex (\<lambda>t. tn_port t = port \<and> tn_listening t) (tw_tunnels w)"

definition secrets_passphrase :: "ssh_secrets \<Rightarrow> string option" where
  "secrets_passphrase s = (if ss_passphrase s = [] then None else Some (ss_passphrase s))"

definition ssh_authenticate :: "ssh_client \<Rightarrow> ssh_config \<Rightarrow> ssh_secrets \<Rightarrow> string + bool" where
  "ssh_authenticate cl c s =
     (if sc_auth_mode c = ''password'' then
        map_sum (\<lambda>e. ''ssh tunnel auth error: '' @ redact_ssh e) id (cl_password cl (sc_username c) (ss_password s))
      else if sc_auth_mode c = ''privateKey'' then
        (if \<not> cl_decode_key cl (ss_private_key s) (secrets_passphrase s) then Inl ''ssh tunnel private key decode failed''
         else map_sum (\<lambda>e. ''ssh tunnel auth error: '' @ redact_ssh e) id (cl_public_key cl (sc_username c)))
      else Inl (''unsupported ssh authMode: '' @ sc_auth_mode c))"

definition spawn_tunnel :: "ssh_client \<Rightarrow> string \<Rightarrow> string \<Rightarrow> int \<Rightarrow> ssh_config \<Rightarrow> ssh_secrets \<Rightarrow> tunnel_world \<Rightarrow>
    (string + nat) \<times> tunnel_world" where
  "spawn_tunnel cl key target_host target_port c s w =
     (case cl_connect cl (sc_host c) (word_of_int (sc_port c)) of
        Inl e \<Rightarrow> (Inl (''ssh tunnel connect failed: '' @ redact_ssh e), w)
      | Inr _ \<Rightarrow>
          (case ssh_authenticate cl c s of
             Inl e \<Rightarrow> (Inl e, w)
           | Inr ok \<Rightarrow>
               if \<not> ok then (Inl ''ssh tunnel authentication failed'', w)
               else if \<not> cl_open cl target_host (word_of_int target_port) then (Inl ''ssh tunnel target unreachable'', w)
               else case cl_bind cl of
                   None \<Rightarrow> (Inl ''bind'', w)
                 | Some port \<Rightarrow>
                     (Inr port, w\<lparr>tw_tunnels := \<lparr>tn_port = port, tn_key = key, tn_target = (target_host, word_of_int target_port),
                        tn_session_alive = True, tn_listening = True\<rparr> # tw_tunnels w\<rparr>)))"

definition resolve :: "(string \<Rightarrow> string) \<Rightarrow> ssh_client \<Rightarrow> string \<Rightarrow> int \<Rightarrow> ssh_config \<Rightarrow> ssh_secrets \<Rightarrow> tunnel_world \<Rightarrow>
    (string + string \<times> nat) \<times> tunnel_world" where
  "resolve digest cl target_host target_port c s w =
     (let key = tunnel_key digest target_host target_port c s;
          fresh = (case spawn_tunnel cl key target_host target_port c s (w\<lparr>tw_table := (tw_table w)(key := None)\<rparr>) of
              (Inl e, w) \<Rightarrow> (Inl e, w)
            | (Inr port, w) \<Rightarrow> (Inr (''127.0.0.1'', port), w\<lparr>tw_table := (tw_table w)(key \<mapsto> port)\<rparr>))
      in case tw_table w key of
           Some port \<Rightarrow> if probe w port then (Inr (''127.0.0.1'', port), w) else fresh
         | None \<Rightarrow> fresh)"

definition apply_tunnel :: "(string \<Rightarrow> json option) \<Rightarrow> (json \<Rightarrow> string) \<Rightarrow> (string \<Rightarrow> string) \<Rightarrow> ssh_client \<Rightarrow> string \<Rightarrow> int \<Rightarrow>
    string option \<Rightarrow> ssh_config \<Rightarrow> ssh_secrets \<Rightarrow> tunnel_world \<Rightarrow> (string + string \<times> int \<times> string option) \<times> tunnel_world" where
  "apply_tunnel rd wr digest cl host port extra c s w =
     (let (r, w) = resolve digest cl host port c s w
      in (map_sum id (\<lambda>(h, p). (h, int p, inject_flag rd wr extra ''tunneled'' True)) r, w))"

text \<open>
  What happens between two resolutions: a connection is accepted at a port, with its own channel
  through the session; a session ends; a listener ends, and its session with it.
\<close>

datatype tunnel_event = Accepted nat | SessionEnds nat | ListenerEnds nat

definition tunnel_event :: "tunnel_event \<Rightarrow> tunnel_world \<Rightarrow> tunnel_world" where
  "tunnel_event ev w =
     (case ev of
        Accepted p \<Rightarrow> w
      | SessionEnds p \<Rightarrow> w\<lparr>tw_tunnels := map (\<lambda>t. if tn_port t = p then t\<lparr>tn_session_alive := False\<rparr> else t) (tw_tunnels w)\<rparr>
      | ListenerEnds p \<Rightarrow> w\<lparr>tw_tunnels := map (\<lambda>t. if tn_port t = p then t\<lparr>tn_session_alive := False, tn_listening := False\<rparr> else t) (tw_tunnels w)\<rparr>)"

text \<open>Where a connection to a local port arrives.\<close>

definition reaches :: "tunnel_world \<Rightarrow> nat \<Rightarrow> (string \<times> 32 word) option" where
  "reaches w p =
     (case find (\<lambda>t. tn_port t = p \<and> tn_listening t) (tw_tunnels w) of
        Some t \<Rightarrow> if tn_session_alive t then Some (tn_target t) else None
      | None \<Rightarrow> None)"

section \<open>Loading a connection\<close>

datatype family = FamMySql mysql_profile | FamPostgres | FamSqlite | FamClickhouse | FamSqlServer | FamMongo | FamRedis | FamTdengine

definition family_for :: "string \<Rightarrow> (string \<times> string) + family" where
  "family_for db_type =
     (case mysql_family_for db_type of
        Some p \<Rightarrow> Inr (FamMySql p)
      | None \<Rightarrow>
          (let t = map to_ascii_lower db_type in
           if t \<in> {''postgres'', ''postgresql'', ''pg''} then Inr FamPostgres
           else if t = ''sqlite'' then Inr FamSqlite
           else if t = ''clickhouse'' then Inr FamClickhouse
           else if t \<in> {''sqlserver'', ''mssql''} then Inr FamSqlServer
           else if t \<in> {''mongodb'', ''mongo''} then Inr FamMongo
           else if t = ''redis'' then Inr FamRedis
           else if t = ''tdengine'' then Inr FamTdengine
           else Inl (''UNSUPPORTED_DB_TYPE'', ''unsupported db_type: '' @ t)))"

text \<open>The row and the column \<open>ssh_secret_encrypted\<close>, kept beside the table by the connection's id.\<close>

record load_env =
  le_read :: "string \<Rightarrow> json option"
  le_write :: "json \<Rightarrow> string"
  le_digest :: "string \<Rightarrow> string"
  le_crypto :: crypto
  le_key :: "nat list"
  le_client :: ssh_client
  le_db_ok :: bool
  le_db_error :: string

definition load_secrets :: "load_env \<Rightarrow> string option \<Rightarrow> (string \<times> string) + ssh_secrets" where
  "load_secrets env stored =
     (if opt_string stored = [] then Inl (''CONNECTION_FAILED'', ''ssh tunnel enabled but secret is missing'')
      else case decrypt_password (le_crypto env) (le_key env) (opt_string stored) of
          Inl e \<Rightarrow> Inl (''DECRYPT_FAILED'', ''stored ssh secret could not be decrypted'')
        | Inr txt \<Rightarrow>
            (case Option.bind (le_read env txt) secrets_of_json of
               None \<Rightarrow> Inl (''DECRYPT_FAILED'', ''stored ssh secret could not be decrypted'')
             | Some s \<Rightarrow> Inr s))"

definition load_tunneled :: "load_env \<Rightarrow> db_connection \<Rightarrow> string option \<Rightarrow> tunnel_world \<Rightarrow> ((string \<times> string) + db_connection) \<times> tunnel_world" where
  "load_tunneled env conn secret w =
     (case config_from_extra (le_read env) (dc_extra conn) of
        None \<Rightarrow> (Inr conn, w)
      | Some cfg \<Rightarrow>
          (case load_secrets env secret of
             Inl e \<Rightarrow> (Inl e, w)
           | Inr s \<Rightarrow>
               (case apply_tunnel (le_read env) (le_write env) (le_digest env) (le_client env) (dc_host conn) (dc_port conn)
                   (dc_extra conn) cfg s w of
                  (Inl e, w) \<Rightarrow> (Inl (''CONNECTION_FAILED'', ''ssh tunnel setup failed''), w)
                | (Inr (h, p, x), w) \<Rightarrow> (Inr (conn\<lparr>dc_host := h, dc_port := p, dc_extra := x\<rparr>), w))))"

definition metadata_load_connection :: "load_env \<Rightarrow> string \<Rightarrow> auto_store \<Rightarrow> (string \<rightharpoonup> string) \<Rightarrow> tunnel_world \<Rightarrow>
    ((string \<times> string) + db_connection \<times> family \<times> string) \<times> tunnel_world" where
  "metadata_load_connection env i st ssh w =
     (if \<not> le_db_ok env then (Inl (''DB_ERROR'', ''server database read failed: '' @ take 120 (le_db_error env)), w)
      else case find_conn i (as_connections st) of
          None \<Rightarrow> (Inl (''NOT_FOUND'', ''connection '' @ [CHR 0x27] @ i @ [CHR 0x27] @ '' not found''), w)
        | Some conn \<Rightarrow>
            (case family_for (dc_db_type conn) of
               Inl e \<Rightarrow> (Inl e, w)
             | Inr FamSqlite \<Rightarrow> (Inr (conn, FamSqlite, []), w)
             | Inr fam \<Rightarrow>
                 (case decrypt_password (le_crypto env) (le_key env) (dc_password_encrypted conn) of
                    Inl e \<Rightarrow> (Inl (''DECRYPT_FAILED'', ''stored credential could not be decrypted''), w)
                  | Inr password \<Rightarrow>
                      (case load_tunneled env conn (ssh i) w of
                         (Inl e, w) \<Rightarrow> (Inl e, w)
                       | (Inr conn, w) \<Rightarrow> (Inr (conn, fam, password), w)))))"

section \<open>Settings read back\<close>

definition config_wf :: "ssh_config \<Rightarrow> bool" where
  "config_wf c \<longleftrightarrow> trim (sc_host c) = sc_host c \<and> trim (sc_username c) = sc_username c \<and> sc_host c \<noteq> [] \<and> sc_username c \<noteq> [] \<and>
     0 < sc_port c \<and> sc_port c < 2 ^ 63 \<and> sc_auth_mode c \<in> {''password'', ''privateKey''}"

lemma ssh_validate_wf:
  assumes "ssh_validate wire = Inr p" "sw_port wire < 2 ^ 63"
  shows "config_wf (sp_config p) \<and> \<not> secrets_empty (sp_secrets p)"
  using assms by (auto simp: ssh_validate_def config_wf_def secrets_empty_def split: if_splits)

lemma map_of_replace:
  "k \<in> fst ` set kvs \<Longrightarrow> map_of (map (\<lambda>(a, b). if a = k then (a, v) else (a, b)) kvs) = (map_of kvs)(k \<mapsto> v)"
proof (induction kvs)
  case (Cons e kvs)
  have keep: "map_of (map (\<lambda>(a, b). if a = k then (a, v) else (a, b)) kvs) = map_of kvs" if "k \<notin> fst ` set kvs"
    using that by (induction kvs) (auto simp: fun_eq_iff)
  obtain a b where e: "e = (a, b)" by fastforce
  show ?case
  proof (cases "k \<in> fst ` set kvs")
    case True
    with Cons.IH show ?thesis by (auto simp: e fun_eq_iff)
  next
    case False
    with Cons.prems keep show ?thesis by (auto simp: e fun_eq_iff)
  qed
qed simp

lemma map_of_map_put: "map_of (map_put k v kvs) = (map_of kvs)(k \<mapsto> v)"
proof (cases "k \<in> fst ` set kvs")
  case False
  then have "map_of kvs k = None" by (simp add: map_of_eq_None_iff)
  with False show ?thesis by (auto simp: map_put_def map_add_def fun_eq_iff split: option.split)
qed (simp add: map_put_def map_of_replace)

lemma keys_map_put: "fst ` set (map_put k v kvs) = insert k (fst ` set kvs)"
proof -
  have "fst (case e of (a, b) \<Rightarrow> if a = k then (a, v) else (a, b)) = fst e" for e :: "string \<times> json"
    by (cases e) simp
  then have "fst ` set (map (\<lambda>(a, b). if a = k then (a, v) else (a, b)) kvs) = fst ` set kvs" by (simp add: image_image)
  then show ?thesis by (auto simp: map_put_def)
qed

lemma config_from_extra_keys:
  assumes "config_wf c" "rd txt = Some (JObj kvs)" "\<And>k v. (k, v) \<in> set (extra_keys c) \<Longrightarrow> map_of kvs k = Some v"
  shows "config_from_extra rd (Some txt) = Some c"
proof -
  have "map_of kvs ''sshHost'' = Some (JStr (sc_host c))" "map_of kvs ''sshUsername'' = Some (JStr (sc_username c))"
    "map_of kvs ''sshAuthMode'' = Some (JStr (sc_auth_mode c))" "map_of kvs ''sshPort'' = Some (JNum (sc_port c))"
    using assms(3) by (simp_all add: extra_keys_def)
  then show ?thesis using assms(1,2) by (simp add: config_from_extra_def config_wf_def json_as_i64_def)
qed

lemma secrets_read_back: "secrets_of_json (secrets_json s) = Some s"
  by (cases "ss_password s = []"; cases "ss_private_key s = []"; cases "ss_passphrase s = []")
    (simp_all add: secrets_of_json_def secrets_json_def secret_field_def)

lemma flag_injected:
  assumes "\<And>j. rd (wr j) = Some j"
  shows "tunneled rd (inject_flag rd wr extra ''tunneled'' b) = b"
  using assms by (simp add: tunneled_def inject_flag_def flag_def map_of_map_put split: option.splits json.splits)

text \<open>The documentation speaks of four keys that must all be there; the port may be missing.\<close>

lemma port_may_be_missing:
  assumes "rd txt = Some (JObj [(''sshHost'', JStr ''h''), (''sshUsername'', JStr ''u''), (''sshAuthMode'', JStr ''password'')])"
  shows "config_from_extra rd (Some txt) = Some \<lparr>sc_host = ''h'', sc_port = 22, sc_username = ''u'', sc_auth_mode = ''password''\<rparr>"
proof -
  have "trim ''h'' = ''h''" "trim ''u'' = ''u''" by code_simp+
  with assms show ?thesis by (simp add: config_from_extra_def)
qed

section \<open>Where a tunnel leads\<close>

text \<open>
  A resolution: the arguments it was asked for. Ports come from the system, which may hand out one
  again as soon as nothing listens there.
\<close>

record tunnel_request =
  tr_host :: string
  tr_port :: int
  tr_config :: ssh_config
  tr_secrets :: ssh_secrets

definition request_text :: "tunnel_request \<Rightarrow> string" where
  "request_text r = tunnel_text (tr_host r) (tr_port r) (tr_config r) (tr_secrets r)"

definition request_key :: "(string \<Rightarrow> string) \<Rightarrow> tunnel_request \<Rightarrow> string" where
  "request_key digest r = tunnel_key digest (tr_host r) (tr_port r) (tr_config r) (tr_secrets r)"

definition request_target :: "tunnel_request \<Rightarrow> string \<times> 32 word" where
  "request_target r = (tr_host r, word_of_int (tr_port r))"

definition resolve_request :: "(string \<Rightarrow> string) \<Rightarrow> ssh_client \<Rightarrow> tunnel_request \<Rightarrow> tunnel_world \<Rightarrow> (string + string \<times> nat) \<times> tunnel_world" where
  "resolve_request digest cl r w = resolve digest cl (tr_host r) (tr_port r) (tr_config r) (tr_secrets r) w"

text \<open>A text no field of which has the separator determines its fields.\<close>

definition plain_request :: "tunnel_request \<Rightarrow> bool" where
  "plain_request r \<longleftrightarrow> CHR ''|'' \<notin> set (sc_host (tr_config r)) \<union> set (sc_username (tr_config r)) \<union> set (sc_auth_mode (tr_config r)) \<union>
     set (ss_password (tr_secrets r)) \<union> set (ss_private_key (tr_secrets r)) \<union> set (ss_passphrase (tr_secrets r)) \<union> set (tr_host r)"

lemma show_int_plain: "CHR ''|'' \<notin> set (show_int n)"
  using not_digit_notin_show_nat [of "CHR ''|''"] by (auto simp: show_int_def is_ascii_digit_def ccode_def)

lemma show_int_inj: "show_int a = show_int b \<Longrightarrow> a = b"
proof -
  assume eq: "show_int a = show_int b"
  have minus: "CHR ''-'' \<notin> set (show_nat n)" for n
    by (rule not_digit_notin_show_nat) (simp add: is_ascii_digit_def ccode_def)
  have nat: "show_nat m = show_nat n \<Longrightarrow> m = n" for m n by (metis digits_val_show_nat)
  have sign: "a < 0 \<longleftrightarrow> b < 0"
    using eq minus [of "nat \<bar>a\<bar>"] minus [of "nat \<bar>b\<bar>"]
    by (cases "a < 0"; cases "b < 0") (auto simp: show_int_def, (metis list.set_intros(1))+)
  with eq have "nat \<bar>a\<bar> = nat \<bar>b\<bar>" by (auto simp: show_int_def dest: nat split: if_splits)
  with sign show "a = b" by linarith
qed

lemma request_text_inj:
  assumes "request_text r = request_text q" "plain_request r" "plain_request q"
  shows "request_target r = request_target q"
proof -
  let ?fields = "\<lambda>r. [sc_host (tr_config r), show_int (sc_port (tr_config r)), sc_username (tr_config r), sc_auth_mode (tr_config r),
    ss_password (tr_secrets r), ss_private_key (tr_secrets r), ss_passphrase (tr_secrets r), tr_host r, show_int (tr_port r)]"
  have split: "split_on CHR ''|'' (request_text r) = ?fields r" if "plain_request r" for r
    unfolding request_text_def tunnel_text_def using that
    by (intro split_on_join) (auto simp: plain_request_def show_int_plain)
  from assms(1) split [OF assms(2)] split [OF assms(3)] have "?fields r = ?fields q" by metis
  then show ?thesis by (auto simp: request_target_def dest: show_int_inj)
qed

text \<open>The table is sound: what listens at an entry's port was made for the entry's key.\<close>

definition table_sound :: "tunnel_world \<Rightarrow> bool" where
  "table_sound w \<longleftrightarrow> (\<forall>k p. tw_table w k = Some p \<longrightarrow> (\<forall>t \<in> set (tw_tunnels w). tn_port t = p \<and> tn_listening t \<longrightarrow> tn_key t = k))"

definition targets_sound :: "(string \<Rightarrow> string) \<Rightarrow> tunnel_world \<Rightarrow> bool" where
  "targets_sound digest w \<longleftrightarrow> (\<forall>t \<in> set (tw_tunnels w). \<exists>r. plain_request r \<and> tn_key t = request_key digest r \<and> tn_target t = request_target r)"

text \<open>A fresh port: no entry of the table names it and nothing listens there.\<close>

definition fresh_port :: "ssh_client \<Rightarrow> tunnel_world \<Rightarrow> bool" where
  "fresh_port cl w \<longleftrightarrow> (\<forall>p. cl_bind cl = Some p \<longrightarrow> p \<notin> ran (tw_table w) \<and> (\<forall>t \<in> set (tw_tunnels w). tn_port t = p \<longrightarrow> \<not> tn_listening t))"

inductive tunnel_run :: "(string \<Rightarrow> string) \<Rightarrow> (tunnel_world \<Rightarrow> ssh_client \<Rightarrow> bool) \<Rightarrow> tunnel_world \<Rightarrow> tunnel_world \<Rightarrow> bool" for digest ok where
  run_none: "tunnel_run digest ok w w"
| run_resolve: "tunnel_run digest ok w w1 \<Longrightarrow> ok w1 cl \<Longrightarrow> plain_request r \<Longrightarrow> resolve_request digest cl r w1 = (res, w2) \<Longrightarrow>
    tunnel_run digest ok w w2"
| run_event: "tunnel_run digest ok w w1 \<Longrightarrow> tunnel_run digest ok w (tunnel_event ev w1)"

definition no_tunnels :: tunnel_world where
  "no_tunnels = \<lparr>tw_table = Map.empty, tw_tunnels = []\<rparr>"

lemma resolve_cases:
  assumes "resolve_request digest cl r w = (res, w')"
  obtains (cached) p where "tw_table w (request_key digest r) = Some p" "probe w p" "res = Inr (''127.0.0.1'', p)" "w' = w"
  | (failed) e where "res = Inl e" "w' = w\<lparr>tw_table := (tw_table w)(request_key digest r := None)\<rparr>"
  | (spawned) p where "res = Inr (''127.0.0.1'', p)" "cl_bind cl = Some p"
      "w' = \<lparr>tw_table = (tw_table w)(request_key digest r \<mapsto> p),
        tw_tunnels = \<lparr>tn_port = p, tn_key = request_key digest r, tn_target = request_target r, tn_session_alive = True, tn_listening = True\<rparr> # tw_tunnels w\<rparr>"
proof -
  let ?k = "request_key digest r"
  let ?w = "w\<lparr>tw_table := (tw_table w)(?k := None)\<rparr>"
  have spawn: "(\<exists>e. spawn_tunnel cl ?k (tr_host r) (tr_port r) (tr_config r) (tr_secrets r) ?w = (Inl e, ?w)) \<or>
    (\<exists>p. cl_bind cl = Some p \<and> spawn_tunnel cl ?k (tr_host r) (tr_port r) (tr_config r) (tr_secrets r) ?w =
      (Inr p, ?w\<lparr>tw_tunnels := \<lparr>tn_port = p, tn_key = ?k, tn_target = request_target r, tn_session_alive = True, tn_listening = True\<rparr> # tw_tunnels w\<rparr>))"
    by (auto simp: spawn_tunnel_def request_target_def split: sum.splits option.splits)
  show thesis
  proof (cases "\<exists>p. tw_table w ?k = Some p \<and> probe w p")
    case True
    then obtain p where p: "tw_table w ?k = Some p" "probe w p" by blast
    then have "resolve_request digest cl r w = (Inr (''127.0.0.1'', p), w)"
      by (simp add: resolve_request_def resolve_def request_key_def Let_def)
    with assms show thesis by (intro cached [OF p]) simp_all
  next
    case False
    then have "resolve_request digest cl r w = (case spawn_tunnel cl ?k (tr_host r) (tr_port r) (tr_config r) (tr_secrets r) ?w of
        (Inl e, w) \<Rightarrow> (Inl e, w) | (Inr port, w) \<Rightarrow> (Inr (''127.0.0.1'', port), w\<lparr>tw_table := (tw_table w)(?k \<mapsto> port)\<rparr>))"
      unfolding resolve_request_def resolve_def request_key_def Let_def by (auto split: option.split)
    with spawn assms failed spawned show thesis by (cases w) auto
  qed
qed

lemma table_sound_resolve:
  assumes "resolve_request digest cl r w = (res, w')" "table_sound w" "fresh_port cl w"
  shows "table_sound w'"
  using assms(1)
proof (cases rule: resolve_cases)
  case (spawned p)
  then have new: "p \<notin> ran (tw_table w)" "\<forall>t \<in> set (tw_tunnels w). tn_port t = p \<longrightarrow> \<not> tn_listening t"
    using assms(3) by (auto simp: fresh_port_def)
  show ?thesis
    using assms(2) new spawned(3) by (auto simp: table_sound_def ran_def)
qed (use assms(2) in \<open>auto simp: table_sound_def\<close>)

lemma targets_sound_resolve:
  assumes "resolve_request digest cl r w = (res, w')" "targets_sound digest w" "plain_request r"
  shows "targets_sound digest w'"
  using assms(1) by (cases rule: resolve_cases) (use assms(2,3) in \<open>auto simp: targets_sound_def\<close>)

lemma event_tunnels:
  assumes "t \<in> set (tw_tunnels (tunnel_event ev w))"
  shows "\<exists>u \<in> set (tw_tunnels w). tn_port u = tn_port t \<and> tn_key u = tn_key t \<and> tn_target u = tn_target t \<and>
    (tn_listening t \<longrightarrow> tn_listening u)"
  using assms by (cases ev) (auto simp: tunnel_event_def split: if_splits)

lemma event_table [simp]: "tw_table (tunnel_event ev w) = tw_table w"
  by (cases ev) (simp_all add: tunnel_event_def)

lemma tunnel_run_sound:
  assumes "tunnel_run digest ok w w'" "table_sound w" "targets_sound digest w" "\<And>w cl. ok w cl \<Longrightarrow> fresh_port cl w"
  shows "table_sound w' \<and> targets_sound digest w'"
  using assms
proof (induction rule: tunnel_run.induct)
  case (run_resolve w w1 cl r res w2)
  then show ?case using table_sound_resolve targets_sound_resolve by blast
next
  case (run_event w w1 ev)
  then have s: "table_sound w1" "targets_sound digest w1" by blast+
  have "table_sound (tunnel_event ev w1)"
    using s(1) event_tunnels [of _ ev w1] unfolding table_sound_def event_table by metis
  moreover have "targets_sound digest (tunnel_event ev w1)"
    using s(2) event_tunnels [of _ ev w1] unfolding targets_sound_def by metis
  ultimately show ?case by blast
qed simp

lemma reaches_Some:
  "reaches w p = Some tgt \<Longrightarrow> \<exists>t \<in> set (tw_tunnels w). tn_port t = p \<and> tn_listening t \<and> tn_target t = tgt"
  by (auto simp: reaches_def find_Some_iff split: option.splits if_splits)

text \<open>
  Whatever was resolved before and whichever sessions and listeners ended, a port that is handed out
  leads to the requested database or nowhere, provided that the digest does not collide, that no
  field contains the separator, and that no new listener got a port the table still names.
\<close>

theorem tunnel_leads_to_its_target:
  assumes "tunnel_run digest (\<lambda>w cl. fresh_port cl w) no_tunnels w" "resolve_request digest cl r w = (Inr (h, p), w')" "fresh_port cl w"
    and "plain_request r" "inj digest" "reaches w' p = Some tgt"
  shows "h = ''127.0.0.1'' \<and> tgt = request_target r"
proof -
  have "table_sound no_tunnels" "targets_sound digest no_tunnels"
    by (simp_all add: no_tunnels_def table_sound_def targets_sound_def)
  with tunnel_run_sound [OF assms(1)] have s: "table_sound w" "targets_sound digest w" by blast+
  have s': "table_sound w'" "targets_sound digest w'"
    using table_sound_resolve [OF assms(2) s(1) assms(3)] targets_sound_resolve [OF assms(2) s(2) assms(4)] by blast+
  have entry: "tw_table w' (request_key digest r) = Some p" "h = ''127.0.0.1''"
    using assms(2) by (cases rule: resolve_cases; simp)+
  obtain t where t: "t \<in> set (tw_tunnels w')" "tn_port t = p" "tn_listening t" "tn_target t = tgt"
    using reaches_Some [OF assms(6)] by blast
  then have "tn_key t = request_key digest r" using s'(1) entry(1) by (auto simp: table_sound_def)
  moreover obtain q where q: "plain_request q" "tn_key t = request_key digest q" "tn_target t = request_target q"
    using s'(2) t(1) by (auto simp: targets_sound_def)
  ultimately have "request_text r = request_text q"
    using injD [OF assms(5)] by (simp add: request_key_def tunnel_key_def request_text_def)
  then show ?thesis using request_text_inj [OF _ assms(4) q(1)] q(3) t(4) entry(2) by simp
qed

subsection \<open>What goes wrong\<close>

text \<open>
  A session that ended leaves its listener: the probe of the port succeeds, so every later
  resolution hands out the dead tunnel, although the comment has the accept loop end with it.
\<close>

lemma lost_session_is_never_rebuilt:
  assumes "tw_table w (request_key digest r) = Some p" "tw_tunnels w = [t]" "tn_port t = p" "tn_listening t"
  shows "resolve_request digest cl r (tunnel_event (SessionEnds p) w) = (Inr (''127.0.0.1'', p), tunnel_event (SessionEnds p) w) \<and>
    reaches (tunnel_event (SessionEnds p) w) p = None"
  using assms by (simp add: resolve_request_def resolve_def request_key_def tunnel_event_def probe_def reaches_def Let_def)

text \<open>Without the assumption on ports: the entry of a tunnel whose listener ended leads to the tunnel that got its port.\<close>

lemma stale_entry_reaches_other_target:
  assumes "tw_table w (request_key digest r) = Some p"
    and "tw_tunnels w = [\<lparr>tn_port = p, tn_key = k', tn_target = other, tn_session_alive = True, tn_listening = True\<rparr>,
      \<lparr>tn_port = p, tn_key = request_key digest r, tn_target = request_target r, tn_session_alive = False, tn_listening = False\<rparr>]"
  shows "resolve_request digest cl r w = (Inr (''127.0.0.1'', p), w) \<and> reaches w p = Some other"
  using assms by (simp add: resolve_request_def resolve_def request_key_def probe_def reaches_def Let_def)

text \<open>Without the assumption on the separator: two requests for different databases with one key.\<close>

lemma tunnel_key_confuses_targets:
  fixes c s defines "r \<equiv> \<lparr>tr_host = ''a'', tr_port = 1, tr_config = c, tr_secrets = s\<lparr>ss_passphrase := ''x|y''\<rparr>\<rparr>"
    and "q \<equiv> \<lparr>tr_host = ''y|a'', tr_port = 1, tr_config = c, tr_secrets = s\<lparr>ss_passphrase := ''x''\<rparr>\<rparr>"
  shows "request_key digest r = request_key digest q \<and> tr_host r \<noteq> tr_host q"
  by (simp add: r_def q_def request_key_def tunnel_key_def tunnel_text_def)

text \<open>A port of more than sixteen bits is cut: 65558 connects to 22.\<close>

lemma ssh_port_is_cut:
  "cl_connect cl h (word_of_int 65558) = cl_connect cl h 22"
proof -
  have "(word_of_int 65558 :: 16 word) = 22" by transfer (simp add: take_bit_eq_mod)
  then show ?thesis by (rule arg_cong)
qed

text \<open>A flag the server is said to inject is taken from the stored settings as well.\<close>

lemma tunneled_flag_can_be_given:
  assumes "rd txt = Some (JObj [(''useTls'', JBool True), (''tunneled'', JBool True)])"
  shows "tunneled rd (Some txt) \<and> tls_flags rd (Some txt) = (True, False)"
  using assms by (simp add: tunneled_def tls_flags_def flag_def)

section \<open>A concrete tunnel\<close>

definition demo_client :: ssh_client where
  "demo_client = \<lparr>cl_connect = (\<lambda>h p. Inr ()), cl_password = (\<lambda>u p. Inr True), cl_decode_key = (\<lambda>k p. True),
     cl_public_key = (\<lambda>u. Inr True), cl_open = (\<lambda>h p. True), cl_bind = Some 5000\<rparr>"

definition demo_request :: tunnel_request where
  "demo_request = \<lparr>tr_host = ''db'', tr_port = 3306,
     tr_config = \<lparr>sc_host = ''jump'', sc_port = 22, sc_username = ''u'', sc_auth_mode = ''password''\<rparr>,
     tr_secrets = \<lparr>ss_password = ''pw'', ss_private_key = [], ss_passphrase = []\<rparr>\<rparr>"

lemma demo_resolves:
  "resolve_request id demo_client demo_request no_tunnels = (Inr (''127.0.0.1'', 5000),
     \<lparr>tw_table = [request_key id demo_request \<mapsto> 5000],
      tw_tunnels = [\<lparr>tn_port = 5000, tn_key = request_key id demo_request, tn_target = (''db'', 3306), tn_session_alive = True, tn_listening = True\<rparr>]\<rparr>)"
  unfolding resolve_request_def resolve_def request_key_def Let_def
  by (simp add: no_tunnels_def spawn_tunnel_def demo_client_def ssh_authenticate_def demo_request_def)

theorem tunnel_leads_to_its_target_witness:
  "(''db'', 3306) = request_target demo_request"
proof -
  have "plain_request demo_request" by (simp add: plain_request_def demo_request_def)
  moreover have "fresh_port demo_client no_tunnels" by (simp add: fresh_port_def no_tunnels_def)
  ultimately show ?thesis
    using tunnel_leads_to_its_target [OF run_none demo_resolves, of "(''db'', 3306)"] by (simp add: reaches_def)
qed

end
