(* ===== verification/Gateway_Connections.thy ===== *)
theory Gateway_Connections
  imports Ssh_Tunnel Drift_Snapshot
begin

text \<open>
  The connections of the gateway, \<open>crates/gateway/src/handlers.rs\<close>: drafts and their validation, the
  cleaning of the settings, registration and removal. Rows live in the automation tables; the column
  \<open>ssh_secret_encrypted\<close> is a map from the connection's id beside them. The JSON writer and reader
  and the cipher are arguments.
\<close>

section \<open>Drafts\<close>

record connection_draft =
  dr_db_type :: string
  dr_host :: "string option"
  dr_port :: "int option"
  dr_username :: "string option"
  dr_password :: "string option"
  dr_default_database :: "string option"
  dr_file_path :: "string option"
  dr_extra :: "(string \<times> json) list option"
  dr_ssh :: "ssh_wire option"

definition merged_extra :: "(string \<times> json) list option \<Rightarrow> ssh_wire option \<Rightarrow> (string \<times> json) list option" where
  "merged_extra extra ssh =
     (let m = (case extra of Some m \<Rightarrow> m | None \<Rightarrow> []);
          m = (case ssh of
                 None \<Rightarrow> m
               | Some wire \<Rightarrow>
                   (case ssh_validate wire of
                      Inl e \<Rightarrow> m
                    | Inr p \<Rightarrow> fold (\<lambda>(k, v) m. map_put k v m) (extra_keys (sp_config p)) m))
      in if m = [] then None else Some m)"

definition strip_uri_credentials :: "string \<Rightarrow> string" where
  "strip_uri_credentials s =
     (case find_sub ''://'' s of
        None \<Rightarrow> s
      | Some i \<Rightarrow>
          (case split_once (CHR ''@'') (drop (i + 3) s) of
             None \<Rightarrow> s
           | Some (userinfo, rest) \<Rightarrow>
               if userinfo = [] \<or> CHR 0x2F \<in> set userinfo then s else take (i + 3) s @ rest))"

definition credential_key :: "string \<Rightarrow> bool" where
  "credential_key k \<longleftrightarrow>
     (let l = map to_ascii_lower k in
      contains_sub ''password'' l \<or> contains_sub ''secret'' l \<or> contains_sub ''token'' l \<or> l = ''ssh'')"

definition uri_key :: "string \<Rightarrow> bool" where
  "uri_key k \<longleftrightarrow>
     (let l = map to_ascii_lower k in contains_sub ''connectionstring'' l \<or> contains_sub ''uri'' l \<or> contains_sub ''url'' l)"

definition clean_entry :: "string \<times> json \<Rightarrow> string \<times> json" where
  "clean_entry e =
     (case e of (k, JStr s) \<Rightarrow> (k, JStr (if uri_key k then strip_uri_credentials s else s)) | _ \<Rightarrow> e)"

definition sanitize_entries :: "(string \<times> json) list \<Rightarrow> (string \<times> json) list" where
  "sanitize_entries m = map clean_entry (filter (\<lambda>e. \<not> credential_key (fst e)) m)"

definition sanitize_extra :: "(json \<Rightarrow> string) \<Rightarrow> (string \<times> json) list option \<Rightarrow> string option" where
  "sanitize_extra wr extra =
     (case extra of
        None \<Rightarrow> None
      | Some m \<Rightarrow> if sanitize_entries m = [] then None else Some (wr (JObj (sanitize_entries m))))"

definition supported_db_types :: "string list" where
  "supported_db_types =
     [''mysql'', ''doris'', ''postgres'', ''postgresql'', ''pg'', ''sqlite'', ''clickhouse'', ''sqlserver'', ''mssql'',
      ''oceanbase'', ''tidb'', ''starrocks'', ''mariadb'', ''mongodb'', ''redis'', ''tdengine'']"

definition blank :: "string option \<Rightarrow> bool" where
  "blank s \<longleftrightarrow> trim (opt_string s) = []"

definition validate_draft :: "connection_draft \<Rightarrow> string + string" where
  "validate_draft body =
     (let t = map to_ascii_lower (trim (dr_db_type body)) in
      if t \<notin> set supported_db_types then Inl ''UNSUPPORTED_DB_TYPE''
      else
        let credentials_optional = (t = ''mongodb'' \<or> t = ''redis'');
            missing =
              (if t = ''sqlite'' then blank (dr_file_path body)
               else if credentials_optional then blank (dr_host body) \<or> dr_port body = None
               else blank (dr_host body) \<or> dr_port body = None \<or> blank (dr_username body) \<or> dr_password body = None)
        in if missing then Inl ''CONFIG'' else Inr t)"

text \<open>The draft a connection test opens, nothing of which is stored.\<close>

record draft_connection =
  dt_db_type :: string
  dt_host :: string
  dt_port :: int
  dt_username :: string
  dt_password :: string
  dt_default_database :: "string option"
  dt_file_path :: "string option"
  dt_extra :: "string option"
  dt_ssh :: "ssh_tunnel_params option"

definition draft_of :: "(json \<Rightarrow> string) \<Rightarrow> connection_draft \<Rightarrow> ssh_tunnel_params option \<Rightarrow> draft_connection" where
  "draft_of wr body ssh =
     \<lparr>dt_db_type = map to_ascii_lower (trim (dr_db_type body)), dt_host = opt_string (dr_host body),
      dt_port = (case dr_port body of Some p \<Rightarrow> p | None \<Rightarrow> 0), dt_username = opt_string (dr_username body),
      dt_password = opt_string (dr_password body), dt_default_database = dr_default_database body,
      dt_file_path = dr_file_path body, dt_extra = sanitize_extra wr (merged_extra (dr_extra body) (dr_ssh body)), dt_ssh = ssh\<rparr>"

definition draft_test_failure_body :: "string \<Rightarrow> string \<Rightarrow> nat \<Rightarrow> json" where
  "draft_test_failure_body code message elapsed_ms =
     JObj [(''ok'', JBool False), (''error'', JStr message), (''error_code'', JStr code), (''elapsedMs'', JNum (int elapsed_ms))]"

definition test_connection :: "(json \<Rightarrow> string) \<Rightarrow> (draft_connection \<Rightarrow> (string \<times> string) + string option) \<Rightarrow> nat \<Rightarrow> connection_draft \<Rightarrow> json api" where
  "test_connection wr test_draft elapsed_ms body =
     (case validate_draft body of
        Inl code \<Rightarrow> ApiErr 400 code
      | Inr _ \<Rightarrow>
          (case (case dr_ssh body of None \<Rightarrow> Inr None | Some wire \<Rightarrow> map_sum id Some (ssh_validate wire)) of
             Inl msg \<Rightarrow> ApiErr 400 ''CONFIG''
           | Inr ssh \<Rightarrow>
               ApiOk 200
                 (case test_draft (draft_of wr body ssh) of
                    Inr version \<Rightarrow>
                      JObj ([(''ok'', JBool True), (''elapsedMs'', JNum (int elapsed_ms))] @
                        (case version of Some v \<Rightarrow> [(''serverVersion'', JStr v)] | None \<Rightarrow> []))
                  | Inl (code, message) \<Rightarrow> draft_test_failure_body code message elapsed_ms)))"

section \<open>Registration\<close>

record register_body =
  rb_name :: string
  rb_draft :: connection_draft
  rb_read_only :: "bool option"
  rb_charset :: "string option"
  rb_timezone :: "string option"

record register_io =
  rg_nonce :: "nat list"
  rg_ssh_nonce :: "nat list"
  rg_select_ok :: bool
  rg_update_ok :: bool
  rg_insert_ok :: bool
  rg_id :: string
  rg_now :: string
  rg_audit :: audit_io

record gateway_db =
  gd_store :: auto_store
  gd_ssh :: "string \<rightharpoonup> string"
  gd_audit :: "audit_row list"

record register_answer =
  ra_conn_id :: string
  ra_reused :: bool

text \<open>What the tables get of a request.\<close>

record sealed_connection =
  se_db_type :: string
  se_name :: string
  se_host :: string
  se_port :: int
  se_username :: string
  se_password :: string
  se_extra :: "string option"
  se_ssh_secret :: "string option"

definition seal_ssh :: "load_env \<Rightarrow> nat list \<Rightarrow> ssh_wire option \<Rightarrow> (nat \<times> string) + string option" where
  "seal_ssh env nonce ssh =
     (case ssh of
        None \<Rightarrow> Inr None
      | Some wire \<Rightarrow>
          (case ssh_validate wire of
             Inl msg \<Rightarrow> Inl (400, ''CONFIG'')
           | Inr p \<Rightarrow>
               if secrets_empty (sp_secrets p) then Inr None
               else case encrypt_v1 (le_crypto env) nonce (le_key env) (le_write env (secrets_json (sp_secrets p))) of
                   None \<Rightarrow> Inl (500, ''DB_ERROR'')
                 | Some ct \<Rightarrow> Inr (Some ct)))"

definition seal_connection :: "load_env \<Rightarrow> register_io \<Rightarrow> register_body \<Rightarrow> (nat \<times> string) + sealed_connection" where
  "seal_connection env io body =
     (case validate_draft (rb_draft body) of
        Inl code \<Rightarrow> Inl (400, code)
      | Inr t \<Rightarrow>
          if trim (rb_name body) = [] then Inl (400, ''CONFIG'')
          else case encrypt_v1 (le_crypto env) (rg_nonce io) (le_key env) (opt_string (dr_password (rb_draft body))) of
              None \<Rightarrow> Inl (500, ''DB_ERROR'')
            | Some ct \<Rightarrow>
                (case seal_ssh env (rg_ssh_nonce io) (dr_ssh (rb_draft body)) of
                   Inl e \<Rightarrow> Inl e
                 | Inr ssh \<Rightarrow>
                     Inr \<lparr>se_db_type = t, se_name = trim (rb_name body),
                       se_host = (if t = ''sqlite'' then ''unused'' else opt_string (dr_host (rb_draft body))),
                       se_port = (case dr_port (rb_draft body) of Some p \<Rightarrow> p | None \<Rightarrow> 0),
                       se_username = (if t = ''sqlite'' then ''unused'' else opt_string (dr_username (rb_draft body))),
                       se_password = ct,
                       se_extra = sanitize_extra (le_write env) (merged_extra (dr_extra (rb_draft body)) (dr_ssh (rb_draft body))),
                       se_ssh_secret = ssh\<rparr>))"

text \<open>The fingerprint: the password is no part of it, and a missing text equals an empty one.\<close>

definition same_connection :: "string \<Rightarrow> sealed_connection \<Rightarrow> connection_draft \<Rightarrow> db_connection \<Rightarrow> bool" where
  "same_connection owner s d c \<longleftrightarrow>
     dc_kind c = ''collab'' \<and> dc_created_by c = owner \<and> dc_name c = se_name s \<and> dc_db_type c = se_db_type s \<and>
     dc_host c = se_host s \<and> dc_port c = se_port s \<and> dc_username c = se_username s \<and>
     opt_string (dc_default_database c) = opt_string (dr_default_database d) \<and>
     opt_string (dc_file_path c) = opt_string (dr_file_path d)"

definition find_existing :: "register_io \<Rightarrow> string \<Rightarrow> sealed_connection \<Rightarrow> register_body \<Rightarrow> gateway_db \<Rightarrow> string option" where
  "find_existing io owner s body g =
     (if \<not> rg_select_ok io then None
      else map_option dc_id (find (same_connection owner s (rb_draft body)) (as_connections (gd_store g))))"

definition refreshed_row :: "sealed_connection \<Rightarrow> register_body \<Rightarrow> db_connection \<Rightarrow> db_connection" where
  "refreshed_row s body c =
     c\<lparr>dc_password_encrypted := se_password s, dc_charset := rb_charset body, dc_timezone := rb_timezone body,
       dc_read_only := (rb_read_only body = Some True), dc_extra := se_extra s\<rparr>"

definition new_row :: "register_io \<Rightarrow> string \<Rightarrow> sealed_connection \<Rightarrow> register_body \<Rightarrow> db_connection" where
  "new_row io owner s body =
     \<lparr>dc_id = rg_id io, dc_name = se_name s, dc_db_type = se_db_type s, dc_host = se_host s, dc_port = se_port s,
      dc_username = se_username s, dc_password_encrypted = se_password s,
      dc_default_database = dr_default_database (rb_draft body), dc_ssh_enabled = False, dc_ssh_host = None,
      dc_ssh_port = None, dc_created_by = owner, dc_created_at = rg_now io, dc_kind = ''collab'',
      dc_file_path = dr_file_path (rb_draft body), dc_use_ssl = False, dc_timeout_seconds = 30, dc_auto_reconnect = False,
      dc_charset = rb_charset body, dc_timezone = rb_timezone body, dc_environment = None,
      dc_read_only = (rb_read_only body = Some True), dc_group_id = None, dc_extra = se_extra s, dc_ssh_username = None,
      dc_ssh_auth_mode = None, dc_ssh_password_encrypted = None, dc_ssh_private_key_encrypted = None,
      dc_ssh_passphrase_encrypted = None\<rparr>"

definition update_connections :: "(db_connection list \<Rightarrow> db_connection list) \<Rightarrow> gateway_db \<Rightarrow> gateway_db" where
  "update_connections f g = g\<lparr>gd_store := (gd_store g)\<lparr>as_connections := f (as_connections (gd_store g))\<rparr>\<rparr>"

text \<open>The \<open>UPDATE\<close> also succeeds when no row has the id any more.\<close>

definition update_row :: "sealed_connection \<Rightarrow> register_body \<Rightarrow> string \<Rightarrow> gateway_db \<Rightarrow> gateway_db" where
  "update_row s body i g =
     (update_connections (map (\<lambda>c. if dc_id c = i then refreshed_row s body c else c)) g)
     \<lparr>gd_ssh := (if find_conn i (as_connections (gd_store g)) \<noteq> None then (gd_ssh g)(i := se_ssh_secret s) else gd_ssh g)\<rparr>"

definition audit_registered :: "register_io \<Rightarrow> string \<Rightarrow> gateway_db \<Rightarrow> gateway_db" where
  "audit_registered io owner g =
     g\<lparr>gd_audit := log_gw_event (rg_audit io) (Some owner) GwConnectionRegistered None (gd_audit g)\<rparr>"

definition insert_connection :: "register_io \<Rightarrow> string \<Rightarrow> sealed_connection \<Rightarrow> register_body \<Rightarrow> gateway_db \<Rightarrow>
    register_answer api \<times> gateway_db" where
  "insert_connection io owner s body g =
     (if \<not> rg_insert_ok io \<or> find_conn (rg_id io) (as_connections (gd_store g)) \<noteq> None then (ApiErr 500 ''DB_ERROR'', g)
      else (ApiOk 200 \<lparr>ra_conn_id = rg_id io, ra_reused = False\<rparr>,
            audit_registered io owner
              ((update_connections (\<lambda>cs. cs @ [new_row io owner s body]) g)\<lparr>gd_ssh := (gd_ssh g)(rg_id io := se_ssh_secret s)\<rparr>)))"

definition write_connection :: "register_io \<Rightarrow> string \<Rightarrow> sealed_connection \<Rightarrow> register_body \<Rightarrow> string option \<Rightarrow> gateway_db \<Rightarrow>
    register_answer api \<times> gateway_db" where
  "write_connection io owner s body existing g =
     (case existing of
        Some i \<Rightarrow>
          if rg_update_ok io
          then (ApiOk 200 \<lparr>ra_conn_id = i, ra_reused = True\<rparr>, audit_registered io owner (update_row s body i g))
          else insert_connection io owner s body g
      | None \<Rightarrow> insert_connection io owner s body g)"

definition register_connection :: "load_env \<Rightarrow> register_io \<Rightarrow> string \<Rightarrow> register_body \<Rightarrow> gateway_db \<Rightarrow> register_answer api \<times> gateway_db" where
  "register_connection env io owner body g =
     (case seal_connection env io body of
        Inl (status, code) \<Rightarrow> (ApiErr status code, g)
      | Inr s \<Rightarrow> write_connection io owner s body (find_existing io owner s body g) g)"

section \<open>Removal\<close>

text \<open>
  The active Redis subscriptions by connection; a stream ends when its token is cancelled. Removal
  ends them first, then deletes the row, and ignores what the deletion answered.
\<close>

record sub_registry =
  sr_tokens :: "string \<Rightarrow> nat list"
  sr_cancelled :: "nat set"

definition sub_register :: "string \<Rightarrow> nat \<Rightarrow> sub_registry \<Rightarrow> sub_registry" where
  "sub_register i t r = r\<lparr>sr_tokens := (sr_tokens r)(i := sr_tokens r i @ [t])\<rparr>"

definition sub_revoke :: "string \<Rightarrow> sub_registry \<Rightarrow> sub_registry" where
  "sub_revoke i r = \<lparr>sr_tokens = (sr_tokens r)(i := []), sr_cancelled = sr_cancelled r \<union> set (sr_tokens r i)\<rparr>"

definition remove_connection :: "bool \<Rightarrow> audit_io \<Rightarrow> string \<Rightarrow> string \<Rightarrow> gateway_db \<Rightarrow> sub_registry \<Rightarrow>
    nat \<times> gateway_db \<times> sub_registry" where
  "remove_connection db_ok aio owner i g r =
     (let store = (if db_ok then delete_conn_row i (gd_store g) else gd_store g);
          gone = find_conn i (as_connections store) = None
      in (204, g\<lparr>gd_store := store, gd_ssh := (if gone then (gd_ssh g)(i := None) else gd_ssh g),
               gd_audit := log_gw_event aio (Some owner) GwConnectionRemoved None (gd_audit g)\<rparr>, sub_revoke i r))"

section \<open>What is stored\<close>

lemma fst_clean_entry [simp]: "fst (clean_entry e) = fst e"
  by (auto simp: clean_entry_def split: prod.splits json.splits)

lemma clean_entry_plain: "\<not> uri_key (fst e) \<Longrightarrow> clean_entry e = e"
  by (auto simp: clean_entry_def split: prod.splits json.splits)

lemma map_of_sanitize:
  "\<not> credential_key k \<Longrightarrow> \<not> uri_key k \<Longrightarrow> map_of (sanitize_entries m) k = map_of m k"
proof (induction m)
  case (Cons e m)
  obtain a b where e: "e = (a, b)" by fastforce
  have "fst (clean_entry (a, b)) = a" "clean_entry (a, b) = (a, snd (clean_entry (a, b)))" by (simp_all add: prod_eq_iff)
  then show ?case
    using Cons clean_entry_plain [of "(a, b)"] by (cases "clean_entry (a, b)") (auto simp: sanitize_entries_def e)
qed (simp add: sanitize_entries_def)

lemma credential_keys_dropped: "e \<in> set (sanitize_entries m) \<Longrightarrow> \<not> credential_key (fst e)"
  by (auto simp: sanitize_entries_def)

lemma ssh_keys_plain:
  "\<not> credential_key ''sshHost''" "\<not> credential_key ''sshPort''" "\<not> credential_key ''sshUsername''" "\<not> credential_key ''sshAuthMode''"
  "\<not> uri_key ''sshHost''" "\<not> uri_key ''sshPort''" "\<not> uri_key ''sshUsername''" "\<not> uri_key ''sshAuthMode''"
  by code_simp+

lemma map_of_merged:
  assumes "ssh_validate wire = Inr p" "(k, v) \<in> set (extra_keys (sp_config p))"
  shows "\<exists>m. merged_extra extra (Some wire) = Some m \<and> map_of m k = Some v"
proof -
  define m where "m = fold (\<lambda>(k, v) m. map_put k v m) (extra_keys (sp_config p)) (case extra of Some m \<Rightarrow> m | None \<Rightarrow> [])"
  have eq: "map_of m = (map_of (case extra of Some m \<Rightarrow> m | None \<Rightarrow> []))(''sshHost'' \<mapsto> JStr (sc_host (sp_config p)),
      ''sshPort'' \<mapsto> JNum (sc_port (sp_config p)), ''sshUsername'' \<mapsto> JStr (sc_username (sp_config p)),
      ''sshAuthMode'' \<mapsto> JStr (sc_auth_mode (sp_config p)))"
    by (simp only: m_def extra_keys_def fold.simps map_of_map_put prod.case comp_apply id_apply)
  have m: "map_of m k = Some v" if "(k, v) \<in> set (extra_keys (sp_config p))" for k v
    using that unfolding eq by (auto simp: extra_keys_def)
  have "m \<noteq> []" using m [of "''sshHost''" "JStr (sc_host (sp_config p))"] by (auto simp: extra_keys_def)
  then have "merged_extra extra (Some wire) = Some m" using assms(1) by (simp add: merged_extra_def Let_def m_def)
  with m assms(2) show ?thesis by blast
qed

lemma tunnel_settings_stored:
  assumes "\<And>j. rd (wr j) = Some j" "ssh_validate wire = Inr p" "sw_port wire < 2 ^ 63"
  shows "config_from_extra rd (sanitize_extra wr (merged_extra extra (Some wire))) = Some (sp_config p)"
proof -
  obtain m where m: "merged_extra extra (Some wire) = Some m"
    using map_of_merged [OF assms(2), of "''sshHost''" _ extra] by (auto simp: extra_keys_def)
  have keys: "map_of (sanitize_entries m) k = Some v" if "(k, v) \<in> set (extra_keys (sp_config p))" for k v
  proof -
    have "map_of m k = Some v" using map_of_merged [OF assms(2) that, of extra] m by simp
    moreover have "\<not> credential_key k" "\<not> uri_key k" using that by (auto simp: extra_keys_def ssh_keys_plain)
    ultimately show ?thesis by (simp add: map_of_sanitize)
  qed
  have "map_of (sanitize_entries m) ''sshHost'' = Some (JStr (sc_host (sp_config p)))"
    by (rule keys) (simp add: extra_keys_def)
  then have "sanitize_entries m \<noteq> []" by auto
  moreover have "config_from_extra rd (Some (wr (JObj (sanitize_entries m)))) = Some (sp_config p)"
    using ssh_validate_wf [OF assms(2,3)] keys assms(1) by (intro config_from_extra_keys) auto
  ultimately show ?thesis by (simp add: sanitize_extra_def m)
qed

lemma no_tunnel_settings:
  assumes "\<And>j. rd (wr j) = Some j" "\<And>m. extra = Some m \<Longrightarrow> map_of m ''sshHost'' = None"
  shows "config_from_extra rd (sanitize_extra wr (merged_extra extra None)) = None"
proof (cases extra)
  case (Some m)
  have "map_of (sanitize_entries m) ''sshHost'' = None"
    using assms(2) [OF Some] by (simp add: map_of_sanitize ssh_keys_plain)
  then show ?thesis
    using assms(1) by (simp add: Some merged_extra_def sanitize_extra_def config_from_extra_def)
qed (simp add: merged_extra_def sanitize_extra_def config_from_extra_def)

text \<open>The rows a registration leaves, whichever of its two ways it takes.\<close>

definition ids_distinct :: "gateway_db \<Rightarrow> bool" where
  "ids_distinct g \<longleftrightarrow> distinct (map dc_id (as_connections (gd_store g)))"

definition row_holds :: "string \<Rightarrow> sealed_connection \<Rightarrow> db_connection \<Rightarrow> bool" where
  "row_holds owner s c \<longleftrightarrow> dc_created_by c = owner \<and> dc_db_type c = se_db_type s \<and> dc_host c = se_host s \<and> dc_port c = se_port s \<and>
     dc_username c = se_username s \<and> dc_password_encrypted c = se_password s \<and> dc_extra c = se_extra s"

lemma find_conn_Some: "ids_distinct g \<Longrightarrow> c \<in> set (as_connections (gd_store g)) \<Longrightarrow> find_conn (dc_id c) (as_connections (gd_store g)) = Some c"
proof -
  have "distinct (map dc_id cs) \<Longrightarrow> c \<in> set cs \<Longrightarrow> find (\<lambda>d. dc_id d = dc_id c) cs = Some c" for cs
    by (induction cs) force+
  then show "ids_distinct g \<Longrightarrow> c \<in> set (as_connections (gd_store g)) \<Longrightarrow> find_conn (dc_id c) (as_connections (gd_store g)) = Some c"
    by (simp add: ids_distinct_def find_conn_def)
qed

lemma find_conn_map:
  assumes "\<And>c. dc_id (f c) = dc_id c"
  shows "find_conn i (map f cs) = map_option f (find_conn i cs)"
  using assms by (induction cs) (auto simp: find_conn_def)

lemma refresh_row_simps [simp]:
  "dc_id (refreshed_row s body c) = dc_id c" "same_connection owner s' d (refreshed_row s body c) = same_connection owner s' d c"
  by (simp_all add: refreshed_row_def same_connection_def)

lemma registered_cases:
  assumes "register_connection env io owner body g = (ApiOk n a, g')"
  obtains s where "seal_connection env io body = Inr s"
    "(\<exists>c. find (same_connection owner s (rb_draft body)) (as_connections (gd_store g)) = Some c \<and> rg_select_ok io \<and> rg_update_ok io \<and>
        a = \<lparr>ra_conn_id = dc_id c, ra_reused = True\<rparr> \<and> g' = audit_registered io owner (update_row s body (dc_id c) g)) \<or>
     (a = \<lparr>ra_conn_id = rg_id io, ra_reused = False\<rparr> \<and> find_conn (rg_id io) (as_connections (gd_store g)) = None \<and>
        (rg_select_ok io \<and> rg_update_ok io \<longrightarrow> find (same_connection owner s (rb_draft body)) (as_connections (gd_store g)) = None) \<and>
        g' = audit_registered io owner
          ((update_connections (\<lambda>cs. cs @ [new_row io owner s body]) g)\<lparr>gd_ssh := (gd_ssh g)(rg_id io := se_ssh_secret s)\<rparr>))"
proof -
  obtain s where s: "seal_connection env io body = Inr s"
    using assms by (auto simp: register_connection_def split: sum.splits)
  show thesis
    by (rule that [OF s], cases "find (same_connection owner s (rb_draft body)) (as_connections (gd_store g))")
      (use assms s in \<open>auto simp: register_connection_def write_connection_def find_existing_def insert_connection_def split: if_splits option.splits\<close>)
qed

lemma gateway_updates [simp]:
  "as_connections (gd_store (audit_registered io owner g)) = as_connections (gd_store g)"
  "gd_ssh (audit_registered io owner g) = gd_ssh g"
  "as_connections (gd_store (update_connections f g)) = f (as_connections (gd_store g))"
  "as_connections (gd_store (update_row s body i g)) = map (\<lambda>c. if dc_id c = i then refreshed_row s body c else c) (as_connections (gd_store g))"
  "gd_ssh (update_row s body i g) = (if find_conn i (as_connections (gd_store g)) \<noteq> None then (gd_ssh g)(i := se_ssh_secret s) else gd_ssh g)"
  by (simp_all add: audit_registered_def update_connections_def update_row_def)

lemma ids_after_refresh: "map dc_id (map (\<lambda>c. if dc_id c = i then refreshed_row s body c else c) cs) = map dc_id cs"
  by (induction cs) simp_all

lemma row_holds_refresh: "same_connection owner s d c \<Longrightarrow> row_holds owner s (refreshed_row s body c)"
  by (simp add: row_holds_def refreshed_row_def same_connection_def)

lemma row_holds_new: "row_holds owner s (new_row io owner s body)" "dc_id (new_row io owner s body) = rg_id io"
  by (simp_all add: row_holds_def new_row_def)

lemma find_conn_append:
  "find_conn i cs = None \<Longrightarrow> dc_id c = i \<Longrightarrow> find_conn i (cs @ [c]) = Some c"
  by (induction cs) (auto simp: find_conn_def split: if_splits)

lemma registered_row:
  assumes "register_connection env io owner body g = (ApiOk n a, g')" "ids_distinct g"
  obtains s c where "seal_connection env io body = Inr s" "find_conn (ra_conn_id a) (as_connections (gd_store g')) = Some c"
    "row_holds owner s c" "gd_ssh g' (ra_conn_id a) = se_ssh_secret s" "ids_distinct g'"
  using assms(1)
proof (cases rule: registered_cases)
  case (1 s)
  from 1(2) show thesis
  proof (elim disjE exE conjE)
    fix c assume c: "find (same_connection owner s (rb_draft body)) (as_connections (gd_store g)) = Some c"
      and a: "a = \<lparr>ra_conn_id = dc_id c, ra_reused = True\<rparr>" "g' = audit_registered io owner (update_row s body (dc_id c) g)"
    have in_c: "c \<in> set (as_connections (gd_store g))" "same_connection owner s (rb_draft body) c"
      using c by (auto simp: find_Some_iff)
    have found: "find_conn (dc_id c) (as_connections (gd_store g)) = Some c" by (rule find_conn_Some [OF assms(2) in_c(1)])
    show thesis
    proof (rule that [OF 1(1)])
      show "find_conn (ra_conn_id a) (as_connections (gd_store g')) = Some (refreshed_row s body c)"
        unfolding a gateway_updates by (subst find_conn_map) (simp_all add: found)
      show "row_holds owner s (refreshed_row s body c)" by (rule row_holds_refresh [OF in_c(2)])
      show "gd_ssh g' (ra_conn_id a) = se_ssh_secret s" by (simp add: a found)
      show "ids_distinct g'" using assms(2) unfolding ids_distinct_def a gateway_updates ids_after_refresh .
    qed
  next
    assume a: "a = \<lparr>ra_conn_id = rg_id io, ra_reused = False\<rparr>" "find_conn (rg_id io) (as_connections (gd_store g)) = None"
      and g': "g' = audit_registered io owner
          ((update_connections (\<lambda>cs. cs @ [new_row io owner s body]) g)\<lparr>gd_ssh := (gd_ssh g)(rg_id io := se_ssh_secret s)\<rparr>)"
    have rows: "as_connections (gd_store g') = as_connections (gd_store g) @ [new_row io owner s body]" "gd_ssh g' = (gd_ssh g)(rg_id io := se_ssh_secret s)"
      by (simp_all add: g' audit_registered_def update_connections_def)
    have none: "rg_id io \<notin> dc_id ` set (as_connections (gd_store g))"
      using a(2) by (auto simp: find_conn_def find_None_iff)
    show thesis
    proof (rule that [OF 1(1)])
      show "find_conn (ra_conn_id a) (as_connections (gd_store g')) = Some (new_row io owner s body)"
        unfolding rows by (rule find_conn_append) (simp_all add: a row_holds_new)
      show "row_holds owner s (new_row io owner s body)" by (rule row_holds_new)
      show "gd_ssh g' (ra_conn_id a) = se_ssh_secret s" by (simp add: rows a)
      show "ids_distinct g'" using assms(2) none by (simp add: ids_distinct_def rows row_holds_new)
    qed
  qed
qed

section \<open>What is registered is what is opened\<close>

lemma validate_draft_Inr:
  "validate_draft d = Inr t \<Longrightarrow> t = map to_ascii_lower (trim (dr_db_type d)) \<and> t \<in> set supported_db_types"
  unfolding validate_draft_def Let_def by (metis (no_types, lifting) Inl_Inr_False sum.inject(2))

lemma supported_family:
  assumes "validate_draft d = Inr t" "t \<noteq> ''sqlite''"
  shows "\<exists>fam. family_for t = Inr fam \<and> fam \<noteq> FamSqlite"
proof -
  have "list_all (\<lambda>t. t = ''sqlite'' \<or> (case family_for t of Inr fam \<Rightarrow> fam \<noteq> FamSqlite | Inl _ \<Rightarrow> False)) supported_db_types"
    by code_simp
  then have "t = ''sqlite'' \<or> (case family_for t of Inr fam \<Rightarrow> fam \<noteq> FamSqlite | Inl _ \<Rightarrow> False)"
    using validate_draft_Inr [OF assms(1), THEN conjunct2] unfolding list_all_iff by (rule bspec)
  then show ?thesis using assms(2) by (simp split: sum.splits)
qed

lemma seal_connection_Inr:
  assumes "seal_connection env io body = Inr s"
  shows "validate_draft (rb_draft body) = Inr (se_db_type s)"
    "encrypt_v1 (le_crypto env) (rg_nonce io) (le_key env) (opt_string (dr_password (rb_draft body))) = Some (se_password s)"
    "seal_ssh env (rg_ssh_nonce io) (dr_ssh (rb_draft body)) = Inr (se_ssh_secret s)"
    "se_extra s = sanitize_extra (le_write env) (merged_extra (dr_extra (rb_draft body)) (dr_ssh (rb_draft body)))"
    "se_name s = trim (rb_name body)"
    "se_host s = (if se_db_type s = ''sqlite'' then ''unused'' else opt_string (dr_host (rb_draft body)))"
    "se_port s = (case dr_port (rb_draft body) of Some p \<Rightarrow> p | None \<Rightarrow> 0)"
    "se_username s = (if se_db_type s = ''sqlite'' then ''unused'' else opt_string (dr_username (rb_draft body)))"
  using assms by (auto simp: seal_connection_def split: sum.splits if_splits option.splits)

definition env_laws :: "load_env \<Rightarrow> bool" where
  "env_laws env \<longleftrightarrow> le_db_ok env \<and> crypto_ok (le_crypto env) \<and> (\<forall>j. le_read env (le_write env j) = Some j)"

lemma load_secrets_sealed:
  assumes "env_laws env" "length nonce = 12" "seal_ssh env nonce (Some wire) = Inr sealed" "ssh_validate wire = Inr p" "sw_port wire < 2 ^ 63"
  shows "load_secrets env sealed = Inr (sp_secrets p)"
proof -
  have "\<not> secrets_empty (sp_secrets p)" using ssh_validate_wf [OF assms(4,5)] by blast
  then obtain ct where ct: "encrypt_v1 (le_crypto env) nonce (le_key env) (le_write env (secrets_json (sp_secrets p))) = Some ct" "sealed = Some ct"
    using assms(3,4) by (auto simp: seal_ssh_def split: option.splits)
  then have "ct \<noteq> []" by (auto simp: encrypt_v1_def v1_prefix_def)
  moreover have "decrypt_password (le_crypto env) (le_key env) ct = Inr (le_write env (secrets_json (sp_secrets p)))"
    using decrypt_encrypt_v1 [OF _ assms(2) ct(1)] assms(1) by (simp add: env_laws_def)
  ultimately show ?thesis
    using assms(1) by (simp add: load_secrets_def ct(2) opt_string_def env_laws_def secrets_read_back)
qed

text \<open>A connection opened with the given tunnel, or directly.\<close>

definition opens :: "load_env \<Rightarrow> ssh_tunnel_params option \<Rightarrow> db_connection \<Rightarrow> family \<Rightarrow> string \<Rightarrow> tunnel_world \<Rightarrow>
    ((string \<times> string) + db_connection \<times> family \<times> string) \<times> tunnel_world" where
  "opens env tunnel c fam password w =
     (case tunnel of
        None \<Rightarrow> (Inr (c, fam, password), w)
      | Some p \<Rightarrow>
          (case apply_tunnel (le_read env) (le_write env) (le_digest env) (le_client env) (dc_host c) (dc_port c) (dc_extra c)
              (sp_config p) (sp_secrets p) w of
             (Inl e, w) \<Rightarrow> (Inl (''CONNECTION_FAILED'', ''ssh tunnel setup failed''), w)
           | (Inr (h, q, x), w) \<Rightarrow> (Inr (c\<lparr>dc_host := h, dc_port := q, dc_extra := x\<rparr>, fam, password), w)))"

definition tunnel_of :: "ssh_wire option \<Rightarrow> ssh_tunnel_params option" where
  "tunnel_of ssh = (case ssh of None \<Rightarrow> None | Some wire \<Rightarrow> (case ssh_validate wire of Inr p \<Rightarrow> Some p | Inl _ \<Rightarrow> None))"

lemma load_tunneled_registered:
  assumes "env_laws env" "length nonce = 12" "seal_ssh env nonce ssh = Inr sealed"
    and "dc_extra c = sanitize_extra (le_write env) (merged_extra extra ssh)"
    and "\<And>wire. ssh = Some wire \<Longrightarrow> sw_port wire < 2 ^ 63" "\<And>m. ssh = None \<Longrightarrow> extra = Some m \<Longrightarrow> map_of m ''sshHost'' = None"
  shows "(case load_tunneled env c sealed w of (Inl e, w) \<Rightarrow> (Inl e, w) | (Inr c, w) \<Rightarrow> (Inr (c, fam, password), w)) =
    opens env (tunnel_of ssh) c fam password w"
proof (cases ssh)
  case None
  have "config_from_extra (le_read env) (dc_extra c) = None"
    unfolding assms(4) None using assms(1,6) None by (intro no_tunnel_settings) (auto simp: env_laws_def)
  then show ?thesis by (simp add: load_tunneled_def None tunnel_of_def opens_def)
next
  case (Some wire)
  then obtain p where p: "ssh_validate wire = Inr p" using assms(3) by (auto simp: seal_ssh_def split: sum.splits)
  have "config_from_extra (le_read env) (dc_extra c) = Some (sp_config p)"
    unfolding assms(4) Some using assms(1) by (intro tunnel_settings_stored [OF _ p assms(5) [OF Some]]) (simp add: env_laws_def)
  moreover have "load_secrets env sealed = Inr (sp_secrets p)"
    using load_secrets_sealed [OF assms(1,2) _ p assms(5) [OF Some]] assms(3) Some by simp
  ultimately show ?thesis
    by (auto simp: load_tunneled_def Some tunnel_of_def p opens_def split: sum.splits prod.splits)
qed

lemma load_connection_remote:
  assumes "le_db_ok env" "find_conn i (as_connections st) = Some c" "family_for (dc_db_type c) = Inr fam" "fam \<noteq> FamSqlite"
    and "decrypt_password (le_crypto env) (le_key env) (dc_password_encrypted c) = Inr password"
  shows "metadata_load_connection env i st ssh w =
    (case load_tunneled env c (ssh i) w of (Inl e, w) \<Rightarrow> (Inl e, w) | (Inr c, w) \<Rightarrow> (Inr (c, fam, password), w))"
  using assms by (induct fam) (simp_all add: metadata_load_connection_def)

text \<open>
  A registered connection is opened with what was registered: the stored password decrypts to the
  given one, and the tunnel is asked for with exactly the given host, port, user and secrets, whatever
  else the settings hold; without a tunnel in the request, and no rest of one in its settings, the
  database is opened directly.
\<close>

theorem registered_connection_opens_as_given:
  assumes "env_laws env" "length (rg_nonce io) = 12" "length (rg_ssh_nonce io) = 12" "ids_distinct g"
    and "register_connection env io owner body g = (ApiOk n a, g')"
    and "map to_ascii_lower (trim (dr_db_type (rb_draft body))) \<noteq> ''sqlite''"
    and "\<And>wire. dr_ssh (rb_draft body) = Some wire \<Longrightarrow> sw_port wire < 2 ^ 63"
    and "\<And>m. dr_ssh (rb_draft body) = None \<Longrightarrow> dr_extra (rb_draft body) = Some m \<Longrightarrow> map_of m ''sshHost'' = None"
  shows "\<exists>c fam. find_conn (ra_conn_id a) (as_connections (gd_store g')) = Some c \<and> dc_created_by c = owner \<and>
    family_for (dc_db_type c) = Inr fam \<and> dc_host c = opt_string (dr_host (rb_draft body)) \<and>
    metadata_load_connection env (ra_conn_id a) (gd_store g') (gd_ssh g') w =
      opens env (tunnel_of (dr_ssh (rb_draft body))) c fam (opt_string (dr_password (rb_draft body))) w"
proof -
  obtain s c where s: "seal_connection env io body = Inr s" and c: "find_conn (ra_conn_id a) (as_connections (gd_store g')) = Some c"
    and row: "row_holds owner s c" and ssh: "gd_ssh g' (ra_conn_id a) = se_ssh_secret s"
    using registered_row [OF assms(5,4)] by metis
  note seal = seal_connection_Inr [OF s]
  have t: "se_db_type s \<noteq> ''sqlite''" "se_host s = opt_string (dr_host (rb_draft body))"
    using assms(6) validate_draft_Inr [OF seal(1)] seal(6) by auto
  obtain fam where fam: "family_for (se_db_type s) = Inr fam" "fam \<noteq> FamSqlite" using supported_family [OF seal(1) t(1)] by blast
  have pw: "decrypt_password (le_crypto env) (le_key env) (se_password s) = Inr (opt_string (dr_password (rb_draft body)))"
    using decrypt_encrypt_v1 [OF _ assms(2) seal(2)] assms(1) by (simp add: env_laws_def)
  have "metadata_load_connection env (ra_conn_id a) (gd_store g') (gd_ssh g') w =
      (case load_tunneled env c (se_ssh_secret s) w of (Inl e, w) \<Rightarrow> (Inl e, w)
       | (Inr c, w) \<Rightarrow> (Inr (c, fam, opt_string (dr_password (rb_draft body))), w))"
    using assms(1) row fam pw ssh load_connection_remote [OF _ c, of env fam _ "gd_ssh g'" w]
    by (simp add: env_laws_def row_holds_def)
  also have "\<dots> = opens env (tunnel_of (dr_ssh (rb_draft body))) c fam (opt_string (dr_password (rb_draft body))) w"
    using row seal by (intro load_tunneled_registered [OF assms(1,3) seal(3) _ assms(7,8)]) (simp_all add: row_holds_def)
  finally show ?thesis using c row fam(1) t(2) by (auto simp: row_holds_def)
qed

section \<open>Registering again\<close>

text \<open>What two requests for one connection have in common.\<close>

definition same_key :: "register_body \<Rightarrow> register_body \<Rightarrow> bool" where
  "same_key b1 b2 \<longleftrightarrow> trim (rb_name b1) = trim (rb_name b2) \<and>
     map to_ascii_lower (trim (dr_db_type (rb_draft b1))) = map to_ascii_lower (trim (dr_db_type (rb_draft b2))) \<and>
     opt_string (dr_host (rb_draft b1)) = opt_string (dr_host (rb_draft b2)) \<and> dr_port (rb_draft b1) = dr_port (rb_draft b2) \<and>
     opt_string (dr_username (rb_draft b1)) = opt_string (dr_username (rb_draft b2)) \<and>
     opt_string (dr_default_database (rb_draft b1)) = opt_string (dr_default_database (rb_draft b2)) \<and>
     opt_string (dr_file_path (rb_draft b1)) = opt_string (dr_file_path (rb_draft b2))"

lemma same_key_connection:
  assumes "same_key b1 b2" "seal_connection env io1 b1 = Inr s1" "seal_connection env io2 b2 = Inr s2"
  shows "same_connection owner s1 (rb_draft b1) = same_connection owner s2 (rb_draft b2)"
proof -
  have "se_db_type s1 = map to_ascii_lower (trim (dr_db_type (rb_draft b1)))" "se_db_type s2 = map to_ascii_lower (trim (dr_db_type (rb_draft b2)))"
    using validate_draft_Inr [OF seal_connection_Inr(1) [OF assms(2)]] validate_draft_Inr [OF seal_connection_Inr(1) [OF assms(3)]] by blast+
  then have "se_name s1 = se_name s2" "se_db_type s1 = se_db_type s2" "se_host s1 = se_host s2" "se_port s1 = se_port s2" "se_username s1 = se_username s2"
    using assms(1) seal_connection_Inr(5-8) [OF assms(2)] seal_connection_Inr(5-8) [OF assms(3)] by (simp_all add: same_key_def)
  then show ?thesis using assms(1) by (simp add: fun_eq_iff same_connection_def same_key_def)
qed

lemma find_same_refreshed:
  "find P (map (\<lambda>c. if dc_id c = i then refreshed_row s body c else c) cs) =
     map_option (\<lambda>c. if dc_id c = i then refreshed_row s body c else c) (find P cs)"
  if "\<And>c. P (refreshed_row s body c) = P c"
  using that by (induction cs) auto

lemma find_append: "find P (xs @ [x]) = (case find P xs of Some y \<Rightarrow> Some y | None \<Rightarrow> if P x then Some x else None)"
  by (induction xs) auto

lemma registered_is_found:
  assumes "register_connection env io owner body g = (ApiOk n a, g')" "seal_connection env io body = Inr s"
    and "rg_select_ok io" "rg_update_ok io"
  shows "\<exists>c. find (same_connection owner s (rb_draft body)) (as_connections (gd_store g')) = Some c \<and> dc_id c = ra_conn_id a"
  using assms(1)
proof (cases rule: registered_cases)
  case (1 s')
  then have s: "s' = s" using assms(2) by simp
  from 1(2) [unfolded s] show ?thesis
  proof (elim disjE exE conjE)
    fix c assume "find (same_connection owner s (rb_draft body)) (as_connections (gd_store g)) = Some c"
      "a = \<lparr>ra_conn_id = dc_id c, ra_reused = True\<rparr>" "g' = audit_registered io owner (update_row s body (dc_id c) g)"
    then show ?thesis by (simp add: find_same_refreshed)
  next
    assume "rg_select_ok io \<and> rg_update_ok io \<longrightarrow> find (same_connection owner s (rb_draft body)) (as_connections (gd_store g)) = None"
      and a: "a = \<lparr>ra_conn_id = rg_id io, ra_reused = False\<rparr>"
      and g': "g' = audit_registered io owner
          ((update_connections (\<lambda>cs. cs @ [new_row io owner s body]) g)\<lparr>gd_ssh := (gd_ssh g)(rg_id io := se_ssh_secret s)\<rparr>)"
    then have "find (same_connection owner s (rb_draft body)) (as_connections (gd_store g)) = None" using assms(3,4) by blast
    moreover have "as_connections (gd_store g') = as_connections (gd_store g) @ [new_row io owner s body]"
      by (simp add: g' audit_registered_def update_connections_def)
    moreover have "same_connection owner s (rb_draft body) (new_row io owner s body)" by (simp add: same_connection_def new_row_def)
    ultimately show ?thesis by (simp add: find_append a new_row_def)
  qed
qed

text \<open>
  Registering a connection again, with another password or other session settings, gives the same
  connection: its id is reused and no row is added, as long as the lookup and the update succeed.
\<close>

theorem registration_is_idempotent:
  assumes "register_connection env io owner body g = (ApiOk n a, g')" "rg_select_ok io" "rg_update_ok io"
    and "register_connection env io' owner body' g' = (ApiOk m b, g'')" "rg_select_ok io'" "rg_update_ok io'"
    and "same_key body body'"
  shows "ra_conn_id b = ra_conn_id a \<and> ra_reused b \<and> length (as_connections (gd_store g'')) = length (as_connections (gd_store g'))"
proof -
  obtain s where s: "seal_connection env io body = Inr s" using assms(1) by (cases rule: registered_cases)
  obtain s' where s': "seal_connection env io' body' = Inr s'" using assms(4) by (cases rule: registered_cases)
  obtain c where c: "find (same_connection owner s (rb_draft body)) (as_connections (gd_store g')) = Some c" "dc_id c = ra_conn_id a"
    using registered_is_found [OF assms(1) s assms(2,3)] by blast
  have "find (same_connection owner s' (rb_draft body')) (as_connections (gd_store g')) = Some c"
    using c(1) same_key_connection [OF assms(7) s s'] by simp
  then have "b = \<lparr>ra_conn_id = dc_id c, ra_reused = True\<rparr>" "g'' = audit_registered io' owner (update_row s' body' (dc_id c) g')"
    using assms(4-6) by (auto simp: register_connection_def s' find_existing_def write_connection_def)
  with c(2) show ?thesis by simp
qed

text \<open>A refused or failed registration leaves the tables as they were.\<close>

lemma failed_registration_changes_nothing:
  "register_connection env io owner body g = (ApiErr n code, g') \<Longrightarrow> g' = g"
  by (auto simp: register_connection_def write_connection_def insert_connection_def split: sum.splits if_splits option.splits)

section \<open>Removal\<close>

text \<open>A removal that the database carried out leaves no row, no tunnel secret and no running subscription.\<close>

lemma removal_takes_everything:
  assumes "remove_connection True aio owner i g r = (n, g', r')" "\<not> list_ex (\<lambda>a. ap_target_db_id a = i) (as_approvals (gd_store g))"
  shows "find_conn i (as_connections (gd_store g')) = None \<and> gd_ssh g' i = None \<and> set (sr_tokens r i) \<subseteq> sr_cancelled r' \<and> sr_tokens r' i = []"
proof -
  have "find_conn i (as_connections (delete_conn_row i (gd_store g))) = None"
    using assms(2) by (auto simp: delete_conn_row_def find_conn_def find_None_iff)
  then show ?thesis using assms(1) by (auto simp: remove_connection_def sub_revoke_def Let_def)
qed

section \<open>What goes wrong\<close>

text \<open>Only the keys at the top are looked at: a password in a nested object is stored as it is.\<close>

lemma nested_password_is_stored:
  "sanitize_entries [(''auth'', JObj [(''password'', JStr pw)])] = [(''auth'', JObj [(''password'', JStr pw)])]"
proof -
  have "\<not> credential_key ''auth''" by code_simp
  then show ?thesis by (simp add: sanitize_entries_def clean_entry_def)
qed

text \<open>A password with an unescaped at sign keeps its rest.\<close>

lemma second_at_keeps_password: "strip_uri_credentials ''m://u:p@ss@h'' = ''m://ss@h''"
  by code_simp

text \<open>The marker of a tunnel can be given by the client, which turns certificate checks off.\<close>

lemma tunneled_marker_is_kept: "sanitize_entries [(''tunneled'', JBool True)] = [(''tunneled'', JBool True)]"
proof -
  have "\<not> credential_key ''tunneled''" by code_simp
  then show ?thesis by (simp add: sanitize_entries_def clean_entry_def)
qed

text \<open>
  A row deleted between the lookup and the update counts as updated: the answer names a connection
  that does not exist, although the comment has such an update fail.
\<close>

lemma vanished_row_is_reused:
  assumes "rg_update_ok io" "find_conn i (as_connections (gd_store g)) = None"
  shows "\<exists>g'. write_connection io owner s body (Some i) g = (ApiOk 200 \<lparr>ra_conn_id = i, ra_reused = True\<rparr>, g') \<and>
    find_conn i (as_connections (gd_store g')) = None"
  using assms by (simp add: write_connection_def find_conn_map)

text \<open>A connection that a DDL approval refers to stays, although the removal answers success and is audited as done.\<close>

lemma removal_reports_success:
  assumes "find_conn i (as_connections (gd_store g)) = Some c" "list_ex (\<lambda>a. ap_target_db_id a = i) (as_approvals (gd_store g))"
  shows "fst (remove_connection True aio owner i g r) = 204 \<and>
    find_conn i (as_connections (gd_store (fst (snd (remove_connection True aio owner i g r))))) = Some c"
  using assms by (simp add: remove_connection_def delete_conn_row_def Let_def)

section \<open>A concrete gateway\<close>

definition demo_env :: load_env where
  "demo_env = \<lparr>le_read = (\<lambda>s. Some (inv sample_writer s)), le_write = sample_writer, le_digest = id, le_crypto = sample_crypto,
     le_key = [], le_client = demo_client, le_db_ok = True, le_db_error = []\<rparr>"

lemma demo_env_laws: "env_laws demo_env"
  using inj_sample_writer by (simp add: env_laws_def demo_env_def sample_crypto_ok)

definition demo_reg_io :: "string \<Rightarrow> register_io" where
  "demo_reg_io i = \<lparr>rg_nonce = replicate 12 0, rg_ssh_nonce = replicate 12 1, rg_select_ok = True, rg_update_ok = True,
     rg_insert_ok = True, rg_id = i, rg_now = ''t'', rg_audit = \<lparr>au_id = ''a'', au_now = ''t'', au_accepts = True\<rparr>\<rparr>"

definition demo_wire :: ssh_wire where
  "demo_wire = \<lparr>sw_host = ''jump'', sw_port = 22, sw_username = ''u'', sw_auth_mode = ''password'', sw_password = Some ''sp'',
     sw_private_key = None, sw_passphrase = None\<rparr>"

definition demo_reg_body :: "string \<Rightarrow> register_body" where
  "demo_reg_body pw = \<lparr>rb_name = ''shop'',
     rb_draft = \<lparr>dr_db_type = ''pg'', dr_host = Some ''db'', dr_port = Some 5432, dr_username = Some ''app'', dr_password = Some pw,
       dr_default_database = None, dr_file_path = None, dr_extra = Some [(''redisPassword'', JStr ''x'')], dr_ssh = Some demo_wire\<rparr>,
     rb_read_only = None, rb_charset = None, rb_timezone = None\<rparr>"

definition demo_gateway :: gateway_db where
  "demo_gateway = \<lparr>gd_store = \<lparr>as_entitlement = Trial 0, as_embedded_mode = False, as_connections = [], as_tasks = [], as_approvals = [],
     as_queries = []\<rparr>, gd_ssh = Map.empty, gd_audit = []\<rparr>"

lemma demo_seals: "\<exists>s. seal_connection demo_env (demo_reg_io i) (demo_reg_body pw) = Inr s"
proof -
  have v: "validate_draft (rb_draft (demo_reg_body pw)) = Inr ''pg''"
  proof -
    have "trim ''pg'' = ''pg''" "map to_ascii_lower ''pg'' = ''pg''" "trim ''db'' = ''db''" "trim ''app'' = ''app''" by code_simp+
    then show ?thesis by (simp add: validate_draft_def demo_reg_body_def supported_db_types_def blank_def opt_string_def)
  qed
  have "trim ''shop'' = ''shop''" "trim ''jump'' = ''jump''" "trim ''u'' = ''u''" by code_simp+
  then show ?thesis unfolding seal_connection_def v
    by (simp add: demo_reg_body_def seal_ssh_def demo_wire_def ssh_validate_def opt_string_def secrets_empty_def encrypt_v1_def
        demo_env_def sample_crypto_def)
qed

lemma demo_registers:
  "\<exists>g'. register_connection demo_env (demo_reg_io ''c1'') ''u1'' (demo_reg_body pw) demo_gateway =
     (ApiOk 200 \<lparr>ra_conn_id = ''c1'', ra_reused = False\<rparr>, g')"
  using demo_seals [of "''c1''" pw]
  by (auto simp: register_connection_def write_connection_def find_existing_def insert_connection_def demo_gateway_def find_conn_def
      demo_reg_io_def)

theorem registered_connection_opens_as_given_witness:
  "\<exists>g' c fam. register_connection demo_env (demo_reg_io ''c1'') ''u1'' (demo_reg_body ''pw'') demo_gateway =
       (ApiOk 200 \<lparr>ra_conn_id = ''c1'', ra_reused = False\<rparr>, g') \<and>
     metadata_load_connection demo_env ''c1'' (gd_store g') (gd_ssh g') no_tunnels =
       opens demo_env (tunnel_of (Some demo_wire)) c fam ''pw'' no_tunnels"
proof -
  obtain g' where g': "register_connection demo_env (demo_reg_io ''c1'') ''u1'' (demo_reg_body ''pw'') demo_gateway =
      (ApiOk 200 \<lparr>ra_conn_id = ''c1'', ra_reused = False\<rparr>, g')"
    using demo_registers by blast
  have t: "map to_ascii_lower (trim (dr_db_type (rb_draft (demo_reg_body ''pw'')))) \<noteq> ''sqlite''"
    by (simp add: demo_reg_body_def) code_simp
  have l: "length (rg_nonce (demo_reg_io ''c1'')) = 12" "length (rg_ssh_nonce (demo_reg_io ''c1'')) = 12" "ids_distinct demo_gateway"
    by (simp_all add: demo_reg_io_def ids_distinct_def demo_gateway_def)
  show ?thesis
    using registered_connection_opens_as_given [OF demo_env_laws l g' t, of no_tunnels] g'
    by (auto simp: demo_reg_body_def demo_wire_def opt_string_def)
qed

theorem registration_is_idempotent_witness:
  "\<exists>g' b g''. register_connection demo_env (demo_reg_io ''c2'') ''u1'' (demo_reg_body ''new'') g' = (ApiOk 200 b, g'') \<and>
     b = \<lparr>ra_conn_id = ''c1'', ra_reused = True\<rparr> \<and> length (as_connections (gd_store g'')) = 1"
proof -
  obtain g' where g': "register_connection demo_env (demo_reg_io ''c1'') ''u1'' (demo_reg_body ''pw'') demo_gateway =
      (ApiOk 200 \<lparr>ra_conn_id = ''c1'', ra_reused = False\<rparr>, g')"
    using demo_registers by blast
  then have one: "length (as_connections (gd_store g')) = 1"
    by (cases rule: registered_cases) (auto simp: demo_gateway_def update_connections_def audit_registered_def)
  obtain s where s: "seal_connection demo_env (demo_reg_io ''c2'') (demo_reg_body ''new'') = Inr s" using demo_seals by blast
  obtain r g'' where r: "register_connection demo_env (demo_reg_io ''c2'') ''u1'' (demo_reg_body ''new'') g' = (r, g'')" by fastforce
  have "\<exists>b. r = ApiOk 200 b"
  proof -
    have "find_conn ''c2'' (as_connections (gd_store g')) = None"
      using g' by (cases rule: registered_cases)
        (auto simp: demo_gateway_def update_connections_def audit_registered_def find_conn_def new_row_def demo_reg_io_def)
    then show ?thesis
      using r s by (auto simp: register_connection_def write_connection_def insert_connection_def demo_reg_io_def split: option.splits)
  qed
  then obtain b where b: "register_connection demo_env (demo_reg_io ''c2'') ''u1'' (demo_reg_body ''new'') g' = (ApiOk 200 b, g'')"
    using r by blast
  have ok: "rg_select_ok (demo_reg_io i)" "rg_update_ok (demo_reg_io i)" for i by (simp_all add: demo_reg_io_def)
  have "same_key (demo_reg_body ''pw'') (demo_reg_body ''new'')" by (simp add: same_key_def demo_reg_body_def)
  from registration_is_idempotent [OF g' ok b ok this] one b show ?thesis by (cases b) auto
qed

end
