(* ===== verification/Gateway_Queries.thy ===== *)
theory Gateway_Queries
  imports Gateway_Connections Server_Config
begin

text \<open>
  Query execution of the gateway, \<open>crates/gateway/src/handlers.rs\<close> and \<open>lib.rs\<close>: the checks of a
  request, the registry of executions with their cancellation, the events of the stream, and the
  forwarding of Redis subscriptions. The parser of statements, the check of a UUID and the runs
  themselves are arguments. The raw query of a URL is the list of its bytes.
\<close>

section \<open>Requests\<close>

record query_body =
  qb_sql :: "string option"
  qb_kind :: "string option"
  qb_command :: "json option"
  qb_pipeline :: "string list list option"
  qb_atomic :: "bool option"
  qb_database :: "string option"
  qb_row_limit :: "nat option"
  qb_timeout_ms :: "nat option"

datatype gw_work =
    SqlWork string
  | MongoWork json
  | RedisCommand "string list" bool
  | RedisCommands "string list list" bool
  | TdengineWork string

definition query_kind :: "query_body \<Rightarrow> string" where
  "query_kind body = (case qb_kind body of Some k \<Rightarrow> k | None \<Rightarrow> ''sql'')"

definition check_sql :: "sql_parser \<Rightarrow> query_body \<Rightarrow> string + string" where
  "check_sql parse body =
     (case qb_sql body of
        None \<Rightarrow> Inl ''CONFIG''
      | Some sql \<Rightarrow>
          if trim sql = [] then Inl ''CONFIG''
          else if 1 < statement_count parse (trim sql) then Inl ''MULTI_STATEMENT''
          else Inr sql)"

fun all_strings :: "json list \<Rightarrow> string list option" where
  "all_strings [] = Some []"
| "all_strings (x # xs) =
     (case (json_as_str x, all_strings xs) of (Some s, Some ss) \<Rightarrow> Some (s # ss) | _ \<Rightarrow> None)"

definition command_array :: "query_body \<Rightarrow> string list option" where
  "command_array body =
     (case Option.bind (Option.bind (qb_command body) json_as_array) all_strings of
        Some (p # ps) \<Rightarrow> Some (p # ps)
      | _ \<Rightarrow> None)"

definition pipeline_valid :: "query_body \<Rightarrow> bool" where
  "pipeline_valid body =
     (case qb_pipeline body of
        None \<Rightarrow> False
      | Some p \<Rightarrow> p \<noteq> [] \<and> list_all (\<lambda>entry. entry \<noteq> [] \<and> list_all (\<lambda>arg. arg \<noteq> []) entry) p)"

definition check_redis :: "query_body \<Rightarrow> string + gw_work" where
  "check_redis body =
     (case (command_array body, qb_pipeline body) of
        (Some cmd, None) \<Rightarrow> Inr (RedisCommand cmd (qb_atomic body = Some True))
      | (None, Some p) \<Rightarrow>
          if pipeline_valid body then Inr (RedisCommands p (qb_atomic body = Some True)) else Inl ''CONFIG''
      | _ \<Rightarrow> Inl ''CONFIG'')"

definition check_query :: "sql_parser \<Rightarrow> query_body \<Rightarrow> string + gw_work" where
  "check_query parse body =
     (if query_kind body = ''sql'' then map_sum id SqlWork (check_sql parse body)
      else if query_kind body = ''mongo'' then
        (case qb_command body of
           Some (JObj (e # es)) \<Rightarrow> Inr (MongoWork (JObj (e # es)))
         | _ \<Rightarrow> Inl ''CONFIG'')
      else if query_kind body = ''redis'' then check_redis body
      else if query_kind body = ''tdengine'' then map_sum id TdengineWork (check_sql parse body)
      else Inl ''UNSUPPORTED_KIND'')"

text \<open>\<open>Ord::clamp\<close> panics when the bounds are the wrong way round.\<close>

definition clamp :: "nat \<Rightarrow> nat \<Rightarrow> nat \<Rightarrow> nat option" where
  "clamp lo hi n = (if hi < lo then None else Some (max lo (min hi n)))"

definition gw_row_limit :: "server_config \<Rightarrow> query_body \<Rightarrow> nat option" where
  "gw_row_limit cfg body =
     clamp 1 (cf_gw_query_max_rows cfg) (case qb_row_limit body of Some n \<Rightarrow> n | None \<Rightarrow> cf_gw_query_default_rows cfg)"

definition gw_timeout_ms :: "server_config \<Rightarrow> query_body \<Rightarrow> nat option" where
  "gw_timeout_ms cfg body =
     clamp 1000 600000 (case qb_timeout_ms body of Some n \<Rightarrow> n | None \<Rightarrow> cf_gw_query_timeout_secs cfg * 1000)"

text \<open>The id: the client's when it is a UUID, a new one otherwise.\<close>

definition execution_id :: "(string \<Rightarrow> bool) \<Rightarrow> string option \<Rightarrow> string \<Rightarrow> string" where
  "execution_id is_uuid header generated =
     (case header of Some s \<Rightarrow> if is_uuid s then s else generated | None \<Rightarrow> generated)"

section \<open>Executions\<close>

record execution_registry =
  er_tokens :: "string \<rightharpoonup> nat"
  er_cancelled :: "nat set"

definition exec_register :: "string \<Rightarrow> nat \<Rightarrow> execution_registry \<Rightarrow> execution_registry" where
  "exec_register i t r = r\<lparr>er_tokens := (er_tokens r)(i \<mapsto> t)\<rparr>"

definition exec_cancel :: "string \<Rightarrow> execution_registry \<Rightarrow> bool \<times> execution_registry" where
  "exec_cancel i r =
     (case er_tokens r i of
        Some t \<Rightarrow> (True, r\<lparr>er_cancelled := insert t (er_cancelled r)\<rparr>)
      | None \<Rightarrow> (False, r))"

definition exec_remove :: "string \<Rightarrow> execution_registry \<Rightarrow> execution_registry" where
  "exec_remove i r = r\<lparr>er_tokens := (er_tokens r)(i := None)\<rparr>"

record execution =
  ex_id :: string
  ex_token :: nat
  ex_user :: string
  ex_conn :: string
  ex_database :: "string option"
  ex_work :: gw_work
  ex_row_limit :: nat
  ex_timeout_ms :: nat

record gw_world =
  gw_registry :: execution_registry
  gw_running :: "execution list"
  gw_next_token :: nat
  gw_audit :: "audit_row list"

record query_request =
  qr_user :: string
  qr_conn :: string
  qr_header :: "string option"
  qr_body :: "query_body option"

datatype query_answer = QueryRefused nat string | QueryPanicked | QueryStarted string

definition gw_query :: "sql_parser \<Rightarrow> (string \<Rightarrow> bool) \<Rightarrow> server_config \<Rightarrow> string \<Rightarrow> query_request \<Rightarrow> gw_world \<Rightarrow> query_answer \<times> gw_world" where
  "gw_query parse is_uuid cfg generated req w =
     (case qr_body req of
        None \<Rightarrow> (QueryRefused 400 ''CONFIG'', w)
      | Some body \<Rightarrow>
          (case check_query parse body of
             Inl code \<Rightarrow> (QueryRefused 400 code, w)
           | Inr work \<Rightarrow>
               (case (gw_row_limit cfg body, gw_timeout_ms cfg body) of
                  (Some rows, Some timeout) \<Rightarrow>
                    let i = execution_id is_uuid (qr_header req) generated; t = gw_next_token w
                    in (QueryStarted i,
                        w\<lparr>gw_registry := exec_register i t (gw_registry w), gw_next_token := t + 1,
                          gw_running := \<lparr>ex_id = i, ex_token = t, ex_user = qr_user req, ex_conn = qr_conn req, ex_database = qb_database body, ex_work = work,
                            ex_row_limit = rows, ex_timeout_ms = timeout\<rparr> # gw_running w\<rparr>)
                | _ \<Rightarrow> (QueryPanicked, w))))"

text \<open>\<open>DELETE /executions/{id}\<close>: 204 whatever is found.\<close>

definition cancel_execution :: "string \<Rightarrow> gw_world \<Rightarrow> nat \<times> gw_world" where
  "cancel_execution i w = (204, w\<lparr>gw_registry := snd (exec_cancel i (gw_registry w))\<rparr>)"

text \<open>The end of an execution; a panic of the run becomes an error of its own.\<close>

definition panic_error :: "string \<Rightarrow> stream_query_error" where
  "panic_error reason = stream_error ''DB_ERROR''
     (''execution panicked in the TDS decode path ('' @ reason @ ''); CAST the column (e.g. sql_variant via SERVERPROPERTY) and retry'') None"

datatype run_outcome = RunEnded "stream_query_error + complete_info" | RunPanicked "string option"

definition run_result :: "run_outcome \<Rightarrow> stream_query_error + complete_info" where
  "run_result out =
     (case out of
        RunEnded r \<Rightarrow> r
      | RunPanicked reason \<Rightarrow> Inl (panic_error (case reason of Some s \<Rightarrow> s | None \<Rightarrow> ''unknown panic'')))"

definition finish_execution :: "audit_io \<Rightarrow> run_outcome \<Rightarrow> execution \<Rightarrow> gw_world \<Rightarrow> gw_world" where
  "finish_execution aio out e w =
     w\<lparr>gw_registry := exec_remove (ex_id e) (gw_registry w), gw_running := filter (\<lambda>x. ex_token x \<noteq> ex_token e) (gw_running w),
       gw_audit := log_gw_event aio (Some (ex_user e)) GwQueryExec
         (case run_result out of Inl err \<Rightarrow> Some (se_code err) | Inr _ \<Rightarrow> None) (gw_audit w)\<rparr>"

section \<open>Events\<close>

definition sse_channel_batches :: nat where
  "sse_channel_batches = 4"

text \<open>
  The event a panic leaves: the run's sender is gone, the spare one does not wait. \<open>unread\<close> counts
  the events the client has not read yet.
\<close>

definition panic_events :: "nat \<Rightarrow> string option \<Rightarrow> stream_event list" where
  "panic_events unread reason =
     (if unread < sse_channel_batches
      then [StreamError (panic_error (case reason of Some s \<Rightarrow> s | None \<Rightarrow> ''unknown panic''))] else [])"

record sse_message =
  sm_name :: string
  sm_id :: string
  sm_data :: json

definition event_head :: "string \<Rightarrow> string \<Rightarrow> (string \<times> json) list" where
  "event_head kind name = [(''kind'', JStr kind), (''type'', JStr name)]"

definition opt_entry :: "string \<Rightarrow> json option \<Rightarrow> (string \<times> json) list" where
  "opt_entry k v = (case v of None \<Rightarrow> [] | Some j \<Rightarrow> [(k, j)])"

definition sse_event :: "string \<Rightarrow> stream_event \<Rightarrow> nat \<Rightarrow> sse_message" where
  "sse_event kind ev seq =
     (let (name, fields) =
        (case ev of
           Meta columns types \<Rightarrow>
             (''meta'', [(''columns'', JArr (map JStr columns))] @ opt_entry ''columnTypes'' (map_option (\<lambda>ts. JArr (map JStr ts)) types))
         | Rows rows \<Rightarrow> (''rows'', [(''rows'', JArr (map JArr rows))])
         | Complete info elapsed \<Rightarrow>
             (''complete'', [(''rowCount'', JNum (uint (cp_row_count info))), (''truncated'', JBool (cp_truncated info)),
                (''elapsedMs'', JNum (uint elapsed))] @ opt_entry ''affectedRows'' (map_option (\<lambda>n. JNum (uint n)) (cp_affected_rows info)))
         | StreamError e \<Rightarrow>
             (''error'', [(''code'', JStr (se_code e)), (''message'', JStr (se_message e))] @
                opt_entry ''engineCode'' (map_option JStr (se_engine_code e))))
      in \<lparr>sm_name = name, sm_id = show_nat seq, sm_data = JObj (event_head kind name @ fields)\<rparr>)"

definition sse_stream :: "string \<Rightarrow> stream_event list \<Rightarrow> sse_message list" where
  "sse_stream kind evs = map (\<lambda>(seq, ev). sse_event kind ev seq) (enumerate 0 evs)"

section \<open>Subscriptions\<close>

text \<open>\<open>u8::from_str_radix\<close> of two characters, which may begin with a plus sign.\<close>

definition radix_byte :: "char \<Rightarrow> char \<Rightarrow> nat option" where
  "radix_byte a b =
     (case (hex_nibble a, hex_nibble b) of
        (Some h, Some l) \<Rightarrow> Some (16 * h + l)
      | (None, Some l) \<Rightarrow> if a = CHR ''+'' then Some l else None
      | _ \<Rightarrow> None)"

definition continuation :: "char list \<Rightarrow> bool" where
  "continuation cs = (case cs of c # _ \<Rightarrow> 128 \<le> ccode c \<and> ccode c < 192 | [] \<Rightarrow> False)"

definition unplus :: "char \<Rightarrow> char" where
  "unplus c = (if c = CHR ''+'' then CHR 0x20 else c)"

text \<open>
  \<open>None\<close>: a slice inside a character, and with it a panic. The lossy conversion of the bytes at the end
  changes nothing in bytes that are a text, and is not modelled for those that are not.
\<close>

fun percent_decode :: "string \<Rightarrow> string option" where
  "percent_decode (c # a # b # rest) =
     (if c = CHR ''%'' then
        (if continuation rest then None
         else case radix_byte a b of
             Some n \<Rightarrow> map_option (Cons (char_of n)) (percent_decode rest)
           | None \<Rightarrow> map_option (Cons c) (percent_decode (a # b # rest)))
      else map_option (Cons (unplus c)) (percent_decode (a # b # rest)))"
| "percent_decode (c # cs) = map_option (Cons (unplus c)) (percent_decode cs)"
| "percent_decode [] = Some []"

definition sub_pair :: "string \<Rightarrow> (string \<times> string) option" where
  "sub_pair pair =
     (case split_once (CHR ''='') pair of
        Some (k, v) \<Rightarrow> map_option (Pair k) (percent_decode v)
      | None \<Rightarrow> Some (pair, []))"

fun sub_pairs :: "string list \<Rightarrow> (string \<times> string) list option" where
  "sub_pairs [] = Some []"
| "sub_pairs (p # ps) =
     (case sub_pair p of None \<Rightarrow> None | Some kv \<Rightarrow> map_option (Cons kv) (sub_pairs ps))"

definition pairs_of :: "string \<Rightarrow> (string \<times> string) list \<Rightarrow> string list" where
  "pairs_of key kvs = map snd (filter (\<lambda>kv. fst kv = key) kvs)"

definition parse_redis_sub_query :: "string option \<Rightarrow> (string list \<times> string list) option" where
  "parse_redis_sub_query raw =
     (case raw of
        None \<Rightarrow> Some ([], [])
      | Some q \<Rightarrow>
          map_option (\<lambda>kvs. (pairs_of ''channels'' kvs, pairs_of ''patterns'' kvs))
            (sub_pairs (filter (\<lambda>p. p \<noteq> []) (split_on (CHR ''&'') q))))"

definition redis_sub_max_targets :: nat where
  "redis_sub_max_targets = 64"

datatype sub_answer = SubRefused nat string | SubPanicked | Subscribed "string list" "string list"

text \<open>\<open>opened\<close> is the answer of the connection, \<open>sub_ok\<close> that of the server to one target.\<close>

definition redis_subscribe :: "((string \<times> string) + unit) \<Rightarrow> (bool \<Rightarrow> string \<Rightarrow> bool) \<Rightarrow> string \<Rightarrow> nat \<Rightarrow> string option \<Rightarrow> sub_registry \<Rightarrow>
    sub_answer \<times> sub_registry" where
  "redis_subscribe opened sub_ok conn_id token raw r =
     (case parse_redis_sub_query raw of
        None \<Rightarrow> (SubPanicked, r)
      | Some (cs, ps) \<Rightarrow>
          let channels = filter (\<lambda>c. c \<noteq> []) cs; patterns = filter (\<lambda>p. p \<noteq> []) ps; total = length channels + length patterns
          in if total = 0 \<or> redis_sub_max_targets < total then (SubRefused 400 ''CONFIG'', r)
             else case opened of
                 Inl (code, msg) \<Rightarrow>
                   (let c = normalize_meta_code code in
                    (SubRefused (if c = ''NOT_FOUND'' then 404 else if c \<in> {''CONFIG_ERROR'', ''UNSUPPORTED_DB_TYPE''} then 400
                       else if c = ''CONNECTION_FAILED'' then 503 else 500) c, r))
               | Inr _ \<Rightarrow>
                   if \<not> (list_all (sub_ok False) channels \<and> list_all (sub_ok True) patterns)
                   then (SubRefused 503 ''CONNECTION_FAILED'', r)
                   else (Subscribed channels patterns, sub_register conn_id token r))"

section \<open>What a started query is held to\<close>

definition work_ok :: "sql_parser \<Rightarrow> gw_work \<Rightarrow> bool" where
  "work_ok parse work =
     (case work of
        SqlWork s \<Rightarrow> trim s \<noteq> [] \<and> statement_count parse (trim s) \<le> 1
      | TdengineWork s \<Rightarrow> trim s \<noteq> [] \<and> statement_count parse (trim s) \<le> 1
      | MongoWork j \<Rightarrow> (\<exists>kvs. j = JObj kvs \<and> kvs \<noteq> [])
      | RedisCommand c _ \<Rightarrow> c \<noteq> []
      | RedisCommands p _ \<Rightarrow> p \<noteq> [] \<and> (\<forall>c \<in> set p. c \<noteq> [] \<and> [] \<notin> set c))"

lemma check_sql_ok: "check_sql parse body = Inr s \<Longrightarrow> trim s \<noteq> [] \<and> statement_count parse (trim s) \<le> 1"
  by (auto simp: check_sql_def split: option.splits if_splits)

lemma check_redis_ok: "check_redis body = Inr x \<Longrightarrow> work_ok parse x"
  by (fastforce simp: check_redis_def work_ok_def command_array_def pipeline_valid_def list_all_iff
      split: option.splits if_splits list.splits)

lemma check_query_ok: "check_query parse body = Inr work \<Longrightarrow> work_ok parse work"
proof -
  assume c: "check_query parse body = Inr work"
  have sql: "work_ok parse work" if "map_sum id f (check_sql parse body) = Inr work" "f = SqlWork \<or> f = TdengineWork" for f
    using that check_sql_ok [of parse body] by (cases "check_sql parse body") (auto simp: work_ok_def)
  show ?thesis
  proof (cases "query_kind body = ''mongo''")
    case True
    then show ?thesis
      using c by (auto simp: check_query_def work_ok_def split: option.splits json.splits list.splits)
  next
    case False
    then show ?thesis
      using c sql [of SqlWork] sql [of TdengineWork] check_redis_ok [of body work parse]
      by (simp add: check_query_def split: if_splits)
  qed
qed

lemma gw_limits:
  assumes "config_in_range cfg"
  shows "\<exists>n. gw_row_limit cfg body = Some n \<and> 1 \<le> n \<and> n \<le> cf_gw_query_max_rows cfg"
    "\<exists>m. gw_timeout_ms cfg body = Some m \<and> 1000 \<le> m \<and> m \<le> 600000"
  using assms by (auto simp: gw_row_limit_def gw_timeout_ms_def clamp_def config_in_range_def within_def)

text \<open>
  With settings the server can start with, a query request never panics in the handler, and every
  execution it starts has a checked piece of work, a row limit between one and the maximum and a
  timeout between one second and ten minutes.
\<close>

theorem started_query_within_limits:
  assumes "config_in_range cfg" "gw_query parse is_uuid cfg generated req w = (answer, w')"
  shows "answer \<noteq> QueryPanicked \<and>
    (\<forall>e \<in> set (gw_running w') - set (gw_running w). work_ok parse (ex_work e) \<and> 1 \<le> ex_row_limit e \<and>
      ex_row_limit e \<le> cf_gw_query_max_rows cfg \<and> 1000 \<le> ex_timeout_ms e \<and> ex_timeout_ms e \<le> 600000)"
proof (cases "\<exists>body work. qr_body req = Some body \<and> check_query parse body = Inr work")
  case False
  then show ?thesis using assms(2) by (auto simp: gw_query_def split: option.splits sum.splits)
next
  case True
  then obtain body work where b: "qr_body req = Some body" "check_query parse body = Inr work" by blast
  obtain n m where "gw_row_limit cfg body = Some n" "1 \<le> n" "n \<le> cf_gw_query_max_rows cfg"
    "gw_timeout_ms cfg body = Some m" "1000 \<le> m" "m \<le> 600000"
    using gw_limits [OF assms(1)] by metis
  then show ?thesis using assms(2) b check_query_ok [OF b(2)] by (auto simp: gw_query_def Let_def)
qed

section \<open>Cancellation\<close>

text \<open>
  Runs of the gateway in which no execution id is used twice: \<open>used\<close> are the ids so far.
\<close>

inductive gw_run :: "sql_parser \<Rightarrow> (string \<Rightarrow> bool) \<Rightarrow> server_config \<Rightarrow> string set \<Rightarrow> gw_world \<Rightarrow> bool" for parse is_uuid cfg where
  gw_idle: "er_tokens (gw_registry w) = Map.empty \<Longrightarrow> er_cancelled (gw_registry w) = {} \<Longrightarrow> gw_running w = [] \<Longrightarrow>
    gw_run parse is_uuid cfg {} w"
| gw_start: "gw_run parse is_uuid cfg used w \<Longrightarrow> gw_query parse is_uuid cfg generated req w = (QueryStarted i, w') \<Longrightarrow> i \<notin> used \<Longrightarrow>
    gw_run parse is_uuid cfg (insert i used) w'"
| gw_refuse: "gw_run parse is_uuid cfg used w \<Longrightarrow> gw_query parse is_uuid cfg generated req w = (QueryRefused n c, w') \<Longrightarrow>
    gw_run parse is_uuid cfg used w'"
| gw_cancel: "gw_run parse is_uuid cfg used w \<Longrightarrow> gw_run parse is_uuid cfg used (snd (cancel_execution i w))"
| gw_finish: "gw_run parse is_uuid cfg used w \<Longrightarrow> e \<in> set (gw_running w) \<Longrightarrow> gw_run parse is_uuid cfg used (finish_execution aio out e w)"

definition gw_inv :: "string set \<Rightarrow> gw_world \<Rightarrow> bool" where
  "gw_inv used w \<longleftrightarrow>
     distinct (map ex_token (gw_running w)) \<and> distinct (map ex_id (gw_running w)) \<and>
     (\<forall>e \<in> set (gw_running w). ex_token e < gw_next_token w \<and> ex_id e \<in> used) \<and>
     er_tokens (gw_registry w) = map_of (map (\<lambda>e. (ex_id e, ex_token e)) (gw_running w)) \<and>
     (\<forall>t \<in> er_cancelled (gw_registry w). t < gw_next_token w)"

lemma gw_query_started:
  assumes "gw_query parse is_uuid cfg generated req w = (QueryStarted i, w')"
  shows "\<exists>e. gw_running w' = e # gw_running w \<and> ex_id e = i \<and> ex_token e = gw_next_token w \<and> gw_next_token w' = Suc (gw_next_token w) \<and>
    gw_registry w' = exec_register i (gw_next_token w) (gw_registry w)"
  using assms by (auto simp: gw_query_def Let_def split: option.splits sum.splits)

lemma gw_query_refused: "gw_query parse is_uuid cfg generated req w = (QueryRefused n c, w') \<Longrightarrow> w' = w"
  by (auto simp: gw_query_def Let_def split: option.splits sum.splits)

lemma map_of_filter_token:
  assumes "distinct (map ex_token xs)" "distinct (map ex_id xs)" "e \<in> set xs"
  shows "map_of (map (\<lambda>e. (ex_id e, ex_token e)) (filter (\<lambda>x. ex_token x \<noteq> ex_token e) xs)) =
    (map_of (map (\<lambda>e. (ex_id e, ex_token e)) xs))(ex_id e := None)"
  using assms
proof (induction xs)
  case (Cons x xs)
  show ?case
  proof (cases "x = e")
    case True
    then have "filter (\<lambda>y. ex_token y \<noteq> ex_token e) xs = xs" using Cons.prems(1) by (auto simp: filter_id_conv image_iff)
    moreover have "map_of (map (\<lambda>e. (ex_id e, ex_token e)) xs) (ex_id e) = None"
      using Cons.prems(2) True by (auto simp: map_of_eq_None_iff)
    ultimately show ?thesis using True by (auto simp: fun_eq_iff)
  next
    case False
    with Cons.prems have "e \<in> set xs" "ex_token x \<noteq> ex_token e" "ex_id x \<noteq> ex_id e" by force+
    with Cons show ?thesis by (auto simp: fun_eq_iff)
  qed
qed simp

lemma gw_run_inv: "gw_run parse is_uuid cfg used w \<Longrightarrow> gw_inv used w"
proof (induction rule: gw_run.induct)
  case (gw_start used w generated req i w')
  obtain e where e: "gw_running w' = e # gw_running w" "ex_id e = i" "ex_token e = gw_next_token w"
    "gw_next_token w' = Suc (gw_next_token w)" "gw_registry w' = exec_register i (gw_next_token w) (gw_registry w)"
    using gw_query_started [OF gw_start.hyps(2)] by blast
  then show ?case using gw_start.IH gw_start.hyps(3)
    by (auto simp: gw_inv_def exec_register_def less_Suc_eq)
next
  case (gw_refuse used w generated req n c w')
  then show ?case using gw_query_refused by blast
next
  case (gw_cancel used w i)
  then show ?case
    by (auto simp: gw_inv_def cancel_execution_def exec_cancel_def dest!: map_of_SomeD split: option.splits)
next
  case (gw_finish used w e aio out)
  then show ?case
    using map_of_filter_token [of "gw_running w" e]
    by (auto simp: gw_inv_def finish_execution_def exec_remove_def distinct_map inj_on_def)
qed (auto simp: gw_inv_def)

text \<open>
  While no execution id is used twice, a cancellation reaches exactly the running execution it
  names, and the registry holds the running executions and no other.
\<close>

theorem cancellation_reaches_exactly_one:
  assumes "gw_run parse is_uuid cfg used w" "e \<in> set (gw_running w)"
  shows "dom (er_tokens (gw_registry w)) = ex_id ` set (gw_running w) \<and>
    er_cancelled (gw_registry (snd (cancel_execution (ex_id e) w))) = insert (ex_token e) (er_cancelled (gw_registry w)) \<and>
    (\<forall>x \<in> set (gw_running w) - {e}. ex_token x \<noteq> ex_token e)"
proof -
  note inv = gw_run_inv [OF assms(1), unfolded gw_inv_def]
  have "er_tokens (gw_registry w) (ex_id e) = Some (ex_token e)"
    using inv assms(2) by (auto simp: comp_def intro!: map_of_is_SomeI)
  moreover have "dom (er_tokens (gw_registry w)) = ex_id ` set (gw_running w)"
    using inv by (simp add: dom_map_of_conv_image_fst image_image)
  moreover have "ex_token x \<noteq> ex_token e" if "x \<in> set (gw_running w) - {e}" for x
    using inv assms(2) that by (auto simp: distinct_map inj_on_def)
  ultimately show ?thesis by (simp add: cancel_execution_def exec_cancel_def)
qed

section \<open>One query\<close>

definition wit_gw_world :: gw_world where
  "wit_gw_world = \<lparr>gw_registry = \<lparr>er_tokens = Map.empty, er_cancelled = {}\<rparr>, gw_running = [], gw_next_token = 0, gw_audit = []\<rparr>"

definition wit_query :: query_request where
  "wit_query = \<lparr>qr_user = ''u1'', qr_conn = ''c1'', qr_header = None,
     qr_body = Some \<lparr>qb_sql = Some ''SELECT 1'', qb_kind = None, qb_command = None, qb_pipeline = None, qb_atomic = None,
       qb_database = None, qb_row_limit = Some 0, qb_timeout_ms = None\<rparr>\<rparr>"

definition wit_execution :: execution where
  "wit_execution = \<lparr>ex_id = ''e1'', ex_token = 0, ex_user = ''u1'', ex_conn = ''c1'', ex_database = None, ex_work = SqlWork ''SELECT 1'',
     ex_row_limit = 1, ex_timeout_ms = 30000\<rparr>"

definition wit_config :: server_config where
  "wit_config = config_with sample_env ''s1'' ''s1''"

definition wit_gw_started :: gw_world where
  "wit_gw_started = wit_gw_world\<lparr>gw_registry := exec_register ''e1'' 0 (gw_registry wit_gw_world), gw_next_token := 1,
     gw_running := [wit_execution]\<rparr>"

lemma wit_limits:
  assumes "qb_row_limit body = Some 0" "qb_timeout_ms body = None"
  shows "gw_row_limit wit_config body = Some 1" "gw_timeout_ms wit_config body = Some 30000"
proof -
  have "cf_gw_query_timeout_secs wit_config = 30"
    by (simp add: wit_config_def config_with_def parse_interval_env_def sample_env_def)
  then show "gw_row_limit wit_config body = Some 1" "gw_timeout_ms wit_config body = Some 30000"
    using assms by (simp_all add: gw_row_limit_def gw_timeout_ms_def clamp_def wit_config_def sample_env_values)
qed

lemma wit_check: "trim ''SELECT 1'' = ''SELECT 1''"
  by code_simp

lemma wit_started:
  "gw_query (\<lambda>d s. None) (\<lambda>s. False) wit_config ''e1'' wit_query wit_gw_world = (QueryStarted ''e1'', wit_gw_started)"
  by (simp add: gw_query_def wit_query_def check_query_def query_kind_def check_sql_def wit_check statement_count_def parse_any_def
      wit_limits execution_id_def wit_gw_started_def wit_execution_def wit_gw_world_def Let_def)

lemma wit_gw_run: "gw_run (\<lambda>d s. None) (\<lambda>s. False) wit_config {''e1''} wit_gw_started"
  using gw_start [OF gw_idle [of wit_gw_world] wit_started] by (simp add: wit_gw_world_def)

theorem started_query_within_limits_witness:
  "\<forall>e \<in> set (gw_running wit_gw_started). 1 \<le> ex_row_limit e \<and> ex_row_limit e \<le> 10 \<and> ex_timeout_ms e \<le> 600000"
proof -
  have "config_in_range wit_config" unfolding wit_config_def by (rule config_with_in_range)
  from started_query_within_limits [OF this wit_started]
  show ?thesis by (simp add: wit_gw_world_def wit_config_def sample_env_values)
qed

theorem cancellation_reaches_exactly_one_witness:
  "er_cancelled (gw_registry (snd (cancel_execution ''e1'' wit_gw_started))) = {0}"
proof -
  have "wit_execution \<in> set (gw_running wit_gw_started)" by (simp add: wit_gw_started_def)
  from cancellation_reaches_exactly_one [OF wit_gw_run this]
  show ?thesis by (simp add: wit_execution_def wit_gw_started_def wit_gw_world_def exec_register_def)
qed

subsection \<open>What goes wrong\<close>

text \<open>
  A client may use an id again while it runs. The first execution then has no entry: it cannot be
  cancelled any more, and its end takes away the entry of the second.
\<close>

lemma reused_id_hides_the_first:
  "t \<noteq> t' \<Longrightarrow> t \<notin> er_cancelled r \<Longrightarrow> t \<notin> er_cancelled (snd (exec_cancel i (exec_register i t' (exec_register i t r))))"
  by (simp add: exec_cancel_def exec_register_def)

lemma end_of_the_first_unregisters_the_second:
  "exec_cancel i (exec_remove i (exec_register i t' (exec_register i t r))) = (False, exec_remove i r)"
  by (simp add: exec_cancel_def exec_register_def exec_remove_def)

text \<open>A cancellation that arrives before its query is forgotten, although it is said to be possible at any time.\<close>

lemma early_cancel_is_lost:
  assumes "er_tokens r i = None" "t \<notin> er_cancelled r"
  shows "t \<notin> er_cancelled (exec_register i t (snd (exec_cancel i r)))"
  using assms by (simp add: exec_cancel_def exec_register_def)

text \<open>When the client has left four events unread, a panic ends the stream without any error event.\<close>

lemma panic_may_end_silently: "panic_events sse_channel_batches reason = []"
  by (simp add: panic_events_def)

text \<open>A subscription that opens while its connection is removed is registered afterwards and lives on.\<close>

lemma late_subscription_survives:
  assumes "t \<notin> sr_cancelled r" "t \<notin> set (sr_tokens r i)"
  shows "t \<notin> sr_cancelled (sub_register i t (sub_revoke i r)) \<and> t \<in> set (sr_tokens (sub_register i t (sub_revoke i r)) i)"
  using assms by (simp add: sub_register_def sub_revoke_def)

section \<open>Subscription queries\<close>

definition percent_encode :: "string \<Rightarrow> string" where
  "percent_encode s = concat (map (\<lambda>c. [CHR ''%'', hex_digit (ccode c div 16), hex_digit (ccode c mod 16)]) s)"

lemma ccode_hex_digit: "d < 16 \<Longrightarrow> ccode (hex_digit d) = (if d < 10 then 48 + d else 87 + d)"
  by (simp add: hex_digit_def ccode_def take_bit_eq_mod)

lemma percent_decode_encode: "percent_decode (percent_encode s) = Some s"
proof (induction s)
  case (Cons c s)
  have b: "ccode c < 256" by (simp add: ccode_def)
  have "\<not> continuation (percent_encode s)"
    by (cases s) (simp_all add: percent_encode_def continuation_def ccode_def)
  moreover have "radix_byte (hex_digit (ccode c div 16)) (hex_digit (ccode c mod 16)) = Some (ccode c)"
    using b by (simp add: radix_byte_def hex_nibble_digit del: hex_nibble.simps)
  moreover have "char_of (ccode c) = c" by (simp add: ccode_def)
  ultimately show ?case using Cons.IH by (simp add: percent_encode_def)
qed (simp add: percent_encode_def)

lemma hex_digit_codes: "n < 16 \<Longrightarrow> ccode (hex_digit n) \<in> {48..57} \<union> {97..102}"
  by (auto simp: ccode_hex_digit)

lemma encoded_char: "d \<in> set (percent_encode s) \<Longrightarrow> ccode d \<in> {37} \<union> {48..57} \<union> {97..102}"
proof (induction s)
  case (Cons c s)
  have h: "ccode (hex_digit (ccode c div 16)) \<in> {48..57} \<union> {97..102}" "ccode (hex_digit (ccode c mod 16)) \<in> {48..57} \<union> {97..102}"
    by (rule hex_digit_codes, simp add: ccode_def less_mult_imp_div_less)+
  have p: "ccode CHR ''%'' = 37" by (simp add: ccode_def)
  have "d = CHR ''%'' \<or> d = hex_digit (ccode c div 16) \<or> d = hex_digit (ccode c mod 16) \<or> d \<in> set (percent_encode s)"
    using Cons.prems by (simp add: percent_encode_def)
  then show ?case
    using h p Cons.IH by (elim disjE) (simp_all only: Un_iff insert_iff simp_thms, blast+)
qed (simp add: percent_encode_def)

lemma encoded_plain: "CHR ''&'' \<notin> set (percent_encode s)"
proof
  assume "CHR ''&'' \<in> set (percent_encode s)"
  from encoded_char [OF this] show False by (simp add: ccode_def)
qed

definition sub_query :: "string list \<Rightarrow> string list \<Rightarrow> string" where
  "sub_query channels patterns =
     join ''&'' (map (\<lambda>c. ''channels='' @ percent_encode c) channels @ map (\<lambda>p. ''patterns='' @ percent_encode p) patterns)"

lemma sub_pair_encoded:
  "sub_pair (''channels='' @ percent_encode c) = Some (''channels'', c)" "sub_pair (''patterns='' @ percent_encode c) = Some (''patterns'', c)"
  by (simp_all add: sub_pair_def percent_decode_encode)

lemma sub_pairs_append: "sub_pairs (xs @ ys) = (case (sub_pairs xs, sub_pairs ys) of (Some a, Some b) \<Rightarrow> Some (a @ b) | _ \<Rightarrow> None)"
  by (induction xs) (auto split: option.splits)

lemma sub_pairs_encoded:
  "sub_pairs (map (\<lambda>c. ''channels='' @ percent_encode c) cs) = Some (map (Pair ''channels'') cs)"
  "sub_pairs (map (\<lambda>c. ''patterns='' @ percent_encode c) cs) = Some (map (Pair ''patterns'') cs)"
  by (induction cs) (simp_all add: sub_pair_encoded [unfolded append.simps])

lemma pairs_of_append: "pairs_of k (xs @ ys) = pairs_of k xs @ pairs_of k ys"
  by (simp add: pairs_of_def)

lemma pairs_of_keyed: "pairs_of k (map (Pair k') cs) = (if k = k' then cs else [])"
  by (induction cs) (simp_all add: pairs_of_def comp_def)

text \<open>
  Channel and pattern names, given as the bytes of their texts, are read back from their
  percent-encoded query: every name, and in order.
\<close>

theorem channel_names_read_back:
  "parse_redis_sub_query (Some (sub_query channels patterns)) = Some (channels, patterns)"
proof -
  let ?ws = "map (\<lambda>c. ''channels='' @ percent_encode c) channels @ map (\<lambda>p. ''patterns='' @ percent_encode p) patterns"
  have amp: "CHR ''&'' \<notin> set w" if "w \<in> set ?ws" for w
    using that encoded_plain by auto
  have ne: "filter (\<lambda>p. p \<noteq> []) ?ws = ?ws" by (auto simp: filter_id_conv)
  have "filter (\<lambda>p. p \<noteq> []) (split_on CHR ''&'' (sub_query channels patterns)) = ?ws"
  proof (cases "?ws = []")
    case True
    then show ?thesis by (simp add: sub_query_def)
  next
    case False
    then have "split_on CHR ''&'' (sub_query channels patterns) = ?ws" unfolding sub_query_def by (intro split_on_join amp)
    with ne show ?thesis by simp
  qed
  then show ?thesis
    by (simp add: parse_redis_sub_query_def sub_pairs_append sub_pairs_encoded pairs_of_append pairs_of_keyed del: append_Cons)
qed

text \<open>A percent sign before two characters that end inside a character panics.\<close>

lemma decoding_may_panic: "percent_decode [CHR ''%'', CHR ''a'', char_of (195::nat), char_of (169::nat)] = None"
proof -
  have "ccode (char_of (169::nat)) = 169" by (simp add: ccode_def take_bit_eq_mod)
  then show ?thesis by (simp add: continuation_def)
qed

text \<open>At most 64 targets are forwarded, and a refused subscription is not registered.\<close>

lemma subscriptions_bounded:
  "redis_subscribe opened sub_ok i t raw r = (Subscribed cs ps, r') \<Longrightarrow>
     1 \<le> length cs + length ps \<and> length cs + length ps \<le> 64 \<and> [] \<notin> set cs \<union> set ps \<and> r' = sub_register i t r"
  by (auto simp: redis_subscribe_def redis_sub_max_targets_def Let_def Suc_le_eq split: option.splits if_splits sum.splits)

end
