(* ===== verification/Spec2Isabelle.thy ===== *)
theory Spec2Isabelle
  imports Rust_Prelude Sql_Split Sql_Risk Rate_Limiter Redaction Audit_Trail Mcp_Tokens Request_Guards
    Drift_Snapshot Drift_Diff Health_Alert Webhook_Delivery Health_Runner Sync_Config Sync_Sql Sync_Targets
    Sync_Runner License Entitlement Credentials Automation_Store Ddl_Approvals Automation_Api Mcp_Tools Accounts
    Workspaces Text_Case Query_Stats Native_Collector Redis_Leg Mysql_Family Txn_Sessions Drift_Collector Drift_Runner
    Task_Schedulers Server_Config Server_App Ssh_Tunnel Gateway_Connections Gateway_Queries
begin

text \<open>
  A verification of the dbmaster server.

  HEADER
\<close>

end
